(* ===== verification/Drift_Prelude.thy ===== *)
theory Drift_Prelude
  imports Main "HOL-Library.Word"
begin

text \<open>
  Shared vocabulary of the development: the machine integer types of the Rust sources, the
  checked and saturating operations the sources call on them, \<open>Result\<close> values as sums with the
  early return of the question mark operator, \<open>Duration\<close> and \<open>Instant\<close> as nanosecond counts, and
  ordered maps (\<open>BTreeMap\<close>) as key-sorted association lists. The collections declared here carry
  the proofs of the component theories.
\<close>

named_theorems word_ops \<open>values of the checked and saturating integer operations\<close>
named_theorems ordmap_laws \<open>lookup after an update of an ordered map\<close>

subsection \<open>Machine integers\<close>

type_synonym u8 = "8 word"
type_synonym u16 = "16 word"
type_synonym u32 = "32 word"
type_synonym u64 = "64 word"

definition saturating_add :: "'a::len word \<Rightarrow> 'a word \<Rightarrow> 'a word" where
  "saturating_add a b = (if unat a + unat b < 2 ^ LENGTH('a) then a + b else - 1)"

definition saturating_sub :: "'a::len word \<Rightarrow> 'a word \<Rightarrow> 'a word" where
  "saturating_sub a b = (if b \<le> a then a - b else 0)"

definition saturating_mul :: "'a::len word \<Rightarrow> 'a word \<Rightarrow> 'a word" where
  "saturating_mul a b = (if unat a * unat b < 2 ^ LENGTH('a) then a * b else - 1)"

definition checked_add :: "'a::len word \<Rightarrow> 'a word \<Rightarrow> 'a word option" where
  "checked_add a b = (if unat a + unat b < 2 ^ LENGTH('a) then Some (a + b) else None)"

definition checked_sub :: "'a::len word \<Rightarrow> 'a word \<Rightarrow> 'a word option" where
  "checked_sub a b = (if b \<le> a then Some (a - b) else None)"

lemma unat_minus_one_word: "unat (- 1 :: 'a::len word) = 2 ^ LENGTH('a) - 1"
  by (simp add: unsigned_minus_1_eq_mask mask_eq_exp_minus_1)

lemma unat_add_no_wrap:
  "unat a + unat b < 2 ^ LENGTH('a) \<Longrightarrow> unat (a + b) = unat a + unat b"
  for a b :: "'a::len word"
  by (simp add: unat_word_ariths)

lemma unat_mult_no_wrap:
  "unat a * unat b < 2 ^ LENGTH('a) \<Longrightarrow> unat (a * b) = unat a * unat b"
  for a b :: "'a::len word"
  by (simp add: unat_word_ariths)

lemma unat_saturating_add [word_ops]:
  "unat (saturating_add a b) = min (unat a + unat b) (2 ^ LENGTH('a) - 1)"
  for a b :: "'a::len word"
proof (cases "unat a + unat b < 2 ^ LENGTH('a)")
  case True
  then show ?thesis
    by (simp only: saturating_add_def unat_add_no_wrap if_True; linarith)
next
  case False
  then show ?thesis
    by (simp only: saturating_add_def unat_minus_one_word if_False; linarith)
qed

lemma unat_saturating_sub [word_ops]: "unat (saturating_sub a b) = unat a - unat b"
  by (auto simp: saturating_sub_def unat_sub word_le_nat_alt)

lemma unat_saturating_mul [word_ops]:
  "unat (saturating_mul a b) = min (unat a * unat b) (2 ^ LENGTH('a) - 1)"
  for a b :: "'a::len word"
proof (cases "unat a * unat b < 2 ^ LENGTH('a)")
  case True
  then show ?thesis
    by (simp only: saturating_mul_def unat_mult_no_wrap if_True; linarith)
next
  case False
  then show ?thesis
    by (simp only: saturating_mul_def unat_minus_one_word if_False; linarith)
qed

lemma checked_add_Some [word_ops]:
  "checked_add a b = Some c \<longleftrightarrow> unat c = unat a + unat b"
  for a b c :: "'a::len word"
proof (cases "unat a + unat b < 2 ^ LENGTH('a)")
  case True
  then show ?thesis
    by (auto simp: checked_add_def unat_add_no_wrap word_unat_eq_iff)
next
  case False
  then show ?thesis
    by (metis checked_add_def option.simps(3) unsigned_less)
qed

lemma checked_sub_Some [word_ops]:
  "checked_sub a b = Some c \<longleftrightarrow> b \<le> a \<and> unat c = unat a - unat b"
  by (auto simp: checked_sub_def unat_sub word_unat_eq_iff)

lemma checked_sub_None [word_ops]: "checked_sub a b = None \<longleftrightarrow> a < b"
  by (auto simp: checked_sub_def not_le)

lemma unat_ucast_up [word_ops]:
  "LENGTH('a) \<le> LENGTH('b) \<Longrightarrow> unat (ucast (x :: 'a::len word) :: 'b::len word) = unat x"
  by (simp add: unsigned_ucast_eq take_bit_nat_eq_self_iff order_less_le_trans [OF unsigned_less])

lemma unat_two_power: "k < LENGTH('a) \<Longrightarrow> unat (2 ^ k :: 'a::len word) = 2 ^ k"
proof -
  assume "k < LENGTH('a)"
  then have "(2::nat) ^ k < 2 ^ LENGTH('a)" by simp
  then have "unat (of_nat (2 ^ k) :: 'a word) = 2 ^ k"
    by (simp only: unsigned_of_nat take_bit_nat_eq_self of_nat_id)
  then show ?thesis by simp
qed

subsection \<open>Results and the early return\<close>

type_synonym ('e, 'a) result = "'e + 'a"

fun and_then :: "('e, 'a) result \<Rightarrow> ('a \<Rightarrow> ('e, 'b) result) \<Rightarrow> ('e, 'b) result" where
  "and_then (Inl e) f = Inl e"
| "and_then (Inr a) f = f a"

definition ok_or :: "'a option \<Rightarrow> 'e \<Rightarrow> ('e, 'a) result" where
  "ok_or x e = (case x of None \<Rightarrow> Inl e | Some a \<Rightarrow> Inr a)"

lemma and_then_Inr_iff: "and_then r f = Inr b \<longleftrightarrow> (\<exists>a. r = Inr a \<and> f a = Inr b)"
  by (cases r) auto

lemma and_then_Inl_iff:
  "and_then r f = Inl e \<longleftrightarrow> r = Inl e \<or> (\<exists>a. r = Inr a \<and> f a = Inl e)"
  by (cases r) auto

lemma ok_or_Inr_iff [simp]: "ok_or x e = Inr a \<longleftrightarrow> x = Some a"
  by (cases x) (auto simp: ok_or_def)

lemma ok_or_Inl_iff [simp]: "ok_or x e = Inl e' \<longleftrightarrow> x = None \<and> e' = e"
  by (cases x) (auto simp: ok_or_def)

lemma ok_or_simps [simp]: "ok_or (Some a) e = Inr a" "ok_or None e = Inl e"
  by (simp_all add: ok_or_def)

text \<open>\<open>iter().map(f).collect::<Result<Vec<_>, _>>()\<close>: the first error wins.\<close>

fun try_map :: "('a \<Rightarrow> ('e, 'b) result) \<Rightarrow> 'a list \<Rightarrow> ('e, 'b list) result" where
  "try_map f [] = Inr []"
| "try_map f (x # xs) = and_then (f x) (\<lambda>y. and_then (try_map f xs) (\<lambda>ys. Inr (y # ys)))"

lemma try_map_Inr_iff:
  "try_map f xs = Inr ys \<longleftrightarrow> list_all2 (\<lambda>x y. f x = Inr y) xs ys"
  by (induction xs arbitrary: ys)
    (auto simp: and_then_Inr_iff list_all2_Cons1)

lemma try_map_Inl: "try_map f xs = Inl e \<Longrightarrow> \<exists>x \<in> set xs. f x = Inl e"
  by (induction xs) (auto simp: and_then_Inl_iff)

subsection \<open>Time\<close>

text \<open>
  A \<open>std::time::Duration\<close> is a number of nanoseconds below \<open>2 ^ 64\<close> seconds, an
  \<open>std::time::Instant\<close> a reading of a monotonic clock in nanoseconds.
\<close>

type_synonym duration = nat
type_synonym instant = nat

definition duration_max :: duration where
  "duration_max = (2 ^ 64 - 1) * 10 ^ 9 + (10 ^ 9 - 1)"

definition duration_millis :: "nat \<Rightarrow> duration" where
  "duration_millis ms = ms * 10 ^ 6"

definition duration_secs :: "nat \<Rightarrow> duration" where
  "duration_secs s = s * 10 ^ 9"

definition as_millis :: "duration \<Rightarrow> nat" where
  "as_millis d = d div 10 ^ 6"

definition duration_checked_mul :: "duration \<Rightarrow> nat \<Rightarrow> duration option" where
  "duration_checked_mul d k = (if d * k \<le> duration_max then Some (d * k) else None)"

text \<open>\<open>Instant::saturating_duration_since\<close>: zero when the argument is later.\<close>

definition duration_since :: "instant \<Rightarrow> instant \<Rightarrow> duration" where
  "duration_since now t = now - t"

lemma as_millis_millis [simp]: "as_millis (duration_millis ms) = ms"
  by (simp add: as_millis_def duration_millis_def)

lemma as_millis_mono: "a \<le> b \<Longrightarrow> as_millis a \<le> as_millis b"
  by (simp add: as_millis_def div_le_mono)

lemma duration_millis_as_millis_le: "duration_millis (as_millis d) \<le> d"
  by (simp add: as_millis_def duration_millis_def)

subsection \<open>Ordered maps\<close>

text \<open>
  \<open>BTreeMap<K, V>\<close> as an association list sorted by key: iteration is by ascending key, lookup
  is \<open>map_of\<close>.
\<close>

type_synonym ('k, 'v) ordmap = "('k \<times> 'v) list"

fun om_insert :: "'k::linorder \<Rightarrow> 'v \<Rightarrow> ('k, 'v) ordmap \<Rightarrow> ('k, 'v) ordmap" where
  "om_insert k v [] = [(k, v)]"
| "om_insert k v ((k', v') # xs) =
     (if k < k' then (k, v) # (k', v') # xs
      else if k = k' then (k, v) # xs
      else (k', v') # om_insert k v xs)"

definition om_remove :: "'k \<Rightarrow> ('k, 'v) ordmap \<Rightarrow> ('k, 'v) ordmap" where
  "om_remove k m = filter (\<lambda>(k', _). k' \<noteq> k) m"

abbreviation om_keys :: "('k, 'v) ordmap \<Rightarrow> 'k list" where
  "om_keys m \<equiv> map fst m"

definition om_contains :: "('k, 'v) ordmap \<Rightarrow> 'k \<Rightarrow> bool" where
  "om_contains m k = (map_of m k \<noteq> None)"

definition om_wf :: "('k::linorder, 'v) ordmap \<Rightarrow> bool" where
  "om_wf m = sorted_wrt (<) (om_keys m)"

lemma map_of_om_insert [simp, ordmap_laws]: "map_of (om_insert k v m) = (map_of m)(k \<mapsto> v)"
  by (induction k v m rule: om_insert.induct) auto

lemma map_of_om_remove [simp, ordmap_laws]: "map_of (om_remove k m) = (map_of m)(k := None)"
  by (induction m) (auto simp: om_remove_def)

lemma set_keys_om_insert [simp]: "fst ` set (om_insert k v m) = insert k (fst ` set m)"
  by (induction k v m rule: om_insert.induct) auto

lemma set_keys_om_remove [simp]: "fst ` set (om_remove k m) = fst ` set m - {k}"
  by (induction m) (auto simp: om_remove_def)

lemma om_wf_Nil [simp]: "om_wf []"
  by (simp add: om_wf_def)

lemma om_wf_insert [simp]: "om_wf m \<Longrightarrow> om_wf (om_insert k v m)"
  unfolding om_wf_def
  by (induction k v m rule: om_insert.induct) (auto simp: image_iff)

lemma om_wf_remove [simp]: "om_wf m \<Longrightarrow> om_wf (om_remove k m)"
  unfolding om_wf_def om_remove_def
  by (induction m) auto

lemma om_wf_distinct: "om_wf m \<Longrightarrow> distinct (om_keys m)"
  by (simp add: om_wf_def strict_sorted_iff)

lemma om_contains_iff: "om_contains m k \<longleftrightarrow> k \<in> set (om_keys m)"
  by (simp add: om_contains_def map_of_eq_None_iff)

lemma om_contains_insert [simp]: "om_contains (om_insert k v m) k' \<longleftrightarrow> k' = k \<or> om_contains m k'"
  by (simp add: om_contains_def)

lemma om_contains_remove [simp]: "om_contains (om_remove k m) k' \<longleftrightarrow> k' \<noteq> k \<and> om_contains m k'"
  by (simp add: om_contains_def)

text \<open>
  The contract of an ordered map the components rely on: a lookup sees the last write, and the
  iteration order is a function of the contents.
\<close>

locale ordered_map =
  fixes empty :: "'m"
    and ins :: "'k::linorder \<Rightarrow> 'v \<Rightarrow> 'm \<Rightarrow> 'm"
    and del :: "'k \<Rightarrow> 'm \<Rightarrow> 'm"
    and look :: "'m \<Rightarrow> 'k \<Rightarrow> 'v option"
    and keys :: "'m \<Rightarrow> 'k list"
    and wf :: "'m \<Rightarrow> bool"
  assumes look_empty: "look empty k = None"
    and look_ins: "look (ins k v m) = (look m)(k \<mapsto> v)"
    and look_del: "look (del k m) = (look m)(k := None)"
    and wf_empty: "wf empty"
    and wf_ins: "wf m \<Longrightarrow> wf (ins k v m)"
    and wf_del: "wf m \<Longrightarrow> wf (del k m)"
    and keys_sorted: "wf m \<Longrightarrow> sorted_wrt (<) (keys m)"
    and keys_dom: "set (keys m) = dom (look m)"
begin

lemma del_ins_same: "look (del k (ins k v m)) = (look m)(k := None)"
  by (simp add: look_ins look_del)

lemma ins_ins_same: "look (ins k v (ins k w m)) = look (ins k v m)"
  by (simp add: look_ins)

lemma keys_determined:
  assumes "wf m" and "wf n" and "look m = look n"
  shows "keys m = keys n"
  using assms keys_sorted keys_dom
  by (metis strict_sorted_iff sorted_distinct_set_unique)

lemma keys_ins: "set (keys (ins k v m)) = insert k (set (keys m))"
  by (auto simp: keys_dom look_ins)

end

interpretation om: ordered_map "[]" om_insert om_remove map_of om_keys om_wf
  by unfold_locales (auto simp: om_wf_def dom_map_of_conv_image_fst simp flip: om_wf_def)

end
