(* ===== verification/Core_Geometry.thy ===== *)
theory Core_Geometry
  imports Drift_Prelude
begin

text \<open>
  \<open>crates/drift-core/src/geometry.rs\<close>: sizes, points, pixel rectangles and colours. A rectangle
  has half-open edges; its right and bottom edges saturate, so the containment test of the
  graphics client is exact only where the edges do not overflow, which \<open>fits_within_exact\<close>
  makes precise.
\<close>

record 'a Size =
  width :: 'a
  height :: 'a

type_synonym DesktopSize = "u32 Size"

record 'a Point =
  pt_x :: 'a
  pt_y :: 'a

record Rect =
  rect_x :: u32
  rect_y :: u32
  rect_width :: u32
  rect_height :: u32

record Bgra =
  bgra_b :: u8
  bgra_g :: u8
  bgra_r :: u8
  bgra_a :: u8

definition Size_new :: "'a \<Rightarrow> 'a \<Rightarrow> 'a Size" where
  "Size_new w h = \<lparr>width = w, height = h\<rparr>"

definition Point_new :: "'a \<Rightarrow> 'a \<Rightarrow> 'a Point" where
  "Point_new x y = \<lparr>pt_x = x, pt_y = y\<rparr>"

definition Rect_new :: "u32 \<Rightarrow> u32 \<Rightarrow> u32 \<Rightarrow> u32 \<Rightarrow> Rect" where
  "Rect_new x y w h = \<lparr>rect_x = x, rect_y = y, rect_width = w, rect_height = h\<rparr>"

definition from_ltrb :: "u32 \<Rightarrow> u32 \<Rightarrow> u32 \<Rightarrow> u32 \<Rightarrow> Rect option" where
  "from_ltrb l t r b =
     (case checked_sub r l of
        None \<Rightarrow> None
      | Some w \<Rightarrow> (case checked_sub b t of
          None \<Rightarrow> None
        | Some h \<Rightarrow> Some \<lparr>rect_x = l, rect_y = t, rect_width = w, rect_height = h\<rparr>))"

definition right :: "Rect \<Rightarrow> u32" where
  "right r = saturating_add (rect_x r) (rect_width r)"

definition bottom :: "Rect \<Rightarrow> u32" where
  "bottom r = saturating_add (rect_y r) (rect_height r)"

definition rect_size :: "Rect \<Rightarrow> u32 Size" where
  "rect_size r = Size_new (rect_width r) (rect_height r)"

definition rect_is_empty :: "Rect \<Rightarrow> bool" where
  "rect_is_empty r = (rect_width r = 0 \<or> rect_height r = 0)"

definition fits_within :: "Rect \<Rightarrow> u32 Size \<Rightarrow> bool" where
  "fits_within r bounds = (right r \<le> width bounds \<and> bottom r \<le> height bounds)"

definition Bgra_new :: "u8 \<Rightarrow> u8 \<Rightarrow> u8 \<Rightarrow> u8 \<Rightarrow> Bgra" where
  "Bgra_new b g r a = \<lparr>bgra_b = b, bgra_g = g, bgra_r = r, bgra_a = a\<rparr>"

definition to_bytes :: "Bgra \<Rightarrow> u8 list" where
  "to_bytes c = [bgra_b c, bgra_g c, bgra_r c, bgra_a c]"

text \<open>The pixels a rectangle covers, as unbounded coordinates.\<close>

definition covers :: "Rect \<Rightarrow> nat \<Rightarrow> nat \<Rightarrow> bool" where
  "covers r px py \<longleftrightarrow>
     unat (rect_x r) \<le> px \<and> px < unat (rect_x r) + unat (rect_width r) \<and>
     unat (rect_y r) \<le> py \<and> py < unat (rect_y r) + unat (rect_height r)"

definition in_bounds :: "u32 Size \<Rightarrow> nat \<Rightarrow> nat \<Rightarrow> bool" where
  "in_bounds b px py \<longleftrightarrow> px < unat (width b) \<and> py < unat (height b)"

lemma size_simps [simp]:
  "width (Size_new w h) = w" "height (Size_new w h) = h"
  "width (rect_size r) = rect_width r" "height (rect_size r) = rect_height r"
  by (simp_all add: Size_new_def rect_size_def)

lemma unat_right: "unat (right r) = min (unat (rect_x r) + unat (rect_width r)) (2 ^ 32 - 1)"
  by (simp add: right_def word_ops)

lemma unat_bottom: "unat (bottom r) = min (unat (rect_y r) + unat (rect_height r)) (2 ^ 32 - 1)"
  by (simp add: bottom_def word_ops)

lemma from_ltrb_Some_iff:
  "from_ltrb l t r b = Some q \<longleftrightarrow>
     l \<le> r \<and> t \<le> b \<and> q = \<lparr>rect_x = l, rect_y = t, rect_width = r - l, rect_height = b - t\<rparr>"
  by (auto simp: from_ltrb_def checked_sub_def split: option.splits)

lemma from_ltrb_None_iff: "from_ltrb l t r b = None \<longleftrightarrow> r < l \<or> b < t"
  by (auto simp: from_ltrb_def checked_sub_def not_le split: option.splits)

lemma from_ltrb_edges:
  assumes "from_ltrb l t r b = Some q"
  shows "right q = r" and "bottom q = b"
proof -
  have lt: "unat r < 2 ^ 32" "unat b < 2 ^ 32"
    using unsigned_less [of r] unsigned_less [of b] by simp_all
  from assms have q: "l \<le> r" "t \<le> b"
      "q = \<lparr>rect_x = l, rect_y = t, rect_width = r - l, rect_height = b - t\<rparr>"
    by (simp_all add: from_ltrb_Some_iff)
  have "unat (right q) = unat r" "unat (bottom q) = unat b"
    using q lt by (auto simp: unat_right unat_bottom unat_sub word_le_nat_alt)
  then show "right q = r" and "bottom q = b" by (simp_all add: word_unat_eq_iff)
qed

text \<open>A rectangle that passes the test covers only pixels of the surface.\<close>

lemma fits_within_covers:
  assumes "fits_within r b" and "unat (width b) < 2 ^ 32 - 1" and "unat (height b) < 2 ^ 32 - 1"
    and "covers r px py"
  shows "in_bounds b px py"
  using assms unat_right [of r] unat_bottom [of r]
  by (auto simp: fits_within_def covers_def in_bounds_def word_le_nat_alt)

lemma fits_within_exact:
  assumes "unat (width b) < 2 ^ 32 - 1" and "unat (height b) < 2 ^ 32 - 1"
    and "\<not> rect_is_empty r"
  shows "fits_within r b \<longleftrightarrow> (\<forall>px py. covers r px py \<longrightarrow> in_bounds b px py)"
proof
  assume "fits_within r b"
  then show "\<forall>px py. covers r px py \<longrightarrow> in_bounds b px py"
    using fits_within_covers [OF _ assms(1,2)] by blast
next
  assume all: "\<forall>px py. covers r px py \<longrightarrow> in_bounds b px py"
  from assms(3) have pos: "0 < unat (rect_width r)" "0 < unat (rect_height r)"
    by (auto simp: rect_is_empty_def unat_gt_0)
  then have "covers r (unat (rect_x r) + unat (rect_width r) - 1)
      (unat (rect_y r) + unat (rect_height r) - 1)"
    by (auto simp: covers_def)
  from all [rule_format, OF this] pos have "unat (rect_x r) + unat (rect_width r) \<le> unat (width b)"
    "unat (rect_y r) + unat (rect_height r) \<le> unat (height b)"
    by (auto simp: in_bounds_def)
  then show "fits_within r b"
    by (auto simp: fits_within_def word_le_nat_alt unat_right unat_bottom min_le_iff_disj)
qed

end
