(* ===== verification/Rust_Str.thy ===== *)
theory Rust_Str
  imports Drift_Prelude
begin

text \<open>
  Rust strings as lists of Unicode scalar values, with the parts of \<open>str\<close> and \<open>char\<close> that the
  sources call: UTF-8 length, trimming, splitting, ASCII classes, decimal and hexadecimal text,
  and the address parsers of \<open>std::net\<close>.
\<close>

type_synonym rchar = nat
type_synonym rstr = "rchar list"

definition lit :: "string \<Rightarrow> rstr" where
  "lit s = map of_char s"

subsection \<open>Characters\<close>

definition len_utf8 :: "rchar \<Rightarrow> nat" where
  "len_utf8 c = (if c < 128 then 1 else if c < 2048 then 2 else if c < 65536 then 3 else 4)"

definition str_len :: "rstr \<Rightarrow> nat" where
  "str_len s = sum_list (map len_utf8 s)"

text \<open>The Unicode \<open>White_Space\<close> property (\<open>char::is_whitespace\<close>) and the general category
  \<open>Cc\<close> (\<open>char::is_control\<close>).\<close>

definition is_whitespace :: "rchar \<Rightarrow> bool" where
  "is_whitespace c =
     (9 \<le> c \<and> c \<le> 13 \<or> c = 32 \<or> c = 133 \<or> c = 160 \<or> c = 5760 \<or>
      8192 \<le> c \<and> c \<le> 8202 \<or> c = 8232 \<or> c = 8233 \<or> c = 8239 \<or> c = 8287 \<or> c = 12288)"

definition is_control :: "rchar \<Rightarrow> bool" where
  "is_control c = (c < 32 \<or> 127 \<le> c \<and> c < 160)"

definition is_ascii_digit :: "rchar \<Rightarrow> bool" where
  "is_ascii_digit c = (48 \<le> c \<and> c \<le> 57)"

definition is_ascii_alphabetic :: "rchar \<Rightarrow> bool" where
  "is_ascii_alphabetic c = (65 \<le> c \<and> c \<le> 90 \<or> 97 \<le> c \<and> c \<le> 122)"

definition is_ascii_alphanumeric :: "rchar \<Rightarrow> bool" where
  "is_ascii_alphanumeric c = (is_ascii_digit c \<or> is_ascii_alphabetic c)"

definition is_ascii_hexdigit :: "rchar \<Rightarrow> bool" where
  "is_ascii_hexdigit c = (is_ascii_digit c \<or> 65 \<le> c \<and> c \<le> 70 \<or> 97 \<le> c \<and> c \<le> 102)"

definition to_ascii_lowercase :: "rchar \<Rightarrow> rchar" where
  "to_ascii_lowercase c = (if 65 \<le> c \<and> c \<le> 90 then c + 32 else c)"

definition hex_value :: "rchar \<Rightarrow> nat" where
  "hex_value c = (if is_ascii_digit c then c - 48 else if 97 \<le> c then c - 87 else c - 55)"

definition hex_digit :: "nat \<Rightarrow> rchar" where
  "hex_digit n = (if n < 10 then 48 + n else 87 + n)"

lemma hex_value_digit [simp]: "n < 16 \<Longrightarrow> hex_value (hex_digit n) = n"
  by (auto simp: hex_value_def hex_digit_def is_ascii_digit_def)

lemma hex_digit_is_hexdigit [simp]: "n < 16 \<Longrightarrow> is_ascii_hexdigit (hex_digit n)"
  by (auto simp: is_ascii_hexdigit_def hex_digit_def is_ascii_digit_def)

lemma hex_digit_value: "is_ascii_hexdigit c \<Longrightarrow> hex_digit (hex_value c) = to_ascii_lowercase c"
  by (auto simp: is_ascii_hexdigit_def hex_digit_def hex_value_def is_ascii_digit_def
      to_ascii_lowercase_def)

lemma hex_value_less [simp]: "is_ascii_hexdigit c \<Longrightarrow> hex_value c < 16"
  by (auto simp: is_ascii_hexdigit_def hex_value_def is_ascii_digit_def)

lemma hex_digit_not_colon [simp]: "n < 16 \<Longrightarrow> hex_digit n \<noteq> 58"
  by (auto simp: hex_digit_def)

lemma hex_digit_not_whitespace [simp]: "n < 16 \<Longrightarrow> \<not> is_whitespace (hex_digit n)"
  by (auto simp: hex_digit_def is_whitespace_def)

subsection \<open>Slicing\<close>

definition trim_start :: "rstr \<Rightarrow> rstr" where
  "trim_start s = dropWhile is_whitespace s"

definition trim :: "rstr \<Rightarrow> rstr" where
  "trim s = rev (dropWhile is_whitespace (rev (trim_start s)))"

lemma dropWhile_hd: "xs = [] \<or> \<not> P (hd xs) \<Longrightarrow> dropWhile P xs = xs"
  by (cases xs) auto

lemma trim_id:
  assumes "s = [] \<or> \<not> is_whitespace (hd s) \<and> \<not> is_whitespace (last s)"
  shows "trim s = s"
proof -
  from assms have "trim_start s = s" by (auto simp: trim_start_def intro!: dropWhile_hd)
  moreover from assms have "dropWhile is_whitespace (rev s) = rev s"
    by (intro dropWhile_hd) (auto simp: hd_rev)
  ultimately show ?thesis by (simp add: trim_def)
qed

text \<open>\<open>str::split\<close> on one separator character: always at least one piece.\<close>

fun split_on :: "rchar \<Rightarrow> rstr \<Rightarrow> rstr list" where
  "split_on d [] = [[]]"
| "split_on d (c # cs) =
     (if c = d then [] # split_on d cs
      else case split_on d cs of
             [] \<Rightarrow> [[c]]
           | p # ps \<Rightarrow> (c # p) # ps)"

fun join_with :: "rchar \<Rightarrow> rstr list \<Rightarrow> rstr" where
  "join_with d [] = []"
| "join_with d [p] = p"
| "join_with d (p # q # ps) = p @ d # join_with d (q # ps)"

lemma split_on_not_Nil [simp]: "split_on d s \<noteq> []"
  by (induction s) (auto split: list.splits)

lemma split_on_no_sep: "p \<in> set (split_on d s) \<Longrightarrow> d \<notin> set p"
  by (induction s arbitrary: p) (fastforce split: list.splits if_splits)+

lemma split_on_single: "d \<notin> set p \<Longrightarrow> split_on d p = [p]"
  by (induction p) auto

lemma split_on_append: "d \<notin> set p \<Longrightarrow> split_on d (p @ d # s) = p # split_on d s"
  by (induction p) auto

lemma split_join: "ps \<noteq> [] \<Longrightarrow> (\<And>p. p \<in> set ps \<Longrightarrow> d \<notin> set p) \<Longrightarrow> split_on d (join_with d ps) = ps"
  by (induction d ps rule: join_with.induct) (auto simp: split_on_single split_on_append)

lemma join_with_Cons: "ps \<noteq> [] \<Longrightarrow> join_with d (p # ps) = p @ d # join_with d ps"
  by (cases ps) auto

lemma join_split: "join_with d (split_on d s) = s"
proof (induction s)
  case (Cons c cs)
  then obtain p ps where ps: "split_on d cs = p # ps"
    by (cases "split_on d cs") auto
  with Cons show ?case
    by (cases ps) (auto simp: join_with_Cons)
qed simp

fun strip_prefix :: "rstr \<Rightarrow> rstr \<Rightarrow> rstr option" where
  "strip_prefix [] s = Some s"
| "strip_prefix (c # cs) [] = None"
| "strip_prefix (c # cs) (d # ds) = (if c = d then strip_prefix cs ds else None)"

definition strip_suffix :: "rstr \<Rightarrow> rstr \<Rightarrow> rstr option" where
  "strip_suffix x s = map_option rev (strip_prefix (rev x) (rev s))"

lemma strip_prefix_Some: "strip_prefix p s = Some r \<longleftrightarrow> s = p @ r"
  by (induction p s rule: strip_prefix.induct) auto

lemma strip_suffix_Some: "strip_suffix x s = Some r \<longleftrightarrow> s = r @ x"
proof -
  have "strip_suffix x s = Some r \<longleftrightarrow> strip_prefix (rev x) (rev s) = Some (rev r)"
    by (cases "strip_prefix (rev x) (rev s)") (auto simp: strip_suffix_def)
  also have "\<dots> \<longleftrightarrow> rev s = rev (r @ x)" by (simp add: strip_prefix_Some)
  also have "\<dots> \<longleftrightarrow> s = r @ x" by (simp only: rev_is_rev_conv)
  finally show ?thesis .
qed

fun contains_str :: "rstr \<Rightarrow> rstr \<Rightarrow> bool" where
  "contains_str x [] = (x = [])"
| "contains_str x (c # cs) = (strip_prefix x (c # cs) \<noteq> None \<or> contains_str x cs)"

text \<open>\<open>str::rsplit_once\<close>: the parts before and after the last separator.\<close>

definition rsplit_once :: "rchar \<Rightarrow> rstr \<Rightarrow> (rstr \<times> rstr) option" where
  "rsplit_once d s =
     (if d \<in> set s
      then Some (rev (tl (dropWhile (\<lambda>c. c \<noteq> d) (rev s))), rev (takeWhile (\<lambda>c. c \<noteq> d) (rev s)))
      else None)"

lemma rsplit_once_None: "rsplit_once d s = None \<longleftrightarrow> d \<notin> set s"
  by (simp add: rsplit_once_def)

lemma rsplit_once_Some: "rsplit_once d s = Some (a, b) \<longleftrightarrow> s = a @ d # b \<and> d \<notin> set b"
proof
  assume "rsplit_once d s = Some (a, b)"
  then have d: "d \<in> set s"
    and a: "a = rev (tl (dropWhile (\<lambda>c. c \<noteq> d) (rev s)))"
    and b: "b = rev (takeWhile (\<lambda>c. c \<noteq> d) (rev s))"
    by (auto simp: rsplit_once_def split: if_splits)
  from d have ne: "dropWhile (\<lambda>c. c \<noteq> d) (rev s) \<noteq> []"
    by (simp add: dropWhile_eq_Nil_conv)
  obtain x xs where x: "dropWhile (\<lambda>c. c \<noteq> d) (rev s) = x # xs"
    using ne by (meson neq_Nil_conv)
  have "x = d" using hd_dropWhile [OF ne] x by simp
  moreover have "xs = rev a" by (simp add: a x)
  ultimately have "rev s = rev b @ d # rev a"
    using takeWhile_dropWhile_id [of "\<lambda>c. c \<noteq> d" "rev s"] by (simp add: x b)
  then have "rev s = rev (a @ d # b)" by simp
  then have "s = a @ d # b" by (simp only: rev_is_rev_conv)
  moreover have "d \<notin> set b" by (auto simp: b dest: set_takeWhileD)
  ultimately show "s = a @ d # b \<and> d \<notin> set b" by simp
next
  assume s: "s = a @ d # b \<and> d \<notin> set b"
  then have "takeWhile (\<lambda>c. c \<noteq> d) (rev s) = rev b"
    by (auto simp: takeWhile_append)
  moreover from s have "dropWhile (\<lambda>c. c \<noteq> d) (rev s) = d # rev a"
    by (auto simp: dropWhile_append)
  ultimately show "rsplit_once d s = Some (a, b)"
    using s by (simp add: rsplit_once_def)
qed

subsection \<open>Numbers as text\<close>

fun dec_digits :: "nat \<Rightarrow> rstr" where
  "dec_digits n = (if n < 10 then [48 + n] else dec_digits (n div 10) @ [48 + n mod 10])"

declare dec_digits.simps [simp del]

definition dec_value :: "rstr \<Rightarrow> nat" where
  "dec_value s = foldl (\<lambda>v c. 10 * v + (c - 48)) 0 s"

lemma dec_digits_not_Nil [simp]: "dec_digits n \<noteq> []"
  by (subst dec_digits.simps) simp

lemma dec_digits_ascii: "c \<in> set (dec_digits n) \<Longrightarrow> is_ascii_digit c"
proof (induction n rule: dec_digits.induct)
  case (1 n)
  then show ?case
    by (subst (asm) (2) dec_digits.simps) (auto simp: is_ascii_digit_def split: if_splits)
qed

lemma dec_value_digits [simp]: "dec_value (dec_digits n) = n"
proof (induction n rule: dec_digits.induct)
  case (1 n)
  then show ?case
    by (subst dec_digits.simps) (auto simp: dec_value_def)
qed

subsection \<open>Internet addresses\<close>

text \<open>
  \<open>Ipv4Addr::from_str\<close>: four decimal octets without leading zeros; \<open>Ipv6Addr::from_str\<close>: up to
  eight groups of one to four hexadecimal digits with at most one \<open>::\<close> and an optional IPv4 tail.
  The parser functions follow \<open>core::net::parser\<close>: a group reader that stops at the first piece
  that is not a group.
\<close>

definition parse_octet :: "rstr \<Rightarrow> nat option" where
  "parse_octet p =
     (if p \<noteq> [] \<and> length p \<le> 3 \<and> list_all is_ascii_digit p \<and> (length p = 1 \<or> hd p \<noteq> 48)
         \<and> dec_value p < 256
      then Some (dec_value p) else None)"

fun all_some :: "'a option list \<Rightarrow> 'a list option" where
  "all_some [] = Some []"
| "all_some (None # xs) = None"
| "all_some (Some x # xs) = map_option (Cons x) (all_some xs)"

definition parse_ipv4 :: "rstr \<Rightarrow> nat list option" where
  "parse_ipv4 s =
     (let ps = split_on 46 s
      in if length ps = 4 then all_some (map parse_octet ps) else None)"

definition is_ipv4 :: "rstr \<Rightarrow> bool" where
  "is_ipv4 s = (parse_ipv4 s \<noteq> None)"

definition is_group :: "rstr \<Rightarrow> bool" where
  "is_group p = (p \<noteq> [] \<and> length p \<le> 4 \<and> list_all is_ascii_hexdigit p)"

text \<open>The number of 16-bit groups of a colon-separated run, its last piece possibly an IPv4
  address, which counts twice; \<open>None\<close> when a piece is neither.\<close>

fun group_count :: "rstr list \<Rightarrow> nat option" where
  "group_count [] = Some 0"
| "group_count [p] = (if is_group p then Some 1 else if is_ipv4 p then Some 2 else None)"
| "group_count (p # ps) = (if is_group p then map_option Suc (group_count ps) else None)"

definition run_count :: "rstr \<Rightarrow> nat option" where
  "run_count s = (if s = [] then Some 0 else group_count (split_on 58 s))"

text \<open>The parts before and after the first double colon.\<close>

fun split_double_colon :: "rstr \<Rightarrow> (rstr \<times> rstr) option" where
  "split_double_colon [] = None"
| "split_double_colon [c] = None"
| "split_double_colon (c # d # s) =
     (if c = 58 \<and> d = 58 then Some ([], s)
      else map_option (\<lambda>(a, b). (c # a, b)) (split_double_colon (d # s)))"

definition has_ipv4_tail :: "rstr \<Rightarrow> bool" where
  "has_ipv4_tail s = (46 \<in> set s)"

definition is_ipv6 :: "rstr \<Rightarrow> bool" where
  "is_ipv6 s =
     (case split_double_colon s of
        None \<Rightarrow> run_count s = Some 8
      | Some (a, b) \<Rightarrow>
          \<not> has_ipv4_tail a \<and>
          (case (run_count a, run_count b) of
             (Some n, Some m) \<Rightarrow> n + m \<le> 7
           | _ \<Rightarrow> False))"

end
