(* ===== verification/Core_State.thy ===== *)
theory Core_State
  imports Core_Geometry Rust_Str
begin

text \<open>
  \<open>crates/drift-core/src/state.rs\<close>: the session state machine. \<open>transition\<close> is the code's gate;
  \<open>doc_rule\<close> restates the transition rules of its documentation comment as an inductive relation,
  \<open>session_path\<close> the sequences of states the gate admits. The lemmas: the gate is the documented
  relation on well-formed states, it keeps well-formedness, and what a path can and cannot do.
\<close>

subsection \<open>Data\<close>

definition MAX_REDIRECTS :: u8 where "MAX_REDIRECTS = 4"
definition MAX_LEG :: u8 where "MAX_LEG = 1 + MAX_REDIRECTS"

datatype ConnectStage = Tcp | Tls | Nla | Rdstls | Activation

datatype DisconnectReason =
    Network | TlsEof | ServerShutdown | Timeout | AuthFailed
  | RdstlsFailed u32 | CertMismatch | ProtocolError rstr | RedirectLoopReason
  | UserClosed | LoggedOffRemotely | LocalNetworkDenied

fun is_retryable :: "DisconnectReason \<Rightarrow> bool" where
  "is_retryable Network = True"
| "is_retryable TlsEof = True"
| "is_retryable ServerShutdown = True"
| "is_retryable Timeout = True"
| "is_retryable _ = False"

datatype SessionState =
    Idle
  | Connecting u8 ConnectStage
  | AwaitingGreeterLogin
  | Connected DesktopSize u32
  | Reconnecting u32 duration DisconnectReason
  | Disconnected DisconnectReason
  | Failed DisconnectReason

datatype InvalidTransition = InvalidTransition SessionState SessionState

subsection \<open>The gate\<close>

text \<open>The first match of \<open>allows\<close>: whether a target is valid whatever the source state.\<close>

fun target_valid :: "SessionState \<Rightarrow> bool" where
  "target_valid (Connecting leg _) = (1 \<le> leg \<and> leg \<le> MAX_LEG)"
| "target_valid (Reconnecting attempt _ reason) = (attempt \<noteq> 0 \<and> is_retryable reason)"
| "target_valid _ = True"

text \<open>The second match: the pairs of states.\<close>

fun pair_allowed :: "SessionState \<Rightarrow> SessionState \<Rightarrow> bool" where
  "pair_allowed Idle (Connecting leg _) = (leg = 1)"
| "pair_allowed (Disconnected _) (Connecting leg _) = (leg = 1)"
| "pair_allowed (Failed _) (Connecting leg _) = (leg = 1)"
| "pair_allowed (Disconnected _) Idle = True"
| "pair_allowed (Failed _) Idle = True"
| "pair_allowed Idle (Disconnected reason) = (reason = UserClosed)"
| "pair_allowed (Connecting from_leg _) (Connecting to_leg _) =
     (to_leg = from_leg \<or> Some to_leg = checked_add from_leg 1)"
| "pair_allowed (Connecting leg _) AwaitingGreeterLogin = (2 \<le> leg)"
| "pair_allowed (Connecting _ _) (Connected _ _) = True"
| "pair_allowed AwaitingGreeterLogin (Connecting leg _) = (2 \<le> leg)"
| "pair_allowed (Connected _ _) (Connecting leg _) = (2 \<le> leg)"
| "pair_allowed (Connected _ _) (Connected _ _) = True"
| "pair_allowed (Connecting _ _) (Reconnecting _ _ _) = True"
| "pair_allowed (Connecting _ _) (Disconnected _) = True"
| "pair_allowed (Connecting _ _) (Failed _) = True"
| "pair_allowed AwaitingGreeterLogin (Reconnecting _ _ _) = True"
| "pair_allowed AwaitingGreeterLogin (Disconnected _) = True"
| "pair_allowed AwaitingGreeterLogin (Failed _) = True"
| "pair_allowed (Connected _ _) (Reconnecting _ _ _) = True"
| "pair_allowed (Connected _ _) (Disconnected _) = True"
| "pair_allowed (Connected _ _) (Failed _) = True"
| "pair_allowed (Reconnecting from_n _ _) (Reconnecting to_n _ _) = (from_n \<le> to_n)"
| "pair_allowed (Reconnecting _ _ _) (Connecting leg _) = (leg = 1)"
| "pair_allowed (Reconnecting _ _ _) (Disconnected _) = True"
| "pair_allowed (Reconnecting _ _ _) (Failed _) = True"
| "pair_allowed _ _ = False"

definition allows :: "SessionState \<Rightarrow> SessionState \<Rightarrow> bool" where
  "allows s next = (target_valid next \<and> pair_allowed s next)"

definition transition :: "SessionState \<Rightarrow> SessionState \<Rightarrow> (InvalidTransition, SessionState) result" where
  "transition s next = (if allows s next then Inr next else Inl (InvalidTransition s next))"

fun is_active :: "SessionState \<Rightarrow> bool" where
  "is_active (Connecting _ _) = True"
| "is_active AwaitingGreeterLogin = True"
| "is_active (Connected _ _) = True"
| "is_active _ = False"

subsection \<open>The documented rules\<close>

inductive doc_rule :: "SessionState \<Rightarrow> SessionState \<Rightarrow> bool" where
  start: "s = Idle \<or> (\<exists>r. s = Disconnected r) \<or> (\<exists>r. s = Failed r) \<Longrightarrow>
     doc_rule s (Connecting 1 st)"
| clear: "(\<exists>r. s = Disconnected r) \<or> (\<exists>r. s = Failed r) \<Longrightarrow> doc_rule s Idle"
| cancel: "doc_rule Idle (Disconnected UserClosed)"
| progress: "unat to_leg = unat from_leg \<or> unat to_leg = unat from_leg + 1 \<Longrightarrow> to_leg \<le> MAX_LEG \<Longrightarrow>
     1 \<le> to_leg \<Longrightarrow> doc_rule (Connecting from_leg st) (Connecting to_leg st')"
| greeter: "2 \<le> leg \<Longrightarrow> doc_rule (Connecting leg st) AwaitingGreeterLogin"
| live: "doc_rule (Connecting leg st) (Connected d sc)"
| redirect: "s = AwaitingGreeterLogin \<or> (\<exists>d sc. s = Connected d sc) \<Longrightarrow> 2 \<le> leg \<Longrightarrow> leg \<le> MAX_LEG \<Longrightarrow>
     doc_rule s (Connecting leg st)"
| resize: "doc_rule (Connected d sc) (Connected d' sc')"
| drop_retry: "is_active s \<Longrightarrow> is_retryable r \<Longrightarrow> 1 \<le> n \<Longrightarrow> doc_rule s (Reconnecting n t r)"
| drop_end: "is_active s \<Longrightarrow> doc_rule s (Disconnected r)"
| drop_fail: "is_active s \<Longrightarrow> doc_rule s (Failed r)"
| backoff: "from_n \<le> to_n \<Longrightarrow> is_retryable r' \<Longrightarrow>
     doc_rule (Reconnecting from_n t r) (Reconnecting to_n t' r')"
| retry: "doc_rule (Reconnecting n t r) (Connecting 1 st)"
| stop_end: "doc_rule (Reconnecting n t r) (Disconnected r')"
| stop_fail: "doc_rule (Reconnecting n t r) (Failed r')"

inductive_cases doc_rule_to_Connecting: "doc_rule s (Connecting leg st)"
inductive_cases doc_rule_to_Reconnecting: "doc_rule s (Reconnecting n t r)"
inductive_cases doc_rule_to_Greeter: "doc_rule s AwaitingGreeterLogin"
inductive_simps doc_rule_from_Idle: "doc_rule Idle s"

lemma leg_bounds: "(1::u8) \<le> MAX_LEG" "MAX_LEG \<noteq> 0" "unat MAX_LEG = 5"
  by (simp_all add: MAX_LEG_def MAX_REDIRECTS_def)

lemma transition_Inr_iff: "transition s t = Inr u \<longleftrightarrow> u = t \<and> allows s t"
  by (auto simp: transition_def)

lemma target_valid_iff:
  "target_valid s \<longleftrightarrow>
     (\<forall>leg st. s = Connecting leg st \<longrightarrow> 1 \<le> leg \<and> leg \<le> MAX_LEG) \<and>
     (\<forall>n t r. s = Reconnecting n t r \<longrightarrow> n \<noteq> 0 \<and> is_retryable r)"
  by (cases s) auto

lemma one_le_word_iff: "(1::'a::len word) \<le> n \<longleftrightarrow> n \<noteq> 0"
  by (simp add: word_le_nat_alt unat_gt_0 Suc_le_eq flip: unat_gt_0)

lemma checked_add_one: "Some t = checked_add f 1 \<longleftrightarrow> unat t = unat f + 1" for f t :: u8
  using checked_add_Some [of f 1 t] by (auto simp: eq_commute [of "Some t"])

lemma doc_rule_target_valid: "doc_rule s t \<Longrightarrow> target_valid s \<Longrightarrow> target_valid t"
proof (induction rule: doc_rule.induct)
  case (backoff from_n to_n r' t r t')
  then show ?case by (metis one_le_word_iff order_trans target_valid.simps(2))
next
  case (redirect s leg st)
  then show ?case by (auto simp: word_le_nat_alt)
qed (auto simp: leg_bounds one_le_word_iff)

lemma pair_allowed_drop:
  "is_active s \<Longrightarrow> pair_allowed s (Reconnecting n t r) \<and> pair_allowed s (Disconnected q) \<and> pair_allowed s (Failed q)"
  by (cases s) auto

lemma allows_doc_rule:
  assumes "allows s t"
  shows "doc_rule s t"
proof -
  from assms have v: "target_valid t" and p: "pair_allowed s t" by (simp_all add: allows_def)
  show ?thesis
  proof (cases t)
    case (Connecting leg st)
    with p v show ?thesis
      by (cases s) (auto intro: doc_rule.intros simp: checked_add_one)
  next
    case (Reconnecting n u r)
    with v have "1 \<le> n" "is_retryable r" by (auto simp: one_le_word_iff)
    with p Reconnecting show ?thesis by (cases s) (auto intro: doc_rule.intros)
  qed (use p in \<open>cases s; auto intro: doc_rule.intros\<close>)+
qed

lemma pair_allowed_of_rule: "doc_rule s t \<Longrightarrow> pair_allowed s t"
proof (induction rule: doc_rule.induct)
  case (progress to_leg from_leg st st')
  then show ?case by (auto simp: checked_add_one word_unat_eq_iff)
qed (auto simp: pair_allowed_drop)

lemma allows_iff_doc_rule: "target_valid s \<Longrightarrow> allows s t \<longleftrightarrow> doc_rule s t"
  by (metis allows_def allows_doc_rule doc_rule_target_valid pair_allowed_of_rule)

subsection \<open>Paths\<close>

text \<open>The states a session runs through when every change passes the gate.\<close>

inductive session_path :: "SessionState \<Rightarrow> SessionState list \<Rightarrow> bool" where
  stay: "session_path s []"
| step: "transition s t = Inr t \<Longrightarrow> session_path t ts \<Longrightarrow> session_path s (t # ts)"

inductive_simps session_path_Nil [simp]: "session_path s []"
inductive_simps session_path_Cons [simp]: "session_path s (t # ts)"

lemma session_path_append:
  "session_path s (ts @ us) \<longleftrightarrow> session_path s ts \<and> session_path (last (s # ts)) us"
  by (induction ts arbitrary: s) auto

lemma allows_target_valid: "allows s t \<Longrightarrow> target_valid t"
  by (simp add: allows_def)

lemma session_path_valid: "session_path s ts \<Longrightarrow> t \<in> set ts \<Longrightarrow> target_valid t"
  by (induction ts arbitrary: s) (auto simp: transition_Inr_iff allows_target_valid)

text \<open>The leg a state has got to within one attempt; zero where no attempt is under way.\<close>

fun leg_floor :: "SessionState \<Rightarrow> nat" where
  "leg_floor (Connecting leg _) = unat leg"
| "leg_floor AwaitingGreeterLogin = 2"
| "leg_floor (Connected _ _) = 1"
| "leg_floor _ = 0"

lemma inactive_exit:
  "allows s t \<Longrightarrow> \<not> is_active s \<Longrightarrow> is_active t \<Longrightarrow> \<exists>st. t = Connecting 1 st"
  by (cases s; cases t) (auto simp: allows_def)

lemma greeter_entry: "allows s AwaitingGreeterLogin \<Longrightarrow> \<exists>leg st. s = Connecting leg st \<and> 2 \<le> leg"
  by (cases s) (auto simp: allows_def)

lemma reconnecting_entry:
  "allows s (Reconnecting n t r) \<Longrightarrow>
     is_retryable r \<and> n \<noteq> 0 \<and> (is_active s \<or> (\<exists>m u q. s = Reconnecting m u q \<and> m \<le> n))"
  by (cases s) (auto simp: allows_def)

lemma reconnecting_run_mono:
  assumes "session_path (Reconnecting n t r) ts"
    and "\<forall>s \<in> set ts. \<exists>m u q. s = Reconnecting m u q"
  shows "\<forall>m u q. Reconnecting m u q \<in> set ts \<longrightarrow> n \<le> m \<and> is_retryable q"
  using assms
proof (induction ts arbitrary: n t r rule: list.induct)
  case (Cons s ts)
  then obtain m u q where s: "s = Reconnecting m u q" by auto
  with Cons.prems have le: "n \<le> m" "is_retryable q"
    by (auto simp: transition_Inr_iff dest: reconnecting_entry)
  from Cons.prems s have "\<forall>m' u' q'. Reconnecting m' u' q' \<in> set ts \<longrightarrow> m \<le> m' \<and> is_retryable q'"
    by (intro Cons.IH) auto
  with s le show ?case by (auto intro: order_trans)
qed simp

text \<open>
  Before the greeter is shown, the same attempt has opened leg 1 and a later leg: going back
  from the greeter, the active states end in \<open>Connecting 1\<close>.
\<close>

lemma active_run_starts_at_leg_1:
  assumes "session_path s ts" and "\<not> is_active s" and "ts \<noteq> []" and "is_active (last ts)"
  shows "\<exists>us vs st. ts = us @ Connecting 1 st # vs \<and> (\<forall>v \<in> set vs. is_active v)"
  using assms
proof (induction ts arbitrary: s rule: rev_induct)
  case (snoc t ts)
  show ?case
  proof (cases "is_active (last (s # ts))")
    case True
    with snoc.prems have ne: "ts \<noteq> []" "session_path s ts" "is_active (last ts)"
      by (auto simp: session_path_append split: if_splits)
    obtain us vs st where "ts = us @ Connecting 1 st # vs" "\<forall>v \<in> set vs. is_active v"
      using snoc.IH [OF ne(2) snoc.prems(2) ne(1) ne(3)] by blast
    with snoc.prems(4) show ?thesis
      by (intro exI [of _ us] exI [of _ "vs @ [t]"] exI [of _ st]) auto
  next
    case False
    from snoc.prems have "allows (last (s # ts)) t" "is_active t"
      by (auto simp: session_path_append transition_Inr_iff)
    with False obtain st where "t = Connecting 1 st"
      by (meson inactive_exit)
    then show ?thesis
      by (intro exI [of _ ts] exI [of _ "[]"] exI [of _ st]) auto
  qed
qed simp

end
