(* ===== verification/Core_Reconnect.thy ===== *)
theory Core_Reconnect
  imports Core_State
begin

unbundle bit_operations_syntax

text \<open>
  \<open>crates/drift-core/src/reconnect.rs\<close>: the backoff policy. The operations are translated one by
  one over the policy record; \<open>policy_step\<close> and \<open>policy_run\<close> feed it a sequence of events. The
  lemmas bound every delay by the documented ceiling, keep the attempt count within the budget and
  describe the effect of the network and of a stable connection.
\<close>

subsection \<open>Data\<close>

record ReconnectConfig =
  base :: duration
  cap :: duration
  max_attempts :: "u32 option"
  stable_after :: duration

definition DEFAULT_MAX_ATTEMPTS :: u32 where "DEFAULT_MAX_ATTEMPTS = 20"

definition ReconnectConfig_default :: ReconnectConfig where
  "ReconnectConfig_default =
     \<lparr>base = duration_millis 500, cap = duration_secs 30,
      max_attempts = Some DEFAULT_MAX_ATTEMPTS, stable_after = duration_secs 60\<rparr>"

datatype GiveUpReason = NotRetryable | AttemptsExhausted

datatype ReconnectDecision = Retry u32 duration | WaitForNetwork u32 | GiveUp GiveUpReason

subsection \<open>SplitMix64\<close>

record SplitMix64 =
  rng_state :: u64

definition SplitMix64_new :: "u64 \<Rightarrow> SplitMix64" where
  "SplitMix64_new seed = \<lparr>rng_state = seed\<rparr>"

definition next_u64 :: "SplitMix64 \<Rightarrow> u64 \<times> SplitMix64" where
  "next_u64 g =
     (let s = rng_state g + 0x9E3779B97F4A7C15;
          z = s;
          z = (z XOR drop_bit 30 z) * 0xBF58476D1CE4E5B9;
          z = (z XOR drop_bit 27 z) * 0x94D049BB133111EB
      in (z XOR drop_bit 31 z, g\<lparr>rng_state := s\<rparr>))"

text \<open>The multiply-shift is done on 128 bits, where \<open>max + 1\<close> and the product cannot overflow.\<close>

definition below_or_eq :: "SplitMix64 \<Rightarrow> u64 \<Rightarrow> u64 \<times> SplitMix64" where
  "below_or_eq g mx =
     (let span = (ucast mx :: 128 word) + 1;
          (z, g') = next_u64 g
      in (ucast (drop_bit 64 ((ucast z :: 128 word) * span)), g'))"

subsection \<open>The policy\<close>

record ReconnectPolicy =
  config :: ReconnectConfig
  rng :: SplitMix64
  attempts :: u32
  connected_since :: "instant option"
  network_reachable :: bool

definition ReconnectPolicy_new :: "ReconnectConfig \<Rightarrow> u64 \<Rightarrow> ReconnectPolicy" where
  "ReconnectPolicy_new c seed =
     \<lparr>config = c, rng = SplitMix64_new seed, attempts = 0, connected_since = None,
      network_reachable = True\<rparr>"

definition checked_shl_one :: "u32 \<Rightarrow> u32 option" where
  "checked_shl_one e = (if unat e < 32 then Some (push_bit (unat e) 1) else None)"

definition ceiling :: "ReconnectPolicy \<Rightarrow> u32 \<Rightarrow> duration" where
  "ceiling p attempt =
     (let e = min (saturating_sub attempt 1) 63;
          factor = (case checked_shl_one e of Some f \<Rightarrow> f | None \<Rightarrow> - 1)
      in case duration_checked_mul (base (config p)) (unat factor) of
           None \<Rightarrow> cap (config p)
         | Some d \<Rightarrow> min d (cap (config p)))"

definition on_connected :: "ReconnectPolicy \<Rightarrow> instant \<Rightarrow> ReconnectPolicy" where
  "on_connected p now = p\<lparr>connected_since := Some now\<rparr>"

definition u64_try_from :: "nat \<Rightarrow> u64" where
  "u64_try_from n = (if n < 2 ^ 64 then of_nat n else - 1)"

definition next_decision :: "ReconnectPolicy \<Rightarrow> bool \<Rightarrow> ReconnectDecision \<times> ReconnectPolicy" where
  "next_decision p jitter =
     (if \<not> network_reachable p then (WaitForNetwork (saturating_add (attempts p) 1), p)
      else if (case max_attempts (config p) of None \<Rightarrow> False | Some mx \<Rightarrow> mx \<le> attempts p)
      then (GiveUp AttemptsExhausted, p)
      else
        let p = p\<lparr>attempts := saturating_add (attempts p) 1\<rparr>
        in if jitter
           then let (ms, g) = below_or_eq (rng p) (u64_try_from (as_millis (ceiling p (attempts p))))
                in (Retry (attempts p) (duration_millis (unat ms)), p\<lparr>rng := g\<rparr>)
           else (Retry (attempts p) 0, p))"

definition forget_if_stable :: "ReconnectPolicy \<Rightarrow> instant \<Rightarrow> ReconnectPolicy" where
  "forget_if_stable p now =
     (case connected_since p of
        None \<Rightarrow> p
      | Some since \<Rightarrow>
          (let p = p\<lparr>connected_since := None\<rparr>
           in if stable_after (config p) \<le> duration_since now since
              then p\<lparr>attempts := 0\<rparr> else p))"

definition on_disconnect ::
    "ReconnectPolicy \<Rightarrow> DisconnectReason \<Rightarrow> instant \<Rightarrow> ReconnectDecision \<times> ReconnectPolicy" where
  "on_disconnect p reason now =
     (let p = forget_if_stable p now
      in if \<not> is_retryable reason then (GiveUp NotRetryable, p)
         else next_decision p True)"

definition set_network_reachable :: "ReconnectPolicy \<Rightarrow> bool \<Rightarrow> ReconnectPolicy" where
  "set_network_reachable p reachable = p\<lparr>network_reachable := reachable\<rparr>"

definition retry_now :: "ReconnectPolicy \<Rightarrow> ReconnectDecision \<times> ReconnectPolicy" where
  "retry_now p = next_decision p False"

definition policy_reset :: "ReconnectPolicy \<Rightarrow> ReconnectPolicy" where
  "policy_reset p = p\<lparr>attempts := 0, connected_since := None\<rparr>"

subsection \<open>Runs\<close>

datatype PolicyEvent =
    EvConnected instant
  | EvDisconnect DisconnectReason instant
  | EvNetwork bool
  | EvRetryNow
  | EvReset

fun policy_step :: "ReconnectPolicy \<Rightarrow> PolicyEvent \<Rightarrow> ReconnectDecision option \<times> ReconnectPolicy" where
  "policy_step p (EvConnected now) = (None, on_connected p now)"
| "policy_step p (EvDisconnect r now) = (case on_disconnect p r now of (d, q) \<Rightarrow> (Some d, q))"
| "policy_step p (EvNetwork up) = (None, set_network_reachable p up)"
| "policy_step p EvRetryNow = (case retry_now p of (d, q) \<Rightarrow> (Some d, q))"
| "policy_step p EvReset = (None, policy_reset p)"

fun policy_run :: "ReconnectPolicy \<Rightarrow> PolicyEvent list \<Rightarrow> ReconnectDecision option list \<times> ReconnectPolicy" where
  "policy_run p [] = ([], p)"
| "policy_run p (e # es) =
     (let (d, q) = policy_step p e; (ds, r) = policy_run q es in (d # ds, r))"

definition retries :: "ReconnectDecision option list \<Rightarrow> nat" where
  "retries ds = length (filter (\<lambda>d. \<exists>n t. d = Some (Retry n t)) ds)"

subsection \<open>Lemmas\<close>

lemma below_or_eq_le: "fst (below_or_eq g mx) \<le> mx"
proof -
  obtain z g' where z: "next_u64 g = (z, g')" by fastforce
  let ?span = "(ucast mx :: 128 word) + 1"
  have mx: "unat mx < 2 ^ 64" and zb: "unat z < 2 ^ 64"
    using unsigned_less [of mx] unsigned_less [of z] by simp_all
  have span: "unat ?span = unat mx + 1"
  proof -
    have "unat (ucast mx :: 128 word) + unat (1 :: 128 word) < 2 ^ LENGTH(128)"
      using mx by (simp add: word_ops)
    from unat_add_no_wrap [OF this] show ?thesis by (simp add: word_ops)
  qed
  have zlt: "unat z * (unat mx + 1) < 2 ^ 64 * (unat mx + 1)"
    by (rule mult_strict_right_mono [OF zb]) simp
  also have "2 ^ 64 * (unat mx + 1) \<le> (2 ^ 64 * 2 ^ 64 :: nat)"
    using mx by (intro mult_le_mono) simp_all
  finally have lt: "unat z * (unat mx + 1) < 2 ^ 128" by simp
  have prod: "unat ((ucast z :: 128 word) * ?span) = unat z * (unat mx + 1)"
    using lt by (subst unat_mult_no_wrap) (simp_all add: span word_ops)
  have q: "unat z * (unat mx + 1) div 2 ^ 64 < unat mx + 1"
    using zlt by (intro less_mult_imp_div_less) (simp only: mult.commute)
  have "unat (drop_bit 64 ((ucast z :: 128 word) * ?span)) = unat z * (unat mx + 1) div 2 ^ 64"
    by (simp only: unat_drop_bit_eq prod) (simp add: drop_bit_eq_div)
  with q mx have "unat (ucast (drop_bit 64 ((ucast z :: 128 word) * ?span)) :: u64) \<le> unat mx"
    by (simp add: unsigned_ucast_eq take_bit_nat_eq_self)
  then show ?thesis
    by (simp add: below_or_eq_def z Let_def word_le_nat_alt)
qed

lemma ceiling_le_cap: "ceiling p n \<le> cap (config p)"
  by (auto simp: ceiling_def Let_def split: option.splits)

lemma ceiling_eq:
  assumes "1 \<le> unat n" and "unat n \<le> 32" and "cap (config p) \<le> duration_max"
  shows "ceiling p n = min (cap (config p)) (base (config p) * 2 ^ (unat n - 1))"
proof -
  have e: "unat (min (saturating_sub n 1) 63 :: u32) = unat n - 1"
  proof -
    have "unat (saturating_sub n 1) = unat n - 1" by (simp add: word_ops)
    moreover from this assms have "saturating_sub n 1 \<le> 63" by (simp add: word_le_nat_alt)
    ultimately show ?thesis by (simp add: min_def)
  qed
  have f: "unat (push_bit (unat n - 1) 1 :: u32) = 2 ^ (unat n - 1)"
    using assms by (simp add: push_bit_eq_mult unat_two_power)
  have lt: "unat n - 1 < 32" using assms by simp
  have c: "checked_shl_one (min (saturating_sub n 1) 63) = Some (push_bit (unat n - 1) 1)"
    using lt by (simp only: checked_shl_one_def e if_True)
  show ?thesis
    unfolding ceiling_def Let_def c option.case f duration_checked_mul_def
    using assms(3) by (simp add: min.commute)
qed

lemma ceiling_cong: "config p = config q \<Longrightarrow> ceiling p n = ceiling q n"
  by (auto simp: ceiling_def Let_def split: option.splits)

text \<open>The saturating conversion to \<open>u64\<close> never rounds a number of milliseconds up.\<close>

lemma unat_u64_try_from_le: "unat (u64_try_from n) \<le> n"
  by (auto simp: u64_try_from_def unat_of_nat take_bit_nat_eq_self unat_minus_one_word
      simp flip: take_bit_nat_def intro: order_trans [OF take_bit_nat_less_eq_self])

definition budget_left :: "ReconnectPolicy \<Rightarrow> bool" where
  "budget_left p \<longleftrightarrow> (\<forall>mx. max_attempts (config p) = Some mx \<longrightarrow> attempts p < mx)"

lemma exhausted_iff:
  "(case max_attempts (config p) of None \<Rightarrow> False | Some mx \<Rightarrow> mx \<le> attempts p) \<longleftrightarrow> \<not> budget_left p"
  by (auto simp: budget_left_def not_less split: option.splits)

lemma next_decision_eq:
  "next_decision p j =
     (if \<not> network_reachable p then (WaitForNetwork (saturating_add (attempts p) 1), p)
      else if \<not> budget_left p then (GiveUp AttemptsExhausted, p)
      else let a = saturating_add (attempts p) 1
           in if j then let (ms, g) = below_or_eq (rng p) (u64_try_from (as_millis (ceiling p a)))
                        in (Retry a (duration_millis (unat ms)), p\<lparr>attempts := a, rng := g\<rparr>)
              else (Retry a 0, p\<lparr>attempts := a\<rparr>))"
proof -
  have "ceiling (p\<lparr>attempts := a\<rparr>) n = ceiling p n" for a n
    by (rule ceiling_cong) simp
  then show ?thesis
    unfolding next_decision_def exhausted_iff Let_def by simp
qed

lemma jitter_le_ceiling:
  assumes "below_or_eq g (u64_try_from (as_millis (ceiling p a))) = (ms, g')"
  shows "duration_millis (unat ms) \<le> ceiling p a"
proof -
  have "unat ms \<le> unat (u64_try_from (as_millis (ceiling p a)))"
    using below_or_eq_le [of g "u64_try_from (as_millis (ceiling p a))"] assms
    by (simp add: word_le_nat_alt)
  also have "\<dots> \<le> as_millis (ceiling p a)" by (rule unat_u64_try_from_le)
  finally have "duration_millis (unat ms) \<le> duration_millis (as_millis (ceiling p a))"
    by (simp add: duration_millis_def)
  also have "\<dots> \<le> ceiling p a" by (rule duration_millis_as_millis_le)
  finally show ?thesis .
qed

text \<open>The three outcomes of a decision.\<close>

lemma next_decision_cases:
  assumes "next_decision p j = (d, q)"
  shows "\<not> network_reachable p \<and> d = WaitForNetwork (saturating_add (attempts p) 1) \<and> q = p \<or>
    network_reachable p \<and> \<not> budget_left p \<and> d = GiveUp AttemptsExhausted \<and> q = p \<or>
    network_reachable p \<and> budget_left p \<and>
      (\<exists>t g. d = Retry (saturating_add (attempts p) 1) t \<and> t \<le> ceiling p (saturating_add (attempts p) 1) \<and>
        (j \<or> t = 0) \<and> q = p\<lparr>attempts := saturating_add (attempts p) 1, rng := g\<rparr>)"
proof (cases "network_reachable p \<and> budget_left p")
  case True
  let ?a = "saturating_add (attempts p) 1"
  obtain ms g where b: "below_or_eq (rng p) (u64_try_from (as_millis (ceiling p ?a))) = (ms, g)"
    by fastforce
  show ?thesis
  proof (cases j)
    case j: True
    from assms True b j have "d = Retry ?a (duration_millis (unat ms))" "q = p\<lparr>attempts := ?a, rng := g\<rparr>"
      by (simp_all add: next_decision_eq Let_def)
    with True j jitter_le_ceiling [OF b] show ?thesis by blast
  next
    case j: False
    from assms True j have "d = Retry ?a 0" "q = p\<lparr>attempts := ?a\<rparr>"
      by (simp_all add: next_decision_eq Let_def)
    moreover have "p\<lparr>attempts := ?a\<rparr> = p\<lparr>attempts := ?a, rng := rng p\<rparr>"
      by (cases p) simp
    ultimately have "d = Retry ?a 0" "q = p\<lparr>attempts := ?a, rng := rng p\<rparr>"
      by simp_all
    with True show ?thesis by blast
  qed
next
  case False
  with assms show ?thesis by (auto simp: next_decision_eq split: if_splits)
qed

text \<open>The policy's invariant: the attempts made never exceed the budget.\<close>

definition within_budget :: "ReconnectPolicy \<Rightarrow> bool" where
  "within_budget p \<longleftrightarrow> (\<forall>mx. max_attempts (config p) = Some mx \<longrightarrow> attempts p \<le> mx)"

lemma within_budget_new: "within_budget (ReconnectPolicy_new c seed)"
  by (simp add: within_budget_def ReconnectPolicy_new_def)

lemma saturating_add_one: "a < mx \<Longrightarrow> unat (saturating_add a 1) = unat a + 1" for a mx :: u32
  using unsigned_less [of mx, where 'a = nat] by (simp add: word_less_nat_alt word_ops)

lemma saturating_add_one_le: "a < mx \<Longrightarrow> saturating_add a 1 \<le> mx" for a mx :: u32
  by (simp add: word_le_nat_alt word_less_nat_alt saturating_add_one)

lemma next_decision_budget:
  assumes "within_budget p" and "next_decision p j = (d, q)"
  shows "within_budget q" and "config q = config p"
  using assms(1) next_decision_cases [OF assms(2)]
  by (auto simp: within_budget_def budget_left_def saturating_add_one_le)

lemma forget_if_stable_frame:
  "config (forget_if_stable p now) = config p"
  "network_reachable (forget_if_stable p now) = network_reachable p"
  "rng (forget_if_stable p now) = rng p"
  "connected_since (forget_if_stable p now) = None"
  "attempts (forget_if_stable p now) = 0 \<or> attempts (forget_if_stable p now) = attempts p"
  by (auto simp: forget_if_stable_def Let_def split: option.splits)

lemma forget_if_stable_budget: "within_budget p \<Longrightarrow> within_budget (forget_if_stable p now)"
  using forget_if_stable_frame [of p now] by (auto simp: within_budget_def)

lemma on_disconnect_cases:
  assumes "on_disconnect p r now = (d, q)"
  shows "\<not> is_retryable r \<and> d = GiveUp NotRetryable \<and> q = forget_if_stable p now \<or>
    is_retryable r \<and> next_decision (forget_if_stable p now) True = (d, q)"
  using assms by (auto simp: on_disconnect_def Let_def split: if_splits)

lemma policy_step_budget:
  assumes "within_budget p" and "policy_step p e = (d, q)"
  shows "within_budget q \<and> config q = config p"
proof (cases e)
  case (EvDisconnect r now)
  with assms(2) obtain d' where "on_disconnect p r now = (d', q)" by (auto split: prod.splits)
  from on_disconnect_cases [OF this] show ?thesis
    using next_decision_budget forget_if_stable_budget assms(1) forget_if_stable_frame(1)
    by metis
next
  case EvRetryNow
  with assms show ?thesis
    using next_decision_budget by (auto simp: retry_now_def split: prod.splits)
qed (use assms in \<open>auto simp: within_budget_def on_connected_def set_network_reachable_def policy_reset_def\<close>)

lemma policy_run_budget:
  "within_budget p \<Longrightarrow> policy_run p es = (ds, q) \<Longrightarrow> within_budget q \<and> config q = config p"
proof (induction es arbitrary: p ds)
  case (Cons e es)
  from Cons.prems obtain d p' ds' where "policy_step p e = (d, p')" "policy_run p' es = (ds', q)"
    by (auto simp: Let_def split: prod.splits)
  with Cons show ?case by (metis policy_step_budget)
qed simp

text \<open>
  Events that cannot reset the attempt history: everything but an established connection and an
  explicit reset. Along such a run every retry uses up budget.
\<close>

fun keeps_history :: "PolicyEvent \<Rightarrow> bool" where
  "keeps_history (EvConnected _) = False"
| "keeps_history EvReset = False"
| "keeps_history _ = True"

lemma forget_if_never_connected: "connected_since p = None \<Longrightarrow> forget_if_stable p now = p"
  by (simp add: forget_if_stable_def)

lemma policy_step_attempts:
  assumes "policy_step p e = (d, q)" and "keeps_history e" and "connected_since p = None"
    and "max_attempts (config p) = Some mx"
  shows "connected_since q = None"
    and "unat (attempts q) = unat (attempts p) + (if \<exists>n t. d = Some (Retry n t) then 1 else 0)"
proof -
  have dec: "connected_since q = None \<and>
      unat (attempts q) = unat (attempts p) + (if \<exists>n t. d = Some (Retry n t) then 1 else 0)"
    if "next_decision p j = (d', q)" "d = Some d'" for j d'
    using next_decision_cases [OF that(1)] that(2) assms(3,4) saturating_add_one
    by (auto simp: budget_left_def)
  have "connected_since q = None \<and>
      unat (attempts q) = unat (attempts p) + (if \<exists>n t. d = Some (Retry n t) then 1 else 0)"
  proof (cases e)
    case (EvDisconnect r now)
    with assms(1) obtain d' where d': "on_disconnect p r now = (d', q)" "d = Some d'"
      by (auto split: prod.splits)
    from on_disconnect_cases [OF d'(1)] show ?thesis
      using dec d'(2) assms(3) by (auto simp: forget_if_never_connected)
  next
    case EvRetryNow
    with assms(1) dec show ?thesis by (auto simp: retry_now_def split: prod.splits)
  qed (use assms in \<open>auto simp: set_network_reachable_def\<close>)
  then show "connected_since q = None"
    and "unat (attempts q) = unat (attempts p) + (if \<exists>n t. d = Some (Retry n t) then 1 else 0)"
    by simp_all
qed

lemma policy_run_attempts:
  assumes "policy_run p es = (ds, q)" and "list_all keeps_history es" and "connected_since p = None"
    and "max_attempts (config p) = Some mx" and "within_budget p"
  shows "unat (attempts q) = unat (attempts p) + retries ds"
  using assms
proof (induction es arbitrary: p ds)
  case Nil
  then show ?case by (simp add: retries_def)
next
  case (Cons e es)
  from Cons.prems(1) obtain d p' ds' where s: "policy_step p e = (d, p')"
      and r: "policy_run p' es = (ds', q)" and ds: "ds = d # ds'"
    by (auto simp: Let_def split: prod.splits)
  note st = policy_step_attempts [OF s _ Cons.prems(3,4)]
  have "unat (attempts q) = unat (attempts p') + retries ds'"
    using Cons.IH [OF r] Cons.prems st(1) policy_step_budget [OF Cons.prems(5) s] by auto
  with st(2) Cons.prems(2) ds show ?case by (auto simp: retries_def)
qed

end
