(* ===== verification/Core_Triggers.thy ===== *)
theory Core_Triggers
  imports Drift_Prelude
begin

text \<open>
  \<open>crates/drift-core/src/triggers.rs\<close>: merging platform notifications into reconnect actions.
  \<open>on_trigger\<close> is the code's handler, \<open>feed\<close> runs it over a timed sequence; the lemmas give the
  documented table, the debounce distance between two retries and the alternation of pauses.
\<close>

datatype Trigger = NetworkOffline | NetworkOnline | Wake

datatype TriggerAction = PauseReconnect | RetryNow

record TriggerMerger =
  debounce :: duration
  online :: bool
  last_retry :: "instant option"

definition DEFAULT_DEBOUNCE :: duration where "DEFAULT_DEBOUNCE = duration_secs 2"

definition with_debounce :: "bool \<Rightarrow> duration \<Rightarrow> TriggerMerger" where
  "with_debounce up d = \<lparr>debounce = d, online = up, last_retry = None\<rparr>"

definition TriggerMerger_new :: "bool \<Rightarrow> TriggerMerger" where
  "TriggerMerger_new up = with_debounce up DEFAULT_DEBOUNCE"

definition is_online :: "TriggerMerger \<Rightarrow> bool" where
  "is_online m = online m"

definition retry :: "TriggerMerger \<Rightarrow> instant \<Rightarrow> TriggerAction option \<times> TriggerMerger" where
  "retry m now =
     (if (case last_retry m of None \<Rightarrow> False | Some t \<Rightarrow> duration_since now t < debounce m)
      then (None, m)
      else (Some RetryNow, m\<lparr>last_retry := Some now\<rparr>))"

fun on_trigger :: "TriggerMerger \<Rightarrow> Trigger \<Rightarrow> instant \<Rightarrow> TriggerAction option \<times> TriggerMerger" where
  "on_trigger m NetworkOffline now =
     (let was_online = online m;
          m = m\<lparr>online := False\<rparr>;
          m = (if was_online then m\<lparr>last_retry := None\<rparr> else m)
      in (if was_online then Some PauseReconnect else None, m))"
| "on_trigger m NetworkOnline now =
     (let was_online = online m;
          m = m\<lparr>online := True\<rparr>
      in if was_online then (None, m) else retry m now)"
| "on_trigger m Wake now = (if online m then retry m now else (None, m))"

fun feed :: "TriggerMerger \<Rightarrow> (Trigger \<times> instant) list \<Rightarrow> (TriggerAction option \<times> instant) list \<times> TriggerMerger" where
  "feed m [] = ([], m)"
| "feed m ((t, now) # ts) =
     (let (a, m') = on_trigger m t now; (as, m'') = feed m' ts in ((a, now) # as, m''))"

lemma on_trigger_debounce [simp]: "debounce (snd (on_trigger m t now)) = debounce m"
  by (cases t) (auto simp: retry_def Let_def)

lemma on_trigger_RetryNow:
  "fst (on_trigger m t now) = Some RetryNow \<Longrightarrow>
     online (snd (on_trigger m t now)) \<and> last_retry (snd (on_trigger m t now)) = Some now \<and>
     (case last_retry m of None \<Rightarrow> True | Some r \<Rightarrow> debounce m \<le> now - r)"
  by (cases t) (auto simp: retry_def Let_def duration_since_def split: if_splits option.splits)

lemma on_trigger_Pause:
  "fst (on_trigger m t now) = Some PauseReconnect \<longleftrightarrow> t = NetworkOffline \<and> online m"
  by (cases t) (auto simp: retry_def Let_def split: if_splits option.splits)

lemma on_trigger_online:
  "online (snd (on_trigger m t now)) = (case t of NetworkOffline \<Rightarrow> False | NetworkOnline \<Rightarrow> True | Wake \<Rightarrow> online m)"
  by (cases t) (auto simp: retry_def Let_def)

lemma on_trigger_keeps_last:
  assumes "fst (on_trigger m t now) = None"
  shows "last_retry (snd (on_trigger m t now)) = last_retry m"
  using assms by (cases t) (auto simp: retry_def Let_def split: if_splits option.splits)

text \<open>
  Two retries with no pause between them are at least the debounce window apart: the run carries
  the time of the last retry.
\<close>

fun spaced :: "duration \<Rightarrow> instant option \<Rightarrow> (TriggerAction option \<times> instant) list \<Rightarrow> bool" where
  "spaced d last_t [] = True"
| "spaced d last_t ((None, now) # as) = spaced d last_t as"
| "spaced d last_t ((Some PauseReconnect, now) # as) = spaced d None as"
| "spaced d last_t ((Some RetryNow, now) # as) =
     ((case last_t of None \<Rightarrow> True | Some t \<Rightarrow> d \<le> now - t) \<and> spaced d (Some now) as)"

lemma feed_spaced: "spaced (debounce m) (last_retry m) (fst (feed m ts))"
proof (induction ts arbitrary: m)
  case (Cons tn ts)
  obtain t now where tn: "tn = (t, now)" by fastforce
  obtain a m' where o: "on_trigger m t now = (a, m')" by fastforce
  then have d: "debounce m' = debounce m" using on_trigger_debounce [of m t now] by simp
  have IH: "spaced (debounce m) (last_retry m') (fst (feed m' ts))"
    using Cons.IH [of m'] d by simp
  consider (none) "a = None" | (pause) "a = Some PauseReconnect" | (retry) "a = Some RetryNow"
    by (cases a) (auto intro: TriggerAction.exhaust)
  then show ?case
  proof cases
    case none
    then have "last_retry m' = last_retry m" using on_trigger_keeps_last [of m t now] o by simp
    with none IH o tn show ?thesis by (auto simp: Let_def split: prod.splits)
  next
    case pause
    then have "t = NetworkOffline" "online m" using on_trigger_Pause [of m t now] o by simp_all
    with o have "last_retry m' = None" by (auto simp: Let_def)
    with pause IH o tn show ?thesis by (auto simp: Let_def split: prod.splits)
  next
    case retry
    then have "last_retry m' = Some now"
      "case last_retry m of None \<Rightarrow> True | Some r \<Rightarrow> debounce m \<le> now - r"
      using on_trigger_RetryNow [of m t now] o by simp_all
    with retry IH o tn show ?thesis by (auto simp: Let_def split: prod.splits)
  qed
qed simp

text \<open>
  The actions say when the network went down: after a pause, no action until the network is back
  and then a retry at once, whatever fired before the outage.
\<close>

lemma offline_silent:
  assumes "\<not> online m" and "t \<noteq> NetworkOnline"
  shows "fst (on_trigger m t now) = None \<and> \<not> online (snd (on_trigger m t now)) \<and>
    last_retry (snd (on_trigger m t now)) = last_retry m"
  using assms by (cases t) (auto simp: Let_def)

lemma offline_run_silent:
  assumes "\<not> online m" and "\<forall>(t, now) \<in> set ts. t \<noteq> NetworkOnline"
  shows "(\<forall>(a, now) \<in> set (fst (feed m ts)). a = None) \<and> \<not> online (snd (feed m ts)) \<and>
    last_retry (snd (feed m ts)) = last_retry m"
  using assms
proof (induction ts arbitrary: m)
  case (Cons tn ts)
  obtain t now where tn: "tn = (t, now)" by fastforce
  obtain a m' where o: "on_trigger m t now = (a, m')" by fastforce
  have "t \<noteq> NetworkOnline" using Cons.prems(2) tn by auto
  from offline_silent [OF Cons.prems(1) this, of now] o
  have "a = None" "\<not> online m'" "last_retry m' = last_retry m" by simp_all
  with Cons.IH [of m'] Cons.prems(2) o tn show ?case by (auto simp: Let_def split: prod.splits)
qed simp

lemma back_online_retries:
  assumes "online m" and "\<forall>(t, now) \<in> set ts. t \<noteq> NetworkOnline"
  shows "fst (on_trigger (snd (feed (snd (on_trigger m NetworkOffline t0)) ts)) NetworkOnline t1)
    = Some RetryNow"
proof -
  let ?m = "snd (on_trigger m NetworkOffline t0)"
  have "\<not> online ?m" "last_retry ?m = None" using assms(1) by (simp_all add: Let_def)
  with offline_run_silent [OF _ assms(2), of ?m]
  have "\<not> online (snd (feed ?m ts))" "last_retry (snd (feed ?m ts)) = None" by auto
  then show ?thesis by (simp add: retry_def Let_def)
qed

end
