(* ===== verification/Rust_F64.thy ===== *)
theory Rust_F64
  imports Complex_Main Drift_Prelude
begin

text \<open>
  \<open>f64\<close> arithmetic. The code relies on the machine's IEEE arithmetic for coordinates, sizes and
  wheel deltas; the model takes the operations it calls as a record of functions over a type of
  floating-point values, so that a definition that uses them is a translation of the code for
  every such arithmetic. No law is assumed here: a lemma that needs one states it. \<open>rat_f64\<close> is a
  concrete instance (exact rationals with a NaN) that the witnesses use.
\<close>

record 'f f64_ops =
  f_lit :: "rat \<Rightarrow> 'f" \<comment> \<open>a literal, or an integer converted to \<open>f64\<close>\<close>
  f_mul :: "'f \<Rightarrow> 'f \<Rightarrow> 'f"
  f_div :: "'f \<Rightarrow> 'f \<Rightarrow> 'f"
  f_add :: "'f \<Rightarrow> 'f \<Rightarrow> 'f"
  f_sub :: "'f \<Rightarrow> 'f \<Rightarrow> 'f"
  f_neg :: "'f \<Rightarrow> 'f"
  f_sqrt :: "'f \<Rightarrow> 'f"
  f_round :: "'f \<Rightarrow> 'f"
  f_floor :: "'f \<Rightarrow> 'f"
  f_trunc :: "'f \<Rightarrow> 'f"
  f_is_nan :: "'f \<Rightarrow> bool"
  f_is_finite :: "'f \<Rightarrow> bool"
  f_le :: "'f \<Rightarrow> 'f \<Rightarrow> bool"
  f_lt :: "'f \<Rightarrow> 'f \<Rightarrow> bool"
  f_to_int :: "'f \<Rightarrow> int" \<comment> \<open>the integer part of a finite value\<close>

definition f_of_u32 :: "'f f64_ops \<Rightarrow> u32 \<Rightarrow> 'f" where
  "f_of_u32 F w = f_lit F (of_nat (unat w))"

definition f_of_u64 :: "'f f64_ops \<Rightarrow> u64 \<Rightarrow> 'f" where
  "f_of_u64 F w = f_lit F (of_nat (unat w))"

text \<open>\<open>f64::min\<close> and \<open>f64::max\<close> ignore a NaN argument; \<open>f64::clamp\<close> keeps a NaN receiver.\<close>

definition f_min :: "'f f64_ops \<Rightarrow> 'f \<Rightarrow> 'f \<Rightarrow> 'f" where
  "f_min F a b = (if f_is_nan F a then b else if f_is_nan F b then a else if f_lt F b a then b else a)"

definition f_max :: "'f f64_ops \<Rightarrow> 'f \<Rightarrow> 'f \<Rightarrow> 'f" where
  "f_max F a b = (if f_is_nan F a then b else if f_is_nan F b then a else if f_lt F a b then b else a)"

definition f_clamp :: "'f f64_ops \<Rightarrow> 'f \<Rightarrow> 'f \<Rightarrow> 'f \<Rightarrow> 'f" where
  "f_clamp F v lo hi = (let v = (if f_lt F v lo then lo else v) in if f_lt F hi v then hi else v)"

text \<open>\<open>to_pixels\<close> of \<open>layout.rs\<close> and \<open>px\<close> of \<open>geometry.rs\<close>: round, with NaN and negative values
  to zero, and saturate.\<close>

definition to_pixels :: "'f f64_ops \<Rightarrow> 'f \<Rightarrow> u32" where
  "to_pixels F v =
     (let r = f_round F v
      in if f_is_nan F r \<or> f_le F r (f_lit F 0) then 0
         else if f_le F (f_of_u32 F (- 1)) r then - 1
         else word_of_int (f_to_int F r))"

definition lift2 :: "(rat \<Rightarrow> rat \<Rightarrow> 'b) \<Rightarrow> 'b \<Rightarrow> rat option \<Rightarrow> rat option \<Rightarrow> 'b" where
  "lift2 f d a b = (case a of None \<Rightarrow> d | Some x \<Rightarrow> (case b of None \<Rightarrow> d | Some y \<Rightarrow> f x y))"

definition rat_f64 :: "rat option f64_ops" where
  "rat_f64 =
     \<lparr>f_lit = Some,
      f_mul = lift2 (\<lambda>x y. Some (x * y)) None,
      f_div = lift2 (\<lambda>x y. if y = 0 then None else Some (x / y)) None,
      f_add = lift2 (\<lambda>x y. Some (x + y)) None,
      f_sub = lift2 (\<lambda>x y. Some (x - y)) None,
      f_neg = map_option uminus,
      f_sqrt = (\<lambda>a. a),
      f_round = map_option (\<lambda>x. of_int \<lfloor>x + 1 / 2\<rfloor>),
      f_floor = map_option (\<lambda>x. of_int \<lfloor>x\<rfloor>),
      f_trunc = map_option (\<lambda>x. of_int (if 0 \<le> x then \<lfloor>x\<rfloor> else \<lceil>x\<rceil>)),
      f_is_nan = (\<lambda>a. a = None),
      f_is_finite = (\<lambda>a. a \<noteq> None),
      f_le = lift2 (\<le>) False,
      f_lt = lift2 (<) False,
      f_to_int = (\<lambda>a. case a of None \<Rightarrow> 0 | Some x \<Rightarrow> if 0 \<le> x then \<lfloor>x\<rfloor> else \<lceil>x\<rceil>)\<rparr>"

lemmas rat_f64_simps = rat_f64_def lift2_def f_of_u32_def f_of_u64_def f_min_def f_max_def f_clamp_def

end
