(* ===== verification/Core_Layout.thy ===== *)
theory Core_Layout
  imports Core_Geometry Rust_F64
begin

unbundle bit_operations_syntax

text \<open>
  \<open>crates/drift-core/src/layout.rs\<close> and the view geometry it starts from: the monitor layout
  requested over the Display Control channel. The floating-point steps go through \<open>f64_ops\<close>; the
  integer clamping and the correcting loop are modelled exactly, so the bounds below hold whatever
  the floating-point rescaling returns.
\<close>

definition MIN_MONITOR_DIMENSION :: u32 where "MIN_MONITOR_DIMENSION = 200"
definition MAX_MONITOR_DIMENSION :: u32 where "MAX_MONITOR_DIMENSION = 8192"
definition DEVICE_SCALE_FACTORS :: "u32 list" where "DEVICE_SCALE_FACTORS = [100, 140, 180]"
definition RETINA_BACKING_SCALE :: rat where "RETINA_BACKING_SCALE = 3 / 2"

record DisplayPrefs =
  adaptive :: bool
  retina :: bool

record 'f ViewGeometry =
  points :: "'f Size"
  backing_scale :: 'f

definition view_pixels :: "'f f64_ops \<Rightarrow> 'f ViewGeometry \<Rightarrow> u32 Size" where
  "view_pixels F v =
     Size_new (to_pixels F (f_mul F (width (points v)) (backing_scale v)))
              (to_pixels F (f_mul F (height (points v)) (backing_scale v)))"

record DisplayControlCaps =
  max_num_monitors :: u32
  max_monitor_area_factor_a :: u32
  max_monitor_area_factor_b :: u32

definition max_area :: "DisplayControlCaps \<Rightarrow> u64" where
  "max_area c =
     saturating_mul (saturating_mul (ucast (max_monitor_area_factor_a c))
                                    (ucast (max_monitor_area_factor_b c)))
                    (ucast (max_num_monitors c))"

definition DisplayControlCaps_default :: DisplayControlCaps where
  "DisplayControlCaps_default =
     \<lparr>max_num_monitors = 1, max_monitor_area_factor_a = MAX_MONITOR_DIMENSION,
      max_monitor_area_factor_b = MAX_MONITOR_DIMENSION\<rparr>"

record MonitorLayout =
  ml_width :: u32
  ml_height :: u32
  desktop_scale_factor :: u32
  device_scale_factor :: u32

definition abs_diff :: "u32 \<Rightarrow> u32 \<Rightarrow> u32" where
  "abs_diff a b = (if a \<le> b then b - a else a - b)"

fun device_scale_loop :: "u32 \<Rightarrow> u32 list \<Rightarrow> u32 \<Rightarrow> u32" where
  "device_scale_loop scale [] best = best"
| "device_scale_loop scale (c # cs) best =
     device_scale_loop scale cs (if abs_diff c scale < abs_diff best scale then c else best)"

definition device_scale_for :: "u32 \<Rightarrow> u32" where
  "device_scale_for scale = device_scale_loop scale DEVICE_SCALE_FACTORS (hd DEVICE_SCALE_FACTORS)"

definition clamp_dim :: "u32 \<Rightarrow> u32" where
  "clamp_dim v = max MIN_MONITOR_DIMENSION (min v MAX_MONITOR_DIMENSION)"

definition even_dim :: "u32 \<Rightarrow> u32" where
  "even_dim v = v AND NOT 1"

definition area :: "u32 \<Rightarrow> u32 \<Rightarrow> u64" where
  "area w h = (ucast w :: u64) * ucast h"

text \<open>The correcting loop: shrink the larger side until the area fits or both sides are minimal.\<close>

function shrink :: "u64 \<Rightarrow> u32 \<Rightarrow> u32 \<Rightarrow> u32 \<times> u32" where
  "shrink mx w h =
     (if mx < area w h \<and> (MIN_MONITOR_DIMENSION < w \<or> MIN_MONITOR_DIMENSION < h)
      then if h \<le> w \<and> MIN_MONITOR_DIMENSION < w \<or> h \<le> MIN_MONITOR_DIMENSION
           then shrink mx (w - 2) h
           else shrink mx w (h - 1)
      else (w, h))"
  by pat_completeness auto
termination
proof (relation "measure (\<lambda>(mx, w, h). unat w + unat h)", goal_cases)
  case (2 mx w h)
  then have "MIN_MONITOR_DIMENSION < w" by auto
  then have "unat w > 200" by (simp add: MIN_MONITOR_DIMENSION_def word_less_nat_alt)
  then have "unat (w - 2) < unat w" by (simp add: unat_sub word_le_nat_alt)
  then show ?case by simp
next
  case (3 mx w h)
  then have "unat h > 200" by (auto simp: MIN_MONITOR_DIMENSION_def word_less_nat_alt word_le_nat_alt)
  then have "unat (h - 1) < unat h" by (simp add: unat_sub word_le_nat_alt)
  then show ?case by simp
qed simp

declare shrink.simps [simp del]

definition fit_to_caps :: "'f f64_ops \<Rightarrow> u32 \<Rightarrow> u32 \<Rightarrow> u64 \<Rightarrow> u32 \<times> u32" where
  "fit_to_caps F wd ht mx =
     (let w = even_dim (clamp_dim wd);
          h = clamp_dim ht
      in if area w h \<le> mx then (w, h)
         else
           let ratio = f_sqrt F (f_div F (f_of_u64 F mx) (f_of_u64 F (area w h)));
               w' = even_dim (clamp_dim (to_pixels F (f_floor F (f_mul F (f_of_u32 F w) ratio))));
               h' = clamp_dim (to_pixels F (f_floor F (f_mul F (f_of_u32 F h) ratio)))
           in shrink mx w' h')"

definition desired_layout ::
    "'f f64_ops \<Rightarrow> 'f ViewGeometry \<Rightarrow> DisplayPrefs \<Rightarrow> DisplayControlCaps \<Rightarrow> MonitorLayout" where
  "desired_layout F v prefs caps =
     (let ret = (retina prefs \<and> f_le F (f_lit F RETINA_BACKING_SCALE) (backing_scale v));
          (factor, dsf) = (if ret then (f_lit F 2, 200) else (f_lit F 1, 100));
          (w, h) = fit_to_caps F (to_pixels F (f_mul F (width (points v)) factor))
                                 (to_pixels F (f_mul F (height (points v)) factor))
                                 (max_area caps)
      in \<lparr>ml_width = w, ml_height = h, desktop_scale_factor = dsf,
          device_scale_factor = device_scale_for dsf\<rparr>)"

subsection \<open>Bounds\<close>

definition dims_ok :: "u32 \<Rightarrow> u32 \<Rightarrow> bool" where
  "dims_ok w h \<longleftrightarrow>
     even (unat w) \<and> 200 \<le> unat w \<and> unat w \<le> 8192 \<and> 200 \<le> unat h \<and> unat h \<le> 8192"

lemma unat_clamp_dim: "unat (clamp_dim v) = max 200 (min (unat v) 8192)"
  by (auto simp: clamp_dim_def MIN_MONITOR_DIMENSION_def MAX_MONITOR_DIMENSION_def max_def min_def
      word_le_nat_alt)

lemma unat_even_dim: "unat (even_dim v) = unat v - unat v mod 2"
proof -
  have "even_dim v = 2 * drop_bit 1 v"
    by (rule bit_word_eqI) (auto simp: even_dim_def bit_simps bit_double_iff not_le)
  moreover have d: "unat (drop_bit 1 v) = unat v div 2"
    by (simp only: unat_drop_bit_eq) (simp add: drop_bit_Suc)
  moreover have "unat (2 :: u32) * unat (drop_bit 1 v) < 2 ^ LENGTH(32)"
    using unsigned_less [of v, where 'a = nat] by (simp only: d) simp
  ultimately have "unat (even_dim v) = 2 * (unat v div 2)"
    using unat_mult_no_wrap [of 2 "drop_bit 1 v"] by simp
  also have "\<dots> = unat v - unat v mod 2"
    by (simp add: minus_mod_eq_mult_div)
  finally show ?thesis .
qed

lemma even_clamp_ok: "dims_ok (even_dim (clamp_dim a)) (clamp_dim b)"
proof -
  have "even (x - x mod 2)" for x :: nat by presburger
  moreover have "200 \<le> x \<Longrightarrow> x \<le> 8192 \<Longrightarrow> 200 \<le> x - x mod 2 \<and> x - x mod 2 \<le> 8192" for x :: nat
    by presburger
  ultimately show ?thesis
    by (auto simp: dims_ok_def unat_even_dim unat_clamp_dim)
qed

lemma unat_area: "unat (area w h) = unat w * unat h"
proof -
  have "unat w * unat h < 2 ^ 32 * 2 ^ 32"
    using unsigned_less [of w, where 'a = nat] unsigned_less [of h, where 'a = nat]
    by (intro mult_strict_mono) simp_all
  then have "unat (ucast w :: u64) * unat (ucast h :: u64) < 2 ^ LENGTH(64)"
    by (simp add: word_ops)
  from unat_mult_no_wrap [OF this] show ?thesis by (simp add: area_def word_ops)
qed

lemma min_dim_less: "MIN_MONITOR_DIMENSION < v \<longleftrightarrow> 200 < unat v"
  by (simp add: MIN_MONITOR_DIMENSION_def word_less_nat_alt)

lemma shrink_bounds:
  "dims_ok w h \<Longrightarrow> 40000 \<le> unat mx \<Longrightarrow>
     (case shrink mx w h of (w', h') \<Rightarrow>
        dims_ok w' h' \<and> unat w' * unat h' \<le> unat mx \<and> unat w' \<le> unat w \<and> unat h' \<le> unat h)"
proof (induction mx w h rule: shrink.induct)
  case (1 mx w h)
  note ok = \<open>dims_ok w h\<close>
  let ?go = "mx < area w h \<and> (MIN_MONITOR_DIMENSION < w \<or> MIN_MONITOR_DIMENSION < h)"
  let ?left = "h \<le> w \<and> MIN_MONITOR_DIMENSION < w \<or> h \<le> MIN_MONITOR_DIMENSION"
  have small: "unat w = 200" "unat h = 200" if "\<not> (MIN_MONITOR_DIMENSION < w \<or> MIN_MONITOR_DIMENSION < h)"
    using that ok by (simp_all add: min_dim_less dims_ok_def)
  have fin: "unat w * unat h \<le> unat mx" if "\<not> ?go"
  proof (cases "mx < area w h")
    case True
    with that small \<open>40000 \<le> unat mx\<close> show ?thesis by simp
  next
    case False
    then show ?thesis by (simp add: word_less_nat_alt unat_area)
  qed
  show ?case
  proof (cases ?go)
    case False
    then have "shrink mx w h = (w, h)" by (subst shrink.simps) (simp only: if_False)
    with fin [OF False] ok show ?thesis by simp
  next
    case go: True
    show ?thesis
    proof (cases ?left)
      case True
      with go have "unat w > 200" by (auto simp: min_dim_less simp flip: not_less)
      then have w: "unat (w - 2) = unat w - 2" "even (unat (w - 2))" "200 \<le> unat (w - 2)"
        using ok by (auto simp: unat_sub word_le_nat_alt dims_ok_def elim!: evenE)
      with ok have "dims_ok (w - 2) h" by (auto simp: dims_ok_def)
      moreover have "shrink mx w h = shrink mx (w - 2) h"
        using go True by (subst shrink.simps) simp
      ultimately show ?thesis
        using "1.IH"(1) [OF go True _ \<open>40000 \<le> unat mx\<close>] w by auto
    next
      case False
      then have "unat h > 200" by (simp add: not_le min_dim_less)
      then have h: "unat (h - 1) = unat h - 1" by (simp add: unat_sub word_le_nat_alt)
      with ok \<open>unat h > 200\<close> have "dims_ok w (h - 1)" by (auto simp: dims_ok_def)
      moreover have "shrink mx w h = shrink mx w (h - 1)"
        using go False by (subst shrink.simps) auto
      ultimately show ?thesis
        using "1.IH"(2) [OF go False _ \<open>40000 \<le> unat mx\<close>] h by auto
    qed
  qed
qed

lemma fit_to_caps_bounds:
  assumes "40000 \<le> unat mx" and "fit_to_caps F a b mx = (w, h)"
  shows "dims_ok w h \<and> unat w * unat h \<le> unat mx"
proof (cases "area (even_dim (clamp_dim a)) (clamp_dim b) \<le> mx")
  case True
  with assms(2) even_clamp_ok [of a b] show ?thesis
    by (auto simp: fit_to_caps_def Let_def word_le_nat_alt unat_area)
next
  case False
  with assms(2) obtain w' h' where "shrink mx (even_dim (clamp_dim w')) (clamp_dim h') = (w, h)"
    by (auto simp: fit_to_caps_def Let_def)
  with shrink_bounds [OF even_clamp_ok assms(1), of w' h'] show ?thesis by auto
qed

text \<open>A size that already fits is only clamped and made even: no rescaling.\<close>

lemma fit_to_caps_exact:
  assumes "200 \<le> unat a" "unat a \<le> 8192" "200 \<le> unat b" "unat b \<le> 8192" "unat a * unat b \<le> unat mx"
  shows "unat (fst (fit_to_caps F a b mx)) = unat a - unat a mod 2 \<and> snd (fit_to_caps F a b mx) = b"
proof -
  have b: "clamp_dim b = b" using assms by (simp add: word_unat_eq_iff unat_clamp_dim)
  have a: "unat (even_dim (clamp_dim a)) = unat a - unat a mod 2"
    using assms by (simp add: unat_even_dim unat_clamp_dim)
  have "(unat a - unat a mod 2) * unat b \<le> unat a * unat b" by simp
  also note assms(5)
  finally have "area (even_dim (clamp_dim a)) (clamp_dim b) \<le> mx"
    by (simp add: word_le_nat_alt unat_area a b)
  then show ?thesis by (simp add: fit_to_caps_def Let_def a b)
qed

lemma device_scale_loop_best:
  "device_scale_loop s cs best \<in> set (best # cs) \<and>
     (\<forall>c \<in> set (best # cs). abs_diff (device_scale_loop s cs best) s \<le> abs_diff c s)"
  by (induction s cs best rule: device_scale_loop.induct) (auto split: if_splits)

lemma device_scale_nearest:
  "device_scale_for s \<in> set DEVICE_SCALE_FACTORS \<and>
     (\<forall>c \<in> set DEVICE_SCALE_FACTORS. abs_diff (device_scale_for s) s \<le> abs_diff c s)"
  using device_scale_loop_best [of s DEVICE_SCALE_FACTORS 100]
  by (auto simp: device_scale_for_def DEVICE_SCALE_FACTORS_def)

lemma desired_layout_scale:
  "desktop_scale_factor (desired_layout F v p c) \<in> {100, 200}"
  "device_scale_factor (desired_layout F v p c)
     = device_scale_for (desktop_scale_factor (desired_layout F v p c))"
  by (auto simp: desired_layout_def Let_def split: prod.splits)

lemma desired_layout_fit:
  "\<exists>a b. fit_to_caps F a b (max_area c)
    = (ml_width (desired_layout F v p c), ml_height (desired_layout F v p c))"
proof -
  have "fit_to_caps F (to_pixels F (f_mul F (width (points v)) k))
      (to_pixels F (f_mul F (height (points v)) k)) (max_area c)
    = (ml_width (desired_layout F v p c), ml_height (desired_layout F v p c))"
    if "k = (if retina p \<and> f_le F (f_lit F RETINA_BACKING_SCALE) (backing_scale v)
             then f_lit F 2 else f_lit F 1)" for k
    using that by (simp add: desired_layout_def Let_def case_prod_beta)
  then show ?thesis by blast
qed

lemma desired_layout_dims:
  assumes "40000 \<le> unat (max_area c)"
  shows "dims_ok (ml_width (desired_layout F v p c)) (ml_height (desired_layout F v p c)) \<and>
    unat (ml_width (desired_layout F v p c)) * unat (ml_height (desired_layout F v p c)) \<le> unat (max_area c)"
  using desired_layout_fit [of F c v p] fit_to_caps_bounds [OF assms] by metis

end
