(* ===== verification/Core_Profile.thy ===== *)
theory Core_Profile
  imports Core_Layout Rust_Str
begin

text \<open>
  \<open>crates/drift-core/src/profile.rs\<close>: connection profiles, certificate fingerprints in the
  \<open>grdctl\<close> notation, validation with one issue per offending field, and the Keychain account names.
  TOML text is produced by a crate outside the sources; it does not occur here (see \<open>Core_Store\<close>).
\<close>

definition DEFAULT_RDP_PORT :: u16 where "DEFAULT_RDP_PORT = 3389"

datatype ConnectMode = RemoteLogin | Headless | DesktopSharing

definition ConnectMode_ALL :: "ConnectMode list" where
  "ConnectMode_ALL = [Headless, DesktopSharing, RemoteLogin]"

definition default_port :: "ConnectMode \<Rightarrow> u16" where
  "default_port m = DEFAULT_RDP_PORT"

definition supports_display_control :: "ConnectMode \<Rightarrow> bool" where
  "supports_display_control m = (m \<noteq> DesktopSharing)"

datatype CmdAs = Super | Ctrl

record KeyboardPrefs =
  cmd_as :: CmdAs
  type_with_mac_layout :: bool

definition KeyboardPrefs_default :: KeyboardPrefs where
  "KeyboardPrefs_default = \<lparr>cmd_as = Super, type_with_mac_layout = False\<rparr>"

definition DisplayPrefs_default :: DisplayPrefs where
  "DisplayPrefs_default = \<lparr>adaptive = True, retina = True\<rparr>"

datatype ClipboardPrefs = Off | Text | TextAndImages

definition ClipboardPrefs_default :: ClipboardPrefs where
  "ClipboardPrefs_default = TextAndImages"

datatype ProfileError = InvalidFingerprint | Toml rstr

subsection \<open>Certificate fingerprints\<close>

text \<open>A fingerprint is the list of its 32 bytes.\<close>

type_synonym CertFingerprint = "u8 list"

definition fingerprint_wf :: "CertFingerprint \<Rightarrow> bool" where
  "fingerprint_wf fp \<longleftrightarrow> length fp = 32"

definition byte_hex :: "u8 \<Rightarrow> rstr" where
  "byte_hex b = [hex_digit (unat b div 16), hex_digit (unat b mod 16)]"

definition fingerprint_display :: "CertFingerprint \<Rightarrow> rstr" where
  "fingerprint_display fp = join_with 58 (map byte_hex fp)"

fun parse_parts :: "nat \<Rightarrow> rstr list \<Rightarrow> (ProfileError, u8 list) result" where
  "parse_parts 0 ps = (if ps = [] then Inr [] else Inl InvalidFingerprint)"
| "parse_parts (Suc n) [] = Inl InvalidFingerprint"
| "parse_parts (Suc n) (p # ps) =
     (if str_len p \<noteq> 2 \<or> \<not> list_all is_ascii_hexdigit p then Inl InvalidFingerprint
      else and_then (parse_parts n ps)
             (\<lambda>bs. Inr (of_nat (foldl (\<lambda>v c. 16 * v + hex_value c) 0 p) # bs)))"

definition fingerprint_from_str :: "rstr \<Rightarrow> (ProfileError, CertFingerprint) result" where
  "fingerprint_from_str s = parse_parts 32 (split_on 58 (trim s))"

text \<open>\<open>str::lines\<close>: pieces ended by a line feed, without a final carriage return.\<close>

definition str_lines :: "rstr \<Rightarrow> rstr list" where
  "str_lines s =
     (let ps = split_on 10 s;
          ps = (if last ps = [] then butlast ps else ps)
      in map (\<lambda>l. case strip_suffix [13] l of Some l' \<Rightarrow> l' | None \<Rightarrow> l) ps)"

fun find_map :: "('a \<Rightarrow> 'b option) \<Rightarrow> 'a list \<Rightarrow> 'b option" where
  "find_map f [] = None"
| "find_map f (x # xs) = (case f x of Some y \<Rightarrow> Some y | None \<Rightarrow> find_map f xs)"

definition from_grdctl_status :: "rstr \<Rightarrow> CertFingerprint option" where
  "from_grdctl_status out =
     (case find_map (\<lambda>l. strip_prefix (lit ''TLS fingerprint:'') (trim l)) (str_lines out) of
        None \<Rightarrow> None
      | Some v \<Rightarrow> (case fingerprint_from_str v of Inl _ \<Rightarrow> None | Inr fp \<Rightarrow> Some fp))"

subsection \<open>Profiles\<close>

type_synonym Uuid = "128 word"

record ConnectionProfile =
  profile_id :: Uuid
  name :: rstr
  host :: rstr
  port :: u16
  mode :: ConnectMode
  rdp_username :: rstr
  linux_username :: "rstr option"
  cert_pin :: "CertFingerprint option"
  keyboard :: KeyboardPrefs
  display :: DisplayPrefs
  clipboard :: ClipboardPrefs

text \<open>The fresh id of \<open>Uuid::new_v4\<close> is an argument.\<close>

definition ConnectionProfile_new :: "Uuid \<Rightarrow> rstr \<Rightarrow> rstr \<Rightarrow> ConnectMode \<Rightarrow> ConnectionProfile" where
  "ConnectionProfile_new fresh n h m =
     \<lparr>profile_id = fresh, name = n, host = h, port = default_port m, mode = m, rdp_username = [],
      linux_username = None, cert_pin = None, keyboard = KeyboardPrefs_default,
      display = DisplayPrefs_default, clipboard = ClipboardPrefs_default\<rparr>"

subsection \<open>Validation\<close>

definition MAX_NAME_CHARS :: nat where "MAX_NAME_CHARS = 64"
definition MAX_HOST_LEN :: nat where "MAX_HOST_LEN = 253"
definition MAX_USERNAME_CHARS :: nat where "MAX_USERNAME_CHARS = 256"

datatype ProfileField = FName | FHost | FPort | FRdpUsername | FLinuxUsername

datatype ProfileProblem =
    Empty | TooLong | SurroundingWhitespace | InvalidCharacters | InvalidHost
  | PortInHost | SchemeInHost | InvalidPort | NotApplicable

datatype ProfileIssue = ProfileIssue (issue_field: ProfileField) (issue_problem: ProfileProblem) (message: rstr)

fun field_label :: "ProfileField \<Rightarrow> rstr" where
  "field_label FName = lit ''Name''"
| "field_label FHost = lit ''Host''"
| "field_label FPort = lit ''Port''"
| "field_label FRdpUsername = lit ''RDP user name''"
| "field_label FLinuxUsername = lit ''Linux user name''"

definition field_max :: "ProfileField \<Rightarrow> nat" where
  "field_max f = (case f of FName \<Rightarrow> MAX_NAME_CHARS | FHost \<Rightarrow> MAX_HOST_LEN | _ \<Rightarrow> MAX_USERNAME_CHARS)"

fun issue_message :: "ProfileField \<Rightarrow> ProfileProblem \<Rightarrow> rstr" where
  "issue_message f Empty = field_label f @ lit '' is required.''"
| "issue_message f TooLong =
     field_label f @ lit '' must be at most '' @ dec_digits (field_max f) @ lit '' characters.''"
| "issue_message f SurroundingWhitespace = field_label f @ lit '' must not start or end with a space.''"
| "issue_message f InvalidCharacters = field_label f @ lit '' contains characters that are not allowed.''"
| "issue_message f InvalidHost =
     lit ''Enter a host name (gnome.local) or an IP address (192.168.1.20 or fe80::1).''"
| "issue_message f PortInHost = lit ''Put the port number in the Port field, not in the host.''"
| "issue_message f SchemeInHost = lit ''Enter just the host name, without rdp:// or another prefix.''"
| "issue_message f InvalidPort = lit ''Port must be between 1 and 65535.''"
| "issue_message f NotApplicable = field_label f @ lit '' only applies to Remote Login profiles.''"

definition ProfileIssue_new :: "ProfileField \<Rightarrow> ProfileProblem \<Rightarrow> ProfileIssue" where
  "ProfileIssue_new f p = ProfileIssue f p (issue_message f p)"

definition check_text :: "rstr \<Rightarrow> nat \<Rightarrow> ProfileProblem option" where
  "check_text value max_chars =
     (if trim value = [] then Some Empty
      else if length value > max_chars then Some TooLong
      else if list_ex is_control value then Some InvalidCharacters
      else if trim value \<noteq> value then Some SurroundingWhitespace
      else None)"

definition label_ok :: "rstr \<Rightarrow> bool" where
  "label_ok l =
     (l \<noteq> [] \<and> str_len l \<le> 63 \<and> hd l \<noteq> 45 \<and> last l \<noteq> 45 \<and>
      list_all (\<lambda>b. is_ascii_alphanumeric b \<or> b = 45) l)"

definition is_dns_name :: "rstr \<Rightarrow> bool" where
  "is_dns_name s =
     (let s = (case strip_suffix [46] s of Some t \<Rightarrow> t | None \<Rightarrow> s)
      in if s = [] \<or> str_len s > MAX_HOST_LEN then False
         else list_all label_ok (split_on 46 s) \<and> \<not> list_all (\<lambda>b. is_ascii_digit b \<or> b = 46) s)"

definition is_bracketed_v6 :: "rstr \<Rightarrow> bool" where
  "is_bracketed_v6 s =
     (case strip_prefix [91] s of
        None \<Rightarrow> False
      | Some t \<Rightarrow> (case strip_suffix [93] t of None \<Rightarrow> False | Some u \<Rightarrow> is_ipv6 u))"

definition has_port :: "rstr \<Rightarrow> bool" where
  "has_port h =
     (case rsplit_once 58 h of
        None \<Rightarrow> False
      | Some (nm, pt) \<Rightarrow>
          pt \<noteq> [] \<and> list_all is_ascii_digit pt \<and> (is_dns_name nm \<or> is_ipv4 nm \<or> is_bracketed_v6 nm))"

definition check_host :: "rstr \<Rightarrow> ProfileProblem option" where
  "check_host h =
     (if trim h = [] then Some Empty
      else if trim h \<noteq> h then Some SurroundingWhitespace
      else if str_len h > MAX_HOST_LEN then Some TooLong
      else if contains_str (lit ''://'') h then Some SchemeInHost
      else if is_ipv4 h \<or> is_ipv6 h then None
      else if has_port h then Some PortInHost
      else if is_dns_name h then None else Some InvalidHost)"

definition check_linux_username :: "ConnectMode \<Rightarrow> rstr option \<Rightarrow> ProfileProblem option" where
  "check_linux_username m user =
     (case user of
        None \<Rightarrow> None
      | Some u \<Rightarrow>
          if m \<noteq> RemoteLogin then Some NotApplicable
          else case check_text u MAX_USERNAME_CHARS of
                 Some problem \<Rightarrow> Some problem
               | None \<Rightarrow>
                   if list_ex (\<lambda>c. is_whitespace c \<or> c = 58 \<or> c = 47 \<or> c = 44) u \<or> hd u = 45
                   then Some InvalidCharacters else None)"

definition profile_checks :: "ConnectionProfile \<Rightarrow> (ProfileField \<times> ProfileProblem option) list" where
  "profile_checks p =
     [(FName, check_text (name p) MAX_NAME_CHARS),
      (FHost, check_host (host p)),
      (FPort, if port p = 0 then Some InvalidPort else None),
      (FRdpUsername, check_text (rdp_username p) MAX_USERNAME_CHARS),
      (FLinuxUsername, check_linux_username (mode p) (linux_username p))]"

definition profile_validate :: "ConnectionProfile \<Rightarrow> (ProfileIssue list, unit) result" where
  "profile_validate p =
     (let issues = List.map_filter (\<lambda>(f, q). map_option (ProfileIssue_new f) q) (profile_checks p)
      in if issues = [] then Inr () else Inl issues)"

subsection \<open>Secrets addressing\<close>

datatype SecretRole = RdpSystem | RdpUser | LinuxLogin

fun role_as_str :: "SecretRole \<Rightarrow> rstr" where
  "role_as_str RdpSystem = lit ''rdp-system''"
| "role_as_str RdpUser = lit ''rdp-user''"
| "role_as_str LinuxLogin = lit ''linux-login''"

fun rdp_for :: "ConnectMode \<Rightarrow> SecretRole" where
  "rdp_for RemoteLogin = RdpSystem"
| "rdp_for Headless = RdpUser"
| "rdp_for DesktopSharing = RdpUser"

text \<open>The hyphenated form of an id comes from the \<open>uuid\<close> crate: a parameter.\<close>

definition account :: "(Uuid \<Rightarrow> rstr) \<Rightarrow> SecretRole \<Rightarrow> Uuid \<Rightarrow> rstr" where
  "account show_uuid r i = show_uuid i @ 47 # role_as_str r"

subsection \<open>Fingerprint lemmas\<close>

lemma unat_u8 [simp]: "unat (b :: u8) < 256"
  using unsigned_less [of b, where 'a = nat] by simp

lemma unat_u8_div16 [simp]: "unat (b :: u8) div 16 < 16"
  by (rule less_mult_imp_div_less) simp

lemma byte_hex_simps [simp]:
  "byte_hex b \<noteq> []" "58 \<notin> set (byte_hex b)" "str_len (byte_hex b) = 2"
  "list_all is_ascii_hexdigit (byte_hex b)"
proof -
  have lt: "n < 16 \<Longrightarrow> hex_digit n < 128" for n by (auto simp: hex_digit_def)
  have "hex_digit (unat b div 16) \<noteq> 58" "hex_digit (unat b mod 16) \<noteq> 58"
    by (simp_all del: unat_u8)
  then show "byte_hex b \<noteq> []" "58 \<notin> set (byte_hex b)" "str_len (byte_hex b) = 2"
    "list_all is_ascii_hexdigit (byte_hex b)"
    by (simp_all add: byte_hex_def str_len_def len_utf8_def lt)
qed

lemma byte_hex_value: "of_nat (foldl (\<lambda>v c. 16 * v + hex_value c) 0 (byte_hex b)) = b"
  by (simp add: byte_hex_def mult_div_mod_eq)

lemma parse_parts_display: "length fp = n \<Longrightarrow> parse_parts n (map byte_hex fp) = Inr fp"
proof (induction fp arbitrary: n)
  case (Cons b fp)
  then obtain m where "n = Suc m" "length fp = m" by (cases n) auto
  with Cons.IH show ?case by (simp add: byte_hex_value del: foldl_Cons)
qed simp

lemma display_edges:
  assumes "fp \<noteq> []"
  shows "fingerprint_display fp \<noteq> []" and "\<not> is_whitespace (hd (fingerprint_display fp))"
    and "\<not> is_whitespace (last (fingerprint_display fp))"
proof -
  obtain b bs where fp: "fp = b # bs" using assms by (cases fp) auto
  have join: "join_with 58 (p # ps) = p @ (case ps of [] \<Rightarrow> [] | _ \<Rightarrow> 58 # join_with 58 ps)" for p ps
    by (cases ps) auto
  have last_join: "ps \<noteq> [] \<Longrightarrow> (\<forall>p \<in> set ps. p \<noteq> []) \<Longrightarrow> join_with 58 ps \<noteq> [] \<and>
      last (join_with 58 ps) = last (last ps)" for ps
    by (induction ps rule: join_with.induct [of _ 58]) auto
  show "fingerprint_display fp \<noteq> []" "\<not> is_whitespace (hd (fingerprint_display fp))"
    by (simp_all add: fingerprint_display_def fp join byte_hex_def)
  have "last (fingerprint_display fp) = last (byte_hex (last fp))"
    using last_join [of "map byte_hex fp"] assms by (auto simp: fingerprint_display_def last_map)
  then show "\<not> is_whitespace (last (fingerprint_display fp))" by (simp add: byte_hex_def)
qed

lemma fingerprint_parse_display:
  assumes "fingerprint_wf fp"
  shows "fingerprint_from_str (fingerprint_display fp) = Inr fp"
proof -
  have ne: "fp \<noteq> []" using assms by (auto simp: fingerprint_wf_def)
  with display_edges have "trim (fingerprint_display fp) = fingerprint_display fp"
    by (intro trim_id) blast
  moreover have "split_on 58 (fingerprint_display fp) = map byte_hex fp"
    unfolding fingerprint_display_def using ne by (intro split_join) auto
  ultimately show ?thesis
    using assms by (simp add: fingerprint_from_str_def parse_parts_display fingerprint_wf_def)
qed

lemma str_len_ascii: "list_all (\<lambda>c. c < 128) s \<Longrightarrow> str_len s = length s"
  by (induction s) (auto simp: str_len_def len_utf8_def)

lemma hexdigit_ascii: "is_ascii_hexdigit c \<Longrightarrow> c < 128"
  by (auto simp: is_ascii_hexdigit_def is_ascii_digit_def)

lemma byte_hex_of_parse:
  assumes "str_len p = 2" and "list_all is_ascii_hexdigit p"
  shows "byte_hex (of_nat (foldl (\<lambda>v c. 16 * v + hex_value c) 0 p)) = map to_ascii_lowercase p"
proof -
  have "length p = 2"
    using assms str_len_ascii [of p] by (auto simp: list_all_iff hexdigit_ascii)
  then obtain a b where p: "p = [a, b]" by (auto simp: numeral_2_eq_2 length_Suc_conv)
  with assms have ab: "is_ascii_hexdigit a" "is_ascii_hexdigit b" by auto
  then have "hex_value a < 16" "hex_value b < 16" by simp_all
  then have "unat (of_nat (16 * hex_value a + hex_value b) :: u8) = 16 * hex_value a + hex_value b"
    by (simp only: unsigned_of_nat of_nat_id) (intro take_bit_nat_eq_self, simp)
  then show ?thesis
    using ab \<open>hex_value b < 16\<close> by (simp add: p byte_hex_def hex_digit_value)
qed

lemma parse_parts_Inr:
  "parse_parts n ps = Inr fp \<Longrightarrow> length fp = n \<and> map byte_hex fp = map (map to_ascii_lowercase) ps"
proof (induction n ps arbitrary: fp rule: parse_parts.induct)
  case (3 n p ps)
  then show ?case
    by (auto simp: and_then_Inr_iff byte_hex_of_parse simp del: foldl_Cons split: if_splits)
qed (auto split: if_splits)

lemma join_with_map: "join_with (f d) (map (map f) ps) = map f (join_with d ps)"
  by (induction d ps rule: join_with.induct) auto

lemma fingerprint_display_parse:
  assumes "fingerprint_from_str s = Inr fp"
  shows "fingerprint_wf fp \<and> fingerprint_display fp = map to_ascii_lowercase (trim s)"
proof -
  have colon: "to_ascii_lowercase 58 = 58" by (simp add: to_ascii_lowercase_def)
  from assms parse_parts_Inr have "length fp = 32"
    and m: "map byte_hex fp = map (map to_ascii_lowercase) (split_on 58 (trim s))"
    unfolding fingerprint_from_str_def by blast+
  then show ?thesis
    using join_with_map [of to_ascii_lowercase 58 "split_on 58 (trim s)"]
    by (simp add: fingerprint_wf_def fingerprint_display_def m colon join_split)
qed

subsection \<open>Validation lemmas\<close>

lemma set_join_with: "set (join_with d ps) \<subseteq> insert d (\<Union> (set ` set ps))"
  by (induction d ps rule: join_with.induct) auto

lemma split_on_all:
  assumes "\<forall>p \<in> set (split_on d s). \<forall>c \<in> set p. P c" and "P d" and "c \<in> set s"
  shows "P c"
  using set_join_with [of d "split_on d s"] assms by (auto simp: join_split)

definition host_char :: "rchar \<Rightarrow> bool" where
  "host_char c \<longleftrightarrow> is_ascii_alphanumeric c \<or> c = 45 \<or> c = 46"

lemma host_char_plain:
  "host_char c \<Longrightarrow> c \<noteq> 58 \<and> c \<noteq> 47 \<and> \<not> is_whitespace c \<and> c < 128"
  by (auto simp: host_char_def is_ascii_alphanumeric_def is_ascii_digit_def is_ascii_alphabetic_def
      is_whitespace_def)

lemma dns_name_chars:
  assumes "is_dns_name s"
  shows "s \<noteq> []" and "\<forall>c \<in> set s. host_char c"
proof -
  let ?t = "case strip_suffix [46] s of Some t \<Rightarrow> t | None \<Rightarrow> s"
  from assms have t: "?t \<noteq> []" "list_all label_ok (split_on 46 ?t)"
    by (auto simp: is_dns_name_def Let_def split: if_splits)
  from t(2) have "\<forall>p \<in> set (split_on 46 ?t). \<forall>c \<in> set p. host_char c"
    by (fastforce simp: list_all_iff label_ok_def host_char_def)
  moreover have "host_char 46" by (simp add: host_char_def)
  ultimately have "\<forall>c \<in> set ?t. host_char c"
    using split_on_all by blast
  with t(1) show "s \<noteq> []" and "\<forall>c \<in> set s. host_char c"
    by (auto simp: strip_suffix_Some host_char_def split: option.splits)
qed

lemma all_some_Some: "all_some xs = Some ys \<longleftrightarrow> xs = map Some ys"
  by (induction xs arbitrary: ys rule: all_some.induct) auto

lemma ipv4_chars:
  assumes "is_ipv4 s"
  shows "s \<noteq> []" and "\<forall>c \<in> set s. host_char c"
proof -
  from assms obtain ys where ys: "length (split_on 46 s) = 4" "map parse_octet (split_on 46 s) = map Some ys"
    by (auto simp: is_ipv4_def parse_ipv4_def Let_def all_some_Some split: if_splits)
  then have "parse_octet p \<noteq> None" if "p \<in> set (split_on 46 s)" for p
    using that by (metis image_eqI imageE list.set_map option.distinct(1))
  then have "\<forall>p \<in> set (split_on 46 s). \<forall>c \<in> set p. host_char c"
    by (fastforce simp: parse_octet_def list_all_iff host_char_def is_ascii_alphanumeric_def split: if_splits)
  moreover have "host_char 46" by (simp add: host_char_def)
  ultimately show "\<forall>c \<in> set s. host_char c" using split_on_all by blast
  from ys(1) show "s \<noteq> []" by auto
qed

lemma contains_str_set: "contains_str x s \<Longrightarrow> set x \<subseteq> set s"
proof (induction s)
  case (Cons c cs)
  then consider "contains_str x cs" | r where "strip_prefix x (c # cs) = Some r" by auto
  then show ?case
  proof cases
    case 2
    then have "set (c # cs) = set (x @ r)" by (simp only: strip_prefix_Some)
    then show ?thesis by auto
  qed (use Cons.IH in auto)
qed simp

lemma split_double_colon_Some:
  "split_double_colon s = Some (a, b) \<Longrightarrow> s = a @ 58 # 58 # b"
  by (induction s arbitrary: a rule: split_double_colon.induct) (auto split: if_splits)

lemma plain_host_cases:
  assumes "is_dns_name nm \<or> is_ipv4 nm"
  shows "nm \<noteq> []" and "\<forall>c \<in> set nm. host_char c" and "58 \<notin> set nm"
  using assms dns_name_chars ipv4_chars host_char_plain by blast+

lemma digit_host_char: "is_ascii_digit c \<Longrightarrow> host_char c"
  by (simp add: host_char_def is_ascii_alphanumeric_def)

lemma check_host_with_port:
  assumes nm: "is_dns_name nm \<or> is_ipv4 nm"
    and pt: "pt \<noteq> []" "list_all is_ascii_digit pt"
    and len: "str_len (nm @ 58 # pt) \<le> MAX_HOST_LEN"
  shows "check_host (nm @ 58 # pt) = Some PortInHost"
proof -
  let ?h = "nm @ 58 # pt"
  note nmc = plain_host_cases [OF nm]
  have ptc: "\<forall>c \<in> set pt. host_char c" using pt(2) by (auto simp: list_all_iff digit_host_char)
  have nc: "58 \<notin> set nm" "58 \<notin> set pt" using nmc ptc host_char_plain by blast+
  have "\<not> is_whitespace (hd ?h)" "\<not> is_whitespace (last ?h)"
    using nmc ptc pt host_char_plain by (auto simp: hd_append)
  then have trim: "trim ?h = ?h" by (intro trim_id) simp
  have "47 \<notin> set ?h" using nmc ptc host_char_plain by auto
  then have scheme: "\<not> contains_str (lit ''://'') ?h"
    using contains_str_set [of "lit ''://''" ?h] by (auto simp: lit_def)
  have "\<not> is_ipv4 ?h" using ipv4_chars(2) [of ?h] host_char_plain by auto
  moreover have "split_double_colon ?h = None"
  proof (rule ccontr)
    assume "split_double_colon ?h \<noteq> None"
    then obtain a b where "?h = a @ 58 # 58 # b" by (auto dest: split_double_colon_Some)
    then have "length (filter (\<lambda>c. c = 58) ?h) = length (filter (\<lambda>c. c = 58) (a @ 58 # 58 # b))"
      by simp
    moreover have "filter (\<lambda>c. c = 58) nm = []" "filter (\<lambda>c. c = 58) pt = []"
      using nc by (auto simp: filter_empty_conv)
    ultimately show False by simp
  qed
  then have "\<not> is_ipv6 ?h"
    using nc nmc(1) by (auto simp: is_ipv6_def run_count_def split_on_append split_on_single)
  moreover have "has_port ?h"
    using nm pt nc rsplit_once_Some [of 58 ?h nm pt] by (auto simp: has_port_def)
  ultimately show ?thesis
    using trim scheme len nmc(1) by (simp add: check_host_def)
qed

lemma check_host_None:
  "check_host h = None \<Longrightarrow>
     trim h = h \<and> h \<noteq> [] \<and> str_len h \<le> MAX_HOST_LEN \<and> \<not> contains_str (lit ''://'') h \<and>
     (is_ipv4 h \<or> is_ipv6 h \<or> is_dns_name h)"
  by (auto simp: check_host_def trim_def trim_start_def split: if_splits)

lemma check_host_colon: "check_host h = None \<Longrightarrow> 58 \<in> set h \<Longrightarrow> is_ipv6 h"
  using check_host_None plain_host_cases(3) by blast

lemma in_set_map_filter: "y \<in> set (List.map_filter f xs) \<longleftrightarrow> (\<exists>x \<in> set xs. f x = Some y)"
  by (induction xs) (auto simp: map_filter_simps split: option.splits)

lemma profile_validate_Inr: "profile_validate p = Inr () \<longleftrightarrow> (\<forall>(f, q) \<in> set (profile_checks p). q = None)"
proof -
  have "List.map_filter (\<lambda>(f, q). map_option (ProfileIssue_new f) q) cs = [] \<longleftrightarrow> (\<forall>(f, q) \<in> set cs. q = None)" for cs
    by (induction cs) (auto simp: List.map_filter_def)
  then show ?thesis by (simp add: profile_validate_def Let_def)
qed

lemma profile_validate_Inl:
  assumes "profile_validate p = Inl issues"
  shows "issues \<noteq> [] \<and> (\<forall>i \<in> set issues. (issue_field i, Some (issue_problem i)) \<in> set (profile_checks p)) \<and>
    (\<forall>f q. (f, Some q) \<in> set (profile_checks p) \<longrightarrow> ProfileIssue_new f q \<in> set issues) \<and>
    distinct (map issue_field issues)"
proof -
  let ?f = "\<lambda>(f, q). map_option (ProfileIssue_new f) q"
  have i: "issues = List.map_filter ?f (profile_checks p)" "issues \<noteq> []"
    using assms by (auto simp: profile_validate_def Let_def split: if_splits)
  have "map issue_field (List.map_filter ?f cs) = map fst (filter (\<lambda>(f, q). q \<noteq> None) cs)" for cs
    by (induction cs) (auto simp: List.map_filter_def ProfileIssue_new_def)
  moreover have "distinct (map fst (profile_checks p))" by (simp add: profile_checks_def)
  ultimately have "distinct (map issue_field issues)"
    by (simp add: i distinct_map_filter)
  moreover have "(issue_field j, Some (issue_problem j)) \<in> set cs" if "j \<in> set (List.map_filter ?f cs)" for j cs
    using that by (auto simp: in_set_map_filter ProfileIssue_new_def)
  moreover have "ProfileIssue_new f q \<in> set (List.map_filter ?f cs)" if "(f, Some q) \<in> set cs" for f q cs
    using that by (auto simp: in_set_map_filter intro!: bexI [of _ "(f, Some q)"])
  ultimately show ?thesis using i by blast
qed

end
