(* ===== verification/Core_Store.thy ===== *)
theory Core_Store
  imports Core_Profile "HOL-Library.List_Lexorder" "HOL-Library.Product_Lexorder"
begin

text \<open>
  \<open>crates/drift-core/src/store.rs\<close>: the saved-profiles document. TOML parsing and serialization
  (the \<open>toml\<close> crate) are parameters. The locale \<open>keyed_store\<close> is what the app relies on: the ids
  stay unique, a lookup sees the last write, and edits keep the order.
\<close>

definition STORE_VERSION :: u32 where "STORE_VERSION = 1"

datatype StoreError =
    Parse rstr
  | UnsupportedVersion u32
  | DuplicateId Uuid
  | Serialize rstr
  | Invalid "ProfileIssue list"
  | NotFound Uuid

record Document =
  version :: u32
  doc_profiles :: "ConnectionProfile list"

record ProfileStore =
  profiles :: "ConnectionProfile list"

definition ProfileStore_new :: ProfileStore where
  "ProfileStore_new = \<lparr>profiles = []\<rparr>"

text \<open>The loop over the profiles: the first id that an earlier profile already has.\<close>

fun first_duplicate :: "Uuid list \<Rightarrow> ConnectionProfile list \<Rightarrow> Uuid option" where
  "first_duplicate seen [] = None"
| "first_duplicate seen (p # ps) =
     (if profile_id p \<in> set seen then Some (profile_id p) else first_duplicate (seen @ [profile_id p]) ps)"

definition store_from_toml ::
    "(rstr \<Rightarrow> (rstr, Document) result) \<Rightarrow> rstr \<Rightarrow> (StoreError, ProfileStore) result" where
  "store_from_toml parse s =
     (if trim s = [] then Inr ProfileStore_new
      else case parse s of
             Inl e \<Rightarrow> Inl (Parse e)
           | Inr doc \<Rightarrow>
               if STORE_VERSION < version doc then Inl (UnsupportedVersion (version doc))
               else case first_duplicate [] (doc_profiles doc) of
                      Some i \<Rightarrow> Inl (DuplicateId i)
                    | None \<Rightarrow> Inr \<lparr>profiles = doc_profiles doc\<rparr>)"

definition store_to_toml ::
    "(Document \<Rightarrow> (rstr, rstr) result) \<Rightarrow> ProfileStore \<Rightarrow> (StoreError, rstr) result" where
  "store_to_toml print st =
     (case print \<lparr>version = STORE_VERSION, doc_profiles = profiles st\<rparr> of
        Inl e \<Rightarrow> Inl (Serialize e)
      | Inr t \<Rightarrow> Inr t)"

text \<open>Display order: by lower-cased name, then id; \<open>lower\<close> is \<open>str::to_lowercase\<close>.\<close>

definition store_sorted :: "(rstr \<Rightarrow> rstr) \<Rightarrow> ProfileStore \<Rightarrow> ConnectionProfile list" where
  "store_sorted lower st = sort_key (\<lambda>p. (lower (name p), profile_id p)) (profiles st)"

definition store_get :: "ProfileStore \<Rightarrow> Uuid \<Rightarrow> ConnectionProfile option" where
  "store_get st i = find (\<lambda>p. profile_id p = i) (profiles st)"

fun replace_first :: "ConnectionProfile \<Rightarrow> ConnectionProfile list \<Rightarrow> ConnectionProfile list" where
  "replace_first q [] = []"
| "replace_first q (p # ps) = (if profile_id p = profile_id q then q # ps else p # replace_first q ps)"

definition upsert :: "ProfileStore \<Rightarrow> ConnectionProfile \<Rightarrow> (StoreError, bool \<times> ProfileStore) result" where
  "upsert st q =
     (case profile_validate q of
        Inl issues \<Rightarrow> Inl (Invalid issues)
      | Inr _ \<Rightarrow>
          (case find (\<lambda>p. profile_id p = profile_id q) (profiles st) of
             Some _ \<Rightarrow> Inr (True, st\<lparr>profiles := replace_first q (profiles st)\<rparr>)
           | None \<Rightarrow> Inr (False, st\<lparr>profiles := profiles st @ [q]\<rparr>)))"

fun remove_first :: "Uuid \<Rightarrow> ConnectionProfile list \<Rightarrow> ConnectionProfile list" where
  "remove_first i [] = []"
| "remove_first i (p # ps) = (if profile_id p = i then ps else p # remove_first i ps)"

definition store_remove :: "ProfileStore \<Rightarrow> Uuid \<Rightarrow> (StoreError, ConnectionProfile \<times> ProfileStore) result" where
  "store_remove st i =
     (case find (\<lambda>p. profile_id p = i) (profiles st) of
        None \<Rightarrow> Inl (NotFound i)
      | Some p \<Rightarrow> Inr (p, st\<lparr>profiles := remove_first i (profiles st)\<rparr>))"

definition set_pin :: "ProfileStore \<Rightarrow> Uuid \<Rightarrow> CertFingerprint option \<Rightarrow> (StoreError, ProfileStore) result" where
  "set_pin st i pin =
     (case find (\<lambda>p. profile_id p = i) (profiles st) of
        None \<Rightarrow> Inl (NotFound i)
      | Some p \<Rightarrow> Inr (st\<lparr>profiles := replace_first (p\<lparr>cert_pin := pin\<rparr>) (profiles st)\<rparr>))"

definition store_ids :: "ProfileStore \<Rightarrow> Uuid list" where
  "store_ids st = map profile_id (profiles st)"

definition store_wf :: "ProfileStore \<Rightarrow> bool" where
  "store_wf st \<longleftrightarrow> distinct (store_ids st)"

subsection \<open>The interface\<close>

text \<open>
  A store of keyed entries: \<open>put\<close> replaces or appends, \<open>take_out\<close> removes. The laws speak of
  lookups and of the order of the keys.
\<close>

locale keyed_store =
  fixes get :: "'s \<Rightarrow> 'k \<Rightarrow> 'v option"
    and put :: "'s \<Rightarrow> 'v \<Rightarrow> 's option"
    and take_out :: "'s \<Rightarrow> 'k \<Rightarrow> 's option"
    and key :: "'v \<Rightarrow> 'k"
    and keys :: "'s \<Rightarrow> 'k list"
    and wf :: "'s \<Rightarrow> bool"
  assumes get_key: "wf s \<Longrightarrow> get s k = Some v \<Longrightarrow> key v = k"
    and get_keys: "get s k \<noteq> None \<longleftrightarrow> k \<in> set (keys s)"
    and put_get: "wf s \<Longrightarrow> put s v = Some s' \<Longrightarrow> get s' = (get s)(key v \<mapsto> v)"
    and put_keys: "put s v = Some s' \<Longrightarrow> keys s' = (if key v \<in> set (keys s) then keys s else keys s @ [key v])"
    and put_wf: "wf s \<Longrightarrow> put s v = Some s' \<Longrightarrow> wf s'"
    and take_get: "wf s \<Longrightarrow> take_out s k = Some s' \<Longrightarrow> get s' = (get s)(k := None)"
    and take_keys: "wf s \<Longrightarrow> take_out s k = Some s' \<Longrightarrow> keys s' = filter (\<lambda>j. j \<noteq> k) (keys s)"
    and take_wf: "wf s \<Longrightarrow> take_out s k = Some s' \<Longrightarrow> wf s'"
begin

lemma put_then_take:
  assumes "wf s" and "get s (key v) = None" and "put s v = Some s'" and "take_out s' (key v) = Some s''"
  shows "get s'' = get s \<and> keys s'' = keys s"
proof -
  from assms put_wf have "wf s'" by blast
  have nk: "key v \<notin> set (keys s)" using assms(2) get_keys by blast
  have "get s'' = ((get s)(key v \<mapsto> v))(key v := None)"
    using take_get [OF \<open>wf s'\<close> assms(4)] put_get [OF assms(1,3)] by simp
  moreover have "keys s'' = filter (\<lambda>j. j \<noteq> key v) (keys s @ [key v])"
    using take_keys [OF \<open>wf s'\<close> assms(4)] put_keys [OF assms(3)] nk by simp
  moreover have "filter (\<lambda>j. j \<noteq> key v) (keys s) = keys s"
    using nk by (auto simp: filter_id_conv)
  ultimately show ?thesis using assms(2) by auto
qed

lemma put_put:
  assumes "wf s" and "key v = key w" and "put s v = Some s1" and "put s1 w = Some s2" and "put s w = Some s3"
  shows "get s2 = get s3 \<and> keys s2 = keys s3"
proof -
  have "wf s1" using assms put_wf by blast
  then have "get s2 = get s3"
    using put_get [OF _ assms(4)] put_get [OF assms(1,3)] put_get [OF assms(1,5)] assms(2) by simp
  moreover have "keys s2 = keys s3"
    using put_keys [OF assms(3)] put_keys [OF assms(4)] put_keys [OF assms(5)] assms(2) by simp
  ultimately show ?thesis by simp
qed

end

lemma find_id_Some: "find (\<lambda>p. profile_id p = i) ps = Some p \<Longrightarrow> p \<in> set ps \<and> profile_id p = i"
  by (auto simp: find_Some_iff)

lemma find_id_None: "find (\<lambda>p. profile_id p = i) ps = None \<longleftrightarrow> i \<notin> profile_id ` set ps"
  by (auto simp: find_None_iff)

lemma map_id_replace_first [simp]: "map profile_id (replace_first q ps) = map profile_id ps"
  by (induction ps) auto

lemma find_replace_first:
  "find (\<lambda>p. profile_id p = i) (replace_first q ps) =
     (if i = profile_id q \<and> profile_id q \<in> profile_id ` set ps then Some q else find (\<lambda>p. profile_id p = i) ps)"
  by (induction ps) auto

lemma find_append_new:
  "find (\<lambda>p. profile_id p = i) (ps @ [q]) =
     (case find (\<lambda>p. profile_id p = i) ps of Some p \<Rightarrow> Some p | None \<Rightarrow> if profile_id q = i then Some q else None)"
  by (induction ps) auto

lemma map_id_remove_first: "distinct (map profile_id ps) \<Longrightarrow> map profile_id (remove_first i ps) = filter (\<lambda>j. j \<noteq> i) (map profile_id ps)"
proof (induction ps)
  case (Cons p ps)
  then show ?case
    by (cases "profile_id p = i") (auto simp: filter_id_conv intro!: filter_True [symmetric])
qed simp

lemma find_remove_first:
  "distinct (map profile_id ps) \<Longrightarrow>
     find (\<lambda>p. profile_id p = j) (remove_first i ps) = (if j = i then None else find (\<lambda>p. profile_id p = j) ps)"
  by (induction ps) (auto simp: find_id_None)

lemma upsert_Inr:
  "upsert st q = Inr (b, st') \<longleftrightarrow>
     profile_validate q = Inr () \<and> b = (profile_id q \<in> set (store_ids st)) \<and>
     profiles st' = (if b then replace_first q (profiles st) else profiles st @ [q])"
proof -
  have "st\<lparr>profiles := xs\<rparr> = st' \<longleftrightarrow> profiles st' = xs" for xs
    by (cases st; cases st') auto
  moreover have "(\<exists>p. find (\<lambda>p. profile_id p = profile_id q) (profiles st) = Some p) \<longleftrightarrow> profile_id q \<in> set (store_ids st)"
    using find_id_None [of "profile_id q" "profiles st"] by (auto simp: store_ids_def)
  ultimately show ?thesis
    by (cases "find (\<lambda>p. profile_id p = profile_id q) (profiles st)")
      (auto simp: upsert_def split: sum.splits)
qed

lemma store_remove_Inr:
  "store_remove st i = Inr (p, st') \<longleftrightarrow> store_get st i = Some p \<and> profiles st' = remove_first i (profiles st)"
  by (cases st; cases st') (auto simp: store_remove_def store_get_def split: option.splits)

interpretation ps: keyed_store store_get
  "\<lambda>st q. case upsert st q of Inr (_, st') \<Rightarrow> Some st' | Inl _ \<Rightarrow> None"
  "\<lambda>st i. case store_remove st i of Inr (_, st') \<Rightarrow> Some st' | Inl _ \<Rightarrow> None"
  profile_id store_ids store_wf
proof (unfold_locales, goal_cases)
  case (1 s k v)
  then show ?case by (auto simp: store_get_def dest: find_id_Some)
next
  case (2 s k)
  show ?case by (auto simp: store_get_def store_ids_def find_id_None)
next
  case (3 s v s')
  then show ?case
    by (auto simp: upsert_Inr store_get_def store_ids_def fun_eq_iff find_replace_first find_append_new
        find_id_None [THEN iffD2] split: sum.splits option.splits)
next
  case (4 s v s')
  then show ?case by (auto simp: upsert_Inr store_ids_def split: sum.splits)
next
  case (5 s v s')
  then show ?case by (auto simp: upsert_Inr store_wf_def store_ids_def split: sum.splits if_splits)
next
  case (6 s k s')
  then show ?case
    by (auto simp: store_remove_Inr store_get_def store_wf_def store_ids_def fun_eq_iff find_remove_first
        split: sum.splits)
next
  case (7 s k s')
  then show ?case
    by (auto simp: store_remove_Inr store_wf_def store_ids_def map_id_remove_first split: sum.splits)
next
  case (8 s k s')
  then show ?case
    by (auto simp: store_remove_Inr store_wf_def store_ids_def map_id_remove_first split: sum.splits)
qed

lemma first_duplicate_None:
  "first_duplicate seen ps = None \<longleftrightarrow> distinct (map profile_id ps) \<and> set (map profile_id ps) \<inter> set seen = {}"
  by (induction seen ps rule: first_duplicate.induct) auto

lemma store_from_toml_wf: "store_from_toml parse s = Inr st \<Longrightarrow> store_wf st"
  by (auto simp: store_from_toml_def store_wf_def store_ids_def ProfileStore_new_def first_duplicate_None
      split: if_splits sum.splits option.splits)

lemma set_pin_frame:
  assumes "set_pin st i pin = Inr st'"
  shows "store_ids st' = store_ids st" and "\<And>j. j \<noteq> i \<Longrightarrow> store_get st' j = store_get st j"
    and "\<exists>p. store_get st i = Some p \<and> store_get st' i = Some (p\<lparr>cert_pin := pin\<rparr>)"
proof -
  from assms obtain p where p: "find (\<lambda>p. profile_id p = i) (profiles st) = Some p"
      "st' = st\<lparr>profiles := replace_first (p\<lparr>cert_pin := pin\<rparr>) (profiles st)\<rparr>"
    by (auto simp: set_pin_def split: option.splits)
  from find_id_Some [OF p(1)] have i: "p \<in> set (profiles st)" "profile_id p = i" by auto
  with p show "store_ids st' = store_ids st" and "\<And>j. j \<noteq> i \<Longrightarrow> store_get st' j = store_get st j"
    and "\<exists>p. store_get st i = Some p \<and> store_get st' i = Some (p\<lparr>cert_pin := pin\<rparr>)"
    by (auto simp: store_ids_def store_get_def find_replace_first)
qed

end
