(* ===== verification/Core_Theorems.thy ===== *)
theory Core_Theorems
  imports Core_Reconnect Core_Triggers Core_Layout Core_Store
begin

text \<open>
  The properties of \<open>drift-core\<close>: the session state machine, the reconnect policy, the trigger
  merger, the layout computation, profiles and the profile store. Each is followed by a witness
  that applies it to concrete values.
\<close>

subsection \<open>The session state machine\<close>

text \<open>C3: \<open>SessionState::transition\<close> accepts a change of a well-formed state exactly when the rules of
  its documentation comment allow it, and then returns the target unchanged.\<close>

theorem transition_is_documented:
  assumes "target_valid s"
  shows "transition s t = Inr u \<longleftrightarrow> u = t \<and> doc_rule s t"
  using assms by (simp add: transition_Inr_iff allows_iff_doc_rule)

theorem transition_is_documented_witness:
  "transition (Connecting 2 Tls) AwaitingGreeterLogin = Inr AwaitingGreeterLogin \<and>
   \<not> doc_rule (Connecting 2 Tls) (Connecting 4 Tls)"
  using transition_is_documented [of "Connecting 2 Tls" AwaitingGreeterLogin AwaitingGreeterLogin]
    transition_is_documented [of "Connecting 2 Tls" "Connecting 4 Tls" "Connecting 4 Tls"]
    doc_rule.greeter [of 2 Tls]
  by (auto simp: MAX_LEG_def MAX_REDIRECTS_def transition_Inr_iff allows_def checked_add_def)

text \<open>Along any accepted sequence of states, leg numbers stay within \<open>MAX_LEG\<close>, only retryable
  reasons are reconnecting and with a positive attempt number, and an active stretch that follows an
  inactive state opens with leg 1 of a connection.\<close>

theorem session_runs_well_formed:
  assumes "session_path s ts" and "\<not> is_active s" and "ts \<noteq> []" and "is_active (last ts)"
  shows "(\<forall>t \<in> set ts. target_valid t) \<and>
    (\<exists>us vs st. ts = us @ Connecting 1 st # vs \<and> (\<forall>v \<in> set vs. is_active v))"
  using session_path_valid [OF assms(1)] active_run_starts_at_leg_1 [OF assms] by blast

theorem session_runs_well_formed_witness:
  "\<exists>us vs st. [Connecting 1 Tcp, Connecting 2 Tcp, AwaitingGreeterLogin] = us @ Connecting 1 st # vs \<and>
     list_all is_active vs"
  using session_runs_well_formed [of Idle "[Connecting 1 Tcp, Connecting 2 Tcp, AwaitingGreeterLogin]"]
  by (simp add: transition_def allows_def MAX_LEG_def MAX_REDIRECTS_def checked_add_def list_all_iff)

text \<open>While a session stays in \<open>Reconnecting\<close>, its attempt numbers never decrease and every reason
  it shows is retryable.\<close>

theorem reconnecting_attempts_grow:
  assumes "session_path (Reconnecting n t r) ts" and "\<forall>s \<in> set ts. \<exists>m u q. s = Reconnecting m u q"
  shows "\<forall>m u q. Reconnecting m u q \<in> set ts \<longrightarrow> n \<le> m \<and> is_retryable q"
  using reconnecting_run_mono [OF assms] .

theorem reconnecting_attempts_grow_witness:
  "session_path (Reconnecting 1 0 Network) [Reconnecting 2 5 Timeout, Reconnecting 3 0 Network] \<and>
   (1::u32) \<le> 2 \<and> is_retryable Timeout \<and> (1::u32) \<le> 3"
  using reconnecting_attempts_grow [of 1 0 Network "[Reconnecting 2 5 Timeout, Reconnecting 3 0 Network]"]
  by (auto simp: transition_def allows_def)

subsection \<open>The reconnect policy\<close>

text \<open>C28: A retry is never scheduled later than \<open>base * 2 ^ (attempt - 1)\<close> nor later than the cap, it
  carries the number of attempts made, and attempts made before a stable connection are forgotten.\<close>

theorem retry_delay_bounded:
  assumes "on_disconnect p r now = (Retry n t, q)" and "n \<le> 32" and "cap (config p) \<le> duration_max"
  shows "t \<le> cap (config p) \<and> t \<le> base (config p) * 2 ^ (unat n - 1) \<and> attempts q = n \<and>
    n = saturating_add (attempts (forget_if_stable p now)) 1"
proof -
  let ?p = "forget_if_stable p now"
  from on_disconnect_cases [OF assms(1)] have d: "next_decision ?p True = (Retry n t, q)" by auto
  have c: "config ?p = config p" by (simp add: forget_if_stable_frame)
  from next_decision_cases [OF d] obtain g where
    n: "n = saturating_add (attempts ?p) 1" and t: "t \<le> Core_Reconnect.ceiling ?p n" and q: "q = ?p\<lparr>attempts := n, rng := g\<rparr>"
    by auto
  have "1 \<le> unat n" by (simp add: n word_ops)
  moreover have "unat n \<le> 32" using assms(2) by (simp add: word_le_nat_alt)
  ultimately have "Core_Reconnect.ceiling ?p n = min (cap (config p)) (base (config p) * 2 ^ (unat n - 1))"
    using Core_Reconnect.ceiling_eq [of n ?p] assms(3) c by simp
  with t q n show ?thesis by simp
qed

theorem retry_delay_bounded_witness:
  "let (d, q) = on_disconnect (ReconnectPolicy_new ReconnectConfig_default 7) Network 0 in
   \<exists>n t. d = Retry n t \<and> t \<le> duration_millis 500 \<and> attempts q = n"
proof -
  let ?p = "ReconnectPolicy_new ReconnectConfig_default 7"
  obtain d q where o: "on_disconnect ?p Network 0 = (d, q)" by fastforce
  have "forget_if_stable ?p 0 = ?p" by (simp add: forget_if_stable_def ReconnectPolicy_new_def)
  moreover have "network_reachable ?p" "budget_left ?p"
    by (simp_all add: ReconnectPolicy_new_def ReconnectConfig_default_def budget_left_def DEFAULT_MAX_ATTEMPTS_def)
  ultimately obtain n t where d: "d = Retry n t" and n: "n = saturating_add (attempts ?p) 1"
    using on_disconnect_cases [OF o] next_decision_cases by fastforce
  have n1: "n = 1" using n by (simp add: ReconnectPolicy_new_def saturating_add_def)
  have "cap (config ?p) \<le> duration_max"
    by (simp add: ReconnectPolicy_new_def ReconnectConfig_default_def duration_secs_def duration_max_def)
  with retry_delay_bounded [OF o [unfolded d]] n1 o d show ?thesis
    by (simp add: ReconnectPolicy_new_def ReconnectConfig_default_def)
qed

text \<open>C12: Without a successful connection or a reset in between, a fresh policy schedules at most
  \<open>max_attempts\<close> retries, whatever the order of disconnects, network changes and manual retries.\<close>

theorem retries_within_budget:
  assumes "policy_run (ReconnectPolicy_new c seed) es = (ds, q)" and "list_all keeps_history es"
    and "max_attempts c = Some mx"
  shows "retries ds \<le> unat mx"
proof -
  let ?p = "ReconnectPolicy_new c seed"
  have p: "connected_since ?p = None" "max_attempts (config ?p) = Some mx" "unat (attempts ?p) = 0"
    using assms(3) by (simp_all add: ReconnectPolicy_new_def)
  have "unat (attempts q) = retries ds"
    using policy_run_attempts [OF assms(1,2) p(1,2) within_budget_new] p(3) by simp
  moreover have "within_budget q" "config q = config ?p"
    using policy_run_budget [OF within_budget_new assms(1)] by simp_all
  ultimately show ?thesis using p(2) by (auto simp: within_budget_def word_le_nat_alt)
qed

theorem retries_within_budget_witness:
  "retries (fst (policy_run (ReconnectPolicy_new \<lparr>base = 1, cap = 5, max_attempts = Some 1, stable_after = 9\<rparr> 3)
     [EvRetryNow, EvNetwork False, EvRetryNow, EvNetwork True, EvRetryNow])) \<le> 1"
  using retries_within_budget [of "\<lparr>base = 1, cap = 5, max_attempts = Some 1, stable_after = 9\<rparr>" 3
      "[EvRetryNow, EvNetwork False, EvRetryNow, EvNetwork True, EvRetryNow]" _ _ 1]
  by (cases "policy_run (ReconnectPolicy_new \<lparr>base = 1, cap = 5, max_attempts = Some 1, stable_after = 9\<rparr> 3)
     [EvRetryNow, EvNetwork False, EvRetryNow, EvNetwork True, EvRetryNow]") simp

subsection \<open>Triggers\<close>

text \<open>C29: Two \<open>RetryNow\<close> actions with no pause between them are at least the debounce window apart,
  and after an outage the first \<open>NetworkOnline\<close> retries at once, whatever fired in between.\<close>

theorem trigger_retries_spaced:
  assumes "online m" and "\<forall>(t, now) \<in> set ts. t \<noteq> NetworkOnline"
  shows "spaced (debounce m) (last_retry m) (fst (feed m us)) \<and>
    fst (on_trigger (snd (feed (snd (on_trigger m NetworkOffline t0)) ts)) NetworkOnline t1) = Some RetryNow"
  using feed_spaced back_online_retries [OF assms] by blast

theorem trigger_retries_spaced_witness:
  "let m = snd (on_trigger (TriggerMerger_new True) Wake 5) in
   spaced (duration_secs 2) (Some 5) (fst (feed m [(Wake, 6), (Wake, 2 * 10 ^ 9 + 5)])) \<and>
   fst (on_trigger (snd (feed (snd (on_trigger m NetworkOffline 6)) [(Wake, 7)])) NetworkOnline 8) = Some RetryNow"
  using trigger_retries_spaced [of "snd (on_trigger (TriggerMerger_new True) Wake 5)" "[(Wake, 7)]"
      "[(Wake, 6), (Wake, 2 * 10 ^ 9 + 5)]" 6 8]
  by (simp add: TriggerMerger_new_def with_debounce_def retry_def DEFAULT_DEBOUNCE_def Let_def)

subsection \<open>Display layout\<close>

text \<open>C40: Whatever the window and the preferences, the monitor layout Drift asks for has an even width
  and both sides between 200 and 8192 pixels, its area is within the server's maximum (when that allows
  the minimal monitor), the desktop scale is 100 or 200, and the device scale is a nearest factor.\<close>

theorem desired_layout_ok:
  assumes "40000 \<le> unat (max_area caps)"
  shows "let l = desired_layout F v prefs caps in
    dims_ok (ml_width l) (ml_height l) \<and> unat (ml_width l) * unat (ml_height l) \<le> unat (max_area caps) \<and>
    desktop_scale_factor l \<in> {100, 200} \<and> device_scale_factor l \<in> set DEVICE_SCALE_FACTORS \<and>
    (\<forall>c \<in> set DEVICE_SCALE_FACTORS.
       abs_diff (device_scale_factor l) (desktop_scale_factor l) \<le> abs_diff c (desktop_scale_factor l))"
  using desired_layout_dims [OF assms, of F v prefs] desired_layout_scale [of F v prefs caps] device_scale_nearest
  by (simp add: Let_def)

theorem desired_layout_ok_witness:
  "let l = desired_layout rat_f64
     \<lparr>points = Size_new (Some 10) (Some 9000), backing_scale = Some 2\<rparr> DisplayPrefs_default
     \<lparr>max_num_monitors = 1, max_monitor_area_factor_a = 1000, max_monitor_area_factor_b = 1000\<rparr> in
   dims_ok (ml_width l) (ml_height l) \<and> unat (ml_width l) * unat (ml_height l) \<le> 1000000"
proof -
  let ?caps = "\<lparr>max_num_monitors = 1, max_monitor_area_factor_a = 1000, max_monitor_area_factor_b = 1000\<rparr>"
  have m: "unat (max_area ?caps) = 1000000"
    by (simp add: max_area_def saturating_mul_def)
  then show ?thesis
    using desired_layout_ok [of ?caps rat_f64
        "\<lparr>points = Size_new (Some 10) (Some 9000), backing_scale = Some 2\<rparr>" DisplayPrefs_default]
    by (simp only: m Let_def)
qed

text \<open>A window size already within the limits is kept: only an odd width is lowered by one.\<close>

theorem fit_to_caps_keeps_size:
  assumes "200 \<le> unat a" "unat a \<le> 8192" "200 \<le> unat b" "unat b \<le> 8192" "unat a * unat b \<le> unat mx"
  shows "unat (fst (fit_to_caps F a b mx)) = unat a - unat a mod 2 \<and> snd (fit_to_caps F a b mx) = b"
  using fit_to_caps_exact [OF assms] .

theorem fit_to_caps_keeps_size_witness:
  "unat (fst (fit_to_caps rat_f64 1281 800 2000000)) = 1280 \<and> snd (fit_to_caps rat_f64 1281 800 2000000) = 800"
  using fit_to_caps_keeps_size [of 1281 800 2000000 rat_f64] by simp

subsection \<open>Profiles\<close>

text \<open>Certificate fingerprints round-trip: parsing the displayed text of 32 bytes gives them back, and
  a text that parses displays as itself, trimmed and in lower case.\<close>

theorem fingerprint_round_trip:
  assumes "fingerprint_wf fp"
  shows "fingerprint_from_str (fingerprint_display fp) = Inr fp \<and>
    (\<forall>s. fingerprint_from_str s = Inr fp \<longrightarrow> fingerprint_display fp = map to_ascii_lowercase (trim s))"
  using fingerprint_parse_display [OF assms] fingerprint_display_parse by blast

theorem fingerprint_round_trip_witness:
  "fingerprint_from_str (fingerprint_display (replicate 32 0xAB)) = Inr (replicate 32 0xAB)"
  using fingerprint_round_trip [of "replicate 32 0xAB"] by (simp add: fingerprint_wf_def)

text \<open>An accepted host is trimmed, short enough, has no scheme and is an address or a DNS name; one
  with a colon in it is an IPv6 address; a DNS name or IPv4 address followed by a port is refused as such.\<close>

theorem check_host_sound:
  assumes "is_dns_name nm \<or> is_ipv4 nm" and "pt \<noteq> []" and "list_all is_ascii_digit pt"
    and "str_len (nm @ 58 # pt) \<le> MAX_HOST_LEN"
  shows "check_host (nm @ 58 # pt) = Some PortInHost \<and>
    (\<forall>h. check_host h = None \<longrightarrow> trim h = h \<and> str_len h \<le> MAX_HOST_LEN \<and>
      \<not> contains_str (lit ''://'') h \<and> (is_ipv4 h \<or> is_ipv6 h \<or> is_dns_name h) \<and> (58 \<in> set h \<longrightarrow> is_ipv6 h))"
  using check_host_with_port [OF assms] check_host_None check_host_colon by blast

theorem check_host_sound_witness: "check_host (lit ''a1'' @ 58 # lit ''33'') = Some PortInHost"
proof -
  have "is_dns_name (lit ''a1'')" "list_all is_ascii_digit (lit ''33'')"
    "str_len (lit ''a1'' @ 58 # lit ''33'') \<le> MAX_HOST_LEN"
    by (simp_all add: is_dns_name_def strip_suffix_def lit_def label_ok_def str_len_def len_utf8_def
        is_ascii_alphanumeric_def is_ascii_alphabetic_def is_ascii_digit_def MAX_HOST_LEN_def)
  then show ?thesis
    using check_host_sound [of "lit ''a1''" "lit ''33''"] by (simp add: lit_def)
qed

text \<open>Validation reports exactly the failing checks, in field order and at most one per field; a
  profile passes when every check does.\<close>

theorem profile_validate_exact:
  "case profile_validate p of
     Inr _ \<Rightarrow> check_text (name p) MAX_NAME_CHARS = None \<and> check_host (host p) = None \<and> port p \<noteq> 0 \<and>
       check_text (rdp_username p) MAX_USERNAME_CHARS = None \<and> check_linux_username (mode p) (linux_username p) = None
   | Inl issues \<Rightarrow> issues \<noteq> [] \<and> distinct (map issue_field issues) \<and>
       set issues = {ProfileIssue_new f q | f q. (f, Some q) \<in> set (profile_checks p)}"
proof (cases "profile_validate p")
  case (Inr u)
  then show ?thesis using profile_validate_Inr [of p] by (auto simp: profile_checks_def split: if_splits)
next
  case (Inl issues)
  note V = profile_validate_Inl [OF Inl]
  have "set issues = {ProfileIssue_new f q | f q. (f, Some q) \<in> set (profile_checks p)}"
  proof -
    have "issues = List.map_filter (\<lambda>(f, q). map_option (ProfileIssue_new f) q) (profile_checks p)"
      using Inl by (auto simp: profile_validate_def Let_def split: if_splits)
    then have "i \<in> set issues \<longleftrightarrow> (\<exists>f q. (f, Some q) \<in> set (profile_checks p) \<and> i = ProfileIssue_new f q)" for i
      by (force simp: in_set_map_filter)
    then show ?thesis by blast
  qed
  with V Inl show ?thesis by simp
qed

subsection \<open>The profile store\<close>

text \<open>Saving then reading a store whose ids are unique gives it back, when the TOML library reads what
  it wrote (a non-blank text) and every store read has unique ids, whatever the parser returns.\<close>

theorem store_round_trip:
  assumes "store_wf st" and "store_to_toml print st = Inr t" and "trim t \<noteq> []"
    and "\<forall>d t. print d = Inr t \<longrightarrow> parse t = Inr d"
  shows "store_from_toml parse t = Inr st \<and> (\<forall>parse s st'. store_from_toml parse s = Inr st' \<longrightarrow> store_wf st')"
proof -
  from assms(2) have "print \<lparr>version = STORE_VERSION, doc_profiles = profiles st\<rparr> = Inr t"
    by (auto simp: store_to_toml_def split: sum.splits)
  with assms(4) have "parse t = Inr \<lparr>version = STORE_VERSION, doc_profiles = profiles st\<rparr>" by blast
  moreover have "first_duplicate [] (profiles st) = None"
    using assms(1) by (simp add: first_duplicate_None store_wf_def store_ids_def)
  ultimately have "store_from_toml parse t = Inr st"
    using assms(3) by (simp add: store_from_toml_def)
  then show ?thesis using store_from_toml_wf by blast
qed

theorem store_round_trip_witness:
  "store_from_toml (\<lambda>t. Inr \<lparr>version = 1, doc_profiles = []\<rparr>) (lit ''x'') = Inr ProfileStore_new"
proof -
  let ?print = "\<lambda>d. if d = \<lparr>version = STORE_VERSION, doc_profiles = []\<rparr> then Inr (lit ''x'') else Inl []"
  have p: "parse = (\<lambda>t. Inr \<lparr>version = 1, doc_profiles = []\<rparr>) \<Longrightarrow>
      \<forall>d t. ?print d = Inr t \<longrightarrow> parse t = Inr d" for parse :: "rstr \<Rightarrow> (rstr, Document) result"
    by (simp add: STORE_VERSION_def)
  have "trim (lit ''x'') \<noteq> []" by (simp add: lit_def trim_id is_whitespace_def)
  then show ?thesis
    using store_round_trip [of ProfileStore_new ?print "lit ''x''", OF _ _ _ p]
    by (simp add: store_wf_def store_ids_def ProfileStore_new_def store_to_toml_def)
qed

text \<open>\<open>upsert\<close> stores only valid profiles, keeps the ids unique and every other profile as it was, and
  reports whether it replaced one; removing a profile just added restores every lookup and the order.\<close>

theorem upsert_stores:
  assumes "store_wf st" and "upsert st q = Inr (replaced, st')"
  shows "profile_validate q = Inr () \<and> store_wf st' \<and> store_get st' = (store_get st)(profile_id q \<mapsto> q) \<and>
    replaced = (store_get st (profile_id q) \<noteq> None) \<and>
    (\<forall>st''. \<not> replaced \<longrightarrow> store_remove st' (profile_id q) = Inr (q, st'') \<longrightarrow>
      store_get st'' = store_get st \<and> store_ids st'' = store_ids st)"
proof -
  have v: "profile_validate q = Inr ()" "replaced = (profile_id q \<in> set (store_ids st))"
    using assms(2) by (simp_all add: upsert_Inr)
  have p: "(case upsert st q of Inr (_, st') \<Rightarrow> Some st' | Inl _ \<Rightarrow> None) = Some st'" using assms(2) by simp
  have "store_wf st'" "store_get st' = (store_get st)(profile_id q \<mapsto> q)"
    using ps.put_wf [OF assms(1) p] ps.put_get [OF assms(1) p] by simp_all
  moreover have "replaced = (store_get st (profile_id q) \<noteq> None)" using v(2) ps.get_keys by simp
  moreover have "store_get st'' = store_get st \<and> store_ids st'' = store_ids st"
    if "\<not> replaced" "store_remove st' (profile_id q) = Inr (q, st'')" for st''
    using ps.put_then_take [OF assms(1) _ p, of st''] that calculation(3) by simp
  ultimately show ?thesis using v(1) by blast
qed

lemma sample_profile_valid:
  "profile_validate ((ConnectionProfile_new i (lit ''n'') (lit ''1.1.1.1'') m)\<lparr>rdp_username := lit ''u''\<rparr>) = Inr ()"
proof -
  have "is_ipv4 (lit ''1.1.1.1'')" "\<not> contains_str (lit ''://'') (lit ''1.1.1.1'')"
    "str_len (lit ''1.1.1.1'') = 7" "trim (lit ''1.1.1.1'') = lit ''1.1.1.1''"
    by (simp_all add: lit_def is_ipv4_def parse_ipv4_def parse_octet_def dec_value_def is_ascii_digit_def
        str_len_def len_utf8_def trim_id is_whitespace_def)
  moreover have "lit ''1.1.1.1'' \<noteq> []" by (simp add: lit_def)
  ultimately have "check_host (lit ''1.1.1.1'') = None" by (simp add: check_host_def MAX_HOST_LEN_def)
  moreover have "check_text (lit ''n'') MAX_NAME_CHARS = None" "check_text (lit ''u'') MAX_USERNAME_CHARS = None"
    by (simp_all add: check_text_def trim_id lit_def is_whitespace_def is_control_def MAX_NAME_CHARS_def
        MAX_USERNAME_CHARS_def)
  ultimately show ?thesis
    by (simp add: profile_validate_Inr profile_checks_def ConnectionProfile_new_def default_port_def DEFAULT_RDP_PORT_def
        check_linux_username_def)
qed

theorem upsert_stores_witness:
  "let q = (ConnectionProfile_new 5 (lit ''n'') (lit ''1.1.1.1'') RemoteLogin)\<lparr>rdp_username := lit ''u''\<rparr>
   in store_get \<lparr>profiles = [q]\<rparr> (profile_id q) = Some q"
proof -
  define q where "q = (ConnectionProfile_new 5 (lit ''n'') (lit ''1.1.1.1'') RemoteLogin)\<lparr>rdp_username := lit ''u''\<rparr>"
  have v: "profile_validate q = Inr ()" unfolding q_def by (rule sample_profile_valid)
  have "upsert ProfileStore_new q = Inr (False, \<lparr>profiles = [q]\<rparr>)"
    using v by (simp add: upsert_def ProfileStore_new_def)
  moreover have "store_wf ProfileStore_new"
    by (simp add: store_wf_def store_ids_def ProfileStore_new_def)
  ultimately have "store_get \<lparr>profiles = [q]\<rparr> = (store_get ProfileStore_new)(profile_id q \<mapsto> q)"
    using upsert_stores by blast
  then show ?thesis unfolding Let_def q_def [symmetric] by simp
qed

end
