(* ===== verification/Codec_Tile.thy ===== *)
theory Codec_Tile
  imports Core_Geometry Rust_Str
begin

text \<open>
  \<open>crates/drift-codec/src\<close>: \<open>error.rs\<close>, \<open>tile.rs\<close> and the three stateless codecs
  \<open>uncompressed.rs\<close>, \<open>planar.rs\<close> and \<open>clear.rs\<close>. A \<open>usize\<close> is a natural number (\<open>tile_offsets\<close>
  bounds every offset of a decoder's tile by its buffer's length), a slice index that would panic
  is \<open>None\<close>. The entropy decoders of \<open>ironrdp_graphics\<close> are parameters.
\<close>

subsection \<open>Errors\<close>

datatype CodecKind = Progressive | Planar | Uncompressed | ClearCodecKind

datatype CodecError =
    Malformed CodecKind rstr
  | SizeMismatch CodecKind nat nat
  | InvalidRect CodecKind Rect
  | SurfaceTooLarge CodecKind u32 u32

subsection \<open>Tiles and blits\<close>

definition BPP :: nat where "BPP = 4"

record BgraTile =
  tile_origin :: "u32 Point"
  tile_size :: "u32 Size"
  tile_data :: "u8 list"
  update_rects :: "Rect list"

record Blit =
  blit_rect :: Rect
  blit_stride :: nat
  blit_data :: "u8 list"

definition tile_full :: "Rect \<Rightarrow> u8 list \<Rightarrow> BgraTile" where
  "tile_full r data =
     \<lparr>tile_origin = Point_new (rect_x r) (rect_y r), tile_size = rect_size r, tile_data = data,
      update_rects = [r]\<rparr>"

definition tile_stride :: "BgraTile \<Rightarrow> nat" where
  "tile_stride t = unat (width (tile_size t)) * BPP"

definition footprint :: "BgraTile \<Rightarrow> Rect" where
  "footprint t = Rect_new (pt_x (tile_origin t)) (pt_y (tile_origin t)) (width (tile_size t)) (height (tile_size t))"

definition contains :: "Rect \<Rightarrow> Rect \<Rightarrow> bool" where
  "contains outer inner =
     (rect_x outer \<le> rect_x inner \<and> rect_y outer \<le> rect_y inner \<and>
      right inner \<le> right outer \<and> bottom inner \<le> bottom outer)"

definition blit_of :: "BgraTile \<Rightarrow> Rect \<Rightarrow> Blit option" where
  "blit_of t r =
     (if rect_is_empty r \<or> \<not> contains (footprint t) r then None
      else
        let stride = tile_stride t;
            local_x = unat (rect_x r - pt_x (tile_origin t));
            local_y = unat (rect_y r - pt_y (tile_origin t));
            start = local_y * stride + local_x * BPP;
            needed = (unat (rect_height r) - 1) * stride + unat (rect_width r) * BPP
        in if start \<le> length (tile_data t)
           then let data = drop start (tile_data t)
             in if needed \<le> length data
                then Some \<lparr>blit_rect = r, blit_stride = stride, blit_data = data\<rparr>
                else None
           else None)"

definition blits :: "BgraTile \<Rightarrow> Blit list" where
  "blits t = List.map_filter (blit_of t) (update_rects t)"

text \<open>\<open>&data[from..][..len]\<close>, which panics out of range.\<close>

definition slice :: "nat \<Rightarrow> nat \<Rightarrow> 'a list \<Rightarrow> 'a list option" where
  "slice start len xs = (if start + len \<le> length xs then Some (take len (drop start xs)) else None)"

text \<open>\<open>dst.get_mut(d..d + n)\<close> followed by \<open>copy_from_slice\<close>; out of range nothing is written.\<close>

definition copy_at :: "nat \<Rightarrow> 'a list \<Rightarrow> 'a list \<Rightarrow> 'a list" where
  "copy_at d src dst =
     (if d + length src \<le> length dst then take d dst @ src @ drop (d + length src) dst else dst)"

fun copy_rows :: "nat \<Rightarrow> nat \<Rightarrow> Blit \<Rightarrow> nat list \<Rightarrow> u8 list \<Rightarrow> u8 list option" where
  "copy_rows dst_stride row_bytes b [] dst = Some dst"
| "copy_rows dst_stride row_bytes b (row # rows) dst =
     (case slice (row * blit_stride b) row_bytes (blit_data b) of
        None \<Rightarrow> None
      | Some src \<Rightarrow>
          (let d = (unat (rect_y (blit_rect b)) + row) * dst_stride + unat (rect_x (blit_rect b)) * BPP
           in copy_rows dst_stride row_bytes b rows (copy_at d src dst)))"

definition blit_one :: "u32 Size \<Rightarrow> Blit \<Rightarrow> u8 list \<Rightarrow> u8 list option" where
  "blit_one surface b dst =
     (let r = blit_rect b;
          rgt = min (right r) (width surface);
          btm = min (bottom r) (height surface)
      in if rgt \<le> rect_x r \<or> btm \<le> rect_y r then Some dst
         else copy_rows (unat (width surface) * BPP) (unat (rgt - rect_x r) * BPP) b
                [0..<unat (btm - rect_y r)] dst)"

fun blit_all :: "u32 Size \<Rightarrow> Blit list \<Rightarrow> u8 list \<Rightarrow> u8 list option" where
  "blit_all surface [] dst = Some dst"
| "blit_all surface (b # bs) dst =
     (case blit_one surface b dst of None \<Rightarrow> None | Some dst' \<Rightarrow> blit_all surface bs dst')"

definition blit_into :: "BgraTile \<Rightarrow> u32 Size \<Rightarrow> u8 list \<Rightarrow> u8 list option" where
  "blit_into t surface dst = blit_all surface (blits t) dst"

definition MAX_DEST_PIXELS :: nat where "MAX_DEST_PIXELS = 2 ^ 25"

definition u16_try_from :: "u32 \<Rightarrow> u16 option" where
  "u16_try_from x = (if unat x < 2 ^ 16 then Some (ucast x) else None)"

definition validate_dest :: "CodecKind \<Rightarrow> Rect \<Rightarrow> (CodecError, u16 \<times> u16) result" where
  "validate_dest codec r =
     and_then (ok_or (u16_try_from (rect_width r)) (InvalidRect codec r)) (\<lambda>w.
     and_then (ok_or (u16_try_from (rect_height r)) (InvalidRect codec r)) (\<lambda>h.
       if w = 0 \<or> h = 0 \<or> unat w * unat h > MAX_DEST_PIXELS
       then Inl (InvalidRect codec r) else Inr (w, h)))"

subsection \<open>The codecs\<close>

datatype UncompressedFormat = Xrgb | Argb

fun force_opaque :: "u8 list \<Rightarrow> u8 list" where
  "force_opaque (b # g # r # a # px) = b # g # r # 0xFF # force_opaque px"
| "force_opaque px = px"

definition decode_uncompressed :: "Rect \<Rightarrow> UncompressedFormat \<Rightarrow> u8 list \<Rightarrow> (CodecError, BgraTile) result" where
  "decode_uncompressed dest format data =
     and_then (validate_dest Uncompressed dest) (\<lambda>(w, h).
       let expected = unat w * unat h * BPP in
       if length data \<noteq> expected
       then Inl (SizeMismatch Uncompressed expected (length data))
       else Inr (tile_full dest (if format = Xrgb then force_opaque data else data)))"

text \<open>\<open>BitmapStreamDecoder::decode_bitmap_stream_to_rgb24\<close> is the parameter.\<close>

type_synonym rdp6_decoder = "u8 list \<Rightarrow> nat \<Rightarrow> nat \<Rightarrow> (rstr, u8 list) result"

fun rgb_to_bgra :: "u8 list \<Rightarrow> u8 list" where
  "rgb_to_bgra (r # g # b # px) = b # g # r # 0xFF # rgb_to_bgra px"
| "rgb_to_bgra px = []"

definition decode_planar :: "rdp6_decoder \<Rightarrow> Rect \<Rightarrow> u8 list \<Rightarrow> (CodecError, BgraTile) result" where
  "decode_planar rdp6 dest data =
     and_then (validate_dest Planar dest) (\<lambda>(w, h).
       case rdp6 data (unat w) (unat h) of
         Inl e \<Rightarrow> Inl (Malformed Planar e)
       | Inr rgb \<Rightarrow>
           if length rgb \<noteq> unat w * unat h * 3
           then Inl (Malformed Planar (lit ''decoded plane size does not match the rectangle''))
           else Inr (tile_full dest (rgb_to_bgra rgb)))"

text \<open>
  The parameter holds \<open>ClearCodecDecoder::new\<close> and \<open>ClearCodecDecoder::decode\<close>, which keeps its
  caches in the decoder value also when it fails.
\<close>

record 'c clear_decoder =
  clear_fresh :: 'c
  clear_decode :: "'c \<Rightarrow> u8 list \<Rightarrow> u16 \<Rightarrow> u16 \<Rightarrow> (rstr, u8 list) result \<times> 'c"

type_synonym 'c ClearCodec = "'c option"

definition ClearCodec_new :: "'c ClearCodec" where
  "ClearCodec_new = None"

definition ClearCodec_decode ::
    "'c clear_decoder \<Rightarrow> 'c ClearCodec \<Rightarrow> Rect \<Rightarrow> u8 list \<Rightarrow> (CodecError, BgraTile) result \<times> 'c ClearCodec" where
  "ClearCodec_decode cd c dest data =
     (case validate_dest ClearCodecKind dest of
        Inl e \<Rightarrow> (Inl e, c)
      | Inr (w, h) \<Rightarrow>
          let inner = (case c of None \<Rightarrow> clear_fresh cd | Some d \<Rightarrow> d);
              (res, inner') = clear_decode cd inner data w h
          in ((case res of
                 Inl e \<Rightarrow> Inl (Malformed ClearCodecKind e)
               | Inr bgra \<Rightarrow>
                   let expected = unat w * unat h * 4 in
                   if length bgra \<noteq> expected
                   then Inl (SizeMismatch ClearCodecKind expected (length bgra))
                   else Inr (tile_full dest bgra)), Some inner'))"

subsection \<open>Slices\<close>

lemma slice_Some_iff: "slice s n xs = Some ys \<longleftrightarrow> s + n \<le> length xs \<and> ys = take n (drop s xs)"
  by (auto simp: slice_def)

lemma length_copy_at [simp]: "length (copy_at d src dst) = length dst"
  by (auto simp: copy_at_def)

lemma nth_copy_at:
  assumes "d + length src \<le> length dst" and "i < length dst"
  shows "copy_at d src dst ! i = (if d \<le> i \<and> i < d + length src then src ! (i - d) else dst ! i)"
  using assms by (auto simp: copy_at_def nth_append)

text \<open>Positions in a row-major buffer: a segment inside one row meets that row only.\<close>

lemma row_segment:
  fixes y y' b c n w :: nat
  assumes "b < w" and "c + n \<le> w"
  shows "y' * w + c \<le> y * w + b \<and> y * w + b < y' * w + c + n \<longleftrightarrow> y' = y \<and> c \<le> b \<and> b < c + n"
proof
  assume a: "y' * w + c \<le> y * w + b \<and> y * w + b < y' * w + c + n"
  have "y' = y"
  proof (rule ccontr)
    assume "y' \<noteq> y"
    then consider "Suc y' \<le> y" | "Suc y \<le> y'" by linarith
    then show False
    proof cases
      case 1
      then have "Suc y' * w \<le> y * w" by (rule mult_le_mono1)
      with a assms show False by simp
    next
      case 2
      then have "Suc y * w \<le> y' * w" by (rule mult_le_mono1)
      with a assms show False by simp
    qed
  qed
  with a show "y' = y \<and> c \<le> b \<and> b < c + n" by simp
qed simp

lemma length_force_opaque [simp]: "length (force_opaque px) = length px"
  by (induction px rule: force_opaque.induct) auto

lemma length_rgb_to_bgra [simp]: "length (rgb_to_bgra px) = length px div 3 * 4"
proof (induction px rule: rgb_to_bgra.induct)
  case (1 r g b px)
  have "Suc (Suc (Suc n)) div 3 = Suc (n div 3)" for n :: nat by presburger
  with 1 show ?case by (simp del: div_Suc_eq_div_add3)
qed simp_all

lemma four_more_mod [simp]: "Suc (Suc (Suc (Suc n))) mod 4 = n mod (4::nat)"
  by presburger

lemma nth_force_opaque:
  "length px mod 4 = 0 \<Longrightarrow> i < length px \<Longrightarrow> force_opaque px ! i = (if i mod 4 = 3 then 0xFF else px ! i)"
proof (induction px arbitrary: i rule: force_opaque.induct)
  case (1 b g r a px)
  consider "i = 0" | "i = 1" | "i = 2" | "i = 3" | "4 \<le> i" by linarith
  then show ?case
  proof cases
    case 5
    then obtain j where j: "i = Suc (Suc (Suc (Suc j)))"
      by (metis One_nat_def add_2_eq_Suc le_add_diff_inverse numeral_Bit0 plus_1_eq_Suc add.assoc)
    from 1 j have "force_opaque px ! j = (if j mod 4 = 3 then 0xFF else px ! j)" by simp
    with j show ?thesis by simp
  qed simp_all
qed simp_all

subsection \<open>Blits\<close>

lemma blit_of_Some:
  assumes "blit_of t r = Some b"
  shows "blit_rect b = r" and "blit_stride b = tile_stride t" and "\<not> rect_is_empty r"
    and "contains (footprint t) r"
    and "blit_data b = drop ((unat (rect_y r) - unat (pt_y (tile_origin t))) * tile_stride t +
      (unat (rect_x r) - unat (pt_x (tile_origin t))) * BPP) (tile_data t)"
    and "(unat (rect_height r) - 1) * tile_stride t + unat (rect_width r) * BPP \<le> length (blit_data b)"
    and "(unat (rect_y r) - unat (pt_y (tile_origin t))) * tile_stride t +
      (unat (rect_x r) - unat (pt_x (tile_origin t))) * BPP \<le> length (tile_data t)"
    and "unat (pt_x (tile_origin t)) \<le> unat (rect_x r)" and "unat (pt_y (tile_origin t)) \<le> unat (rect_y r)"
  using assms
  by (auto simp: blit_of_def Let_def contains_def footprint_def Rect_new_def unat_sub word_le_nat_alt
      split: if_splits)

lemma blits_from_rects: "b \<in> set (blits t) \<longleftrightarrow> (\<exists>r \<in> set (update_rects t). blit_of t r = Some b)"
proof -
  have "set (List.map_filter f xs) = {b. \<exists>r \<in> set xs. f r = Some b}" for f :: "Rect \<Rightarrow> Blit option" and xs
    by (induction xs) (auto simp: map_filter_simps split: option.splits)
  then show ?thesis by (simp add: blits_def)
qed

text \<open>A row of a blit is always inside its data.\<close>

lemma blit_row_in_range:
  assumes "blit_of t r = Some b" and "row < unat (rect_height r)" and "n \<le> unat (rect_width r)"
  shows "row * blit_stride b + n * BPP \<le> length (blit_data b)"
proof -
  note B = blit_of_Some [OF assms(1)]
  from assms(2) have "row \<le> unat (rect_height r) - 1" by linarith
  then have "row * tile_stride t \<le> (unat (rect_height r) - 1) * tile_stride t" by (rule mult_le_mono1)
  moreover from assms(3) have "n * BPP \<le> unat (rect_width r) * BPP" by simp
  ultimately show ?thesis unfolding B(2) using B(6) by (meson add_le_mono le_trans)
qed

lemma copy_rows_spec:
  assumes "\<forall>row \<in> set rows. row * blit_stride b + n \<le> length (blit_data b)"
    and "\<forall>row \<in> set rows. unat (rect_y (blit_rect b)) + row < h"
    and "unat (rect_x (blit_rect b)) * BPP + n \<le> w"
    and "length dst = h * w"
  shows "\<exists>dst'. copy_rows w n b rows dst = Some dst' \<and> length dst' = h * w \<and>
    (\<forall>y c. y < h \<longrightarrow> c < w \<longrightarrow> dst' ! (y * w + c) =
      (if y - unat (rect_y (blit_rect b)) \<in> set rows \<and> unat (rect_y (blit_rect b)) \<le> y \<and>
          unat (rect_x (blit_rect b)) * BPP \<le> c \<and> c < unat (rect_x (blit_rect b)) * BPP + n
       then blit_data b ! ((y - unat (rect_y (blit_rect b))) * blit_stride b + (c - unat (rect_x (blit_rect b)) * BPP))
       else dst ! (y * w + c)))"
  using assms
proof (induction rows arbitrary: dst)
  case Nil
  then show ?case by simp
next
  case (Cons row rows)
  let ?ry = "unat (rect_y (blit_rect b))" and ?rx = "unat (rect_x (blit_rect b)) * BPP"
  let ?src = "take n (drop (row * blit_stride b) (blit_data b))"
  let ?d = "(?ry + row) * w + ?rx"
  let ?dst1 = "copy_at ?d ?src dst"
  have sl: "slice (row * blit_stride b) n (blit_data b) = Some ?src"
    using Cons.prems(1) by (simp add: slice_def)
  have len: "length ?src = n" using Cons.prems(1) by (auto simp: min_def)
  have "Suc (?ry + row) * w \<le> h * w"
    using Cons.prems(2) by (intro mult_le_mono1) auto
  then have fits: "?d + length ?src \<le> length dst"
    using Cons.prems(3,4) len by simp
  have one: "?dst1 ! (y * w + c) =
      (if ?ry + row = y \<and> ?rx \<le> c \<and> c < ?rx + n
       then blit_data b ! ((y - ?ry) * blit_stride b + (c - ?rx)) else dst ! (y * w + c))"
    if "y < h" "c < w" for y c
  proof -
    have "Suc y * w \<le> h * w" using that by (intro mult_le_mono1) auto
    with that Cons.prems(4) have i: "y * w + c < length dst" by simp
    have seg: "?d \<le> y * w + c \<and> y * w + c < ?d + n \<longleftrightarrow> ?ry + row = y \<and> ?rx \<le> c \<and> c < ?rx + n"
      using row_segment [OF that(2) Cons.prems(3)] by (simp add: add.assoc)
    have src: "?src ! k = blit_data b ! (row * blit_stride b + k)" if "k < n" for k
      using that Cons.prems(1) by simp
    show ?thesis
      unfolding nth_copy_at [OF fits i] len seg using src by auto
  qed
  have "\<exists>dst'. copy_rows w n b rows ?dst1 = Some dst' \<and> length dst' = h * w \<and>
    (\<forall>y c. y < h \<longrightarrow> c < w \<longrightarrow> dst' ! (y * w + c) =
      (if y - ?ry \<in> set rows \<and> ?ry \<le> y \<and> ?rx \<le> c \<and> c < ?rx + n
       then blit_data b ! ((y - ?ry) * blit_stride b + (c - ?rx)) else ?dst1 ! (y * w + c)))"
    using Cons.prems by (intro Cons.IH) auto
  then obtain dst' where d: "copy_rows w n b rows ?dst1 = Some dst'" "length dst' = h * w"
    and v: "\<And>y c. y < h \<Longrightarrow> c < w \<Longrightarrow> dst' ! (y * w + c) =
      (if y - ?ry \<in> set rows \<and> ?ry \<le> y \<and> ?rx \<le> c \<and> c < ?rx + n
       then blit_data b ! ((y - ?ry) * blit_stride b + (c - ?rx)) else ?dst1 ! (y * w + c))"
    by blast
  show ?case
  proof (intro exI [of _ dst'] conjI allI impI)
    show "copy_rows w n b (row # rows) dst = Some dst'" using sl d(1) by (simp add: Let_def)
    show "length dst' = h * w" by (rule d(2))
    fix y c assume "y < h" "c < w"
    then show "dst' ! (y * w + c) =
      (if y - ?ry \<in> set (row # rows) \<and> ?ry \<le> y \<and> ?rx \<le> c \<and> c < ?rx + n
       then blit_data b ! ((y - ?ry) * blit_stride b + (c - ?rx)) else dst ! (y * w + c))"
      using v one by auto
  qed
qed

subsection \<open>Drawing a tile\<close>

text \<open>The byte of the tile at row \<open>y\<close> and byte column \<open>c\<close> of the surface.\<close>

definition tile_byte :: "BgraTile \<Rightarrow> nat \<Rightarrow> nat \<Rightarrow> u8" where
  "tile_byte t y c =
     tile_data t ! ((y - unat (pt_y (tile_origin t))) * tile_stride t + (c - unat (pt_x (tile_origin t)) * BPP))"

lemma visible_column:
  assumes "c < unat W * BPP"
  shows "unat (rect_x r) * BPP \<le> c \<and> c < unat (rect_x r) * BPP + (unat (min (right r) W) - unat (rect_x r)) * BPP
    \<longleftrightarrow> unat (rect_x r) \<le> c div BPP \<and> c div BPP < unat (rect_x r) + unat (rect_width r)"
proof -
  have W: "unat W < 2 ^ 32" using unsigned_less [of W, where 'a = nat] by simp
  have m: "unat (min (right r) W) = min (min (unat (rect_x r) + unat (rect_width r)) (2 ^ 32 - 1)) (unat W)"
    by (simp add: min_def word_le_nat_alt unat_right)
  show ?thesis unfolding m using assms W by (simp add: BPP_def) linarith
qed

lemma visible_row:
  assumes "y < unat H"
  shows "unat (rect_y r) \<le> y \<and> y - unat (rect_y r) < unat (min (bottom r) H) - unat (rect_y r)
    \<longleftrightarrow> unat (rect_y r) \<le> y \<and> y < unat (rect_y r) + unat (rect_height r)"
proof -
  have H: "unat H < 2 ^ 32" using unsigned_less [of H, where 'a = nat] by simp
  have m: "unat (min (bottom r) H) = min (min (unat (rect_y r) + unat (rect_height r)) (2 ^ 32 - 1)) (unat H)"
    by (simp add: min_def word_le_nat_alt unat_bottom)
  show ?thesis unfolding m using assms H by linarith
qed

lemma blit_byte:
  assumes "blit_of t r = Some b" and "unat (rect_y r) \<le> y" and "unat (rect_x r) * BPP \<le> c"
  shows "blit_data b ! ((y - unat (rect_y r)) * blit_stride b + (c - unat (rect_x r) * BPP)) = tile_byte t y c"
proof -
  note B = blit_of_Some [OF assms(1)]
  let ?oy = "unat (pt_y (tile_origin t))" and ?ox = "unat (pt_x (tile_origin t))" and ?s = "tile_stride t"
  have "(unat (rect_y r) - ?oy) * ?s + (y - unat (rect_y r)) * ?s = (y - ?oy) * ?s"
    using B(9) assms(2) by (simp flip: add_mult_distrib)
  moreover have "(unat (rect_x r) - ?ox) * BPP + (c - unat (rect_x r) * BPP) = c - ?ox * BPP"
    using B(8) assms(3) by (simp add: BPP_def)
  ultimately have "(unat (rect_y r) - ?oy) * ?s + (unat (rect_x r) - ?ox) * BPP +
      ((y - unat (rect_y r)) * ?s + (c - unat (rect_x r) * BPP)) = (y - ?oy) * ?s + (c - ?ox * BPP)"
    by linarith
  then show ?thesis
    unfolding tile_byte_def B(2,5) nth_drop [OF B(7)] by (rule arg_cong)
qed

lemma blit_one_spec:
  assumes "blit_of t r = Some b" and "length dst = unat (height surface) * (unat (width surface) * BPP)"
  shows "\<exists>dst'. blit_one surface b dst = Some dst' \<and> length dst' = length dst \<and>
    (\<forall>y c. y < unat (height surface) \<longrightarrow> c < unat (width surface) * BPP \<longrightarrow>
      dst' ! (y * (unat (width surface) * BPP) + c) =
        (if covers r (c div BPP) y then tile_byte t y c
         else dst ! (y * (unat (width surface) * BPP) + c)))"
proof -
  note B = blit_of_Some [OF assms(1)]
  let ?W = "width surface" and ?H = "height surface"
  let ?rgt = "min (right r) ?W" and ?btm = "min (bottom r) ?H"
  let ?n = "(unat ?rgt - unat (rect_x r)) * BPP"
  show ?thesis
  proof (cases "?rgt \<le> rect_x r \<or> ?btm \<le> rect_y r")
    case True
    have "\<not> covers r (c div BPP) y" if "y < unat ?H" "c < unat ?W * BPP" for y c
    proof
      assume "covers r (c div BPP) y"
      then have "unat (rect_x r) * BPP \<le> c" "c < unat (rect_x r) * BPP + ?n"
          "y - unat (rect_y r) < unat ?btm - unat (rect_y r)"
        using visible_column [OF that(2), of r] visible_row [OF that(1), of r]
        unfolding covers_def by blast+
      then have "0 < ?n" "0 < unat ?btm - unat (rect_y r)" by linarith+
      with True show False by (auto simp: word_le_nat_alt)
    qed
    with True B(1) show ?thesis by (auto simp: blit_one_def Let_def)
  next
    case False
    then have le: "rect_x r \<le> ?rgt" "rect_y r \<le> ?btm" by (meson linear)+
    let ?rows = "[0..<unat ?btm - unat (rect_y r)]"
    have eq: "blit_one surface b dst = copy_rows (unat ?W * BPP) ?n b ?rows dst"
      using unat_sub [OF le(1)] unat_sub [OF le(2)]
      unfolding blit_one_def Let_def B(1) if_not_P [OF False] by (simp only:)
    have w: "unat ?rgt - unat (rect_x r) \<le> unat (rect_width r)"
      and h: "unat ?btm - unat (rect_y r) \<le> unat (rect_height r)"
      by (auto simp: min_def word_le_nat_alt unat_right unat_bottom)
    have bounds: "unat ?rgt \<le> unat ?W" "unat ?btm \<le> unat ?H"
      by (simp_all add: min_def word_le_nat_alt)
    have "unat (rect_x r) * BPP + ?n \<le> unat ?W * BPP"
      using bounds(1) le(1) by (simp add: BPP_def word_le_nat_alt)
    moreover have "\<forall>row \<in> set ?rows. unat (rect_y r) + row < unat ?H"
      using bounds(2) by auto
    moreover have "\<forall>row \<in> set ?rows. row * blit_stride b + ?n \<le> length (blit_data b)"
      using blit_row_in_range [OF assms(1) _ w] h by auto
    ultimately obtain dst' where d: "copy_rows (unat ?W * BPP) ?n b ?rows dst = Some dst'"
        "length dst' = unat ?H * (unat ?W * BPP)"
      and v: "\<forall>y c. y < unat ?H \<longrightarrow> c < unat ?W * BPP \<longrightarrow> dst' ! (y * (unat ?W * BPP) + c) =
        (if y - unat (rect_y r) \<in> set ?rows \<and> unat (rect_y r) \<le> y \<and>
            unat (rect_x r) * BPP \<le> c \<and> c < unat (rect_x r) * BPP + ?n
         then blit_data b ! ((y - unat (rect_y r)) * blit_stride b + (c - unat (rect_x r) * BPP))
         else dst ! (y * (unat ?W * BPP) + c))"
      using copy_rows_spec [of ?rows b ?n "unat ?H" "unat ?W * BPP" dst] assms(2) B(1) by auto
    have "dst' ! (y * (unat ?W * BPP) + c) =
        (if covers r (c div BPP) y then tile_byte t y c else dst ! (y * (unat ?W * BPP) + c))"
      if y: "y < unat ?H" and c: "c < unat ?W * BPP" for y c
    proof -
      have cond: "(y - unat (rect_y r) \<in> set ?rows \<and> unat (rect_y r) \<le> y \<and>
          unat (rect_x r) * BPP \<le> c \<and> c < unat (rect_x r) * BPP + ?n) = covers r (c div BPP) y"
        unfolding covers_def set_upt atLeastLessThan_iff
        using visible_column [OF c, of r] visible_row [OF y, of r] by blast
      have "unat (rect_y r) \<le> y \<and> unat (rect_x r) * BPP \<le> c" if "covers r (c div BPP) y"
        using that cond by blast
      then show ?thesis
        unfolding v [rule_format, OF y c, unfolded cond] using blit_byte [OF assms(1)] by simp
    qed
    with eq d assms(2) show ?thesis by auto
  qed
qed

text \<open>Drawing several blits of one tile: each covered byte is the tile's, the others are kept.\<close>

lemma blit_all_spec:
  assumes "\<forall>b \<in> set bs. blit_of t (blit_rect b) = Some b"
    and "length dst = unat (height surface) * (unat (width surface) * BPP)"
  shows "\<exists>dst'. blit_all surface bs dst = Some dst' \<and> length dst' = length dst \<and>
    (\<forall>y c. y < unat (height surface) \<longrightarrow> c < unat (width surface) * BPP \<longrightarrow>
      dst' ! (y * (unat (width surface) * BPP) + c) =
        (if \<exists>b \<in> set bs. covers (blit_rect b) (c div BPP) y then tile_byte t y c
         else dst ! (y * (unat (width surface) * BPP) + c)))"
  using assms
proof (induction bs arbitrary: dst)
  case (Cons b bs)
  from Cons.prems blit_one_spec [of t "blit_rect b" b dst surface] obtain d1 where
    1: "blit_one surface b dst = Some d1" "length d1 = length dst"
      "\<forall>y c. y < unat (height surface) \<longrightarrow> c < unat (width surface) * BPP \<longrightarrow>
        d1 ! (y * (unat (width surface) * BPP) + c) =
          (if covers (blit_rect b) (c div BPP) y then tile_byte t y c
           else dst ! (y * (unat (width surface) * BPP) + c))" by auto
  from Cons.IH [of d1] Cons.prems 1(2) obtain d2 where
    2: "blit_all surface bs d1 = Some d2" "length d2 = length d1"
      "\<forall>y c. y < unat (height surface) \<longrightarrow> c < unat (width surface) * BPP \<longrightarrow>
        d2 ! (y * (unat (width surface) * BPP) + c) =
          (if \<exists>b \<in> set bs. covers (blit_rect b) (c div BPP) y then tile_byte t y c
           else d1 ! (y * (unat (width surface) * BPP) + c))" by auto
  from 1 2 show ?case by (intro exI [of _ d2]) auto
qed simp

lemma blit_into_spec:
  assumes "length dst = unat (height surface) * (unat (width surface) * BPP)"
  shows "\<exists>dst'. blit_into t surface dst = Some dst' \<and> length dst' = length dst \<and>
    (\<forall>y c. y < unat (height surface) \<longrightarrow> c < unat (width surface) * BPP \<longrightarrow>
      dst' ! (y * (unat (width surface) * BPP) + c) =
        (if \<exists>r \<in> set (update_rects t). blit_of t r \<noteq> None \<and> covers r (c div BPP) y then tile_byte t y c
         else dst ! (y * (unat (width surface) * BPP) + c)))"
proof -
  have ex: "(\<exists>b \<in> set (blits t). P (blit_rect b)) \<longleftrightarrow> (\<exists>r \<in> set (update_rects t). blit_of t r \<noteq> None \<and> P r)"
    for P using blits_from_rects [of _ t] blit_of_Some(1) [of t] by fastforce
  have "\<forall>b \<in> set (blits t). blit_of t (blit_rect b) = Some b"
    using blits_from_rects blit_of_Some(1) by fastforce
  from blit_all_spec [OF this assms] show ?thesis
    by (simp add: blit_into_def ex [of "\<lambda>r. covers r _ _"])
qed

subsection \<open>Decoder results\<close>

text \<open>What a decoder hands on: a buffer of the rectangle's size, drawn at the rectangle in full.\<close>

definition covers_dest :: "BgraTile \<Rightarrow> Rect \<Rightarrow> bool" where
  "covers_dest t dest \<longleftrightarrow>
     update_rects t = [dest] \<and> footprint t = dest \<and> \<not> rect_is_empty dest \<and>
     unat (rect_width dest) < 2 ^ 16 \<and> unat (rect_height dest) < 2 ^ 16 \<and>
     unat (rect_width dest) * unat (rect_height dest) \<le> MAX_DEST_PIXELS \<and>
     length (tile_data t) = unat (rect_width dest) * unat (rect_height dest) * BPP"

lemma u16_try_from_Some: "u16_try_from x = Some w \<longleftrightarrow> unat w = unat x"
  using unsigned_less [of w, where 'a = nat]
  by (auto simp: u16_try_from_def word_unat_eq_iff unsigned_ucast_eq take_bit_nat_eq_self)

lemma validate_dest_Inr:
  "validate_dest k r = Inr (w, h) \<longleftrightarrow>
     unat w = unat (rect_width r) \<and> unat h = unat (rect_height r) \<and> \<not> rect_is_empty r \<and>
     unat (rect_width r) * unat (rect_height r) \<le> MAX_DEST_PIXELS"
proof -
  have z: "unat w' = unat x \<Longrightarrow> w' = 0 \<longleftrightarrow> x = 0" for w' :: u16 and x :: u32
    by (metis unat_0 word_unat_eq_iff)
  have "validate_dest k r = Inr (w, h) \<longleftrightarrow>
      unat w = unat (rect_width r) \<and> unat h = unat (rect_height r) \<and>
      \<not> (w = 0 \<or> h = 0 \<or> unat w * unat h > MAX_DEST_PIXELS)"
    by (auto simp: validate_dest_def and_then_Inr_iff u16_try_from_Some split: if_splits)
  then show ?thesis using z [of w "rect_width r"] z [of h "rect_height r"]
    by (auto simp: rect_is_empty_def not_less)
qed

lemma validate_dest_Inl: "validate_dest k r = Inl e \<Longrightarrow> e = InvalidRect k r"
  by (auto simp: validate_dest_def and_then_Inl_iff split: if_splits)

lemma tile_full_covers:
  assumes "validate_dest k dest = Inr (w, h)" and "length data = unat w * unat h * 4"
  shows "covers_dest (tile_full dest data) dest"
  using assms unsigned_less [of w, where 'a = nat] unsigned_less [of h, where 'a = nat]
  by (auto simp: validate_dest_Inr covers_dest_def tile_full_def footprint_def Rect_new_def Point_new_def BPP_def)

lemma decode_uncompressed_Inr:
  "decode_uncompressed dest f data = Inr t \<Longrightarrow> covers_dest t dest"
  by (auto simp: decode_uncompressed_def and_then_Inr_iff Let_def BPP_def intro!: tile_full_covers
      split: if_splits)

lemma decode_planar_Inr: "decode_planar rdp6 dest data = Inr t \<Longrightarrow> covers_dest t dest"
proof -
  assume "decode_planar rdp6 dest data = Inr t"
  then obtain w h where v: "validate_dest Planar dest = Inr (w, h)"
    and d: "(case rdp6 data (unat w) (unat h) of
         Inl e \<Rightarrow> Inl (Malformed Planar e)
       | Inr rgb \<Rightarrow>
           if length rgb \<noteq> unat w * unat h * 3
           then Inl (Malformed Planar (lit ''decoded plane size does not match the rectangle''))
           else Inr (tile_full dest (rgb_to_bgra rgb))) = Inr t"
    by (auto simp: decode_planar_def and_then_Inr_iff)
  then obtain rgb where "length rgb = unat w * unat h * 3" "t = tile_full dest (rgb_to_bgra rgb)"
    by (auto split: sum.splits if_splits)
  with v show ?thesis by (auto intro: tile_full_covers)
qed

lemma ClearCodec_decode_Inr: "ClearCodec_decode cd c dest data = (Inr t, c') \<Longrightarrow> covers_dest t dest"
  by (auto simp: ClearCodec_decode_def Let_def intro!: tile_full_covers split: if_splits sum.splits prod.splits)

text \<open>A decoder's tile is drawn by one blit whose data is the whole buffer.\<close>

lemma covers_dest_blits:
  assumes "covers_dest t dest"
  shows "blits t = [\<lparr>blit_rect = dest, blit_stride = unat (rect_width dest) * BPP, blit_data = tile_data t\<rparr>]"
proof -
  from assms have f: "footprint t = dest" and ne: "\<not> rect_is_empty dest"
    and len: "length (tile_data t) = unat (rect_width dest) * unat (rect_height dest) * BPP"
    by (auto simp: covers_dest_def)
  from f have o: "pt_x (tile_origin t) = rect_x dest" "pt_y (tile_origin t) = rect_y dest"
    "width (tile_size t) = rect_width dest"
    by (auto simp: footprint_def Rect_new_def)
  have "contains dest dest" by (simp add: contains_def)
  have pos: "0 < unat (rect_height dest)" using ne by (auto simp: rect_is_empty_def unat_gt_0)
  have "(unat (rect_height dest) - 1) * (unat (rect_width dest) * BPP) + unat (rect_width dest) * BPP
      = unat (rect_height dest) * (unat (rect_width dest) * BPP)"
    using pos by (metis Suc_diff_1 mult_Suc add.commute)
  then have "blit_of t dest = Some \<lparr>blit_rect = dest, blit_stride = unat (rect_width dest) * BPP, blit_data = tile_data t\<rparr>"
    using f o ne \<open>contains dest dest\<close> len by (simp add: blit_of_def Let_def tile_stride_def ac_simps)
  then show ?thesis using assms by (simp add: blits_def covers_dest_def map_filter_simps)
qed

text \<open>Every offset of a decoder's tile stays within its buffer, which is below \<open>2 ^ 27\<close> bytes.\<close>

lemma tile_offsets:
  assumes "covers_dest t dest"
  shows "length (tile_data t) \<le> 2 ^ 27"
proof -
  have "unat (rect_width dest) * unat (rect_height dest) * BPP \<le> 2 ^ 25 * 4"
    using assms unfolding covers_dest_def MAX_DEST_PIXELS_def BPP_def by (meson mult_le_mono1)
  with assms show ?thesis by (simp add: covers_dest_def)
qed

end
