(* ===== verification/Gfx_State.thy ===== *)
theory Gfx_State
  imports Codec_Tile
begin

text \<open>
  \<open>crates/drift-gfx/src/state.rs\<close> and \<open>error.rs\<close>: the client's book-keeping of surfaces and cache
  slots and the checks on every rectangle the server sends. Both tables are ordered maps;
  \<open>gfx_wf\<close> is the invariant of the book-keeping: surfaces are non-empty and slot numbers lie in the
  advertised range. The types of \<open>ironrdp\<close> the checks read are copied with the fields read.
\<close>

subsection \<open>Wire types\<close>

datatype PixelFormat = XRgb | ARgb

record ExclusiveRectangle =
  ex_left :: u16
  ex_top :: u16
  ex_right :: u16
  ex_bottom :: u16

record GfxPoint =
  gp_x :: u16
  gp_y :: u16

subsection \<open>Errors\<close>

datatype GfxError =
    Zgfx rstr
  | Decode rstr
  | UnsupportedCodec rstr
  | UnexpectedPdu rstr
  | UnknownSurface u16
  | InvalidSurface u16 rstr
  | OutOfBounds u16 rstr
  | InvalidCacheSlot u16
  | Codec CodecError
  | H264 rstr

text \<open>The derived \<open>Debug\<close> text of rectangles, used in error details.\<close>

definition rect_debug :: "Rect \<Rightarrow> rstr" where
  "rect_debug r =
     lit ''Rect { x: '' @ dec_digits (unat (rect_x r)) @ lit '', y: '' @ dec_digits (unat (rect_y r)) @
     lit '', width: '' @ dec_digits (unat (rect_width r)) @ lit '', height: '' @
     dec_digits (unat (rect_height r)) @ lit '' }''"

definition exclusive_debug :: "ExclusiveRectangle \<Rightarrow> rstr" where
  "exclusive_debug r =
     lit ''ExclusiveRectangle { left: '' @ dec_digits (unat (ex_left r)) @ lit '', top: '' @
     dec_digits (unat (ex_top r)) @ lit '', right: '' @ dec_digits (unat (ex_right r)) @
     lit '', bottom: '' @ dec_digits (unat (ex_bottom r)) @ lit '' }''"

subsection \<open>The tables\<close>

definition MAX_CACHE_SLOTS :: u16 where "MAX_CACHE_SLOTS = 25600"

record Surface =
  surf_size :: "u32 Size"
  surf_format :: PixelFormat

record GfxState =
  surfaces :: "(u16, Surface) ordmap"
  cache :: "(u16, u32 Size) ordmap"

definition GfxState_default :: GfxState where
  "GfxState_default = \<lparr>surfaces = [], cache = []\<rparr>"

definition gfx_reset :: "GfxState \<Rightarrow> u16 list \<times> GfxState" where
  "gfx_reset s = (om_keys (surfaces s), s\<lparr>cache := [], surfaces := []\<rparr>)"

definition gfx_create :: "GfxState \<Rightarrow> u16 \<Rightarrow> u32 Size \<Rightarrow> PixelFormat \<Rightarrow> (GfxError, GfxState) result" where
  "gfx_create s sid sz format =
     (if width sz = 0 \<or> height sz = 0 then Inl (InvalidSurface sid (lit ''empty surface''))
      else if om_contains (surfaces s) sid
      then Inl (InvalidSurface sid (lit ''surface id already exists''))
      else Inr (s\<lparr>surfaces := om_insert sid \<lparr>surf_size = sz, surf_format = format\<rparr> (surfaces s)\<rparr>))"

definition gfx_delete :: "GfxState \<Rightarrow> u16 \<Rightarrow> bool \<times> GfxState" where
  "gfx_delete s sid = (om_contains (surfaces s) sid, s\<lparr>surfaces := om_remove sid (surfaces s)\<rparr>)"

definition gfx_surface :: "GfxState \<Rightarrow> u16 \<Rightarrow> (GfxError, Surface) result" where
  "gfx_surface s sid = ok_or (map_of (surfaces s) sid) (UnknownSurface sid)"

definition check_slot :: "u16 \<Rightarrow> (GfxError, unit) result" where
  "check_slot slot = (if slot = 0 \<or> slot > MAX_CACHE_SLOTS then Inl (InvalidCacheSlot slot) else Inr ())"

definition cache_store :: "GfxState \<Rightarrow> u16 \<Rightarrow> u32 Size \<Rightarrow> (GfxError, GfxState) result" where
  "cache_store s slot sz =
     and_then (check_slot slot) (\<lambda>_. Inr (s\<lparr>cache := om_insert slot sz (cache s)\<rparr>))"

definition cache_entry :: "GfxState \<Rightarrow> u16 \<Rightarrow> (GfxError, u32 Size) result" where
  "cache_entry s slot = ok_or (map_of (cache s) slot) (InvalidCacheSlot slot)"

definition cache_evict :: "GfxState \<Rightarrow> u16 \<Rightarrow> (GfxError, bool \<times> GfxState) result" where
  "cache_evict s slot =
     and_then (check_slot slot) (\<lambda>_.
       Inr (om_contains (cache s) slot, s\<lparr>cache := om_remove slot (cache s)\<rparr>))"

subsection \<open>Rectangles\<close>

definition gfx_rect :: "ExclusiveRectangle \<Rightarrow> (GfxError, Rect) result" where
  "gfx_rect r =
     ok_or (from_ltrb (ucast (ex_left r)) (ucast (ex_top r)) (ucast (ex_right r)) (ucast (ex_bottom r)))
       (Decode (lit ''inverted rectangle '' @ exclusive_debug r))"

definition gfx_point :: "GfxPoint \<Rightarrow> u32 Point" where
  "gfx_point p = Point_new (ucast (gp_x p)) (ucast (gp_y p))"

definition ensure_within :: "u16 \<Rightarrow> u32 Size \<Rightarrow> Rect \<Rightarrow> rstr \<Rightarrow> (GfxError, unit) result" where
  "ensure_within sid bounds r what =
     (if fits_within r bounds then Inr ()
      else Inl (OutOfBounds sid (what @ lit '' '' @ rect_debug r @ lit '' exceeds '' @
        dec_digits (unat (width bounds)) @ lit ''x'' @ dec_digits (unat (height bounds)))))"

definition clip :: "Rect \<Rightarrow> u32 Size \<Rightarrow> Rect option" where
  "clip r bounds =
     (let rgt = min (right r) (width bounds);
          btm = min (bottom r) (height bounds)
      in case from_ltrb (rect_x r) (rect_y r) rgt btm of
           None \<Rightarrow> None
         | Some clipped \<Rightarrow> if rect_is_empty clipped then None else Some clipped)"

subsection \<open>The book-keeping invariant\<close>

definition surface_ok :: "u32 Size \<Rightarrow> bool" where
  "surface_ok b = (0 < unat (width b) \<and> unat (width b) < 2 ^ 16 \<and> 0 < unat (height b) \<and> unat (height b) < 2 ^ 16)"

definition slot_ok :: "u16 \<Rightarrow> bool" where
  "slot_ok slot = (0 < slot \<and> slot \<le> MAX_CACHE_SLOTS)"

definition gfx_wf :: "GfxState \<Rightarrow> bool" where
  "gfx_wf s = (om_wf (surfaces s) \<and> om_wf (cache s) \<and>
     (\<forall>(sid, f) \<in> set (surfaces s). surface_ok (surf_size f)) \<and>
     (\<forall>(slot, sz) \<in> set (cache s). slot_ok slot))"

lemma gfx_wf_default [simp]: "gfx_wf GfxState_default"
  by (simp add: gfx_wf_def GfxState_default_def)

lemma gfx_wf_reset: "gfx_reset s = (ids, s') \<Longrightarrow> gfx_wf s'"
  by (auto simp: gfx_reset_def gfx_wf_def)

lemma set_om_insert: "set (om_insert k v m) \<subseteq> insert (k, v) (set m)"
  by (induction k v m rule: om_insert.induct) auto

lemma set_om_remove: "set (om_remove k m) \<subseteq> set m"
  by (auto simp: om_remove_def)

lemma gfx_create_Inr:
  "gfx_create s sid sz fmt = Inr s' \<longleftrightarrow>
     width sz \<noteq> 0 \<and> height sz \<noteq> 0 \<and> map_of (surfaces s) sid = None \<and>
     s' = s\<lparr>surfaces := om_insert sid \<lparr>surf_size = sz, surf_format = fmt\<rparr> (surfaces s)\<rparr>"
  by (auto simp: gfx_create_def om_contains_def)

lemma gfx_wf_create:
  assumes "gfx_create s sid sz fmt = Inr s'" and "gfx_wf s"
    and "unat (width sz) < 2 ^ 16" and "unat (height sz) < 2 ^ 16"
  shows "gfx_wf s'"
proof -
  have "surface_ok sz"
    using assms by (auto simp: gfx_create_Inr surface_ok_def unat_gt_0)
  with assms(1,2) set_om_insert [of sid _ "surfaces s"] show ?thesis
    by (fastforce simp: gfx_create_Inr gfx_wf_def)
qed

lemma gfx_wf_delete: "gfx_delete s sid = (d, s') \<Longrightarrow> gfx_wf s \<Longrightarrow> gfx_wf s'"
  using set_om_remove [of sid "surfaces s"] by (auto simp: gfx_delete_def gfx_wf_def)

lemma check_slot_Inr: "check_slot slot = Inr u \<longleftrightarrow> slot_ok slot"
  by (auto simp: check_slot_def slot_ok_def not_less word_neq_0_conv)

lemma cache_store_Inr:
  "cache_store s slot sz = Inr s' \<longleftrightarrow> slot_ok slot \<and> s' = s\<lparr>cache := om_insert slot sz (cache s)\<rparr>"
  by (auto simp: cache_store_def and_then_Inr_iff check_slot_Inr)

lemma gfx_wf_store: "cache_store s slot sz = Inr s' \<Longrightarrow> gfx_wf s \<Longrightarrow> gfx_wf s'"
  using set_om_insert [of slot sz "cache s"] by (fastforce simp: cache_store_Inr gfx_wf_def)

lemma cache_evict_Inr:
  "cache_evict s slot = Inr (d, s') \<longleftrightarrow>
     slot_ok slot \<and> d = (map_of (cache s) slot \<noteq> None) \<and> s' = s\<lparr>cache := om_remove slot (cache s)\<rparr>"
  by (auto simp: cache_evict_def and_then_Inr_iff check_slot_Inr om_contains_def)

lemma gfx_wf_evict: "cache_evict s slot = Inr (d, s') \<Longrightarrow> gfx_wf s \<Longrightarrow> gfx_wf s'"
  using set_om_remove [of slot "cache s"] by (auto simp: cache_evict_Inr gfx_wf_def)

lemma gfx_surface_Inr: "gfx_surface s sid = Inr f \<longleftrightarrow> map_of (surfaces s) sid = Some f"
  by (simp add: gfx_surface_def)

lemma gfx_wf_surface: "gfx_wf s \<Longrightarrow> map_of (surfaces s) sid = Some f \<Longrightarrow> surface_ok (surf_size f)"
  by (auto simp: gfx_wf_def dest!: map_of_SomeD)

lemma cache_entry_Inr: "cache_entry s slot = Inr z \<longleftrightarrow> map_of (cache s) slot = Some z"
  by (simp add: cache_entry_def)

lemma ensure_within_Inr: "ensure_within sid b r what = Inr u \<longleftrightarrow> fits_within r b"
  by (simp add: ensure_within_def)

subsection \<open>Clipping\<close>

text \<open>Clipping keeps exactly the pixels of the rectangle that lie on the surface.\<close>

lemma clip_Some:
  assumes "clip r b = Some q"
  shows "fits_within q b" and "\<not> rect_is_empty q"
proof -
  from assms have f: "from_ltrb (rect_x r) (rect_y r) (min (right r) (width b)) (min (bottom r) (height b)) = Some q"
    and "\<not> rect_is_empty q"
    by (auto simp: clip_def Let_def split: option.splits if_splits)
  with from_ltrb_edges [OF f] show "fits_within q b" "\<not> rect_is_empty q"
    by (auto simp: fits_within_def)
qed

lemma min_unat: "unat (min a b) = min (unat a) (unat b)" for a b :: "'a::len word"
  by (simp add: min_def word_le_nat_alt)

lemma clip_pixels:
  assumes "clip r b = Some q"
  shows "covers q px py \<longleftrightarrow> covers r px py \<and> in_bounds b px py"
proof -
  have b: "unat (width b) < 2 ^ 32" "unat (height b) < 2 ^ 32"
    using unsigned_less [of "width b", where 'a = nat] unsigned_less [of "height b", where 'a = nat] by simp_all
  from assms have f: "from_ltrb (rect_x r) (rect_y r) (min (right r) (width b)) (min (bottom r) (height b)) = Some q"
    by (auto simp: clip_def Let_def split: option.splits if_splits)
  then have q: "rect_x r \<le> min (right r) (width b)" "rect_y r \<le> min (bottom r) (height b)"
      "q = \<lparr>rect_x = rect_x r, rect_y = rect_y r, rect_width = min (right r) (width b) - rect_x r,
        rect_height = min (bottom r) (height b) - rect_y r\<rparr>"
    by (simp_all only: from_ltrb_Some_iff simp_thms)
  have "unat (rect_x r) + unat (rect_width q) = min (unat (right r)) (unat (width b))"
    "unat (rect_y r) + unat (rect_height q) = min (unat (bottom r)) (unat (height b))"
    using unat_sub [OF q(1)] unat_sub [OF q(2)] q
    by (auto simp: word_le_nat_alt min_unat)
  with q(3) b show ?thesis
    by (auto simp: covers_def in_bounds_def unat_right unat_bottom)
qed

lemma clip_None_pixels:
  assumes "clip r b = None"
  shows "\<not> (covers r px py \<and> in_bounds b px py)"
proof
  assume c: "covers r px py \<and> in_bounds b px py"
  have b: "unat (width b) < 2 ^ 32" "unat (height b) < 2 ^ 32"
    using unsigned_less [of "width b", where 'a = nat] unsigned_less [of "height b", where 'a = nat] by simp_all
  from c b have lt: "unat (rect_x r) < unat (min (right r) (width b))"
      "unat (rect_y r) < unat (min (bottom r) (height b))"
    by (auto simp: covers_def in_bounds_def unat_right unat_bottom min_unat)
  then obtain q where q: "from_ltrb (rect_x r) (rect_y r) (min (right r) (width b)) (min (bottom r) (height b)) = Some q"
    by (metis from_ltrb_None_iff not_Some_eq not_less_iff_gr_or_eq word_less_nat_alt)
  with assms have "rect_is_empty q" by (auto simp: clip_def Let_def split: if_splits)
  moreover have "rect_width q = min (right r) (width b) - rect_x r" "rect_height q = min (bottom r) (height b) - rect_y r"
    using q by (simp_all add: from_ltrb_Some_iff)
  ultimately show False using lt by (auto simp: rect_is_empty_def)
qed

end
