(* ===== verification/Gfx_Ack.thy ===== *)
theory Gfx_Ack
  imports Drift_Prelude "HOL-Library.Sublist"
begin

text \<open>
  \<open>crates/drift-gfx/src/ack.rs\<close>: the frame acknowledgement policy. \<open>AckState\<close> is the state
  behind the mutex; \<open>frame_ended\<close>, \<open>presented\<close>, \<open>set_hidden\<close> and \<open>drain\<close> are its critical
  sections. A callback is the frame id it was built for. \<open>ack_run\<close> interleaves the critical
  sections of the session thread and of the presenting thread in any order; \<open>pending\<close> holds the
  callbacks handed to the sink and not yet run.
\<close>

subsection \<open>State and critical sections\<close>

datatype QueueDepth = Unavailable | AvailableBytes u32 | Suspend

record FrameAcknowledgePdu =
  queue_depth :: QueueDepth
  ack_frame_id :: u32
  total_frames_decoded :: u32

record AckState =
  outbox :: "FrameAcknowledgePdu list"
  in_flight :: u32
  total_decoded :: u32
  hidden :: bool
  suspend_sent :: bool

definition AckState_default :: AckState where
  "AckState_default =
     \<lparr>outbox = [], in_flight = 0, total_decoded = 0, hidden = False, suspend_sent = False\<rparr>"

definition drain :: "AckState \<Rightarrow> FrameAcknowledgePdu list \<times> AckState" where
  "drain s = (outbox s, s\<lparr>outbox := []\<rparr>)"

text \<open>Returns the callback, which is \<open>presented\<close> at this frame id.\<close>

definition frame_ended :: "AckState \<Rightarrow> u32 \<Rightarrow> u32 \<times> AckState" where
  "frame_ended s frame_id =
     (frame_id, s\<lparr>in_flight := saturating_add (in_flight s) 1, total_decoded := total_decoded s + 1\<rparr>)"

definition set_hidden :: "AckState \<Rightarrow> bool \<Rightarrow> AckState" where
  "set_hidden s h =
     (let s = (if hidden s \<noteq> h then s\<lparr>suspend_sent := False\<rparr> else s) in s\<lparr>hidden := h\<rparr>)"

text \<open>The flag says whether the notifier is run.\<close>

definition presented :: "AckState \<Rightarrow> u32 \<Rightarrow> bool \<times> AckState" where
  "presented s frame_id =
     (let s = s\<lparr>in_flight := saturating_sub (in_flight s) 1\<rparr>;
          push = (\<lambda>depth s. (True, s\<lparr>outbox := outbox s @
            [\<lparr>queue_depth = depth, ack_frame_id = frame_id, total_frames_decoded = total_decoded s\<rparr>]\<rparr>))
      in if \<not> hidden s then push (if in_flight s = 0 then Unavailable else AvailableBytes (in_flight s)) s
         else if \<not> suspend_sent s then push Suspend (s\<lparr>suspend_sent := True\<rparr>)
         else (False, s))"

subsection \<open>Interleavings\<close>

datatype AckEvent = EndFrame u32 | Present nat | SetHidden bool | Drain

record AckSys =
  acks :: AckState
  pending :: "u32 list"
  shown :: "u32 list"
  sent :: "FrameAcknowledgePdu list"

definition AckSys_init :: AckSys where
  "AckSys_init = \<lparr>acks = AckState_default, pending = [], shown = [], sent = []\<rparr>"

fun remove_at :: "nat \<Rightarrow> 'a list \<Rightarrow> 'a list" where
  "remove_at i xs = take i xs @ drop (Suc i) xs"

text \<open>\<open>Present i\<close> runs the callback at position \<open>i\<close>: the renderer may present out of order.\<close>

fun ack_step :: "AckSys \<Rightarrow> AckEvent \<Rightarrow> AckSys option" where
  "ack_step y (EndFrame f) =
     (let (cb, s) = frame_ended (acks y) f in Some (y\<lparr>acks := s, pending := pending y @ [cb]\<rparr>))"
| "ack_step y (Present i) =
     (if i < length (pending y)
      then let cb = pending y ! i in
        Some (y\<lparr>acks := snd (presented (acks y) cb), pending := remove_at i (pending y),
                shown := shown y @ [cb]\<rparr>)
      else None)"
| "ack_step y (SetHidden h) = Some (y\<lparr>acks := set_hidden (acks y) h\<rparr>)"
| "ack_step y Drain = (let (ps, s) = drain (acks y) in Some (y\<lparr>acks := s, sent := sent y @ ps\<rparr>))"

fun ack_run :: "AckSys \<Rightarrow> AckEvent list \<Rightarrow> AckSys option" where
  "ack_run y [] = Some y"
| "ack_run y (e # es) = (case ack_step y e of None \<Rightarrow> None | Some y' \<Rightarrow> ack_run y' es)"

text \<open>Every acknowledgement produced so far, drained or still queued, oldest first.\<close>

definition produced :: "AckSys \<Rightarrow> FrameAcknowledgePdu list" where
  "produced y = sent y @ outbox (acks y)"

fun frames_ended :: "AckEvent list \<Rightarrow> nat" where
  "frames_ended [] = 0"
| "frames_ended (EndFrame f # es) = Suc (frames_ended es)"
| "frames_ended (e # es) = frames_ended es"

lemma ack_run_append:
  "ack_run y (es @ fs) = (case ack_run y es of None \<Rightarrow> None | Some y' \<Rightarrow> ack_run y' fs)"
  by (induction es arbitrary: y) (auto split: option.splits)

lemma ack_run_Cons_Some:
  "ack_run y (e # es) = Some z \<longleftrightarrow> (\<exists>y'. ack_step y e = Some y' \<and> ack_run y' es = Some z)"
  by (auto split: option.splits)

subsection \<open>What a step does\<close>

lemma presented_eq:
  "presented s f =
     (let n = saturating_sub (in_flight s) 1 in
      if \<not> hidden s
      then (True, s\<lparr>in_flight := n, outbox := outbox s @
        [\<lparr>queue_depth = (if n = 0 then Unavailable else AvailableBytes n), ack_frame_id = f,
          total_frames_decoded = total_decoded s\<rparr>]\<rparr>)
      else if \<not> suspend_sent s
      then (True, s\<lparr>in_flight := n, suspend_sent := True, outbox := outbox s @
        [\<lparr>queue_depth = Suspend, ack_frame_id = f, total_frames_decoded = total_decoded s\<rparr>]\<rparr>)
      else (False, s\<lparr>in_flight := n\<rparr>))"
  by (simp add: presented_def Let_def)

lemma presented_frame:
  "in_flight (snd (presented s f)) = saturating_sub (in_flight s) 1"
  "total_decoded (snd (presented s f)) = total_decoded s"
  "hidden (snd (presented s f)) = hidden s"
  by (simp_all add: presented_eq Let_def)

lemma set_hidden_frame [simp]:
  "outbox (set_hidden s h) = outbox s" "in_flight (set_hidden s h) = in_flight s"
  "total_decoded (set_hidden s h) = total_decoded s" "hidden (set_hidden s h) = h"
  "suspend_sent (set_hidden s h) = (suspend_sent s \<and> hidden s = h)"
  by (auto simp: set_hidden_def)

lemma ack_step_quiet:
  assumes "ack_step y e = Some z" and "\<forall>i. e \<noteq> Present i"
  shows "produced z = produced y" and "shown z = shown y"
  using assms by (cases e; clarsimp simp: produced_def frame_ended_def drain_def)+

text \<open>The acknowledgements one presentation produces.\<close>

definition new_acks :: "AckState \<Rightarrow> u32 \<Rightarrow> FrameAcknowledgePdu list" where
  "new_acks s f = drop (length (outbox s)) (outbox (snd (presented s f)))"

lemma new_acks_eq:
  "outbox (snd (presented s f)) = outbox s @ new_acks s f"
  "\<not> hidden s \<Longrightarrow> map ack_frame_id (new_acks s f) = [f]"
  "hidden s \<Longrightarrow> suspend_sent s \<Longrightarrow> new_acks s f = []"
  "hidden s \<Longrightarrow> \<not> suspend_sent s \<Longrightarrow>
     new_acks s f = [\<lparr>queue_depth = Suspend, ack_frame_id = f, total_frames_decoded = total_decoded s\<rparr>]"
  by (auto simp: new_acks_def presented_eq Let_def)

lemma new_acks_subseq: "subseq (map ack_frame_id (new_acks s f)) [f]"
  by (cases "hidden s"; cases "suspend_sent s") (auto simp: new_acks_eq)

lemma produced_Present:
  "ack_step y (Present i) = Some z \<Longrightarrow>
     i < length (pending y) \<and> produced z = produced y @ new_acks (acks y) (pending y ! i) \<and>
     shown z = shown y @ [pending y ! i]"
  by (auto simp: produced_def new_acks_eq(1) Let_def split: if_splits)

subsection \<open>Invariants\<close>

lemma ack_step_acked_shown:
  assumes "ack_step y e = Some z" and "subseq (map ack_frame_id (produced y)) (shown y)"
  shows "subseq (map ack_frame_id (produced z)) (shown z)"
proof (cases e)
  case (Present i)
  with assms(2) produced_Present [OF assms(1) [unfolded Present]] show ?thesis
    by (auto intro: list_emb_append_mono new_acks_subseq)
qed (use assms(2) ack_step_quiet [OF assms(1)] in \<open>simp_all\<close>)

lemma ack_run_acked_shown:
  assumes "ack_run y es = Some z" and "subseq (map ack_frame_id (produced y)) (shown y)"
  shows "subseq (map ack_frame_id (produced z)) (shown z)"
  using assms by (induction es arbitrary: y)
    (auto simp: ack_run_Cons_Some simp del: ack_run.simps(2) intro: ack_step_acked_shown)

text \<open>
  The counters are honest as long as the outstanding callbacks can be counted in 32 bits: the
  bound on the run is on its length.
\<close>

lemma length_remove_at [simp]: "i < length xs \<Longrightarrow> length (remove_at i xs) = length xs - 1"
  by auto

lemma ack_step_counts:
  assumes "ack_step y e = Some z" and "unat (in_flight (acks y)) = length (pending y)"
    and "length (pending y) < 2 ^ 32 - 1"
  shows "unat (in_flight (acks z)) = length (pending z)"
    and "length (pending z) \<le> Suc (length (pending y))"
    and "total_decoded (acks z) = total_decoded (acks y) + of_nat (frames_ended [e])"
proof -
  have "unat (in_flight (acks z)) = length (pending z) \<and> length (pending z) \<le> Suc (length (pending y)) \<and>
    total_decoded (acks z) = total_decoded (acks y) + of_nat (frames_ended [e])"
  proof (cases e)
    case (EndFrame f)
    with assms have z: "acks z = snd (frame_ended (acks y) f)" "pending z = pending y @ [f]"
      by (auto simp: frame_ended_def)
    have "min (Suc (length (pending y))) (2 ^ 32 - 1) = Suc (length (pending y))"
      using assms(3) by linarith
    with z assms(2) EndFrame show ?thesis
      by (simp add: frame_ended_def word_ops)
  next
    case (Present i)
    with assms have "i < length (pending y)" "acks z = snd (presented (acks y) (pending y ! i))"
      "pending z = remove_at i (pending y)"
      by (auto simp: Let_def split: if_splits)
    with assms(2) Present show ?thesis
      by (simp add: presented_frame word_ops del: remove_at.simps)
  next
    case (SetHidden h)
    with assms show ?thesis by auto
  next
    case Drain
    with assms show ?thesis by (auto simp: drain_def)
  qed
  then show "unat (in_flight (acks z)) = length (pending z)"
    and "length (pending z) \<le> Suc (length (pending y))"
    and "total_decoded (acks z) = total_decoded (acks y) + of_nat (frames_ended [e])"
    by simp_all
qed

lemma frames_ended_Cons: "frames_ended (e # es) = frames_ended [e] + frames_ended es"
  by (cases e) auto

lemma ack_run_counts:
  assumes "ack_run y es = Some z" and "unat (in_flight (acks y)) = length (pending y)"
    and "length (pending y) + length es < 2 ^ 32"
  shows "unat (in_flight (acks z)) = length (pending z) \<and>
    total_decoded (acks z) = total_decoded (acks y) + of_nat (frames_ended es)"
  using assms
proof (induction es arbitrary: y)
  case (Cons e es)
  then obtain y' where s: "ack_step y e = Some y'" and r: "ack_run y' es = Some z"
    by (auto simp: ack_run_Cons_Some simp del: ack_run.simps(2))
  from Cons.prems(3) have "length (pending y) < 2 ^ 32 - 1" by simp
  note st = ack_step_counts [OF s Cons.prems(2) this]
  with Cons.IH [OF r st(1)] Cons.prems(3) show ?case
    by (simp add: frames_ended_Cons [of e es] del: frames_ended.simps)
qed simp

text \<open>The notifier runs exactly when an acknowledgement was queued.\<close>

lemma notifier_iff: "fst (presented s f) \<longleftrightarrow> outbox (snd (presented s f)) \<noteq> outbox s"
  by (simp add: presented_eq Let_def)

subsection \<open>Runs under one visibility\<close>

fun keeps_visible :: "AckEvent \<Rightarrow> bool" where
  "keeps_visible (SetHidden h) = (\<not> h)"
| "keeps_visible _ = True"

fun keeps_hidden :: "AckEvent \<Rightarrow> bool" where
  "keeps_hidden (SetHidden h) = h"
| "keeps_hidden _ = True"

lemma visible_step:
  assumes "ack_step y e = Some z" and "keeps_visible e" and "\<not> hidden (acks y)"
  shows "\<not> hidden (acks z)"
    and "\<exists>fs as. shown z = shown y @ fs \<and> produced z = produced y @ as \<and> map ack_frame_id as = fs"
proof -
  show "\<not> hidden (acks z)"
    using assms by (cases e) (auto simp: frame_ended_def drain_def presented_frame Let_def split: if_splits)
  show "\<exists>fs as. shown z = shown y @ fs \<and> produced z = produced y @ as \<and> map ack_frame_id as = fs"
  proof (cases e)
    case (Present i)
    with produced_Present [OF assms(1) [unfolded Present]] new_acks_eq(2) [OF assms(3)] show ?thesis by auto
  qed (use ack_step_quiet [OF assms(1)] in \<open>simp_all\<close>)
qed

lemma visible_run:
  assumes "ack_run y es = Some z" and "list_all keeps_visible es" and "\<not> hidden (acks y)"
  shows "\<exists>fs as. shown z = shown y @ fs \<and> produced z = produced y @ as \<and> map ack_frame_id as = fs"
  using assms
proof (induction es arbitrary: y)
  case (Cons e es)
  then obtain y' where s: "ack_step y e = Some y'" and r: "ack_run y' es = Some z"
    by (auto simp: ack_run_Cons_Some simp del: ack_run.simps(2))
  from Cons.prems have k: "keeps_visible e" "list_all keeps_visible es" by auto
  from visible_step(2) [OF s k(1) Cons.prems(3)] Cons.IH [OF r k(2) visible_step(1) [OF s k(1) Cons.prems(3)]]
  show ?case by force
qed simp

text \<open>Acknowledgements a hidden stretch still owes for the frames presented in it.\<close>

definition hidden_quota :: "bool \<Rightarrow> u32 list \<Rightarrow> u32 list" where
  "hidden_quota already fs = (if already then [] else take 1 fs)"

lemma hidden_step:
  assumes "ack_step y e = Some z" and "keeps_hidden e" and "hidden (acks y)"
  shows "hidden (acks z) \<and> (\<exists>fs as. shown z = shown y @ fs \<and> produced z = produced y @ as \<and>
    map ack_frame_id as = hidden_quota (suspend_sent (acks y)) fs \<and>
    (\<forall>a \<in> set as. queue_depth a = Suspend) \<and>
    suspend_sent (acks z) = (suspend_sent (acks y) \<or> fs \<noteq> []))"
proof (cases e)
  case (Present i)
  have "hidden (acks z)" "suspend_sent (acks z)"
    using assms Present by (auto simp: presented_eq Let_def split: if_splits)
  with assms(3) produced_Present [OF assms(1) [unfolded Present]] show ?thesis
    by (cases "suspend_sent (acks y)") (auto simp: new_acks_eq hidden_quota_def)
next
  case (EndFrame f)
  with assms(1) have "acks z = snd (frame_ended (acks y) f)" by (auto simp: frame_ended_def)
  with assms(3) EndFrame ack_step_quiet [OF assms(1)] show ?thesis
    by (simp add: frame_ended_def hidden_quota_def)
next
  case (SetHidden h)
  with assms(1) have "acks z = set_hidden (acks y) h" by auto
  with assms(2,3) SetHidden ack_step_quiet [OF assms(1)] show ?thesis
    by (simp add: hidden_quota_def)
next
  case Drain
  with assms(1) have "acks z = snd (drain (acks y))" by (auto simp: drain_def)
  with assms(3) Drain ack_step_quiet [OF assms(1)] show ?thesis
    by (simp add: drain_def hidden_quota_def)
qed

lemma hidden_run:
  assumes "ack_run y es = Some z" and "list_all keeps_hidden es" and "hidden (acks y)"
  shows "\<exists>fs as. shown z = shown y @ fs \<and> produced z = produced y @ as \<and>
    map ack_frame_id as = hidden_quota (suspend_sent (acks y)) fs \<and> (\<forall>a \<in> set as. queue_depth a = Suspend)"
  using assms
proof (induction es arbitrary: y)
  case Nil
  then show ?case by (auto simp: hidden_quota_def)
next
  case (Cons e es)
  then obtain y' where s: "ack_step y e = Some y'" and r: "ack_run y' es = Some z"
    by (auto simp: ack_run_Cons_Some simp del: ack_run.simps(2))
  from Cons.prems have k: "keeps_hidden e" "list_all keeps_hidden es" by auto
  from hidden_step [OF s k(1) Cons.prems(3)] obtain fs as where
    1: "hidden (acks y')" "shown y' = shown y @ fs" "produced y' = produced y @ as"
      "map ack_frame_id as = hidden_quota (suspend_sent (acks y)) fs"
      "\<forall>a \<in> set as. queue_depth a = Suspend"
      "suspend_sent (acks y') = (suspend_sent (acks y) \<or> fs \<noteq> [])" by blast
  from Cons.IH [OF r k(2) 1(1)] obtain gs bs where
    2: "shown z = shown y' @ gs" "produced z = produced y' @ bs"
      "map ack_frame_id bs = hidden_quota (suspend_sent (acks y')) gs"
      "\<forall>a \<in> set bs. queue_depth a = Suspend" by blast
  have "hidden_quota (suspend_sent (acks y)) (fs @ gs) =
      hidden_quota (suspend_sent (acks y)) fs @ hidden_quota (suspend_sent (acks y')) gs"
    using 1(6) by (cases fs) (auto simp: hidden_quota_def)
  with 1 2 show ?case by (intro exI [of _ "fs @ gs"] exI [of _ "as @ bs"]) auto
qed

end
