(* ===== verification/Gfx_Client.thy ===== *)
theory Gfx_Client
  imports Gfx_State Gfx_Ack
begin

text \<open>
  \<open>crates/drift-gfx/src/client.rs\<close>, \<open>sink.rs\<close> and \<open>caps.rs\<close>: the graphics client. Calls on the
  \<open>FrameSink\<close> are recorded in order as \<open>SinkOp\<close>s, a \<open>Result\<close> of a method on \<open>&mut self\<close> is paired
  with the client it leaves behind. The decoders behind the client (ZGFX, PDU parsing, AVC420
  metablock, H.264, RDP 6.0 planar, ClearCodec, RFX Progressive) are the fields of \<open>gfx_env\<close>, with
  their state as type variables. The scratch buffer of \<open>process_payload\<close> is not part of the state.
\<close>

subsection \<open>PDUs, sink calls, environment\<close>

datatype Codec1Type = C1Uncompressed | C1RemoteFx | C1ClearCodec | C1Planar | C1Avc420 | C1Alpha | C1Avc444 | C1Avc444v2

record FillPixel =
  px_b :: u8
  px_g :: u8
  px_r :: u8
  px_xa :: u8

datatype GfxPdu =
    CapabilitiesConfirm "u8 list"
  | ResetGraphics u32 u32
  | CreateSurface u16 u16 u16 PixelFormat
  | DeleteSurface u16
  | MapSurfaceToOutput u16 u32 u32
  | MapSurfaceToScaledOutput u16 u32 u32
  | MapSurfaceToWindow
  | MapSurfaceToScaledWindow
  | StartFrame u32
  | PduEndFrame u32
  | SolidFill u16 FillPixel "ExclusiveRectangle list"
  | SurfaceToSurface u16 u16 ExclusiveRectangle "GfxPoint list"
  | SurfaceToCache u16 u16 ExclusiveRectangle
  | CacheToSurface u16 u16 "GfxPoint list"
  | EvictCacheEntry u16
  | CacheImportReply
  | DeleteEncodingContext u16 u32
  | WireToSurface1 u16 Codec1Type PixelFormat ExclusiveRectangle "u8 list"
  | WireToSurface2 u16 u32 "u8 list"
  | CapabilitiesAdvertise
  | FrameAcknowledge
  | QoeFrameAcknowledge
  | CacheImportOffer
  | UnknownPdu

datatype 'f SinkOp =
    SinkReset "u32 Size"
  | SinkCreateSurface u16 "u32 Size"
  | SinkDeleteSurface u16
  | SinkMapSurfaceToOutput u16 "u32 Point"
  | SinkBlitBgra u16 Rect nat "u8 list"
  | SinkBlitNv12 u16 'f "Rect list"
  | SinkSolidFill u16 Bgra "Rect list"
  | SinkSurfaceToSurface u16 u16 Rect "u32 Point list"
  | SinkSurfaceToCache u16 Rect u16
  | SinkCacheToSurface u16 u16 "u32 Point list"
  | SinkEvictCache u16
  | SinkEndFrame u32 u32
  | SinkSetVisible bool

text \<open>\<open>drift_codec::ProgressiveCodec\<close> as the client sees it.\<close>

record 'p progressive_ops =
  prog_begin_frame :: "'p \<Rightarrow> 'p"
  prog_end_frame :: "'p \<Rightarrow> 'p"
  prog_delete_surface :: "'p \<Rightarrow> u16 \<Rightarrow> 'p"
  prog_delete_context :: "'p \<Rightarrow> u16 \<Rightarrow> u32 \<Rightarrow> 'p"
  prog_reset :: "'p \<Rightarrow> 'p"
  prog_decode :: "'p \<Rightarrow> u16 \<Rightarrow> u32 \<Rightarrow> u32 Size \<Rightarrow> u8 list \<Rightarrow> (CodecError, BgraTile list) result \<times> 'p"

record ('p, 'h, 'c, 'z, 'cap, 'f) gfx_env =
  env_progressive :: "'p progressive_ops"
  env_clear :: "'c clear_decoder"
  env_rdp6 :: rdp6_decoder
  env_h264_decode :: "'h \<Rightarrow> u8 list \<Rightarrow> (rstr, 'f option) result \<times> 'h"
  env_h264_reset :: "'h \<Rightarrow> 'h"
  env_zgfx :: "'z \<Rightarrow> u8 list \<Rightarrow> (rstr, u8 list) result \<times> 'z"
  env_pdu :: "u8 list \<Rightarrow> (rstr, GfxPdu) result"
  env_caps :: "u8 list \<Rightarrow> (rstr, 'cap option) result"
  env_avc420 :: "u8 list \<Rightarrow> (rstr, ExclusiveRectangle list \<times> u8 list) result"

record ('p, 'h, 'c, 'z, 'cap, 'f) GfxClient =
  sink :: "'f SinkOp list"
  h264 :: 'h
  progressive :: 'p
  clear :: "'c ClearCodec"
  zgfx :: 'z
  gstate :: GfxState
  gacks :: AckState
  confirmed :: "'cap option"
  output_size :: "u32 Size"
  last_error :: "GfxError option"

definition GfxClient_new :: "'h \<Rightarrow> 'p \<Rightarrow> 'z \<Rightarrow> ('p, 'h, 'c, 'z, 'cap, 'f) GfxClient" where
  "GfxClient_new h p z =
     \<lparr>sink = [], h264 = h, progressive = p, clear = ClearCodec_new, zgfx = z, gstate = GfxState_default,
      gacks = AckState_default, confirmed = None, output_size = Size_new 0 0, last_error = None\<rparr>"

definition call_sink :: "('p, 'h, 'c, 'z, 'cap, 'f) GfxClient \<Rightarrow> 'f SinkOp \<Rightarrow> ('p, 'h, 'c, 'z, 'cap, 'f) GfxClient" where
  "call_sink c op = c\<lparr>sink := sink c @ [op]\<rparr>"

type_synonym ('p, 'h, 'c, 'z, 'cap, 'f) outcome =
  "(GfxError, unit) result \<times> ('p, 'h, 'c, 'z, 'cap, 'f) GfxClient"

text \<open>A fallible computation that does not touch the client, then one that does.\<close>

definition check_then ::
    "(GfxError, 'a) result \<Rightarrow> ('p, 'h, 'c, 'z, 'cap, 'f) GfxClient \<Rightarrow>
      ('a \<Rightarrow> ('p, 'h, 'c, 'z, 'cap, 'f) outcome) \<Rightarrow> ('p, 'h, 'c, 'z, 'cap, 'f) outcome" where
  "check_then r c k = (case r of Inl e \<Rightarrow> (Inl e, c) | Inr a \<Rightarrow> k a)"

definition map_err :: "('e \<Rightarrow> 'd) \<Rightarrow> ('e, 'a) result \<Rightarrow> ('d, 'a) result" where
  "map_err f r = (case r of Inl e \<Rightarrow> Inl (f e) | Inr a \<Rightarrow> Inr a)"

subsection \<open>Drawing commands\<close>

definition reset_graphics ::
    "('p, 'h, 'c, 'z, 'cap, 'f) gfx_env \<Rightarrow> ('p, 'h, 'c, 'z, 'cap, 'f) GfxClient \<Rightarrow> u32 Size \<Rightarrow>
      ('p, 'h, 'c, 'z, 'cap, 'f) GfxClient" where
  "reset_graphics env c out =
     (let (ids, st) = gfx_reset (gstate c);
          p = foldl (prog_delete_surface (env_progressive env)) (progressive c) ids;
          c = c\<lparr>gstate := st, progressive := prog_reset (env_progressive env) p, clear := ClearCodec_new,
                h264 := env_h264_reset env (h264 c), output_size := out\<rparr>
      in call_sink c (SinkReset out))"

text \<open>The loop both \<open>solid_fill\<close> and \<open>avc420\<close> run over their rectangles.\<close>

fun clip_rects :: "u32 Size \<Rightarrow> ExclusiveRectangle list \<Rightarrow> (GfxError, Rect list) result" where
  "clip_rects bounds [] = Inr []"
| "clip_rects bounds (r # rs) =
     and_then (gfx_rect r) (\<lambda>q. and_then (clip_rects bounds rs) (\<lambda>qs.
       Inr (case clip q bounds of None \<Rightarrow> qs | Some q' \<Rightarrow> q' # qs)))"

definition solid_fill where
  "solid_fill c sid pixel rectangles =
     check_then (gfx_surface (gstate c) sid) c (\<lambda>surface.
     check_then (clip_rects (surf_size surface) rectangles) c (\<lambda>rects.
       let a = (if surf_format surface = ARgb then px_xa pixel else 0xFF);
           color = Bgra_new (px_b pixel) (px_g pixel) (px_r pixel) a
       in (Inr (), if rects \<noteq> [] then call_sink c (SinkSolidFill sid color rects) else c)))"

definition destinations :: "u16 \<Rightarrow> u32 Size \<Rightarrow> u32 Size \<Rightarrow> GfxPoint list \<Rightarrow> (GfxError, u32 Point list) result" where
  "destinations sid bounds sz points =
     try_map (\<lambda>p. let p = gfx_point p in
       and_then (ensure_within sid bounds (Rect_new (pt_x p) (pt_y p) (width sz) (height sz)) (lit ''destination''))
         (\<lambda>_. Inr p)) points"

definition surface_to_surface where
  "surface_to_surface c src_id dst_id rectangle points =
     check_then (gfx_surface (gstate c) src_id) c (\<lambda>src.
     check_then (gfx_surface (gstate c) dst_id) c (\<lambda>dst.
     check_then (gfx_rect rectangle) c (\<lambda>r.
     check_then (ensure_within src_id (surf_size src) r (lit ''source'')) c (\<lambda>_.
     check_then (destinations dst_id (surf_size dst) (rect_size r) points) c (\<lambda>dests.
       (Inr (), call_sink c (SinkSurfaceToSurface src_id dst_id r dests)))))))"

definition surface_to_cache where
  "surface_to_cache c sid slot rectangle =
     check_then (gfx_surface (gstate c) sid) c (\<lambda>surface.
     check_then (gfx_rect rectangle) c (\<lambda>r.
     check_then (ensure_within sid (surf_size surface) r (lit ''source'')) c (\<lambda>_.
     check_then (cache_store (gstate c) slot (rect_size r)) c (\<lambda>st.
       (Inr (), call_sink (c\<lparr>gstate := st\<rparr>) (SinkSurfaceToCache sid r slot))))))"

definition cache_to_surface where
  "cache_to_surface c slot sid points =
     check_then (cache_entry (gstate c) slot) c (\<lambda>sz.
     check_then (gfx_surface (gstate c) sid) c (\<lambda>surface.
     check_then (destinations sid (surf_size surface) sz points) c (\<lambda>dests.
       (Inr (), call_sink c (SinkCacheToSurface slot sid dests)))))"

definition blit where
  "blit c sid bounds tile =
     foldl (\<lambda>c b. if fits_within (blit_rect b) bounds
                   then call_sink c (SinkBlitBgra sid (blit_rect b) (blit_stride b) (blit_data b)) else c)
       c (blits tile)"

definition avc420 ::
    "('p, 'h, 'c, 'z, 'cap, 'f) gfx_env \<Rightarrow> ('p, 'h, 'c, 'z, 'cap, 'f) GfxClient \<Rightarrow> u16 \<Rightarrow> u32 Size \<Rightarrow>
      u8 list \<Rightarrow> ('p, 'h, 'c, 'z, 'cap, 'f) outcome" where
  "avc420 env c sid bounds data =
     check_then (map_err Decode (env_avc420 env data)) c (\<lambda>(rectangles, unit).
     check_then (clip_rects bounds rectangles) c (\<lambda>regions.
       let (res, h) = env_h264_decode env (h264 c) unit;
           c = c\<lparr>h264 := h\<rparr>
       in check_then (map_err H264 res) c (\<lambda>frame.
            (Inr (), case frame of
               Some f \<Rightarrow> if regions \<noteq> [] then call_sink c (SinkBlitNv12 sid f regions) else c
             | None \<Rightarrow> c))))"

text \<open>The derived \<open>Debug\<close> name of a codec.\<close>

fun codec_debug :: "Codec1Type \<Rightarrow> rstr" where
  "codec_debug C1Uncompressed = lit ''Uncompressed''"
| "codec_debug C1RemoteFx = lit ''RemoteFx''"
| "codec_debug C1ClearCodec = lit ''ClearCodec''"
| "codec_debug C1Planar = lit ''Planar''"
| "codec_debug C1Avc420 = lit ''Avc420''"
| "codec_debug C1Alpha = lit ''Alpha''"
| "codec_debug C1Avc444 = lit ''Avc444''"
| "codec_debug C1Avc444v2 = lit ''Avc444v2''"

definition wire_to_surface_1 ::
    "('p, 'h, 'c, 'z, 'cap, 'f) gfx_env \<Rightarrow> ('p, 'h, 'c, 'z, 'cap, 'f) GfxClient \<Rightarrow> u16 \<Rightarrow> Codec1Type \<Rightarrow>
      PixelFormat \<Rightarrow> ExclusiveRectangle \<Rightarrow> u8 list \<Rightarrow> ('p, 'h, 'c, 'z, 'cap, 'f) outcome" where
  "wire_to_surface_1 env c sid codec pixel_format rectangle data =
     check_then (gfx_surface (gstate c) sid) c (\<lambda>surface.
     check_then (gfx_rect rectangle) c (\<lambda>dest.
       let within = ensure_within sid (surf_size surface) dest (lit ''destination'');
           draw = (\<lambda>c tile. (Inr (), blit c sid (surf_size surface) tile))
       in case codec of
            C1Avc420 \<Rightarrow> avc420 env c sid (surf_size surface) data
          | C1Uncompressed \<Rightarrow>
              check_then within c (\<lambda>_.
              check_then (map_err Codec (decode_uncompressed dest
                (case pixel_format of XRgb \<Rightarrow> Xrgb | ARgb \<Rightarrow> Argb) data)) c (draw c))
          | C1Planar \<Rightarrow>
              check_then within c (\<lambda>_.
              check_then (map_err Codec (decode_planar (env_rdp6 env) dest data)) c (draw c))
          | C1ClearCodec \<Rightarrow>
              check_then within c (\<lambda>_.
                let (res, cl) = ClearCodec_decode (env_clear env) (clear c) dest data;
                    c = c\<lparr>clear := cl\<rparr>
                in check_then (map_err Codec res) c (draw c))
          | _ \<Rightarrow> (Inl (UnsupportedCodec (codec_debug codec)), c)))"

definition wire_to_surface_2 ::
    "('p, 'h, 'c, 'z, 'cap, 'f) gfx_env \<Rightarrow> ('p, 'h, 'c, 'z, 'cap, 'f) GfxClient \<Rightarrow> u16 \<Rightarrow> u32 \<Rightarrow>
      u8 list \<Rightarrow> ('p, 'h, 'c, 'z, 'cap, 'f) outcome" where
  "wire_to_surface_2 env c sid ctx data =
     check_then (gfx_surface (gstate c) sid) c (\<lambda>surface.
       let (res, p) = prog_decode (env_progressive env) (progressive c) sid ctx (surf_size surface) data;
           c = c\<lparr>progressive := p\<rparr>
       in check_then (map_err Codec res) c (\<lambda>tiles.
            (Inr (), foldl (\<lambda>c tile. blit c sid (surf_size surface) tile) c tiles)))"

subsection \<open>PDU dispatch\<close>

fun pdu_name :: "GfxPdu \<Rightarrow> rstr" where
  "pdu_name (WireToSurface1 _ _ _ _ _) = lit ''WireToSurface1''"
| "pdu_name (WireToSurface2 _ _ _) = lit ''WireToSurface2''"
| "pdu_name (DeleteEncodingContext _ _) = lit ''DeleteEncodingContext''"
| "pdu_name (SolidFill _ _ _) = lit ''SolidFill''"
| "pdu_name (SurfaceToSurface _ _ _ _) = lit ''SurfaceToSurface''"
| "pdu_name (SurfaceToCache _ _ _) = lit ''SurfaceToCache''"
| "pdu_name (CacheToSurface _ _ _) = lit ''CacheToSurface''"
| "pdu_name (EvictCacheEntry _) = lit ''EvictCacheEntry''"
| "pdu_name (CreateSurface _ _ _ _) = lit ''CreateSurface''"
| "pdu_name (DeleteSurface _) = lit ''DeleteSurface''"
| "pdu_name (StartFrame _) = lit ''StartFrame''"
| "pdu_name (PduEndFrame _) = lit ''EndFrame''"
| "pdu_name FrameAcknowledge = lit ''FrameAcknowledge''"
| "pdu_name (ResetGraphics _ _) = lit ''ResetGraphics''"
| "pdu_name (MapSurfaceToOutput _ _ _) = lit ''MapSurfaceToOutput''"
| "pdu_name CacheImportOffer = lit ''CacheImportOffer''"
| "pdu_name CacheImportReply = lit ''CacheImportReply''"
| "pdu_name CapabilitiesAdvertise = lit ''CapabilitiesAdvertise''"
| "pdu_name (CapabilitiesConfirm _) = lit ''CapabilitiesConfirm''"
| "pdu_name MapSurfaceToWindow = lit ''MapSurfaceToWindow''"
| "pdu_name QoeFrameAcknowledge = lit ''QoeFrameAcknowledge''"
| "pdu_name (MapSurfaceToScaledOutput _ _ _) = lit ''MapSurfaceToScaledOutput''"
| "pdu_name MapSurfaceToScaledWindow = lit ''MapSurfaceToScaledWindow''"
| "pdu_name UnknownPdu = lit ''unknown GFX PDU''"

fun handle_pdu ::
    "('p, 'h, 'c, 'z, 'cap, 'f) gfx_env \<Rightarrow> ('p, 'h, 'c, 'z, 'cap, 'f) GfxClient \<Rightarrow> GfxPdu \<Rightarrow>
      ('p, 'h, 'c, 'z, 'cap, 'f) outcome" where
  "handle_pdu env c (CapabilitiesConfirm raw) =
     check_then (map_err Decode (env_caps env raw)) c (\<lambda>caps. (Inr (), c\<lparr>confirmed := caps\<rparr>))"
| "handle_pdu env c (ResetGraphics w h) = (Inr (), reset_graphics env c (Size_new w h))"
| "handle_pdu env c (CreateSurface sid w h fmt) =
     (let sz = Size_new (ucast w) (ucast h) in
      check_then (gfx_create (gstate c) sid sz fmt) c (\<lambda>st.
        let c = c\<lparr>gstate := st, progressive := prog_delete_surface (env_progressive env) (progressive c) sid\<rparr>
        in (Inr (), call_sink c (SinkCreateSurface sid sz))))"
| "handle_pdu env c (DeleteSurface sid) =
     (let (existed, st) = gfx_delete (gstate c) sid;
          c = c\<lparr>gstate := st\<rparr>
      in (Inr (),
          if existed
          then call_sink (c\<lparr>progressive := prog_delete_surface (env_progressive env) (progressive c) sid\<rparr>)
                 (SinkDeleteSurface sid)
          else c))"
| "handle_pdu env c (MapSurfaceToOutput sid x y) =
     check_then (gfx_surface (gstate c) sid) c (\<lambda>_.
       (Inr (), call_sink c (SinkMapSurfaceToOutput sid (Point_new x y))))"
| "handle_pdu env c (MapSurfaceToScaledOutput sid x y) =
     check_then (gfx_surface (gstate c) sid) c (\<lambda>_.
       (Inr (), call_sink c (SinkMapSurfaceToOutput sid (Point_new x y))))"
| "handle_pdu env c MapSurfaceToWindow = (Inr (), c)"
| "handle_pdu env c MapSurfaceToScaledWindow = (Inr (), c)"
| "handle_pdu env c (StartFrame fid) =
     (Inr (), c\<lparr>progressive := prog_begin_frame (env_progressive env) (progressive c)\<rparr>)"
| "handle_pdu env c (PduEndFrame fid) =
     (let c = c\<lparr>progressive := prog_end_frame (env_progressive env) (progressive c)\<rparr>;
          (cb, a) = frame_ended (gacks c) fid
      in (Inr (), call_sink (c\<lparr>gacks := a\<rparr>) (SinkEndFrame fid cb)))"
| "handle_pdu env c (SolidFill sid pixel rs) = solid_fill c sid pixel rs"
| "handle_pdu env c (SurfaceToSurface src dst r ps) = surface_to_surface c src dst r ps"
| "handle_pdu env c (SurfaceToCache sid slot r) = surface_to_cache c sid slot r"
| "handle_pdu env c (CacheToSurface slot sid ps) = cache_to_surface c slot sid ps"
| "handle_pdu env c (EvictCacheEntry slot) =
     check_then (cache_evict (gstate c) slot) c (\<lambda>(held, st).
       (Inr (), if held then call_sink (c\<lparr>gstate := st\<rparr>) (SinkEvictCache slot) else c\<lparr>gstate := st\<rparr>))"
| "handle_pdu env c CacheImportReply = (Inr (), c)"
| "handle_pdu env c (DeleteEncodingContext sid ctx) =
     (Inr (), c\<lparr>progressive := prog_delete_context (env_progressive env) (progressive c) sid ctx\<rparr>)"
| "handle_pdu env c (WireToSurface1 sid codec fmt r data) = wire_to_surface_1 env c sid codec fmt r data"
| "handle_pdu env c (WireToSurface2 sid ctx data) = wire_to_surface_2 env c sid ctx data"
| "handle_pdu env c CapabilitiesAdvertise = (Inl (UnexpectedPdu (pdu_name CapabilitiesAdvertise)), c)"
| "handle_pdu env c FrameAcknowledge = (Inl (UnexpectedPdu (pdu_name FrameAcknowledge)), c)"
| "handle_pdu env c QoeFrameAcknowledge = (Inl (UnexpectedPdu (pdu_name QoeFrameAcknowledge)), c)"
| "handle_pdu env c CacheImportOffer = (Inl (UnexpectedPdu (pdu_name CacheImportOffer)), c)"
| "handle_pdu env c UnknownPdu = (Inl (UnexpectedPdu (pdu_name UnknownPdu)), c)"

subsection \<open>Payloads\<close>

definition GFX_HEADER_SIZE :: nat where "GFX_HEADER_SIZE = 8"

text \<open>The \<open>pduLength\<close> field, bytes 4 to 8 little-endian; \<open>None\<close> when the header is truncated.\<close>

definition pdu_length :: "u8 list \<Rightarrow> nat option" where
  "pdu_length data =
     (if length data < GFX_HEADER_SIZE then None
      else Some (unat (data ! 4) + 256 * unat (data ! 5) + 65536 * unat (data ! 6) + 16777216 * unat (data ! 7)))"

function process_pdus ::
    "('p, 'h, 'c, 'z, 'cap, 'f) gfx_env \<Rightarrow> ('p, 'h, 'c, 'z, 'cap, 'f) GfxClient \<Rightarrow> u8 list \<Rightarrow>
      ('p, 'h, 'c, 'z, 'cap, 'f) outcome" where
  "process_pdus env c data =
     (if data = [] then (Inr (), c)
      else case pdu_length data of
        None \<Rightarrow> (Inl (Decode (lit ''truncated RDPGFX_HEADER ('' @ dec_digits (length data) @ lit '' bytes)'')), c)
      | Some len \<Rightarrow>
          if len < GFX_HEADER_SIZE \<or> length data < len
          then (Inl (Decode (lit ''pduLength '' @ dec_digits len @ lit '' outside '' @ dec_digits GFX_HEADER_SIZE @
                  lit ''..='' @ dec_digits (length data))), c)
          else
            (case env_pdu env (take len data) of
               Inl e \<Rightarrow> (Inl (Decode e), c)
             | Inr pdu \<Rightarrow>
                 (case handle_pdu env c pdu of
                    (Inl e, c') \<Rightarrow> (Inl e, c')
                  | (Inr _, c') \<Rightarrow> process_pdus env c' (drop len data))))"
  by pat_completeness auto
termination
  by (relation "measure (\<lambda>(env, c, data). length data)") (auto simp: GFX_HEADER_SIZE_def)

declare process_pdus.simps [simp del]

definition process_payload where
  "process_payload env c payload =
     (let (res, z) = env_zgfx env (zgfx c) payload;
          c = c\<lparr>zgfx := z\<rparr>
      in case res of
           Inl e \<Rightarrow> (Inl (Zgfx e), c)
         | Inr buffer \<Rightarrow> process_pdus env c buffer)"

definition client_set_visible ::
    "('p, 'h, 'c, 'z, 'cap, 'f) GfxClient \<Rightarrow> bool \<Rightarrow> ('p, 'h, 'c, 'z, 'cap, 'f) GfxClient" where
  "client_set_visible c visible =
     call_sink (c\<lparr>gacks := set_hidden (gacks c) (\<not> visible)\<rparr>) (SinkSetVisible visible)"

text \<open>The channel's \<open>process\<close>: the acknowledgements due, or the error kept for \<open>take_error\<close>.\<close>

definition channel_process where
  "channel_process env c payload =
     (case process_payload env c payload of
        (Inr _, c') \<Rightarrow>
          (let (msgs, a) = drain (gacks c') in (Inr msgs, c'\<lparr>gacks := a\<rparr>))
      | (Inl e, c') \<Rightarrow> (Inl e, c'\<lparr>last_error := Some e\<rparr>))"

definition take_error where
  "take_error c = (last_error c, c\<lparr>last_error := None\<rparr>)"

datatype AdvertisedCaps = V8_1_AVC420_ENABLED | V8_empty

definition advertised_caps :: "AdvertisedCaps list" where
  "advertised_caps = [V8_1_AVC420_ENABLED, V8_empty]"

end
