(* ===== verification/Gfx_Renderer.thy ===== *)
theory Gfx_Renderer
  imports Gfx_Client
begin

text \<open>
  The contract between the graphics client and its \<open>FrameSink\<close> (\<open>crates/drift-gfx/src/sink.rs\<close>):
  an abstract renderer knows the size of every surface and of every cached image, \<open>sink_ok\<close> says
  which calls it may be given, \<open>sink_apply\<close> what a call does to it. The client simulates it: every
  call it makes is allowed, and its book-keeping stays the renderer's.
\<close>

subsection \<open>The abstract renderer\<close>

record Renderer =
  r_surfaces :: "u16 \<Rightarrow> u32 Size option"
  r_cache :: "u16 \<Rightarrow> u32 Size option"

definition Renderer_init :: Renderer where
  "Renderer_init = \<lparr>r_surfaces = Map.empty, r_cache = Map.empty\<rparr>"

definition dest_rect :: "u32 Point \<Rightarrow> u32 Size \<Rightarrow> Rect" where
  "dest_rect p sz = Rect_new (pt_x p) (pt_y p) (width sz) (height sz)"

definition inside :: "u32 Size option \<Rightarrow> Rect \<Rightarrow> bool" where
  "inside b r = (case b of None \<Rightarrow> False | Some sz \<Rightarrow> fits_within r sz)"

fun sink_ok :: "Renderer \<Rightarrow> 'f SinkOp \<Rightarrow> bool" where
  "sink_ok v (SinkReset _) = True"
| "sink_ok v (SinkCreateSurface sid sz) = (r_surfaces v sid = None \<and> surface_ok sz)"
| "sink_ok v (SinkDeleteSurface sid) = (r_surfaces v sid \<noteq> None)"
| "sink_ok v (SinkMapSurfaceToOutput sid _) = (r_surfaces v sid \<noteq> None)"
| "sink_ok v (SinkBlitBgra sid r stride data) =
     (inside (r_surfaces v sid) r \<and> \<not> rect_is_empty r \<and>
      (unat (rect_height r) - 1) * stride + unat (rect_width r) * BPP \<le> length data)"
| "sink_ok v (SinkBlitNv12 sid _ rs) =
     (rs \<noteq> [] \<and> (\<forall>r \<in> set rs. inside (r_surfaces v sid) r \<and> \<not> rect_is_empty r))"
| "sink_ok v (SinkSolidFill sid _ rs) =
     (rs \<noteq> [] \<and> (\<forall>r \<in> set rs. inside (r_surfaces v sid) r \<and> \<not> rect_is_empty r))"
| "sink_ok v (SinkSurfaceToSurface src dst r ps) =
     (inside (r_surfaces v src) r \<and> r_surfaces v dst \<noteq> None \<and>
      (\<forall>p \<in> set ps. inside (r_surfaces v dst) (dest_rect p (rect_size r))))"
| "sink_ok v (SinkSurfaceToCache sid r slot) = (inside (r_surfaces v sid) r \<and> slot_ok slot)"
| "sink_ok v (SinkCacheToSurface slot sid ps) =
     (r_surfaces v sid \<noteq> None \<and> (case r_cache v slot of None \<Rightarrow> False
        | Some sz \<Rightarrow> (\<forall>p \<in> set ps. inside (r_surfaces v sid) (dest_rect p sz))))"
| "sink_ok v (SinkEvictCache slot) = (r_cache v slot \<noteq> None)"
| "sink_ok v (SinkEndFrame _ _) = True"
| "sink_ok v (SinkSetVisible _) = True"

fun sink_apply :: "Renderer \<Rightarrow> 'f SinkOp \<Rightarrow> Renderer" where
  "sink_apply v (SinkReset _) = Renderer_init"
| "sink_apply v (SinkCreateSurface sid sz) = v\<lparr>r_surfaces := (r_surfaces v)(sid \<mapsto> sz)\<rparr>"
| "sink_apply v (SinkDeleteSurface sid) = v\<lparr>r_surfaces := (r_surfaces v)(sid := None)\<rparr>"
| "sink_apply v (SinkSurfaceToCache sid r slot) = v\<lparr>r_cache := (r_cache v)(slot \<mapsto> rect_size r)\<rparr>"
| "sink_apply v (SinkEvictCache slot) = v\<lparr>r_cache := (r_cache v)(slot := None)\<rparr>"
| "sink_apply v _ = v"

definition renderer_view :: "GfxState \<Rightarrow> Renderer" where
  "renderer_view s =
     \<lparr>r_surfaces = (\<lambda>sid. map_option surf_size (map_of (surfaces s) sid)), r_cache = map_of (cache s)\<rparr>"

subsection \<open>Producers of call traces\<close>

text \<open>
  Something that appends calls to a log while it keeps a view of the consumer. The laws are about
  one step; the locale gives whole runs.
\<close>

locale traced_producer =
  fixes trace :: "'s \<Rightarrow> 'op list"
    and view :: "'s \<Rightarrow> 'r"
    and inv :: "'s \<Rightarrow> bool"
    and ok :: "'r \<Rightarrow> 'op \<Rightarrow> bool"
    and upd :: "'r \<Rightarrow> 'op \<Rightarrow> 'r"
    and run :: "'r \<Rightarrow> 'op list \<Rightarrow> 'r option"
    and step :: "'s \<Rightarrow> 'e \<Rightarrow> 's"
  assumes run_Nil: "run v [] = Some v"
    and run_Cons: "run v (op # ops) = (if ok v op then run (upd v op) ops else None)"
    and step_inv: "inv s \<Longrightarrow> inv (step s e)"
    and step_trace: "inv s \<Longrightarrow> \<exists>ops. trace (step s e) = trace s @ ops \<and> run (view s) ops = Some (view (step s e))"
begin

lemma run_append: "run v (xs @ ys) = Option.bind (run v xs) (\<lambda>w. run w ys)"
  by (induction xs arbitrary: v) (auto simp: run_Nil run_Cons)

lemma steps_inv: "inv s \<Longrightarrow> inv (foldl step s es)"
  by (induction es arbitrary: s) (auto simp: step_inv)

lemma steps_trace:
  "inv s \<Longrightarrow> \<exists>ops. trace (foldl step s es) = trace s @ ops \<and> run (view s) ops = Some (view (foldl step s es))"
proof (induction es arbitrary: s)
  case (Cons e es)
  from step_trace [OF Cons.prems, of e] obtain xs where
    xs: "trace (step s e) = trace s @ xs" "run (view s) xs = Some (view (step s e))" by blast
  from Cons.IH [OF step_inv [OF Cons.prems, of e]] obtain ys where
    "trace (foldl step (step s e) es) = trace (step s e) @ ys"
    "run (view (step s e)) ys = Some (view (foldl step (step s e) es))" by blast
  with xs show ?case by (intro exI [of _ "xs @ ys"]) (simp add: run_append)
qed (auto simp: run_Nil)

lemma run_prefix_ok:
  "run v (xs @ op # ys) \<noteq> None \<Longrightarrow> \<exists>w. run v xs = Some w \<and> ok w op"
  by (cases "run v xs") (auto simp: run_append run_Cons split: if_splits)

end

text \<open>The renderer runs a trace of calls; \<open>None\<close> when one is not allowed.\<close>

fun sink_run :: "Renderer \<Rightarrow> 'f SinkOp list \<Rightarrow> Renderer option" where
  "sink_run v [] = Some v"
| "sink_run v (op # ops) = (if sink_ok v op then sink_run (sink_apply v op) ops else None)"

subsection \<open>Fallible steps of the client\<close>

lemma check_then_cases:
  assumes "check_then r c k = (res, c')"
  obtains (err) e where "r = Inl e" "res = Inl e" "c' = c"
        | (ok) a where "r = Inr a" "k a = (res, c')"
  using assms by (cases r) (auto simp: check_then_def)

lemma check_then_Inl [simp]: "check_then (Inl e) c k = (Inl e, c)"
  by (simp add: check_then_def)

lemma check_then_Inr [simp]: "check_then (Inr a) c k = k a"
  by (simp add: check_then_def)

lemma map_err_Inr [simp]: "map_err f r = Inr a \<longleftrightarrow> r = Inr a"
  by (cases r) (auto simp: map_err_def)

lemma call_sink_simps [simp]:
  "sink (call_sink c op) = sink c @ [op]" "gstate (call_sink c op) = gstate c"
  "gacks (call_sink c op) = gacks c" "progressive (call_sink c op) = progressive c"
  by (simp_all add: call_sink_def)

text \<open>A step that simulates the renderer.\<close>

definition simulates :: "('p, 'h, 'c, 'z, 'cap, 'f) GfxClient \<Rightarrow> ('p, 'h, 'c, 'z, 'cap, 'f) GfxClient \<Rightarrow> bool" where
  "simulates c c' \<longleftrightarrow>
     gfx_wf (gstate c') \<and>
     (\<exists>ops. sink c' = sink c @ ops \<and>
        sink_run (renderer_view (gstate c)) ops = Some (renderer_view (gstate c')))"

lemma sink_run_append: "sink_run v (xs @ ys) = Option.bind (sink_run v xs) (\<lambda>w. sink_run w ys)"
  by (induction xs arbitrary: v) auto

lemma simulates_trans: "simulates c c' \<Longrightarrow> simulates c' c'' \<Longrightarrow> simulates c c''"
  unfolding simulates_def by (auto simp: sink_run_append)

lemma simulates_quiet:
  "gfx_wf (gstate c) \<Longrightarrow> sink c' = sink c \<Longrightarrow> gstate c' = gstate c \<Longrightarrow> simulates c c'"
  by (auto simp: simulates_def)

lemma simulates_call:
  assumes "gfx_wf (gstate c')" and "sink c' = sink c @ [op]"
    and "sink_ok (renderer_view (gstate c)) op"
    and "renderer_view (gstate c') = sink_apply (renderer_view (gstate c)) op"
  shows "simulates c c'"
  using assms by (auto simp: simulates_def intro!: exI [of _ "[op]"])

lemma simulates_call_sink:
  assumes "gfx_wf (gstate c)" and "sink_ok (renderer_view (gstate c)) op"
    and "sink_apply (renderer_view (gstate c)) op = renderer_view (gstate c)"
  shows "simulates c (call_sink c op)"
  using assms by (intro simulates_call [of _ _ op]) simp_all

lemma view_simps [simp]:
  "r_surfaces (renderer_view s) sid = map_option surf_size (map_of (surfaces s) sid)"
  "r_cache (renderer_view s) = map_of (cache s)"
  by (simp_all add: renderer_view_def)

lemma inside_Some [simp]: "inside (Some b) r = fits_within r b"
  by (simp add: inside_def)

subsection \<open>Each command\<close>

lemma clip_rects_Inr:
  "clip_rects b rs = Inr qs \<Longrightarrow> q \<in> set qs \<Longrightarrow> fits_within q b \<and> \<not> rect_is_empty q"
  by (induction rs arbitrary: qs)
    (auto simp: and_then_Inr_iff clip_Some split: option.splits)

lemma clip_rects_all: "clip_rects b rs = Inr qs \<Longrightarrow> \<forall>q \<in> set qs. fits_within q b \<and> \<not> rect_is_empty q"
  using clip_rects_Inr by blast

lemma destinations_Inr:
  assumes "destinations sid b sz ps = Inr ds" and "d \<in> set ds"
  shows "fits_within (dest_rect d sz) b"
proof -
  from assms(1) have "list_all2 (\<lambda>p d. d = gfx_point p \<and> fits_within (dest_rect (gfx_point p) sz) b) ps ds"
    by (auto simp: destinations_def try_map_Inr_iff Let_def and_then_Inr_iff ensure_within_Inr dest_rect_def
        elim!: list_all2_mono)
  with assms(2) show ?thesis by (auto simp: list_all2_conv_all_nth in_set_conv_nth)
qed

lemma solid_fill_simulates:
  assumes "gfx_wf (gstate c)" and "solid_fill c sid px rs = (res, c')"
  shows "simulates c c'"
  using assms(2) unfolding solid_fill_def
proof (rule check_then_cases)
  fix f assume f: "gfx_surface (gstate c) sid = Inr f"
    and k: "check_then (clip_rects (surf_size f) rs) c (\<lambda>rects.
       let a = (if surf_format f = ARgb then px_xa px else 0xFF);
           color = Bgra_new (px_b px) (px_g px) (px_r px) a
       in (Inr (), if rects \<noteq> [] then call_sink c (SinkSolidFill sid color rects) else c)) = (res, c')"
  from k show ?thesis
    using assms(1) f
    by (elim check_then_cases)
      (auto simp: gfx_surface_Inr Let_def dest: clip_rects_Inr intro: simulates_quiet intro!: simulates_call_sink
        split: if_splits)
qed (use assms(1) in \<open>auto intro: simulates_quiet\<close>)

lemma surface_to_surface_simulates:
  assumes "gfx_wf (gstate c)" and "surface_to_surface c src dst r ps = (res, c')"
  shows "simulates c c'"
  using assms unfolding surface_to_surface_def
  by (elim check_then_cases)
    (auto simp: gfx_surface_Inr ensure_within_Inr simulates_quiet dest: destinations_Inr
      intro!: simulates_call_sink)

lemma surface_to_cache_simulates:
  assumes "gfx_wf (gstate c)" and "surface_to_cache c sid slot r = (res, c')"
  shows "simulates c c'"
  using assms unfolding surface_to_cache_def
  by (elim check_then_cases)
    (auto simp: gfx_surface_Inr ensure_within_Inr cache_store_Inr gfx_wf_store renderer_view_def simulates_quiet
      intro!: simulates_call)

lemma cache_to_surface_simulates:
  assumes "gfx_wf (gstate c)" and "cache_to_surface c slot sid ps = (res, c')"
  shows "simulates c c'"
  using assms unfolding cache_to_surface_def
  by (elim check_then_cases)
    (auto simp: gfx_surface_Inr cache_entry_Inr simulates_quiet dest: destinations_Inr
      intro!: simulates_call_sink)

lemma blit_list_simulates:
  assumes "\<forall>b \<in> set bs. \<exists>r. blit_of t r = Some b"
    and "gfx_wf (gstate c)" and "map_of (surfaces (gstate c)) sid = Some f"
  defines "g \<equiv> \<lambda>c b. if fits_within (blit_rect b) (surf_size f)
                   then call_sink c (SinkBlitBgra sid (blit_rect b) (blit_stride b) (blit_data b)) else c"
  shows "simulates c (foldl g c bs) \<and> gstate (foldl g c bs) = gstate c"
  using assms(1-3)
proof (induction bs arbitrary: c)
  case Nil
  then show ?case by (simp add: simulates_quiet)
next
  case (Cons b bs)
  from Cons.prems(1) obtain r where "blit_of t r = Some b" by auto
  note B = blit_of_Some [OF this]
  have st: "gstate (g c b) = gstate c" by (simp add: g_def)
  have "simulates c (g c b)"
    using Cons.prems(2,3) B(1,2,3,6) by (auto simp: g_def simulates_quiet intro!: simulates_call_sink)
  with Cons.IH [of "g c b"] Cons.prems st show ?case by (auto intro: simulates_trans)
qed

lemma blit_simulates:
  assumes "gfx_wf (gstate c)" and "map_of (surfaces (gstate c)) sid = Some f"
  shows "simulates c (blit c sid (surf_size f) t) \<and> gstate (blit c sid (surf_size f) t) = gstate c"
  unfolding blit_def using assms blits_from_rects [of _ t] by (intro blit_list_simulates) auto

lemma blits_simulate:
  assumes "gfx_wf (gstate c)" and "map_of (surfaces (gstate c)) sid = Some f"
  shows "simulates c (foldl (\<lambda>c t. blit c sid (surf_size f) t) c ts)"
  using assms
proof (induction ts arbitrary: c)
  case (Cons t ts)
  from blit_simulates [OF Cons.prems, of t] Cons.IH [of "blit c sid (surf_size f) t"] Cons.prems
  show ?case by (auto intro: simulates_trans)
qed (simp add: simulates_quiet)

lemma simulates_decoder_state:
  "simulates (c\<lparr>progressive := p\<rparr>) c' \<longleftrightarrow> simulates c c'"
  "simulates (c\<lparr>clear := cl\<rparr>) c' \<longleftrightarrow> simulates c c'"
  "simulates (c\<lparr>h264 := h\<rparr>) c' \<longleftrightarrow> simulates c c'"
  "simulates (c\<lparr>gacks := a\<rparr>) c' \<longleftrightarrow> simulates c c'"
  "simulates (c\<lparr>zgfx := z\<rparr>) c' \<longleftrightarrow> simulates c c'"
  by (simp_all add: simulates_def)

lemma simulates_refl: "gfx_wf (gstate c) \<Longrightarrow> simulates c c"
  by (simp add: simulates_quiet)

lemma avc420_simulates:
  assumes "gfx_wf (gstate c)" and "map_of (surfaces (gstate c)) sid = Some f"
    and "avc420 env c sid (surf_size f) data = (res, c')"
  shows "simulates c c'"
  using assms(3) unfolding avc420_def
proof (rule check_then_cases)
  fix a assume a: "(case a of (rectangles, unit) \<Rightarrow>
      check_then (clip_rects (surf_size f) rectangles) c (\<lambda>regions.
       let (res, h) = env_h264_decode env (h264 c) unit;
           c = c\<lparr>h264 := h\<rparr>
       in check_then (map_err H264 res) c (\<lambda>frame.
            (Inr (), case frame of
               Some f \<Rightarrow> if regions \<noteq> [] then call_sink c (SinkBlitNv12 sid f regions) else c
             | None \<Rightarrow> c)))) = (res, c')"
  obtain rs unit r h where e: "a = (rs, unit)" "env_h264_decode env (h264 c) unit = (r, h)"
    by (metis surj_pair)
  let ?c = "c\<lparr>h264 := h\<rparr>"
  have quiet: "simulates c ?c" using assms(1) by (simp add: simulates_quiet)
  from a e show ?thesis
    by (auto elim!: check_then_cases simp: Let_def quiet simulates_refl assms split: option.splits if_splits
        dest!: clip_rects_all intro!: simulates_call_sink [of ?c, unfolded simulates_decoder_state])
qed (simp add: simulates_refl assms(1))

lemma wire_to_surface_1_simulates:
  assumes "gfx_wf (gstate c)" and "wire_to_surface_1 env c sid codec fmt r data = (res, c')"
  shows "simulates c c'"
  using assms(2) unfolding wire_to_surface_1_def
proof (rule check_then_cases)
  fix f assume f: "gfx_surface (gstate c) sid = Inr f"
    and k: "check_then (gfx_rect r) c (\<lambda>dest.
       let within = ensure_within sid (surf_size f) dest (lit ''destination'');
           draw = (\<lambda>c tile. (Inr (), blit c sid (surf_size f) tile))
       in case codec of
            C1Avc420 \<Rightarrow> avc420 env c sid (surf_size f) data
          | C1Uncompressed \<Rightarrow>
              check_then within c (\<lambda>_.
              check_then (map_err Codec (decode_uncompressed dest
                (case fmt of XRgb \<Rightarrow> Xrgb | ARgb \<Rightarrow> Argb) data)) c (draw c))
          | C1Planar \<Rightarrow>
              check_then within c (\<lambda>_.
              check_then (map_err Codec (decode_planar (env_rdp6 env) dest data)) c (draw c))
          | C1ClearCodec \<Rightarrow>
              check_then within c (\<lambda>_.
                let (res, cl) = ClearCodec_decode (env_clear env) (clear c) dest data;
                    c = c\<lparr>clear := cl\<rparr>
                in check_then (map_err Codec res) c (draw c))
          | _ \<Rightarrow> (Inl (UnsupportedCodec (codec_debug codec)), c)) = (res, c')"
  from f have m: "map_of (surfaces (gstate c)) sid = Some f" by (simp add: gfx_surface_Inr)
  note draw = blit_simulates [OF assms(1) m, THEN conjunct1]
  have draw_clear: "simulates c (blit (c\<lparr>clear := cl\<rparr>) sid (surf_size f) t)" for cl t
    using blit_simulates [of "c\<lparr>clear := cl\<rparr>" sid f t] assms(1) m by (simp add: simulates_decoder_state)
  have quiet: "simulates c (c\<lparr>clear := cl\<rparr>)" for cl using assms(1) by (simp add: simulates_quiet)
  from k simulates_refl [OF assms(1)] show ?thesis
    by (cases codec) (auto elim!: check_then_cases simp: Let_def draw draw_clear quiet
        split: prod.splits intro: avc420_simulates [OF assms(1) m])
qed (simp add: simulates_refl assms(1))

lemma wire_to_surface_2_simulates:
  assumes "gfx_wf (gstate c)" and "wire_to_surface_2 env c sid ctx data = (res, c')"
  shows "simulates c c'"
  using assms(2) unfolding wire_to_surface_2_def
proof (rule check_then_cases)
  fix f assume f: "gfx_surface (gstate c) sid = Inr f"
    and k: "(let (res, p) = prog_decode (env_progressive env) (progressive c) sid ctx (surf_size f) data;
           c = c\<lparr>progressive := p\<rparr>
       in check_then (map_err Codec res) c (\<lambda>tiles.
            (Inr (), foldl (\<lambda>c tile. blit c sid (surf_size f) tile) c tiles))) = (res, c')"
  from f have m: "map_of (surfaces (gstate c)) sid = Some f" by (simp add: gfx_surface_Inr)
  have draw: "simulates c (foldl (\<lambda>c tile. blit c sid (surf_size f) tile) (c\<lparr>progressive := p\<rparr>) ts)" for p ts
    using blits_simulate [of "c\<lparr>progressive := p\<rparr>" sid f ts] assms(1) m by (simp add: simulates_decoder_state)
  from k show ?thesis
    by (auto elim!: check_then_cases simp: Let_def draw simulates_quiet assms(1) split: prod.splits)
qed (simp add: simulates_refl assms(1))

subsection \<open>Every PDU, every payload\<close>

lemma reset_graphics_simulates: "simulates c (reset_graphics env c out)"
  by (rule simulates_call [of _ _ "SinkReset out"])
    (auto simp: reset_graphics_def gfx_reset_def gfx_wf_def renderer_view_def Renderer_init_def split: prod.splits)

lemma create_surface_simulates:
  assumes "gfx_wf (gstate c)" and "handle_pdu env c (CreateSurface sid w h fmt) = (res, c')"
  shows "simulates c c'"
proof -
  have sz: "unat (ucast w :: u32) < 2 ^ 16" "unat (ucast h :: u32) < 2 ^ 16" for w h :: u16
    using unsigned_less [of w, where 'a = nat] unsigned_less [of h, where 'a = nat] by (simp_all add: word_ops)
  from assms(2) show ?thesis
    unfolding handle_pdu.simps Let_def
  proof (rule check_then_cases)
    fix st assume cr: "gfx_create (gstate c) sid (Size_new (ucast w) (ucast h)) fmt = Inr st"
      and r: "(Inr (), call_sink (c\<lparr>gstate := st,
        progressive := prog_delete_surface (env_progressive env) (progressive c) sid\<rparr>)
          (SinkCreateSurface sid (Size_new (ucast w) (ucast h)))) = (res, c')"
    have "gfx_wf st" using gfx_wf_create [OF cr assms(1)] sz by simp
    moreover have "surface_ok (Size_new (ucast w) (ucast h))"
      using cr sz by (auto simp: gfx_create_Inr surface_ok_def unat_gt_0)
    ultimately show ?thesis
      using r cr by (intro simulates_call [of _ _ "SinkCreateSurface sid (Size_new (ucast w) (ucast h))"])
        (auto simp: gfx_create_Inr renderer_view_def)
  qed (simp add: simulates_refl assms(1))
qed

lemma delete_surface_simulates:
  assumes "gfx_wf (gstate c)" and "handle_pdu env c (DeleteSurface sid) = (res, c')"
  shows "simulates c c'"
proof -
  obtain d st where ds: "gfx_delete (gstate c) sid = (d, st)" by fastforce
  note wf = gfx_wf_delete [OF ds assms(1)]
  show ?thesis
  proof (cases d)
    case True
    with assms(2) ds wf show ?thesis
      by (intro simulates_call [of _ _ "SinkDeleteSurface sid"])
        (auto simp: gfx_delete_def om_contains_def renderer_view_def)
  next
    case False
    with ds have "map_of (surfaces (gstate c)) sid = None" "map_of (surfaces st) sid = None"
      "\<And>x. map_of (surfaces st) x = map_of (surfaces (gstate c)) x" "cache st = cache (gstate c)"
      by (auto simp: gfx_delete_def om_contains_def)
    with assms(2) ds wf False show ?thesis by (auto simp: simulates_def renderer_view_def)
  qed
qed

lemma evict_simulates:
  assumes "gfx_wf (gstate c)" and "handle_pdu env c (EvictCacheEntry slot) = (res, c')"
  shows "simulates c c'"
  using assms(2) unfolding handle_pdu.simps
proof (rule check_then_cases)
  fix a assume ev: "cache_evict (gstate c) slot = Inr a"
    and k: "(case a of (held, st) \<Rightarrow>
       (Inr (), if held then call_sink (c\<lparr>gstate := st\<rparr>) (SinkEvictCache slot) else c\<lparr>gstate := st\<rparr>)) = (res, c')"
  obtain d st where a: "a = (d, st)" by fastforce
  note wf = gfx_wf_evict [OF ev [unfolded a] assms(1)]
  show ?thesis
  proof (cases d)
    case True
    with ev k a wf show ?thesis
      by (intro simulates_call [of _ _ "SinkEvictCache slot"]) (auto simp: cache_evict_Inr renderer_view_def)
  next
    case False
    with ev k a wf show ?thesis
      by (auto simp: simulates_def renderer_view_def cache_evict_Inr fun_eq_iff)
  qed
qed (simp add: simulates_refl assms(1))

lemma handle_pdu_simulates:
  assumes "gfx_wf (gstate c)" and "handle_pdu env c pdu = (res, c')"
  shows "simulates c c'"
proof (cases pdu)
  case (ResetGraphics w h)
  with assms reset_graphics_simulates show ?thesis by auto
next
  case (CreateSurface sid w h fmt)
  with assms create_surface_simulates show ?thesis by blast
next
  case (DeleteSurface sid)
  with assms delete_surface_simulates show ?thesis by blast
next
  case (EvictCacheEntry slot)
  with assms evict_simulates show ?thesis by blast
next
  case (PduEndFrame fid)
  with assms show ?thesis
    by (auto simp: frame_ended_def intro!: simulates_call [of _ _ "SinkEndFrame fid fid"])
next
  case (SolidFill sid pixel rs)
  with assms solid_fill_simulates show ?thesis by auto
next
  case (SurfaceToSurface src dst r ps)
  with assms surface_to_surface_simulates show ?thesis by auto
next
  case (SurfaceToCache sid slot r)
  with assms surface_to_cache_simulates show ?thesis by auto
next
  case (CacheToSurface slot sid ps)
  with assms cache_to_surface_simulates show ?thesis by auto
next
  case (WireToSurface1 sid codec fmt r data)
  with assms wire_to_surface_1_simulates show ?thesis by auto
next
  case (WireToSurface2 sid ctx data)
  with assms wire_to_surface_2_simulates show ?thesis by auto
qed (use assms in \<open>auto elim!: check_then_cases simp: simulates_quiet gfx_surface_Inr intro!: simulates_call_sink\<close>)

end
