(* ===== verification/Gfx_Session.thy ===== *)
theory Gfx_Session
  imports Gfx_Renderer
begin

text \<open>
  Whole graphics sessions: payloads, visibility changes, presentations and drained
  acknowledgements in any order. The client is an instance of \<open>traced_producer\<close>; the framing of
  \<open>process_pdus\<close> is related to a list of separately framed PDUs; failures leave the renderer alone.
\<close>

subsection \<open>Failures\<close>

definition same_drawing :: "('p, 'h, 'c, 'z, 'cap, 'f) GfxClient \<Rightarrow> ('p, 'h, 'c, 'z, 'cap, 'f) GfxClient \<Rightarrow> bool" where
  "same_drawing c c' \<longleftrightarrow> sink c' = sink c \<and> gstate c' = gstate c \<and> gacks c' = gacks c \<and>
     confirmed c' = confirmed c \<and> output_size c' = output_size c"

lemma same_drawing_refl [simp]: "same_drawing c c"
  by (simp add: same_drawing_def)

lemma same_drawing_decoders [simp]:
  "same_drawing c (c\<lparr>progressive := p\<rparr>)" "same_drawing c (c\<lparr>clear := cl\<rparr>)" "same_drawing c (c\<lparr>h264 := h\<rparr>)"
  by (simp_all add: same_drawing_def)

lemma avc420_error: "avc420 env c sid b data = (Inl e, c') \<Longrightarrow> same_drawing c c'"
  unfolding avc420_def by (auto elim!: check_then_cases simp: Let_def split: prod.splits)

lemma wire_to_surface_1_error: "wire_to_surface_1 env c sid codec fmt r data = (Inl e, c') \<Longrightarrow> same_drawing c c'"
  unfolding wire_to_surface_1_def
  by (cases codec) (auto elim!: check_then_cases simp: Let_def avc420_error split: prod.splits)

lemma wire_to_surface_2_error: "wire_to_surface_2 env c sid ctx data = (Inl e, c') \<Longrightarrow> same_drawing c c'"
  unfolding wire_to_surface_2_def by (auto elim!: check_then_cases simp: Let_def split: prod.splits)

lemma handle_pdu_error:
  assumes "handle_pdu env c pdu = (Inl e, c')"
  shows "same_drawing c c'"
proof (cases pdu)
  case (SolidFill sid pixel rs)
  with assms show ?thesis by (auto simp: solid_fill_def Let_def elim!: check_then_cases)
next
  case (SurfaceToSurface src dst r ps)
  with assms show ?thesis by (auto simp: surface_to_surface_def elim!: check_then_cases)
next
  case (SurfaceToCache sid slot r)
  with assms show ?thesis by (auto simp: surface_to_cache_def elim!: check_then_cases)
next
  case (CacheToSurface slot sid ps)
  with assms show ?thesis by (auto simp: cache_to_surface_def elim!: check_then_cases)
next
  case (WireToSurface1 sid codec fmt r data)
  with assms wire_to_surface_1_error show ?thesis by auto
next
  case (WireToSurface2 sid ctx data)
  with assms wire_to_surface_2_error show ?thesis by auto
qed (use assms in \<open>auto elim!: check_then_cases simp: Let_def split: prod.splits\<close>)

subsection \<open>Frames handed to the sink\<close>

text \<open>The acknowledgement state changes with a PDU exactly when it ends a frame.\<close>

fun end_frame_ids :: "'f SinkOp list \<Rightarrow> u32 list" where
  "end_frame_ids [] = []"
| "end_frame_ids (SinkEndFrame fid cb # ops) = fid # end_frame_ids ops"
| "end_frame_ids (op # ops) = end_frame_ids ops"

lemma end_frame_ids_append [simp]: "end_frame_ids (xs @ ys) = end_frame_ids xs @ end_frame_ids ys"
  by (induction xs rule: end_frame_ids.induct) auto

definition frames_counted :: "('p, 'h, 'c, 'z, 'cap, 'f) GfxClient \<Rightarrow> bool" where
  "frames_counted c \<longleftrightarrow> total_decoded (gacks c) = of_nat (length (end_frame_ids (sink c)))"

definition same_frames :: "('p, 'h, 'c, 'z, 'cap, 'f) GfxClient \<Rightarrow> ('p, 'h, 'c, 'z, 'cap, 'f) GfxClient \<Rightarrow> bool" where
  "same_frames c c' \<longleftrightarrow> gacks c' = gacks c \<and> end_frame_ids (sink c') = end_frame_ids (sink c)"

lemma same_frames_refl [simp]: "same_frames c c"
  by (simp add: same_frames_def)

lemma same_frames_trans: "same_frames c c' \<Longrightarrow> same_frames c' c'' \<Longrightarrow> same_frames c c''"
  by (simp add: same_frames_def)

lemma same_frames_blit_list:
  "same_frames c (foldl (\<lambda>c b. if P b then call_sink c (SinkBlitBgra sid (r b) (st b) (d b)) else c) c bs)"
  by (induction bs rule: rev_induct) (auto simp: same_frames_def)

lemma same_frames_blit: "same_frames c (blit c sid b t)"
  unfolding blit_def by (rule same_frames_blit_list)

lemma same_frames_blits: "same_frames c (foldl (\<lambda>c t. blit c sid b t) c ts)"
  by (induction ts rule: rev_induct) (auto intro: same_frames_trans same_frames_blit)

lemma same_frames_decoders:
  "same_frames (c\<lparr>progressive := p\<rparr>) c' = same_frames c c'" "same_frames (c\<lparr>clear := cl\<rparr>) c' = same_frames c c'"
  "same_frames (c\<lparr>h264 := h\<rparr>) c' = same_frames c c'"
  by (simp_all add: same_frames_def)

lemma same_frames_set [simp]:
  "same_frames c (c\<lparr>progressive := p\<rparr>)" "same_frames c (c\<lparr>clear := cl\<rparr>)" "same_frames c (c\<lparr>h264 := h\<rparr>)"
  "same_frames c (c\<lparr>gstate := st\<rparr>)" "same_frames c (c\<lparr>confirmed := cf\<rparr>)"
  by (simp_all add: same_frames_def)

lemma avc420_frames: "avc420 env c sid b data = (res, c') \<Longrightarrow> same_frames c c'"
  unfolding avc420_def
  by (auto elim!: check_then_cases simp: Let_def same_frames_def split: prod.splits option.splits if_splits)

lemma wire_to_surface_1_frames:
  assumes "wire_to_surface_1 env c sid codec fmt r data = (res, c')"
  shows "same_frames c c'"
proof -
  have "same_frames c (blit (c\<lparr>clear := cl\<rparr>) sid b t)" for cl b t
    using same_frames_blit [of "c\<lparr>clear := cl\<rparr>"] by (simp add: same_frames_decoders)
  with assms show ?thesis
    unfolding wire_to_surface_1_def
    by (cases codec) (auto elim!: check_then_cases simp: Let_def avc420_frames same_frames_blit split: prod.splits)
qed

lemma wire_to_surface_2_frames:
  assumes "wire_to_surface_2 env c sid ctx data = (res, c')"
  shows "same_frames c c'"
proof -
  have "same_frames c (foldl (\<lambda>c t. blit c sid b t) (c\<lparr>progressive := p\<rparr>) ts)" for p b ts
    using same_frames_blits [of "c\<lparr>progressive := p\<rparr>"] by (simp add: same_frames_decoders)
  with assms show ?thesis
    unfolding wire_to_surface_2_def by (auto elim!: check_then_cases simp: Let_def split: prod.splits)
qed

lemma handle_pdu_frames:
  assumes "handle_pdu env c pdu = (res, c')"
  shows "(if \<exists>fid. pdu = PduEndFrame fid
      then \<exists>fid. pdu = PduEndFrame fid \<and> gacks c' = snd (frame_ended (gacks c) fid) \<and>
        end_frame_ids (sink c') = end_frame_ids (sink c) @ [fid]
      else same_frames c c')"
proof (cases pdu)
  case (PduEndFrame fid)
  with assms show ?thesis by (auto simp: frame_ended_def)
next
  case (SolidFill sid pixel rs)
  with assms show ?thesis by (auto simp: solid_fill_def Let_def same_frames_def elim!: check_then_cases)
next
  case (SurfaceToSurface src dst r ps)
  with assms show ?thesis by (auto simp: surface_to_surface_def same_frames_def elim!: check_then_cases)
next
  case (SurfaceToCache sid slot r)
  with assms show ?thesis by (auto simp: surface_to_cache_def same_frames_def elim!: check_then_cases)
next
  case (CacheToSurface slot sid ps)
  with assms show ?thesis by (auto simp: cache_to_surface_def same_frames_def elim!: check_then_cases)
next
  case (WireToSurface1 sid codec fmt r data)
  with assms wire_to_surface_1_frames show ?thesis by auto
next
  case (WireToSurface2 sid ctx data)
  with assms wire_to_surface_2_frames show ?thesis by auto
next
  case (ResetGraphics w h)
  with assms show ?thesis by (auto simp: reset_graphics_def same_frames_def split: prod.splits)
qed (use assms in \<open>auto elim!: check_then_cases simp: Let_def same_frames_def split: prod.splits if_splits\<close>)

lemma handle_pdu_counted:
  assumes "handle_pdu env c pdu = (res, c')" and "frames_counted c"
  shows "frames_counted c'"
  using handle_pdu_frames [OF assms(1)] assms(2)
  by (auto simp: frames_counted_def same_frames_def frame_ended_def split: if_splits)

subsection \<open>Payloads\<close>

text \<open>One turn of the loop.\<close>

lemma process_pdus_cases:
  assumes "process_pdus env c data = (res, c')"
  obtains (finished) "data = []" "res = Inr ()" "c' = c"
        | (bad) e where "data \<noteq> []" "res = Inl (Decode e)" "c' = c"
        | (failed) len pdu e where "data \<noteq> []" "pdu_length data = Some len" "GFX_HEADER_SIZE \<le> len"
            "len \<le> length data" "env_pdu env (take len data) = Inr pdu" "handle_pdu env c pdu = (Inl e, c')"
            "res = Inl e"
        | (handled) len pdu c1 where "data \<noteq> []" "pdu_length data = Some len" "GFX_HEADER_SIZE \<le> len"
            "len \<le> length data" "env_pdu env (take len data) = Inr pdu" "handle_pdu env c pdu = (Inr (), c1)"
            "process_pdus env c1 (drop len data) = (res, c')"
  using assms
  by (subst (asm) process_pdus.simps)
    (auto simp: not_less split: if_splits option.splits sum.splits prod.splits)

lemma process_pdus_rel:
  assumes "process_pdus env c data = (res, c')" and "P c"
    and refl: "\<And>c. P c \<Longrightarrow> R c c"
    and trans: "\<And>c1 c2 c3. R c1 c2 \<Longrightarrow> R c2 c3 \<Longrightarrow> R c1 c3"
    and step: "\<And>c pdu r c'. P c \<Longrightarrow> handle_pdu env c pdu = (r, c') \<Longrightarrow> R c c' \<and> P c'"
  shows "R c c' \<and> P c'"
  using assms(1,2)
proof (induction "length data" arbitrary: c data rule: less_induct)
  case less
  from less.prems(1) show ?case
  proof (cases rule: process_pdus_cases)
    case (handled len pdu c1)
    then have "length (drop len data) < length data" by (simp add: GFX_HEADER_SIZE_def)
    from less.hyps [OF this handled(7)] step [OF less.prems(2) handled(6)] show ?thesis
      by (blast intro: trans)
  qed (use less.prems(2) refl step in blast)+
qed

lemma process_pdus_simulates:
  assumes "process_pdus env c data = (res, c')" and "gfx_wf (gstate c)"
  shows "simulates c c'"
proof -
  have st: "simulates c1 c2 \<and> gfx_wf (gstate c2)" if "gfx_wf (gstate c1)" "handle_pdu env c1 pdu = (r, c2)" for c1 pdu r c2
    using handle_pdu_simulates [OF that] by (simp add: simulates_def)
  from process_pdus_rel [where P = "\<lambda>c. gfx_wf (gstate c)" and R = simulates, OF assms]
  show ?thesis using simulates_refl simulates_trans st by blast
qed

lemma process_pdus_counted:
  assumes "process_pdus env c data = (res, c')" and "frames_counted c"
  shows "frames_counted c'"
  using process_pdus_rel [where P = frames_counted and R = "\<lambda>_ _. True", OF assms] handle_pdu_counted by blast

lemma process_payload_simulates:
  assumes "process_payload env c payload = (res, c')" and "gfx_wf (gstate c)"
  shows "simulates c c'"
proof -
  obtain r z where "env_zgfx env (zgfx c) payload = (r, z)" by fastforce
  with assms show ?thesis
    using process_pdus_simulates [of env "c\<lparr>zgfx := z\<rparr>"]
    by (auto simp: process_payload_def Let_def simulates_decoder_state simulates_quiet split: sum.splits)
qed

lemma process_payload_counted:
  assumes "process_payload env c payload = (res, c')" and "frames_counted c"
  shows "frames_counted c'"
proof -
  obtain r z where "env_zgfx env (zgfx c) payload = (r, z)" by fastforce
  moreover have "frames_counted (c\<lparr>zgfx := z\<rparr>)" using assms(2) by (simp add: frames_counted_def)
  ultimately show ?thesis
    using assms(1) process_pdus_counted [of env "c\<lparr>zgfx := z\<rparr>"]
    by (auto simp: process_payload_def Let_def split: sum.splits)
qed

subsection \<open>Framing\<close>

text \<open>A payload seen as a list of PDUs, each exactly as long as its header says.\<close>

definition well_framed :: "u8 list \<Rightarrow> bool" where
  "well_framed bs \<longleftrightarrow> GFX_HEADER_SIZE \<le> length bs \<and> pdu_length bs = Some (length bs)"

fun apply_frames ::
    "('p, 'h, 'c, 'z, 'cap, 'f) gfx_env \<Rightarrow> ('p, 'h, 'c, 'z, 'cap, 'f) GfxClient \<Rightarrow> u8 list list \<Rightarrow>
      ('p, 'h, 'c, 'z, 'cap, 'f) outcome" where
  "apply_frames env c [] = (Inr (), c)"
| "apply_frames env c (bs # bss) =
     (case env_pdu env bs of
        Inl e \<Rightarrow> (Inl (Decode e), c)
      | Inr pdu \<Rightarrow>
          (case handle_pdu env c pdu of
             (Inl e, c') \<Rightarrow> (Inl e, c')
           | (Inr _, c') \<Rightarrow> apply_frames env c' bss))"

lemma pdu_length_append: "GFX_HEADER_SIZE \<le> length bs \<Longrightarrow> pdu_length (bs @ rest) = pdu_length bs"
  by (auto simp: pdu_length_def GFX_HEADER_SIZE_def nth_append)

lemma pdu_length_take:
  "GFX_HEADER_SIZE \<le> len \<Longrightarrow> len \<le> length data \<Longrightarrow> pdu_length (take len data) = pdu_length data"
  by (auto simp: pdu_length_def GFX_HEADER_SIZE_def)

lemma process_pdus_frames:
  "\<forall>bs \<in> set bss. well_framed bs \<Longrightarrow> process_pdus env c (concat bss) = apply_frames env c bss"
proof (induction bss arbitrary: c)
  case (Cons bs bss)
  then have w: "GFX_HEADER_SIZE \<le> length bs" "pdu_length bs = Some (length bs)" by (auto simp: well_framed_def)
  then have "bs @ concat bss \<noteq> []" by (auto simp: GFX_HEADER_SIZE_def)
  with w Cons show ?case
    by (subst process_pdus.simps) (auto simp: pdu_length_append split: sum.splits prod.splits)
qed (simp add: process_pdus.simps)

lemma process_pdus_split:
  assumes "process_pdus env c data = (Inr u, c')"
  shows "\<exists>bss. data = concat bss \<and> (\<forall>bs \<in> set bss. well_framed bs)"
  using assms
proof (induction "length data" arbitrary: c data rule: less_induct)
  case less
  from less.prems show ?case
  proof (cases rule: process_pdus_cases)
    case finished
    then show ?thesis by (intro exI [of _ "[]"]) simp
  next
    case (handled len pdu c1)
    then have "length (drop len data) < length data" by (simp add: GFX_HEADER_SIZE_def)
    from less.hyps [OF this handled(7)] obtain bss where
      "drop len data = concat bss" "\<forall>bs \<in> set bss. well_framed bs" by blast
    moreover have "well_framed (take len data)"
      using handled by (simp add: well_framed_def pdu_length_take)
    moreover from calculation(1) have "data = concat (take len data # bss)"
      by (metis append_take_drop_id concat.simps(2))
    ultimately show ?thesis
      by (intro exI [of _ "take len data # bss"]) auto
  qed auto
qed

subsection \<open>Sessions\<close>

datatype ClientEvent = EvPayload "u8 list" | EvVisible bool | EvPresented u32 | EvDrainAcks

fun client_step ::
    "('p, 'h, 'c, 'z, 'cap, 'f) gfx_env \<Rightarrow> ('p, 'h, 'c, 'z, 'cap, 'f) GfxClient \<Rightarrow> ClientEvent \<Rightarrow>
      ('p, 'h, 'c, 'z, 'cap, 'f) GfxClient" where
  "client_step env c (EvPayload bytes) = snd (channel_process env c bytes)"
| "client_step env c (EvVisible v) = client_set_visible c v"
| "client_step env c (EvPresented cb) = c\<lparr>gacks := snd (presented (gacks c) cb)\<rparr>"
| "client_step env c EvDrainAcks = c\<lparr>gacks := snd (drain (gacks c))\<rparr>"

lemma channel_process_state:
  "\<exists>res c1 a e. process_payload env c bytes = (res, c1) \<and>
     snd (channel_process env c bytes) = c1\<lparr>gacks := a, last_error := e\<rparr> \<and>
     total_decoded a = total_decoded (gacks c1)"
proof -
  obtain res c1 where p: "process_payload env c bytes = (res, c1)" by fastforce
  have id: "c1\<lparr>gacks := gacks c1, last_error := Some e\<rparr> = c1\<lparr>last_error := Some e\<rparr>"
    "c1\<lparr>gacks := a, last_error := last_error c1\<rparr> = c1\<lparr>gacks := a\<rparr>" for e a by simp_all
  show ?thesis
  proof (cases res)
    case (Inl e)
    with p id(1) [of e] show ?thesis
      by (intro exI [of _ res] exI [of _ c1] exI [of _ "gacks c1"] exI [of _ "Some e"])
        (simp add: channel_process_def)
  next
    case (Inr u)
    with p id(2) show ?thesis
      by (intro exI [of _ res] exI [of _ c1] exI [of _ "snd (drain (gacks c1))"] exI [of _ "last_error c1"])
        (simp add: channel_process_def drain_def)
  qed
qed

lemma client_step_simulates:
  assumes "gfx_wf (gstate c)"
  shows "simulates c (client_step env c e)"
proof (cases e)
  case (EvPayload bytes)
  from channel_process_state [of env c bytes] obtain res c1 a er where
    "process_payload env c bytes = (res, c1)"
    "snd (channel_process env c bytes) = c1\<lparr>gacks := a, last_error := er\<rparr>" by blast
  with process_payload_simulates [OF _ assms] EvPayload show ?thesis by (auto simp: simulates_def)
next
  case (EvVisible v)
  with assms show ?thesis
    by (auto simp: client_set_visible_def intro!: simulates_call [of _ _ "SinkSetVisible v"])
qed (use assms in \<open>simp_all add: simulates_quiet\<close>)

lemma client_step_counted:
  assumes "frames_counted c"
  shows "frames_counted (client_step env c e)"
proof (cases e)
  case (EvPayload bytes)
  from channel_process_state [of env c bytes] obtain res c1 a er where
    "process_payload env c bytes = (res, c1)"
    "snd (channel_process env c bytes) = c1\<lparr>gacks := a, last_error := er\<rparr>"
    "total_decoded a = total_decoded (gacks c1)" by blast
  with process_payload_counted [OF _ assms] EvPayload show ?thesis by (auto simp: frames_counted_def)
qed (use assms in \<open>simp_all add: frames_counted_def client_set_visible_def presented_frame drain_def\<close>)

lemma client_steps_counted: "frames_counted c \<Longrightarrow> frames_counted (foldl (client_step env) c es)"
  by (induction es arbitrary: c) (auto intro: client_step_counted)

interpretation gfx: traced_producer sink "renderer_view \<circ> gstate" "gfx_wf \<circ> gstate" sink_ok sink_apply sink_run
    "client_step env" for env
proof unfold_locales
  fix s :: "('a, 'b, 'c, 'd, 'e, 'f) GfxClient" and e
  assume "(gfx_wf \<circ> gstate) s"
  with client_step_simulates [of s env e] show "(gfx_wf \<circ> gstate) (client_step env s e)"
    "\<exists>ops. sink (client_step env s e) = sink s @ ops \<and>
      sink_run ((renderer_view \<circ> gstate) s) ops = Some ((renderer_view \<circ> gstate) (client_step env s e))"
    by (auto simp: simulates_def)
qed simp_all

text \<open>A session from a new client on.\<close>

definition gfx_session ::
    "('p, 'h, 'c, 'z, 'cap, 'f) gfx_env \<Rightarrow> 'h \<Rightarrow> 'p \<Rightarrow> 'z \<Rightarrow> ClientEvent list \<Rightarrow>
      ('p, 'h, 'c, 'z, 'cap, 'f) GfxClient" where
  "gfx_session env h p z es = foldl (client_step env) (GfxClient_new h p z) es"

lemma new_client [simp]:
  "sink (GfxClient_new h p z) = []" "gstate (GfxClient_new h p z) = GfxState_default"
  "gacks (GfxClient_new h p z) = AckState_default"
  by (simp_all add: GfxClient_new_def)

lemma renderer_view_default [simp]: "renderer_view GfxState_default = Renderer_init"
  by (simp add: renderer_view_def GfxState_default_def Renderer_init_def)

lemma gfx_session_trace:
  "sink_run Renderer_init (sink (gfx_session env h p z es)) = Some (renderer_view (gstate (gfx_session env h p z es)))"
proof -
  have "(gfx_wf \<circ> gstate) (GfxClient_new h p z)" by simp
  from gfx.steps_trace [OF this, of env es] show ?thesis by (auto simp: gfx_session_def)
qed

lemma gfx_session_counted: "frames_counted (gfx_session env h p z es)"
  unfolding gfx_session_def
  by (rule client_steps_counted) (simp add: frames_counted_def AckState_default_def)

text \<open>Every surface of a renderer reached by allowed calls has the wire's 16-bit dimensions.\<close>

lemma sink_run_surfaces:
  "sink_run v ops = Some w \<Longrightarrow> (\<And>sid sz. r_surfaces v sid = Some sz \<Longrightarrow> surface_ok sz) \<Longrightarrow>
     r_surfaces w sid = Some sz \<Longrightarrow> surface_ok sz"
proof (induction ops arbitrary: v)
  case (Cons op ops)
  from Cons.prems(1) have ok: "sink_ok v op" and r: "sink_run (sink_apply v op) ops = Some w"
    by (auto split: if_splits)
  have "surface_ok b" if "r_surfaces (sink_apply v op) s = Some b" for s b
    using that ok Cons.prems(2) by (cases op) (auto simp: Renderer_init_def split: if_splits)
  from Cons.IH [OF r this Cons.prems(3)] show ?case .
qed simp

lemma inside_covers:
  assumes "inside (Some sz) r" and "surface_ok sz" and "covers r px py"
  shows "in_bounds sz px py"
  using assms fits_within_covers [of r sz px py] by (auto simp: surface_ok_def)

end
