(* ===== verification/Gfx_Theorems.thy ===== *)
theory Gfx_Theorems
  imports Gfx_Session
begin

text \<open>
  The properties of \<open>drift-gfx\<close> and of the tile codecs of \<open>drift-codec\<close>: drawing, the calls on the
  frame sink, framing and acknowledgements.
\<close>

subsection \<open>A concrete environment\<close>

text \<open>
  The witnesses run the client with decoders that accept everything: an identity ZGFX, a codec state
  of type unit, and a PDU decoder that maps the first byte to a command.
\<close>

definition demo_env :: "(unit, unit, unit, unit, unit, unit) gfx_env" where
  "demo_env =
     \<lparr>env_progressive = \<lparr>prog_begin_frame = \<lambda>p. p, prog_end_frame = \<lambda>p. p, prog_delete_surface = \<lambda>p _. p,
        prog_delete_context = \<lambda>p _ _. p, prog_reset = \<lambda>p. p, prog_decode = \<lambda>p _ _ _ _. (Inr [], p)\<rparr>,
      env_clear = \<lparr>clear_fresh = (), clear_decode = \<lambda>c _ w h. (Inr (replicate (unat w * unat h * 4) 0), c)\<rparr>,
      env_rdp6 = \<lambda>_ w h. Inr (replicate (w * h * 3) 0),
      env_h264_decode = \<lambda>h _. (Inr (Some ()), h), env_h264_reset = \<lambda>h. h,
      env_zgfx = \<lambda>z bytes. (Inr bytes, z),
      env_pdu = \<lambda>bytes.
        if bytes ! 0 = 0 then Inr (CreateSurface 1 16 8 XRgb)
        else if bytes ! 0 = 1
        then Inr (WireToSurface1 1 C1Uncompressed XRgb
          \<lparr>ex_left = 0, ex_top = 0, ex_right = 1, ex_bottom = 1\<rparr> [1, 2, 3, 4])
        else Inr (PduEndFrame (ucast (bytes ! 0))),
      env_caps = \<lambda>_. Inr None, env_avc420 = \<lambda>_. Inr ([], [])\<rparr>"

subsection \<open>Tiles\<close>

text \<open>Drawing a tile into a tightly packed surface buffer never indexes out of range, and afterwards a
  byte of the surface is the tile's byte exactly where an update rectangle (one inside the tile) covers
  its pixel; everything else is unchanged.\<close>

theorem blit_into_correct:
  assumes "length dst = unat (height surface) * (unat (width surface) * BPP)"
  shows "\<exists>dst'. blit_into t surface dst = Some dst' \<and> length dst' = length dst \<and>
    (\<forall>y c. y < unat (height surface) \<longrightarrow> c < unat (width surface) * BPP \<longrightarrow>
      dst' ! (y * (unat (width surface) * BPP) + c) =
        (if \<exists>r \<in> set (update_rects t). blit_of t r \<noteq> None \<and> covers r (c div BPP) y then tile_byte t y c
         else dst ! (y * (unat (width surface) * BPP) + c)))"
  using blit_into_spec [OF assms] .

theorem blit_into_correct_witness:
  "\<exists>dst'. blit_into (tile_full (Rect_new 1 0 1 1) [1, 2, 3, 4]) (Size_new 2 1) (replicate 8 9) = Some dst' \<and>
     length dst' = 8"
  using blit_into_correct [of "replicate 8 9" "Size_new 2 1" "tile_full (Rect_new 1 0 1 1) [1, 2, 3, 4]"]
  by (auto simp: BPP_def)

text \<open>Whatever the bytes and whatever the entropy decoders return, the uncompressed, planar and
  ClearCodec decoders either fail or return a tile that covers exactly the destination rectangle, is at
  most \<open>2 ^ 27\<close> bytes long and is drawn by one blit over its whole buffer.\<close>

theorem decoders_fill_destination:
  assumes "decode_uncompressed dest fmt data = Inr t \<or> decode_planar rdp6 dest data = Inr t \<or>
    fst (ClearCodec_decode cd c dest data) = Inr t"
  shows "covers_dest t dest \<and> length (tile_data t) \<le> 2 ^ 27 \<and>
    blits t = [\<lparr>blit_rect = dest, blit_stride = unat (rect_width dest) * BPP, blit_data = tile_data t\<rparr>]"
proof -
  have "covers_dest t dest"
    using assms decode_uncompressed_Inr decode_planar_Inr ClearCodec_decode_Inr by (metis prod.collapse)
  then show ?thesis using tile_offsets covers_dest_blits by blast
qed

theorem decoders_fill_destination_witness:
  "covers_dest (tile_full (Rect_new 0 0 1 1) [1, 2, 3, 0xFF]) (Rect_new 0 0 1 1)"
proof -
  have "decode_uncompressed (Rect_new 0 0 1 1) Xrgb [1, 2, 3, 4] = Inr (tile_full (Rect_new 0 0 1 1) [1, 2, 3, 0xFF])"
    by (simp add: decode_uncompressed_def validate_dest_def Rect_new_def u16_try_from_def BPP_def MAX_DEST_PIXELS_def)
  then show ?thesis using decoders_fill_destination by blast
qed

text \<open>Clipping a rectangle to a surface keeps exactly its pixels on the surface, and yields nothing
  only when there are none.\<close>

theorem clip_exact:
  "case clip r b of
     None \<Rightarrow> \<not> (\<exists>px py. covers r px py \<and> in_bounds b px py)
   | Some q \<Rightarrow> fits_within q b \<and> \<not> rect_is_empty q \<and>
       (\<forall>px py. covers q px py = (covers r px py \<and> in_bounds b px py))"
  using clip_Some clip_pixels clip_None_pixels by (cases "clip r b") auto

subsection \<open>The calls on the frame sink\<close>

text \<open>C1: In any session, from a new client on, every call the client makes on the frame sink is one the
  sink may be given (surfaces exist, rectangles lie on them, cache slots are in range and occupied, pixel
  data is long enough), and the client's tables agree with the renderer that has executed the calls.\<close>

theorem sink_calls_valid:
  "sink_run Renderer_init (sink (gfx_session env h p z es)) =
     Some (renderer_view (gstate (gfx_session env h p z es)))"
  by (rule gfx_session_trace)

text \<open>C31: When the client blits decoded pixels in a session, the surface exists at that moment, every pixel
  of the rectangle lies on it, and the data holds every row of the rectangle.\<close>

theorem blits_stay_on_surface:
  assumes "sink (gfx_session env h p z es) = ops @ SinkBlitBgra sid r stride data # rest"
  shows "\<exists>v sz. sink_run Renderer_init ops = Some v \<and> r_surfaces v sid = Some sz \<and>
    (\<forall>px py. covers r px py \<longrightarrow> in_bounds sz px py) \<and>
    (unat (rect_height r) - 1) * stride + unat (rect_width r) * BPP \<le> length data"
proof -
  let ?op = "SinkBlitBgra sid r stride data"
  have "sink_run Renderer_init (ops @ ?op # rest) \<noteq> None"
    using gfx_session_trace [of env h p z es] assms by simp
  then have "\<exists>v. sink_run Renderer_init ops = Some v \<and> sink_ok v ?op"
    by (cases "sink_run Renderer_init ops") (auto simp: sink_run_append split: if_splits)
  then obtain v where v: "sink_run Renderer_init ops = Some v" "sink_ok v ?op" by blast
  then obtain sz where sz: "r_surfaces v sid = Some sz" by (auto simp: inside_def split: option.splits)
  have "surface_ok sz"
    by (rule sink_run_surfaces [OF v(1) _ sz]) (simp add: Renderer_init_def)
  with v sz inside_covers [of sz r] show ?thesis by auto
qed

theorem blits_stay_on_surface_witness:
  "\<exists>v sz. sink_run Renderer_init [SinkCreateSurface 1 (Size_new 16 8) :: unit SinkOp] = Some v \<and>
     r_surfaces v 1 = Some sz \<and> in_bounds sz 0 0"
proof -
  let ?es = "[EvPayload [0, 0, 0, 0, 8, 0, 0, 0], EvPayload [1, 0, 0, 0, 8, 0, 0, 0]]"
  have "sink (gfx_session demo_env () () () ?es) =
      [SinkCreateSurface 1 (Size_new 16 8)] @ SinkBlitBgra 1 (Rect_new 0 0 1 1) 4 [1, 2, 3, 255] # []"
    by (simp add: gfx_session_def channel_process_def process_payload_def demo_env_def process_pdus.simps
        pdu_length_def GFX_HEADER_SIZE_def GfxClient_new_def gfx_create_def GfxState_default_def
        om_contains_def call_sink_def drain_def AckState_default_def wire_to_surface_1_def gfx_surface_def
        gfx_rect_def from_ltrb_def checked_sub_def ensure_within_def fits_within_def right_def bottom_def
        saturating_add_def decode_uncompressed_def validate_dest_def u16_try_from_def BPP_def
        MAX_DEST_PIXELS_def map_err_def check_then_def Let_def blit_def tile_full_def blits_def blit_of_def
        map_filter_simps rect_is_empty_def contains_def footprint_def Rect_new_def Point_new_def
        rect_size_def Size_new_def tile_stride_def)
  from blits_stay_on_surface [OF this] have "\<exists>v sz. sink_run Renderer_init [SinkCreateSurface 1 (Size_new 16 8) :: unit SinkOp] = Some v \<and>
     r_surfaces v 1 = Some sz \<and> (covers (Rect_new 0 0 1 1) 0 0 \<longrightarrow> in_bounds sz 0 0)" by blast
  moreover have "covers (Rect_new 0 0 1 1) 0 0" by (simp add: covers_def Rect_new_def)
  ultimately show ?thesis by simp
qed

text \<open>C34: A PDU that fails changes nothing the renderer or the server can see: no call on the sink, no
  change of the surface and cache tables, of the acknowledgements or of the output size.\<close>

theorem failing_pdu_draws_nothing:
  assumes "handle_pdu env c pdu = (Inl e, c')"
  shows "sink c' = sink c \<and> gstate c' = gstate c \<and> gacks c' = gacks c \<and> output_size c' = output_size c"
  using handle_pdu_error [OF assms] by (simp add: same_drawing_def)

theorem failing_pdu_draws_nothing_witness:
  "sink (snd (handle_pdu demo_env (GfxClient_new () () ()) (SurfaceToCache 3 1 \<lparr>ex_left = 0, ex_top = 0, ex_right = 1, ex_bottom = 1\<rparr>))) = []"
proof -
  let ?c = "GfxClient_new () () () :: (unit, unit, unit, unit, unit, unit) GfxClient"
  have "handle_pdu demo_env ?c (SurfaceToCache 3 1 \<lparr>ex_left = 0, ex_top = 0, ex_right = 1, ex_bottom = 1\<rparr>) =
      (Inl (UnknownSurface 3), ?c)"
    by (simp add: surface_to_cache_def gfx_surface_def GfxState_default_def)
  from failing_pdu_draws_nothing [OF this] show ?thesis
    by (simp add: surface_to_cache_def gfx_surface_def GfxState_default_def)
qed

subsection \<open>Framing\<close>

text \<open>C36: A decompressed payload is accepted only when it is a concatenation of PDUs each exactly as long
  as its header says, and it is processed exactly like those PDUs one after the other, stopping at the
  first that fails.\<close>

theorem payload_framing:
  "(\<forall>bss. (\<forall>bs \<in> set bss. well_framed bs) \<longrightarrow> process_pdus env c (concat bss) = apply_frames env c bss) \<and>
   (\<forall>data. fst (process_pdus env c data) = Inr () \<longrightarrow>
      (\<exists>bss. data = concat bss \<and> (\<forall>bs \<in> set bss. well_framed bs)))"
proof -
  have "\<exists>bss. data = concat bss \<and> (\<forall>bs \<in> set bss. well_framed bs)"
    if "fst (process_pdus env c data) = Inr ()" for data
    using process_pdus_split [of env c data "()" "snd (process_pdus env c data)"] that
    by (metis prod.collapse)
  then show ?thesis using process_pdus_frames by blast
qed

theorem payload_framing_witness:
  "process_pdus demo_env (GfxClient_new () () ()) (concat [[7, 0, 0, 0, 8, 0, 0, 0]]) =
   apply_frames demo_env (GfxClient_new () () ()) [[7, 0, 0, 0, 8, 0, 0, 0]]"
  by (rule payload_framing [THEN conjunct1, rule_format])
    (simp add: well_framed_def pdu_length_def GFX_HEADER_SIZE_def)

subsection \<open>Frame acknowledgements\<close>

text \<open>The frame count the client acknowledges with is the number of frames it has handed to the sink,
  in any session, also across failed payloads, hidden periods and presentations.\<close>

theorem frames_decoded_counted:
  "total_decoded (gacks (gfx_session env h p z es)) =
     of_nat (length (end_frame_ids (sink (gfx_session env h p z es))))"
  using gfx_session_counted [of env h p z es] by (simp add: frames_counted_def)

text \<open>C12: Whatever the order in which frames end, are presented, are hidden and shown and the queue is
  drained, acknowledgements are produced for presented frames only, at most once each and in the order
  of presentation.\<close>

theorem acks_only_after_present:
  assumes "ack_run AckSys_init es = Some y"
  shows "subseq (map ack_frame_id (sent y @ outbox (acks y))) (shown y)"
  using ack_run_acked_shown [OF assms] by (simp add: produced_def AckSys_init_def AckState_default_def)

theorem acks_only_after_present_witness:
  "\<exists>y. ack_run AckSys_init [EndFrame 4, EndFrame 5, Present 1, Drain, SetHidden True, Present 0] = Some y \<and>
     subseq (map ack_frame_id (sent y @ outbox (acks y))) (shown y) \<and> shown y = [5, 4]"
proof -
  let ?es = "[EndFrame 4, EndFrame 5, Present 1, Drain, SetHidden True, Present 0]"
  obtain y where y: "ack_run AckSys_init ?es = Some y" "shown y = [5, 4]"
    by (simp add: AckSys_init_def frame_ended_def drain_def Let_def)
  with acks_only_after_present [OF y(1)] show ?thesis by blast
qed

text \<open>While the session is visible every presented frame is acknowledged, exactly once and in order;
  while it is hidden only the first presented frame is, with a suspend.\<close>

theorem acks_by_visibility:
  assumes "ack_run y es = Some z"
    and "\<not> hidden (acks y) \<and> list_all keeps_visible es \<or> hidden (acks y) \<and> list_all keeps_hidden es"
  shows "\<exists>fs as. shown z = shown y @ fs \<and> produced z = produced y @ as \<and>
    map ack_frame_id as = (if \<not> hidden (acks y) then fs else if suspend_sent (acks y) then [] else take 1 fs) \<and>
    (hidden (acks y) \<longrightarrow> (\<forall>a \<in> set as. queue_depth a = Suspend))"
  using assms(2) visible_run [OF assms(1)] hidden_run [OF assms(1)]
  by (cases "hidden (acks y)") (auto simp: hidden_quota_def)

theorem acks_by_visibility_witness:
  "\<exists>z. ack_run (AckSys_init\<lparr>acks := AckState_default\<lparr>hidden := True\<rparr>, pending := [7, 8]\<rparr>) [Present 0, Present 0] = Some z \<and>
     map ack_frame_id (produced z) = [7]"
proof -
  let ?y = "AckSys_init\<lparr>acks := AckState_default\<lparr>hidden := True\<rparr>, pending := [7, 8]\<rparr>"
  obtain z where z: "ack_run ?y [Present 0, Present 0] = Some z" "shown z = [7, 8]"
    by (simp add: AckSys_init_def Let_def)
  from acks_by_visibility [OF z(1)] z(2) show ?thesis
    using z(1) by (auto simp: AckSys_init_def AckState_default_def produced_def)
qed

text \<open>C27: The queue depth a visible session reports is honest: the number of frames handed to the sink and
  not yet presented at that moment, as long as fewer than \<open>2 ^ 32\<close> steps were taken.\<close>

theorem queue_depth_honest:
  assumes "ack_run AckSys_init es = Some y" and "length es < 2 ^ 32 - 1" and "ack_step y (Present i) = Some z"
    and "\<not> hidden (acks y)"
  shows "\<exists>a. produced z = produced y @ [a] \<and> ack_frame_id a = pending y ! i \<and>
    total_frames_decoded a = of_nat (frames_ended es) \<and>
    (case queue_depth a of Unavailable \<Rightarrow> length (pending z) = 0
       | AvailableBytes n \<Rightarrow> unat n = length (pending z) \<and> 0 < length (pending z) | Suspend \<Rightarrow> False)"
proof -
  have init: "unat (in_flight (acks AckSys_init)) = length (pending AckSys_init)" "pending AckSys_init = []"
    "total_decoded (acks AckSys_init) = 0"
    by (simp_all add: AckSys_init_def AckState_default_def)
  have y: "total_decoded (acks y) = of_nat (frames_ended es)"
    using ack_run_counts [OF assms(1) init(1)] init(2,3) assms(2) by simp
  have "ack_run AckSys_init (es @ [Present i]) = Some z"
    using assms(1,3) by (simp add: ack_run_append)
  from ack_run_counts [OF this init(1)] init(2) assms(2)
  have n: "unat (in_flight (acks z)) = length (pending z)" by simp
  note P = produced_Present [OF assms(3)]
  have az: "acks z = snd (presented (acks y) (pending y ! i))"
    using assms(3) by (auto simp: Let_def split: if_splits)
  let ?n = "saturating_sub (in_flight (acks y)) 1"
  have "new_acks (acks y) (pending y ! i) =
      [\<lparr>queue_depth = (if ?n = 0 then Unavailable else AvailableBytes ?n), ack_frame_id = pending y ! i,
        total_frames_decoded = total_decoded (acks y)\<rparr>]"
    using assms(4) by (simp add: new_acks_def presented_eq Let_def)
  moreover have "unat ?n = length (pending z)" using n az by (simp add: presented_frame)
  ultimately show ?thesis using P y by (auto simp: unat_eq_0 simp flip: unat_gt_0)
qed

theorem queue_depth_honest_witness:
  "\<exists>y z. ack_run AckSys_init [EndFrame 4, EndFrame 5] = Some y \<and> ack_step y (Present 0) = Some z \<and>
     (\<exists>a. produced z = produced y @ [a] \<and> ack_frame_id a = 4)"
proof -
  obtain y where y: "ack_run AckSys_init [EndFrame 4, EndFrame 5] = Some y" "\<not> hidden (acks y)" "pending y = [4, 5]"
    by (simp add: AckSys_init_def AckState_default_def frame_ended_def)
  then obtain z where z: "ack_step y (Present 0) = Some z" by (simp add: Let_def)
  from queue_depth_honest [OF y(1) _ z y(2)] y(1,3) z show ?thesis by auto
qed

end
