(* ===== verification/Codec_Progressive.thy ===== *)
theory Codec_Progressive
  imports Codec_Tile "HOL-Library.Product_Lexorder"
begin

text \<open>
  \<open>crates/drift-codec/src/progressive.rs\<close>: the state of the RemoteFX progressive decoder, the preparation of
  the tiles of a region, their rounds and the clipping of what is drawn. The entropy decoders, the
  coefficients of a tile, the parsing of a payload and the region arithmetic belong to the vendored
  \<open>ironrdp_graphics\<close> and are the parameter \<open>rfx_ops\<close>. The jobs of a round run in parallel in the code; each
  owns its tile, so a round is the list of their results.
\<close>

subsection \<open>Payloads and library types\<close>

type_synonym TileKey = "u16 \<times> u16"

type_synonym Coeffs = "int list list"

record 'q ProgressiveCodecQuant =
  pq_quality :: u8
  pq_y :: 'q
  pq_cb :: 'q
  pq_cr :: 'q

record FirstTile =
  ft_key :: TileKey
  ft_flags :: u8
  ft_quant_idx :: "u8 list"
  ft_data :: "u8 list list"

record UpgradeTile =
  ut_key :: TileKey
  ut_quality :: u8
  ut_srl :: "u8 list list"
  ut_raw :: "u8 list list"

datatype ProgressiveTile = TileSimple FirstTile | TileFirst FirstTile u8 | TileUpgrade UpgradeTile

record RfxRect =
  rf_x :: u16
  rf_y :: u16
  rf_width :: u16
  rf_height :: u16

record 'q ProgressiveRegion =
  rg_rects :: "RfxRect list"
  rg_quant_vals :: "'q list"
  rg_quant_prog_vals :: "'q ProgressiveCodecQuant list"
  rg_tiles :: "ProgressiveTile list"

datatype 'q ProgressiveBlock = BlockFrameBegin | BlockFrameEnd | BlockContext bool | BlockRegion "'q ProgressiveRegion" | BlockOther

record InclusiveRectangle =
  in_left :: u16
  in_top :: u16
  in_right :: u16
  in_bottom :: u16

record 's SurfaceTiles =
  gr_wide :: u16
  gr_high :: u16
  gr_tiles :: "'s option list"
  gr_reduce :: bool

text \<open>The entropy-coded work for one tile.\<close>

datatype 'q Pass =
    FirstPass "u8 list list" "'q list" "'q list" "u8 list" u8 bool
  | UpgradePass "u8 list list" "u8 list list" "'q list" u8

record ('s, 'q, 'r) rfx_ops =
  op_parse :: "u8 list \<Rightarrow> (rstr, 'q ProgressiveBlock list) result"
  op_max_dim :: u16
  op_grid_new :: "u16 \<Rightarrow> u16 \<Rightarrow> bool \<Rightarrow> 's SurfaceTiles option"
  op_tile_new :: "bool \<Rightarrow> 's"
  op_pass :: "'s \<Rightarrow> nat"
  op_decode_first :: "u8 list list \<Rightarrow> 'q list \<Rightarrow> 'q list \<Rightarrow> u8 list \<Rightarrow> u8 \<Rightarrow> bool \<Rightarrow> 's \<Rightarrow> (rstr, unit) result \<times> 's"
  op_decode_upgrade :: "u8 list list \<Rightarrow> u8 list list \<Rightarrow> 'q list \<Rightarrow> u8 \<Rightarrow> 's \<Rightarrow> (rstr, unit) result \<times> 's"
  op_coeffs :: "'s \<Rightarrow> Coeffs"
  op_set_difference :: "Coeffs \<Rightarrow> 's \<Rightarrow> 's"
  op_rgba :: "'s \<Rightarrow> u8 list"
  op_lossless :: 'q
  op_region_new :: 'r
  op_rectangles :: "'r \<Rightarrow> nat"
  op_union :: "InclusiveRectangle \<Rightarrow> 'r \<Rightarrow> 'r"
  op_intersect :: "InclusiveRectangle \<Rightarrow> 'r \<Rightarrow> InclusiveRectangle list"

subsection \<open>Constants and small helpers\<close>

definition TILE_SIZE :: u32 where "TILE_SIZE = 64"
definition TILE_DIM :: u16 where "TILE_DIM = 64"
definition MAX_REGION_CLIPPING_WORK :: nat where "MAX_REGION_CLIPPING_WORK = 2 ^ 20"
definition FULL_QUALITY :: u8 where "FULL_QUALITY = 0xFF"
definition TILE_FLAG_DIFFERENCE :: u8 where "TILE_FLAG_DIFFERENCE = 1"

definition prog_malformed :: "rstr \<Rightarrow> CodecError" where
  "prog_malformed detail = Malformed Progressive detail"

definition key_text :: "TileKey \<Rightarrow> rstr" where
  "key_text k = lit ''('' @ dec_digits (unat (fst k)) @ lit '', '' @ dec_digits (unat (snd k)) @ lit '')''"

definition quant_index_error :: "u8 \<Rightarrow> nat \<Rightarrow> CodecError" where
  "quant_index_error i len =
     prog_malformed (lit ''quant index '' @ dec_digits (unat i) @ lit '' exceeds table length '' @ dec_digits len)"

definition charge :: "nat \<Rightarrow> nat \<Rightarrow> (CodecError, nat) result" where
  "charge used units =
     (if used + units < 2 ^ 64 \<and> used + units \<le> MAX_REGION_CLIPPING_WORK then Inr (used + units)
      else Inl (prog_malformed (lit ''progressive REGION clipping work limit exceeded'')))"

definition i16_saturating_add :: "int \<Rightarrow> int \<Rightarrow> int" where
  "i16_saturating_add a b = max (- 32768) (min 32767 (a + b))"

definition new_grid :: "('s, 'q, 'r) rfx_ops \<Rightarrow> u16 \<Rightarrow> u16 \<Rightarrow> bool \<Rightarrow> (CodecError, 's SurfaceTiles) result" where
  "new_grid ops w h reduce = ok_or (op_grid_new ops w h reduce) (SurfaceTooLarge Progressive (ucast w) (ucast h))"

definition grid_index :: "'s SurfaceTiles \<Rightarrow> TileKey \<Rightarrow> nat option" where
  "grid_index g k =
     (if fst k < gr_wide g \<and> snd k < gr_high g then Some (unat (snd k) * unat (gr_wide g) + unat (fst k)) else None)"

definition slot_at :: "'s SurfaceTiles \<Rightarrow> nat \<Rightarrow> 's option" where
  "slot_at g i = (if i < length (gr_tiles g) then gr_tiles g ! i else None)"

definition grid_get :: "'s SurfaceTiles \<Rightarrow> TileKey \<Rightarrow> 's option" where
  "grid_get g k = Option.bind (grid_index g k) (slot_at g)"

definition set_slot :: "nat \<Rightarrow> 's option \<Rightarrow> 's SurfaceTiles \<Rightarrow> 's SurfaceTiles" where
  "set_slot i v g = g\<lparr>gr_tiles := (gr_tiles g)[i := v]\<rparr>"

definition ensure_tile :: "('s, 'q, 'r) rfx_ops \<Rightarrow> nat \<Rightarrow> 's SurfaceTiles \<Rightarrow> 's SurfaceTiles" where
  "ensure_tile ops i g =
     (if i < length (gr_tiles g) \<and> gr_tiles g ! i = None then set_slot i (Some (op_tile_new ops (gr_reduce g))) g else g)"

definition progressive_quant ::
  "('s, 'q, 'r) rfx_ops \<Rightarrow> u8 \<Rightarrow> 'q ProgressiveCodecQuant list \<Rightarrow> (CodecError, 'q ProgressiveCodecQuant) result" where
  "progressive_quant ops quality table =
     (if quality = FULL_QUALITY
      then Inr \<lparr>pq_quality = quality, pq_y = op_lossless ops, pq_cb = op_lossless ops, pq_cr = op_lossless ops\<rparr>
      else if unat quality < length table then Inr (table ! unat quality)
      else Inl (quant_index_error quality (length table)))"

fun swap_rb :: "u8 list \<Rightarrow> u8 list" where
  "swap_rb (r # g # b # a # rest) = b # g # r # a # swap_rb rest"
| "swap_rb rest = rest"

definition render_bgra :: "('s, 'q, 'r) rfx_ops \<Rightarrow> 's \<Rightarrow> u8 list" where
  "render_bgra ops s = swap_rb (op_rgba ops s)"

subsection \<open>Preparing a tile\<close>

type_synonym References = "(u16 \<times> u16 \<times> u16) \<rightharpoonup> Coeffs"

record 'q RegionCtx =
  rc_surface :: u16
  rc_reduce :: bool
  rc_region :: "'q ProgressiveRegion"

record ('s, 'q) Job =
  job_key :: TileKey
  job_index :: nat
  job_state :: 's
  job_reference :: "Coeffs option"
  job_pass :: "'q Pass"

definition first_pass ::
  "('s, 'q, 'r) rfx_ops \<Rightarrow> 'q RegionCtx \<Rightarrow> References \<Rightarrow> FirstTile \<Rightarrow> u8 option \<Rightarrow> nat \<Rightarrow> 's SurfaceTiles \<Rightarrow>
     (CodecError, 'q Pass) result \<times> 's SurfaceTiles" where
  "first_pass ops ctx refs t quality index g =
     (let key = ft_key t; difference = (and (ft_flags t) TILE_FLAG_DIFFERENCE \<noteq> 0);
          quant_vals = rg_quant_vals (rc_region ctx); idx = map unat (ft_quant_idx t)
      in if difference \<and> refs (rc_surface ctx, key) = None
         then (Inl (prog_malformed (lit ''difference tile '' @ key_text key @ lit '' has no retained reference'')), g)
         else let g = ensure_tile ops index g
           in if list_ex (\<lambda>i. length quant_vals \<le> i) idx
              then (Inl (quant_index_error (foldr max (ft_quant_idx t) 0) (length quant_vals)), g)
              else let base = map (\<lambda>i. quant_vals ! i) idx
                in (case quality of
                      None \<Rightarrow>
                        (Inr (FirstPass (ft_data t) base [op_lossless ops, op_lossless ops, op_lossless ops]
                           (ft_quant_idx t) FULL_QUALITY difference), g)
                    | Some q \<Rightarrow>
                        (and_then (progressive_quant ops q (rg_quant_prog_vals (rc_region ctx))) (\<lambda>pq.
                           Inr (FirstPass (ft_data t) base [pq_y pq, pq_cb pq, pq_cr pq] (ft_quant_idx t) q difference)), g)))"

fun tile_key :: "ProgressiveTile \<Rightarrow> TileKey" where
  "tile_key (TileSimple t) = ft_key t"
| "tile_key (TileFirst t q) = ft_key t"
| "tile_key (TileUpgrade t) = ut_key t"

text \<open>The pass of a tile, \<open>Inr None\<close> when the block is skipped, with the grid behind it.\<close>

fun tile_pass ::
  "('s, 'q, 'r) rfx_ops \<Rightarrow> 'q RegionCtx \<Rightarrow> References \<Rightarrow> ProgressiveTile \<Rightarrow> nat \<Rightarrow> 's SurfaceTiles \<Rightarrow>
     (CodecError, 'q Pass option) result \<times> 's SurfaceTiles" where
  "tile_pass ops ctx refs (TileSimple t) index g = (case first_pass ops ctx refs t None index g of (r, g) \<Rightarrow> (and_then r (Inr \<circ> Some), g))"
| "tile_pass ops ctx refs (TileFirst t q) index g = (case first_pass ops ctx refs t (Some q) index g of (r, g) \<Rightarrow> (and_then r (Inr \<circ> Some), g))"
| "tile_pass ops ctx refs (TileUpgrade t) index g =
     (let g = ensure_tile ops index g
      in if (case slot_at g index of None \<Rightarrow> True | Some s \<Rightarrow> op_pass ops s = 0) then (Inr None, g)
         else (and_then (progressive_quant ops (ut_quality t) (rg_quant_prog_vals (rc_region ctx))) (\<lambda>pq.
           Inr (Some (UpgradePass (ut_srl t) (ut_raw t) [pq_y pq, pq_cb pq, pq_cr pq] (ut_quality t)))), g))"

definition out_of_bounds :: "TileKey \<Rightarrow> CodecError" where
  "out_of_bounds k = prog_malformed (lit ''tile '' @ key_text k @ lit '' out of surface bounds'')"

definition prepare ::
  "('s, 'q, 'r) rfx_ops \<Rightarrow> 'q RegionCtx \<Rightarrow> ProgressiveTile \<Rightarrow> 's SurfaceTiles \<times> References \<Rightarrow>
     (CodecError, ('s, 'q) Job option) result \<times> 's SurfaceTiles \<times> References" where
  "prepare ops ctx t store =
     (case store of (g, refs) \<Rightarrow>
        let key = tile_key t
        in (case grid_index g key of
              None \<Rightarrow> (Inl (out_of_bounds key), g, refs)
            | Some index \<Rightarrow>
                (case tile_pass ops ctx refs t index g of
                   (Inl e, g) \<Rightarrow> (Inl e, g, refs)
                 | (Inr None, g) \<Rightarrow> (Inr None, g, refs)
                 | (Inr (Some pass), g) \<Rightarrow>
                     (case slot_at g index of
                        None \<Rightarrow> (Inl (out_of_bounds key), g, refs)
                      | Some s \<Rightarrow>
                          (Inr (Some \<lparr>job_key = key, job_index = index, job_state = s,
                             job_reference = refs (rc_surface ctx, key), job_pass = pass\<rparr>),
                           set_slot index None g, refs((rc_surface ctx, key) := None))))))"

subsection \<open>Running a job\<close>

definition add_reference :: "Coeffs \<Rightarrow> Coeffs \<Rightarrow> Coeffs" where
  "add_reference = map2 (map2 i16_saturating_add)"

definition run_pass ::
  "('s, 'q, 'r) rfx_ops \<Rightarrow> bool \<Rightarrow> 'q Pass \<Rightarrow> Coeffs option \<Rightarrow> 's \<Rightarrow> (CodecError, unit) result \<times> 's" where
  "run_pass ops reduce pass reference s =
     (case pass of
        FirstPass data base prog quant_idx quality difference \<Rightarrow>
          (case op_decode_first ops data base prog quant_idx quality reduce s of
             (Inl e, s) \<Rightarrow> (Inl (prog_malformed (lit ''progressive RLGR decode: '' @ e)), s)
           | (Inr _, s) \<Rightarrow>
               if \<not> difference then (Inr (), s)
               else (case reference of
                   None \<Rightarrow> (Inl (prog_malformed (lit ''difference tile lost its reference'')), s)
                 | Some r \<Rightarrow> (Inr (), op_set_difference ops (add_reference (op_coeffs ops s) r) s)))
      | UpgradePass srl raw prog quality \<Rightarrow>
          (case op_decode_upgrade ops srl raw prog quality s of
             (Inl e, s) \<Rightarrow> (Inl (prog_malformed (lit ''progressive srl decode: '' @ e)), s)
           | (Inr _, s) \<Rightarrow> (Inr (), s)))"

definition run_job :: "('s, 'q, 'r) rfx_ops \<Rightarrow> bool \<Rightarrow> ('s, 'q) Job \<Rightarrow> (CodecError, TileKey \<times> u8 list) result \<times> ('s, 'q) Job" where
  "run_job ops reduce job =
     (case run_pass ops reduce (job_pass job) (job_reference job) (job_state job) of
        (Inl e, s) \<Rightarrow> (Inl e, job\<lparr>job_state := s\<rparr>)
      | (Inr _, s) \<Rightarrow> (Inr (job_key job, render_bgra ops s), job\<lparr>job_state := s, job_reference := Some (op_coeffs ops s)\<rparr>))"

subsection \<open>The tiles of a region\<close>

text \<open>Round \<open>n\<close> takes the \<open>n\<close>-th occurrence of each tile.\<close>

definition push_round :: "nat \<Rightarrow> 'a \<Rightarrow> 'a list list \<Rightarrow> 'a list list" where
  "push_round n t rounds =
     (let rounds = (if length rounds \<le> n then rounds @ [[]] else rounds)
      in if n < length rounds then rounds[n := rounds ! n @ [t]] else rounds)"

fun rounds_of :: "(TileKey \<Rightarrow> nat) \<Rightarrow> ProgressiveTile list list \<Rightarrow> ProgressiveTile list \<Rightarrow> ProgressiveTile list list" where
  "rounds_of seen rounds [] = rounds"
| "rounds_of seen rounds (t # ts) =
     (let k = tile_key t in rounds_of (seen(k := seen k + 1)) (push_round (seen k) t rounds) ts)"

fun prepare_round ::
  "('s, 'q, 'r) rfx_ops \<Rightarrow> 'q RegionCtx \<Rightarrow> ProgressiveTile list \<Rightarrow> 's SurfaceTiles \<times> References \<Rightarrow>
     CodecError option \<times> ('s, 'q) Job list \<times> 's SurfaceTiles \<times> References" where
  "prepare_round ops ctx [] store = (None, [], store)"
| "prepare_round ops ctx (t # ts) store =
     (case prepare ops ctx t store of
        (Inl e, store) \<Rightarrow> (Some e, [], store)
      | (Inr None, store) \<Rightarrow> prepare_round ops ctx ts store
      | (Inr (Some job), store) \<Rightarrow>
          (case prepare_round ops ctx ts store of (failure, jobs, store) \<Rightarrow> (failure, job # jobs, store)))"

definition put_back :: "u16 \<Rightarrow> ('s, 'q) Job \<Rightarrow> 's SurfaceTiles \<times> References \<Rightarrow> 's SurfaceTiles \<times> References" where
  "put_back sid job store =
     (case store of (g, refs) \<Rightarrow>
        (set_slot (job_index job) (Some (job_state job)) g,
         case job_reference job of None \<Rightarrow> refs | Some r \<Rightarrow> refs((sid, job_key job) \<mapsto> r)))"

type_synonym Decoded = "TileKey \<rightharpoonup> u8 list"

fun collect_results :: "Decoded \<Rightarrow> (CodecError, TileKey \<times> u8 list) result list \<Rightarrow> (CodecError, Decoded) result" where
  "collect_results decoded [] = Inr decoded"
| "collect_results decoded (Inl e # rs) = Inl e"
| "collect_results decoded (Inr (k, px) # rs) = collect_results (decoded(k \<mapsto> px)) rs"

fun decode_rounds ::
  "('s, 'q, 'r) rfx_ops \<Rightarrow> 'q RegionCtx \<Rightarrow> ProgressiveTile list list \<Rightarrow> Decoded \<Rightarrow> 's SurfaceTiles \<times> References \<Rightarrow>
     (CodecError, Decoded) result \<times> 's SurfaceTiles \<times> References" where
  "decode_rounds ops ctx [] decoded store = (Inr decoded, store)"
| "decode_rounds ops ctx (round # rounds) decoded store =
     (case prepare_round ops ctx round store of
        (failure, jobs, store) \<Rightarrow>
          let ran = map (run_job ops (rc_reduce ctx)) jobs;
              jobs = (if failure = None then map snd ran else jobs);
              store = fold (put_back (rc_surface ctx)) jobs store
          in (case failure of
                Some e \<Rightarrow> (Inl e, store)
              | None \<Rightarrow>
                  (case collect_results decoded (map fst ran) of
                     Inl e \<Rightarrow> (Inl e, store)
                   | Inr decoded \<Rightarrow> decode_rounds ops ctx rounds decoded store)))"

definition decode_region_tiles ::
  "('s, 'q, 'r) rfx_ops \<Rightarrow> 'q RegionCtx \<Rightarrow> 's SurfaceTiles \<times> References \<Rightarrow>
     (CodecError, Decoded) result \<times> 's SurfaceTiles \<times> References" where
  "decode_region_tiles ops ctx store =
     decode_rounds ops ctx (rounds_of (\<lambda>_. 0) [] (rg_tiles (rc_region ctx))) Map.empty store"

subsection \<open>Clipping\<close>

text \<open>The union of a region's rectangles on the surface, with the work charged so far.\<close>

fun union_rects ::
  "('s, 'q, 'r) rfx_ops \<Rightarrow> u16 \<Rightarrow> u16 \<Rightarrow> RfxRect list \<Rightarrow> 'r \<Rightarrow> nat \<Rightarrow> (CodecError, 'r \<times> nat) result" where
  "union_rects ops w h [] clipping work = Inr (clipping, work)"
| "union_rects ops w h (r # rs) clipping work =
     (let l = min (rf_x r) w; t = min (rf_y r) h;
          rt = min (saturating_add (rf_x r) (rf_width r)) w; b = min (saturating_add (rf_y r) (rf_height r)) h
      in if l < rt \<and> t < b
         then and_then (charge work (op_rectangles ops clipping + 1)) (\<lambda>work.
           union_rects ops w h rs
             (op_union ops \<lparr>in_left = l, in_top = t, in_right = rt - 1, in_bottom = b - 1\<rparr> clipping) work)
         else union_rects ops w h rs clipping work)"

definition clipping_region ::
  "('s, 'q, 'r) rfx_ops \<Rightarrow> 'q ProgressiveRegion \<Rightarrow> u16 \<Rightarrow> u16 \<Rightarrow> nat \<Rightarrow> (CodecError, 'r \<times> nat) result" where
  "clipping_region ops region w h work = union_rects ops w h (rg_rects region) (op_region_new ops) work"

definition surface_rect :: "InclusiveRectangle \<Rightarrow> Rect" where
  "surface_rect r =
     Rect_new (ucast (in_left r)) (ucast (in_top r)) (ucast (in_right r) + 1 - ucast (in_left r))
       (ucast (in_bottom r) + 1 - ucast (in_top r))"

definition visible_rects :: "('s, 'q, 'r) rfx_ops \<Rightarrow> 'r \<Rightarrow> TileKey \<Rightarrow> u16 \<Rightarrow> u16 \<Rightarrow> Rect list" where
  "visible_rects ops clipping key w h =
     (let l = saturating_mul (fst key) TILE_DIM; t = saturating_mul (snd key) TILE_DIM;
          rt = min (saturating_add l TILE_DIM) w; b = min (saturating_add t TILE_DIM) h
      in if rt \<le> l \<or> b \<le> t then []
         else map surface_rect
           (op_intersect ops \<lparr>in_left = l, in_top = t, in_right = rt - 1, in_bottom = b - 1\<rparr> clipping))"

text \<open>One visible tile: its fresh pixels, or those of its retained coefficients.\<close>

definition visible_tile ::
  "('s, 'q, 'r) rfx_ops \<Rightarrow> 'r \<Rightarrow> u16 \<Rightarrow> u16 \<Rightarrow> Decoded \<Rightarrow> 's SurfaceTiles \<Rightarrow> TileKey \<Rightarrow> BgraTile option" where
  "visible_tile ops clipping w h decoded g key =
     (let rects = visible_rects ops clipping key w h
      in if rects = [] then None
         else map_option (\<lambda>px. \<lparr>tile_origin = Point_new (ucast (fst key) * TILE_SIZE) (ucast (snd key) * TILE_SIZE),
             tile_size = Size_new TILE_SIZE TILE_SIZE, tile_data = px, update_rects = rects\<rparr>)
           (case decoded key of Some px \<Rightarrow> Some px | None \<Rightarrow> map_option (render_bgra ops) (grid_get g key)))"

fun draw_tiles ::
  "('s, 'q, 'r) rfx_ops \<Rightarrow> 'r \<Rightarrow> u16 \<Rightarrow> u16 \<Rightarrow> Decoded \<Rightarrow> 's SurfaceTiles \<Rightarrow> TileKey list \<Rightarrow> nat \<Rightarrow>
     (CodecError, BgraTile list \<times> nat) result" where
  "draw_tiles ops clipping w h decoded g [] work = Inr ([], work)"
| "draw_tiles ops clipping w h decoded g (key # keys) work =
     and_then (charge work (max (op_rectangles ops clipping) 1)) (\<lambda>work.
     and_then (draw_tiles ops clipping w h decoded g keys work) (\<lambda>(tiles, work).
       Inr ((case visible_tile ops clipping w h decoded g key of None \<Rightarrow> tiles | Some t \<Rightarrow> t # tiles), work)))"

subsection \<open>The decoder\<close>

record 's ProgressiveCodec =
  contexts :: "(u16 \<times> u32) \<rightharpoonup> 's SurfaceTiles"
  references :: References
  frame_tiles :: "(u16 \<times> u32) \<rightharpoonup> TileKey list"
  frame_active :: bool
  surface_context_flags :: "u16 \<rightharpoonup> bool"

definition ProgressiveCodec_new :: "'s ProgressiveCodec" where
  "ProgressiveCodec_new = \<lparr>contexts = Map.empty, references = Map.empty, frame_tiles = Map.empty, frame_active = False,
     surface_context_flags = Map.empty\<rparr>"

definition begin_frame :: "'s ProgressiveCodec \<Rightarrow> 's ProgressiveCodec" where
  "begin_frame c = c\<lparr>frame_tiles := Map.empty, frame_active := True\<rparr>"

definition codec_end_frame :: "'s ProgressiveCodec \<Rightarrow> 's ProgressiveCodec" where
  "codec_end_frame c = c\<lparr>frame_tiles := Map.empty, frame_active := False\<rparr>"

definition delete_context :: "u16 \<Rightarrow> u32 \<Rightarrow> 's ProgressiveCodec \<Rightarrow> 's ProgressiveCodec" where
  "delete_context sid cid c =
     c\<lparr>contexts := (contexts c)((sid, cid) := None), frame_tiles := (frame_tiles c)((sid, cid) := None)\<rparr>"

definition retain_keys :: "('k \<Rightarrow> bool) \<Rightarrow> ('k \<rightharpoonup> 'v) \<Rightarrow> ('k \<rightharpoonup> 'v)" where
  "retain_keys P m = (\<lambda>k. if P k then m k else None)"

definition codec_delete_surface :: "u16 \<Rightarrow> 's ProgressiveCodec \<Rightarrow> 's ProgressiveCodec" where
  "codec_delete_surface sid c =
     c\<lparr>contexts := retain_keys (\<lambda>(s, _). s \<noteq> sid) (contexts c),
       references := retain_keys (\<lambda>(s, _, _). s \<noteq> sid) (references c),
       frame_tiles := retain_keys (\<lambda>(s, _). s \<noteq> sid) (frame_tiles c),
       surface_context_flags := (surface_context_flags c)(sid := None)\<rparr>"

definition codec_reset :: "'s ProgressiveCodec \<Rightarrow> 's ProgressiveCodec" where
  "codec_reset c = c\<lparr>contexts := Map.empty, frame_tiles := Map.empty, frame_active := False\<rparr>"

definition signalled_flag :: "'q ProgressiveBlock list \<Rightarrow> bool option" where
  "signalled_flag blocks =
     (case List.map_filter (\<lambda>b. case b of BlockContext flag \<Rightarrow> Some flag | _ \<Rightarrow> None) blocks of
        [] \<Rightarrow> None | flag # _ \<Rightarrow> Some flag)"

definition insert_keys :: "TileKey list \<Rightarrow> TileKey list \<Rightarrow> TileKey list" where
  "insert_keys ks set_keys = fold insort_insert ks set_keys"

text \<open>What the blocks of a payload have done so far: the grid and references, the tiles of the frame, the
  output, the work, and where in the frame they are.\<close>

record 's BlockState =
  bl_store :: "'s SurfaceTiles \<times> References"
  bl_frame :: "TileKey list"
  bl_out :: "BgraTile list"
  bl_work :: nat
  bl_in_frame :: bool
  bl_ended :: bool

definition region_step ::
  "('s, 'q, 'r) rfx_ops \<Rightarrow> u16 \<Rightarrow> bool \<Rightarrow> u16 \<Rightarrow> u16 \<Rightarrow> 'q ProgressiveRegion \<Rightarrow> 's BlockState \<Rightarrow>
     (CodecError, unit) result \<times> 's BlockState" where
  "region_step ops sid reduce w h region b =
     (let ctx = \<lparr>rc_surface = sid, rc_reduce = reduce, rc_region = region\<rparr>
      in case decode_region_tiles ops ctx (bl_store b) of
           (Inl e, store) \<Rightarrow> (Inl e, b\<lparr>bl_store := store\<rparr>)
         | (Inr decoded, store) \<Rightarrow>
             let keys = filter (\<lambda>k. decoded k \<noteq> None) (map tile_key (rg_tiles region));
                 b = b\<lparr>bl_store := store, bl_frame := insert_keys keys (bl_frame b)\<rparr>
             in case clipping_region ops region w h (bl_work b) of
                  Inl e \<Rightarrow> (Inl e, b)
                | Inr (clipping, work) \<Rightarrow>
                    (case draw_tiles ops clipping w h decoded (fst store) (bl_frame b) work of
                       Inl e \<Rightarrow> (Inl e, b)
                     | Inr (tiles, work) \<Rightarrow> (Inr (), b\<lparr>bl_out := bl_out b @ tiles, bl_work := work\<rparr>)))"

fun block_steps ::
  "('s, 'q, 'r) rfx_ops \<Rightarrow> u16 \<Rightarrow> bool \<Rightarrow> u16 \<Rightarrow> u16 \<Rightarrow> 'q ProgressiveBlock list \<Rightarrow> 's BlockState \<Rightarrow>
     (CodecError, unit) result \<times> 's BlockState" where
  "block_steps ops sid reduce w h [] b = (Inr (), b)"
| "block_steps ops sid reduce w h (block # blocks) b =
     (case block of
        BlockFrameBegin \<Rightarrow>
          block_steps ops sid reduce w h blocks (if bl_ended b then b else b\<lparr>bl_in_frame := True\<rparr>)
      | BlockFrameEnd \<Rightarrow> block_steps ops sid reduce w h blocks (b\<lparr>bl_in_frame := False, bl_ended := True\<rparr>)
      | BlockRegion region \<Rightarrow>
          if bl_in_frame b
          then (case region_step ops sid reduce w h region b of
              (Inl e, b) \<Rightarrow> (Inl e, b)
            | (Inr _, b) \<Rightarrow> block_steps ops sid reduce w h blocks b)
          else block_steps ops sid reduce w h blocks b
      | _ \<Rightarrow> block_steps ops sid reduce w h blocks b)"

definition surface_dim :: "('s, 'q, 'r) rfx_ops \<Rightarrow> u32 \<Rightarrow> u16 option" where
  "surface_dim ops v = (if unat v < 2 ^ 16 \<and> unat v \<le> unat (op_max_dim ops) then Some (ucast v) else None)"

definition div_tiles :: "u16 \<Rightarrow> u16" where
  "div_tiles w = (if unat w mod 64 = 0 then w div TILE_DIM else w div TILE_DIM + 1)"

definition clear_unless_active :: "'s ProgressiveCodec \<Rightarrow> 's ProgressiveCodec" where
  "clear_unless_active c = (if frame_active c then c else c\<lparr>frame_tiles := Map.empty\<rparr>)"

text \<open>The grid of a context, made or remade for the size of the surface, and whether it was remade.\<close>

definition context_grid ::
  "('s, 'q, 'r) rfx_ops \<Rightarrow> u16 \<times> u32 \<Rightarrow> u16 \<Rightarrow> u16 \<Rightarrow> bool \<Rightarrow> 's ProgressiveCodec \<Rightarrow>
     (CodecError, 's SurfaceTiles \<times> bool) result \<times> 's ProgressiveCodec" where
  "context_grid ops ctx w h reduce c =
     (case (case contexts c ctx of None \<Rightarrow> new_grid ops w h reduce | Some g \<Rightarrow> Inr g) of
        Inl e \<Rightarrow> (Inl e, c)
      | Inr g \<Rightarrow>
          let c = c\<lparr>contexts := (contexts c)(ctx \<mapsto> g)\<rparr>;
              resized = (gr_wide g \<noteq> div_tiles w \<or> gr_high g \<noteq> div_tiles h)
          in case (if resized then new_grid ops w h reduce else Inr g) of
               Inl e \<Rightarrow> (Inl e, c)
             | Inr g \<Rightarrow> (Inr (g\<lparr>gr_reduce := reduce\<rparr>, resized), c\<lparr>contexts := (contexts c)(ctx \<mapsto> g\<lparr>gr_reduce := reduce\<rparr>)\<rparr>))"

definition codec_decode ::
  "('s, 'q, 'r) rfx_ops \<Rightarrow> 's ProgressiveCodec \<Rightarrow> u16 \<Rightarrow> u32 \<Rightarrow> u32 Size \<Rightarrow> u8 list \<Rightarrow>
     (CodecError, BgraTile list) result \<times> 's ProgressiveCodec" where
  "codec_decode ops c sid cid surface data =
     (let ctx = (sid, cid)
      in case (surface_dim ops (width surface), surface_dim ops (height surface)) of
           (Some w, Some h) \<Rightarrow>
             (case op_parse ops data of
                Inl e \<Rightarrow> (Inl (prog_malformed e), c)
              | Inr blocks \<Rightarrow>
                  let signalled = signalled_flag blocks;
                      c = (case signalled of None \<Rightarrow> c
                           | Some flag \<Rightarrow> c\<lparr>surface_context_flags := (surface_context_flags c)(sid \<mapsto> flag)\<rparr>);
                      known = (case signalled of Some flag \<Rightarrow> Some flag
                               | None \<Rightarrow> (case contexts c ctx of Some g \<Rightarrow> Some (gr_reduce g)
                                          | None \<Rightarrow> surface_context_flags c sid))
                  in case known of
                       None \<Rightarrow> (Inl (prog_malformed (lit ''progressive stream missing CONTEXT block'')), c)
                     | Some reduce \<Rightarrow>
                         (case context_grid ops ctx w h reduce (clear_unless_active c) of
                            (Inl e, c) \<Rightarrow> (Inl e, c)
                          | (Inr (g, resized), c) \<Rightarrow>
                              let frame = (case frame_tiles c ctx of None \<Rightarrow> [] | Some ks \<Rightarrow> if resized then [] else ks);
                                  b0 = \<lparr>bl_store = (g, references c), bl_frame = frame, bl_out = [], bl_work = 0,
                                        bl_in_frame = False, bl_ended = False\<rparr>
                              in case block_steps ops sid reduce w h blocks b0 of
                                   (r, b) \<Rightarrow>
                                     let c = c\<lparr>contexts := (contexts c)(ctx \<mapsto> fst (bl_store b)),
                                               references := snd (bl_store b),
                                               frame_tiles := (frame_tiles c)(ctx \<mapsto> bl_frame b)\<rparr>
                                     in case r of
                                          Inl e \<Rightarrow> (Inl e, c)
                                        | Inr _ \<Rightarrow> (Inr (bl_out b), clear_unless_active c)))
         | _ \<Rightarrow> (Inl (SurfaceTooLarge Progressive (width surface) (height surface)), c))"

end
