(* ===== verification/Codec_Progressive_Rounds.thy ===== *)
theory Codec_Progressive_Rounds
  imports Codec_Progressive
begin

text \<open>
  The rounds of a region do what its tiles do one after the other: a tile reads and writes only its own slot of
  the grid and its own reference, so tiles of different keys commute.
\<close>

subsection \<open>Tiles in order\<close>

text \<open>The reference: each tile prepared, run and put back before the next; \<open>None\<close> at the first error.\<close>

definition tile_in_order ::
  "('s, 'q, 'r) rfx_ops \<Rightarrow> 'q RegionCtx \<Rightarrow> ProgressiveTile \<Rightarrow> ('s SurfaceTiles \<times> References) \<times> Decoded \<Rightarrow>
     (('s SurfaceTiles \<times> References) \<times> Decoded) option" where
  "tile_in_order ops ctx t st =
     (case st of (store, decoded) \<Rightarrow>
        (case prepare ops ctx t store of
           (Inl e, _) \<Rightarrow> None
         | (Inr None, store) \<Rightarrow> Some (store, decoded)
         | (Inr (Some job), store) \<Rightarrow>
             (case run_job ops (rc_reduce ctx) job of
                (Inl e, _) \<Rightarrow> None
              | (Inr (k, px), job) \<Rightarrow> Some (put_back (rc_surface ctx) job store, decoded(k \<mapsto> px)))))"

fun tiles_in_order ::
  "('s, 'q, 'r) rfx_ops \<Rightarrow> 'q RegionCtx \<Rightarrow> ProgressiveTile list \<Rightarrow> ('s SurfaceTiles \<times> References) \<times> Decoded \<Rightarrow>
     (('s SurfaceTiles \<times> References) \<times> Decoded) option" where
  "tiles_in_order ops ctx [] st = Some st"
| "tiles_in_order ops ctx (t # ts) st = Option.bind (tile_in_order ops ctx t st) (tiles_in_order ops ctx ts)"

lemma tiles_in_order_append:
  "tiles_in_order ops ctx (xs @ ys) st = Option.bind (tiles_in_order ops ctx xs st) (tiles_in_order ops ctx ys)"
  by (induction xs arbitrary: st) (auto split: bind_split)

subsection \<open>One slot and one reference\<close>

definition grid_ok :: "'s SurfaceTiles \<Rightarrow> bool" where
  "grid_ok g = (length (gr_tiles g) = unat (gr_wide g) * unat (gr_high g))"

definition set_cell :: "u16 \<Rightarrow> TileKey \<Rightarrow> 's option \<Rightarrow> Coeffs option \<Rightarrow> 's SurfaceTiles \<times> References \<Rightarrow> 's SurfaceTiles \<times> References" where
  "set_cell sid k v r store = (case store of (g, refs) \<Rightarrow>
     (case grid_index g k of None \<Rightarrow> (g, refs) | Some i \<Rightarrow> (set_slot i v g, refs((sid, k) := r))))"

lemma grid_simps [simp]:
  "gr_wide (set_slot i v g) = gr_wide g" "gr_high (set_slot i v g) = gr_high g" "gr_reduce (set_slot i v g) = gr_reduce g"
  "grid_index (set_slot i v g) = grid_index g" "length (gr_tiles (set_slot i v g)) = length (gr_tiles g)"
  "grid_ok (set_slot i v g) = grid_ok g"
  by (auto simp: set_slot_def grid_index_def grid_ok_def fun_eq_iff)

lemma grid_index_lt:
  assumes "grid_ok g" and "grid_index g k = Some i"
  shows "i < length (gr_tiles g)"
proof -
  have x: "fst k < gr_wide g" "snd k < gr_high g" "i = unat (snd k) * unat (gr_wide g) + unat (fst k)"
    using assms(2) by (auto simp: grid_index_def split: if_splits)
  then have "i < (unat (snd k) + 1) * unat (gr_wide g)" by (simp add: word_less_nat_alt)
  also have "\<dots> \<le> unat (gr_high g) * unat (gr_wide g)"
    using x(2) by (intro mult_le_mono1) (simp add: word_less_nat_alt)
  finally show ?thesis using assms(1) by (simp add: grid_ok_def mult.commute)
qed

lemma grid_index_inj:
  assumes "grid_index g k = Some i" and "grid_index g k' = Some i"
  shows "k = k'"
proof -
  let ?w = "unat (gr_wide g)"
  have x: "unat (fst k) < ?w" "unat (fst k') < ?w" "i = unat (snd k) * ?w + unat (fst k)" "i = unat (snd k') * ?w + unat (fst k')"
    using assms by (auto simp: grid_index_def word_less_nat_alt split: if_splits)
  have "i div ?w = unat (snd k)" "i mod ?w = unat (fst k)" unfolding x(3) using x(1) by simp_all
  moreover have "i div ?w = unat (snd k')" "i mod ?w = unat (fst k')" unfolding x(4) using x(2) by simp_all
  ultimately show ?thesis by (metis prod.expand word_unat_eq_iff)
qed

text \<open>The pass of a tile as a function of its slot and its reference.\<close>

definition cell_pass ::
  "('s, 'q, 'r) rfx_ops \<Rightarrow> 'q RegionCtx \<Rightarrow> ProgressiveTile \<Rightarrow> bool \<Rightarrow> Coeffs option \<Rightarrow> 's option \<Rightarrow>
     (CodecError, 'q Pass option) result \<times> 's option" where
  "cell_pass ops ctx t reduce ref slot =
     (let g0 = \<lparr>gr_wide = fst (tile_key t) + 1, gr_high = 1, gr_tiles = [slot], gr_reduce = reduce\<rparr>;
          r = tile_pass ops ctx (\<lambda>k. if k = (rc_surface ctx, tile_key t) then ref else None) t 0 g0
      in (fst r, gr_tiles (snd r) ! 0))"

lemma tile_pass_cell:
  assumes "i < length (gr_tiles g)"
  shows "tile_pass ops ctx refs t i g =
    (fst (cell_pass ops ctx t (gr_reduce g) (refs (rc_surface ctx, tile_key t)) (gr_tiles g ! i)),
     set_slot i (snd (cell_pass ops ctx t (gr_reduce g) (refs (rc_surface ctx, tile_key t)) (gr_tiles g ! i))) g)"
proof -
  have same: "set_slot i (gr_tiles g ! i) g = g" by (simp add: set_slot_def)
  show ?thesis
    using assms same
    by (cases t)
      (auto simp: cell_pass_def first_pass_def ensure_tile_def slot_at_def set_slot_def Let_def
        split: option.split prod.split)
qed

subsection \<open>Preparing\<close>

text \<open>The store of two tiles: an update of another key passes through.\<close>

lemma upd_simps:
  "grid_index g k = Some i \<Longrightarrow> set_cell sid k v r (g, refs) = (set_slot i v g, refs((sid, k) := r))"
  by (simp add: set_cell_def)

lemma set_slot_swap: "i \<noteq> j \<Longrightarrow> set_slot i v (set_slot j w g) = set_slot j w (set_slot i v g)"
  by (simp add: set_slot_def list_update_swap)

lemma set_slot_same [simp]: "set_slot i v (set_slot i w g) = set_slot i v g"
  by (simp add: set_slot_def)

lemma slot_set_slot [simp]:
  "i < length (gr_tiles g) \<Longrightarrow> gr_tiles (set_slot i v g) ! i = v"
  "i \<noteq> j \<Longrightarrow> gr_tiles (set_slot i v g) ! j = gr_tiles g ! j"
  by (simp_all add: set_slot_def)

lemma upd_swap: "k \<noteq> k' \<Longrightarrow> set_cell sid k v r (set_cell sid k' v' r' store) = set_cell sid k' v' r' (set_cell sid k v r store)"
proof -
  assume "k \<noteq> k'"
  obtain g refs where "store = (g, refs)" by (cases store)
  moreover have "grid_index g k = Some i \<Longrightarrow> grid_index g k' = Some j \<Longrightarrow> i \<noteq> j" for i j
    using grid_index_inj \<open>k \<noteq> k'\<close> by blast
  ultimately show ?thesis using \<open>k \<noteq> k'\<close>
    by (auto simp: set_cell_def set_slot_swap fun_upd_twist split: option.split)
qed

lemma upd_upd [simp]: "set_cell sid k v r (set_cell sid k v' r' store) = set_cell sid k v r store"
  by (cases store) (simp add: set_cell_def split: option.split)

definition store_ok :: "'s SurfaceTiles \<times> References \<Rightarrow> bool" where
  "store_ok store = grid_ok (fst store)"

lemma store_ok_upd [simp]: "store_ok (set_cell sid k v r store) = store_ok store"
  by (cases store) (simp add: set_cell_def store_ok_def split: option.split)

text \<open>Preparing a tile as a function of its cell; \<open>None\<close> for a key outside the grid.\<close>

definition prepare_cell ::
  "('s, 'q, 'r) rfx_ops \<Rightarrow> 'q RegionCtx \<Rightarrow> ProgressiveTile \<Rightarrow> 's SurfaceTiles \<times> References \<Rightarrow>
     (CodecError, ('s, 'q) Job option) result \<times> 's option \<times> Coeffs option" where
  "prepare_cell ops ctx t store =
     (case store of (g, refs) \<Rightarrow>
        let ref = refs (rc_surface ctx, tile_key t)
        in (case grid_index g (tile_key t) of
              None \<Rightarrow> (Inl (out_of_bounds (tile_key t)), None, None)
            | Some i \<Rightarrow>
                (case cell_pass ops ctx t (gr_reduce g) ref (gr_tiles g ! i) of
                   (Inl e, slot) \<Rightarrow> (Inl e, slot, ref)
                 | (Inr None, slot) \<Rightarrow> (Inr None, slot, ref)
                 | (Inr (Some pass), None) \<Rightarrow> (Inl (out_of_bounds (tile_key t)), None, ref)
                 | (Inr (Some pass), Some s) \<Rightarrow>
                     (Inr (Some \<lparr>job_key = tile_key t, job_index = i, job_state = s, job_reference = ref, job_pass = pass\<rparr>), None, None))))"

lemma prepare_eq:
  assumes "store_ok store"
  shows "prepare ops ctx t store =
    (fst (prepare_cell ops ctx t store),
     set_cell (rc_surface ctx) (tile_key t) (fst (snd (prepare_cell ops ctx t store))) (snd (snd (prepare_cell ops ctx t store))) store)"
proof -
  obtain g refs where st: "store = (g, refs)" by (cases store)
  show ?thesis
  proof (cases "grid_index g (tile_key t)")
    case None
    then show ?thesis by (simp add: prepare_def prepare_cell_def st set_cell_def Let_def)
  next
    case (Some i)
    have i: "i < length (gr_tiles g)" using grid_index_lt [OF _ Some] assms by (simp add: store_ok_def st)
    have same: "refs(k := refs k) = refs" for k by simp
    show ?thesis
      using Some i same
      by (auto simp: prepare_def prepare_cell_def st set_cell_def tile_pass_cell slot_at_def Let_def
          split: prod.split sum.split option.split)
  qed
qed

lemma prepare_cell_other:
  assumes "store_ok store" and "k \<noteq> tile_key t"
  shows "prepare_cell ops ctx t (set_cell (rc_surface ctx) k v r store) = prepare_cell ops ctx t store"
proof -
  obtain g refs where st: "store = (g, refs)" by (cases store)
  have "grid_index g k = Some i \<Longrightarrow> grid_index g (tile_key t) = Some j \<Longrightarrow> i \<noteq> j" for i j
    using grid_index_inj assms(2) by blast
  then show ?thesis
    using assms(2) by (auto simp: prepare_cell_def st set_cell_def Let_def split: option.split sum.split prod.split)
qed

lemma prepare_other:
  assumes "store_ok store" and "k \<noteq> tile_key t"
  shows "prepare ops ctx t (set_cell (rc_surface ctx) k v r store) =
    (fst (prepare ops ctx t store), set_cell (rc_surface ctx) k v r (snd (prepare ops ctx t store)))"
  using assms by (simp add: prepare_eq upd_swap prepare_cell_other)

lemma prepare_job:
  assumes "store_ok store" and "prepare ops ctx t store = (Inr (Some job), store')"
  shows "job_key job = tile_key t" and "store_ok store'" and "store' = set_cell (rc_surface ctx) (tile_key t) None None store"
    and "grid_index (fst store) (tile_key t) = Some (job_index job)"
  using assms
  by (auto simp: prepare_eq prepare_cell_def Let_def split: prod.splits option.splits sum.splits)

lemma prepare_store_ok: "store_ok store \<Longrightarrow> prepare ops ctx t store = (r, store') \<Longrightarrow> store_ok store'"
  by (auto simp: prepare_eq)

subsection \<open>One round\<close>

lemma prepare_round_other:
  assumes "store_ok store" and "k \<notin> set (map tile_key ts)"
  shows "prepare_round ops ctx ts (set_cell (rc_surface ctx) k v r store) =
    (let (failure, jobs, store') = prepare_round ops ctx ts store in (failure, jobs, set_cell (rc_surface ctx) k v r store'))"
  using assms
proof (induction ts arbitrary: store)
  case (Cons t ts)
  have other: "prepare ops ctx t (set_cell (rc_surface ctx) k v r store) =
      (fst (prepare ops ctx t store), set_cell (rc_surface ctx) k v r (snd (prepare ops ctx t store)))"
    using Cons.prems by (intro prepare_other) auto
  obtain res st where p: "prepare ops ctx t store = (res, st)" by (meson surj_pair)
  have "store_ok st" using prepare_store_ok [OF Cons.prems(1) p] .
  then show ?case
    using Cons.IH [of st] Cons.prems(2) other p by (auto simp: case_prod_unfold Let_def split: sum.split option.split)
qed simp

lemma put_back_upd:
  assumes "grid_index (fst store) (job_key job) = Some (job_index job)" and "job_reference job = Some r"
  shows "put_back sid job (set_cell sid (job_key job) v r' store) = set_cell sid (job_key job) (Some (job_state job)) (Some r) store"
  using assms by (cases store) (simp add: put_back_def set_cell_def)

lemma run_job_keeps:
  assumes "run_job ops reduce job = (res, job')"
  shows "job_key job' = job_key job" and "job_index job' = job_index job"
    and "res = Inr x \<Longrightarrow> fst x = job_key job \<and> (\<exists>r. job_reference job' = Some r)"
  using assms by (auto simp: run_job_def split: prod.splits sum.splits)

lemma grid_index_upd [simp]: "grid_index (fst (set_cell sid k v r store)) = grid_index (fst store)"
  by (cases store) (simp add: set_cell_def split: option.split)

text \<open>The jobs of a round are for its tiles and carry their slots.\<close>

lemma prepare_round_jobs:
  assumes "store_ok store" and "prepare_round ops ctx ts store = (failure, jobs, store')"
  shows "store_ok store' \<and> grid_index (fst store') = grid_index (fst store) \<and>
    (\<forall>job \<in> set jobs. job_key job \<in> set (map tile_key ts) \<and> grid_index (fst store) (job_key job) = Some (job_index job))"
  using assms
proof (induction ts arbitrary: store jobs store')
  case (Cons t ts)
  obtain res st where p: "prepare ops ctx t store = (res, st)" by (meson surj_pair)
  have st: "store_ok st" "grid_index (fst st) = grid_index (fst store)"
    using prepare_store_ok [OF _ p] Cons.prems(1) p by (auto simp: prepare_eq)
  consider (err) e where "res = Inl e" | (skip) "res = Inr None" | (job) job where "res = Inr (Some job)"
    by (metis old.sum.exhaust option.exhaust)
  then show ?case
  proof cases
    case err
    then show ?thesis using Cons.prems p st by simp
  next
    case skip
    then show ?thesis using Cons.IH [OF st(1), of jobs store'] Cons.prems(2) p st(2) by simp
  next
    case (job j)
    obtain jobs' where j: "prepare_round ops ctx ts st = (failure, jobs', store')" "jobs = j # jobs'"
      using Cons.prems(2) p job by (auto split: prod.splits)
    then show ?thesis
      using Cons.IH [OF st(1) j(1)] st(2) prepare_job(1,4) [OF Cons.prems(1), of ops ctx t j st] p job by simp
  qed
qed simp

text \<open>What a round does when no tile of it fails.\<close>

definition round_result ::
  "('s, 'q, 'r) rfx_ops \<Rightarrow> 'q RegionCtx \<Rightarrow> ProgressiveTile list \<Rightarrow> ('s SurfaceTiles \<times> References) \<times> Decoded \<Rightarrow>
     (('s SurfaceTiles \<times> References) \<times> Decoded) option" where
  "round_result ops ctx ts st =
     (case prepare_round ops ctx ts (fst st) of
        (failure, jobs, store) \<Rightarrow>
          let ran = map (run_job ops (rc_reduce ctx)) jobs
          in if failure \<noteq> None then None
             else (case collect_results (snd st) (map fst ran) of
                 Inl e \<Rightarrow> None
               | Inr decoded \<Rightarrow> Some (fold (put_back (rc_surface ctx)) (map snd ran) store, decoded)))"

lemma round_in_order:
  assumes "store_ok (fst st)" and "distinct (map tile_key ts)"
  shows "round_result ops ctx ts st = tiles_in_order ops ctx ts st"
  using assms
proof (induction ts arbitrary: st)
  case Nil
  then show ?case by (cases st) (simp add: round_result_def)
next
  case (Cons t ts)
  obtain store decoded where st: "st = (store, decoded)" by (cases st)
  let ?sid = "rc_surface ctx" and ?k = "tile_key t"
  obtain res store1 where p: "prepare ops ctx t store = (res, store1)" by (meson surj_pair)
  have ok: "store_ok store" "store_ok store1" using Cons.prems(1) prepare_store_ok [OF _ p] by (auto simp: st)
  consider (err) e where "res = Inl e" | (skip) "res = Inr None" | (job) job where "res = Inr (Some job)"
    by (metis old.sum.exhaust option.exhaust)
  then show ?case
  proof cases
    case err
    then show ?thesis using p by (simp add: st round_result_def tile_in_order_def)
  next
    case skip
    then have "round_result ops ctx (t # ts) st = round_result ops ctx ts (store1, decoded)"
      using p by (cases "prepare_round ops ctx ts store1") (simp add: st round_result_def Let_def)
    then show ?thesis
      using Cons.IH [of "(store1, decoded)"] Cons.prems ok p skip by (simp add: st tile_in_order_def)
  next
    case (job j)
    note pj = prepare_job [OF ok(1), of ops ctx t j store1, OF p [unfolded job]]
    obtain r j' where run: "run_job ops (rc_reduce ctx) j = (r, j')" by (meson surj_pair)
    note rj = run_job_keeps [OF run]
    obtain failure jobs store2 where q: "prepare_round ops ctx ts store = (failure, jobs, store2)" by (meson prod_cases3)
    have other: "prepare_round ops ctx ts (set_cell ?sid ?k v c store) = (failure, jobs, set_cell ?sid ?k v c store2)" for v c
      using prepare_round_other [OF ok(1), of ?k ts ops ctx v c] Cons.prems(2) q by simp
    have jobs: "store_ok store2" "grid_index (fst store2) = grid_index (fst store)"
      "\<forall>job \<in> set jobs. job_key job \<noteq> ?k \<and> grid_index (fst store2) (job_key job) = Some (job_index job)"
      using prepare_round_jobs [OF ok(1) q] Cons.prems(2) by (auto, metis image_eqI image_set)
    show ?thesis
    proof (cases r)
      case (Inl e)
      then show ?thesis
        using p job run other [of None None] pj(3)
        by (simp add: st round_result_def tile_in_order_def Let_def)
    next
      case (Inr x)
      obtain c where c: "fst x = job_key j" "job_reference j' = Some c" using rj(3) [OF Inr] by blast
      let ?up = "set_cell ?sid ?k (Some (job_state j')) (Some c)"
      have returned: "put_back ?sid j' (set_cell ?sid ?k None None s) = ?up s" if "grid_index (fst s) = grid_index (fst store)" for s
        using put_back_upd [of s j' c ?sid None None] that rj(1,2) pj(1,4) c(2) by simp
      have step: "tile_in_order ops ctx t st = Some (?up store, decoded(?k \<mapsto> snd x))"
        using p job run returned [of store] pj c(1) Inr by (cases x) (simp add: st tile_in_order_def)
      have "round_result ops ctx (t # ts) st = round_result ops ctx ts (?up store, decoded(?k \<mapsto> snd x))"
      proof -
        obtain px where "x = (?k, px)" using c(1) pj(1) by (cases x) simp
        then show ?thesis
          using p job other pj(3) run Inr returned [of store2] jobs(2)
          by (simp add: st round_result_def Let_def split: sum.split)
      qed
      also have "\<dots> = tiles_in_order ops ctx ts (?up store, decoded(?k \<mapsto> snd x))"
        using Cons.prems ok(1) by (intro Cons.IH) simp_all
      finally show ?thesis using step by simp
    qed
  qed
qed

subsection \<open>Tiles of different keys commute\<close>

definition tile_cell ::
  "('s, 'q, 'r) rfx_ops \<Rightarrow> 'q RegionCtx \<Rightarrow> ProgressiveTile \<Rightarrow> 's SurfaceTiles \<times> References \<Rightarrow>
     ('s option \<times> Coeffs option \<times> u8 list option) option" where
  "tile_cell ops ctx t store =
     (case prepare_cell ops ctx t store of
        (Inl e, _) \<Rightarrow> None
      | (Inr None, v, c) \<Rightarrow> Some (v, c, None)
      | (Inr (Some job), _) \<Rightarrow>
          (case run_job ops (rc_reduce ctx) job of
             (Inl e, _) \<Rightarrow> None
           | (Inr (k, px), job) \<Rightarrow> Some (Some (job_state job), job_reference job, Some px)))"

definition note_pixels :: "TileKey \<Rightarrow> u8 list option \<Rightarrow> Decoded \<Rightarrow> Decoded" where
  "note_pixels k px decoded = (case px of None \<Rightarrow> decoded | Some p \<Rightarrow> decoded(k \<mapsto> p))"

lemma tile_in_order_cell:
  assumes "store_ok store"
  shows "tile_in_order ops ctx t (store, decoded) =
    map_option (\<lambda>(v, c, px). (set_cell (rc_surface ctx) (tile_key t) v c store, note_pixels (tile_key t) px decoded))
      (tile_cell ops ctx t store)"
proof -
  obtain res v c where cell: "prepare_cell ops ctx t store = (res, v, c)" by (metis surj_pair)
  have p: "prepare ops ctx t store = (res, set_cell (rc_surface ctx) (tile_key t) v c store)"
    using prepare_eq [OF assms, of ops ctx t] cell by simp
  consider (err) e where "res = Inl e" | (skip) "res = Inr None" | (job) job where "res = Inr (Some job)"
    by (metis old.sum.exhaust option.exhaust)
  then show ?thesis
  proof cases
    case (job j)
    note pj = prepare_job [OF assms p [unfolded job]]
    obtain r j' where run: "run_job ops (rc_reduce ctx) j = (r, j')" by (meson surj_pair)
    show ?thesis
    proof (cases r)
      case (Inr x)
      obtain px where x: "r = Inr (job_key j, px)" using run_job_keeps(3) [OF run Inr] Inr by (metis prod.collapse)
      obtain c' where c': "job_reference j' = Some c'" using run_job_keeps(3) [OF run Inr] by blast
      have "put_back (rc_surface ctx) j' (set_cell (rc_surface ctx) (tile_key t) v c store) =
          set_cell (rc_surface ctx) (tile_key t) (Some (job_state j')) (Some c') store"
        using put_back_upd [of store j' c' "rc_surface ctx" v c] run_job_keeps(1,2) [OF run] pj(1,4) c' by simp
      then show ?thesis
        using p cell run pj(1) x c' by (simp add: tile_in_order_def tile_cell_def job note_pixels_def)
    qed (use p cell run in \<open>simp add: tile_in_order_def tile_cell_def job\<close>)
  qed (use p cell in \<open>simp_all add: tile_in_order_def tile_cell_def note_pixels_def\<close>)
qed

lemma tile_cell_other:
  "store_ok store \<Longrightarrow> k \<noteq> tile_key t \<Longrightarrow> tile_cell ops ctx t (set_cell (rc_surface ctx) k v c store) = tile_cell ops ctx t store"
  by (simp add: tile_cell_def prepare_cell_other)

lemma tile_swap:
  assumes "store_ok (fst st)" and "tile_key t \<noteq> tile_key u"
  shows "Option.bind (tile_in_order ops ctx t st) (tile_in_order ops ctx u) =
    Option.bind (tile_in_order ops ctx u st) (tile_in_order ops ctx t)"
proof -
  obtain store decoded where st: "st = (store, decoded)" by (cases st)
  have "note_pixels (tile_key u) px (note_pixels (tile_key t) px' d) = note_pixels (tile_key t) px' (note_pixels (tile_key u) px d)" for px px' d
    using assms(2) by (auto simp: note_pixels_def fun_upd_twist split: option.split)
  then show ?thesis
    using assms
    by (cases "tile_cell ops ctx t store"; cases "tile_cell ops ctx u store")
      (auto simp: st tile_in_order_cell tile_cell_other case_prod_unfold upd_swap [OF assms(2)])
qed

lemma tile_in_order_ok: "store_ok (fst st) \<Longrightarrow> tile_in_order ops ctx t st = Some st' \<Longrightarrow> store_ok (fst st')"
  by (cases st) (auto simp: tile_in_order_cell)

lemma tile_to_end:
  assumes "store_ok (fst st)" and "tile_key t \<notin> set (map tile_key us)"
  shows "tiles_in_order ops ctx (t # us) st = tiles_in_order ops ctx (us @ [t]) st"
  using assms
proof (induction us arbitrary: st)
  case Nil
  then show ?case by simp
next
  case (Cons u us)
  have "tiles_in_order ops ctx (t # u # us) st =
      Option.bind (Option.bind (tile_in_order ops ctx t st) (tile_in_order ops ctx u)) (tiles_in_order ops ctx us)"
    by (cases "tile_in_order ops ctx t st") simp_all
  also have "\<dots> = Option.bind (Option.bind (tile_in_order ops ctx u st) (tile_in_order ops ctx t)) (tiles_in_order ops ctx us)"
    using Cons.prems by (subst tile_swap) simp_all
  also have "\<dots> = Option.bind (tile_in_order ops ctx u st) (tiles_in_order ops ctx (t # us))"
    by (cases "tile_in_order ops ctx u st") simp_all
  also have "\<dots> = tiles_in_order ops ctx ((u # us) @ [t]) st"
  proof (cases "tile_in_order ops ctx u st")
    case (Some st')
    then show ?thesis
      using Cons.IH [of st'] Cons.prems tile_in_order_ok [OF Cons.prems(1) Some] by simp
  qed simp
  finally show ?case .
qed

lemma tiles_in_order_ok: "store_ok (fst st) \<Longrightarrow> tiles_in_order ops ctx ts st = Some st' \<Longrightarrow> store_ok (fst st')"
  by (induction ts arbitrary: st) (auto split: bind_splits dest: tile_in_order_ok)

lemma tile_to_end_append:
  assumes "store_ok (fst st)" and "tile_key t \<notin> set (map tile_key bs)"
  shows "tiles_in_order ops ctx (as @ [t] @ bs @ cs) st = tiles_in_order ops ctx (as @ bs @ [t] @ cs) st"
proof (cases "tiles_in_order ops ctx as st")
  case (Some st')
  have "tiles_in_order ops ctx ((t # bs) @ cs) st' = tiles_in_order ops ctx ((bs @ [t]) @ cs) st'"
    using tile_to_end [OF tiles_in_order_ok [OF assms(1) Some] assms(2), of ops ctx] by (simp only: tiles_in_order_append)
  then show ?thesis using Some by (simp add: tiles_in_order_append)
qed (simp add: tiles_in_order_append)

subsection \<open>The rounds\<close>

definition rounds_inv :: "(TileKey \<Rightarrow> nat) \<Rightarrow> ProgressiveTile list list \<Rightarrow> bool" where
  "rounds_inv seen rounds \<longleftrightarrow>
     (\<forall>n < length rounds. distinct (map tile_key (rounds ! n)) \<and> (\<forall>t \<in> set (rounds ! n). n < seen (tile_key t))) \<and>
     (\<forall>k. seen k \<le> length rounds)"

lemma push_round_split:
  assumes "rounds_inv seen rounds"
  shows "\<exists>as bs. concat rounds = as @ bs \<and> concat (push_round (seen (tile_key t)) t rounds) = as @ [t] @ bs \<and>
    tile_key t \<notin> set (map tile_key bs)"
proof -
  let ?n = "seen (tile_key t)"
  have n: "?n \<le> length rounds" using assms unfolding rounds_inv_def by blast
  show ?thesis
  proof (cases "?n = length rounds")
    case True
    then show ?thesis by (intro exI [of _ "concat rounds"] exI [of _ "[]"]) (simp add: push_round_def Let_def)
  next
    case False
    then have lt: "?n < length rounds" using n by simp
    let ?as = "concat (take ?n rounds) @ rounds ! ?n" and ?bs = "concat (drop (Suc ?n) rounds)"
    have "tile_key t \<noteq> tile_key u" if u: "u \<in> set ?bs" for u
    proof -
      obtain r where r: "r \<in> set (drop (Suc ?n) rounds)" "u \<in> set r" using u by auto
      obtain j where "j < length (drop (Suc ?n) rounds)" "drop (Suc ?n) rounds ! j = r" using r(1) by (metis in_set_conv_nth)
      then have "Suc ?n + j < length rounds" "u \<in> set (rounds ! (Suc ?n + j))" using r(2) by auto
      moreover obtain m where "m = Suc ?n + j" by simp
      ultimately have "m < length rounds" "?n < m" "u \<in> set (rounds ! m)" by auto
      then have "m < seen (tile_key u)" using assms unfolding rounds_inv_def by blast
      then show ?thesis using \<open>?n < m\<close> by auto
    qed
    then have "tile_key t \<notin> set (map tile_key ?bs)" by auto
    moreover have "concat rounds = ?as @ ?bs"
      using id_take_nth_drop [OF lt] by (metis append.assoc concat.simps(2) concat_append)
    moreover have "concat (push_round ?n t rounds) = ?as @ [t] @ ?bs"
      using lt by (simp add: push_round_def upd_conv_take_nth_drop Let_def)
    ultimately show ?thesis by blast
  qed
qed

lemma push_round_inv:
  assumes "rounds_inv seen rounds"
  shows "rounds_inv (seen(tile_key t := seen (tile_key t) + 1)) (push_round (seen (tile_key t)) t rounds)"
  unfolding rounds_inv_def
proof (intro conjI allI impI)
  let ?k = "tile_key t" and ?n = "seen (tile_key t)"
  have I: "\<And>n. n < length rounds \<Longrightarrow> distinct (map tile_key (rounds ! n)) \<and> (\<forall>t \<in> set (rounds ! n). n < seen (tile_key t))"
    "\<And>k. seen k \<le> length rounds" using assms by (auto simp: rounds_inv_def)
  have len: "length (push_round ?n t rounds) = (if ?n = length rounds then Suc (length rounds) else length rounds)"
    using I(2) [of ?k] by (auto simp: push_round_def Let_def)
  have nth: "push_round ?n t rounds ! m =
      (if m = ?n then (if ?n = length rounds then [t] else rounds ! ?n @ [t]) else rounds ! m)"
    if "m < length (push_round ?n t rounds)" for m
    using that I(2) [of ?k] by (auto simp: push_round_def nth_append nth_list_update Let_def split: if_splits)
  show "(seen(?k := ?n + 1)) k \<le> length (push_round ?n t rounds)" for k
    using I(2) [of k] I(2) [of ?k] len by auto
  fix m
  assume m: "m < length (push_round ?n t rounds)"
  show "distinct (map tile_key (push_round ?n t rounds ! m))"
    using m I(1) [of m] I(2) [of ?k] nth [OF m] len by (fastforce split: if_splits)
  show "\<forall>u \<in> set (push_round ?n t rounds ! m). m < (seen(?k := ?n + 1)) (tile_key u)"
    using m I(1) [of m] I(2) [of ?k] nth [OF m] len by (fastforce split: if_splits)
qed

lemma rounds_of_in_order:
  assumes "store_ok (fst st)" and "rounds_inv seen rounds"
  shows "tiles_in_order ops ctx (concat (rounds_of seen rounds ts)) st = tiles_in_order ops ctx (concat rounds @ ts) st"
  using assms(2)
proof (induction ts arbitrary: seen rounds)
  case (Cons t ts)
  obtain as bs where s: "concat rounds = as @ bs" "concat (push_round (seen (tile_key t)) t rounds) = as @ [t] @ bs"
    "tile_key t \<notin> set (map tile_key bs)"
    using push_round_split [OF Cons.prems] by blast
  have "tiles_in_order ops ctx (concat (rounds_of seen rounds (t # ts))) st =
      tiles_in_order ops ctx (concat (push_round (seen (tile_key t)) t rounds) @ ts) st"
    using Cons.IH [OF push_round_inv [OF Cons.prems, of t]] by (simp only: rounds_of.simps Let_def)
  also have "\<dots> = tiles_in_order ops ctx (as @ [t] @ bs @ ts) st" by (simp only: s(2) append_assoc)
  also have "\<dots> = tiles_in_order ops ctx (concat rounds @ t # ts) st"
    using tile_to_end_append [OF assms(1) s(3), of ops ctx as ts] s(1) by simp
  finally show ?case .
qed simp

lemma rounds_of_inv: "rounds_inv seen rounds \<Longrightarrow> \<exists>seen'. rounds_inv seen' (rounds_of seen rounds ts)"
proof (induction ts arbitrary: seen rounds)
  case (Cons t ts)
  then show ?case using push_round_inv [OF Cons.prems, of t] by (simp add: Let_def)
qed auto

definition finished :: "(CodecError, Decoded) result \<times> 's SurfaceTiles \<times> References \<Rightarrow> (('s SurfaceTiles \<times> References) \<times> Decoded) option" where
  "finished r = (case r of (Inl e, _) \<Rightarrow> None | (Inr decoded, store) \<Rightarrow> Some (store, decoded))"

lemma decode_rounds_in_order:
  assumes "store_ok store" and "\<forall>round \<in> set rounds. distinct (map tile_key round)"
  shows "finished (decode_rounds ops ctx rounds decoded store) = tiles_in_order ops ctx (concat rounds) (store, decoded)"
  using assms
proof (induction rounds arbitrary: decoded store)
  case Nil
  then show ?case by (simp add: finished_def)
next
  case (Cons round rounds)
  have r: "round_result ops ctx round (store, decoded) = tiles_in_order ops ctx round (store, decoded)"
    using Cons.prems by (intro round_in_order) simp_all
  have "finished (decode_rounds ops ctx (round # rounds) decoded store) =
      Option.bind (round_result ops ctx round (store, decoded)) (\<lambda>(store, decoded). finished (decode_rounds ops ctx rounds decoded store))"
    by (auto simp: finished_def round_result_def case_prod_unfold Let_def split: option.split sum.split)
  also have "\<dots> = Option.bind (tiles_in_order ops ctx round (store, decoded)) (tiles_in_order ops ctx (concat rounds))"
  proof (cases "tiles_in_order ops ctx round (store, decoded)")
    case (Some st)
    then show ?thesis
      using r Cons.IH [of "fst st" "snd st"] Cons.prems tiles_in_order_ok [OF _ Some] by (simp add: case_prod_unfold)
  qed (simp add: r)
  finally show ?case by (simp add: tiles_in_order_append)
qed

text \<open>C6: Decoding the tiles of a region in parallel rounds succeeds exactly when decoding them one after the other does,
  and leaves the same tiles, the same references and the same pixels, whatever tiles the region repeats.\<close>

theorem rounds_like_sequence:
  assumes "grid_ok (fst store)"
  shows "finished (decode_region_tiles ops ctx store) = tiles_in_order ops ctx (rg_tiles (rc_region ctx)) (store, Map.empty)"
proof -
  have inv: "rounds_inv (\<lambda>_. 0) []" by (simp add: rounds_inv_def)
  then obtain seen where "rounds_inv seen (rounds_of (\<lambda>_. 0) [] (rg_tiles (rc_region ctx)))"
    using rounds_of_inv by blast
  then have "\<forall>round \<in> set (rounds_of (\<lambda>_. 0) [] (rg_tiles (rc_region ctx))). distinct (map tile_key round)"
    by (auto simp: rounds_inv_def in_set_conv_nth)
  then show ?thesis
    using assms rounds_of_in_order [OF _ inv, of "(store, Map.empty)" ops ctx "rg_tiles (rc_region ctx)"]
    by (simp add: decode_region_tiles_def decode_rounds_in_order store_ok_def)
qed

subsection \<open>A concrete library\<close>

text \<open>An instance of the vendored library for the witnesses: a tile counts its passes, a region counts its rectangles.\<close>

definition toy_first :: "TileKey \<Rightarrow> u8 list list \<Rightarrow> FirstTile" where
  "toy_first k d = \<lparr>ft_key = k, ft_flags = 0, ft_quant_idx = [0, 0, 0], ft_data = d\<rparr>"

definition toy_pixels :: "u8 list" where "toy_pixels = replicate 16384 0"

definition toy_region :: "unit ProgressiveRegion" where
  "toy_region = \<lparr>rg_rects = [\<lparr>rf_x = 0, rf_y = 0, rf_width = 100, rf_height = 50\<rparr>], rg_quant_vals = [()], rg_quant_prog_vals = [],
     rg_tiles = [TileSimple (toy_first (0, 0) [[1]]), TileSimple (toy_first (1, 0) [[1]]), TileSimple (toy_first (0, 0) [[1]])]\<rparr>"

definition toy_rfx :: "(nat, unit, nat) rfx_ops" where
  "toy_rfx =
     \<lparr>op_parse = \<lambda>_. Inr [BlockFrameBegin, BlockContext True, BlockRegion toy_region, BlockFrameEnd],
      op_max_dim = 32768,
      op_grid_new = \<lambda>w h reduce. Some \<lparr>gr_wide = div_tiles w, gr_high = div_tiles h,
        gr_tiles = replicate (unat (div_tiles w) * unat (div_tiles h)) None, gr_reduce = reduce\<rparr>,
      op_tile_new = \<lambda>_. 0, op_pass = \<lambda>n. n,
      op_decode_first = \<lambda>d _ _ _ _ _ n. (if d = [] then Inl [] else Inr (), n + 1),
      op_decode_upgrade = \<lambda>_ _ _ _ n. (Inr (), n + 1),
      op_coeffs = \<lambda>n. [[int n]], op_set_difference = \<lambda>_ n. n, op_rgba = \<lambda>_. toy_pixels,
      op_lossless = (), op_region_new = 0, op_rectangles = \<lambda>n. n, op_union = \<lambda>_ n. n + 1,
      op_intersect = \<lambda>r _. (if in_left r \<le> in_right r \<and> in_top r \<le> in_bottom r then [r] else [])\<rparr>"

definition toy_ctx :: "unit RegionCtx" where
  "toy_ctx = \<lparr>rc_surface = 7, rc_reduce = True, rc_region = toy_region\<rparr>"

definition toy_grid :: "nat SurfaceTiles" where
  "toy_grid = \<lparr>gr_wide = 2, gr_high = 1, gr_tiles = [None, None], gr_reduce = True\<rparr>"

lemma toy_ops:
  "op_parse toy_rfx d = Inr [BlockFrameBegin, BlockContext True, BlockRegion toy_region, BlockFrameEnd]"
  "op_max_dim toy_rfx = 32768"
  "op_grid_new toy_rfx w h reduce = Some \<lparr>gr_wide = div_tiles w, gr_high = div_tiles h,
     gr_tiles = replicate (unat (div_tiles w) * unat (div_tiles h)) None, gr_reduce = reduce\<rparr>"
  "op_tile_new toy_rfx reduce = 0" "op_pass toy_rfx n = n"
  "op_decode_first toy_rfx ds base prog idx q reduce n = (if ds = [] then Inl [] else Inr (), n + 1)"
  "op_coeffs toy_rfx n = [[int n]]" "op_lossless toy_rfx = ()" "op_region_new toy_rfx = 0" "op_rectangles toy_rfx m = m"
  "op_union toy_rfx r m = m + 1" "op_intersect toy_rfx r m = (if in_left r \<le> in_right r \<and> in_top r \<le> in_bottom r then [r] else [])"
  by (simp_all add: toy_rfx_def)

lemmas toy_defs = toy_ops toy_ctx_def toy_grid_def toy_region_def toy_first_def

text \<open>The region repeats its first tile: both orders give it two passes and its neighbour one.\<close>

theorem rounds_like_sequence_witness:
  "finished (decode_region_tiles toy_rfx toy_ctx (toy_grid, Map.empty)) =
     tiles_in_order toy_rfx toy_ctx (rg_tiles toy_region) ((toy_grid, Map.empty), Map.empty) \<and>
   map_option (\<lambda>(store, decoded). (gr_tiles (fst store), snd store (7, 0, 0)))
     (finished (decode_region_tiles toy_rfx toy_ctx (toy_grid, Map.empty))) = Some ([Some 2, Some 1], Some [[2]])"
proof -
  have eq: "finished (decode_region_tiles toy_rfx toy_ctx (toy_grid, Map.empty)) =
      tiles_in_order toy_rfx toy_ctx (rg_tiles toy_region) ((toy_grid, Map.empty), Map.empty)"
    using rounds_like_sequence [of "(toy_grid, Map.empty)" toy_rfx toy_ctx] by (simp add: toy_grid_def grid_ok_def toy_ctx_def)
  have "map_option (\<lambda>(store, decoded). (gr_tiles (fst store), snd store (7, 0, 0)))
      (tiles_in_order toy_rfx toy_ctx (rg_tiles toy_region) ((toy_grid, Map.empty), Map.empty)) = Some ([Some 2, Some 1], Some [[2]])"
    by (simp add: toy_defs tile_in_order_def prepare_def first_pass_def run_job_def run_pass_def put_back_def grid_index_def
        slot_at_def set_slot_def ensure_tile_def TILE_FLAG_DIFFERENCE_def Let_def)
  then show ?thesis using eq by simp
qed

end
