(* ===== verification/Codec_Progressive_Theorems.thy ===== *)
theory Codec_Progressive_Theorems
  imports Codec_Progressive_Rounds
begin

text \<open>
  Properties of the progressive decoder: what survives an error, what is drawn, and the graphics client's view of it.
\<close>

subsection \<open>Nothing is lost\<close>

lemma cell_pass_slot: "slot = Some s \<Longrightarrow> snd (cell_pass ops ctx t reduce ref slot) = Some s"
  by (cases t) (auto simp: cell_pass_def first_pass_def ensure_tile_def slot_at_def Let_def split: option.split)

definition slot_present :: "TileKey \<Rightarrow> 's SurfaceTiles \<times> References \<Rightarrow> bool" where
  "slot_present k store = (grid_get (fst store) k \<noteq> None)"

definition ref_present :: "u16 \<times> u16 \<times> u16 \<Rightarrow> 's SurfaceTiles \<times> References \<Rightarrow> bool" where
  "ref_present k store = (snd store k \<noteq> None)"

lemma upd_present:
  assumes "store_ok store"
  shows "slot_present k' (set_cell sid k v c store) = (if k' = k \<and> grid_index (fst store) k \<noteq> None then v \<noteq> None else slot_present k' store)"
    and "ref_present (s, k') (set_cell sid k v c store) =
      (if s = sid \<and> k' = k \<and> grid_index (fst store) k \<noteq> None then c \<noteq> None else ref_present (s, k') store)"
proof -
  obtain g refs where st: "store = (g, refs)" by (cases store)
  show "slot_present k' (set_cell sid k v c store) = (if k' = k \<and> grid_index (fst store) k \<noteq> None then v \<noteq> None else slot_present k' store)"
  proof (cases "grid_index g k")
    case (Some i)
    have i: "i < length (gr_tiles g)" using assms grid_index_lt [OF _ Some] by (simp add: st store_ok_def)
    show ?thesis
    proof (cases "grid_index g k'")
      case None
      then show ?thesis using Some by (auto simp: st set_cell_def slot_present_def grid_get_def)
    next
      case (Some j)
      then have "i = j \<longleftrightarrow> k' = k" using grid_index_inj \<open>grid_index g k = Some i\<close> by fastforce
      then show ?thesis
        using Some \<open>grid_index g k = Some i\<close> i by (auto simp: st set_cell_def slot_present_def grid_get_def slot_at_def)
    qed
  qed (auto simp: st set_cell_def)
  show "ref_present (s, k') (set_cell sid k v c store) =
      (if s = sid \<and> k' = k \<and> grid_index (fst store) k \<noteq> None then c \<noteq> None else ref_present (s, k') store)"
    by (auto simp: st set_cell_def ref_present_def split: option.split)
qed

lemma prepare_present:
  assumes "store_ok store" and "prepare ops ctx t store = (res, store')"
  shows "slot_present k store \<Longrightarrow> slot_present k store' \<or> (\<exists>job. res = Inr (Some job) \<and> job_key job = k)"
    and "ref_present (s, k) store \<Longrightarrow>
      ref_present (s, k) store' \<or> (\<exists>job. res = Inr (Some job) \<and> job_key job = k \<and> s = rc_surface ctx \<and> job_reference job \<noteq> None)"
proof -
  obtain g refs where st: "store = (g, refs)" by (cases store)
  obtain v c where cell: "prepare_cell ops ctx t store = (res, v, c)" and store': "store' = set_cell (rc_surface ctx) (tile_key t) v c store"
    using assms prepare_eq [OF assms(1), of ops ctx t] by (cases "prepare_cell ops ctx t store") auto
  {
    assume s: "slot_present k store"
    show "slot_present k store' \<or> (\<exists>job. res = Inr (Some job) \<and> job_key job = k)"
    proof (cases "k = tile_key t \<and> grid_index g (tile_key t) \<noteq> None")
      case True
      then obtain i where i: "grid_index g (tile_key t) = Some i" by blast
      then obtain x where "gr_tiles g ! i = Some x"
        using s True by (auto simp: slot_present_def st grid_get_def slot_at_def split: if_splits)
      then obtain r where cp: "cell_pass ops ctx t (gr_reduce g) (refs (rc_surface ctx, tile_key t)) (gr_tiles g ! i) = (r, Some x)"
        using cell_pass_slot [of "gr_tiles g ! i" x ops ctx t "gr_reduce g" "refs (rc_surface ctx, tile_key t)"]
        by (metis prod.collapse)
      have "v \<noteq> None \<or> (\<exists>job. res = Inr (Some job) \<and> job_key job = k)"
        using cell i True cp by (auto simp: st prepare_cell_def Let_def split: sum.splits option.splits)
      then show ?thesis
        using upd_present(1) [OF assms(1), of k "rc_surface ctx" "tile_key t" v c] True i by (auto simp: store' st)
    qed (use s upd_present(1) [OF assms(1)] in \<open>auto simp: store' st\<close>)
  next
    assume s: "ref_present (s, k) store"
    show "ref_present (s, k) store' \<or> (\<exists>job. res = Inr (Some job) \<and> job_key job = k \<and> s = rc_surface ctx \<and> job_reference job \<noteq> None)"
    proof (cases "s = rc_surface ctx \<and> k = tile_key t \<and> grid_index g (tile_key t) \<noteq> None")
      case True
      then show ?thesis
        using cell s upd_present(2) [OF assms(1)]
        by (auto simp: store' st prepare_cell_def ref_present_def Let_def split: prod.splits sum.splits option.splits)
    qed (use s upd_present(2) [OF assms(1)] in \<open>auto simp: store' st\<close>)
  }
qed

lemma prepare_round_present:
  assumes "store_ok store" and "prepare_round ops ctx ts store = (failure, jobs, store')"
  shows "slot_present k store \<Longrightarrow> slot_present k store' \<or> (\<exists>job \<in> set jobs. job_key job = k)"
    and "ref_present (s, k) store \<Longrightarrow>
      ref_present (s, k) store' \<or> (\<exists>job \<in> set jobs. job_key job = k \<and> s = rc_surface ctx \<and> job_reference job \<noteq> None)"
proof -
  have "(slot_present k store \<longrightarrow> slot_present k store' \<or> (\<exists>job \<in> set jobs. job_key job = k)) \<and>
    (ref_present (s, k) store \<longrightarrow>
      ref_present (s, k) store' \<or> (\<exists>job \<in> set jobs. job_key job = k \<and> s = rc_surface ctx \<and> job_reference job \<noteq> None))"
    using assms
  proof (induction ts arbitrary: store jobs store')
    case (Cons t ts)
    obtain res st where p: "prepare ops ctx t store = (res, st)" by (meson surj_pair)
    have ok: "store_ok st" using prepare_store_ok [OF Cons.prems(1) p] .
    have pp: "slot_present k store \<Longrightarrow> slot_present k st \<or> (\<exists>job. res = Inr (Some job) \<and> job_key job = k)"
      "ref_present (s, k) store \<Longrightarrow>
        ref_present (s, k) st \<or> (\<exists>job. res = Inr (Some job) \<and> job_key job = k \<and> s = rc_surface ctx \<and> job_reference job \<noteq> None)"
      using prepare_present [OF Cons.prems(1) p] by blast+
    consider (err) e where "res = Inl e" | (skip) "res = Inr None" | (job) job where "res = Inr (Some job)"
      by (metis old.sum.exhaust option.exhaust)
    then show ?case
    proof cases
      case err
      then show ?thesis using Cons.prems p pp by auto
    next
      case skip
      then show ?thesis using Cons.IH [OF ok, of jobs store'] Cons.prems p pp by auto
    next
      case (job j)
      then obtain jobs' where j: "prepare_round ops ctx ts st = (failure, jobs', store')" "jobs = j # jobs'"
        using Cons.prems(2) p by (auto split: prod.splits)
      show ?thesis using Cons.IH [OF ok j(1)] j(2) job pp by (simp; blast)
    qed
  qed auto
  then show "slot_present k store \<Longrightarrow> slot_present k store' \<or> (\<exists>job \<in> set jobs. job_key job = k)"
    and "ref_present (s, k) store \<Longrightarrow>
      ref_present (s, k) store' \<or> (\<exists>job \<in> set jobs. job_key job = k \<and> s = rc_surface ctx \<and> job_reference job \<noteq> None)"
    by blast+
qed

lemma put_back_present:
  assumes "store_ok store" and "\<forall>job \<in> set jobs. grid_index (fst store) (job_key job) = Some (job_index job)"
  shows "store_ok (fold (put_back sid) jobs store)"
    and "slot_present k store \<or> (\<exists>job \<in> set jobs. job_key job = k) \<Longrightarrow> slot_present k (fold (put_back sid) jobs store)"
    and "ref_present (s, k) store \<or> (\<exists>job \<in> set jobs. job_key job = k \<and> s = sid \<and> job_reference job \<noteq> None) \<Longrightarrow>
      ref_present (s, k) (fold (put_back sid) jobs store)"
proof -
  have "store_ok (fold (put_back sid) jobs store) \<and>
    (slot_present k store \<or> (\<exists>job \<in> set jobs. job_key job = k) \<longrightarrow> slot_present k (fold (put_back sid) jobs store)) \<and>
    (ref_present (s, k) store \<or> (\<exists>job \<in> set jobs. job_key job = k \<and> s = sid \<and> job_reference job \<noteq> None) \<longrightarrow>
      ref_present (s, k) (fold (put_back sid) jobs store))"
    using assms
  proof (induction jobs arbitrary: store)
    case (Cons job jobs)
    let ?c = "case job_reference job of None \<Rightarrow> snd store (sid, job_key job) | Some r \<Rightarrow> Some r"
    have i: "grid_index (fst store) (job_key job) = Some (job_index job)" using Cons.prems(2) by simp
    have eq: "put_back sid job store = set_cell sid (job_key job) (Some (job_state job)) ?c store"
      using i by (cases store) (auto simp: put_back_def set_cell_def split: option.split)
    note p = upd_present(1) [OF Cons.prems(1), of k sid "job_key job" "Some (job_state job)" ?c]
      upd_present(2) [OF Cons.prems(1), of s k sid "job_key job" "Some (job_state job)" ?c]
    have "slot_present k store \<or> job_key job = k \<Longrightarrow> slot_present k (put_back sid job store)"
      and "ref_present (s, k) store \<or> job_key job = k \<and> s = sid \<and> job_reference job \<noteq> None \<Longrightarrow>
        ref_present (s, k) (put_back sid job store)"
      using p i by (auto simp: eq ref_present_def split: option.split)
    moreover have "store_ok (put_back sid job store)" "grid_index (fst (put_back sid job store)) = grid_index (fst store)"
      using Cons.prems(1) by (simp_all add: eq)
    ultimately show ?case using Cons.IH [of "put_back sid job store"] Cons.prems(2) by auto
  qed simp
  then show "store_ok (fold (put_back sid) jobs store)"
    and "slot_present k store \<or> (\<exists>job \<in> set jobs. job_key job = k) \<Longrightarrow> slot_present k (fold (put_back sid) jobs store)"
    and "ref_present (s, k) store \<or> (\<exists>job \<in> set jobs. job_key job = k \<and> s = sid \<and> job_reference job \<noteq> None) \<Longrightarrow>
      ref_present (s, k) (fold (put_back sid) jobs store)"
    by blast+
qed

lemma run_job_reference: "job_reference job \<noteq> None \<Longrightarrow> job_reference (snd (run_job ops reduce job)) \<noteq> None"
  by (auto simp: run_job_def split: prod.split sum.split)

lemma decode_rounds_present:
  assumes "store_ok store" and "decode_rounds ops ctx rounds decoded store = (res, store')"
  shows "(slot_present k store \<longrightarrow> slot_present k store') \<and> (ref_present (s, k) store \<longrightarrow> ref_present (s, k) store')"
  using assms
proof (induction rounds arbitrary: decoded store)
  case (Cons round rounds)
  obtain failure jobs st where p: "prepare_round ops ctx round store = (failure, jobs, st)" by (meson prod_cases3)
  let ?ran = "map (run_job ops (rc_reduce ctx)) jobs"
  let ?jobs = "if failure = None then map snd ?ran else jobs"
  let ?st = "fold (put_back (rc_surface ctx)) ?jobs st"
  note pj = prepare_round_jobs [OF Cons.prems(1) p] and pp = prepare_round_present [OF Cons.prems(1) p]
  have same: "job_key (snd (run_job ops (rc_reduce ctx) job)) = job_key job"
    "job_index (snd (run_job ops (rc_reduce ctx) job)) = job_index job" for job :: "('a, 'b) Job"
    using run_job_keeps(1,2) [of ops "rc_reduce ctx" job "fst (run_job ops (rc_reduce ctx) job)" "snd (run_job ops (rc_reduce ctx) job)"]
    by simp_all
  have idx: "\<forall>job \<in> set ?jobs. grid_index (fst st) (job_key job) = Some (job_index job)"
    using pj same by auto
  have kept: "(slot_present k store \<longrightarrow> slot_present k ?st) \<and> (ref_present (s, k) store \<longrightarrow> ref_present (s, k) ?st)"
  proof (intro conjI impI)
    assume "slot_present k store"
    then have "slot_present k st \<or> (\<exists>job \<in> set ?jobs. job_key job = k)" using pp(1) [of k] same by auto
    then show "slot_present k ?st" using put_back_present(2) idx pj by blast
  next
    assume "ref_present (s, k) store"
    then have "ref_present (s, k) st \<or> (\<exists>job \<in> set jobs. job_key job = k \<and> s = rc_surface ctx \<and> job_reference job \<noteq> None)"
      using pp(2) by blast
    then have "ref_present (s, k) st \<or> (\<exists>job \<in> set ?jobs. job_key job = k \<and> s = rc_surface ctx \<and> job_reference job \<noteq> None)"
    proof (elim disjE bexE)
      fix job
      assume job: "job \<in> set jobs" "job_key job = k \<and> s = rc_surface ctx \<and> job_reference job \<noteq> None"
      let ?job = "if failure = None then snd (run_job ops (rc_reduce ctx) job) else job"
      have "?job \<in> set ?jobs" using job(1) by simp
      moreover have "job_key ?job = k \<and> s = rc_surface ctx \<and> job_reference ?job \<noteq> None"
        using job(2) same [of job] run_job_reference [of job ops "rc_reduce ctx"] by auto
      ultimately show ?thesis by blast
    qed blast
    then show "ref_present (s, k) ?st" using put_back_present(3) idx pj by blast
  qed
  have ok: "store_ok ?st" using put_back_present(1) idx pj by blast
  show ?case
  proof (cases "failure = None")
    case False
    then show ?thesis using Cons.prems(2) p kept by (auto simp: Let_def)
  next
    case True
    show ?thesis
    proof (cases "collect_results decoded (map fst ?ran)")
      case (Inl e)
      then show ?thesis using Cons.prems(2) p kept True by (simp add: Let_def)
    next
      case (Inr d)
      then have "decode_rounds ops ctx rounds d ?st = (res, store')"
        using Cons.prems(2) p True by (simp add: Let_def)
      then show ?thesis using Cons.IH [OF ok] kept by blast
    qed
  qed
qed simp

text \<open>C35: Decoding a region never loses a tile or a difference reference of its surface, not even when a tile of it is
  malformed or its entropy decoding fails: every slot that held a tile and every reference is there afterwards.\<close>

theorem tiles_survive_errors:
  assumes "grid_ok (fst store)" and "decode_region_tiles ops ctx store = (res, store')"
  shows "(grid_get (fst store) k \<noteq> None \<longrightarrow> grid_get (fst store') k \<noteq> None) \<and>
    (snd store (s, k) \<noteq> None \<longrightarrow> snd store' (s, k) \<noteq> None)"
  using decode_rounds_present [of store ops ctx _ _ res store' k s] assms
  by (simp add: decode_region_tiles_def store_ok_def slot_present_def ref_present_def)

text \<open>The second tile of this region fails to decode: the tile and the reference that were there stay.\<close>

definition toy_broken :: "unit RegionCtx" where
  "toy_broken = \<lparr>rc_surface = 7, rc_reduce = True, rc_region = toy_region\<lparr>rg_tiles :=
     [TileSimple (toy_first (0, 0) [[1]]), TileSimple (toy_first (1, 0) [])]\<rparr>\<rparr>"

definition toy_store :: "nat SurfaceTiles \<times> References" where
  "toy_store = (\<lparr>gr_wide = 2, gr_high = 1, gr_tiles = [Some 5, None], gr_reduce = True\<rparr>, [(7, 0, 0) \<mapsto> [[5]]])"

theorem tiles_survive_errors_witness:
  "\<exists>e store'. decode_region_tiles toy_rfx toy_broken toy_store = (Inl e, store') \<and>
     grid_get (fst store') (0, 0) \<noteq> None \<and> snd store' (7, 0, 0) \<noteq> None"
proof -
  have "\<exists>e store'. decode_region_tiles toy_rfx toy_broken toy_store = (Inl e, store')"
    by (simp add: toy_defs toy_broken_def toy_store_def decode_region_tiles_def push_round_def prepare_def first_pass_def run_job_def
        run_pass_def put_back_def grid_index_def slot_at_def set_slot_def ensure_tile_def TILE_FLAG_DIFFERENCE_def Let_def)
  then obtain e store' where d: "decode_region_tiles toy_rfx toy_broken toy_store = (Inl e, store')" by blast
  have "grid_ok (fst toy_store)" "grid_get (fst toy_store) (0, 0) \<noteq> None" "snd toy_store (7, 0, 0) \<noteq> None"
    by (simp_all add: toy_store_def grid_ok_def grid_get_def grid_index_def slot_at_def)
  then show ?thesis using tiles_survive_errors [OF _ d, of "(0, 0)" 7] d by blast
qed

subsection \<open>What is drawn\<close>

text \<open>The documented behaviour of the library: an intersection lies in the rectangle it is taken with, and a tile has
  64 by 64 pixels of four bytes.\<close>

definition rect_in :: "InclusiveRectangle \<Rightarrow> InclusiveRectangle \<Rightarrow> bool" where
  "rect_in q r = (in_left r \<le> in_left q \<and> in_left q \<le> in_right q \<and> in_right q \<le> in_right r \<and>
     in_top r \<le> in_top q \<and> in_top q \<le> in_bottom q \<and> in_bottom q \<le> in_bottom r)"

definition library_contract :: "('s, 'q, 'r) rfx_ops \<Rightarrow> bool" where
  "library_contract ops \<longleftrightarrow>
     (\<forall>r c. \<forall>q \<in> set (op_intersect ops r c). rect_in q r) \<and> (\<forall>s. length (op_rgba ops s) = 16384) \<and> op_max_dim ops \<le> 32768"

lemma length_swap_rb [simp]: "length (swap_rb xs) = length xs"
  by (induction xs rule: swap_rb.induct) simp_all

lemma length_render: "library_contract ops \<Longrightarrow> length (render_bgra ops s) = 16384"
  by (simp add: library_contract_def render_bgra_def)

definition pixels_ok :: "Decoded \<Rightarrow> bool" where
  "pixels_ok decoded = (\<forall>k px. decoded k = Some px \<longrightarrow> length px = 16384)"

lemma collect_pixels:
  "collect_results decoded rs = Inr decoded' \<Longrightarrow> pixels_ok decoded \<Longrightarrow> (\<forall>k px. Inr (k, px) \<in> set rs \<longrightarrow> length px = 16384) \<Longrightarrow>
     pixels_ok decoded'"
proof (induction decoded rs rule: collect_results.induct)
  case (3 decoded k px rs)
  have "length px = 16384" using 3(4) by (meson list.set_intros(1))
  then have "pixels_ok (decoded(k \<mapsto> px))" using 3(3) unfolding pixels_ok_def by (metis fun_upd_apply option.inject)
  moreover have "\<forall>k px. Inr (k, px) \<in> set rs \<longrightarrow> length px = 16384" using 3(4) by (meson list.set_intros(2))
  ultimately show ?case using 3(1,2) by (simp add: fun_upd_def del: split_paired_All)
qed (auto simp: pixels_ok_def)

lemma run_job_pixels: "library_contract ops \<Longrightarrow> run_job ops reduce job = (Inr (k, px), job') \<Longrightarrow> length px = 16384"
  by (auto simp: run_job_def length_render split: prod.splits sum.splits)

lemma decode_rounds_pixels:
  assumes "library_contract ops" and "decode_rounds ops ctx rounds decoded store = (Inr decoded', store')" and "pixels_ok decoded"
  shows "pixels_ok decoded'"
  using assms(2,3)
proof (induction rounds arbitrary: decoded store)
  case (Cons round rounds)
  obtain failure jobs st where p: "prepare_round ops ctx round store = (failure, jobs, st)" by (meson prod_cases3)
  let ?ran = "map (run_job ops (rc_reduce ctx)) jobs"
  obtain d st' where d: "collect_results decoded (map fst ?ran) = Inr d" "decode_rounds ops ctx rounds d st' = (Inr decoded', store')"
    using Cons.prems(1) p by (auto simp: Let_def split: option.splits sum.splits)
  have "length px = 16384" if "Inr (k, px) \<in> set (map fst ?ran)" for k px
  proof -
    have "Inr (k, px) \<in> (\<lambda>job. fst (run_job ops (rc_reduce ctx) job)) ` set jobs"
      using that by (simp only: set_map image_image)
    then obtain job where "fst (run_job ops (rc_reduce ctx) job) = Inr (k, px)" by (metis imageE)
    then show ?thesis using run_job_pixels [OF assms(1)] by (metis prod.collapse)
  qed
  then show ?case using collect_pixels [OF d(1) Cons.prems(2)] Cons.IH [OF d(2)] by blast
qed simp

text \<open>A tile drawn on a surface: its rectangles lie in it and on the surface, and its pixels are complete.\<close>

definition tile_fits :: "u16 \<Rightarrow> u16 \<Rightarrow> BgraTile \<Rightarrow> bool" where
  "tile_fits w h t \<longleftrightarrow> length (tile_data t) = 16384 \<and> tile_size t = Size_new 64 64 \<and>
     (\<forall>r \<in> set (update_rects t). \<not> rect_is_empty r \<and> contains (footprint t) r \<and>
       unat (rect_x r) + unat (rect_width r) \<le> unat w \<and> unat (rect_y r) + unat (rect_height r) \<le> unat h)"

lemma span_bounds:
  fixes x w :: u16
  assumes "unat w \<le> 32768" and "\<not> min (saturating_add (saturating_mul x TILE_DIM) TILE_DIM) w \<le> saturating_mul x TILE_DIM"
    and "saturating_mul x TILE_DIM \<le> l" and "l \<le> r" and "r \<le> min (saturating_add (saturating_mul x TILE_DIM) TILE_DIM) w - 1"
  shows "64 * unat x \<le> unat l \<and> unat l \<le> unat r \<and> unat r < unat w \<and> unat r < 64 * unat x + 64 \<and> 64 * unat x < 32768"
proof -
  let ?l = "saturating_mul x TILE_DIM" and ?m = "min (saturating_add (saturating_mul x TILE_DIM) TILE_DIM) w"
  have ul: "unat ?l = min (64 * unat x) 65535" by (simp add: word_ops TILE_DIM_def)
  have lt: "?l < ?m" using assms(2) by (simp only: not_le)
  then have m: "unat ?l < unat ?m" by (simp add: word_less_nat_alt)
  have um: "unat ?m = min (min (unat ?l + 64) 65535) (unat w)"
    by (auto simp: min_def word_le_nat_alt word_ops TILE_DIM_def)
  have "unat (?m - 1) = unat ?m - 1" using m by (intro unat_minus_one) auto
  then have "unat r \<le> unat ?m - 1" using assms(5) by (simp add: word_le_nat_alt)
  moreover have "unat ?l \<le> unat l" "unat l \<le> unat r" using assms(3,4) by (simp_all add: word_le_nat_alt)
  ultimately show ?thesis using ul um m assms(1) by linarith
qed

lemma surface_span:
  fixes l r w :: u16
  assumes "unat l \<le> unat r" and "unat r < 32768"
  shows "unat (ucast l :: u32) = unat l" and "unat (ucast r + 1 - ucast l :: u32) = unat r + 1 - unat l"
proof -
  have u: "unat (ucast z :: u32) = unat z" for z :: u16 by (simp add: word_ops)
  then show "unat (ucast l :: u32) = unat l" by blast
  have "unat (ucast r + 1 :: u32) = unat r + 1" using assms(2) u by (subst unat_add_no_wrap) simp_all
  moreover from this have "(ucast l :: u32) \<le> ucast r + 1" using assms(1) u by (simp add: word_le_nat_alt)
  ultimately show "unat (ucast r + 1 - ucast l :: u32) = unat r + 1 - unat l" using u by (simp add: unat_sub)
qed

lemma visible_tile_fits:
  assumes "library_contract ops" and "visible_tile ops clipping w h decoded g key = Some t" and "pixels_ok decoded"
    and "unat w \<le> 32768" and "unat h \<le> 32768"
  shows "tile_fits w h t"
proof -
  let ?rects = "visible_rects ops clipping key w h"
  obtain px where t: "t = \<lparr>tile_origin = Point_new (ucast (fst key) * TILE_SIZE) (ucast (snd key) * TILE_SIZE),
      tile_size = Size_new TILE_SIZE TILE_SIZE, tile_data = px, update_rects = ?rects\<rparr>" and px: "length px = 16384"
  proof -
    obtain px where "Some px = (case decoded key of Some px \<Rightarrow> Some px | None \<Rightarrow> map_option (render_bgra ops) (grid_get g key))"
      and t: "t = \<lparr>tile_origin = Point_new (ucast (fst key) * TILE_SIZE) (ucast (snd key) * TILE_SIZE),
        tile_size = Size_new TILE_SIZE TILE_SIZE, tile_data = px, update_rects = ?rects\<rparr>"
      using assms(2) by (auto simp: visible_tile_def Let_def split: if_splits)
    moreover from this have "length px = 16384"
      using assms(3) length_render [OF assms(1)] unfolding pixels_ok_def
      by (cases "decoded key"; cases "grid_get g key") (auto simp del: split_paired_All)
    ultimately show ?thesis using that by blast
  qed
  have "\<not> rect_is_empty r \<and> contains (footprint t) r \<and> unat (rect_x r) + unat (rect_width r) \<le> unat w \<and>
      unat (rect_y r) + unat (rect_height r) \<le> unat h" if r: "r \<in> set ?rects" for r
  proof -
    let ?box = "\<lparr>in_left = saturating_mul (fst key) TILE_DIM, in_top = saturating_mul (snd key) TILE_DIM,
      in_right = min (saturating_add (saturating_mul (fst key) TILE_DIM) TILE_DIM) w - 1,
      in_bottom = min (saturating_add (saturating_mul (snd key) TILE_DIM) TILE_DIM) h - 1\<rparr>"
    obtain q where q: "q \<in> set (op_intersect ops ?box clipping)" "r = surface_rect q"
      and ne: "\<not> min (saturating_add (saturating_mul (fst key) TILE_DIM) TILE_DIM) w \<le> saturating_mul (fst key) TILE_DIM"
        "\<not> min (saturating_add (saturating_mul (snd key) TILE_DIM) TILE_DIM) h \<le> saturating_mul (snd key) TILE_DIM"
      using r by (auto simp: visible_rects_def Let_def split: if_splits)
    have "rect_in q ?box" using assms(1) q(1) by (simp add: library_contract_def)
    then have x: "64 * unat (fst key) \<le> unat (in_left q) \<and> unat (in_left q) \<le> unat (in_right q) \<and> unat (in_right q) < unat w \<and>
        unat (in_right q) < 64 * unat (fst key) + 64 \<and> 64 * unat (fst key) < 32768"
      and y: "64 * unat (snd key) \<le> unat (in_top q) \<and> unat (in_top q) \<le> unat (in_bottom q) \<and> unat (in_bottom q) < unat h \<and>
        unat (in_bottom q) < 64 * unat (snd key) + 64 \<and> 64 * unat (snd key) < 32768"
      using span_bounds [OF assms(4) ne(1), of "in_left q" "in_right q"] span_bounds [OF assms(5) ne(2), of "in_top q" "in_bottom q"]
      by (auto simp: rect_in_def)
    have sx: "unat (rect_x r) = unat (in_left q)" "unat (rect_width r) = unat (in_right q) + 1 - unat (in_left q)"
      using surface_span [of "in_left q" "in_right q"] x assms(4) by (simp_all add: q(2) surface_rect_def Rect_new_def)
    have sy: "unat (rect_y r) = unat (in_top q)" "unat (rect_height r) = unat (in_bottom q) + 1 - unat (in_top q)"
      using surface_span [of "in_top q" "in_bottom q"] y assms(5) by (simp_all add: q(2) surface_rect_def Rect_new_def)
    have o: "unat (ucast z * TILE_SIZE :: u32) = 64 * unat z" if "64 * unat z < 32768" for z :: u16
      using that by (subst unat_mult_no_wrap) (simp_all add: TILE_SIZE_def word_ops)
    have "contains (footprint t) r"
      using x y sx sy o
      by (simp add: contains_def footprint_def t Rect_new_def Point_new_def word_le_nat_alt unat_right unat_bottom TILE_SIZE_def)
    then show ?thesis using x y sx sy by (auto simp: rect_is_empty_def unat_eq_0 [symmetric])
  qed
  then show ?thesis using px by (simp add: tile_fits_def t TILE_SIZE_def)
qed

lemma draw_tiles_fit:
  "library_contract ops \<Longrightarrow> pixels_ok decoded \<Longrightarrow> unat w \<le> 32768 \<Longrightarrow> unat h \<le> 32768 \<Longrightarrow>
     draw_tiles ops clipping w h decoded g keys work = Inr (tiles, work') \<Longrightarrow> \<forall>t \<in> set tiles. tile_fits w h t"
proof (induction keys arbitrary: work tiles work')
  case (Cons key keys)
  obtain work1 rest work2 where d: "draw_tiles ops clipping w h decoded g keys work1 = Inr (rest, work2)"
    "tiles = (case visible_tile ops clipping w h decoded g key of None \<Rightarrow> rest | Some t \<Rightarrow> t # rest)"
    using Cons.prems(5) by (auto simp: and_then_Inr_iff)
  show ?case
    using Cons.IH [OF Cons.prems(1-4) d(1)] visible_tile_fits [OF Cons.prems(1) _ Cons.prems(2-4)] d(2)
    by (auto split: option.splits)
qed simp

definition out_fits :: "u16 \<Rightarrow> u16 \<Rightarrow> 's BlockState \<Rightarrow> bool" where
  "out_fits w h b = (\<forall>t \<in> set (bl_out b). tile_fits w h t)"

lemma region_step_fits:
  assumes "library_contract ops" and "unat w \<le> 32768" and "unat h \<le> 32768" and "out_fits w h b"
  shows "out_fits w h (snd (region_step ops sid reduce w h region b))"
proof -
  let ?ctx = "\<lparr>rc_surface = sid, rc_reduce = reduce, rc_region = region\<rparr>"
  obtain r store where d: "decode_region_tiles ops ?ctx (bl_store b) = (r, store)" by (meson surj_pair)
  show ?thesis
  proof (cases r)
    case (Inr decoded)
    then have "pixels_ok decoded"
      using d decode_rounds_pixels [OF assms(1), of ?ctx] by (simp add: decode_region_tiles_def pixels_ok_def)
    then show ?thesis
      using d Inr assms draw_tiles_fit [OF assms(1) _ assms(2,3)]
      by (auto simp: region_step_def out_fits_def Let_def split: sum.split)
  qed (use d assms in \<open>simp add: region_step_def out_fits_def Let_def\<close>)
qed

lemma block_steps_fit:
  assumes "library_contract ops" and "unat w \<le> 32768" and "unat h \<le> 32768" and "out_fits w h b"
  shows "out_fits w h (snd (block_steps ops sid reduce w h blocks b))"
  using assms(4)
proof (induction blocks arbitrary: b)
  case (Cons block blocks)
  have same: "out_fits w h (if bl_ended b then b else b\<lparr>bl_in_frame := True\<rparr>)"
    "out_fits w h (b\<lparr>bl_in_frame := False, bl_ended := True\<rparr>)"
    using Cons.prems by (simp_all add: out_fits_def)
  show ?case
  proof (cases block)
    case (BlockRegion region)
    then show ?thesis
      using Cons.IH [of "snd (region_step ops sid reduce w h region b)"] Cons.IH [OF Cons.prems] Cons.prems
        region_step_fits [OF assms(1-3) Cons.prems, of sid reduce region]
      by (auto split: prod.split sum.split)
  qed (use Cons.IH same Cons.prems in simp_all)
qed simp

lemma surface_dim_Some:
  "library_contract ops \<Longrightarrow> surface_dim ops v = Some w \<Longrightarrow> unat w = unat v \<and> unat w \<le> 32768"
  by (auto simp: surface_dim_def library_contract_def word_le_nat_alt unsigned_ucast_eq take_bit_nat_eq_self split: if_splits)

lemma fits_drawn:
  fixes w h :: u16 and surface :: "u32 Size"
  assumes "tile_fits w h t" and "r \<in> set (update_rects t)" and "unat w = unat (width surface)" and "unat h = unat (height surface)"
  shows "blit_of t r \<noteq> None \<and> contains (Rect_new 0 0 (width surface) (height surface)) r"
proof -
  have f: "length (tile_data t) = 16384" "tile_size t = Size_new 64 64" "\<not> rect_is_empty r" "contains (footprint t) r"
    "unat (rect_x r) + unat (rect_width r) \<le> unat w" "unat (rect_y r) + unat (rect_height r) \<le> unat h"
    using assms(1,2) by (auto simp: tile_fits_def)
  let ?o = "tile_origin t"
  have b: "unat w < 65536" "unat h < 65536" using unsigned_less [of w] unsigned_less [of h] by simp_all
  have c: "unat (pt_x ?o) \<le> unat (rect_x r)" "unat (pt_y ?o) \<le> unat (rect_y r)"
    "unat (rect_x r) + unat (rect_width r) \<le> unat (pt_x ?o) + 64"
    "unat (rect_y r) + unat (rect_height r) \<le> unat (pt_y ?o) + 64"
    using f(2,4-6) b by (auto simp: contains_def footprint_def Rect_new_def Size_new_def word_le_nat_alt unat_right unat_bottom)
  have l: "unat (rect_x r - pt_x ?o) = unat (rect_x r) - unat (pt_x ?o)"
    "unat (rect_y r - pt_y ?o) = unat (rect_y r) - unat (pt_y ?o)"
    using c by (simp_all add: unat_sub word_le_nat_alt)
  have n: "0 < unat (rect_width r)" "0 < unat (rect_height r)"
    using f(3) by (auto simp: rect_is_empty_def unat_gt_0)
  have "unat (rect_x r - pt_x ?o) + unat (rect_width r) \<le> 64" "unat (rect_y r - pt_y ?o) + unat (rect_height r) \<le> 64"
    using c l by linarith+
  then have "unat (rect_y r - pt_y ?o) * 256 + unat (rect_x r - pt_x ?o) * 4
      + ((unat (rect_height r) - 1) * 256 + unat (rect_width r) * 4) \<le> 16384"
    using n by linarith
  then have "blit_of t r \<noteq> None"
    using f(1-4) by (simp add: blit_of_def Let_def tile_stride_def Size_new_def BPP_def)
  moreover have "contains (Rect_new 0 0 (width surface) (height surface)) r"
    using f(5,6) b assms(3,4) by (simp add: contains_def Rect_new_def word_le_nat_alt unat_right unat_bottom)
  ultimately show ?thesis by blast
qed

text \<open>C16: Every rectangle that a tile of a progressive payload updates lies on the surface, and the decoded tile has the
  pixels to draw it: the payload is drawn without a blit that is dropped for its bounds.\<close>

theorem drawn_tiles_fit:
  assumes "library_contract ops" and "codec_decode ops c sid cid surface data = (Inr tiles, c')"
    and "t \<in> set tiles" and "r \<in> set (update_rects t)"
  shows "blit_of t r \<noteq> None \<and> contains (Rect_new 0 0 (width surface) (height surface)) r"
proof -
  obtain w h where wh: "surface_dim ops (width surface) = Some w" "surface_dim ops (height surface) = Some h"
    using assms(2)
    by (cases "surface_dim ops (width surface)"; cases "surface_dim ops (height surface)") (simp_all add: codec_decode_def)
  note dim = surface_dim_Some [OF assms(1) wh(1)] surface_dim_Some [OF assms(1) wh(2)]
  obtain reduce blocks b0 b where b: "block_steps ops sid reduce w h blocks b0 = (Inr (), b)" "bl_out b0 = []" "tiles = bl_out b"
  proof -
    obtain blocks where p: "op_parse ops data = Inr blocks"
      using assms(2) wh by (cases "op_parse ops data") (simp_all add: codec_decode_def)
    show ?thesis
      using assms(2) wh p that
      by (fastforce simp: codec_decode_def Let_def split: option.splits sum.splits prod.splits)
  qed
  have "out_fits w h b"
    using block_steps_fit [OF assms(1), of w h b0 sid reduce blocks] dim b by (simp add: out_fits_def)
  then show ?thesis using fits_drawn [of w h t r surface] assms(3,4) b(3) dim by (simp add: out_fits_def)
qed

lemma toy_contract: "library_contract toy_rfx"
  by (simp add: library_contract_def toy_rfx_def toy_pixels_def rect_in_def)

lemma replicate_2: "replicate 2 x = [x, x]"
  by (simp add: numeral_2_eq_2)

lemma toy_region_step:
  "\<exists>b. region_step toy_rfx 7 True 100 50 toy_region
     \<lparr>bl_store = (\<lparr>gr_wide = 2, gr_high = 1, gr_tiles = [None, None], gr_reduce = True\<rparr>, Map.empty), bl_frame = [], bl_out = [],
       bl_work = 0, bl_in_frame = True, bl_ended = False\<rparr> = (Inr (), b) \<and> length (bl_out b) = 2"
  by (simp add: toy_defs region_step_def decode_region_tiles_def push_round_def prepare_def first_pass_def run_job_def run_pass_def
      put_back_def grid_index_def slot_at_def set_slot_def ensure_tile_def TILE_FLAG_DIFFERENCE_def clipping_region_def charge_def
      MAX_REGION_CLIPPING_WORK_def insert_keys_def visible_tile_def visible_rects_def TILE_DIM_def saturating_add_def
      saturating_mul_def insort_insert_key_def Let_def)

theorem drawn_tiles_fit_witness:
  "\<exists>tiles c'. codec_decode toy_rfx ProgressiveCodec_new 7 1 (Size_new 100 50) [] = (Inr tiles, c') \<and> length tiles = 2 \<and>
     list_all (\<lambda>t. list_all (\<lambda>r. blit_of t r \<noteq> None \<and> contains (Rect_new 0 0 100 50) r) (update_rects t)) tiles"
proof -
  have "\<exists>tiles c'. codec_decode toy_rfx ProgressiveCodec_new 7 1 (Size_new 100 50) [] = (Inr tiles, c') \<and> length tiles = 2"
    using toy_region_step by (auto simp: codec_decode_def surface_dim_def toy_ops signalled_flag_def context_grid_def new_grid_def ok_or_def div_tiles_def
        TILE_DIM_def ProgressiveCodec_new_def clear_unless_active_def Size_new_def map_filter_simps replicate_2 Let_def)
  then obtain tiles c' where d: "codec_decode toy_rfx ProgressiveCodec_new 7 1 (Size_new 100 50) [] = (Inr tiles, c')" "length tiles = 2"
    by blast
  show ?thesis
    using drawn_tiles_fit [OF toy_contract d(1)] d by (auto simp: list_all_iff Size_new_def)
qed

end
