(* ===== verification/Core_Input.thy ===== *)
theory Core_Input
  imports Core_Profile
begin

text \<open>
  \<open>crates/drift-core/src/input.rs\<close>: the wire-level input events the input layer produces and the
  session encodes. An \<open>i16\<close> is a signed 16-bit word.
\<close>

type_synonym i16 = "16 word"

datatype MouseButton = LeftButton | RightButton | MiddleButton | X1 | X2

datatype InputEvent =
    Key u8 bool bool
  | Unicode u16 bool
  | MouseMove u16 u16
  | MouseButtonEvent MouseButton bool u16 u16
  | Wheel bool i16
  | SyncToggles bool bool
  | ReleaseAll

end
