(* ===== verification/Input_Keymap.thy ===== *)
theory Input_Keymap
  imports Core_Input Rust_Str
begin

text \<open>
  \<open>crates/drift-input/src/keymap.rs\<close>: macOS virtual key codes to PC set-1 scancodes. The key code
  constants are abbreviations, the match of \<open>base_scancode\<close> a table looked up by code. Scancodes are
  ordered like the derived \<open>Ord\<close>, which the ordered maps of the keyboard state iterate by.
\<close>

subsection \<open>Virtual key codes\<close>

abbreviation kvk_ANSI_A :: u16 where "kvk_ANSI_A \<equiv> 0x00"
abbreviation kvk_ANSI_S :: u16 where "kvk_ANSI_S \<equiv> 0x01"
abbreviation kvk_ANSI_D :: u16 where "kvk_ANSI_D \<equiv> 0x02"
abbreviation kvk_ANSI_F :: u16 where "kvk_ANSI_F \<equiv> 0x03"
abbreviation kvk_ANSI_H :: u16 where "kvk_ANSI_H \<equiv> 0x04"
abbreviation kvk_ANSI_G :: u16 where "kvk_ANSI_G \<equiv> 0x05"
abbreviation kvk_ANSI_Z :: u16 where "kvk_ANSI_Z \<equiv> 0x06"
abbreviation kvk_ANSI_X :: u16 where "kvk_ANSI_X \<equiv> 0x07"
abbreviation kvk_ANSI_C :: u16 where "kvk_ANSI_C \<equiv> 0x08"
abbreviation kvk_ANSI_V :: u16 where "kvk_ANSI_V \<equiv> 0x09"
abbreviation kvk_ANSI_B :: u16 where "kvk_ANSI_B \<equiv> 0x0B"
abbreviation kvk_ANSI_Q :: u16 where "kvk_ANSI_Q \<equiv> 0x0C"
abbreviation kvk_ANSI_W :: u16 where "kvk_ANSI_W \<equiv> 0x0D"
abbreviation kvk_ANSI_E :: u16 where "kvk_ANSI_E \<equiv> 0x0E"
abbreviation kvk_ANSI_R :: u16 where "kvk_ANSI_R \<equiv> 0x0F"
abbreviation kvk_ANSI_Y :: u16 where "kvk_ANSI_Y \<equiv> 0x10"
abbreviation kvk_ANSI_T :: u16 where "kvk_ANSI_T \<equiv> 0x11"
abbreviation kvk_ANSI_1 :: u16 where "kvk_ANSI_1 \<equiv> 0x12"
abbreviation kvk_ANSI_2 :: u16 where "kvk_ANSI_2 \<equiv> 0x13"
abbreviation kvk_ANSI_3 :: u16 where "kvk_ANSI_3 \<equiv> 0x14"
abbreviation kvk_ANSI_4 :: u16 where "kvk_ANSI_4 \<equiv> 0x15"
abbreviation kvk_ANSI_6 :: u16 where "kvk_ANSI_6 \<equiv> 0x16"
abbreviation kvk_ANSI_5 :: u16 where "kvk_ANSI_5 \<equiv> 0x17"
abbreviation kvk_ANSI_EQUAL :: u16 where "kvk_ANSI_EQUAL \<equiv> 0x18"
abbreviation kvk_ANSI_9 :: u16 where "kvk_ANSI_9 \<equiv> 0x19"
abbreviation kvk_ANSI_7 :: u16 where "kvk_ANSI_7 \<equiv> 0x1A"
abbreviation kvk_ANSI_MINUS :: u16 where "kvk_ANSI_MINUS \<equiv> 0x1B"
abbreviation kvk_ANSI_8 :: u16 where "kvk_ANSI_8 \<equiv> 0x1C"
abbreviation kvk_ANSI_0 :: u16 where "kvk_ANSI_0 \<equiv> 0x1D"
abbreviation kvk_ANSI_RIGHT_BRACKET :: u16 where "kvk_ANSI_RIGHT_BRACKET \<equiv> 0x1E"
abbreviation kvk_ANSI_O :: u16 where "kvk_ANSI_O \<equiv> 0x1F"
abbreviation kvk_ANSI_U :: u16 where "kvk_ANSI_U \<equiv> 0x20"
abbreviation kvk_ANSI_LEFT_BRACKET :: u16 where "kvk_ANSI_LEFT_BRACKET \<equiv> 0x21"
abbreviation kvk_ANSI_I :: u16 where "kvk_ANSI_I \<equiv> 0x22"
abbreviation kvk_ANSI_P :: u16 where "kvk_ANSI_P \<equiv> 0x23"
abbreviation kvk_ANSI_L :: u16 where "kvk_ANSI_L \<equiv> 0x25"
abbreviation kvk_ANSI_J :: u16 where "kvk_ANSI_J \<equiv> 0x26"
abbreviation kvk_ANSI_QUOTE :: u16 where "kvk_ANSI_QUOTE \<equiv> 0x27"
abbreviation kvk_ANSI_K :: u16 where "kvk_ANSI_K \<equiv> 0x28"
abbreviation kvk_ANSI_SEMICOLON :: u16 where "kvk_ANSI_SEMICOLON \<equiv> 0x29"
abbreviation kvk_ANSI_BACKSLASH :: u16 where "kvk_ANSI_BACKSLASH \<equiv> 0x2A"
abbreviation kvk_ANSI_COMMA :: u16 where "kvk_ANSI_COMMA \<equiv> 0x2B"
abbreviation kvk_ANSI_SLASH :: u16 where "kvk_ANSI_SLASH \<equiv> 0x2C"
abbreviation kvk_ANSI_N :: u16 where "kvk_ANSI_N \<equiv> 0x2D"
abbreviation kvk_ANSI_M :: u16 where "kvk_ANSI_M \<equiv> 0x2E"
abbreviation kvk_ANSI_PERIOD :: u16 where "kvk_ANSI_PERIOD \<equiv> 0x2F"
abbreviation kvk_ANSI_GRAVE :: u16 where "kvk_ANSI_GRAVE \<equiv> 0x32"
abbreviation kvk_ANSI_KEYPAD_DECIMAL :: u16 where "kvk_ANSI_KEYPAD_DECIMAL \<equiv> 0x41"
abbreviation kvk_ANSI_KEYPAD_MULTIPLY :: u16 where "kvk_ANSI_KEYPAD_MULTIPLY \<equiv> 0x43"
abbreviation kvk_ANSI_KEYPAD_PLUS :: u16 where "kvk_ANSI_KEYPAD_PLUS \<equiv> 0x45"
abbreviation kvk_ANSI_KEYPAD_CLEAR :: u16 where "kvk_ANSI_KEYPAD_CLEAR \<equiv> 0x47"
abbreviation kvk_ANSI_KEYPAD_DIVIDE :: u16 where "kvk_ANSI_KEYPAD_DIVIDE \<equiv> 0x4B"
abbreviation kvk_ANSI_KEYPAD_ENTER :: u16 where "kvk_ANSI_KEYPAD_ENTER \<equiv> 0x4C"
abbreviation kvk_ANSI_KEYPAD_MINUS :: u16 where "kvk_ANSI_KEYPAD_MINUS \<equiv> 0x4E"
abbreviation kvk_ANSI_KEYPAD_EQUALS :: u16 where "kvk_ANSI_KEYPAD_EQUALS \<equiv> 0x51"
abbreviation kvk_ANSI_KEYPAD_0 :: u16 where "kvk_ANSI_KEYPAD_0 \<equiv> 0x52"
abbreviation kvk_ANSI_KEYPAD_1 :: u16 where "kvk_ANSI_KEYPAD_1 \<equiv> 0x53"
abbreviation kvk_ANSI_KEYPAD_2 :: u16 where "kvk_ANSI_KEYPAD_2 \<equiv> 0x54"
abbreviation kvk_ANSI_KEYPAD_3 :: u16 where "kvk_ANSI_KEYPAD_3 \<equiv> 0x55"
abbreviation kvk_ANSI_KEYPAD_4 :: u16 where "kvk_ANSI_KEYPAD_4 \<equiv> 0x56"
abbreviation kvk_ANSI_KEYPAD_5 :: u16 where "kvk_ANSI_KEYPAD_5 \<equiv> 0x57"
abbreviation kvk_ANSI_KEYPAD_6 :: u16 where "kvk_ANSI_KEYPAD_6 \<equiv> 0x58"
abbreviation kvk_ANSI_KEYPAD_7 :: u16 where "kvk_ANSI_KEYPAD_7 \<equiv> 0x59"
abbreviation kvk_ANSI_KEYPAD_8 :: u16 where "kvk_ANSI_KEYPAD_8 \<equiv> 0x5B"
abbreviation kvk_ANSI_KEYPAD_9 :: u16 where "kvk_ANSI_KEYPAD_9 \<equiv> 0x5C"
abbreviation kvk_RETURN :: u16 where "kvk_RETURN \<equiv> 0x24"
abbreviation kvk_TAB :: u16 where "kvk_TAB \<equiv> 0x30"
abbreviation kvk_SPACE :: u16 where "kvk_SPACE \<equiv> 0x31"
abbreviation kvk_DELETE :: u16 where "kvk_DELETE \<equiv> 0x33"
abbreviation kvk_ESCAPE :: u16 where "kvk_ESCAPE \<equiv> 0x35"
abbreviation kvk_RIGHT_COMMAND :: u16 where "kvk_RIGHT_COMMAND \<equiv> 0x36"
abbreviation kvk_COMMAND :: u16 where "kvk_COMMAND \<equiv> 0x37"
abbreviation kvk_SHIFT :: u16 where "kvk_SHIFT \<equiv> 0x38"
abbreviation kvk_CAPS_LOCK :: u16 where "kvk_CAPS_LOCK \<equiv> 0x39"
abbreviation kvk_OPTION :: u16 where "kvk_OPTION \<equiv> 0x3A"
abbreviation kvk_CONTROL :: u16 where "kvk_CONTROL \<equiv> 0x3B"
abbreviation kvk_RIGHT_SHIFT :: u16 where "kvk_RIGHT_SHIFT \<equiv> 0x3C"
abbreviation kvk_RIGHT_OPTION :: u16 where "kvk_RIGHT_OPTION \<equiv> 0x3D"
abbreviation kvk_RIGHT_CONTROL :: u16 where "kvk_RIGHT_CONTROL \<equiv> 0x3E"
abbreviation kvk_FUNCTION :: u16 where "kvk_FUNCTION \<equiv> 0x3F"
abbreviation kvk_F17 :: u16 where "kvk_F17 \<equiv> 0x40"
abbreviation kvk_VOLUME_UP :: u16 where "kvk_VOLUME_UP \<equiv> 0x48"
abbreviation kvk_VOLUME_DOWN :: u16 where "kvk_VOLUME_DOWN \<equiv> 0x49"
abbreviation kvk_MUTE :: u16 where "kvk_MUTE \<equiv> 0x4A"
abbreviation kvk_F18 :: u16 where "kvk_F18 \<equiv> 0x4F"
abbreviation kvk_F19 :: u16 where "kvk_F19 \<equiv> 0x50"
abbreviation kvk_F20 :: u16 where "kvk_F20 \<equiv> 0x5A"
abbreviation kvk_F5 :: u16 where "kvk_F5 \<equiv> 0x60"
abbreviation kvk_F6 :: u16 where "kvk_F6 \<equiv> 0x61"
abbreviation kvk_F7 :: u16 where "kvk_F7 \<equiv> 0x62"
abbreviation kvk_F3 :: u16 where "kvk_F3 \<equiv> 0x63"
abbreviation kvk_F8 :: u16 where "kvk_F8 \<equiv> 0x64"
abbreviation kvk_F9 :: u16 where "kvk_F9 \<equiv> 0x65"
abbreviation kvk_F11 :: u16 where "kvk_F11 \<equiv> 0x67"
abbreviation kvk_F13 :: u16 where "kvk_F13 \<equiv> 0x69"
abbreviation kvk_F16 :: u16 where "kvk_F16 \<equiv> 0x6A"
abbreviation kvk_F14 :: u16 where "kvk_F14 \<equiv> 0x6B"
abbreviation kvk_F10 :: u16 where "kvk_F10 \<equiv> 0x6D"
abbreviation kvk_CONTEXTUAL_MENU :: u16 where "kvk_CONTEXTUAL_MENU \<equiv> 0x6E"
abbreviation kvk_F12 :: u16 where "kvk_F12 \<equiv> 0x6F"
abbreviation kvk_F15 :: u16 where "kvk_F15 \<equiv> 0x71"
abbreviation kvk_HELP :: u16 where "kvk_HELP \<equiv> 0x72"
abbreviation kvk_HOME :: u16 where "kvk_HOME \<equiv> 0x73"
abbreviation kvk_PAGE_UP :: u16 where "kvk_PAGE_UP \<equiv> 0x74"
abbreviation kvk_FORWARD_DELETE :: u16 where "kvk_FORWARD_DELETE \<equiv> 0x75"
abbreviation kvk_F4 :: u16 where "kvk_F4 \<equiv> 0x76"
abbreviation kvk_END :: u16 where "kvk_END \<equiv> 0x77"
abbreviation kvk_F2 :: u16 where "kvk_F2 \<equiv> 0x78"
abbreviation kvk_PAGE_DOWN :: u16 where "kvk_PAGE_DOWN \<equiv> 0x79"
abbreviation kvk_F1 :: u16 where "kvk_F1 \<equiv> 0x7A"
abbreviation kvk_LEFT_ARROW :: u16 where "kvk_LEFT_ARROW \<equiv> 0x7B"
abbreviation kvk_RIGHT_ARROW :: u16 where "kvk_RIGHT_ARROW \<equiv> 0x7C"
abbreviation kvk_DOWN_ARROW :: u16 where "kvk_DOWN_ARROW \<equiv> 0x7D"
abbreviation kvk_UP_ARROW :: u16 where "kvk_UP_ARROW \<equiv> 0x7E"
abbreviation kvk_ISO_SECTION :: u16 where "kvk_ISO_SECTION \<equiv> 0x0A"
abbreviation kvk_JIS_YEN :: u16 where "kvk_JIS_YEN \<equiv> 0x5D"
abbreviation kvk_JIS_UNDERSCORE :: u16 where "kvk_JIS_UNDERSCORE \<equiv> 0x5E"
abbreviation kvk_JIS_KEYPAD_COMMA :: u16 where "kvk_JIS_KEYPAD_COMMA \<equiv> 0x5F"
abbreviation kvk_JIS_EISU :: u16 where "kvk_JIS_EISU \<equiv> 0x66"
abbreviation kvk_JIS_KANA :: u16 where "kvk_JIS_KANA \<equiv> 0x68"

definition ALL_KVK :: "(string \<times> u16) list" where
  "ALL_KVK =
     [(''kVK_ANSI_A'', kvk_ANSI_A),
      (''kVK_ANSI_S'', kvk_ANSI_S),
      (''kVK_ANSI_D'', kvk_ANSI_D),
      (''kVK_ANSI_F'', kvk_ANSI_F),
      (''kVK_ANSI_H'', kvk_ANSI_H),
      (''kVK_ANSI_G'', kvk_ANSI_G),
      (''kVK_ANSI_Z'', kvk_ANSI_Z),
      (''kVK_ANSI_X'', kvk_ANSI_X),
      (''kVK_ANSI_C'', kvk_ANSI_C),
      (''kVK_ANSI_V'', kvk_ANSI_V),
      (''kVK_ANSI_B'', kvk_ANSI_B),
      (''kVK_ANSI_Q'', kvk_ANSI_Q),
      (''kVK_ANSI_W'', kvk_ANSI_W),
      (''kVK_ANSI_E'', kvk_ANSI_E),
      (''kVK_ANSI_R'', kvk_ANSI_R),
      (''kVK_ANSI_Y'', kvk_ANSI_Y),
      (''kVK_ANSI_T'', kvk_ANSI_T),
      (''kVK_ANSI_1'', kvk_ANSI_1),
      (''kVK_ANSI_2'', kvk_ANSI_2),
      (''kVK_ANSI_3'', kvk_ANSI_3),
      (''kVK_ANSI_4'', kvk_ANSI_4),
      (''kVK_ANSI_6'', kvk_ANSI_6),
      (''kVK_ANSI_5'', kvk_ANSI_5),
      (''kVK_ANSI_Equal'', kvk_ANSI_EQUAL),
      (''kVK_ANSI_9'', kvk_ANSI_9),
      (''kVK_ANSI_7'', kvk_ANSI_7),
      (''kVK_ANSI_Minus'', kvk_ANSI_MINUS),
      (''kVK_ANSI_8'', kvk_ANSI_8),
      (''kVK_ANSI_0'', kvk_ANSI_0),
      (''kVK_ANSI_RightBracket'', kvk_ANSI_RIGHT_BRACKET),
      (''kVK_ANSI_O'', kvk_ANSI_O),
      (''kVK_ANSI_U'', kvk_ANSI_U),
      (''kVK_ANSI_LeftBracket'', kvk_ANSI_LEFT_BRACKET),
      (''kVK_ANSI_I'', kvk_ANSI_I),
      (''kVK_ANSI_P'', kvk_ANSI_P),
      (''kVK_ANSI_L'', kvk_ANSI_L),
      (''kVK_ANSI_J'', kvk_ANSI_J),
      (''kVK_ANSI_Quote'', kvk_ANSI_QUOTE),
      (''kVK_ANSI_K'', kvk_ANSI_K),
      (''kVK_ANSI_Semicolon'', kvk_ANSI_SEMICOLON),
      (''kVK_ANSI_Backslash'', kvk_ANSI_BACKSLASH),
      (''kVK_ANSI_Comma'', kvk_ANSI_COMMA),
      (''kVK_ANSI_Slash'', kvk_ANSI_SLASH),
      (''kVK_ANSI_N'', kvk_ANSI_N),
      (''kVK_ANSI_M'', kvk_ANSI_M),
      (''kVK_ANSI_Period'', kvk_ANSI_PERIOD),
      (''kVK_ANSI_Grave'', kvk_ANSI_GRAVE),
      (''kVK_ANSI_KeypadDecimal'', kvk_ANSI_KEYPAD_DECIMAL),
      (''kVK_ANSI_KeypadMultiply'', kvk_ANSI_KEYPAD_MULTIPLY),
      (''kVK_ANSI_KeypadPlus'', kvk_ANSI_KEYPAD_PLUS),
      (''kVK_ANSI_KeypadClear'', kvk_ANSI_KEYPAD_CLEAR),
      (''kVK_ANSI_KeypadDivide'', kvk_ANSI_KEYPAD_DIVIDE),
      (''kVK_ANSI_KeypadEnter'', kvk_ANSI_KEYPAD_ENTER),
      (''kVK_ANSI_KeypadMinus'', kvk_ANSI_KEYPAD_MINUS),
      (''kVK_ANSI_KeypadEquals'', kvk_ANSI_KEYPAD_EQUALS),
      (''kVK_ANSI_Keypad0'', kvk_ANSI_KEYPAD_0),
      (''kVK_ANSI_Keypad1'', kvk_ANSI_KEYPAD_1),
      (''kVK_ANSI_Keypad2'', kvk_ANSI_KEYPAD_2),
      (''kVK_ANSI_Keypad3'', kvk_ANSI_KEYPAD_3),
      (''kVK_ANSI_Keypad4'', kvk_ANSI_KEYPAD_4),
      (''kVK_ANSI_Keypad5'', kvk_ANSI_KEYPAD_5),
      (''kVK_ANSI_Keypad6'', kvk_ANSI_KEYPAD_6),
      (''kVK_ANSI_Keypad7'', kvk_ANSI_KEYPAD_7),
      (''kVK_ANSI_Keypad8'', kvk_ANSI_KEYPAD_8),
      (''kVK_ANSI_Keypad9'', kvk_ANSI_KEYPAD_9),
      (''kVK_Return'', kvk_RETURN),
      (''kVK_Tab'', kvk_TAB),
      (''kVK_Space'', kvk_SPACE),
      (''kVK_Delete'', kvk_DELETE),
      (''kVK_Escape'', kvk_ESCAPE),
      (''kVK_RightCommand'', kvk_RIGHT_COMMAND),
      (''kVK_Command'', kvk_COMMAND),
      (''kVK_Shift'', kvk_SHIFT),
      (''kVK_CapsLock'', kvk_CAPS_LOCK),
      (''kVK_Option'', kvk_OPTION),
      (''kVK_Control'', kvk_CONTROL),
      (''kVK_RightShift'', kvk_RIGHT_SHIFT),
      (''kVK_RightOption'', kvk_RIGHT_OPTION),
      (''kVK_RightControl'', kvk_RIGHT_CONTROL),
      (''kVK_Function'', kvk_FUNCTION),
      (''kVK_F17'', kvk_F17),
      (''kVK_VolumeUp'', kvk_VOLUME_UP),
      (''kVK_VolumeDown'', kvk_VOLUME_DOWN),
      (''kVK_Mute'', kvk_MUTE),
      (''kVK_F18'', kvk_F18),
      (''kVK_F19'', kvk_F19),
      (''kVK_F20'', kvk_F20),
      (''kVK_F5'', kvk_F5),
      (''kVK_F6'', kvk_F6),
      (''kVK_F7'', kvk_F7),
      (''kVK_F3'', kvk_F3),
      (''kVK_F8'', kvk_F8),
      (''kVK_F9'', kvk_F9),
      (''kVK_F11'', kvk_F11),
      (''kVK_F13'', kvk_F13),
      (''kVK_F16'', kvk_F16),
      (''kVK_F14'', kvk_F14),
      (''kVK_F10'', kvk_F10),
      (''kVK_ContextualMenu'', kvk_CONTEXTUAL_MENU),
      (''kVK_F12'', kvk_F12),
      (''kVK_F15'', kvk_F15),
      (''kVK_Help'', kvk_HELP),
      (''kVK_Home'', kvk_HOME),
      (''kVK_PageUp'', kvk_PAGE_UP),
      (''kVK_ForwardDelete'', kvk_FORWARD_DELETE),
      (''kVK_F4'', kvk_F4),
      (''kVK_End'', kvk_END),
      (''kVK_F2'', kvk_F2),
      (''kVK_PageDown'', kvk_PAGE_DOWN),
      (''kVK_F1'', kvk_F1),
      (''kVK_LeftArrow'', kvk_LEFT_ARROW),
      (''kVK_RightArrow'', kvk_RIGHT_ARROW),
      (''kVK_DownArrow'', kvk_DOWN_ARROW),
      (''kVK_UpArrow'', kvk_UP_ARROW),
      (''kVK_ISO_Section'', kvk_ISO_SECTION),
      (''kVK_JIS_Yen'', kvk_JIS_YEN),
      (''kVK_JIS_Underscore'', kvk_JIS_UNDERSCORE),
      (''kVK_JIS_KeypadComma'', kvk_JIS_KEYPAD_COMMA),
      (''kVK_JIS_Eisu'', kvk_JIS_EISU),
      (''kVK_JIS_Kana'', kvk_JIS_KANA)]"

subsection \<open>Scancodes\<close>

datatype Scancode = Scancode (sc_code: u8) (sc_extended: bool)

instantiation Scancode :: linorder
begin

definition less_eq_Scancode :: "Scancode \<Rightarrow> Scancode \<Rightarrow> bool" where
  "less_eq_Scancode a b =
     (sc_code a < sc_code b \<or> sc_code a = sc_code b \<and> sc_extended a \<le> sc_extended b)"

definition less_Scancode :: "Scancode \<Rightarrow> Scancode \<Rightarrow> bool" where
  "less_Scancode a b =
     (sc_code a < sc_code b \<or> sc_code a = sc_code b \<and> sc_extended a < sc_extended b)"

instance
  by standard (auto simp: less_eq_Scancode_def less_Scancode_def intro: Scancode.expand)

end

definition Scancode_new :: "u8 \<Rightarrow> Scancode" where
  "Scancode_new c = Scancode c False"

definition Scancode_ext :: "u8 \<Rightarrow> Scancode" where
  "Scancode_ext c = Scancode c True"

definition sc_event :: "Scancode \<Rightarrow> bool \<Rightarrow> InputEvent" where
  "sc_event sc down = Key (sc_code sc) (sc_extended sc) down"

lemma sc_event_inj [simp]: "sc_event a d = sc_event b e \<longleftrightarrow> a = b \<and> d = e"
  by (auto simp: sc_event_def intro: Scancode.expand)

subsection \<open>Keyboard types\<close>

datatype KeyboardType = Ansi | Iso | Jis

text \<open>\<open>u32::from_be_bytes\<close> of four ASCII characters.\<close>

definition be_bytes :: "string \<Rightarrow> u32" where
  "be_bytes s = foldl (\<lambda>v c. 256 * v + of_char c) 0 s"

definition from_layout_type :: "u32 \<Rightarrow> KeyboardType" where
  "from_layout_type t =
     (if t = be_bytes ''ISO '' then Iso else if t = be_bytes ''JIS '' then Jis else Ansi)"

subsection \<open>The table\<close>

definition base_table :: "(u16 \<times> Scancode) list" where
  "base_table =
     [(kvk_ANSI_A, Scancode_new 0x1E),
      (kvk_ANSI_S, Scancode_new 0x1F),
      (kvk_ANSI_D, Scancode_new 0x20),
      (kvk_ANSI_F, Scancode_new 0x21),
      (kvk_ANSI_H, Scancode_new 0x23),
      (kvk_ANSI_G, Scancode_new 0x22),
      (kvk_ANSI_Z, Scancode_new 0x2C),
      (kvk_ANSI_X, Scancode_new 0x2D),
      (kvk_ANSI_C, Scancode_new 0x2E),
      (kvk_ANSI_V, Scancode_new 0x2F),
      (kvk_ANSI_B, Scancode_new 0x30),
      (kvk_ANSI_Q, Scancode_new 0x10),
      (kvk_ANSI_W, Scancode_new 0x11),
      (kvk_ANSI_E, Scancode_new 0x12),
      (kvk_ANSI_R, Scancode_new 0x13),
      (kvk_ANSI_Y, Scancode_new 0x15),
      (kvk_ANSI_T, Scancode_new 0x14),
      (kvk_ANSI_1, Scancode_new 0x02),
      (kvk_ANSI_2, Scancode_new 0x03),
      (kvk_ANSI_3, Scancode_new 0x04),
      (kvk_ANSI_4, Scancode_new 0x05),
      (kvk_ANSI_6, Scancode_new 0x07),
      (kvk_ANSI_5, Scancode_new 0x06),
      (kvk_ANSI_EQUAL, Scancode_new 0x0D),
      (kvk_ANSI_9, Scancode_new 0x0A),
      (kvk_ANSI_7, Scancode_new 0x08),
      (kvk_ANSI_MINUS, Scancode_new 0x0C),
      (kvk_ANSI_8, Scancode_new 0x09),
      (kvk_ANSI_0, Scancode_new 0x0B),
      (kvk_ANSI_RIGHT_BRACKET, Scancode_new 0x1B),
      (kvk_ANSI_O, Scancode_new 0x18),
      (kvk_ANSI_U, Scancode_new 0x16),
      (kvk_ANSI_LEFT_BRACKET, Scancode_new 0x1A),
      (kvk_ANSI_I, Scancode_new 0x17),
      (kvk_ANSI_P, Scancode_new 0x19),
      (kvk_ANSI_L, Scancode_new 0x26),
      (kvk_ANSI_J, Scancode_new 0x24),
      (kvk_ANSI_QUOTE, Scancode_new 0x28),
      (kvk_ANSI_K, Scancode_new 0x25),
      (kvk_ANSI_SEMICOLON, Scancode_new 0x27),
      (kvk_ANSI_BACKSLASH, Scancode_new 0x2B),
      (kvk_ANSI_COMMA, Scancode_new 0x33),
      (kvk_ANSI_SLASH, Scancode_new 0x35),
      (kvk_ANSI_N, Scancode_new 0x31),
      (kvk_ANSI_M, Scancode_new 0x32),
      (kvk_ANSI_PERIOD, Scancode_new 0x34),
      (kvk_ANSI_GRAVE, Scancode_new 0x29),
      (kvk_ANSI_KEYPAD_DECIMAL, Scancode_new 0x53),
      (kvk_ANSI_KEYPAD_MULTIPLY, Scancode_new 0x37),
      (kvk_ANSI_KEYPAD_PLUS, Scancode_new 0x4E),
      (kvk_ANSI_KEYPAD_DIVIDE, Scancode_ext 0x35),
      (kvk_ANSI_KEYPAD_ENTER, Scancode_ext 0x1C),
      (kvk_ANSI_KEYPAD_MINUS, Scancode_new 0x4A),
      (kvk_ANSI_KEYPAD_EQUALS, Scancode_new 0x59),
      (kvk_ANSI_KEYPAD_0, Scancode_new 0x52),
      (kvk_ANSI_KEYPAD_1, Scancode_new 0x4F),
      (kvk_ANSI_KEYPAD_2, Scancode_new 0x50),
      (kvk_ANSI_KEYPAD_3, Scancode_new 0x51),
      (kvk_ANSI_KEYPAD_4, Scancode_new 0x4B),
      (kvk_ANSI_KEYPAD_5, Scancode_new 0x4C),
      (kvk_ANSI_KEYPAD_6, Scancode_new 0x4D),
      (kvk_ANSI_KEYPAD_7, Scancode_new 0x47),
      (kvk_ANSI_KEYPAD_8, Scancode_new 0x48),
      (kvk_ANSI_KEYPAD_9, Scancode_new 0x49),
      (kvk_RETURN, Scancode_new 0x1C),
      (kvk_TAB, Scancode_new 0x0F),
      (kvk_SPACE, Scancode_new 0x39),
      (kvk_DELETE, Scancode_new 0x0E),
      (kvk_ESCAPE, Scancode_new 0x01),
      (kvk_SHIFT, Scancode_new 0x2A),
      (kvk_CAPS_LOCK, Scancode_new 0x3A),
      (kvk_OPTION, Scancode_new 0x38),
      (kvk_CONTROL, Scancode_new 0x1D),
      (kvk_RIGHT_SHIFT, Scancode_new 0x36),
      (kvk_RIGHT_OPTION, Scancode_ext 0x38),
      (kvk_RIGHT_CONTROL, Scancode_ext 0x1D),
      (kvk_F1, Scancode_new 0x3B),
      (kvk_F2, Scancode_new 0x3C),
      (kvk_F3, Scancode_new 0x3D),
      (kvk_F4, Scancode_new 0x3E),
      (kvk_F5, Scancode_new 0x3F),
      (kvk_F6, Scancode_new 0x40),
      (kvk_F7, Scancode_new 0x41),
      (kvk_F8, Scancode_new 0x42),
      (kvk_F9, Scancode_new 0x43),
      (kvk_F10, Scancode_new 0x44),
      (kvk_F11, Scancode_new 0x57),
      (kvk_F12, Scancode_new 0x58),
      (kvk_F13, Scancode_new 0x64),
      (kvk_F14, Scancode_new 0x65),
      (kvk_F15, Scancode_new 0x66),
      (kvk_F16, Scancode_new 0x67),
      (kvk_F17, Scancode_new 0x68),
      (kvk_F18, Scancode_new 0x69),
      (kvk_F19, Scancode_new 0x6A),
      (kvk_F20, Scancode_new 0x6B),
      (kvk_VOLUME_UP, Scancode_ext 0x30),
      (kvk_VOLUME_DOWN, Scancode_ext 0x2E),
      (kvk_MUTE, Scancode_ext 0x20),
      (kvk_CONTEXTUAL_MENU, Scancode_ext 0x5D),
      (kvk_HELP, Scancode_ext 0x52),
      (kvk_HOME, Scancode_ext 0x47),
      (kvk_PAGE_UP, Scancode_ext 0x49),
      (kvk_FORWARD_DELETE, Scancode_ext 0x53),
      (kvk_END, Scancode_ext 0x4F),
      (kvk_PAGE_DOWN, Scancode_ext 0x51),
      (kvk_LEFT_ARROW, Scancode_ext 0x4B),
      (kvk_RIGHT_ARROW, Scancode_ext 0x4D),
      (kvk_DOWN_ARROW, Scancode_ext 0x50),
      (kvk_UP_ARROW, Scancode_ext 0x48),
      (kvk_ISO_SECTION, Scancode_new 0x56),
      (kvk_JIS_YEN, Scancode_new 0x7D),
      (kvk_JIS_UNDERSCORE, Scancode_new 0x73),
      (kvk_JIS_KEYPAD_COMMA, Scancode_new 0x7E),
      (kvk_JIS_EISU, Scancode_new 0x71),
      (kvk_JIS_KANA, Scancode_new 0x72)]"

definition base_scancode :: "u16 \<Rightarrow> Scancode option" where
  "base_scancode code = map_of base_table code"

definition scancode_for :: "u16 \<Rightarrow> KeyboardType \<Rightarrow> CmdAs \<Rightarrow> Scancode option" where
  "scancode_for kvk kb cmd =
     (if kvk = kvk_ISO_SECTION \<and> kb = Iso then Some (Scancode_new 0x29)
      else if kvk = kvk_ANSI_GRAVE \<and> kb = Iso then Some (Scancode_new 0x56)
      else if kvk = kvk_COMMAND \<and> cmd = Super then Some (Scancode_ext 0x5B)
      else if kvk = kvk_RIGHT_COMMAND \<and> cmd = Super then Some (Scancode_ext 0x5C)
      else if kvk = kvk_COMMAND \<and> cmd = Ctrl then Some (Scancode_new 0x1D)
      else if kvk = kvk_RIGHT_COMMAND \<and> cmd = Ctrl then Some (Scancode_ext 0x1D)
      else base_scancode kvk)"

definition is_modifier :: "u16 \<Rightarrow> bool" where
  "is_modifier kvk =
     (kvk = kvk_SHIFT \<or> kvk = kvk_RIGHT_SHIFT \<or> kvk = kvk_CONTROL \<or> kvk = kvk_RIGHT_CONTROL \<or>
      kvk = kvk_OPTION \<or> kvk = kvk_RIGHT_OPTION \<or> kvk = kvk_COMMAND \<or> kvk = kvk_RIGHT_COMMAND \<or>
      kvk = kvk_CAPS_LOCK \<or> kvk = kvk_FUNCTION)"

definition is_text_key :: "u16 \<Rightarrow> bool" where
  "is_text_key kvk =
     (if kvk_ANSI_A \<le> kvk \<and> kvk \<le> kvk_ANSI_PERIOD then kvk \<noteq> kvk_RETURN
      else kvk = kvk_SPACE \<or> kvk = kvk_ANSI_GRAVE \<or>
        kvk = kvk_ANSI_KEYPAD_DECIMAL \<or> kvk = kvk_ANSI_KEYPAD_MULTIPLY \<or> kvk = kvk_ANSI_KEYPAD_PLUS \<or>
        kvk = kvk_ANSI_KEYPAD_DIVIDE \<or> kvk = kvk_ANSI_KEYPAD_MINUS \<or>
        kvk_ANSI_KEYPAD_EQUALS \<le> kvk \<and> kvk \<le> kvk_ANSI_KEYPAD_7 \<or> kvk = kvk_ANSI_KEYPAD_8 \<or>
        kvk = kvk_ANSI_KEYPAD_9 \<or> kvk = kvk_JIS_YEN \<or> kvk = kvk_JIS_UNDERSCORE \<or> kvk = kvk_JIS_KEYPAD_COMMA)"

subsection \<open>Facts about the table\<close>

lemma base_table_codes: "distinct (map fst base_table)" "list_all (\<lambda>(k, _). k < 128) base_table"
  by (simp_all add: base_table_def)

lemma base_table_scancodes: "distinct (map snd base_table)"
  by (simp add: base_table_def Scancode_new_def Scancode_ext_def)

lemma base_scancode_inj:
  assumes "base_scancode j = Some sc" and "base_scancode k = Some sc"
  shows "j = k"
proof -
  from assms have "(j, sc) \<in> set base_table" "(k, sc) \<in> set base_table"
    by (auto simp: base_scancode_def dest: map_of_SomeD)
  with base_table_scancodes show ?thesis
    by (metis eq_key_imp_eq_value map_of_eq_Some_iff distinct_map inj_on_def snd_conv prod.inject)
qed

lemma base_scancode_small: "base_scancode k = Some sc \<Longrightarrow> k < 128"
  using base_table_codes(2) by (auto simp: base_scancode_def list_all_iff dest!: map_of_SomeD)

lemma scancode_for_small: "scancode_for k kb cmd = Some sc \<Longrightarrow> k < 128"
  by (auto simp: scancode_for_def dest: base_scancode_small split: if_splits)

lemma base_scancode_values:
  "base_scancode kvk_ISO_SECTION = Some (Scancode_new 0x56)" "base_scancode kvk_ANSI_GRAVE = Some (Scancode_new 0x29)"
  "base_scancode kvk_CONTROL = Some (Scancode_new 0x1D)" "base_scancode kvk_RIGHT_CONTROL = Some (Scancode_ext 0x1D)"
  "base_scancode kvk_COMMAND = None" "base_scancode kvk_RIGHT_COMMAND = None"
  by (simp_all add: base_scancode_def base_table_def)

lemma base_scancode_no_super: "base_scancode k \<noteq> Some (Scancode_ext 0x5B)" "base_scancode k \<noteq> Some (Scancode_ext 0x5C)"
proof -
  have "Scancode_ext 0x5B \<notin> snd ` set base_table" "Scancode_ext 0x5C \<notin> snd ` set base_table"
    by (simp_all add: base_table_def Scancode_new_def Scancode_ext_def)
  then show "base_scancode k \<noteq> Some (Scancode_ext 0x5B)" "base_scancode k \<noteq> Some (Scancode_ext 0x5C)"
    by (auto simp: base_scancode_def image_iff dest!: map_of_SomeD)
qed

text \<open>Two keys never share a scancode, except Command sent as Control and the Control key it stands for.\<close>

definition control_pair :: "u16 \<Rightarrow> u16 \<Rightarrow> bool" where
  "control_pair j k =
     (j = kvk_COMMAND \<and> k = kvk_CONTROL \<or> j = kvk_RIGHT_COMMAND \<and> k = kvk_RIGHT_CONTROL)"

lemma scancode_for_inj:
  assumes "scancode_for j kb cmd = Some sc" and "scancode_for k kb cmd = Some sc"
  shows "j = k \<or> cmd = Ctrl \<and> (control_pair j k \<or> control_pair k j)"
proof -
  have u: "base_scancode i = Some (Scancode_new 0x56) \<Longrightarrow> i = kvk_ISO_SECTION"
    "base_scancode i = Some (Scancode_new 0x29) \<Longrightarrow> i = kvk_ANSI_GRAVE"
    "base_scancode i = Some (Scancode_new 0x1D) \<Longrightarrow> i = kvk_CONTROL"
    "base_scancode i = Some (Scancode_ext 0x1D) \<Longrightarrow> i = kvk_RIGHT_CONTROL" for i
    using base_scancode_inj base_scancode_values by metis+
  show ?thesis
    using assms unfolding scancode_for_def control_pair_def
    by (cases kb; cases cmd)
      (auto simp: base_scancode_no_super [unfolded Scancode_ext_def] Scancode_new_def Scancode_ext_def
        dest: base_scancode_inj u [unfolded Scancode_new_def Scancode_ext_def]
        split: if_splits)
qed

end
