(* ===== verification/Input_Modifiers.thy ===== *)
theory Input_Modifiers
  imports Input_Keymap
begin

unbundle bit_operations_syntax

text \<open>
  \<open>crates/drift-input/src/modifiers.rs\<close>: from the raw modifier flags to the set of modifier keys
  physically held. \<open>ModifierSet\<close> is the code's byte of bits; the locale \<open>key_set\<close> is the contract of
  a set of keys the keyboard relies on, interpreted on those bit operations.
\<close>

subsection \<open>Flags\<close>

type_synonym ModifierFlags = u64

definition F_CAPS_LOCK :: u64 where "F_CAPS_LOCK = push_bit 16 1"
definition F_SHIFT :: u64 where "F_SHIFT = push_bit 17 1"
definition F_CONTROL :: u64 where "F_CONTROL = push_bit 18 1"
definition F_OPTION :: u64 where "F_OPTION = push_bit 19 1"
definition F_COMMAND :: u64 where "F_COMMAND = push_bit 20 1"
definition DEVICE_LEFT_CONTROL :: u64 where "DEVICE_LEFT_CONTROL = 0x1"
definition DEVICE_LEFT_SHIFT :: u64 where "DEVICE_LEFT_SHIFT = 0x2"
definition DEVICE_RIGHT_SHIFT :: u64 where "DEVICE_RIGHT_SHIFT = 0x4"
definition DEVICE_LEFT_COMMAND :: u64 where "DEVICE_LEFT_COMMAND = 0x8"
definition DEVICE_RIGHT_COMMAND :: u64 where "DEVICE_RIGHT_COMMAND = 0x10"
definition DEVICE_LEFT_OPTION :: u64 where "DEVICE_LEFT_OPTION = 0x20"
definition DEVICE_RIGHT_OPTION :: u64 where "DEVICE_RIGHT_OPTION = 0x40"
definition DEVICE_RIGHT_CONTROL :: u64 where "DEVICE_RIGHT_CONTROL = 0x2000"

definition flags_contain :: "ModifierFlags \<Rightarrow> u64 \<Rightarrow> bool" where
  "flags_contain f m = (f AND m = m)"

definition flag_caps_lock :: "ModifierFlags \<Rightarrow> bool" where "flag_caps_lock f = flags_contain f F_CAPS_LOCK"
definition flag_command :: "ModifierFlags \<Rightarrow> bool" where "flag_command f = flags_contain f F_COMMAND"
definition flag_control :: "ModifierFlags \<Rightarrow> bool" where "flag_control f = flags_contain f F_CONTROL"
definition flag_shift :: "ModifierFlags \<Rightarrow> bool" where "flag_shift f = flags_contain f F_SHIFT"
definition flag_option :: "ModifierFlags \<Rightarrow> bool" where "flag_option f = flags_contain f F_OPTION"

subsection \<open>Modifier keys and sets of them\<close>

datatype ModifierKey =
    LeftShift | RightShift | LeftControl | RightControl
  | LeftOption | RightOption | LeftCommand | RightCommand

definition ModifierKey_ALL :: "ModifierKey list" where
  "ModifierKey_ALL =
     [LeftShift, RightShift, LeftControl, RightControl, LeftOption, RightOption, LeftCommand, RightCommand]"

fun modifier_kvk :: "ModifierKey \<Rightarrow> u16" where
  "modifier_kvk LeftShift = kvk_SHIFT"
| "modifier_kvk RightShift = kvk_RIGHT_SHIFT"
| "modifier_kvk LeftControl = kvk_CONTROL"
| "modifier_kvk RightControl = kvk_RIGHT_CONTROL"
| "modifier_kvk LeftOption = kvk_OPTION"
| "modifier_kvk RightOption = kvk_RIGHT_OPTION"
| "modifier_kvk LeftCommand = kvk_COMMAND"
| "modifier_kvk RightCommand = kvk_RIGHT_COMMAND"

definition from_kvk :: "u16 \<Rightarrow> ModifierKey option" where
  "from_kvk code = find (\<lambda>m. modifier_kvk m = code) ModifierKey_ALL"

definition is_command :: "ModifierKey \<Rightarrow> bool" where
  "is_command k = (k = LeftCommand \<or> k = RightCommand)"

text \<open>The discriminant \<open>self as u8\<close>.\<close>

fun modifier_index :: "ModifierKey \<Rightarrow> nat" where
  "modifier_index LeftShift = 0"
| "modifier_index RightShift = 1"
| "modifier_index LeftControl = 2"
| "modifier_index RightControl = 3"
| "modifier_index LeftOption = 4"
| "modifier_index RightOption = 5"
| "modifier_index LeftCommand = 6"
| "modifier_index RightCommand = 7"

definition modifier_bit :: "ModifierKey \<Rightarrow> u8" where
  "modifier_bit k = push_bit (modifier_index k) 1"

type_synonym ModifierSet = u8

definition ms_empty :: ModifierSet where "ms_empty = 0"

definition ms_contains :: "ModifierSet \<Rightarrow> ModifierKey \<Rightarrow> bool" where
  "ms_contains s k = (s AND modifier_bit k \<noteq> 0)"

definition ms_insert :: "ModifierKey \<Rightarrow> ModifierSet \<Rightarrow> ModifierSet" where
  "ms_insert k s = s OR modifier_bit k"

definition ms_remove :: "ModifierKey \<Rightarrow> ModifierSet \<Rightarrow> ModifierSet" where
  "ms_remove k s = s AND NOT (modifier_bit k)"

definition ms_iter :: "ModifierSet \<Rightarrow> ModifierKey list" where
  "ms_iter s = filter (ms_contains s) ModifierKey_ALL"

text \<open>A set of keys and what its operations promise.\<close>

locale key_set =
  fixes empty :: "'s"
    and mem :: "'s \<Rightarrow> 'k \<Rightarrow> bool"
    and add :: "'k \<Rightarrow> 's \<Rightarrow> 's"
    and del :: "'k \<Rightarrow> 's \<Rightarrow> 's"
    and elems :: "'s \<Rightarrow> 'k list"
  assumes mem_empty: "\<not> mem empty k"
    and mem_add: "mem (add k s) j \<longleftrightarrow> j = k \<or> mem s j"
    and mem_del: "mem (del k s) j \<longleftrightarrow> j \<noteq> k \<and> mem s j"
    and elems_mem: "set (elems s) = {k. mem s k}"
    and elems_distinct: "distinct (elems s)"
begin

lemma mem_adds: "mem (fold add ks s) j \<longleftrightarrow> j \<in> set ks \<or> mem s j"
  by (induction ks arbitrary: s) (auto simp: mem_add)

lemma add_mem: "mem s k \<Longrightarrow> mem (add k s) j = mem s j"
  by (auto simp: mem_add)

lemma del_add: "\<not> mem s k \<Longrightarrow> mem (del k (add k s)) j = mem s j"
  by (auto simp: mem_add mem_del)

lemma elems_empty: "elems empty = []"
  using elems_mem [of empty] mem_empty by auto

end

lemma modifier_index_inj [simp]: "modifier_index j = modifier_index k \<longleftrightarrow> j = k"
  by (cases j; cases k) simp_all

lemma modifier_index_less [simp]: "modifier_index k < 8"
  by (cases k) simp_all

lemma bit_modifier_bit: "bit (modifier_bit k) n \<longleftrightarrow> n = modifier_index k"
  by (auto simp: modifier_bit_def bit_simps bit_1_iff)

lemma ms_contains_bit: "ms_contains s k \<longleftrightarrow> bit s (modifier_index k)"
proof -
  have "s AND modifier_bit k = 0 \<longleftrightarrow> (\<forall>n < 8. \<not> (bit s n \<and> n = modifier_index k))"
    by (simp add: bit_eq_iff [of "s AND modifier_bit k"] bit_and_iff bit_modifier_bit)
  then show ?thesis by (auto simp: ms_contains_def)
qed

interpretation ms: key_set ms_empty ms_contains ms_insert ms_remove ms_iter
proof (unfold_locales, goal_cases)
  case (4 s)
  have "k \<in> set ModifierKey_ALL" for k by (cases k) (simp_all add: ModifierKey_ALL_def)
  then show ?case by (auto simp: ms_iter_def)
next
  case (5 s)
  show ?case by (simp add: ms_iter_def ModifierKey_ALL_def)
qed (auto simp: ms_contains_bit ms_insert_def ms_remove_def ms_empty_def bit_simps bit_modifier_bit)

lemmas ms_simps [simp] = ms.mem_empty ms.mem_add ms.mem_del ms.elems_empty

lemma ms_eq_iff: "s = t \<longleftrightarrow> (\<forall>k. ms_contains s k = ms_contains t k)"
proof
  assume all: "\<forall>k. ms_contains s k = ms_contains t k"
  show "s = t"
  proof (rule bit_word_eqI)
    fix n assume "n < LENGTH(8)"
    then have "n \<in> {0, 1, 2, 3, 4, 5, 6, 7}" by auto
    also have "\<dots> = modifier_index ` set ModifierKey_ALL" by (simp add: ModifierKey_ALL_def)
    finally have "\<exists>k. modifier_index k = n" by blast
    then obtain k where "modifier_index k = n" by blast
    with all show "bit s n = bit t n" using ms_contains_bit by auto
  qed
qed simp

subsection \<open>Held modifiers\<close>

record ModifierClass =
  mc_class :: u64
  mc_left :: ModifierKey
  mc_left_bit :: u64
  mc_right :: ModifierKey
  mc_right_bit :: u64

definition CLASSES :: "ModifierClass list" where
  "CLASSES =
     [\<lparr>mc_class = F_SHIFT, mc_left = LeftShift, mc_left_bit = DEVICE_LEFT_SHIFT,
       mc_right = RightShift, mc_right_bit = DEVICE_RIGHT_SHIFT\<rparr>,
      \<lparr>mc_class = F_CONTROL, mc_left = LeftControl, mc_left_bit = DEVICE_LEFT_CONTROL,
       mc_right = RightControl, mc_right_bit = DEVICE_RIGHT_CONTROL\<rparr>,
      \<lparr>mc_class = F_OPTION, mc_left = LeftOption, mc_left_bit = DEVICE_LEFT_OPTION,
       mc_right = RightOption, mc_right_bit = DEVICE_RIGHT_OPTION\<rparr>,
      \<lparr>mc_class = F_COMMAND, mc_left = LeftCommand, mc_left_bit = DEVICE_LEFT_COMMAND,
       mc_right = RightCommand, mc_right_bit = DEVICE_RIGHT_COMMAND\<rparr>]"

text \<open>One turn of the loop over the classes.\<close>

definition held_class ::
    "ModifierFlags \<Rightarrow> ModifierKey option \<Rightarrow> ModifierSet \<Rightarrow> ModifierClass \<Rightarrow> ModifierSet \<Rightarrow> ModifierSet" where
  "held_class flags changed previous c held =
     (if \<not> flags_contain flags (mc_class c) then held
      else
        let l = flags_contain flags (mc_left_bit c);
            r = flags_contain flags (mc_right_bit c)
        in if l \<or> r
           then let held = (if l then ms_insert (mc_left c) held else held)
                in if r then ms_insert (mc_right c) held else held
           else case changed of
             Some key \<Rightarrow>
               if key = mc_left c \<or> key = mc_right c then ms_insert key held
               else if ms_contains previous (mc_left c) \<or> ms_contains previous (mc_right c)
               then fold (\<lambda>key held. if ms_contains previous key then ms_insert key held else held)
                      [mc_left c, mc_right c] held
               else ms_insert (mc_left c) held
           | None \<Rightarrow>
               if ms_contains previous (mc_left c) \<or> ms_contains previous (mc_right c)
               then fold (\<lambda>key held. if ms_contains previous key then ms_insert key held else held)
                      [mc_left c, mc_right c] held
               else ms_insert (mc_left c) held)"

definition held_modifiers :: "ModifierFlags \<Rightarrow> u16 option \<Rightarrow> ModifierSet \<Rightarrow> ModifierSet" where
  "held_modifiers flags changed_kvk previous =
     fold (held_class flags (Option.bind changed_kvk from_kvk) previous) CLASSES ms_empty"

text \<open>The class of a key and the bits that tell its side.\<close>

fun class_bit :: "ModifierKey \<Rightarrow> u64" where
  "class_bit LeftShift = F_SHIFT"
| "class_bit RightShift = F_SHIFT"
| "class_bit LeftControl = F_CONTROL"
| "class_bit RightControl = F_CONTROL"
| "class_bit LeftOption = F_OPTION"
| "class_bit RightOption = F_OPTION"
| "class_bit LeftCommand = F_COMMAND"
| "class_bit RightCommand = F_COMMAND"

fun device_bit :: "ModifierKey \<Rightarrow> u64" where
  "device_bit LeftShift = DEVICE_LEFT_SHIFT"
| "device_bit RightShift = DEVICE_RIGHT_SHIFT"
| "device_bit LeftControl = DEVICE_LEFT_CONTROL"
| "device_bit RightControl = DEVICE_RIGHT_CONTROL"
| "device_bit LeftOption = DEVICE_LEFT_OPTION"
| "device_bit RightOption = DEVICE_RIGHT_OPTION"
| "device_bit LeftCommand = DEVICE_LEFT_COMMAND"
| "device_bit RightCommand = DEVICE_RIGHT_COMMAND"

fun other_side :: "ModifierKey \<Rightarrow> ModifierKey" where
  "other_side LeftShift = RightShift"
| "other_side RightShift = LeftShift"
| "other_side LeftControl = RightControl"
| "other_side RightControl = LeftControl"
| "other_side LeftOption = RightOption"
| "other_side RightOption = LeftOption"
| "other_side LeftCommand = RightCommand"
| "other_side RightCommand = LeftCommand"

definition is_left :: "ModifierKey \<Rightarrow> bool" where
  "is_left k = (k = LeftShift \<or> k = LeftControl \<or> k = LeftOption \<or> k = LeftCommand)"

lemma held_class_contains:
  "ms_contains (held_class f ch prev c held) k \<longleftrightarrow>
     ms_contains held k \<or> flags_contain f (mc_class c) \<and> (k = mc_left c \<or> k = mc_right c) \<and>
       (let l = flags_contain f (mc_left_bit c); r = flags_contain f (mc_right_bit c) in
        if l \<or> r then (k = mc_left c \<and> l \<or> k = mc_right c \<and> r)
        else if ch = Some (mc_left c) \<or> ch = Some (mc_right c) then ch = Some k
        else if ms_contains prev (mc_left c) \<or> ms_contains prev (mc_right c) then ms_contains prev k
        else k = mc_left c)"
  by (cases ch) (auto simp: held_class_def Let_def)

text \<open>
  A key is held exactly when its class is down and it is the side told by the device bits, else the
  key that changed, else a side held before, else the left one.
\<close>

lemma held_modifiers_iff:
  "ms_contains (held_modifiers f ch prev) k \<longleftrightarrow>
     flags_contain f (class_bit k) \<and>
       (let c = Option.bind ch from_kvk; j = other_side k in
        if flags_contain f (device_bit k) \<or> flags_contain f (device_bit j) then flags_contain f (device_bit k)
        else if c = Some k \<or> c = Some j then c = Some k
        else if ms_contains prev k \<or> ms_contains prev j then ms_contains prev k
        else is_left k)"
  unfolding is_left_def held_modifiers_def CLASSES_def
  by (cases k) (auto simp: held_class_contains Let_def)

end
