(* ===== verification/Rust_Utf.thy ===== *)
theory Rust_Utf
  imports Rust_Str
begin

text \<open>
  Text encodings of the standard library: UTF-8 (\<open>str::from_utf8\<close>, \<open>str::bytes\<close>), UTF-16
  (\<open>char::encode_utf16\<close>, \<open>char::decode_utf16\<close> with the replacement character for an unpaired
  surrogate) and little-endian code units, with the round trips the components rely on.
\<close>

definition is_scalar :: "rchar \<Rightarrow> bool" where
  "is_scalar c = (c < 55296 \<or> 57344 \<le> c \<and> c < 1114112)"

subsection \<open>UTF-16\<close>

text \<open>\<open>char::encode_utf16\<close>: one unit below \<open>2 ^ 16\<close>, a surrogate pair above.\<close>

definition encode_utf16 :: "rchar \<Rightarrow> u16 list" where
  "encode_utf16 c =
     (if c < 65536 then [of_nat c]
      else [of_nat (55296 + (c - 65536) div 1024), of_nat (56320 + (c - 65536) mod 1024)])"

lemma unat_of_nat_u16: "n < 65536 \<Longrightarrow> unat (of_nat n :: u16) = n"
  by (simp add: unsigned_of_nat take_bit_nat_eq_self)

definition is_high :: "u16 \<Rightarrow> bool" where
  "is_high u = (55296 \<le> unat u \<and> unat u < 56320)"

definition is_low :: "u16 \<Rightarrow> bool" where
  "is_low u = (56320 \<le> unat u \<and> unat u < 57344)"

fun decode_utf16_lossy :: "u16 list \<Rightarrow> rstr" where
  "decode_utf16_lossy [] = []"
| "decode_utf16_lossy [u] = [if is_high u \<or> is_low u then 65533 else unat u]"
| "decode_utf16_lossy (u # v # us) =
     (if is_high u \<and> is_low v
      then (65536 + (unat u - 55296) * 1024 + (unat v - 56320)) # decode_utf16_lossy us
      else (if is_high u \<or> is_low u then 65533 else unat u) # decode_utf16_lossy (v # us))"

lemma decode_encode_utf16:
  assumes "is_scalar c"
  shows "decode_utf16_lossy (encode_utf16 c @ us) = c # decode_utf16_lossy us"
proof (cases "c < 65536")
  case True
  with assms have "\<not> is_high (of_nat c)" "\<not> is_low (of_nat c)"
    by (auto simp: is_scalar_def is_high_def is_low_def unat_of_nat_u16)
  with True show ?thesis by (cases us) (simp_all add: encode_utf16_def unat_of_nat_u16)
next
  case False
  define d where "d = c - 65536"
  from False assms have c: "c = 65536 + d" "d < 1048576" by (auto simp: is_scalar_def d_def)
  then have "d div 1024 < 1024" "d mod 1024 < 1024" by auto
  then have u: "unat (of_nat (55296 + d div 1024) :: u16) = 55296 + d div 1024"
    "unat (of_nat (56320 + d mod 1024) :: u16) = 56320 + d mod 1024"
    "is_high (of_nat (55296 + d div 1024))" "is_low (of_nat (56320 + d mod 1024))"
    unfolding is_high_def is_low_def by (simp_all add: unat_of_nat_u16 del: of_nat_add)
  have e: "encode_utf16 c = [of_nat (55296 + d div 1024), of_nat (56320 + d mod 1024)]"
    using False by (simp only: encode_utf16_def d_def if_False)
  have "65536 + (55296 + d div 1024 - 55296) * 1024 + (56320 + d mod 1024 - 56320) = c"
    unfolding c(1) by simp
  then show ?thesis unfolding e append_Cons append_Nil decode_utf16_lossy.simps using u by simp
qed

lemma decode_encode_utf16_str:
  "\<forall>c \<in> set s. is_scalar c \<Longrightarrow> decode_utf16_lossy (concat (map encode_utf16 s)) = s"
  by (induction s) (simp_all add: decode_encode_utf16)

lemma encode_utf16_nonzero: "is_scalar c \<Longrightarrow> c \<noteq> 0 \<Longrightarrow> u \<in> set (encode_utf16 c) \<Longrightarrow> u \<noteq> 0"
proof -
  assume c: "is_scalar c" "c \<noteq> 0" and u: "u \<in> set (encode_utf16 c)"
  obtain n where "u = of_nat n" "0 < n" "n < 65536"
  proof (cases "c < 65536")
    case True
    with u c that [of c] show ?thesis by (auto simp: encode_utf16_def)
  next
    case False
    then have "(c - 65536) div 1024 < 1024" using c(1) by (auto simp: is_scalar_def)
    with False u that [of "55296 + (c - 65536) div 1024"] that [of "56320 + (c - 65536) mod 1024"]
    show ?thesis by (auto simp: encode_utf16_def simp del: of_nat_add)
  qed
  then have "unat u = n" by (simp add: unat_of_nat_u16)
  with \<open>0 < n\<close> show "u \<noteq> 0" by auto
qed

text \<open>Little-endian bytes of a code unit, and \<open>chunks_exact(2)\<close> read back.\<close>

definition u16_le_bytes :: "u16 \<Rightarrow> u8 list" where
  "u16_le_bytes u = [ucast u, ucast (drop_bit 8 u)]"

fun u16_from_le :: "u8 list \<Rightarrow> u16 list" where
  "u16_from_le (a # b # bs) = (ucast a + 256 * ucast b) # u16_from_le bs"
| "u16_from_le _ = []"

lemma u16_le_round_trip: "(ucast (ucast u :: u8) :: u16) + 256 * ucast (ucast (drop_bit 8 u) :: u8) = u"
proof -
  have d: "unat (drop_bit 8 u) = unat u div 256" by (simp add: drop_bit_eq_div unat_div)
  have b: "unat u < 65536" using unsigned_less [of u] by simp
  then have q: "unat u div 256 < 256" by auto
  have lo: "unat (ucast (ucast u :: u8) :: u16) = unat u mod 256"
    by (simp add: unsigned_ucast_eq take_bit_eq_mod mod_mod_cancel unat_mod)
  have hi: "unat (ucast (ucast (drop_bit 8 u) :: u8) :: u16) = unat u div 256"
    using q by (simp add: unsigned_ucast_eq take_bit_eq_mod unat_mod d)
  have "unat (256 * ucast (ucast (drop_bit 8 u) :: u8) :: u16) = 256 * (unat u div 256)"
    using q b by (subst unat_mult_no_wrap) (simp_all add: hi)
  then have "unat ((ucast (ucast u :: u8) :: u16) + 256 * ucast (ucast (drop_bit 8 u) :: u8)) = unat u"
    using b lo by (subst unat_add_no_wrap) (simp_all)
  then show ?thesis by (simp add: word_unat_eq_iff)
qed

lemma u16_from_le_bytes: "u16_from_le (concat (map u16_le_bytes us) @ bs) = us @ u16_from_le bs"
  by (induction us) (simp_all add: u16_le_bytes_def u16_le_round_trip)

subsection \<open>UTF-8\<close>

definition utf8_char :: "rchar \<Rightarrow> u8 list" where
  "utf8_char c =
     (if c < 128 then [of_nat c]
      else if c < 2048 then [of_nat (192 + c div 64), of_nat (128 + c mod 64)]
      else if c < 65536 then [of_nat (224 + c div 4096), of_nat (128 + c div 64 mod 64), of_nat (128 + c mod 64)]
      else [of_nat (240 + c div 262144), of_nat (128 + c div 4096 mod 64), of_nat (128 + c div 64 mod 64),
            of_nat (128 + c mod 64)])"

definition str_bytes :: "rstr \<Rightarrow> u8 list" where
  "str_bytes s = concat (map utf8_char s)"

definition continuation :: "nat \<Rightarrow> bool" where
  "continuation b = (128 \<le> b \<and> b < 192)"

definition second3 :: "nat \<Rightarrow> nat \<Rightarrow> bool" where
  "second3 a b = (if a = 224 then 160 \<le> b \<and> b < 192 else if a = 237 then 128 \<le> b \<and> b < 160 else continuation b)"

definition second4 :: "nat \<Rightarrow> nat \<Rightarrow> bool" where
  "second4 a b = (if a = 240 then 144 \<le> b \<and> b < 192 else if a = 244 then 128 \<le> b \<and> b < 144 else continuation b)"

fun utf8_decode :: "nat list \<Rightarrow> rstr option" where
  "utf8_decode [] = Some []"
| "utf8_decode (a # bs) =
     (if a < 128 then map_option ((#) a) (utf8_decode bs)
      else if 194 \<le> a \<and> a < 224
      then (case bs of
              b # ds \<Rightarrow> if continuation b
                then map_option ((#) ((a - 192) * 64 + (b - 128))) (utf8_decode ds) else None
            | _ \<Rightarrow> None)
      else if 224 \<le> a \<and> a < 240
      then (case bs of
              b # c # ds \<Rightarrow> if second3 a b \<and> continuation c
                then map_option ((#) ((a - 224) * 4096 + (b - 128) * 64 + (c - 128))) (utf8_decode ds) else None
            | _ \<Rightarrow> None)
      else if 240 \<le> a \<and> a < 245
      then (case bs of
              b # c # d # ds \<Rightarrow> if second4 a b \<and> continuation c \<and> continuation d
                then map_option ((#) ((a - 240) * 262144 + (b - 128) * 4096 + (c - 128) * 64 + (d - 128)))
                  (utf8_decode ds) else None
            | _ \<Rightarrow> None)
      else None)"

definition from_utf8 :: "u8 list \<Rightarrow> rstr option" where
  "from_utf8 bs = utf8_decode (map unat bs)"

definition is_ascii_graphic :: "u8 \<Rightarrow> bool" where
  "is_ascii_graphic b = (33 \<le> unat b \<and> unat b \<le> 126)"

lemma utf8_char_ascii: "c < 128 \<Longrightarrow> utf8_char c = [of_nat c]"
  by (simp add: utf8_char_def)

lemma utf8_decode_ascii: "\<forall>b \<in> set bs. b < 128 \<Longrightarrow> utf8_decode bs = Some bs"
  by (induction bs) simp_all

text \<open>A text all of whose bytes are ASCII consists of ASCII characters.\<close>

lemma str_bytes_ascii:
  assumes "c < 2097152" and "\<forall>b \<in> set (utf8_char c). unat b < 128"
  shows "c < 128"
proof (rule ccontr)
  assume "\<not> c < 128"
  have "\<exists>n. of_nat n \<in> set (utf8_char c) \<and> 128 \<le> n \<and> n < 256"
  proof -
    consider "c < 2048" | "2048 \<le> c" "c < 65536" | "65536 \<le> c" by linarith
    then show ?thesis
    proof cases
      case 1
      with \<open>\<not> c < 128\<close> show ?thesis
        by (intro exI [of _ "192 + c div 64"]) (auto simp: utf8_char_def)
    next
      case 2
      with \<open>\<not> c < 128\<close> show ?thesis
        by (intro exI [of _ "224 + c div 4096"]) (auto simp: utf8_char_def)
    next
      case 3
      then have "c div 262144 < 8" using assms(1) by auto
      with 3 show ?thesis by (intro exI [of _ "240 + c div 262144"]) (auto simp: utf8_char_def)
    qed
  qed
  then obtain n where n: "of_nat n \<in> set (utf8_char c)" "128 \<le> n" "n < 256" by blast
  then have "unat (of_nat n :: u8) = n" by (simp add: unsigned_of_nat take_bit_nat_eq_self)
  with n assms(2) show False by fastforce
qed


text \<open>The characters read are bounded by what four bytes can hold.\<close>

lemma utf8_decode_Cons:
  assumes "utf8_decode (a # bs) = Some s"
  shows "\<exists>c n t. s = c # t \<and> c < 2097152 \<and> utf8_decode (drop n bs) = Some t"
proof -
  consider "a < 128" | "194 \<le> a" "a < 224" | "224 \<le> a" "a < 240" | "240 \<le> a" "a < 245"
    using assms by (fastforce split: if_splits)
  then show ?thesis
  proof cases
    case 1
    with assms show ?thesis by (intro exI [of _ a] exI [of _ 0]) auto
  next
    case 2
    with assms obtain b ds where bs: "bs = b # ds" "continuation b" by (auto split: list.splits if_splits)
    with 2 assms show ?thesis
      by (intro exI [of _ "(a - 192) * 64 + (b - 128)"] exI [of _ 1]) (auto simp: continuation_def)
  next
    case 3
    with assms obtain b c ds where bs: "bs = b # c # ds" "second3 a b" "continuation c"
      by (auto split: list.splits if_splits)
    then have "b < 192" "c < 192" by (auto simp: second3_def continuation_def split: if_splits)
    with bs 3 assms show ?thesis
      by (intro exI [of _ "(a - 224) * 4096 + (b - 128) * 64 + (c - 128)"] exI [of _ 2]) auto
  next
    case 4
    with assms obtain b c d ds where bs: "bs = b # c # d # ds" "second4 a b" "continuation c" "continuation d"
      by (auto split: list.splits if_splits)
    then have "b < 192" "c < 192" "d < 192" by (auto simp: second4_def continuation_def split: if_splits)
    with bs 4 assms show ?thesis
      by (intro exI [of _ "(a - 240) * 262144 + (b - 128) * 4096 + (c - 128) * 64 + (d - 128)"] exI [of _ 3])
        (auto simp: numeral_3_eq_3)
  qed
qed

lemma utf8_decode_bounded: "utf8_decode bs = Some s \<Longrightarrow> \<forall>c \<in> set s. c < 2097152"
proof (induction "length bs" arbitrary: bs s rule: less_induct)
  case less
  show ?case
  proof (cases bs)
    case (Cons a cs)
    with less.prems utf8_decode_Cons obtain c n t where
      "s = c # t" "c < 2097152" "utf8_decode (drop n cs) = Some t" by blast
    with less.hyps [of "drop n cs"] Cons show ?thesis by auto
  qed (use less.prems in simp)
qed

lemma from_utf8_ascii:
  assumes "from_utf8 bs = Some s" and "t = take n s" and "list_all (\<lambda>b. unat b < 128) (str_bytes t)"
  shows "\<forall>c \<in> set t. c < 128 \<and> of_nat c \<in> set (str_bytes t)"
proof
  fix c
  assume c: "c \<in> set t"
  then have "c < 2097152"
    using assms(1,2) utf8_decode_bounded in_set_takeD by (fastforce simp: from_utf8_def)
  moreover have "\<forall>b \<in> set (utf8_char c). unat b < 128"
    using assms(3) c by (auto simp: str_bytes_def list_all_iff)
  ultimately have "c < 128" by (rule str_bytes_ascii)
  then have "of_nat c \<in> set (utf8_char c)" by (simp add: utf8_char_ascii)
  with c \<open>c < 128\<close> show "c < 128 \<and> of_nat c \<in> set (str_bytes t)" by (auto simp: str_bytes_def)
qed

end
