(* ===== verification/Input_Unicode.thy ===== *)
theory Input_Unicode
  imports Input_Modifiers Rust_Utf
begin

text \<open>
  \<open>crates/drift-input/src/unicode.rs\<close> and \<open>shortcuts.rs\<close>: where a key press goes, the Unicode events
  of committed text (UTF-16 code units, decoded again by \<open>utf16_decode\<close>), and the menu's allow-list.
\<close>

subsection \<open>Routing\<close>

datatype KeyRoute = ToScancode | ToText

definition route_key_down :: "KeyboardPrefs \<Rightarrow> u16 \<Rightarrow> ModifierFlags \<Rightarrow> bool \<Rightarrow> KeyRoute" where
  "route_key_down prefs kvk flags composing =
     (if \<not> type_with_mac_layout prefs \<or> flag_command flags \<or> flag_control flags then ToScancode
      else if composing \<or> is_text_key kvk then ToText
      else ToScancode)"

subsection \<open>Text\<close>

definition typeable :: "rchar \<Rightarrow> bool" where
  "typeable c = (\<not> is_control c \<and> \<not> (63232 \<le> c \<and> c \<le> 63743))"

definition unit_events :: "u16 \<Rightarrow> InputEvent list" where
  "unit_events u = [Unicode u True, Unicode u False]"

definition text_to_events :: "rstr \<Rightarrow> InputEvent list" where
  "text_to_events s = concat (map (\<lambda>c. concat (map unit_events (encode_utf16 c))) (filter typeable s))"

text \<open>What a reader of the units makes of them.\<close>

fun utf16_decode :: "u16 list \<Rightarrow> rstr" where
  "utf16_decode [] = []"
| "utf16_decode [u] = [unat u]"
| "utf16_decode (u # v # us) =
     (if 55296 \<le> unat u \<and> unat u < 56320
      then (65536 + (unat u - 55296) * 1024 + (unat v - 56320)) # utf16_decode us
      else unat u # utf16_decode (v # us))"

fun pressed_units :: "InputEvent list \<Rightarrow> u16 list" where
  "pressed_units [] = []"
| "pressed_units (Unicode u True # es) = u # pressed_units es"
| "pressed_units (e # es) = pressed_units es"

lemma utf16_decode_encode:
  assumes "is_scalar c"
  shows "utf16_decode (encode_utf16 c @ us) = c # utf16_decode us"
proof (cases "c < 65536")
  case True
  with assms have "\<not> (55296 \<le> c \<and> c < 56320)" by (auto simp: is_scalar_def)
  with True show ?thesis by (cases us) (simp_all add: encode_utf16_def unat_of_nat_u16)
next
  case False
  define d where "d = c - 65536"
  from False assms have c: "c = 65536 + d" "d < 1048576" by (auto simp: is_scalar_def d_def)
  then have q: "d div 1024 < 1024" "d mod 1024 < 1024" by auto
  then have u: "unat (of_nat (55296 + d div 1024) :: u16) = 55296 + d div 1024"
    "unat (of_nat (56320 + d mod 1024) :: u16) = 56320 + d mod 1024"
    by (simp_all only: unat_of_nat_u16)
  have e: "encode_utf16 c = [of_nat (55296 + d div 1024), of_nat (56320 + d mod 1024)]"
    using False by (simp only: encode_utf16_def d_def if_False)
  have "65536 + (55296 + d div 1024 - 55296) * 1024 + (56320 + d mod 1024 - 56320) = c"
    unfolding c(1) by simp
  with q show ?thesis unfolding e append_Cons append_Nil utf16_decode.simps u by simp
qed

lemma pressed_units_unit_events: "pressed_units (concat (map unit_events us) @ es) = us @ pressed_units es"
  by (induction us) (auto simp: unit_events_def)

lemma pressed_units_text: "pressed_units (text_to_events s) = concat (map encode_utf16 (filter typeable s))"
proof -
  have "pressed_units (concat (map (\<lambda>c. concat (map unit_events (encode_utf16 c))) cs)) =
      concat (map encode_utf16 cs)" for cs
    by (induction cs) (simp_all add: pressed_units_unit_events)
  then show ?thesis by (simp add: text_to_events_def)
qed

lemma text_round_trip:
  "\<forall>c \<in> set s. is_scalar c \<Longrightarrow> utf16_decode (pressed_units (text_to_events s)) = filter typeable s"
proof -
  have "\<forall>c \<in> set cs. is_scalar c \<Longrightarrow> utf16_decode (concat (map encode_utf16 cs)) = cs" for cs
    by (induction cs) (simp_all add: utf16_decode_encode)
  then show "\<forall>c \<in> set s. is_scalar c \<Longrightarrow> utf16_decode (pressed_units (text_to_events s)) = filter typeable s"
    by (simp add: pressed_units_text)
qed

text \<open>Every press is followed by its release at once.\<close>

fun paired :: "InputEvent list \<Rightarrow> bool" where
  "paired [] = True"
| "paired (Unicode u True # Unicode v False # es) = (u = v \<and> paired es)"
| "paired _ = False"

lemma paired_text: "paired (text_to_events s)"
proof -
  have u: "paired es \<Longrightarrow> paired (concat (map unit_events us) @ es)" for us es
    by (induction us) (auto simp: unit_events_def)
  have "paired (concat (map (\<lambda>c. concat (map unit_events (encode_utf16 c))) cs))" for cs
    by (induction cs) (simp_all add: u)
  then show ?thesis by (simp add: text_to_events_def)
qed

lemma text_no_keys: "e \<in> set (text_to_events s) \<Longrightarrow> \<exists>u d. e = Unicode u d"
  by (auto simp: text_to_events_def unit_events_def)

subsection \<open>The menu's allow-list\<close>

datatype MenuShortcut =
    NewConnection | ShowConnections | EditConnection | Disconnect | CloseWindow | Quit
  | SelectSession u8 | CycleWindows

definition ansi_position_char :: "u16 \<Rightarrow> rchar option" where
  "ansi_position_char code =
     (if code = kvk_ANSI_N then Some (of_char CHR ''n'')
      else if code = kvk_ANSI_E then Some (of_char CHR ''e'')
      else if code = kvk_ANSI_D then Some (of_char CHR ''d'')
      else if code = kvk_ANSI_W then Some (of_char CHR ''w'')
      else if code = kvk_ANSI_Q then Some (of_char CHR ''q'')
      else if code = kvk_ANSI_GRAVE then Some 96
      else None)"

definition key_digit :: "u16 \<Rightarrow> u8 option" where
  "key_digit code =
     map_of [(kvk_ANSI_0, 0), (kvk_ANSI_1, 1), (kvk_ANSI_2, 2), (kvk_ANSI_3, 3), (kvk_ANSI_4, 4),
       (kvk_ANSI_5, 5), (kvk_ANSI_6, 6), (kvk_ANSI_7, 7), (kvk_ANSI_8, 8), (kvk_ANSI_9, 9)] code"

definition shortcut_of_char :: "rchar \<Rightarrow> MenuShortcut option" where
  "shortcut_of_char c =
     (if c = of_char CHR ''n'' then Some NewConnection
      else if c = of_char CHR ''e'' then Some EditConnection
      else if c = of_char CHR ''w'' then Some CloseWindow
      else if c = of_char CHR ''q'' then Some Quit
      else if c = 96 then Some CycleWindows
      else if c = 48 then Some ShowConnections
      else if 49 \<le> c \<and> c \<le> 57 then Some (SelectSession (of_nat c - 48))
      else None)"

definition menu_shortcut :: "u16 \<Rightarrow> rstr \<Rightarrow> ModifierFlags \<Rightarrow> MenuShortcut option" where
  "menu_shortcut kvk chars flags =
     (if \<not> flag_command flags \<or> flag_control flags \<or> flag_option flags then None
      else
        let typed = (case chars of [c] \<Rightarrow> if c < 128 then Some (to_ascii_lowercase c) else None | _ \<Rightarrow> None);
            key = (case typed of Some c \<Rightarrow> Some c | None \<Rightarrow> ansi_position_char kvk)
        in if flag_shift flags then (if key = Some (of_char CHR ''d'') then Some Disconnect else None)
           else case key_digit kvk of
             Some n \<Rightarrow> Some (if n = 0 then ShowConnections else SelectSession n)
           | None \<Rightarrow> (case key of None \<Rightarrow> None | Some c \<Rightarrow> shortcut_of_char c))"

lemma key_digit_le: "key_digit k = Some n \<Longrightarrow> n \<le> 9"
  by (auto simp: key_digit_def split: if_splits)

lemma shortcut_digit: "shortcut_of_char c = Some (SelectSession n) \<Longrightarrow> 1 \<le> n \<and> n \<le> 9"
proof -
  assume "shortcut_of_char c = Some (SelectSession n)"
  then have "c \<in> {49, 50, 51, 52, 53, 54, 55, 56, 57}" "n = of_nat c - 48"
    by (auto simp: shortcut_of_char_def split: if_splits)
  then show ?thesis by auto
qed

lemma menu_shortcut_session:
  assumes "menu_shortcut k chars f = Some (SelectSession n)"
  shows "1 \<le> n \<and> n \<le> 9"
proof -
  have one: "m \<noteq> 0 \<Longrightarrow> 1 \<le> m" for m :: u8
    by (simp add: word_le_nat_alt unat_gt_0 Suc_le_eq flip: unat_gt_0)
  from assms show ?thesis
    by (auto simp: menu_shortcut_def Let_def one dest: key_digit_le shortcut_digit
        split: if_splits option.splits)
qed

lemma menu_shortcut_modifiers:
  "menu_shortcut k chars f = Some s \<Longrightarrow>
     flag_command f \<and> \<not> flag_control f \<and> \<not> flag_option f \<and> (flag_shift f \<longleftrightarrow> s = Disconnect)"
  by (auto simp: menu_shortcut_def shortcut_of_char_def Let_def split: if_splits option.splits)

end
