(* ===== verification/Input_Keyboard.thy ===== *)
theory Input_Keyboard
  imports Input_Unicode
begin

text \<open>
  \<open>crates/drift-input/src/keyboard.rs\<close>: the stateful translation of key events. An operation on the
  state that appends events to a list is a \<open>kb_op\<close>: it returns the events and the new state, and
  \<open>kb_seq\<close> runs two of them one after the other. The lemmas relate the reference counts to the keys
  held on the Mac (\<open>holders\<close>) and the events to the state of the remote (\<open>wire_run\<close>).
\<close>

subsection \<open>State\<close>

definition TEXT_LEVEL_MODIFIERS :: "Scancode list" where
  "TEXT_LEVEL_MODIFIERS = [Scancode_new 0x2A, Scancode_new 0x36, Scancode_new 0x38, Scancode_ext 0x38]"

datatype KeyDown = Send "InputEvent list" | InterpretText

record Keyboard =
  kb_prefs :: KeyboardPrefs
  kb_type :: KeyboardType
  mods :: ModifierSet
  mod_sent :: "ModifierKey \<Rightarrow> Scancode option"
  cmd_pending :: ModifierSet
  cmd_consumed :: ModifierSet
  held_keys :: "(u16, Scancode) ordmap"
  pressed :: "(Scancode, u8) ordmap"
  caps :: "bool option"

definition Keyboard_new :: "KeyboardPrefs \<Rightarrow> KeyboardType \<Rightarrow> Keyboard" where
  "Keyboard_new prefs kt =
     \<lparr>kb_prefs = prefs, kb_type = kt, mods = ms_empty, mod_sent = (\<lambda>_. None), cmd_pending = ms_empty,
      cmd_consumed = ms_empty, held_keys = [], pressed = [], caps = None\<rparr>"

type_synonym kb_op = "Keyboard \<Rightarrow> InputEvent list \<times> Keyboard"

definition kb_skip :: kb_op where
  "kb_skip kb = ([], kb)"

definition kb_seq :: "kb_op \<Rightarrow> kb_op \<Rightarrow> kb_op" where
  "kb_seq f g kb = (let (out, kb) = f kb; (out', kb) = g kb in (out @ out', kb))"

fun kb_each :: "('a \<Rightarrow> kb_op) \<Rightarrow> 'a list \<Rightarrow> kb_op" where
  "kb_each f [] = kb_skip"
| "kb_each f (x # xs) = kb_seq (f x) (kb_each f xs)"

definition kb_modify :: "(Keyboard \<Rightarrow> Keyboard) \<Rightarrow> kb_op" where
  "kb_modify f kb = ([], f kb)"

subsection \<open>Operations\<close>

definition press :: "Scancode \<Rightarrow> kb_op" where
  "press sc kb =
     (let count = (case map_of (pressed kb) sc of None \<Rightarrow> 0 | Some c \<Rightarrow> c)
      in (if count = 0 then [sc_event sc True] else [],
          kb\<lparr>pressed := om_insert sc (saturating_add count 1) (pressed kb)\<rparr>))"

definition release :: "Scancode \<Rightarrow> kb_op" where
  "release sc kb =
     (case map_of (pressed kb) sc of
        None \<Rightarrow> ([], kb)
      | Some c \<Rightarrow>
          (let count = saturating_sub c 1
           in if count = 0 then ([sc_event sc False], kb\<lparr>pressed := om_remove sc (pressed kb)\<rparr>)
              else ([], kb\<lparr>pressed := om_insert sc count (pressed kb)\<rparr>)))"

definition sync_caps :: "ModifierFlags \<Rightarrow> bool \<Rightarrow> kb_op" where
  "sync_caps flags force kb =
     (let c = flag_caps_lock flags;
          changed = (case caps kb of None \<Rightarrow> False | Some c' \<Rightarrow> c' \<noteq> c)
      in (if force \<or> changed then [SyncToggles c True] else [], kb\<lparr>caps := Some c\<rparr>))"

definition mapped :: "Keyboard \<Rightarrow> u16 \<Rightarrow> Scancode option" where
  "mapped kb kvk = scancode_for kvk (kb_type kb) (cmd_as (kb_prefs kb))"

text \<open>Press a scancode and remember that the modifier was sent with it.\<close>

definition send_modifier :: "ModifierKey \<Rightarrow> Scancode \<Rightarrow> kb_op" where
  "send_modifier k sc =
     kb_seq (press sc) (kb_modify (\<lambda>kb. kb\<lparr>mod_sent := (mod_sent kb)(k := Some sc)\<rparr>))"

definition press_modifier :: "ModifierKey \<Rightarrow> kb_op" where
  "press_modifier k kb =
     (if is_command k
      then ([], kb\<lparr>cmd_pending := ms_insert k (cmd_pending kb), cmd_consumed := ms_remove k (cmd_consumed kb)\<rparr>)
      else case mapped kb (modifier_kvk k) of
        None \<Rightarrow> ([], kb)
      | Some sc \<Rightarrow> send_modifier k sc kb)"

definition release_modifier :: "ModifierKey \<Rightarrow> kb_op" where
  "release_modifier k kb =
     (if ms_contains (cmd_pending kb) k
      then
        let consumed = ms_contains (cmd_consumed kb) k;
            kb = kb\<lparr>cmd_pending := ms_remove k (cmd_pending kb), cmd_consumed := ms_remove k (cmd_consumed kb)\<rparr>
        in if consumed then ([], kb)
           else case mapped kb (modifier_kvk k) of
             None \<Rightarrow> ([], kb)
           | Some sc \<Rightarrow> kb_seq (press sc) (release sc) kb
      else case mod_sent kb k of
        None \<Rightarrow> ([], kb)
      | Some sc \<Rightarrow> release sc (kb\<lparr>mod_sent := (mod_sent kb)(k := None)\<rparr>))"

definition flush_command :: kb_op where
  "flush_command kb =
     kb_seq
       (kb_each (\<lambda>k kb. case mapped kb (modifier_kvk k) of None \<Rightarrow> ([], kb) | Some sc \<Rightarrow> send_modifier k sc kb)
         (ms_iter (cmd_pending kb)))
       (kb_modify (\<lambda>kb. kb\<lparr>cmd_pending := ms_empty, cmd_consumed := ms_empty\<rparr>)) kb"

definition apply_modifiers :: "ModifierFlags \<Rightarrow> u16 option \<Rightarrow> kb_op" where
  "apply_modifiers flags changed kb =
     (let old = mods kb;
          new = held_modifiers flags changed old
      in kb_seq
           (kb_each (\<lambda>k. if ms_contains old k \<and> \<not> ms_contains new k then release_modifier k else kb_skip)
             (rev ModifierKey_ALL))
           (kb_seq
             (kb_each (\<lambda>k. if \<not> ms_contains old k \<and> ms_contains new k then press_modifier k else kb_skip)
               ModifierKey_ALL)
             (kb_modify (\<lambda>kb. kb\<lparr>mods := new\<rparr>))) kb)"

definition flags_changed :: "u16 \<Rightarrow> ModifierFlags \<Rightarrow> kb_op" where
  "flags_changed kvk flags =
     kb_seq (sync_caps flags (kvk = kvk_CAPS_LOCK)) (apply_modifiers flags (Some kvk))"

definition key_down_scancode :: "u16 \<Rightarrow> ModifierFlags \<Rightarrow> kb_op" where
  "key_down_scancode kvk flags =
     kb_seq (kb_seq (sync_caps flags False) (apply_modifiers flags None))
       (\<lambda>kb. if is_modifier kvk \<or> om_contains (held_keys kb) kvk then ([], kb)
             else case mapped kb kvk of
               None \<Rightarrow> ([], kb)
             | Some sc \<Rightarrow>
                 kb_seq (kb_seq flush_command (press sc))
                   (kb_modify (\<lambda>kb. kb\<lparr>held_keys := om_insert kvk sc (held_keys kb)\<rparr>)) kb)"

definition key_down :: "u16 \<Rightarrow> ModifierFlags \<Rightarrow> bool \<Rightarrow> bool \<Rightarrow> Keyboard \<Rightarrow> KeyDown \<times> Keyboard" where
  "key_down kvk flags is_repeat composing kb =
     (case route_key_down (kb_prefs kb) kvk flags composing of
        ToText \<Rightarrow> (InterpretText, kb)
      | ToScancode \<Rightarrow>
          if is_repeat then (Send [], kb)
          else (let (out, kb) = key_down_scancode kvk flags kb in (Send out, kb)))"

definition key_up :: "u16 \<Rightarrow> kb_op" where
  "key_up kvk kb =
     (case map_of (held_keys kb) kvk of
        None \<Rightarrow> ([], kb\<lparr>held_keys := om_remove kvk (held_keys kb)\<rparr>)
      | Some sc \<Rightarrow> release sc (kb\<lparr>held_keys := om_remove kvk (held_keys kb)\<rparr>))"

definition insert_text :: "rstr \<Rightarrow> kb_op" where
  "insert_text text kb =
     (let text_events = text_to_events text
      in if text_events = [] then (text_events, kb)
         else
           let lifted = filter (om_contains (pressed kb)) TEXT_LEVEL_MODIFIERS
           in (map (\<lambda>sc. sc_event sc False) lifted @ text_events @ map (\<lambda>sc. sc_event sc True) lifted, kb))"

definition menu_shortcut_taken :: "Keyboard \<Rightarrow> Keyboard" where
  "menu_shortcut_taken kb = kb\<lparr>cmd_consumed := cmd_pending kb\<rparr>"

definition prepare_pointer_button :: kb_op where
  "prepare_pointer_button = flush_command"

definition focus_lost :: kb_op where
  "focus_lost kb =
     (map (\<lambda>sc. sc_event sc False) (om_keys (pressed kb)),
      kb\<lparr>pressed := [], held_keys := [], mods := ms_empty, mod_sent := (\<lambda>_. None),
         cmd_pending := ms_empty, cmd_consumed := ms_empty\<rparr>)"

definition focus_gained :: "ModifierFlags \<Rightarrow> kb_op" where
  "focus_gained flags = kb_seq (sync_caps flags True) (apply_modifiers flags None)"

definition CTRL_ALT_DEL :: "Scancode list" where
  "CTRL_ALT_DEL = [Scancode_new 0x1D, Scancode_new 0x38, Scancode_ext 0x53]"

definition ctrl_alt_del :: kb_op where
  "ctrl_alt_del = kb_seq (kb_each press CTRL_ALT_DEL) (kb_each release (rev CTRL_ALT_DEL))"

definition remote_pressed :: "Keyboard \<Rightarrow> Scancode list" where
  "remote_pressed kb = om_keys (pressed kb)"

subsection \<open>Runs\<close>

datatype KbEvent =
    FlagsChanged u16 ModifierFlags
  | KeyDownEvent u16 ModifierFlags bool bool
  | KeyDownScancode u16 ModifierFlags
  | KeyUp u16
  | InsertText rstr
  | MenuTaken
  | PointerButton
  | FocusLost
  | FocusGained ModifierFlags
  | CtrlAltDel
  | SetPrefs KeyboardPrefs
  | SetKeyboardType KeyboardType

fun kb_step :: "KbEvent \<Rightarrow> kb_op" where
  "kb_step (FlagsChanged kvk flags) = flags_changed kvk flags"
| "kb_step (KeyDownEvent kvk flags again composing) =
     (\<lambda>kb. case key_down kvk flags again composing kb of (Send out, kb) \<Rightarrow> (out, kb) | (InterpretText, kb) \<Rightarrow> ([], kb))"
| "kb_step (KeyDownScancode kvk flags) = key_down_scancode kvk flags"
| "kb_step (KeyUp kvk) = key_up kvk"
| "kb_step (InsertText s) = insert_text s"
| "kb_step MenuTaken = kb_modify menu_shortcut_taken"
| "kb_step PointerButton = prepare_pointer_button"
| "kb_step FocusLost = focus_lost"
| "kb_step (FocusGained flags) = focus_gained flags"
| "kb_step CtrlAltDel = ctrl_alt_del"
| "kb_step (SetPrefs p) = kb_modify (\<lambda>kb. kb\<lparr>kb_prefs := p\<rparr>)"
| "kb_step (SetKeyboardType t) = kb_modify (\<lambda>kb. kb\<lparr>kb_type := t\<rparr>)"

text \<open>What the remote makes of the events: a press of a pressed key or a release of another is refused.\<close>

fun wire_step :: "Scancode set \<Rightarrow> InputEvent \<Rightarrow> Scancode set option" where
  "wire_step R (Key c x True) = (if Scancode c x \<in> R then None else Some (insert (Scancode c x) R))"
| "wire_step R (Key c x False) = (if Scancode c x \<in> R then Some (R - {Scancode c x}) else None)"
| "wire_step R ReleaseAll = Some {}"
| "wire_step R _ = Some R"

fun wire_run :: "Scancode set \<Rightarrow> InputEvent list \<Rightarrow> Scancode set option" where
  "wire_run R [] = Some R"
| "wire_run R (e # es) = (case wire_step R e of None \<Rightarrow> None | Some R' \<Rightarrow> wire_run R' es)"

lemma wire_run_append:
  "wire_run R (es @ fs) = (case wire_run R es of None \<Rightarrow> None | Some R' \<Rightarrow> wire_run R' fs)"
  by (induction es arbitrary: R) (auto split: option.splits)

lemma wire_step_sc [simp]:
  "wire_step R (sc_event sc True) = (if sc \<in> R then None else Some (insert sc R))"
  "wire_step R (sc_event sc False) = (if sc \<in> R then Some (R - {sc}) else None)"
  by (simp_all add: sc_event_def)

subsection \<open>Reference counts\<close>

definition count :: "Keyboard \<Rightarrow> Scancode \<Rightarrow> nat" where
  "count kb sc = (case map_of (pressed kb) sc of None \<Rightarrow> 0 | Some c \<Rightarrow> unat c)"

text \<open>How many keys held on the Mac are sent as a scancode.\<close>

definition holders :: "Keyboard \<Rightarrow> Scancode \<Rightarrow> nat" where
  "holders kb sc =
     length (filter (\<lambda>e. snd e = sc) (held_keys kb)) +
     length (filter (\<lambda>k. mod_sent kb k = Some sc) ModifierKey_ALL)"

definition kb_wf :: "Keyboard \<Rightarrow> bool" where
  "kb_wf kb \<longleftrightarrow> om_wf (pressed kb) \<and> om_wf (held_keys kb) \<and>
     (\<forall>k \<in> set (om_keys (held_keys kb)). k < 128) \<and> (\<forall>sc c. map_of (pressed kb) sc = Some c \<longrightarrow> c \<noteq> 0)"

text \<open>The counts are those of the keys held plus \<open>D\<close>, presses in flight.\<close>

definition balanced :: "(Scancode \<Rightarrow> nat) \<Rightarrow> Keyboard \<Rightarrow> bool" where
  "balanced D kb \<longleftrightarrow> kb_wf kb \<and> (\<forall>sc. count kb sc = holders kb sc + D sc)"

definition remote :: "Keyboard \<Rightarrow> Scancode set" where
  "remote kb = dom (map_of (pressed kb))"

lemma remote_count: "kb_wf kb \<Longrightarrow> sc \<in> remote kb \<longleftrightarrow> 0 < count kb sc"
  by (auto simp: remote_def count_def kb_wf_def unat_gt_0 split: option.splits)

lemma held_keys_short: "kb_wf kb \<Longrightarrow> length (held_keys kb) \<le> 128"
proof -
  assume wf: "kb_wf kb"
  have d: "distinct (om_keys (held_keys kb))" using wf by (simp add: kb_wf_def om_wf_distinct)
  have inj: "inj_on unat (set (om_keys (held_keys kb)))" by (auto intro: inj_onI simp only: word_unat_eq_iff)
  have "unat ` set (om_keys (held_keys kb)) \<subseteq> {..<128}"
    using wf by (auto simp: kb_wf_def word_less_nat_alt)
  then have "card (unat ` set (om_keys (held_keys kb))) \<le> card {..<128::nat}"
    by (rule card_mono [OF finite_lessThan])
  moreover have "card (unat ` set (om_keys (held_keys kb))) = length (held_keys kb)"
    using card_image [OF inj] distinct_card [OF d] by (simp only: length_map)
  ultimately show ?thesis by simp
qed

lemma holders_bound: "kb_wf kb \<Longrightarrow> holders kb sc \<le> 136"
proof -
  assume wf: "kb_wf kb"
  have "length (filter (\<lambda>k. mod_sent kb k = Some sc) ModifierKey_ALL) \<le> length ModifierKey_ALL"
    by (rule length_filter_le)
  then have "length (filter (\<lambda>k. mod_sent kb k = Some sc) ModifierKey_ALL) \<le> 8"
    by (simp only: ModifierKey_ALL_def list.size)
  moreover have "length (filter (\<lambda>e. snd e = sc) (held_keys kb)) \<le> 128"
    using held_keys_short [OF wf] length_filter_le order_trans by blast
  ultimately show ?thesis by (simp only: holders_def)
qed

lemma filter_om_insert_new:
  "map_of m k = None \<Longrightarrow>
     length (filter (\<lambda>e. snd e = s) (om_insert k v m)) = length (filter (\<lambda>e. snd e = s) m) + of_bool (v = s)"
  by (induction k v m rule: om_insert.induct) (auto split: if_splits)

lemma filter_om_remove:
  "om_wf m \<Longrightarrow> map_of m k = Some v \<Longrightarrow>
     length (filter (\<lambda>e. snd e = s) m) = length (filter (\<lambda>e. snd e = s) (om_remove k m)) + of_bool (v = s)"
proof (induction m)
  case (Cons e m)
  have keep: "k \<notin> fst ` set m \<Longrightarrow> om_remove k m = m"
    by (force simp: om_remove_def filter_id_conv)
  from Cons.prems have "om_wf m" "fst e \<notin> fst ` set m"
    by (auto simp: om_wf_def)
  show ?case
  proof (cases "fst e = k")
    case True
    with keep \<open>fst e \<notin> fst ` set m\<close> have "om_remove k m = m" by simp
    then have "om_remove k (e # m) = m" using True by (cases e) (simp add: om_remove_def)
    with True Cons.prems show ?thesis by (cases e) simp
  next
    case False
    then have "om_remove k (e # m) = e # om_remove k m" by (cases e) (simp add: om_remove_def)
    with False Cons \<open>om_wf m\<close> show ?thesis by (cases e) simp
  qed
qed simp

lemma filter_sent:
  assumes "distinct ks" and "k \<in> set ks" and "f k = None"
  shows "length (filter (\<lambda>j. (f(k := Some s)) j = Some sc) ks) = length (filter (\<lambda>j. f j = Some sc) ks) + of_bool (s = sc)"
  using assms
proof (induction ks)
  case (Cons j ks)
  show ?case
  proof (cases "j = k")
    case True
    with Cons.prems have "filter (\<lambda>i. (f(k := Some s)) i = Some sc) ks = filter (\<lambda>i. f i = Some sc) ks"
      by (intro filter_cong) auto
    with True Cons.prems show ?thesis by simp
  next
    case False
    with Cons show ?thesis by simp
  qed
qed simp

lemma modifier_all: "distinct ModifierKey_ALL" "k \<in> set ModifierKey_ALL"
  by (simp add: ModifierKey_ALL_def, cases k) (simp_all add: ModifierKey_ALL_def)

subsection \<open>Press and release\<close>

lemma press_spec:
  assumes b: "balanced D kb" and d: "D sc \<le> 100" and p: "press sc kb = (out, kb')"
  shows "balanced (D(sc := Suc (D sc))) kb'" and "wire_run (remote kb) out = Some (remote kb')"
    and "kb' = kb\<lparr>pressed := pressed kb'\<rparr>"
proof -
  let ?c = "case map_of (pressed kb) sc of None \<Rightarrow> 0 | Some c \<Rightarrow> c"
  have kb': "kb' = kb\<lparr>pressed := om_insert sc (saturating_add ?c 1) (pressed kb)\<rparr>"
    and out: "out = (if ?c = 0 then [sc_event sc True] else [])"
    using p by (auto simp: press_def Let_def)
  have wf: "kb_wf kb" using b by (simp add: balanced_def)
  have cnt: "unat ?c = count kb sc" by (simp add: count_def split: option.split)
  have "count kb sc \<le> 236" using b d holders_bound [OF wf, of sc] by (simp add: balanced_def)
  then have c1: "unat (saturating_add ?c 1) = Suc (count kb sc)" using cnt by (simp add: word_ops)
  have "kb_wf kb'" using wf c1 by (auto simp: kb_wf_def kb' split: if_splits)
  moreover have "count kb' s = (if s = sc then Suc (count kb sc) else count kb s)" for s
    using c1 by (auto simp: count_def kb')
  moreover have "holders kb' s = holders kb s" for s by (simp add: holders_def kb')
  ultimately show "balanced (D(sc := Suc (D sc))) kb'" using b by (simp add: balanced_def)
  have "?c = 0 \<longleftrightarrow> sc \<notin> remote kb"
    using remote_count [OF wf, of sc] cnt by (metis not_gr_zero unat_eq_zero)
  then show "wire_run (remote kb) out = Some (remote kb')"
    by (auto simp: out remote_def kb')
  show "kb' = kb\<lparr>pressed := pressed kb'\<rparr>" by (simp add: kb')
qed

lemma release_spec:
  assumes b: "balanced D kb" and d: "0 < D sc" and r: "release sc kb = (out, kb')"
  shows "balanced (D(sc := D sc - 1)) kb'" and "wire_run (remote kb) out = Some (remote kb')"
    and "kb' = kb\<lparr>pressed := pressed kb'\<rparr>"
proof -
  have wf: "kb_wf kb" using b by (simp add: balanced_def)
  have pos: "0 < count kb sc" using b d by (simp add: balanced_def)
  then obtain c where c: "map_of (pressed kb) sc = Some c" "unat c = count kb sc"
    by (auto simp: count_def split: option.splits)
  let ?n = "saturating_sub c 1"
  have n: "unat ?n = count kb sc - 1" using c by (simp add: word_ops)
  have kb': "kb' = kb\<lparr>pressed := if ?n = 0 then om_remove sc (pressed kb) else om_insert sc ?n (pressed kb)\<rparr>"
    and out: "out = (if ?n = 0 then [sc_event sc False] else [])"
    using r c(1) by (auto simp: release_def Let_def split: if_splits)
  have "kb_wf kb'" using wf by (auto simp: kb_wf_def kb' split: if_splits)
  moreover have "count kb' s = (if s = sc then count kb sc - 1 else count kb s)" for s
    using n by (auto simp: count_def kb')
  moreover have "holders kb' s = holders kb s" for s by (simp add: holders_def kb')
  ultimately show "balanced (D(sc := D sc - 1)) kb'" using b d by (auto simp: balanced_def)
  show "wire_run (remote kb) out = Some (remote kb')"
    using c(1) by (auto simp: out remote_def kb')
  show "kb' = kb\<lparr>pressed := pressed kb'\<rparr>" by (simp add: kb')
qed

end
