(* ===== verification/Input_Wire.thy ===== *)
theory Input_Wire
  imports Input_Keyboard
begin

text \<open>
  The wire discipline of \<open>keyboard.rs\<close>: a triple \<open>kb_triple P f Q\<close> says that \<open>f\<close> takes a state with \<open>P\<close>
  to one with \<open>Q\<close> and that the remote accepts its events and ends with the keys the translator
  believes pressed. Every operation of the translator has one, so a run of them has.
\<close>

subsection \<open>Sequences of operations\<close>

lemma kb_seq_result:
  "fst (kb_seq f g kb) = fst (f kb) @ fst (g (snd (f kb)))" "snd (kb_seq f g kb) = snd (g (snd (f kb)))"
  by (simp_all add: kb_seq_def Let_def split: prod.split)

lemma kb_each_keeps: "(\<And>x kb. g (snd (f x kb)) = g kb) \<Longrightarrow> g (snd (kb_each f xs kb)) = g kb"
  by (induction xs arbitrary: kb) (simp_all add: kb_skip_def kb_seq_result)

subsection \<open>Triples\<close>

definition kb_triple :: "(Keyboard \<Rightarrow> bool) \<Rightarrow> kb_op \<Rightarrow> (Keyboard \<Rightarrow> bool) \<Rightarrow> bool" where
  "kb_triple P f Q \<longleftrightarrow>
     (\<forall>kb. P kb \<longrightarrow> Q (snd (f kb)) \<and> wire_run (remote kb) (fst (f kb)) = Some (remote (snd (f kb))))"

lemma kb_tripleI:
  "(\<And>kb out kb'. P kb \<Longrightarrow> f kb = (out, kb') \<Longrightarrow> Q kb' \<and> wire_run (remote kb) out = Some (remote kb')) \<Longrightarrow>
     kb_triple P f Q"
  by (auto simp: kb_triple_def) (metis prod.collapse)+

lemma kb_tripleD:
  "kb_triple P f Q \<Longrightarrow> P kb \<Longrightarrow> f kb = (out, kb') \<Longrightarrow> Q kb' \<and> wire_run (remote kb) out = Some (remote kb')"
  by (force simp: kb_triple_def)

lemma kb_triple_seq: "kb_triple P f Q \<Longrightarrow> kb_triple Q g R \<Longrightarrow> kb_triple P (kb_seq f g) R"
  by (fastforce simp: kb_triple_def kb_seq_def wire_run_append Let_def split: prod.splits)

lemma kb_triple_skip: "kb_triple P kb_skip P"
  by (simp add: kb_triple_def kb_skip_def)

lemma kb_triple_modify: "(\<And>kb. P kb \<Longrightarrow> Q (f kb) \<and> pressed (f kb) = pressed kb) \<Longrightarrow> kb_triple P (kb_modify f) Q"
  by (simp add: kb_triple_def kb_modify_def remote_def)

lemma kb_triple_each:
  assumes "\<And>xs x ys. zs = xs @ x # ys \<Longrightarrow> kb_triple (I xs) (f x) (I (xs @ [x]))"
  shows "kb_triple (I []) (kb_each f zs) (I zs)"
proof -
  have "zs = us @ vs \<Longrightarrow> kb_triple (I us) (kb_each f vs) (I zs)" for us vs
  proof (induction vs arbitrary: us)
    case Nil
    then show ?case by (simp add: kb_triple_skip)
  next
    case (Cons v vs)
    then have "kb_triple (I us) (f v) (I (us @ [v]))" "kb_triple (I (us @ [v])) (kb_each f vs) (I zs)"
      using assms by auto
    then show ?case by (simp add: kb_triple_seq)
  qed
  from this [of "[]"] show ?thesis by simp
qed

lemma kb_triple_cons: "kb_triple P f Q \<Longrightarrow> (\<And>kb. P' kb \<Longrightarrow> P kb) \<Longrightarrow> (\<And>kb. Q kb \<Longrightarrow> Q' kb) \<Longrightarrow> kb_triple P' f Q'"
  by (auto simp: kb_triple_def)

subsection \<open>The invariant\<close>

text \<open>
  \<open>M\<close> are the modifier keys held: only they were sent or are deferred, a deferred one is a Command
  key and was not sent. The rest of the state, \<open>mods\<close>, stays \<open>m\<close> while an operation runs.
\<close>

definition mods_ok :: "ModifierKey set \<Rightarrow> Keyboard \<Rightarrow> bool" where
  "mods_ok M kb \<longleftrightarrow>
     (\<forall>k. mod_sent kb k \<noteq> None \<longrightarrow> k \<in> M \<and> \<not> ms_contains (cmd_pending kb) k) \<and>
     (\<forall>k. ms_contains (cmd_pending kb) k \<longrightarrow> k \<in> M \<and> is_command k)"

definition kb_ok :: "ModifierSet \<Rightarrow> ModifierKey set \<Rightarrow> (Scancode \<Rightarrow> nat) \<Rightarrow> Keyboard \<Rightarrow> bool" where
  "kb_ok m M D kb \<longleftrightarrow> balanced D kb \<and> mods_ok M kb \<and> mods kb = m"

definition ms_set :: "ModifierSet \<Rightarrow> ModifierKey set" where
  "ms_set s = {k. ms_contains s k}"

abbreviation no_press :: "Scancode \<Rightarrow> nat" where "no_press \<equiv> \<lambda>_. 0"

definition kb_inv :: "Keyboard \<Rightarrow> bool" where
  "kb_inv kb \<longleftrightarrow> kb_ok (mods kb) (ms_set (mods kb)) no_press kb"

lemma kb_ok_pressed:
  "kb_ok m M D kb \<Longrightarrow> balanced D' kb' \<Longrightarrow> kb' = kb\<lparr>pressed := p\<rparr> \<Longrightarrow> kb_ok m M D' kb'"
  by (simp add: kb_ok_def mods_ok_def)

lemma press_triple: "D sc \<le> 100 \<Longrightarrow> kb_triple (kb_ok m M D) (press sc) (kb_ok m M (D(sc := Suc (D sc))))"
  by (rule kb_tripleI) (metis kb_ok_def kb_ok_pressed press_spec)

lemma release_triple: "0 < D sc \<Longrightarrow> kb_triple (kb_ok m M D) (release sc) (kb_ok m M (D(sc := D sc - 1)))"
  by (rule kb_tripleI) (metis kb_ok_def kb_ok_pressed release_spec)

lemma release_one: "kb_triple (kb_ok m M (no_press(sc := Suc 0))) (release sc) (kb_ok m M no_press)"
  using release_triple [of "no_press(sc := Suc 0)" sc m M] by (simp add: fun_upd_idem)

text \<open>A press in flight becomes a key held, and a key no longer held a press in flight.\<close>

lemma hold_key:
  assumes "kb_ok m M (no_press(sc := Suc 0)) kb" and "map_of (held_keys kb) kvk = None" and "kvk < 128"
  shows "kb_ok m M no_press (kb\<lparr>held_keys := om_insert kvk sc (held_keys kb)\<rparr>)"
  using assms
  by (simp add: kb_ok_def mods_ok_def balanced_def kb_wf_def count_def holders_def filter_om_insert_new)

lemma drop_key:
  assumes "kb_ok m M no_press kb" and "map_of (held_keys kb) kvk = Some sc"
  shows "kb_ok m M (no_press(sc := Suc 0)) (kb\<lparr>held_keys := om_remove kvk (held_keys kb)\<rparr>)"
  using assms filter_om_remove [of "held_keys kb" kvk sc]
  by (auto simp: kb_ok_def mods_ok_def balanced_def kb_wf_def count_def holders_def)

lemma balanced_hold:
  assumes "balanced (no_press(sc := Suc 0)) kb" and "mod_sent kb k = None"
  shows "balanced no_press (kb\<lparr>mod_sent := (mod_sent kb)(k := Some sc)\<rparr>)"
  using assms filter_sent [of ModifierKey_ALL k "mod_sent kb"]
  by (auto simp: balanced_def kb_wf_def count_def holders_def modifier_all)

lemma hold_modifier:
  assumes "kb_ok m M (no_press(sc := Suc 0)) kb" and "mod_sent kb k = None" and "k \<in> M"
    and "\<not> ms_contains (cmd_pending kb) k"
  shows "kb_ok m M no_press (kb\<lparr>mod_sent := (mod_sent kb)(k := Some sc)\<rparr>)"
  using assms balanced_hold by (auto simp: kb_ok_def mods_ok_def)

lemma drop_modifier:
  assumes "kb_ok m M no_press kb" and "mod_sent kb k = Some sc"
  shows "kb_ok m (M - {k}) (no_press(sc := Suc 0)) (kb\<lparr>mod_sent := (mod_sent kb)(k := None)\<rparr>)"
proof -
  have "mod_sent kb = ((mod_sent kb)(k := None))(k := Some sc)" using assms(2) by auto
  then have "length (filter (\<lambda>j. mod_sent kb j = Some s) ModifierKey_ALL) =
      length (filter (\<lambda>j. ((mod_sent kb)(k := None)) j = Some s) ModifierKey_ALL) + of_bool (sc = s)" for s
    using filter_sent [of ModifierKey_ALL k "(mod_sent kb)(k := None)" sc s] modifier_all by simp
  with assms show ?thesis
    by (auto simp: kb_ok_def mods_ok_def balanced_def kb_wf_def count_def holders_def)
qed


subsection \<open>Operations\<close>

lemma balanced_frame [simp]:
  "balanced D (kb\<lparr>cmd_pending := p\<rparr>) = balanced D kb" "balanced D (kb\<lparr>cmd_consumed := p\<rparr>) = balanced D kb"
  "balanced D (kb\<lparr>mods := p\<rparr>) = balanced D kb" "balanced D (kb\<lparr>caps := c\<rparr>) = balanced D kb"
  "balanced D (kb\<lparr>kb_prefs := pr\<rparr>) = balanced D kb" "balanced D (kb\<lparr>kb_type := t\<rparr>) = balanced D kb"
  by (simp_all add: balanced_def kb_wf_def count_def holders_def)

lemma kb_ok_mono: "kb_ok m M D kb \<Longrightarrow> M \<subseteq> M' \<Longrightarrow> kb_ok m M' D kb"
  by (auto simp: kb_ok_def mods_ok_def)

lemma sync_caps_triple:
  "kb_triple (kb_ok m M D) (sync_caps flags force) (kb_ok m M D)"
  by (auto simp: kb_triple_def sync_caps_def Let_def kb_ok_def mods_ok_def remote_def)

lemma press_modifier_triple:
  assumes "k \<notin> M"
  shows "kb_triple (kb_ok m M no_press) (press_modifier k) (kb_ok m (insert k M) no_press)"
proof (rule kb_tripleI)
  fix kb out kb'
  assume ok: "kb_ok m M no_press kb" and run: "press_modifier k kb = (out, kb')"
  have k: "mod_sent kb k = None" "\<not> ms_contains (cmd_pending kb) k"
    using ok assms by (auto simp: kb_ok_def mods_ok_def)
  show "kb_ok m (insert k M) no_press kb' \<and> wire_run (remote kb) out = Some (remote kb')"
  proof (cases "is_command k")
    case True
    with run ok k show ?thesis
      by (auto simp: press_modifier_def kb_ok_def mods_ok_def remote_def ms.mem_add)
  next
    case command: False
    show ?thesis
    proof (cases "mapped kb (modifier_kvk k)")
      case None
      with command run ok show ?thesis by (auto simp: press_modifier_def intro: kb_ok_mono)
    next
      case (Some sc)
      let ?P = "\<lambda>kb. kb_ok m M no_press kb \<and> mod_sent kb k = None \<and> \<not> ms_contains (cmd_pending kb) k"
      obtain out1 kb1 where p: "press sc kb = (out1, kb1)" by fastforce
      from kb_tripleD [OF press_triple ok p]
      have 1: "kb_ok m M (no_press(sc := Suc 0)) kb1" "wire_run (remote kb) out1 = Some (remote kb1)" by auto
      have 2: "kb1 = kb\<lparr>pressed := pressed kb1\<rparr>"
        using press_spec(3) [of no_press kb sc out1 kb1] ok p by (auto simp: kb_ok_def)
      have 3: "mod_sent kb1 k = None" "\<not> ms_contains (cmd_pending kb1) k"
        using k by (subst 2, simp)+
      have kb': "kb' = kb1\<lparr>mod_sent := (mod_sent kb1)(k := Some sc)\<rparr>" "out = out1"
        using run command Some p by (auto simp: press_modifier_def send_modifier_def kb_seq_def kb_modify_def)
      have "kb_ok m (insert k M) no_press kb'"
        unfolding kb' by (rule hold_modifier) (use 1(1) 3 in \<open>auto intro: kb_ok_mono\<close>)
      with 1(2) kb' show ?thesis by (simp add: remote_def)
    qed
  qed
qed

lemma tap_triple: "kb_triple (kb_ok m M no_press) (kb_seq (press sc) (release sc)) (kb_ok m M no_press)"
  by (rule kb_triple_seq [OF press_triple]) (use release_one in simp_all)

lemma release_modifier_triple:
  "kb_triple (kb_ok m M no_press) (release_modifier k) (kb_ok m (M - {k}) no_press)"
proof (rule kb_tripleI)
  fix kb out kb'
  assume ok: "kb_ok m M no_press kb" and run: "release_modifier k kb = (out, kb')"
  show "kb_ok m (M - {k}) no_press kb' \<and> wire_run (remote kb) out = Some (remote kb')"
  proof (cases "ms_contains (cmd_pending kb) k")
    case True
    let ?kb1 = "kb\<lparr>cmd_pending := ms_remove k (cmd_pending kb), cmd_consumed := ms_remove k (cmd_consumed kb)\<rparr>"
    have 1: "kb_ok m (M - {k}) no_press ?kb1" "remote ?kb1 = remote kb"
      using ok True
      by (auto simp: kb_ok_def mods_ok_def remote_def ms.mem_del)
    show ?thesis
    proof (cases "out = [] \<and> kb' = ?kb1")
      case False
      with run True obtain sc where "kb_seq (press sc) (release sc) ?kb1 = (out, kb')"
        by (auto simp: release_modifier_def Let_def split: if_splits option.splits)
      then show ?thesis using kb_tripleD [OF tap_triple 1(1)] 1(2) by metis
    qed (use 1 in auto)
  next
    case pending: False
    show ?thesis
    proof (cases "mod_sent kb k")
      case None
      then have "kb_ok m (M - {k}) no_press kb"
        using ok pending by (auto simp: kb_ok_def mods_ok_def)
      then show ?thesis using run pending None by (simp add: release_modifier_def)
    next
      case (Some sc)
      then have r: "release sc (kb\<lparr>mod_sent := (mod_sent kb)(k := None)\<rparr>) = (out, kb')"
        using run pending by (simp add: release_modifier_def)
      show ?thesis using kb_tripleD [OF release_one drop_modifier [OF ok Some] r] by (simp add: remote_def)
    qed
  qed
qed


text \<open>While deferred Command keys are flushed, those in \<open>xs\<close> are both sent and still pending.\<close>

definition flushing :: "ModifierSet \<Rightarrow> ModifierKey set \<Rightarrow> ModifierSet \<Rightarrow> ModifierKey list \<Rightarrow> Keyboard \<Rightarrow> bool" where
  "flushing m M p xs kb \<longleftrightarrow>
     balanced no_press kb \<and> mods kb = m \<and> cmd_pending kb = p \<and>
     (\<forall>k. mod_sent kb k \<noteq> None \<longrightarrow> k \<in> M \<and> (ms_contains p k \<longrightarrow> k \<in> set xs)) \<and>
     (\<forall>k. ms_contains p k \<longrightarrow> k \<in> M \<and> is_command k)"

lemma send_modifier_triple:
  assumes "ms_contains p k" and "k \<notin> set xs"
  shows "kb_triple (flushing m M p xs) (send_modifier k sc) (flushing m M p (xs @ [k]))"
proof (rule kb_tripleI)
  fix kb out kb'
  assume fl: "flushing m M p xs kb" and run: "send_modifier k sc kb = (out, kb')"
  obtain kb1 where p: "press sc kb = (out, kb1)" and kb': "kb' = kb1\<lparr>mod_sent := (mod_sent kb1)(k := Some sc)\<rparr>"
    using run by (auto simp: send_modifier_def kb_seq_def kb_modify_def split: prod.splits)
  have "balanced no_press kb" using fl by (simp add: flushing_def)
  from press_spec [OF this _ p]
  have 1: "balanced (no_press(sc := Suc 0)) kb1" "wire_run (remote kb) out = Some (remote kb1)"
    "kb1 = kb\<lparr>pressed := pressed kb1\<rparr>" by auto
  then have eqs: "mod_sent kb1 = mod_sent kb" "mods kb1 = mods kb" "cmd_pending kb1 = cmd_pending kb"
    by (metis Keyboard.select_convs Keyboard.update_convs Keyboard.surjective)+
  have "mod_sent kb k = None" using fl assms by (auto simp: flushing_def)
  with balanced_hold [OF 1(1)] eqs have "balanced no_press kb'" by (simp add: kb')
  then have "flushing m M p (xs @ [k]) kb'" using fl assms eqs by (auto simp: flushing_def kb')
  with 1(2) show "flushing m M p (xs @ [k]) kb' \<and> wire_run (remote kb) out = Some (remote kb')"
    by (simp add: kb' remote_def)
qed

lemma flush_command_triple: "kb_triple (kb_ok m M no_press) flush_command (kb_ok m M no_press)"
proof (rule kb_tripleI)
  fix kb out kb'
  assume ok: "kb_ok m M no_press kb" and run: "flush_command kb = (out, kb')"
  let ?p = "cmd_pending kb"
  let ?f = "\<lambda>k kb. case mapped kb (modifier_kvk k) of None \<Rightarrow> ([], kb) | Some sc \<Rightarrow> send_modifier k sc kb"
  let ?g = "kb_modify (\<lambda>kb. kb\<lparr>cmd_pending := ms_empty, cmd_consumed := ms_empty\<rparr>)"
  have 1: "flushing m M ?p [] kb"
    using ok by (auto simp: flushing_def kb_ok_def mods_ok_def)
  have each: "kb_triple (flushing m M ?p []) (kb_each ?f (ms_iter ?p)) (flushing m M ?p (ms_iter ?p))"
  proof (rule kb_triple_each)
    fix xs k ys
    assume it: "ms_iter ?p = xs @ k # ys"
    have k: "ms_contains ?p k" "k \<notin> set xs"
      using ms.elems_mem [of ?p] ms.elems_distinct [of ?p] unfolding it by auto
    show "kb_triple (flushing m M ?p xs) (?f k) (flushing m M ?p (xs @ [k]))"
    proof (rule kb_tripleI)
      fix kb2 out2 kb3
      assume "flushing m M ?p xs kb2" and r: "?f k kb2 = (out2, kb3)"
      moreover from this have "flushing m M ?p (xs @ [k]) kb2" by (auto simp: flushing_def)
      ultimately show "flushing m M ?p (xs @ [k]) kb3 \<and> wire_run (remote kb2) out2 = Some (remote kb3)"
        using kb_tripleD [OF send_modifier_triple [OF k]] by (auto split: option.splits)
    qed
  qed
  have fin: "kb_triple (flushing m M ?p (ms_iter ?p)) ?g (kb_ok m M no_press)"
    by (rule kb_triple_modify) (auto simp: flushing_def kb_ok_def mods_ok_def ms.mem_empty)
  show "kb_ok m M no_press kb' \<and> wire_run (remote kb) out = Some (remote kb')"
    by (rule kb_tripleD [OF kb_triple_seq [OF each fin] 1]) (use run in \<open>simp add: flush_command_def\<close>)
qed


lemma apply_modifiers_triple: "kb_triple kb_inv (apply_modifiers flags changed) kb_inv"
proof (rule kb_tripleI)
  fix kb out kb'
  assume inv: "kb_inv kb" and run: "apply_modifiers flags changed kb = (out, kb')"
  define old where "old = mods kb"
  define new where "new = held_modifiers flags changed old"
  let ?rel = "\<lambda>k. if ms_contains old k \<and> \<not> ms_contains new k then release_modifier k else kb_skip"
  let ?pre = "\<lambda>k. if \<not> ms_contains old k \<and> ms_contains new k then press_modifier k else kb_skip"
  let ?I = "\<lambda>xs. kb_ok old (ms_set old - {j \<in> set xs. \<not> ms_contains new j}) no_press"
  let ?J = "\<lambda>xs. kb_ok old (ms_set old \<inter> ms_set new \<union> (set xs \<inter> ms_set new)) no_press"
  have all: "set ModifierKey_ALL = UNIV" using modifier_all(2) by auto
  have rel: "kb_triple (?I []) (kb_each ?rel (rev ModifierKey_ALL)) (?I (rev ModifierKey_ALL))"
  proof (rule kb_triple_each)
    fix xs k ys
    have "kb_triple (?I xs) (release_modifier k) (kb_ok old (ms_set old - {j \<in> set xs. \<not> ms_contains new j} - {k}) no_press)"
      by (rule release_modifier_triple)
    moreover have "\<not> ms_contains new k \<Longrightarrow>
        ms_set old - {j \<in> set xs. \<not> ms_contains new j} - {k} = ms_set old - {j \<in> set (xs @ [k]). \<not> ms_contains new j}"
      by auto
    moreover have "\<not> (ms_contains old k \<and> \<not> ms_contains new k) \<Longrightarrow>
        ms_set old - {j \<in> set xs. \<not> ms_contains new j} = ms_set old - {j \<in> set (xs @ [k]). \<not> ms_contains new j}"
      by (auto simp: ms_set_def)
    ultimately show "kb_triple (?I xs) (?rel k) (?I (xs @ [k]))"
      using kb_triple_skip by (cases "ms_contains old k \<and> \<not> ms_contains new k") auto
  qed
  have mid: "?I (rev ModifierKey_ALL) = ?J []"
    by (simp add: all) (rule arg_cong [where f = "\<lambda>M. kb_ok old M no_press"], auto simp: ms_set_def)
  have pre: "kb_triple (?J []) (kb_each ?pre ModifierKey_ALL) (?J ModifierKey_ALL)"
  proof (rule kb_triple_each)
    fix xs k ys
    assume "ModifierKey_ALL = xs @ k # ys"
    then have "distinct (xs @ k # ys)" using modifier_all(1) by metis
    then have "k \<notin> set xs" by simp
    then have "\<not> ms_contains old k \<Longrightarrow> kb_triple (?J xs) (press_modifier k)
        (kb_ok old (insert k (ms_set old \<inter> ms_set new \<union> (set xs \<inter> ms_set new))) no_press)"
      by (intro press_modifier_triple) (auto simp: ms_set_def)
    moreover have "ms_contains new k \<Longrightarrow> insert k (ms_set old \<inter> ms_set new \<union> (set xs \<inter> ms_set new)) =
        ms_set old \<inter> ms_set new \<union> (set (xs @ [k]) \<inter> ms_set new)"
      by (auto simp: ms_set_def)
    moreover have "\<not> (\<not> ms_contains old k \<and> ms_contains new k) \<Longrightarrow>
        ms_set old \<inter> ms_set new \<union> (set xs \<inter> ms_set new) =
        ms_set old \<inter> ms_set new \<union> (set (xs @ [k]) \<inter> ms_set new)"
      by (auto simp: ms_set_def)
    ultimately show "kb_triple (?J xs) (?pre k) (?J (xs @ [k]))"
      using kb_triple_skip by (cases "\<not> ms_contains old k \<and> ms_contains new k") auto
  qed
  have fin: "kb_triple (?J ModifierKey_ALL) (kb_modify (\<lambda>kb. kb\<lparr>mods := new\<rparr>)) kb_inv"
    by (rule kb_triple_modify) (auto simp: all kb_inv_def kb_ok_def mods_ok_def ms_set_def)
  have "?I [] kb" using inv by (simp add: kb_inv_def old_def)
  from kb_tripleD [OF kb_triple_seq [OF rel kb_triple_seq [OF pre [folded mid] fin]] this]
  show "kb_inv kb' \<and> wire_run (remote kb) out = Some (remote kb')"
    using run by (simp add: apply_modifiers_def Let_def old_def new_def)
qed

lemma inv_triple: "(\<And>m M. kb_triple (kb_ok m M no_press) f (kb_ok m M no_press)) \<Longrightarrow> kb_triple kb_inv f kb_inv"
  by (simp add: kb_triple_def kb_inv_def) (metis kb_ok_def)

lemma flags_changed_triple: "kb_triple kb_inv (flags_changed kvk flags) kb_inv"
  using kb_triple_seq [OF inv_triple [OF sync_caps_triple] apply_modifiers_triple] by (simp add: flags_changed_def)

lemma focus_gained_triple: "kb_triple kb_inv (focus_gained flags) kb_inv"
  using kb_triple_seq [OF inv_triple [OF sync_caps_triple] apply_modifiers_triple] by (simp add: focus_gained_def)

text \<open>Pressing touches nothing but the counts, flushing leaves the held keys.\<close>

lemma flush_held_keys: "held_keys (snd (flush_command kb)) = held_keys kb"
proof -
  have p: "held_keys (snd (press sc kb)) = held_keys kb" for sc kb by (simp add: press_def Let_def)
  show ?thesis unfolding flush_command_def kb_seq_result kb_modify_def
    by (simp, rule kb_each_keeps) (simp add: send_modifier_def kb_seq_result kb_modify_def p split: option.split)
qed

lemma key_down_scancode_triple: "kb_triple kb_inv (key_down_scancode kvk flags) kb_inv"
proof -
  have "kb_triple kb_inv (\<lambda>kb. if is_modifier kvk \<or> om_contains (held_keys kb) kvk then ([], kb)
      else case mapped kb kvk of None \<Rightarrow> ([], kb)
      | Some sc \<Rightarrow> kb_seq (kb_seq flush_command (press sc))
          (kb_modify (\<lambda>kb. kb\<lparr>held_keys := om_insert kvk sc (held_keys kb)\<rparr>)) kb) kb_inv" (is "kb_triple _ ?f _")
  proof (rule kb_tripleI)
    fix kb out kb'
    assume inv: "kb_inv kb" and run: "?f kb = (out, kb')"
    show "kb_inv kb' \<and> wire_run (remote kb) out = Some (remote kb')"
    proof (cases "out = [] \<and> kb' = kb")
      case False
      with run obtain sc where new: "map_of (held_keys kb) kvk = None" and sc: "mapped kb kvk = Some sc"
        and r: "kb_seq (kb_seq flush_command (press sc))
          (kb_modify (\<lambda>kb. kb\<lparr>held_keys := om_insert kvk sc (held_keys kb)\<rparr>)) kb = (out, kb')"
        by (auto simp: om_contains_def split: if_splits option.splits)
      have small: "kvk < 128" using sc scancode_for_small by (auto simp: mapped_def)
      let ?m = "mods kb" and ?M = "ms_set (mods kb)"
      obtain out1 kb1 where f: "flush_command kb = (out1, kb1)" by fastforce
      have 1: "kb_ok ?m ?M no_press kb1" "wire_run (remote kb) out1 = Some (remote kb1)"
        "map_of (held_keys kb1) kvk = None"
        using kb_tripleD [OF flush_command_triple _ f] inv flush_held_keys [of kb] f new by (auto simp: kb_inv_def)
      obtain out2 kb2 where p: "press sc kb1 = (out2, kb2)" by fastforce
      have 2: "kb_ok ?m ?M (no_press(sc := Suc 0)) kb2" "wire_run (remote kb1) out2 = Some (remote kb2)"
        using kb_tripleD [OF press_triple 1(1) p] by auto
      have 3: "held_keys kb2 = held_keys kb1" using p by (auto simp: press_def Let_def)
      have kb': "kb' = kb2\<lparr>held_keys := om_insert kvk sc (held_keys kb2)\<rparr>" "out = out1 @ out2"
        using r f p by (auto simp: kb_seq_def kb_modify_def)
      have "kb_ok ?m ?M no_press kb'"
        unfolding kb' by (rule hold_key) (use 1 2 3 small in simp_all)
      then show ?thesis using 1 2 by (auto simp: kb' kb_inv_def kb_ok_def wire_run_append remote_def)
    qed (use inv in simp)
  qed
  with kb_triple_seq [OF kb_triple_seq [OF inv_triple [OF sync_caps_triple] apply_modifiers_triple]]
  show ?thesis by (simp add: key_down_scancode_def)
qed


lemma key_up_triple: "kb_triple kb_inv (key_up kvk) kb_inv"
proof (rule kb_tripleI)
  fix kb out kb'
  assume inv: "kb_inv kb" and run: "key_up kvk kb = (out, kb')"
  let ?m = "mods kb" and ?M = "ms_set (mods kb)"
  have ok: "kb_ok ?m ?M no_press kb" using inv by (simp add: kb_inv_def)
  show "kb_inv kb' \<and> wire_run (remote kb) out = Some (remote kb')"
  proof (cases "map_of (held_keys kb) kvk")
    case None
    then have "om_remove kvk (held_keys kb) = held_keys kb"
      by (force simp: om_remove_def filter_id_conv map_of_eq_None_iff)
    then have "kb' = kb" "out = []" using run None by (auto simp: key_up_def)
    then show ?thesis using inv by simp
  next
    case (Some sc)
    then have r: "release sc (kb\<lparr>held_keys := om_remove kvk (held_keys kb)\<rparr>) = (out, kb')"
      using run by (simp add: key_up_def)
    from kb_tripleD [OF release_one drop_key [OF ok Some] r]
    show ?thesis by (auto simp: kb_inv_def kb_ok_def remote_def)
  qed
qed

text \<open>Lifting and restoring a set of pressed keys leaves the remote as it was.\<close>

lemma wire_releases:
  "distinct ks \<Longrightarrow> set ks \<subseteq> R \<Longrightarrow> wire_run R (map (\<lambda>sc. sc_event sc False) ks) = Some (R - set ks)"
proof (induction ks arbitrary: R)
  case (Cons k ks)
  then have "k \<in> R" "set ks \<subseteq> R - {k}" "distinct ks" by auto
  moreover have "R - {k} - set ks = R - set (k # ks)" by auto
  ultimately show ?case using Cons.IH [of "R - {k}"] by simp
qed simp

lemma wire_presses:
  "distinct ks \<Longrightarrow> set ks \<inter> R = {} \<Longrightarrow> wire_run R (map (\<lambda>sc. sc_event sc True) ks) = Some (R \<union> set ks)"
proof (induction ks arbitrary: R)
  case (Cons k ks)
  then have "set ks \<inter> insert k R = {}" by auto
  with Cons show ?case by simp
qed simp

lemma wire_text: "wire_run R (text_to_events s) = Some R"
proof -
  have "(\<And>e. e \<in> set es \<Longrightarrow> \<exists>u d. e = Unicode u d) \<Longrightarrow> wire_run R es = Some R" for es
  proof (induction es)
    case (Cons e es)
    obtain u d where "e = Unicode u d" using Cons.prems by (meson list.set_intros(1))
    with Cons show ?case by (cases d) auto
  qed simp
  then show ?thesis using text_no_keys by blast
qed

lemma insert_text_triple: "kb_triple kb_inv (insert_text s) kb_inv"
proof (rule kb_tripleI)
  fix kb out kb'
  assume inv: "kb_inv kb" and run: "insert_text s kb = (out, kb')"
  let ?l = "filter (om_contains (pressed kb)) TEXT_LEVEL_MODIFIERS"
  have d: "distinct ?l" by (rule distinct_filter) (simp add: TEXT_LEVEL_MODIFIERS_def Scancode_new_def Scancode_ext_def)
  have l: "set ?l \<subseteq> remote kb" by (auto simp: remote_def om_contains_def)
  have "wire_run (remote kb)
      (map (\<lambda>sc. sc_event sc False) ?l @ text_to_events s @ map (\<lambda>sc. sc_event sc True) ?l) = Some (remote kb)"
    using wire_releases [OF d l] wire_presses [OF d, of "remote kb - set ?l"] l
    by (simp only: wire_run_append wire_text option.case Diff_disjoint Un_Diff_cancel2 Un_absorb2 simp_thms)
  then show "kb_inv kb' \<and> wire_run (remote kb) out = Some (remote kb')"
    using inv run by (auto simp: insert_text_def Let_def split: if_splits)
qed

lemma focus_lost_cleared: "kb_inv (snd (focus_lost kb))" "remote (snd (focus_lost kb)) = {}"
  by (simp_all add: focus_lost_def kb_inv_def kb_ok_def mods_ok_def balanced_def kb_wf_def count_def holders_def
      remote_def ms.mem_empty)

lemma remote_keys: "remote kb = set (om_keys (pressed kb))"
  by (simp add: remote_def dom_map_of_conv_image_fst)

lemma focus_lost_triple: "kb_triple kb_inv focus_lost kb_inv"
proof (rule kb_tripleI)
  fix kb out kb'
  assume inv: "kb_inv kb" and run: "focus_lost kb = (out, kb')"
  have out: "out = map (\<lambda>sc. sc_event sc False) (om_keys (pressed kb))" using run by (simp add: focus_lost_def)
  have "distinct (om_keys (pressed kb))"
    using inv om_wf_distinct by (auto simp: kb_inv_def kb_ok_def balanced_def kb_wf_def)
  then have "wire_run (remote kb) out = Some {}"
    unfolding out by (subst wire_releases) (auto simp: remote_keys)
  then show "kb_inv kb' \<and> wire_run (remote kb) out = Some (remote kb')"
    using focus_lost_cleared [of kb] run by simp
qed

lemma ctrl_alt_del_triple: "kb_triple kb_inv ctrl_alt_del kb_inv"
proof (rule inv_triple)
  fix m M
  let ?a = "Scancode_new 0x1D" and ?b = "Scancode_new 0x38" and ?c = "Scancode_ext 0x53"
  let ?P = "\<lambda>D. kb_ok m M D"
  have ne: "?a \<noteq> ?b" "?a \<noteq> ?c" "?b \<noteq> ?c" by (simp_all add: Scancode_new_def Scancode_ext_def)
  let ?A = "no_press(?a := 1)" let ?B = "?A(?b := 1)" let ?C = "?B(?c := 1)"
  have p: "kb_triple (?P no_press) (press ?a) (?P ?A)" "kb_triple (?P ?A) (press ?b) (?P ?B)"
    "kb_triple (?P ?B) (press ?c) (?P ?C)"
    using press_triple [of no_press ?a m M] press_triple [of ?A ?b m M] press_triple [of ?B ?c m M] ne by auto
  have r: "kb_triple (?P ?C) (release ?c) (?P ?B)" "kb_triple (?P ?B) (release ?b) (?P ?A)"
    "kb_triple (?P ?A) (release ?a) (?P no_press)"
    using release_triple [of ?C ?c m M] release_triple [of ?B ?b m M] release_triple [of ?A ?a m M] ne
    by (simp_all add: fun_upd_idem)
  have "kb_triple (?P no_press) (kb_each press CTRL_ALT_DEL) (?P ?C)"
    unfolding CTRL_ALT_DEL_def kb_each.simps
    by (rule kb_triple_seq [OF p(1) kb_triple_seq [OF p(2) kb_triple_seq [OF p(3) kb_triple_skip]]])
  moreover have "kb_triple (?P ?C) (kb_each release (rev CTRL_ALT_DEL)) (?P no_press)"
    unfolding CTRL_ALT_DEL_def rev.simps append.simps kb_each.simps
    by (rule kb_triple_seq [OF r(1) kb_triple_seq [OF r(2) kb_triple_seq [OF r(3) kb_triple_skip]]])
  ultimately show "kb_triple (?P no_press) ctrl_alt_del (?P no_press)"
    unfolding ctrl_alt_del_def by (rule kb_triple_seq)
qed


lemma key_down_triple:
  "kb_triple kb_inv (kb_step (KeyDownEvent kvk flags again composing)) kb_inv"
proof (rule kb_tripleI)
  fix kb out kb'
  assume inv: "kb_inv kb" and run: "kb_step (KeyDownEvent kvk flags again composing) kb = (out, kb')"
  show "kb_inv kb' \<and> wire_run (remote kb) out = Some (remote kb')"
  proof (cases "out = [] \<and> kb' = kb")
    case False
    with run have "key_down_scancode kvk flags kb = (out, kb')"
      by (auto simp: key_down_def Let_def split: KeyRoute.splits if_splits prod.splits)
    then show ?thesis using kb_tripleD [OF key_down_scancode_triple inv] by blast
  qed (use inv in simp)
qed

lemmas kb_op_triples =
  flags_changed_triple key_down_triple key_down_scancode_triple key_up_triple insert_text_triple
  focus_lost_triple focus_gained_triple ctrl_alt_del_triple inv_triple [OF flush_command_triple]

lemma kb_step_triple: "kb_triple kb_inv (kb_step e) kb_inv"
proof (cases e)
  case MenuTaken
  have "kb_triple kb_inv (kb_modify menu_shortcut_taken) kb_inv"
    by (rule kb_triple_modify) (auto simp: menu_shortcut_taken_def kb_inv_def kb_ok_def mods_ok_def)
  then show ?thesis by (simp add: MenuTaken)
next
  case (SetPrefs p)
  have "kb_triple kb_inv (kb_modify (\<lambda>kb. kb\<lparr>kb_prefs := p\<rparr>)) kb_inv"
    by (rule kb_triple_modify) (auto simp: kb_inv_def kb_ok_def mods_ok_def)
  then show ?thesis by (simp add: SetPrefs)
next
  case (SetKeyboardType t)
  have "kb_triple kb_inv (kb_modify (\<lambda>kb. kb\<lparr>kb_type := t\<rparr>)) kb_inv"
    by (rule kb_triple_modify) (auto simp: kb_inv_def kb_ok_def mods_ok_def)
  then show ?thesis by (simp add: SetKeyboardType)
qed (use kb_op_triples in \<open>simp_all add: prepare_pointer_button_def\<close>)

lemma kb_run_triple: "kb_triple kb_inv (kb_each kb_step es) kb_inv"
  by (rule kb_triple_each [where I = "\<lambda>_. kb_inv"]) (rule kb_step_triple)

lemma kb_inv_new: "kb_inv (Keyboard_new prefs kt)" "remote (Keyboard_new prefs kt) = {}"
  by (simp_all add: Keyboard_new_def kb_inv_def kb_ok_def mods_ok_def balanced_def kb_wf_def count_def holders_def
      remote_def ms.mem_empty)

subsection \<open>Key presses\<close>

fun is_key_press :: "InputEvent \<Rightarrow> bool" where
  "is_key_press (Key c x d) = d"
| "is_key_press _ = False"

definition quiet :: "InputEvent list \<Rightarrow> bool" where
  "quiet es = list_all (\<lambda>e. \<not> is_key_press e) es"

lemma quiet_append [simp]: "quiet (es @ fs) = (quiet es \<and> quiet fs)" "quiet []"
  by (simp_all add: quiet_def)

lemma quiet_each:
  assumes "\<And>x kb. x \<in> set xs \<Longrightarrow> P kb \<Longrightarrow> quiet (fst (f x kb)) \<and> P (snd (f x kb))" and "P kb"
  shows "quiet (fst (kb_each f xs kb)) \<and> P (snd (kb_each f xs kb))"
  using assms by (induction xs arbitrary: kb) (auto simp: kb_skip_def kb_seq_result)

lemma sync_caps_quiet: "quiet (fst (sync_caps flags force kb))"
  by (simp add: sync_caps_def Let_def quiet_def)

lemma release_quiet: "quiet (fst (release sc kb))"
  by (auto simp: release_def Let_def quiet_def sc_event_def split: option.split)

lemma release_frame: "cmd_pending (snd (release sc kb)) = cmd_pending kb" "cmd_consumed (snd (release sc kb)) = cmd_consumed kb"
  by (auto simp: release_def Let_def split: option.split)

text \<open>The deferred Command keys whose combination went to the menu.\<close>

definition all_consumed :: "Keyboard \<Rightarrow> bool" where
  "all_consumed kb \<longleftrightarrow> (\<forall>k. ms_contains (cmd_pending kb) k \<longrightarrow> ms_contains (cmd_consumed kb) k)"

lemma release_modifier_consumed:
  "all_consumed kb \<Longrightarrow> quiet (fst (release_modifier k kb)) \<and> all_consumed (snd (release_modifier k kb))"
  by (auto simp: release_modifier_def all_consumed_def Let_def release_quiet release_frame ms.mem_del
      split: option.split)

lemma press_command_quiet: "is_command k \<Longrightarrow> quiet (fst (press_modifier k kb))"
  by (simp add: press_modifier_def)

lemma apply_modifiers_releases:
  assumes sub: "\<And>k. ms_contains (held_modifiers flags changed (mods kb)) k \<Longrightarrow> ms_contains (mods kb) k"
    and "all_consumed kb"
  shows "quiet (fst (apply_modifiers flags changed kb))"
proof -
  let ?new = "held_modifiers flags changed (mods kb)"
  let ?rel = "\<lambda>k. if ms_contains (mods kb) k \<and> \<not> ms_contains ?new k then release_modifier k else kb_skip"
  let ?pre = "\<lambda>k. if \<not> ms_contains (mods kb) k \<and> ms_contains ?new k then press_modifier k else kb_skip"
  have "quiet (fst (kb_each ?rel (rev ModifierKey_ALL) kb))"
    using quiet_each [of "rev ModifierKey_ALL" all_consumed ?rel kb] release_modifier_consumed assms(2)
    by (simp add: kb_skip_def)
  moreover have "quiet (fst (kb_each ?pre ModifierKey_ALL kb1))" for kb1
    by (rule quiet_each [where P = "\<lambda>_. True", THEN conjunct1]) (use sub in \<open>auto simp: kb_skip_def\<close>)
  ultimately show ?thesis by (simp add: apply_modifiers_def Let_def kb_seq_result kb_modify_def)
qed

lemma apply_modifiers_commands:
  assumes keep: "\<And>k. ms_contains (mods kb) k \<Longrightarrow> ms_contains (held_modifiers flags changed (mods kb)) k"
    and cmd: "\<And>k. ms_contains (held_modifiers flags changed (mods kb)) k \<Longrightarrow> ms_contains (mods kb) k \<or> is_command k"
  shows "quiet (fst (apply_modifiers flags changed kb))"
proof -
  let ?new = "held_modifiers flags changed (mods kb)"
  let ?rel = "\<lambda>k. if ms_contains (mods kb) k \<and> \<not> ms_contains ?new k then release_modifier k else kb_skip"
  let ?pre = "\<lambda>k. if \<not> ms_contains (mods kb) k \<and> ms_contains ?new k then press_modifier k else kb_skip"
  have "quiet (fst (kb_each ?rel (rev ModifierKey_ALL) kb1))" for kb1
    by (rule quiet_each [where P = "\<lambda>_. True", THEN conjunct1]) (use keep in \<open>auto simp: kb_skip_def\<close>)
  moreover have "quiet (fst (kb_each ?pre ModifierKey_ALL kb1))" for kb1
    by (rule quiet_each [where P = "\<lambda>_. True", THEN conjunct1]) (auto simp: kb_skip_def dest: cmd intro: press_command_quiet)
  ultimately show ?thesis by (simp add: apply_modifiers_def Let_def kb_seq_result kb_modify_def)
qed

end
