(* ===== verification/Input_Pointer.thy ===== *)
theory Input_Pointer
  imports Core_Input Core_Layout
begin

text \<open>
  \<open>crates/drift-input/src/scroll.rs\<close> and \<open>coords.rs\<close>: wheel deltas to wheel units with a carried
  remainder, and view points to desktop pixels. Both take the \<open>f64\<close> arithmetic as a parameter.
\<close>

subsection \<open>Casts\<close>

text \<open>\<open>v as i32\<close> and \<open>v as u16\<close>: NaN to zero, out of range to the nearest bound.\<close>

definition f_as_i32 :: "'f f64_ops \<Rightarrow> 'f \<Rightarrow> int" where
  "f_as_i32 F v =
     (if f_is_nan F v then 0
      else if f_le F (f_lit F 2147483647) v then 2147483647
      else if f_le F v (f_lit F (- 2147483648)) then - 2147483648
      else f_to_int F v)"

definition f_as_u16 :: "'f f64_ops \<Rightarrow> 'f \<Rightarrow> u16" where
  "f_as_u16 F v =
     (if f_is_nan F v \<or> f_le F v (f_lit F 0) then 0
      else if f_le F (f_lit F 65535) v then 65535
      else word_of_int (f_to_int F v))"

subsection \<open>Scrolling\<close>

definition MAX_UNITS_PER_EVENT :: int where "MAX_UNITS_PER_EVENT = 255"
definition UNITS_PER_NOTCH :: int where "UNITS_PER_NOTCH = 120"

definition MAX_UNITS_PER_PUSH :: "'f f64_ops \<Rightarrow> 'f" where
  "MAX_UNITS_PER_PUSH F = f_mul F (f_lit F 255) (f_lit F 64)"

record 'f ScrollConfig =
  units_per_point :: 'f
  scroll_reverse :: bool

definition ScrollConfig_default :: "'f f64_ops \<Rightarrow> 'f ScrollConfig" where
  "ScrollConfig_default F = \<lparr>units_per_point = f_lit F 2, scroll_reverse = False\<rparr>"

datatype 'f ScrollDelta = Precise 'f 'f | Lines 'f 'f

record 'f ScrollAccumulator =
  sa_config :: "'f ScrollConfig"
  vertical :: 'f
  horizontal :: 'f

definition ScrollAccumulator_new :: "'f f64_ops \<Rightarrow> 'f ScrollConfig \<Rightarrow> 'f ScrollAccumulator" where
  "ScrollAccumulator_new F config = \<lparr>sa_config = config, vertical = f_lit F 0, horizontal = f_lit F 0\<rparr>"

definition clamp_int :: "int \<Rightarrow> int \<Rightarrow> int \<Rightarrow> int" where
  "clamp_int v lo hi = (if v < lo then lo else if hi < v then hi else v)"

text \<open>The loop of \<open>emit\<close>: with a chunk of zero it would not end, hence the option.\<close>

partial_function (option) emit_steps :: "int \<Rightarrow> bool \<Rightarrow> int \<Rightarrow> InputEvent list option" where
  [code]: "emit_steps chunk hor remaining =
     (if remaining = 0 then Some []
      else
        let stp = clamp_int remaining (- chunk) chunk
        in Option.bind (emit_steps chunk hor (remaining - stp)) (\<lambda>out. Some (Wheel hor (word_of_int stp) # out)))"

definition push_units :: "'f f64_ops \<Rightarrow> 'f \<Rightarrow> 'f" where
  "push_units F units =
     (if f_is_nan F units then f_lit F 0
      else f_clamp F units (f_neg F (MAX_UNITS_PER_PUSH F)) (MAX_UNITS_PER_PUSH F))"

definition emit :: "'f f64_ops \<Rightarrow> 'f \<Rightarrow> 'f \<Rightarrow> int \<Rightarrow> bool \<Rightarrow> (InputEvent list \<times> 'f) option" where
  "emit F residual units chunk hor =
     (let residual = f_add F residual (push_units F units);
          whole = f_trunc F residual
      in map_option (\<lambda>out. (out, f_sub F residual whole)) (emit_steps chunk hor (f_as_i32 F whole)))"

definition delta_parts :: "'f f64_ops \<Rightarrow> 'f ScrollConfig \<Rightarrow> 'f ScrollDelta \<Rightarrow> 'f \<times> 'f \<times> 'f \<times> int" where
  "delta_parts F config delta =
     (case delta of
        Precise dx dy \<Rightarrow> (dx, dy, units_per_point config, MAX_UNITS_PER_EVENT)
      | Lines dx dy \<Rightarrow> (dx, dy, f_lit F (of_int UNITS_PER_NOTCH), UNITS_PER_NOTCH))"

definition scroll_push ::
    "'f f64_ops \<Rightarrow> 'f ScrollDelta \<Rightarrow> 'f ScrollAccumulator \<Rightarrow> (InputEvent list \<times> 'f ScrollAccumulator) option" where
  "scroll_push F delta acc =
     (let sign = f_lit F (if scroll_reverse (sa_config acc) then - 1 else 1);
          (dx, dy, per_unit, chunk) = delta_parts F (sa_config acc) delta
      in case emit F (vertical acc) (f_mul F (f_mul F sign dy) per_unit) chunk False of
           None \<Rightarrow> None
         | Some (out, v) \<Rightarrow>
             map_option (\<lambda>(out', h). (out @ out', acc\<lparr>vertical := v, horizontal := h\<rparr>))
               (emit F (horizontal acc) (f_mul F (f_mul F (f_neg F sign) dx) per_unit) chunk True))"

definition scroll_residual :: "'f ScrollAccumulator \<Rightarrow> 'f \<times> 'f" where
  "scroll_residual acc = (vertical acc, horizontal acc)"

definition scroll_reset :: "'f f64_ops \<Rightarrow> 'f ScrollAccumulator \<Rightarrow> 'f ScrollAccumulator" where
  "scroll_reset F acc = acc\<lparr>vertical := f_lit F 0, horizontal := f_lit F 0\<rparr>"

text \<open>The units of the wheel events of one axis.\<close>

fun wheel_units :: "bool \<Rightarrow> InputEvent list \<Rightarrow> int" where
  "wheel_units hor [] = 0"
| "wheel_units hor (Wheel h u # es) = (if h = hor then sint u else 0) + wheel_units hor es"
| "wheel_units hor (e # es) = wheel_units hor es"

fun wheel_bounded :: "int \<Rightarrow> InputEvent \<Rightarrow> bool" where
  "wheel_bounded chunk (Wheel h u) = (\<bar>sint u\<bar> \<le> chunk \<and> u \<noteq> 0)"
| "wheel_bounded chunk _ = False"

lemma wheel_units_append [simp]: "wheel_units hor (es @ fs) = wheel_units hor es + wheel_units hor fs"
proof (induction es)
  case (Cons e es)
  then show ?case by (cases e) auto
qed simp

lemma sint_small: "\<bar>v\<bar> \<le> 255 \<Longrightarrow> sint (word_of_int v :: i16) = v"
  by (simp add: signed_of_int signed_take_bit_int_eq_self)

lemma emit_steps_returns:
  assumes "0 < chunk" and "chunk \<le> 255"
  shows "\<exists>out. emit_steps chunk hor n = Some out \<and> wheel_units hor out = n \<and> wheel_units (\<not> hor) out = 0 \<and>
    list_all (wheel_bounded chunk) out"
proof (induction "nat \<bar>n\<bar>" arbitrary: n rule: less_induct)
  case less
  show ?case
  proof (cases "n = 0")
    case True
    then show ?thesis by (simp add: emit_steps.simps)
  next
    case False
    let ?s = "clamp_int n (- chunk) chunk"
    have s: "\<bar>?s\<bar> \<le> chunk" "?s \<noteq> 0" "nat \<bar>n - ?s\<bar> < nat \<bar>n\<bar>"
      using assms False by (auto simp: clamp_int_def)
    then have w: "sint (word_of_int ?s :: i16) = ?s" using assms by (intro sint_small) simp
    then have "(word_of_int ?s :: i16) \<noteq> 0" using s(2) by (metis signed_0)
    moreover obtain out where "emit_steps chunk hor (n - ?s) = Some out" "wheel_units hor out = n - ?s"
      "wheel_units (\<not> hor) out = 0" "list_all (wheel_bounded chunk) out"
      using less [OF s(3)] by blast
    ultimately show ?thesis
      using False w s by (subst emit_steps.simps) (simp add: Let_def)
  qed
qed

lemma emit_returns:
  assumes "0 < chunk" and "chunk \<le> 255"
  shows "\<exists>out. emit F r u chunk hor = Some (out, f_sub F (f_add F r (push_units F u)) (f_trunc F (f_add F r (push_units F u))))
    \<and> wheel_units hor out = f_as_i32 F (f_trunc F (f_add F r (push_units F u)))
    \<and> wheel_units (\<not> hor) out = 0 \<and> list_all (wheel_bounded chunk) out"
  using emit_steps_returns [OF assms, of hor "f_as_i32 F (f_trunc F (f_add F r (push_units F u)))"]
  by (auto simp: emit_def Let_def)

subsection \<open>Coordinates\<close>

datatype ScaleMode = Fit | OneToOne

record 'f Viewport =
  vp_origin :: "'f Point"
  points_per_pixel :: 'f
  vp_desktop :: DesktopSize

definition Viewport_new :: "'f f64_ops \<Rightarrow> 'f ViewGeometry \<Rightarrow> DesktopSize \<Rightarrow> ScaleMode \<Rightarrow> 'f Viewport" where
  "Viewport_new F view desktop smode =
     (let vw = width (points view); vh = height (points view);
          dw = f_of_u32 F (width desktop); dh = f_of_u32 F (height desktop);
          scale = (case smode of
              Fit \<Rightarrow> f_min F (f_div F vw dw) (f_div F vh dh)
            | OneToOne \<Rightarrow> f_div F (f_lit F 1) (backing_scale view));
          scale = (if f_is_finite F scale \<and> f_lt F (f_lit F 0) scale then scale else f_lit F 1);
          origin = Point_new
            (f_max F (f_div F (f_sub F vw (f_mul F dw scale)) (f_lit F 2)) (f_lit F 0))
            (f_max F (f_div F (f_sub F vh (f_mul F dh scale)) (f_lit F 2)) (f_lit F 0))
      in \<lparr>vp_origin = origin, points_per_pixel = scale, vp_desktop = desktop\<rparr>)"

definition image_size :: "'f f64_ops \<Rightarrow> 'f Viewport \<Rightarrow> 'f Size" where
  "image_size F vp =
     Size_new (f_mul F (f_of_u32 F (width (vp_desktop vp))) (points_per_pixel vp))
       (f_mul F (f_of_u32 F (height (vp_desktop vp))) (points_per_pixel vp))"

definition viewport_contains :: "'f f64_ops \<Rightarrow> 'f Viewport \<Rightarrow> 'f Point \<Rightarrow> bool" where
  "viewport_contains F vp p =
     (let sz = image_size F vp;
          x = f_sub F (pt_x p) (pt_x (vp_origin vp));
          y = f_sub F (pt_y p) (pt_y (vp_origin vp))
      in f_le F (f_lit F 0) x \<and> f_lt F x (width sz) \<and> f_le F (f_lit F 0) y \<and> f_lt F y (height sz))"

definition to_pixel :: "'f f64_ops \<Rightarrow> 'f \<Rightarrow> u32 \<Rightarrow> u16" where
  "to_pixel F v extent =
     (if f_is_nan F v then 0
      else
        let m = f_of_u32 F (min (saturating_sub extent 1) 65535)
        in f_as_u16 F (f_clamp F (f_floor F (f_add F v (f_lit F (1 / 10000000)))) (f_lit F 0) m))"

definition view_to_desktop :: "'f f64_ops \<Rightarrow> 'f Viewport \<Rightarrow> 'f Point \<Rightarrow> u16 Point option" where
  "view_to_desktop F vp p =
     (if width (vp_desktop vp) = 0 \<or> height (vp_desktop vp) = 0 then None
      else
        let x = to_pixel F (f_div F (f_sub F (pt_x p) (pt_x (vp_origin vp))) (points_per_pixel vp)) (width (vp_desktop vp));
            y = to_pixel F (f_div F (f_sub F (pt_y p) (pt_y (vp_origin vp))) (points_per_pixel vp)) (height (vp_desktop vp))
        in Some (Point_new x y))"

definition view_point_to_desktop ::
    "'f f64_ops \<Rightarrow> 'f Point \<Rightarrow> 'f ViewGeometry \<Rightarrow> DesktopSize \<Rightarrow> ScaleMode \<Rightarrow> u16 Point option" where
  "view_point_to_desktop F p view desktop smode = view_to_desktop F (Viewport_new F view desktop smode) p"


text \<open>
  What the mapping relies on of the arithmetic: the integers up to \<open>65535\<close> are ordered as they are, a
  value between two of them is finite with its integer part between them, and a finite value above
  one has an integer part above it.
\<close>

definition f_int_laws :: "'f f64_ops \<Rightarrow> bool" where
  "f_int_laws F \<longleftrightarrow>
     (\<forall>m. 0 \<le> m \<and> m \<le> 65535 \<longrightarrow>
        \<not> f_lt F (f_lit F (of_int m)) (f_lit F 0) \<and> \<not> f_lt F (f_lit F (of_int m)) (f_lit F (of_int m))) \<and>
     (\<forall>v m. 0 \<le> m \<and> m \<le> 65535 \<and> \<not> f_is_nan F v \<and> \<not> f_lt F v (f_lit F 0) \<and> \<not> f_lt F (f_lit F (of_int m)) v \<longrightarrow>
        f_is_finite F v \<and> 0 \<le> f_to_int F v \<and> f_to_int F v \<le> m) \<and>
     (\<forall>v. f_is_finite F v \<and> f_le F (f_lit F 65535) v \<longrightarrow> 65535 \<le> f_to_int F v)"

lemma rat_f64_int_laws: "f_int_laws rat_f64"
proof -
  have "0 \<le> (if 0 \<le> x then \<lfloor>x\<rfloor> else \<lceil>x\<rceil>) \<and> (if 0 \<le> x then \<lfloor>x\<rfloor> else \<lceil>x\<rceil>) \<le> m"
    if "\<not> x < 0" "\<not> of_int m < x" for x :: rat and m
  proof -
    have "\<lfloor>x\<rfloor> \<le> \<lfloor>of_int m :: rat\<rfloor>" using that by (intro floor_mono) simp
    with that show ?thesis by simp
  qed
  moreover have "65535 \<le> (if 0 \<le> x then \<lfloor>x\<rfloor> else \<lceil>x\<rceil>)" if "65535 \<le> x" for x :: rat
    using that by (auto simp: le_floor_iff)
  ultimately show ?thesis
    by (auto simp: f_int_laws_def rat_f64_simps split: option.splits)
qed

lemma clamp_inside:
  assumes laws: "f_int_laws F" and n: "n \<le> 65535"
  shows "unat (f_as_u16 F (f_clamp F x (f_lit F 0) (f_lit F (of_nat n)))) \<le> n"
proof -
  let ?hi = "f_lit F (of_nat n)"
  define c where "c = f_clamp F x (f_lit F 0) ?hi"
  have hi: "\<not> f_lt F ?hi (f_lit F 0)" "\<not> f_lt F ?hi ?hi"
    using laws n unfolding f_int_laws_def by (metis of_int_of_nat_eq of_nat_0_le_iff of_nat_le_iff of_nat_numeral)+
  have 0: "\<not> f_lt F (f_lit F 0) (f_lit F 0)"
    using laws unfolding f_int_laws_def by (metis of_int_0 order_refl zero_le_numeral)
  have "\<not> f_lt F ?hi c" "\<not> f_lt F c (f_lit F 0)"
    using hi 0 by (auto simp: c_def f_clamp_def Let_def)
  then have c: "\<not> f_is_nan F c \<Longrightarrow> f_is_finite F c \<and> 0 \<le> f_to_int F c \<and> f_to_int F c \<le> int n"
    using laws n unfolding f_int_laws_def by (metis of_int_of_nat_eq of_nat_0_le_iff of_nat_le_iff of_nat_numeral)
  have top: "\<not> f_is_nan F c \<Longrightarrow> f_le F (f_lit F 65535) c \<Longrightarrow> n = 65535"
    using laws c n unfolding f_int_laws_def by fastforce
  have "unat (word_of_int (f_to_int F c) :: u16) = nat (f_to_int F c)" if "\<not> f_is_nan F c"
    using c [OF that] n by (simp add: unsigned_of_int take_bit_int_eq_self)
  then show ?thesis using c top unfolding c_def [symmetric] by (auto simp: f_as_u16_def)
qed

lemma pixel_bound: "unat (min (saturating_sub extent 1) 65535 :: u32) = min (unat extent - 1) 65535"
  by (simp add: min_def word_ops word_le_nat_alt)

lemma to_pixel_inside:
  assumes "f_int_laws F" and "extent \<noteq> 0"
  shows "unat (to_pixel F v extent) < unat extent"
proof -
  have "0 < unat extent" using assms(2) by (simp add: unat_gt_0)
  then show ?thesis
    using clamp_inside [OF assms(1), of "min (unat extent - 1) 65535" "f_floor F (f_add F v (f_lit F (1 / 10000000)))"]
    by (auto simp: to_pixel_def Let_def f_of_u32_def pixel_bound)
qed

text \<open>In exact arithmetic a point of a pixel's square maps to the pixel, up to the absorbed epsilon.\<close>

lemma rat_to_pixel:
  assumes "i < unat extent" and "i < 65536" and "0 \<le> a" and "a < 1 - 1 / 10000000"
  shows "to_pixel rat_f64 (Some (of_nat i + a)) extent = of_nat i"
proof -
  have fl: "\<lfloor>(of_nat i + a :: rat) + 1 / 10000000\<rfloor> = int i"
    using assms by (intro floor_unique) auto
  define n where "n = min (unat extent - 1) 65535"
  with assms have "i \<le> n" by auto
  then have "\<not> (of_nat n :: rat) < of_nat i" by simp
  then have "to_pixel rat_f64 (Some (of_nat i + a)) extent = f_as_u16 rat_f64 (Some (of_nat i))"
    using fl by (simp only: to_pixel_def f_of_u32_def Let_def pixel_bound n_def [symmetric]) (simp add: rat_f64_simps)
  also have "\<dots> = of_nat i"
  proof (cases "i = 65535")
    case False
    with assms(2) have "\<not> (65535 :: rat) \<le> of_nat i" by simp
    then show ?thesis by (auto simp: f_as_u16_def rat_f64_simps)
  qed (simp add: f_as_u16_def rat_f64_simps)
  finally show ?thesis .
qed

lemma rat_viewport_scale:
  "\<exists>s ox oy. 0 < s \<and> points_per_pixel (Viewport_new rat_f64 view desktop smode) = Some s \<and>
     vp_origin (Viewport_new rat_f64 view desktop smode) = Point_new (Some ox) (Some oy)"
proof -
  let ?v = "Viewport_new rat_f64 view desktop smode"
  have max: "\<exists>r. f_max rat_f64 a (Some 0) = Some r" for a by (cases a) (auto simp: rat_f64_simps)
  have lit: "f_lit rat_f64 x = Some x" for x by (simp add: rat_f64_def)
  have "\<exists>s > 0. points_per_pixel ?v = Some s"
    by (auto simp: Viewport_new_def Let_def rat_f64_def lift2_def split: option.splits)
  moreover have "\<exists>ox oy. vp_origin ?v = Point_new (Some ox) (Some oy)"
    using max unfolding Viewport_new_def Let_def lit by (simp add: Point_new_def)
  ultimately show ?thesis by blast
qed

end
