(* ===== verification/Input_Theorems.thy ===== *)
theory Input_Theorems
  imports Input_Wire Input_Pointer
begin

text \<open>
  The properties of \<open>drift-input\<close>: what the translator sends for the keys, the text, the wheel and
  the pointer, and that the remote never ends up with a key the user has let go.
\<close>

abbreviation kb_runs :: "KbEvent list \<Rightarrow> KeyboardPrefs \<Rightarrow> KeyboardType \<Rightarrow> InputEvent list \<times> Keyboard" where
  "kb_runs es prefs kt \<equiv> kb_each kb_step es (Keyboard_new prefs kt)"

lemma kb_runs_inv: "kb_inv (snd (kb_runs es prefs kt))"
  using kb_run_triple kb_inv_new(1) [of prefs kt] unfolding kb_triple_def by blast

lemma set_remote_pressed: "set (remote_pressed kb) = remote kb"
  by (simp add: remote_pressed_def remote_keys)



text \<open>C10: for any sequence of key events, text, focus changes, menu shortcuts, pointer buttons and
  settings, the events sent form a correct key conversation: a remote that refuses a second press of a
  pressed key and a release of one that is not pressed accepts them all, and ends with exactly the
  keys \<open>remote_pressed\<close> reports.\<close>

theorem keyboard_wire_discipline:
  "wire_run {} (fst (kb_runs es prefs kt)) = Some (set (remote_pressed (snd (kb_runs es prefs kt))))"
  using kb_run_triple [of es] kb_inv_new [of prefs kt] unfolding kb_triple_def set_remote_pressed by metis


text \<open>losing the focus, at any moment, sends one release for each key the remote has pressed and no
  other event, after which the remote has no key pressed and the translator holds none.\<close>

theorem focus_loss_releases_all:
  "fst (focus_lost (snd (kb_runs es prefs kt))) =
       map (\<lambda>sc. sc_event sc False) (remote_pressed (snd (kb_runs es prefs kt))) \<and>
     distinct (remote_pressed (snd (kb_runs es prefs kt))) \<and>
     wire_run {} (fst (kb_runs (es @ [FocusLost]) prefs kt)) = Some {} \<and>
     held_keys (snd (focus_lost (snd (kb_runs es prefs kt)))) = []"
proof (intro conjI)
  have run: "kb_each kb_step (es @ [FocusLost]) kb =
      (let (out, kb) = kb_each kb_step es kb; (out', kb) = focus_lost kb in (out @ out', kb))" for kb
    by (induction es arbitrary: kb) (auto simp: kb_seq_def kb_skip_def Let_def split: prod.splits)
  then have "remote (snd (kb_runs (es @ [FocusLost]) prefs kt)) = {}"
    using focus_lost_cleared(2) by (simp add: Let_def case_prod_unfold)
  then show "wire_run {} (fst (kb_runs (es @ [FocusLost]) prefs kt)) = Some {}"
    using kb_run_triple [of "es @ [FocusLost]"] kb_inv_new [of prefs kt] unfolding kb_triple_def by metis
  show "distinct (remote_pressed (snd (kb_runs es prefs kt)))"
    using kb_runs_inv [of es prefs kt] om_wf_distinct
    by (auto simp: remote_pressed_def kb_inv_def kb_ok_def balanced_def kb_wf_def)
qed (simp_all add: focus_lost_def remote_pressed_def)

lemma mods_flags_changed: "mods (snd (flags_changed kvk flags kb)) = held_modifiers flags (Some kvk) (mods kb)"
  by (simp add: flags_changed_def kb_seq_result apply_modifiers_def Let_def kb_modify_def sync_caps_def)

text \<open>a Command combination claimed by the menu never reaches the remote: when only Command keys go
  down, the menu takes the combination, and then keys are only let go, no key press is sent (other keys held
  before may be released).\<close>

theorem menu_combo_not_sent:
  assumes "\<And>k. ms_contains (mods kb) k \<Longrightarrow> ms_contains (mods (snd (flags_changed kvk flags kb))) k"
    and "\<And>k. ms_contains (mods (snd (flags_changed kvk flags kb))) k \<Longrightarrow> ms_contains (mods kb) k \<or> is_command k"
    and "kb2 = menu_shortcut_taken (snd (flags_changed kvk flags kb))"
    and "\<And>k. ms_contains (mods (snd (flags_changed kvk' flags' kb2))) k \<Longrightarrow> ms_contains (mods kb2) k"
  shows "quiet (fst (flags_changed kvk flags kb) @ fst (flags_changed kvk' flags' kb2))"
proof -
  note m = mods_flags_changed
  have s: "mods (snd (sync_caps f b kb)) = mods kb" "cmd_pending (snd (sync_caps f b kb)) = cmd_pending kb"
    "cmd_consumed (snd (sync_caps f b kb)) = cmd_consumed kb" for f b kb
    by (simp_all add: sync_caps_def Let_def)
  have "all_consumed (snd (sync_caps flags' (kvk' = kvk_CAPS_LOCK) kb2))"
    by (simp add: all_consumed_def s assms(3) menu_shortcut_taken_def)
  then have "quiet (fst (apply_modifiers flags' (Some kvk') (snd (sync_caps flags' (kvk' = kvk_CAPS_LOCK) kb2))))"
    by (rule apply_modifiers_releases [rotated]) (use assms(4) m s in simp)
  moreover have "quiet (fst (apply_modifiers flags (Some kvk) (snd (sync_caps flags (kvk = kvk_CAPS_LOCK) kb))))"
    by (rule apply_modifiers_commands) (use assms(1,2) m s in auto)
  ultimately show ?thesis by (simp add: flags_changed_def kb_seq_result sync_caps_quiet)
qed

theorem menu_combo_not_sent_witness:
  "quiet (fst (flags_changed kvk_COMMAND 0x100008 (Keyboard_new KeyboardPrefs_default Ansi)) @
     fst (flags_changed kvk_COMMAND 0
       (menu_shortcut_taken (snd (flags_changed kvk_COMMAND 0x100008 (Keyboard_new KeyboardPrefs_default Ansi)))))) \<and>
   ms_contains (cmd_pending (snd (flags_changed kvk_COMMAND 0x100008 (Keyboard_new KeyboardPrefs_default Ansi)))) LeftCommand"
proof (rule conjI, rule menu_combo_not_sent [OF _ _ refl])
  fix k
  have none: "mods (Keyboard_new KeyboardPrefs_default Ansi) = ms_empty" by (simp add: Keyboard_new_def)
  show "ms_contains (mods (Keyboard_new KeyboardPrefs_default Ansi)) k \<Longrightarrow>
      ms_contains (mods (snd (flags_changed kvk_COMMAND 0x100008 (Keyboard_new KeyboardPrefs_default Ansi)))) k"
    by (simp add: none ms.mem_empty)
  have "flags_contain 0x100008 (class_bit k) \<Longrightarrow> is_command k"
    by (cases k) (simp_all add: flags_contain_def is_command_def F_SHIFT_def F_CONTROL_def F_OPTION_def)
  then show "ms_contains (mods (snd (flags_changed kvk_COMMAND 0x100008 (Keyboard_new KeyboardPrefs_default Ansi)))) k \<Longrightarrow>
      ms_contains (mods (Keyboard_new KeyboardPrefs_default Ansi)) k \<or> is_command k"
    by (simp add: mods_flags_changed held_modifiers_iff)
  have "\<not> flags_contain 0 (class_bit k)"
    by (cases k) (simp_all add: flags_contain_def F_SHIFT_def F_CONTROL_def F_OPTION_def F_COMMAND_def)
  then show "ms_contains (mods (snd (flags_changed kvk_COMMAND 0
      (menu_shortcut_taken (snd (flags_changed kvk_COMMAND 0x100008 (Keyboard_new KeyboardPrefs_default Ansi))))))) k \<Longrightarrow>
      ms_contains (mods (menu_shortcut_taken (snd (flags_changed kvk_COMMAND 0x100008 (Keyboard_new KeyboardPrefs_default Ansi))))) k"
    by (simp add: mods_flags_changed held_modifiers_iff)
next
  have "held_modifiers 0x100008 (Some kvk_COMMAND) ms_empty = ms_insert LeftCommand ms_empty"
    by code_simp
  then show "ms_contains (cmd_pending (snd (flags_changed kvk_COMMAND 0x100008 (Keyboard_new KeyboardPrefs_default Ansi)))) LeftCommand"
    by (simp add: flags_changed_def kb_seq_result apply_modifiers_def Let_def kb_modify_def sync_caps_def
        Keyboard_new_def ModifierKey_ALL_def ms.mem_empty ms.mem_add kb_skip_def press_modifier_def is_command_def)
qed

text \<open>on one keyboard and with one Command setting, two keys share a scancode only when they are the
  Command and the Control key of one side and Command acts as Control.\<close>

theorem scancodes_unambiguous:
  assumes "scancode_for j kt cmd = Some sc" and "scancode_for k kt cmd = Some sc" and "j \<noteq> k"
  shows "cmd = Ctrl \<and> (control_pair j k \<or> control_pair k j)"
  using scancode_for_inj [OF assms(1,2)] assms(3) by blast

theorem scancodes_unambiguous_witness:
  "scancode_for kvk_COMMAND Ansi Ctrl = Some (Scancode_new 0x1D) \<and>
     scancode_for kvk_CONTROL Ansi Ctrl = Some (Scancode_new 0x1D) \<and>
     (Ctrl = Ctrl \<and> (control_pair kvk_COMMAND kvk_CONTROL \<or> control_pair kvk_CONTROL kvk_COMMAND))"
proof (intro conjI)
  show a: "scancode_for kvk_COMMAND Ansi Ctrl = Some (Scancode_new 0x1D)"
    by (simp add: scancode_for_def)
  show b: "scancode_for kvk_CONTROL Ansi Ctrl = Some (Scancode_new 0x1D)"
    by (simp add: scancode_for_def base_scancode_values)
  have ne: "kvk_COMMAND \<noteq> (kvk_CONTROL :: u16)" by simp
  show "Ctrl = Ctrl" by simp
  show "control_pair kvk_COMMAND kvk_CONTROL \<or> control_pair kvk_CONTROL kvk_COMMAND"
    using scancodes_unambiguous [OF a b ne] by blast
qed


text \<open>the set of modifiers held: a key is in it exactly when the flag of its class is set and it is
  the side the device bits name, or without them the key that just changed, or a side that was held
  before, or else the left one.\<close>

theorem held_modifiers_exact:
  "ms_contains (held_modifiers f ch prev) k \<longleftrightarrow>
     flags_contain f (class_bit k) \<and>
       (if flags_contain f (device_bit k) \<or> flags_contain f (device_bit (other_side k))
        then flags_contain f (device_bit k)
        else if Option.bind ch from_kvk = Some k \<or> Option.bind ch from_kvk = Some (other_side k)
        then Option.bind ch from_kvk = Some k
        else if ms_contains prev k \<or> ms_contains prev (other_side k) then ms_contains prev k
        else is_left k)"
  by (simp only: held_modifiers_iff Let_def)

text \<open>committed text survives the wire: every Unicode press is followed at once by its release, and
  decoding the pressed units as UTF-16 gives the text without its control and function-key characters.\<close>

theorem typed_text_round_trip:
  assumes "\<forall>c \<in> set s. is_scalar c"
  shows "utf16_decode (pressed_units (text_to_events s)) = filter typeable s \<and> paired (text_to_events s)"
  using text_round_trip [OF assms] paired_text by simp

theorem typed_text_round_trip_witness:
  "utf16_decode (pressed_units (text_to_events [72, 128512, 8, 233])) = filter typeable [72, 128512, 8, 233] \<and>
     paired (text_to_events [72, 128512, 8, 233]) \<and> filter typeable [72, 128512, 8, 233] = [72, 128512, 233]"
proof -
  have "\<forall>c \<in> set [72, 128512, 8, 233]. is_scalar c" by (simp add: is_scalar_def)
  from typed_text_round_trip [OF this] show ?thesis by (simp add: typeable_def is_control_def)
qed

text \<open>a scroll event always yields wheel events, each within its chunk and none empty, whose units on
  each axis are the whole part of the carried remainder plus the clamped delta; the rest is carried.\<close>

theorem scroll_units_exact:
  "\<exists>out v h.
     scroll_push F delta acc = Some (out, acc\<lparr>vertical := v, horizontal := h\<rparr>) \<and>
     (case delta_parts F (sa_config acc) delta of (dx, dy, per_unit, chunk) \<Rightarrow>
       let sign = f_lit F (if scroll_reverse (sa_config acc) then - 1 else 1);
           tv = f_add F (vertical acc) (push_units F (f_mul F (f_mul F sign dy) per_unit));
           th = f_add F (horizontal acc) (push_units F (f_mul F (f_mul F (f_neg F sign) dx) per_unit))
       in list_all (wheel_bounded chunk) out \<and>
          wheel_units False out = f_as_i32 F (f_trunc F tv) \<and> v = f_sub F tv (f_trunc F tv) \<and>
          wheel_units True out = f_as_i32 F (f_trunc F th) \<and> h = f_sub F th (f_trunc F th))"
proof -
  obtain dx dy per_unit chunk where d: "delta_parts F (sa_config acc) delta = (dx, dy, per_unit, chunk)"
    by (cases "delta_parts F (sa_config acc) delta")
  then have c: "0 < chunk" "chunk \<le> 255"
    by (auto simp: delta_parts_def MAX_UNITS_PER_EVENT_def UNITS_PER_NOTCH_def split: ScrollDelta.splits)
  let ?sign = "f_lit F (if scroll_reverse (sa_config acc) then - 1 else 1)"
  from emit_returns [OF c, of F "vertical acc" "f_mul F (f_mul F ?sign dy) per_unit" False]
    emit_returns [OF c, of F "horizontal acc" "f_mul F (f_mul F (f_neg F ?sign) dx) per_unit" True]
  show ?thesis by (auto simp: scroll_push_def d Let_def)
qed

text \<open>a pointer position always lands on the desktop: no position for an empty desktop, else a pixel
  inside it, wherever the point is (NaN included), for any arithmetic that orders the pixel numbers.\<close>

theorem pointer_stays_on_desktop:
  assumes "f_int_laws F"
  shows "case view_to_desktop F vp p of
      None \<Rightarrow> width (vp_desktop vp) = 0 \<or> height (vp_desktop vp) = 0
    | Some q \<Rightarrow> unat (pt_x q) < unat (width (vp_desktop vp)) \<and> unat (pt_y q) < unat (height (vp_desktop vp))"
  using to_pixel_inside [OF assms] by (simp add: view_to_desktop_def Point_new_def Let_def)

definition demo_viewport :: "rat option Viewport" where
  "demo_viewport = Viewport_new rat_f64 \<lparr>points = Size_new (Some 400) (Some 300), backing_scale = Some 2\<rparr> (Size_new 200 100) Fit"

theorem pointer_stays_on_desktop_witness:
  "case view_to_desktop rat_f64 demo_viewport (Point_new (Some 390) None) of
      None \<Rightarrow> width (vp_desktop demo_viewport) = 0 \<or> height (vp_desktop demo_viewport) = 0
    | Some q \<Rightarrow> unat (pt_x q) < unat (width (vp_desktop demo_viewport)) \<and>
        unat (pt_y q) < unat (height (vp_desktop demo_viewport))"
  by (rule pointer_stays_on_desktop [OF rat_f64_int_laws])

text \<open>C37: clicks land on the pixel under the pointer: in exact arithmetic the point at a fraction of
  pixel \<open>(i, j)\<close> of the drawn image, below the absorbed epsilon, maps to \<open>(i, j)\<close>, for every view,
  desktop and scale mode.\<close>

theorem pointer_hits_pixel:
  assumes "i < unat (width desktop)" and "j < unat (height desktop)" and "i < 65536" and "j < 65536"
    and "0 \<le> a" and "a < 1 - 1 / 10000000" and "0 \<le> b" and "b < 1 - 1 / 10000000"
    and vp: "points_per_pixel (Viewport_new rat_f64 view desktop smode) = Some s"
    and origin: "vp_origin (Viewport_new rat_f64 view desktop smode) = Point_new (Some ox) (Some oy)"
  shows "view_point_to_desktop rat_f64 (Point_new (Some (ox + (of_nat i + a) * s)) (Some (oy + (of_nat j + b) * s)))
      view desktop smode = Some (Point_new (of_nat i) (of_nat j))"
proof -
  have "0 < s" using rat_viewport_scale [of view desktop smode] vp by auto
  moreover have "vp_desktop (Viewport_new rat_f64 view desktop smode) = desktop"
    by (simp add: Viewport_new_def Let_def)
  moreover have "width desktop \<noteq> 0" "height desktop \<noteq> 0" using assms(1,2) by auto
  moreover have "f_sub rat_f64 (Some x) (Some y) = Some (x - y)" "s \<noteq> 0 \<Longrightarrow> f_div rat_f64 (Some x) (Some s) = Some (x / s)"
    for x y by (simp_all add: rat_f64_simps)
  ultimately show ?thesis
    using assms(1-8) origin vp
    by (simp add: view_point_to_desktop_def view_to_desktop_def Let_def Point_new_def rat_to_pixel)
qed


theorem pointer_hits_pixel_witness:
  "view_point_to_desktop rat_f64 (Point_new (Some (0 + (of_nat 199 + 1 / 2) * 2)) (Some (50 + (of_nat 3 + 1 / 4) * 2)))
      \<lparr>points = Size_new (Some 400) (Some 300), backing_scale = Some 2\<rparr> (Size_new 200 100) Fit
    = Some (Point_new (of_nat 199) (of_nat 3))"
proof (rule pointer_hits_pixel)
  let ?v = "\<lparr>points = Size_new (Some 400) (Some 300), backing_scale = Some 2\<rparr> :: rat option ViewGeometry"
  show "points_per_pixel (Viewport_new rat_f64 ?v (Size_new 200 100) Fit) = Some 2"
    "vp_origin (Viewport_new rat_f64 ?v (Size_new 200 100) Fit) = Point_new (Some 0) (Some 50)"
    by (simp_all add: Viewport_new_def Let_def rat_f64_simps)
qed simp_all

end
