(* ===== verification/Clip_Formats.thy ===== *)
theory Clip_Formats
  imports Core_Profile Rust_Utf "HOL-Library.Option_ord"
begin

text \<open>
  \<open>crates/drift-clipboard/src/contents.rs\<close> and \<open>formats.rs\<close>: clipboard contents, the formats of the
  remote clipboard and the conversions between them. The image codecs (BMP and PNG) are a parameter,
  with the texts of their errors; an RGBA image is its size and its pixels.
\<close>

subsection \<open>Contents and formats\<close>

datatype ClipboardItem = ItemText rstr | ItemPng "u8 list" | ItemTiff "u8 list"

type_synonym ClipboardContents = "ClipboardItem list"

definition cc_text :: "ClipboardContents \<Rightarrow> rstr option" where
  "cc_text c = (case find (\<lambda>i. case i of ItemText _ \<Rightarrow> True | _ \<Rightarrow> False) c of Some (ItemText t) \<Rightarrow> Some t | _ \<Rightarrow> None)"

definition CF_TEXT :: u32 where "CF_TEXT = 1"
definition CF_TIFF :: u32 where "CF_TIFF = 6"
definition CF_DIB :: u32 where "CF_DIB = 8"
definition CF_UNICODETEXT :: u32 where "CF_UNICODETEXT = 13"
definition PNG_FORMAT_NAME :: rstr where "PNG_FORMAT_NAME = lit ''image/png''"
definition LOCAL_PNG_FORMAT_ID :: u32 where "LOCAL_PNG_FORMAT_ID = 0xC0F0"
definition MAX_CLIPBOARD_BYTES :: nat where "MAX_CLIPBOARD_BYTES = 32 * 1024 * 1024"

lemmas cf_defs = CF_TEXT_def CF_TIFF_def CF_DIB_def CF_UNICODETEXT_def LOCAL_PNG_FORMAT_ID_def

datatype FormatKind = UnicodeText | AnsiText | Png | Tiff | Dib

fun kind_rank :: "FormatKind \<Rightarrow> nat" where
  "kind_rank UnicodeText = 0"
| "kind_rank AnsiText = 1"
| "kind_rank Png = 2"
| "kind_rank Tiff = 3"
| "kind_rank Dib = 4"

lemma kind_rank_inj [simp]: "kind_rank a = kind_rank b \<longleftrightarrow> a = b"
  by (cases a; cases b) simp_all

instantiation FormatKind :: linorder
begin

definition less_eq_FormatKind :: "FormatKind \<Rightarrow> FormatKind \<Rightarrow> bool" where
  "less_eq_FormatKind a b = (kind_rank a \<le> kind_rank b)"

definition less_FormatKind :: "FormatKind \<Rightarrow> FormatKind \<Rightarrow> bool" where
  "less_FormatKind a b = (kind_rank a < kind_rank b)"

instance
  by standard (auto simp: less_eq_FormatKind_def less_FormatKind_def simp flip: kind_rank_inj)

end

record ClipFormat =
  cf_id :: u32
  cf_name :: "rstr option"

definition cf_standard :: "u32 \<Rightarrow> ClipFormat" where
  "cf_standard i = \<lparr>cf_id = i, cf_name = None\<rparr>"

definition cf_named :: "u32 \<Rightarrow> rstr \<Rightarrow> ClipFormat" where
  "cf_named i n = \<lparr>cf_id = i, cf_name = Some n\<rparr>"

definition cf_kind :: "ClipFormat \<Rightarrow> FormatKind option" where
  "cf_kind f =
     (case cf_name f of
        Some n \<Rightarrow> if n = PNG_FORMAT_NAME then Some Png else None
      | None \<Rightarrow>
          if cf_id f = CF_UNICODETEXT then Some UnicodeText
          else if cf_id f = CF_TEXT then Some AnsiText
          else if cf_id f = CF_TIFF then Some Tiff
          else if cf_id f = CF_DIB then Some Dib
          else None)"

definition is_image :: "FormatKind \<Rightarrow> bool" where
  "is_image k = (k = Png \<or> k = Tiff \<or> k = Dib)"

fun allowed_by :: "FormatKind \<Rightarrow> ClipboardPrefs \<Rightarrow> bool" where
  "allowed_by k Off = False"
| "allowed_by k Text = (\<not> is_image k)"
| "allowed_by k TextAndImages = True"

datatype ClipError = TooLarge nat nat | InvalidImage rstr | Unavailable u32 | RemoteError

definition check_size :: "nat \<Rightarrow> (ClipError, unit) result" where
  "check_size sz = (if MAX_CLIPBOARD_BYTES < sz then Inl (TooLarge sz MAX_CLIPBOARD_BYTES) else Inr ())"

lemma check_size_Inr [simp]: "check_size n = Inr u \<longleftrightarrow> n \<le> MAX_CLIPBOARD_BYTES"
  by (auto simp: check_size_def)

subsection \<open>Text\<close>

text \<open>The loop of \<open>encode_unicode_text\<close> over the characters, with the previous one.\<close>

fun insert_cr :: "rchar \<Rightarrow> rstr \<Rightarrow> rstr" where
  "insert_cr prev [] = []"
| "insert_cr prev (c # cs) = (if c = 10 \<and> prev \<noteq> 13 then [13] else []) @ c # insert_cr c cs"

definition encode_unicode_text :: "rstr \<Rightarrow> u8 list" where
  "encode_unicode_text t = concat (map u16_le_bytes (concat (map encode_utf16 (insert_cr 0 t)))) @ [0, 0]"

fun crlf_to_lf :: "rstr \<Rightarrow> rstr" where
  "crlf_to_lf [] = []"
| "crlf_to_lf [c] = [c]"
| "crlf_to_lf (c # d # cs) = (if c = 13 \<and> d = 10 then 10 # crlf_to_lf cs else c # crlf_to_lf (d # cs))"

definition decode_unicode_text :: "u8 list \<Rightarrow> rstr" where
  "decode_unicode_text bytes = crlf_to_lf (decode_utf16_lossy (takeWhile (\<lambda>u. u \<noteq> 0) (u16_from_le bytes)))"

definition decode_ansi_text :: "u8 list \<Rightarrow> rstr" where
  "decode_ansi_text bytes =
     (let bytes = takeWhile (\<lambda>b. b \<noteq> 0) bytes
      in crlf_to_lf (case from_utf8 bytes of Some s \<Rightarrow> s | None \<Rightarrow> map unat bytes))"

lemma crlf_insert_cr:
  "prev \<noteq> 13 \<Longrightarrow> crlf_to_lf (insert_cr prev t) = crlf_to_lf t"
  "crlf_to_lf (13 # insert_cr 13 t) = crlf_to_lf (13 # t)"
proof (induction t arbitrary: prev rule: crlf_to_lf.induct)
  case 1
  {
    case 1
    then show ?case by simp
  next
    case 2
    then show ?case by simp
  }
next
  case (2 c)
  {
    case 1
    then show ?case by (cases "c = 10") simp_all
  next
    case 2
    then show ?case by simp
  }
next
  case (3 c d cs)
  have d: "crlf_to_lf (insert_cr d cs) = crlf_to_lf cs" if "d \<noteq> 13" "c = 13" "d = 10"
    using 3(1) [of d] that by simp
  have IH: "p \<noteq> 13 \<Longrightarrow> crlf_to_lf (insert_cr p (d # cs)) = crlf_to_lf (d # cs)" 
    "crlf_to_lf (13 # insert_cr 13 (d # cs)) = crlf_to_lf (13 # d # cs)" if "\<not> (c = 13 \<and> d = 10)" for p
    using 3(3) [of p] 3(4) that by simp_all
  have tail: "crlf_to_lf (c # insert_cr c (d # cs)) = crlf_to_lf (c # d # cs)"
  proof (cases "c = 13")
    case True
    then show ?thesis using IH(2) d by (cases "d = 10") auto
  next
    case False
    then have "crlf_to_lf (c # insert_cr c (d # cs)) = c # crlf_to_lf (insert_cr c (d # cs))"
      by (cases "insert_cr c (d # cs)") auto
    with IH(1) [of c] False show ?thesis by simp
  qed
  {
    case 1
    show ?case
    proof (cases "c = 10")
      case True
      then have "crlf_to_lf (insert_cr prev (c # d # cs)) = crlf_to_lf (13 # 10 # insert_cr 10 (d # cs))"
        using 1 by simp
      also have "\<dots> = 10 # crlf_to_lf (insert_cr 10 (d # cs))" by simp
      finally show ?thesis using True IH(1) [of 10] by simp
    next
      case False
      then show ?thesis using tail by simp
    qed
  next
    case 2
    have "crlf_to_lf (13 # c # insert_cr c (d # cs)) =
        (if c = 10 then 10 # crlf_to_lf (insert_cr c (d # cs)) else 13 # crlf_to_lf (c # insert_cr c (d # cs)))"
      by simp
    also have "\<dots> = crlf_to_lf (13 # c # d # cs)"
      using tail IH(1) [of 10] by auto
    finally show ?case by simp
  }
qed

lemma insert_cr_set: "set (insert_cr prev t) \<subseteq> set t \<union> {13}"
  by (induction t arbitrary: prev) auto

text \<open>Text without NUL survives the remote clipboard up to its line ends.\<close>

lemma unicode_text_round_trip:
  assumes "\<forall>c \<in> set t. is_scalar c \<and> c \<noteq> 0"
  shows "decode_unicode_text (encode_unicode_text t) = crlf_to_lf t"
proof -
  let ?u = "concat (map encode_utf16 (insert_cr 0 t))"
  have c: "\<forall>c \<in> set (insert_cr 0 t). is_scalar c \<and> c \<noteq> 0"
    using assms insert_cr_set [of 0 t] by (auto simp: is_scalar_def)
  then have "\<forall>u \<in> set ?u. u \<noteq> 0" using encode_utf16_nonzero by fastforce
  then have "takeWhile (\<lambda>u. u \<noteq> 0) (?u @ [0]) = ?u" by (simp add: takeWhile_append)
  moreover have "u16_from_le (encode_unicode_text t) = ?u @ [0]"
    by (simp add: encode_unicode_text_def u16_from_le_bytes)
  moreover have "decode_utf16_lossy ?u = insert_cr 0 t" using c by (simp add: decode_encode_utf16_str)
  ultimately show ?thesis by (simp add: decode_unicode_text_def crlf_insert_cr(1))
qed

lemma crlf_to_lf_id: "13 \<notin> set t \<Longrightarrow> crlf_to_lf t = t"
  by (induction t rule: crlf_to_lf.induct) auto


subsection \<open>Images\<close>

record RgbaImage =
  ri_width :: u32
  ri_height :: u32
  ri_pixel :: "nat \<Rightarrow> nat \<Rightarrow> u8 \<times> u8 \<times> u8 \<times> u8"

datatype ColorType = Rgba8 | Rgb8 | L8 | OtherColor rstr

record BmpImage =
  bi_width :: u32
  bi_height :: u32
  bi_color :: ColorType
  bi_pixels :: "u8 list"

text \<open>
  The image library: a BMP decoder, the conversion of raw pixels of one of the three colour types to
  RGBA (absent on a size mismatch), and a PNG encoder and decoder.
\<close>

record image_env =
  ie_bmp_decode :: "u8 list \<Rightarrow> (rstr, BmpImage) result"
  ie_to_rgba :: "ColorType \<Rightarrow> u32 \<Rightarrow> u32 \<Rightarrow> u8 list \<Rightarrow> RgbaImage option"
  ie_png_encode :: "RgbaImage \<Rightarrow> (rstr, u8 list) result"
  ie_png_decode :: "u8 list \<Rightarrow> (rstr, RgbaImage) result"

definition clip_invalid :: "(rstr, 'a) result \<Rightarrow> (ClipError, 'a) result" where
  "clip_invalid r = (case r of Inl e \<Rightarrow> Inl (InvalidImage e) | Inr a \<Rightarrow> Inr a)"

definition BITMAPINFOHEADER_LEN :: nat where "BITMAPINFOHEADER_LEN = 40"

definition u32_from_le :: "u8 list \<Rightarrow> u32" where
  "u32_from_le bs = (case bs of
       [a, b, c, d] \<Rightarrow> ucast a + 256 * ucast b + 65536 * ucast c + 16777216 * ucast d
     | _ \<Rightarrow> 0)"

definition u32_le_bytes :: "u32 \<Rightarrow> u8 list" where
  "u32_le_bytes w = [ucast w, ucast (drop_bit 8 w), ucast (drop_bit 16 w), ucast (drop_bit 24 w)]"

text \<open>\<open>i32::unsigned_abs\<close>.\<close>

definition unsigned_abs :: "u32 \<Rightarrow> u32" where
  "unsigned_abs w = (if sint w < 0 then - w else w)"

definition dib_to_png :: "image_env \<Rightarrow> u8 list \<Rightarrow> (ClipError, u8 list) result" where
  "dib_to_png E dib =
     and_then (check_size (length dib)) (\<lambda>_.
       if length dib < BITMAPINFOHEADER_LEN then Inl (InvalidImage (lit ''DIB shorter than BITMAPINFOHEADER''))
       else
         let dim = (\<lambda>pos. (ucast (unsigned_abs (u32_from_le (take 4 (drop pos dib)))) :: u64));
             decoded = saturating_mul (saturating_mul (dim 4) (dim 8)) 4
         in if of_nat MAX_CLIPBOARD_BYTES < decoded then Inl (TooLarge (unat decoded) MAX_CLIPBOARD_BYTES)
            else and_then (clip_invalid (ie_bmp_decode E dib)) (\<lambda>bmp.
              and_then (case bi_color bmp of
                  OtherColor other \<Rightarrow> Inl (InvalidImage (lit ''unsupported DIB colour type '' @ other))
                | c \<Rightarrow> (case ie_to_rgba E c (bi_width bmp) (bi_height bmp) (bi_pixels bmp) of
                    None \<Rightarrow> Inl (InvalidImage (lit ''DIB pixel buffer size mismatch''))
                  | Some rgba \<Rightarrow> Inr rgba))
                (\<lambda>rgba. clip_invalid (ie_png_encode E rgba))))"

definition PNG_SIGNATURE :: "u8 list" where
  "PNG_SIGNATURE = [0x89, 0x50, 0x4E, 0x47, 0x0D, 0x0A, 0x1A, 0x0A]"

definition png_passthrough :: "u8 list \<Rightarrow> (ClipError, u8 list) result" where
  "png_passthrough png =
     and_then (check_size (length png)) (\<lambda>_.
       if take 8 png = PNG_SIGNATURE then Inr png else Inl (InvalidImage (lit ''missing PNG signature'')))"

definition dib_row :: "RgbaImage \<Rightarrow> nat \<Rightarrow> u8 list" where
  "dib_row img y =
     concat (map (\<lambda>x. case ri_pixel img x y of (r, g, b, a) \<Rightarrow> [b, g, r, a]) [0..<unat (ri_width img)])"

definition i32_try_from :: "u32 \<Rightarrow> (ClipError, u32) result" where
  "i32_try_from w =
     (if unat w < 2 ^ 31 then Inr w else Inl (InvalidImage (lit ''out of range integral type conversion attempted'')))"

definition dib_header :: "u32 \<Rightarrow> u32 \<Rightarrow> u32 \<Rightarrow> u8 list" where
  "dib_header w h image_size =
     u32_le_bytes (of_nat BITMAPINFOHEADER_LEN) @ u32_le_bytes w @ u32_le_bytes h @
     u16_le_bytes 1 @ u16_le_bytes 32 @ u32_le_bytes 0 @ u32_le_bytes image_size @
     u32_le_bytes 2835 @ u32_le_bytes 2835 @ u32_le_bytes 0 @ u32_le_bytes 0"

definition png_to_dib :: "image_env \<Rightarrow> u8 list \<Rightarrow> (ClipError, u8 list) result" where
  "png_to_dib E png =
     and_then (png_passthrough png) (\<lambda>_.
     and_then (clip_invalid (ie_png_decode E png)) (\<lambda>img.
       let w = ri_width img; h = ri_height img;
           image_size = (ucast w * ucast h * 4 :: u64)
       in and_then (check_size (unat image_size)) (\<lambda>_.
          and_then (i32_try_from w) (\<lambda>w32.
          and_then (i32_try_from h) (\<lambda>h32.
            Inr (dib_header w32 h32 (ucast image_size) @
                 concat (map (dib_row img) (rev [0..<unat h]))))))))"

subsection \<open>Selection and conversion\<close>

fun item_kind :: "ClipboardItem \<Rightarrow> FormatKind" where
  "item_kind (ItemText _) = UnicodeText"
| "item_kind (ItemPng _) = Png"
| "item_kind (ItemTiff _) = Tiff"

fun item_size :: "ClipboardItem \<Rightarrow> nat" where
  "item_size (ItemText t) = str_len t"
| "item_size (ItemPng b) = length b"
| "item_size (ItemTiff b) = length b"

definition filter_local :: "ClipboardContents \<Rightarrow> ClipboardPrefs \<Rightarrow> ClipboardContents \<times> ClipError list" where
  "filter_local contents prefs =
     foldl (\<lambda>(kept, rejected) item. case check_size (item_size item) of
              Inr _ \<Rightarrow> (kept @ [item], rejected)
            | Inl e \<Rightarrow> (kept, rejected @ [e]))
       ([], []) (filter (\<lambda>i. allowed_by (item_kind i) prefs) contents)"

definition find_png :: "ClipboardContents \<Rightarrow> u8 list option" where
  "find_png c = (case find (\<lambda>i. case i of ItemPng _ \<Rightarrow> True | _ \<Rightarrow> False) c of Some (ItemPng p) \<Rightarrow> Some p | _ \<Rightarrow> None)"

definition find_tiff :: "ClipboardContents \<Rightarrow> u8 list option" where
  "find_tiff c = (case find (\<lambda>i. case i of ItemTiff _ \<Rightarrow> True | _ \<Rightarrow> False) c of Some (ItemTiff t) \<Rightarrow> Some t | _ \<Rightarrow> None)"

definition outbound_formats :: "ClipboardContents \<Rightarrow> ClipboardPrefs \<Rightarrow> ClipFormat list" where
  "outbound_formats contents prefs =
     (if allowed_by UnicodeText prefs \<and> cc_text contents \<noteq> None then [cf_standard CF_UNICODETEXT] else []) @
     (if allowed_by Png prefs
      then if find_png contents \<noteq> None then [cf_named LOCAL_PNG_FORMAT_ID PNG_FORMAT_NAME, cf_standard CF_DIB]
           else if find_tiff contents \<noteq> None then [cf_standard CF_TIFF]
           else []
      else [])"

definition PREFERENCE :: "FormatKind list list" where
  "PREFERENCE = [[UnicodeText, AnsiText], [Png, Tiff, Dib]]"

fun find_kind :: "ClipFormat list \<Rightarrow> FormatKind list \<Rightarrow> (ClipFormat \<times> FormatKind) option" where
  "find_kind formats [] = None"
| "find_kind formats (k # ks) =
     (case find (\<lambda>f. cf_kind f = Some k) formats of Some f \<Rightarrow> Some (f, k) | None \<Rightarrow> find_kind formats ks)"

definition select_inbound :: "ClipFormat list \<Rightarrow> ClipboardPrefs \<Rightarrow> (ClipFormat \<times> FormatKind) list" where
  "select_inbound formats prefs =
     List.map_filter (\<lambda>group. find_kind formats (filter (\<lambda>k. allowed_by k prefs) group)) PREFERENCE"

definition decode_inbound :: "image_env \<Rightarrow> FormatKind \<Rightarrow> u8 list \<Rightarrow> (ClipError, ClipboardItem) result" where
  "decode_inbound E kind data =
     and_then (check_size (length data)) (\<lambda>_.
       case kind of
         UnicodeText \<Rightarrow> Inr (ItemText (decode_unicode_text data))
       | AnsiText \<Rightarrow> Inr (ItemText (decode_ansi_text data))
       | Png \<Rightarrow> and_then (png_passthrough data) (\<lambda>p. Inr (ItemPng p))
       | Tiff \<Rightarrow> Inr (ItemTiff data)
       | Dib \<Rightarrow> and_then (dib_to_png E data) (\<lambda>p. Inr (ItemPng p)))"

definition encode_outbound :: "image_env \<Rightarrow> u32 \<Rightarrow> ClipboardContents \<Rightarrow> ClipboardPrefs \<Rightarrow> (ClipError, u8 list) result" where
  "encode_outbound E format_id contents prefs =
     (if format_id \<notin> cf_id ` set (outbound_formats contents prefs) then Inl (Unavailable format_id)
      else
        and_then
          (if format_id = CF_UNICODETEXT then Inr (map_option encode_unicode_text (cc_text contents))
           else if format_id = LOCAL_PNG_FORMAT_ID then Inr (find_png contents)
           else if format_id = CF_DIB
           then (case find_png contents of
                   None \<Rightarrow> Inr None
                 | Some png \<Rightarrow> (case png_to_dib E png of Inl e \<Rightarrow> Inl e | Inr d \<Rightarrow> Inr (Some d)))
           else if format_id = CF_TIFF then Inr (find_tiff contents)
           else Inr None)
          (\<lambda>data. and_then (ok_or data (Unavailable format_id)) (\<lambda>data.
            and_then (check_size (length data)) (\<lambda>_. Inr data))))"

subsection \<open>What is offered and served\<close>

lemma allowed_Png: "allowed_by Png prefs \<longleftrightarrow> prefs = TextAndImages"
  by (cases prefs) (simp_all add: is_image_def)

lemma allowed_UnicodeText: "allowed_by UnicodeText prefs \<longleftrightarrow> prefs \<noteq> Off"
  by (cases prefs) (simp_all add: is_image_def)

text \<open>Every format offered is one Drift understands and the preference allows.\<close>

lemma outbound_formats_allowed:
  assumes "f \<in> set (outbound_formats contents prefs)"
  shows "\<exists>k. cf_kind f = Some k \<and> allowed_by k prefs"
  using assms
  by (auto simp: outbound_formats_def cf_kind_def cf_standard_def cf_named_def allowed_Png allowed_UnicodeText
      cf_defs split: if_splits)

lemma outbound_ids:
  "cf_id ` set (outbound_formats contents prefs) \<subseteq> {CF_UNICODETEXT, LOCAL_PNG_FORMAT_ID, CF_DIB, CF_TIFF}"
  by (auto simp: outbound_formats_def cf_standard_def cf_named_def)

lemma encode_outbound_Inr:
  assumes "encode_outbound E i contents prefs = Inr data"
  shows "prefs \<noteq> Off" and "i \<noteq> CF_UNICODETEXT \<longrightarrow> prefs = TextAndImages" and "length data \<le> MAX_CLIPBOARD_BYTES"
    and "\<exists>f \<in> set (outbound_formats contents prefs). cf_id f = i"
proof -
  have i: "i \<in> cf_id ` set (outbound_formats contents prefs)"
    using assms by (auto simp: encode_outbound_def split: if_splits)
  then show "\<exists>f \<in> set (outbound_formats contents prefs). cf_id f = i" by auto
  from i show "prefs \<noteq> Off" "i \<noteq> CF_UNICODETEXT \<longrightarrow> prefs = TextAndImages"
    by (auto simp: outbound_formats_def cf_standard_def cf_named_def allowed_Png allowed_UnicodeText cf_defs split: if_splits)
  show "length data \<le> MAX_CLIPBOARD_BYTES"
    using assms i by (auto simp: encode_outbound_def and_then_Inr_iff)
qed

lemma filter_local_spec:
  "fst (filter_local contents prefs) =
     filter (\<lambda>i. allowed_by (item_kind i) prefs \<and> item_size i \<le> MAX_CLIPBOARD_BYTES) contents"
proof -
  have "fst (foldl (\<lambda>(kept, rejected) item. case check_size (item_size item) of
              Inr _ \<Rightarrow> (kept @ [item], rejected) | Inl e \<Rightarrow> (kept, rejected @ [e])) (k, r) is) =
      k @ filter (\<lambda>i. item_size i \<le> MAX_CLIPBOARD_BYTES) is" for k r "is"
    by (induction "is" arbitrary: k r) (auto simp: check_size_def)
  then show ?thesis by (simp add: filter_local_def)
qed

lemma find_kind_Some:
  "find_kind formats ks = Some (f, k) \<Longrightarrow> f \<in> set formats \<and> cf_kind f = Some k \<and> k \<in> set ks"
  by (induction ks) (auto simp: find_Some_iff split: option.splits)

lemma find_kind_filter: "find_kind formats (filter P ks) = Some (f, k) \<Longrightarrow> k \<in> set ks \<and> P k"
  using find_kind_Some [of formats "filter P ks" f k] by simp

text \<open>At most one text and one image format are fetched, each present in the list and allowed.\<close>

lemma select_inbound_cases:
  "select_inbound formats prefs =
     (case find_kind formats (filter (\<lambda>k. allowed_by k prefs) [UnicodeText, AnsiText]) of None \<Rightarrow> [] | Some e \<Rightarrow> [e]) @
     (case find_kind formats (filter (\<lambda>k. allowed_by k prefs) [Png, Tiff, Dib]) of None \<Rightarrow> [] | Some e \<Rightarrow> [e])"
  by (simp add: select_inbound_def PREFERENCE_def List.map_filter_simps del: filter.simps split: option.split)

lemma select_inbound_sound:
  assumes "(f, k) \<in> set (select_inbound formats prefs)"
  shows "f \<in> set formats" and "cf_kind f = Some k" and "allowed_by k prefs"
proof -
  obtain ks where "find_kind formats (filter (\<lambda>k. allowed_by k prefs) ks) = Some (f, k)"
    using assms by (auto simp: select_inbound_cases simp del: filter.simps split: option.splits)
  then show "f \<in> set formats" "cf_kind f = Some k" "allowed_by k prefs"
    using find_kind_Some find_kind_filter by blast+
qed

lemma select_inbound_two: "length (filter (\<lambda>(f, k). is_image k) (select_inbound formats prefs)) \<le> 1"
  "length (filter (\<lambda>(f, k). \<not> is_image k) (select_inbound formats prefs)) \<le> 1"
proof -
  define a where "a = find_kind formats (filter (\<lambda>k. allowed_by k prefs) [UnicodeText, AnsiText])"
  define b where "b = find_kind formats (filter (\<lambda>k. allowed_by k prefs) [Png, Tiff, Dib])"
  have t: "a = Some (f, k) \<Longrightarrow> \<not> is_image k" for f k
    using find_kind_filter [of formats _ "[UnicodeText, AnsiText]" f k] by (auto simp: is_image_def a_def simp del: filter.simps)
  have i: "b = Some (f, k) \<Longrightarrow> is_image k" for f k
    using find_kind_filter [of formats _ "[Png, Tiff, Dib]" f k] by (auto simp: is_image_def b_def simp del: filter.simps)
  have s: "select_inbound formats prefs = (case a of None \<Rightarrow> [] | Some e \<Rightarrow> [e]) @ (case b of None \<Rightarrow> [] | Some e \<Rightarrow> [e])"
    by (simp only: select_inbound_cases a_def b_def)
  show "length (filter (\<lambda>(f, k). is_image k) (select_inbound formats prefs)) \<le> 1"
    "length (filter (\<lambda>(f, k). \<not> is_image k) (select_inbound formats prefs)) \<le> 1"
    unfolding s using t i by (cases a; cases b; auto)+
qed


subsection \<open>The layout of an encoded bitmap\<close>

lemma concat_piece:
  assumes "\<forall>r \<in> set rs. length r = n" and "i < length rs"
  shows "take n (drop (i * n) (concat rs)) = rs ! i"
  using assms
proof (induction rs arbitrary: i)
  case (Cons r rs)
  then show ?case by (cases i) simp_all
qed simp

lemma length_concat_pieces: "\<forall>r \<in> set rs. length r = n \<Longrightarrow> length (concat rs) = length rs * n"
  by (induction rs) auto

lemma length_dib_header: "length (dib_header w h sz) = 40"
  by (simp add: dib_header_def u32_le_bytes_def u16_le_bytes_def)

lemma dib_row_pieces:
  "dib_row img y = concat (map (\<lambda>x. case ri_pixel img x y of (r, g, b, a) \<Rightarrow> [b, g, r, a]) [0..<unat (ri_width img)])"
  "\<forall>p \<in> set (map (\<lambda>x. case ri_pixel img x y of (r, g, b, a) \<Rightarrow> [b, g, r, a]) [0..<unat (ri_width img)]). length p = 4"
  by (auto simp: dib_row_def split: prod.splits)

text \<open>The bitmap is bottom-up: pixel \<open>(x, y)\<close> is the \<open>x\<close>-th of the \<open>y\<close>-th row from the end, in BGRA order.\<close>

lemma png_to_dib_pixels:
  assumes "png_to_dib E png = Inr d" and "ie_png_decode E png = Inr img"
  shows "length d = 40 + 4 * unat (ri_width img) * unat (ri_height img)"
    and "x < unat (ri_width img) \<Longrightarrow> y < unat (ri_height img) \<Longrightarrow> ri_pixel img x y = (r, g, b, a) \<Longrightarrow>
      take 4 (drop (40 + 4 * ((unat (ri_height img) - 1 - y) * unat (ri_width img) + x)) d) = [b, g, r, a]"
proof -
  let ?w = "unat (ri_width img)" and ?h = "unat (ri_height img)"
  obtain hd where d: "d = hd @ concat (map (dib_row img) (rev [0..<?h]))" "length hd = 40"
    using assms by (auto simp: png_to_dib_def clip_invalid_def and_then_Inr_iff Let_def length_dib_header)
  have row: "length (dib_row img y) = 4 * ?w" for y
    using dib_row_pieces(2) [of img y] unfolding dib_row_pieces(1) [of img y]
    by (subst length_concat_pieces [of _ 4]) auto
  then have rows: "\<forall>r \<in> set (map (dib_row img) (rev [0..<?h])). length r = 4 * ?w" by auto
  show "length d = 40 + 4 * ?w * ?h"
    using length_concat_pieces [OF rows] d by simp
  assume x: "x < ?w" and y: "y < ?h" and px: "ri_pixel img x y = (r, g, b, a)"
  let ?i = "?h - 1 - y"
  have i: "?i < length (map (dib_row img) (rev [0..<?h]))" "map (dib_row img) (rev [0..<?h]) ! ?i = dib_row img y"
    using y by (simp_all add: rev_nth)
  have "take 4 (drop (4 * x) (take (4 * ?w) (drop (?i * (4 * ?w)) (concat (map (dib_row img) (rev [0..<?h])))))) =
      take 4 (drop (x * 4) (dib_row img y))"
    by (subst concat_piece [OF rows i(1)]) (simp only: i(2) mult.commute)
  also have "\<dots> = [b, g, r, a]"
    unfolding dib_row_pieces(1) using concat_piece [OF dib_row_pieces(2) [of img y], of x] x px by simp
  also have "4 * ?w - 4 * x \<ge> 4" using x by simp
  then have "take 4 (drop (4 * x) (take (4 * ?w) (drop (?i * (4 * ?w)) cs))) = take 4 (drop (4 * (?i * ?w + x)) cs)" for cs :: "u8 list"
    by (simp add: drop_take take_take min_def algebra_simps)
  ultimately show "take 4 (drop (40 + 4 * (?i * ?w + x)) d) = [b, g, r, a]"
    unfolding d(1) by (simp add: d(2))
qed

end
