(* ===== verification/Clip_Sync.thy ===== *)
theory Clip_Sync
  imports Clip_Formats
begin

text \<open>
  \<open>crates/drift-clipboard/src/sync.rs\<close> and \<open>poll.rs\<close>: the synchronisation of one session's clipboard and
  the watcher of the local pasteboard. \<open>handle\<close> processes one input with the clock's reading and
  returns the actions; \<open>cs_run\<close> is a sequence of inputs. The codecs are the parameter of the formats.
\<close>

subsection \<open>State\<close>

type_synonym i64 = "64 word"

definition FETCH_TIMEOUT :: duration where "FETCH_TIMEOUT = duration_secs 5"
definition ECHO_WINDOW :: duration where "ECHO_WINDOW = duration_millis 500"
definition OWN_WRITES_KEPT :: nat where "OWN_WRITES_KEPT = 8"

datatype SyncInput =
    InitialFormatListRequested
  | RemoteFormatList "ClipFormat list"
  | RemoteData "u8 list option"
  | RemoteDataRequest u32
  | LocalChanged i64 ClipboardContents
  | LocalWritten i64
  | Focus bool
  | Prefs ClipboardPrefs
  | Tick

datatype SyncAction =
    SendFormatList "ClipFormat list"
  | RequestRemoteData ClipFormat
  | SendData u32 "(ClipError, u8 list) result"
  | WritePasteboard ClipboardContents
  | Rejected ClipError

record LocalSnapshot =
  ls_contents :: ClipboardContents
  ls_at :: instant

record RemoteFetch =
  rf_queue :: "(ClipFormat \<times> FormatKind) list"
  rf_items :: "ClipboardItem list"
  rf_announced :: instant

record Inflight =
  inf_kind :: FormatKind
  inf_since :: instant
  inf_stale :: bool

record ClipboardSync =
  cs_prefs :: ClipboardPrefs
  cs_focused :: bool
  cs_ready :: bool
  cs_local :: "LocalSnapshot option"
  cs_last_count :: "i64 option"
  cs_pending_local :: bool
  cs_advertised :: ClipboardContents
  cs_last_sent :: "(FormatKind option list \<times> instant) option"
  cs_own_writes :: "i64 list"
  cs_unacked_write :: "ClipboardContents option"
  cs_fetch :: "RemoteFetch option"
  cs_inflight :: "Inflight option"

definition ClipboardSync_new :: "ClipboardPrefs \<Rightarrow> bool \<Rightarrow> ClipboardSync" where
  "ClipboardSync_new prefs focused =
     \<lparr>cs_prefs = prefs, cs_focused = focused, cs_ready = False, cs_local = None, cs_last_count = None,
      cs_pending_local = False, cs_advertised = [], cs_last_sent = None, cs_own_writes = [],
      cs_unacked_write = None, cs_fetch = None, cs_inflight = None\<rparr>"

subsection \<open>Operations\<close>

definition sorted_kinds :: "ClipFormat list \<Rightarrow> FormatKind option list" where
  "sorted_kinds formats = sort (map cf_kind formats)"

definition can_sync :: "ClipboardSync \<Rightarrow> bool" where
  "can_sync cs = (cs_ready cs \<and> cs_focused cs \<and> cs_prefs cs \<noteq> Off)"

definition send_list :: "ClipFormat list \<Rightarrow> instant \<Rightarrow> ClipboardSync \<Rightarrow> SyncAction \<times> ClipboardSync" where
  "send_list formats now cs = (SendFormatList formats, cs\<lparr>cs_last_sent := Some (sorted_kinds formats, now)\<rparr>)"

definition supersede_fetch :: "ClipboardSync \<Rightarrow> ClipboardSync" where
  "supersede_fetch cs =
     cs\<lparr>cs_fetch := None, cs_inflight := map_option (\<lambda>i. i\<lparr>inf_stale := True\<rparr>) (cs_inflight cs)\<rparr>"

definition advertise_local :: "instant \<Rightarrow> ClipboardSync \<Rightarrow> SyncAction list \<times> ClipboardSync" where
  "advertise_local now cs =
     (let contents = (case cs_local cs of Some l \<Rightarrow> ls_contents l | None \<Rightarrow> []);
          (kept, rejected) = filter_local contents (cs_prefs cs);
          formats = outbound_formats kept (cs_prefs cs);
          cs = supersede_fetch (cs\<lparr>cs_advertised := kept, cs_pending_local := False\<rparr>);
          (a, cs) = send_list formats now cs
      in (map Rejected rejected @ [a], cs))"

definition on_initial_request :: "instant \<Rightarrow> ClipboardSync \<Rightarrow> SyncAction list \<times> ClipboardSync" where
  "on_initial_request now cs =
     (let cs = cs\<lparr>cs_ready := True\<rparr>
      in if can_sync cs \<and> cs_local cs \<noteq> None then advertise_local now cs
         else
           let cs = cs\<lparr>cs_pending_local := (cs_local cs \<noteq> None \<and> cs_prefs cs \<noteq> Off), cs_advertised := []\<rparr>;
               (a, cs) = send_list [] now cs
           in ([a], cs))"

definition on_local_change :: "i64 \<Rightarrow> ClipboardContents \<Rightarrow> instant \<Rightarrow> ClipboardSync \<Rightarrow> SyncAction list \<times> ClipboardSync" where
  "on_local_change change_count contents now cs =
     (if cs_last_count cs = Some change_count then ([], cs)
      else
        let own = (change_count \<in> set (cs_own_writes cs) \<or> cs_unacked_write cs = Some contents);
            cs = cs\<lparr>cs_last_count := Some change_count, cs_local := Some \<lparr>ls_contents = contents, ls_at = now\<rparr>\<rparr>
        in if own then ([], cs)
           else if cs_prefs cs = Off then ([], cs)
           else if \<not> can_sync cs then ([], cs\<lparr>cs_pending_local := True\<rparr>)
           else advertise_local now cs)"

definition on_prefs :: "ClipboardPrefs \<Rightarrow> instant \<Rightarrow> ClipboardSync \<Rightarrow> SyncAction list \<times> ClipboardSync" where
  "on_prefs prefs now cs =
     (if prefs = cs_prefs cs then ([], cs)
      else
        let cs = cs\<lparr>cs_prefs := prefs\<rparr>
        in if \<not> (cs_ready cs \<and> cs_focused cs) then ([], cs\<lparr>cs_pending_local := (cs_local cs \<noteq> None)\<rparr>)
           else if prefs = Off
           then let (a, cs) = send_list [] now ((supersede_fetch cs)\<lparr>cs_advertised := []\<rparr>) in ([a], cs)
           else if cs_local cs \<noteq> None then advertise_local now cs else ([], cs))"

text \<open>Issue the next queued request, or complete the fetch.\<close>

definition next_fetch_step :: "instant \<Rightarrow> ClipboardSync \<Rightarrow> SyncAction list \<times> ClipboardSync" where
  "next_fetch_step now cs =
     (case cs_fetch cs of
        None \<Rightarrow> ([], cs)
      | Some fetch \<Rightarrow>
          (case rf_queue fetch of
             (format, kind) # queue \<Rightarrow>
               ([RequestRemoteData format],
                cs\<lparr>cs_fetch := Some (fetch\<lparr>rf_queue := queue\<rparr>),
                   cs_inflight := Some \<lparr>inf_kind = kind, inf_since = now, inf_stale = False\<rparr>\<rparr>)
           | [] \<Rightarrow>
               let cs = cs\<lparr>cs_fetch := None\<rparr>;
                   local_newer = (case cs_local cs of Some l \<Rightarrow> rf_announced fetch < ls_at l | None \<Rightarrow> False)
               in if rf_items fetch = [] \<or> local_newer then ([], cs)
                  else ([WritePasteboard (rf_items fetch)], cs\<lparr>cs_unacked_write := Some (rf_items fetch)\<rparr>)))"

definition is_echo :: "ClipFormat list \<Rightarrow> instant \<Rightarrow> ClipboardSync \<Rightarrow> bool" where
  "is_echo formats now cs =
     (case cs_last_sent cs of
        None \<Rightarrow> False
      | Some (kinds, at_time) \<Rightarrow> duration_since now at_time \<le> ECHO_WINDOW \<and> kinds = sorted_kinds formats)"

definition on_remote_list :: "ClipFormat list \<Rightarrow> instant \<Rightarrow> ClipboardSync \<Rightarrow> SyncAction list \<times> ClipboardSync" where
  "on_remote_list formats now cs =
     (if \<not> can_sync cs then ([], cs)
      else if is_echo formats now cs then ([], cs)
      else
        let cs = supersede_fetch cs;
            queue = select_inbound formats (cs_prefs cs)
        in if queue = [] then ([], cs)
           else
             let cs = cs\<lparr>cs_fetch := Some \<lparr>rf_queue = queue, rf_items = [], rf_announced = now\<rparr>\<rparr>
             in if cs_inflight cs \<noteq> None then ([], cs) else next_fetch_step now cs)"

definition on_remote_data :: "image_env \<Rightarrow> u8 list option \<Rightarrow> instant \<Rightarrow> ClipboardSync \<Rightarrow> SyncAction list \<times> ClipboardSync" where
  "on_remote_data E data now cs =
     (case cs_inflight cs of
        None \<Rightarrow> ([], cs)
      | Some inflight \<Rightarrow>
          (let cs = cs\<lparr>cs_inflight := None\<rparr>;
               (actions, cs) =
                 (if inf_stale inflight then ([], cs)
                  else case and_then (ok_or data RemoteError) (decode_inbound E (inf_kind inflight)) of
                      Inr item \<Rightarrow> ([], cs\<lparr>cs_fetch := map_option (\<lambda>f. f\<lparr>rf_items := rf_items f @ [item]\<rparr>) (cs_fetch cs)\<rparr>)
                    | Inl e \<Rightarrow> ([Rejected e], cs));
               (actions', cs) = next_fetch_step now cs
           in (actions @ actions', cs)))"

definition on_data_request :: "image_env \<Rightarrow> u32 \<Rightarrow> ClipboardSync \<Rightarrow> SyncAction list" where
  "on_data_request E format_id cs = [SendData format_id (encode_outbound E format_id (cs_advertised cs) (cs_prefs cs))]"

definition timed_out :: "instant \<Rightarrow> ClipboardSync \<Rightarrow> bool" where
  "timed_out now cs =
     (case cs_inflight cs of None \<Rightarrow> False | Some i \<Rightarrow> FETCH_TIMEOUT \<le> duration_since now (inf_since i))"

fun handle :: "image_env \<Rightarrow> instant \<Rightarrow> SyncInput \<Rightarrow> ClipboardSync \<Rightarrow> SyncAction list \<times> ClipboardSync" where
  "handle E now InitialFormatListRequested cs = on_initial_request now cs"
| "handle E now (RemoteFormatList formats) cs = on_remote_list formats now cs"
| "handle E now (RemoteData data) cs = on_remote_data E data now cs"
| "handle E now (RemoteDataRequest i) cs = (on_data_request E i cs, cs)"
| "handle E now (LocalChanged n contents) cs = on_local_change n contents now cs"
| "handle E now (LocalWritten n) cs =
     (let own = cs_own_writes cs @ [n]
      in ([], cs\<lparr>cs_unacked_write := None, cs_own_writes := (if OWN_WRITES_KEPT < length own then tl own else own)\<rparr>))"
| "handle E now (Focus focused) cs =
     (let cs = cs\<lparr>cs_focused := focused\<rparr>
      in if focused \<and> cs_pending_local cs then advertise_local now cs else ([], cs))"
| "handle E now (Prefs prefs) cs = on_prefs prefs now cs"
| "handle E now Tick cs =
     ([], if timed_out now cs then cs\<lparr>cs_inflight := None, cs_fetch := None\<rparr> else cs)"

fun cs_run :: "image_env \<Rightarrow> (instant \<times> SyncInput) list \<Rightarrow> ClipboardSync \<Rightarrow> SyncAction list \<times> ClipboardSync" where
  "cs_run E [] cs = ([], cs)"
| "cs_run E ((now, i) # is) cs =
     (let (out, cs) = handle E now i cs; (out', cs) = cs_run E is cs in (out @ out', cs))"

subsection \<open>The pasteboard watcher\<close>

text \<open>A pasteboard is its change count and what it reads at each preference level.\<close>

record PasteboardPort =
  pb_change_count :: i64
  pb_read :: "ClipboardPrefs \<Rightarrow> ClipboardContents"

record LocalChange =
  lc_change_count :: i64
  lc_contents :: ClipboardContents

definition watcher_poll :: "PasteboardPort \<Rightarrow> ClipboardPrefs \<Rightarrow> i64 \<Rightarrow> LocalChange option \<times> i64" where
  "watcher_poll pb level last_seen =
     (let change_count = pb_change_count pb
      in if change_count = last_seen then (None, last_seen)
         else if level = Off then (None, change_count)
         else (Some \<lparr>lc_change_count = change_count, lc_contents = pb_read pb level\<rparr>, change_count))"

definition watcher_snapshot :: "PasteboardPort \<Rightarrow> ClipboardPrefs \<Rightarrow> LocalChange" where
  "watcher_snapshot pb level =
     \<lparr>lc_change_count = pb_change_count pb, lc_contents = (if level = Off then [] else pb_read pb level)\<rparr>"


subsection \<open>Requests in flight\<close>

fun is_request :: "SyncAction \<Rightarrow> bool" where
  "is_request (RequestRemoteData _) = True"
| "is_request _ = False"

definition requests :: "SyncAction list \<Rightarrow> nat" where
  "requests out = length (filter is_request out)"

lemma requests_simps [simp]:
  "requests [] = 0" "requests (a # out) = of_bool (is_request a) + requests out"
  "requests (out @ out') = requests out + requests out'" "requests (map Rejected es) = 0"
  by (induction es) (simp_all add: requests_def)

definition outstanding :: "ClipboardSync \<Rightarrow> nat" where
  "outstanding cs = of_bool (cs_inflight cs \<noteq> None)"

text \<open>The inputs that may end a request: a response, or a tick after the timeout.\<close>

definition answers :: "instant \<Rightarrow> SyncInput \<Rightarrow> ClipboardSync \<Rightarrow> nat" where
  "answers now i cs =
     (case i of RemoteData _ \<Rightarrow> of_bool (cs_inflight cs \<noteq> None) | Tick \<Rightarrow> of_bool (timed_out now cs) | _ \<Rightarrow> 0)"

lemma send_list_frame [simp]:
  "cs_inflight (snd (send_list fs now cs)) = cs_inflight cs" "cs_fetch (snd (send_list fs now cs)) = cs_fetch cs"
  "cs_prefs (snd (send_list fs now cs)) = cs_prefs cs" "cs_local (snd (send_list fs now cs)) = cs_local cs"
  "cs_unacked_write (snd (send_list fs now cs)) = cs_unacked_write cs" "cs_advertised (snd (send_list fs now cs)) = cs_advertised cs"
  "cs_own_writes (snd (send_list fs now cs)) = cs_own_writes cs" "cs_ready (snd (send_list fs now cs)) = cs_ready cs"
  "cs_focused (snd (send_list fs now cs)) = cs_focused cs" "fst (send_list fs now cs) = SendFormatList fs"
  by (simp_all add: send_list_def)

lemma supersede_frame [simp]:
  "cs_fetch (supersede_fetch cs) = None" "cs_inflight (supersede_fetch cs) = map_option (\<lambda>i. i\<lparr>inf_stale := True\<rparr>) (cs_inflight cs)"
  "cs_prefs (supersede_fetch cs) = cs_prefs cs" "cs_local (supersede_fetch cs) = cs_local cs"
  "cs_unacked_write (supersede_fetch cs) = cs_unacked_write cs" "cs_advertised (supersede_fetch cs) = cs_advertised cs"
  "cs_own_writes (supersede_fetch cs) = cs_own_writes cs" "cs_ready (supersede_fetch cs) = cs_ready cs"
  "cs_focused (supersede_fetch cs) = cs_focused cs"
  by (simp_all add: supersede_fetch_def)

lemma advertise_local_frame [simp]:
  "cs_fetch (snd (advertise_local now cs)) = None" "cs_inflight (snd (advertise_local now cs)) = map_option (\<lambda>i. i\<lparr>inf_stale := True\<rparr>) (cs_inflight cs)"
  "cs_prefs (snd (advertise_local now cs)) = cs_prefs cs" "cs_local (snd (advertise_local now cs)) = cs_local cs"
  "cs_unacked_write (snd (advertise_local now cs)) = cs_unacked_write cs" "cs_ready (snd (advertise_local now cs)) = cs_ready cs"
  "cs_focused (snd (advertise_local now cs)) = cs_focused cs" "cs_own_writes (snd (advertise_local now cs)) = cs_own_writes cs"
  "requests (fst (advertise_local now cs)) = 0"
  by (simp_all add: advertise_local_def Let_def case_prod_unfold)

lemma advertise_local_out:
  "\<exists>es. fst (advertise_local now cs) = map Rejected es @
     [SendFormatList (outbound_formats (cs_advertised (snd (advertise_local now cs))) (cs_prefs cs))]"
  by (auto simp: advertise_local_def Let_def case_prod_unfold)

lemma next_fetch_requests:
  "requests (fst (next_fetch_step now cs)) + of_bool (cs_inflight cs \<noteq> None) \<le>
     outstanding (snd (next_fetch_step now cs)) + of_bool (cs_inflight cs \<noteq> None)"
  "cs_inflight cs = None \<Longrightarrow> requests (fst (next_fetch_step now cs)) = outstanding (snd (next_fetch_step now cs))"
  by (auto simp: next_fetch_step_def outstanding_def Let_def split: option.splits list.splits)

lemma on_remote_data_requests:
  "requests (fst (on_remote_data E data now cs)) + outstanding cs =
     outstanding (snd (on_remote_data E data now cs)) + of_bool (cs_inflight cs \<noteq> None)"
proof (cases "cs_inflight cs")
  case (Some inflight)
  then obtain acts cs1 where "on_remote_data E data now cs = (acts @ fst (next_fetch_step now cs1), snd (next_fetch_step now cs1))"
    "requests acts = 0" "cs_inflight cs1 = None"
    by (auto simp: on_remote_data_def Let_def case_prod_unfold split: sum.splits)
  with Some show ?thesis using next_fetch_requests(2) [of cs1 now] by (simp add: outstanding_def)
qed (simp add: on_remote_data_def outstanding_def)

lemma handle_requests:
  "requests (fst (handle E now i cs)) + outstanding cs = outstanding (snd (handle E now i cs)) + answers now i cs"
proof (cases i)
  case (RemoteData d)
  then show ?thesis using on_remote_data_requests [of E d now cs] by (simp add: answers_def)
next
  case (RemoteFormatList fs)
  then show ?thesis using next_fetch_requests(2)
    by (auto simp: answers_def on_remote_list_def outstanding_def Let_def)
qed (auto simp: answers_def outstanding_def on_initial_request_def on_local_change_def on_prefs_def on_data_request_def
      timed_out_def Let_def case_prod_unfold split: option.splits)

fun run_answers :: "image_env \<Rightarrow> (instant \<times> SyncInput) list \<Rightarrow> ClipboardSync \<Rightarrow> nat" where
  "run_answers E [] cs = 0"
| "run_answers E ((now, i) # is) cs = answers now i cs + run_answers E is (snd (handle E now i cs))"

lemma run_requests:
  "requests (fst (cs_run E is cs)) + outstanding cs = outstanding (snd (cs_run E is cs)) + run_answers E is cs"
proof (induction "is" arbitrary: cs)
  case (Cons e es)
  obtain now i where e: "e = (now, i)" by fastforce
  show ?case using handle_requests [of E now i cs] Cons [of "snd (handle E now i cs)"]
    by (simp add: e Let_def case_prod_unfold)
qed simp

subsection \<open>Invariant\<close>

text \<open>A fetch always waits for a response in flight, so it ends with it or with the timeout.\<close>

definition cs_inv :: "ClipboardSync \<Rightarrow> bool" where
  "cs_inv cs \<longleftrightarrow>
     (cs_fetch cs \<noteq> None \<longrightarrow> cs_inflight cs \<noteq> None) \<and>
     (\<exists>c. cs_advertised cs = c \<and> (\<forall>i \<in> set c. item_size i \<le> MAX_CLIPBOARD_BYTES)) \<and>
     length (cs_own_writes cs) \<le> OWN_WRITES_KEPT"

lemma cs_inv_new: "cs_inv (ClipboardSync_new prefs focused)"
  by (simp add: cs_inv_def ClipboardSync_new_def)

lemma next_fetch_keeps:
  "cs_advertised (snd (next_fetch_step now cs)) = cs_advertised cs"
  "cs_own_writes (snd (next_fetch_step now cs)) = cs_own_writes cs"
  "cs_prefs (snd (next_fetch_step now cs)) = cs_prefs cs"
  "cs_local (snd (next_fetch_step now cs)) = cs_local cs"
  "cs_fetch (snd (next_fetch_step now cs)) \<noteq> None \<Longrightarrow> cs_inflight (snd (next_fetch_step now cs)) \<noteq> None"
  by (auto simp: next_fetch_step_def Let_def split: option.splits list.splits if_splits)

lemma advertised_bounded: "\<forall>i \<in> set (cs_advertised (snd (advertise_local now cs))). item_size i \<le> MAX_CLIPBOARD_BYTES"
proof -
  have "cs_advertised (snd (advertise_local now cs)) = fst (filter_local (case cs_local cs of Some l \<Rightarrow> ls_contents l | None \<Rightarrow> []) (cs_prefs cs))"
    by (simp add: advertise_local_def Let_def case_prod_unfold send_list_def supersede_fetch_def)
  then show ?thesis by (simp add: filter_local_spec)
qed

lemma on_remote_data_cases:
  assumes "cs_inflight cs = Some inflight"
  obtains acts cs1 where "on_remote_data E data now cs = (acts @ fst (next_fetch_step now cs1), snd (next_fetch_step now cs1))"
    "list_all (\<lambda>a. \<exists>e. a = Rejected e) acts" "cs_inflight cs1 = None" "cs_advertised cs1 = cs_advertised cs" "cs_own_writes cs1 = cs_own_writes cs"
    "cs_prefs cs1 = cs_prefs cs" "cs_local cs1 = cs_local cs"
proof (cases "inf_stale inflight")
  case True
  show ?thesis by (rule that [of "[]" "cs\<lparr>cs_inflight := None\<rparr>"]) (simp_all add: on_remote_data_def Let_def case_prod_unfold assms True)
next
  case False
  show ?thesis
  proof (cases "and_then (ok_or data RemoteError) (decode_inbound E (inf_kind inflight))")
    case (Inl e)
    show ?thesis
      by (rule that [of "[Rejected e]" "cs\<lparr>cs_inflight := None\<rparr>"])
        (simp_all add: on_remote_data_def Let_def case_prod_unfold assms False Inl)
  next
    case (Inr item)
    show ?thesis
      by (rule that [of "[]" "cs\<lparr>cs_inflight := None,
            cs_fetch := map_option (\<lambda>f. f\<lparr>rf_items := rf_items f @ [item]\<rparr>) (cs_fetch cs)\<rparr>"])
        (simp_all add: on_remote_data_def Let_def case_prod_unfold assms False Inr)
  qed
qed

lemma cs_inv_handle: "cs_inv cs \<Longrightarrow> cs_inv (snd (handle E now i cs))"
proof (cases i)
  case (RemoteData d)
  assume inv: "cs_inv cs"
  show ?thesis
  proof (cases "cs_inflight cs")
    case (Some inflight)
    then show ?thesis
      by (rule on_remote_data_cases [where E = E and data = d and now = now])
        (use inv next_fetch_keeps in \<open>auto simp: RemoteData cs_inv_def\<close>)
  qed (use inv in \<open>simp add: RemoteData on_remote_data_def\<close>)
next
  case (RemoteFormatList fs)
  assume inv: "cs_inv cs"
  with RemoteFormatList next_fetch_keeps show ?thesis
    by (auto simp: on_remote_list_def cs_inv_def Let_def)
next
  case (LocalWritten n)
  assume inv: "cs_inv cs"
  with LocalWritten show ?thesis
    by (auto simp: cs_inv_def Let_def OWN_WRITES_KEPT_def)
qed (use advertised_bounded [of now] in \<open>auto simp: cs_inv_def on_initial_request_def on_local_change_def on_prefs_def
      Let_def case_prod_unfold\<close>)

lemma cs_inv_run: "cs_inv cs \<Longrightarrow> cs_inv (snd (cs_run E is cs))"
proof (induction "is" arbitrary: cs)
  case (Cons e es)
  then show ?case by (cases e) (simp add: Let_def case_prod_unfold cs_inv_handle)
qed simp


subsection \<open>Ages of requests\<close>

definition sent_by :: "instant \<Rightarrow> ClipboardSync \<Rightarrow> bool" where
  "sent_by t cs \<longleftrightarrow> (\<forall>i. cs_inflight cs = Some i \<longrightarrow> inf_since i \<le> t)"

lemma next_fetch_sent: "sent_by t cs \<Longrightarrow> now \<le> t \<Longrightarrow> sent_by t (snd (next_fetch_step now cs))"
  by (auto simp: sent_by_def next_fetch_step_def Let_def split: option.splits list.splits)

lemma advertise_sent [simp]: "sent_by t (snd (advertise_local now cs)) \<longleftrightarrow> sent_by t cs"
  by (auto simp: sent_by_def)

lemma handle_sent: "sent_by t cs \<Longrightarrow> now \<le> t \<Longrightarrow> sent_by t (snd (handle E now i cs))"
proof (cases i)
  case (RemoteData d)
  assume t: "sent_by t cs" "now \<le> t"
  show ?thesis
  proof (cases "cs_inflight cs")
    case (Some inflight)
    then show ?thesis
    proof (rule on_remote_data_cases [where E = E and data = d and now = now], goal_cases)
      case (1 acts cs1)
      then show ?case using next_fetch_sent [of t cs1 now] t by (simp add: RemoteData sent_by_def)
    qed
  qed (use t in \<open>simp add: RemoteData on_remote_data_def\<close>)
next
  case (RemoteFormatList fs)
  assume t: "sent_by t cs" "now \<le> t"
  let ?cs = "(supersede_fetch cs)\<lparr>cs_fetch :=
      Some \<lparr>rf_queue = select_inbound fs (cs_prefs cs), rf_items = [], rf_announced = now\<rparr>\<rparr>"
  have "sent_by t (supersede_fetch cs)" "sent_by t ?cs" using t(1) by (auto simp: sent_by_def)
  moreover from this(2) have "sent_by t (snd (next_fetch_step now ?cs))" using t(2) by (rule next_fetch_sent)
  ultimately show ?thesis using t(1) by (simp add: RemoteFormatList on_remote_list_def Let_def)
qed (auto simp: sent_by_def on_initial_request_def on_local_change_def on_prefs_def Let_def case_prod_unfold)

lemma run_sent:
  "sent_by t cs \<Longrightarrow> \<forall>(now, i) \<in> set is. now \<le> t \<Longrightarrow> sent_by t (snd (cs_run E is cs))"
proof (induction "is" arbitrary: cs)
  case (Cons e es)
  obtain now i where "e = (now, i)" by fastforce
  with Cons show ?case by (simp add: Let_def case_prod_unfold handle_sent)
qed simp

subsection \<open>Actions\<close>

lemma advertise_actions:
  "a \<in> set (fst (advertise_local now cs)) \<Longrightarrow>
     (\<exists>e. a = Rejected e) \<or> (\<exists>contents. a = SendFormatList (outbound_formats contents (cs_prefs cs)))"
  by (auto simp: advertise_local_def Let_def case_prod_unfold)

text \<open>What the handler of the remote's list and of a response may do.\<close>

lemma next_fetch_actions:
  assumes "a \<in> set (fst (next_fetch_step now cs))"
  obtains f k q where "a = RequestRemoteData f" "cs_fetch cs = Some q" "(f, k) \<in> set (rf_queue q)"
  | q where "a = WritePasteboard (rf_items q)" "cs_fetch cs = Some q" "rf_queue q = []" "rf_items q \<noteq> []"
      "\<forall>l. cs_local cs = Some l \<longrightarrow> ls_at l \<le> rf_announced q"
  using assms
  by (fastforce simp: next_fetch_step_def Let_def split: option.splits list.splits if_splits)

lemma on_remote_list_actions:
  assumes "a \<in> set (fst (on_remote_list formats now cs))"
  obtains f k where "a = RequestRemoteData f" "f \<in> set formats" "cf_kind f = Some k" "allowed_by k (cs_prefs cs)"
proof -
  let ?cs = "(supersede_fetch cs)\<lparr>cs_fetch := Some \<lparr>rf_queue = select_inbound formats (cs_prefs cs), rf_items = [],
      rf_announced = now\<rparr>\<rparr>"
  from assms have a: "a \<in> set (fst (next_fetch_step now ?cs))" and q: "select_inbound formats (cs_prefs cs) \<noteq> []"
    by (auto simp: on_remote_list_def Let_def split: if_splits)
  from a show thesis
  proof (rule next_fetch_actions)
    fix f k q assume "a = RequestRemoteData f" "cs_fetch ?cs = Some q" "(f, k) \<in> set (rf_queue q)"
    then show thesis using select_inbound_sound [of f k formats "cs_prefs cs"] by (auto intro: that)
  qed (use q in auto)
qed

lemma on_remote_list_prefs [simp]: "cs_prefs (snd (on_remote_list formats now cs)) = cs_prefs cs"
  by (simp add: on_remote_list_def Let_def next_fetch_keeps)

end
