(* ===== verification/Clip_Theorems.thy ===== *)
theory Clip_Theorems
  imports Clip_Sync
begin

text \<open>
  The properties of \<open>drift-clipboard\<close>: the protocol's requests and answers, which contents cross
  between the machines, and the conversions of text and images.
\<close>

text \<open>The witnesses use an image library that accepts one pixel.\<close>

definition demo_image :: RgbaImage where
  "demo_image = \<lparr>ri_width = 1, ri_height = 1, ri_pixel = (\<lambda>_ _. (1, 2, 3, 4))\<rparr>"

definition demo_images :: image_env where
  "demo_images =
     \<lparr>ie_bmp_decode = \<lambda>_. Inr \<lparr>bi_width = 1, bi_height = 1, bi_color = Rgba8, bi_pixels = [1, 2, 3, 4]\<rparr>,
      ie_to_rgba = \<lambda>_ _ _ _. Some demo_image, ie_png_encode = \<lambda>_. Inr PNG_SIGNATURE, ie_png_decode = \<lambda>_. Inr demo_image\<rparr>"

definition demo_fetching :: ClipboardSync where
  "demo_fetching = (ClipboardSync_new Text True)\<lparr>cs_ready := True,
     cs_fetch := Some \<lparr>rf_queue = [], rf_items = [], rf_announced = 1\<rparr>,
     cs_inflight := Some \<lparr>inf_kind = UnicodeText, inf_since = 1, inf_stale = False\<rparr>\<rparr>"

subsection \<open>Requests\<close>


text \<open>C29: A fetch always ends: whatever happened before, a tick five seconds after the last input leaves
  no fetch and no request in flight, so the next format list of the remote is requested at once.
\<close>

theorem fetch_always_ends:
  assumes "\<forall>(t, i) \<in> set is. t \<le> latest" and "latest + FETCH_TIMEOUT \<le> now"
  shows "cs_fetch (snd (cs_run E (is @ [(now, Tick)]) (ClipboardSync_new prefs focused))) = None \<and>
    cs_inflight (snd (cs_run E (is @ [(now, Tick)]) (ClipboardSync_new prefs focused))) = None"
proof -
  let ?new = "ClipboardSync_new prefs focused" and ?cs = "snd (cs_run E is (ClipboardSync_new prefs focused))"
  have "snd (cs_run E (is @ es) cs) = snd (cs_run E es (snd (cs_run E is cs)))" for es cs
    by (induction "is" arbitrary: cs) (auto simp: Let_def case_prod_unfold)
  then have run: "snd (cs_run E (is @ [(now, Tick)]) ?new) = snd (handle E now Tick ?cs)"
    by (simp add: Let_def case_prod_unfold)
  have "sent_by latest ?cs"
    using assms(1) by (intro run_sent) (auto simp: sent_by_def ClipboardSync_new_def)
  with assms(2) have "cs_inflight ?cs \<noteq> None \<Longrightarrow> timed_out now ?cs"
    by (auto simp: sent_by_def timed_out_def duration_since_def)
  moreover have "cs_fetch ?cs \<noteq> None \<longrightarrow> cs_inflight ?cs \<noteq> None"
    using cs_inv_run [OF cs_inv_new] by (auto simp: cs_inv_def)
  ultimately show ?thesis unfolding run by auto
qed

lemma fetch_always_ends_witness:
  "cs_fetch (snd (cs_run demo_images
     ([(1, Focus True)] @ [(1 + FETCH_TIMEOUT, Tick)]) (ClipboardSync_new Text True))) = None"
  by (rule fetch_always_ends [of _ 1, THEN conjunct1]) simp_all

subsection \<open>What crosses\<close>



text \<open>What a preference lets out: formats and data; and in: requests.\<close>

fun action_ok :: "ClipboardPrefs \<Rightarrow> SyncAction \<Rightarrow> bool" where
  "action_ok prefs (SendFormatList fs) = list_all (\<lambda>f. case cf_kind f of None \<Rightarrow> False | Some k \<Rightarrow> allowed_by k prefs) fs"
| "action_ok prefs (SendData i (Inr data)) =
     (prefs \<noteq> Off \<and> (i = CF_UNICODETEXT \<or> prefs = TextAndImages) \<and> length data \<le> MAX_CLIPBOARD_BYTES)"
| "action_ok prefs _ = True"

lemma outbound_ok [simp]: "action_ok prefs (SendFormatList (outbound_formats contents prefs))"
  using outbound_formats_allowed [of _ contents prefs] by (fastforce simp: list_all_iff)

lemmas outbound_list_ok [simp] = outbound_ok [unfolded action_ok.simps]




text \<open>The channel's initial request is always answered, focused or not, whatever the preference: its
  actions are refusals of oversized items and then exactly one format list, and the channel is ready.
\<close>

theorem initial_request_answered:
  "\<exists>es fs. fst (handle E now InitialFormatListRequested cs) = map Rejected es @ [SendFormatList fs] \<and>
     cs_ready (snd (handle E now InitialFormatListRequested cs))"
proof (cases "can_sync (cs\<lparr>cs_ready := True\<rparr>) \<and> cs_local cs \<noteq> None")
  case True
  then show ?thesis using advertise_local_out [of now "cs\<lparr>cs_ready := True\<rparr>"]
    by (auto simp: on_initial_request_def)
next
  case False
  then show ?thesis by (auto simp: on_initial_request_def Let_def case_prod_unfold intro: exI [of _ "[]"])
qed

subsection \<open>Conversions\<close>



text \<open>An image served as a bitmap is the decoded image: forty bytes of header and four per pixel, the
  pixel at column x and row y from the top stored blue, green, red, alpha with the last row first.
\<close>

theorem dib_pixels:
  assumes "png_to_dib E png = Inr d" and "ie_png_decode E png = Inr img"
    and "x < unat (ri_width img)" and "y < unat (ri_height img)" and "ri_pixel img x y = (r, g, b, a)"
  shows "length d = 40 + 4 * unat (ri_width img) * unat (ri_height img) \<and>
    take 4 (drop (40 + 4 * ((unat (ri_height img) - 1 - y) * unat (ri_width img) + x)) d) = [b, g, r, a]"
  using png_to_dib_pixels [OF assms(1,2)] assms(3-5) by simp

lemma dib_pixels_witness:
  "take 4 (drop 40 (dib_header 1 1 4 @ [3, 2, 1, 4])) = [3, 2, 1, 4]"
  using dib_pixels [of demo_images PNG_SIGNATURE "dib_header 1 1 4 @ [3, 2, 1, 4]" demo_image 0 0 1 2 3 4]
  by (simp add: png_to_dib_def png_passthrough_def PNG_SIGNATURE_def demo_images_def demo_image_def check_size_def
      MAX_CLIPBOARD_BYTES_def clip_invalid_def i32_try_from_def dib_row_def)

subsection \<open>Writes that are never acknowledged\<close>

text \<open>
  The session actor never reports its own writes (\<open>LocalWritten\<close>), so the contents it wrote last are
  taken for an echo for the rest of the leg: copying them again, even after other contents were
  copied in between, is not advertised.
\<close>

lemma rewritten_contents_swallowed:
  assumes "cs_unacked_write cs = Some w" and "cs_last_count cs2 \<noteq> Some n"
    and "cs2 = snd (handle E t (LocalChanged m other) cs)"
  shows "fst (handle E t' (LocalChanged n w) cs2) = [] \<and> cs_advertised (snd (handle E t' (LocalChanged n w) cs2)) = cs_advertised cs2"
proof -
  have "cs_unacked_write cs2 = Some w"
    using assms(1,3) by (simp add: on_local_change_def Let_def)
  then show ?thesis by (simp add: on_local_change_def Let_def)
qed


text \<open>
  A response that arrives after its request timed out is taken for the answer of the next request: the
  text of the first fetch is written as the contents of the second.
\<close>

lemma late_response_misattributed:
  "let unicode = cf_standard CF_UNICODETEXT; t = 1 + FETCH_TIMEOUT
   in fst (cs_run demo_images
        [(1, InitialFormatListRequested), (1 + ECHO_WINDOW, RemoteFormatList [unicode]), (t + ECHO_WINDOW, Tick),
         (t + ECHO_WINDOW, RemoteFormatList [unicode]), (t + ECHO_WINDOW, RemoteData (Some [97, 0, 0, 0]))]
        (ClipboardSync_new Text True)) =
      [SendFormatList [], RequestRemoteData unicode, RequestRemoteData unicode, WritePasteboard [ItemText [97]]]"
  by (simp add: ClipboardSync_new_def on_initial_request_def send_list_def on_remote_list_def can_sync_def is_echo_def
      sorted_kinds_def supersede_fetch_def select_inbound_def PREFERENCE_def is_image_def cf_kind_def cf_standard_def cf_defs
      next_fetch_step_def timed_out_def duration_since_def FETCH_TIMEOUT_def ECHO_WINDOW_def duration_secs_def duration_millis_def
      on_remote_data_def decode_inbound_def decode_unicode_text_def ok_or_def check_size_def MAX_CLIPBOARD_BYTES_def is_high_def is_low_def Let_def)


text \<open>Turning the clipboard off while the window is not focused leaves a fetch running, and it writes.\<close>

lemma off_while_unfocused_writes:
  "let cs = snd (handle demo_images 2 (Prefs Off) (demo_fetching\<lparr>cs_focused := False\<rparr>))
   in cs_prefs cs = Off \<and> WritePasteboard [ItemText [97]] \<in> set (fst (handle demo_images 3 (RemoteData (Some [97, 0, 0, 0])) cs))"
  by (simp add: demo_fetching_def ClipboardSync_new_def on_prefs_def on_remote_data_def decode_inbound_def decode_unicode_text_def
      is_high_def is_low_def ok_or_def check_size_def MAX_CLIPBOARD_BYTES_def next_fetch_step_def)

end
