(* ===== verification/Rdp_Redirect.thy ===== *)
theory Rdp_Redirect
  imports Core_Profile Core_State Rust_Utf "HOL-Library.Sublist"
begin

text \<open>
  \<open>crates/drift-rdp/src/redirect.rs\<close> and \<open>rdstls.rs\<close>: the legs of a connection. The container of the
  redirect target's certificate is decoded by the protocol library: \<open>decode\<close> is
  \<open>decode_target_certificate\<close> with its error text, \<open>der\<close> the certificate a container holds.
\<close>

record ServerRedirectionPdu =
  target_net_address :: "rstr option"
  load_balance_info :: "u8 list option"
  rp_username :: "rstr option"
  rp_domain :: "rstr option"
  rp_password :: "u8 list option"
  redirection_guid :: "u8 list option"
  target_certificate :: "u8 list option"

record 'c redirect_env =
  re_decode :: "u8 list \<Rightarrow> (rstr, 'c) result"
  re_der :: "'c \<Rightarrow> u8 list option"

record OneTimeCredentials =
  oc_guid :: "u8 list"
  oc_username :: rstr
  oc_domain :: rstr
  oc_password :: "u8 list"

definition from_redirection :: "ServerRedirectionPdu \<Rightarrow> OneTimeCredentials option" where
  "from_redirection pdu =
     (case (redirection_guid pdu, rp_username pdu, rp_password pdu) of
        (Some guid, Some user, Some password) \<Rightarrow>
          Some \<lparr>oc_guid = guid, oc_username = user,
            oc_domain = (case rp_domain pdu of None \<Rightarrow> [] | Some d \<Rightarrow> d), oc_password = password\<rparr>
      | _ \<Rightarrow> None)"

record NextLeg =
  nl_leg :: u8
  nl_host :: rstr
  nl_port :: u16
  nl_routing_token :: "rstr option"
  nl_credentials :: OneTimeCredentials
  nl_target_certificate :: "u8 list option"

record RedirectLoop =
  rl_mode :: ConnectMode
  rl_host :: rstr
  rl_port :: u16
  rl_leg :: u8

definition RedirectLoop_new :: "ConnectMode \<Rightarrow> rstr \<Rightarrow> u16 \<Rightarrow> RedirectLoop" where
  "RedirectLoop_new m h p = \<lparr>rl_mode = m, rl_host = h, rl_port = p, rl_leg = 1\<rparr>"

definition rl_on_activated :: "RedirectLoop \<Rightarrow> DesktopSize \<Rightarrow> u32 \<Rightarrow> SessionState option" where
  "rl_on_activated rl desktop scale =
     (if rl_mode rl = RemoteLogin \<and> rl_leg rl = 1 then None
      else if rl_mode rl = RemoteLogin \<and> rl_leg rl = 2 then Some AwaitingGreeterLogin
      else Some (Connected desktop scale))"

definition trim_end_matches :: "rchar set \<Rightarrow> rstr \<Rightarrow> rstr" where
  "trim_end_matches cs s = rev (dropWhile (\<lambda>c. c \<in> cs) (rev s))"

text \<open>The token goes on the wire verbatim, followed by CRLF.\<close>

definition routing_token :: "u8 list \<Rightarrow> rstr option" where
  "routing_token info =
     (case from_utf8 info of
        None \<Rightarrow> None
      | Some text \<Rightarrow>
          (let token = trim_end_matches {13, 10, 0} text
           in if token \<noteq> [] \<and> list_all (\<lambda>b. is_ascii_graphic b \<or> b = 32) (str_bytes token) then Some token else None))"

definition decode_target_certificate :: "'c redirect_env \<Rightarrow> ServerRedirectionPdu \<Rightarrow> (rstr, 'c option) result" where
  "decode_target_certificate E pdu =
     (case target_certificate pdu of
        None \<Rightarrow> Inr None
      | Some bytes \<Rightarrow> (case re_decode E bytes of Inl e \<Rightarrow> Inl e | Inr c \<Rightarrow> Inr (Some c)))"

definition next_leg ::
    "'c redirect_env \<Rightarrow> ServerRedirectionPdu \<Rightarrow> RedirectLoop \<Rightarrow> (DisconnectReason, NextLeg) result \<times> RedirectLoop" where
  "next_leg E pdu rl =
     (if MAX_REDIRECTS \<le> rl_leg rl - 1 then (Inl RedirectLoopReason, rl)
      else case from_redirection pdu of
        None \<Rightarrow> (Inl (ProtocolError (lit ''Server Redirection PDU without one-time credentials'')), rl)
      | Some credentials \<Rightarrow>
          (case decode_target_certificate E pdu of
             Inl e \<Rightarrow> (Inl (ProtocolError (lit ''malformed redirect target certificate: '' @ e)), rl)
           | Inr container \<Rightarrow>
               (let rl = (case map_option (trim_end_matches {0}) (target_net_address pdu) of
                        Some address \<Rightarrow> if address \<noteq> [] then rl\<lparr>rl_host := address\<rparr> else rl
                      | None \<Rightarrow> rl);
                    rl = rl\<lparr>rl_leg := rl_leg rl + 1\<rparr>
                in (Inr \<lparr>nl_leg = rl_leg rl, nl_host = rl_host rl, nl_port = rl_port rl,
                      nl_routing_token = Option.bind (load_balance_info pdu) routing_token,
                      nl_credentials = credentials,
                      nl_target_certificate = Option.bind container (re_der E)\<rparr>, rl))))"

text \<open>\<open>zeroize\<close> on an optional field leaves \<open>None\<close>.\<close>

definition zeroize_pdu :: "ServerRedirectionPdu \<Rightarrow> ServerRedirectionPdu" where
  "zeroize_pdu pdu = pdu\<lparr>rp_password := None, rp_username := None, redirection_guid := None, rp_domain := None\<rparr>"

definition on_redirect ::
    "'c redirect_env \<Rightarrow> ServerRedirectionPdu \<Rightarrow> RedirectLoop \<Rightarrow>
       (DisconnectReason, NextLeg) result \<times> ServerRedirectionPdu \<times> RedirectLoop" where
  "on_redirect E pdu rl = (let (r, rl) = next_leg E pdu rl in (r, zeroize_pdu pdu, rl))"

definition verify_target_certificate :: "u8 list \<Rightarrow> u8 list \<Rightarrow> (DisconnectReason, unit) result" where
  "verify_target_certificate expected leaf = (if expected = leaf then Inr () else Inl CertMismatch)"

subsection \<open>Legs\<close>

definition rl_wf :: "RedirectLoop \<Rightarrow> bool" where
  "rl_wf rl \<longleftrightarrow> 1 \<le> rl_leg rl \<and> rl_leg rl \<le> MAX_LEG"

lemma rl_wf_new: "rl_wf (RedirectLoop_new m h p)"
  by (simp add: rl_wf_def RedirectLoop_new_def MAX_LEG_def MAX_REDIRECTS_def)

lemma leg_unat: "rl_wf rl \<longleftrightarrow> 1 \<le> unat (rl_leg rl) \<and> unat (rl_leg rl) \<le> 5"
  by (simp add: rl_wf_def MAX_LEG_def MAX_REDIRECTS_def word_le_nat_alt)

lemma redirects_so_far: "rl_wf rl \<Longrightarrow> MAX_REDIRECTS \<le> rl_leg rl - 1 \<longleftrightarrow> unat (rl_leg rl) = 5"
  by (simp add: leg_unat MAX_REDIRECTS_def word_le_nat_alt unat_sub) linarith

text \<open>A followed redirection advances the leg by one, and the leg never passes the limit.\<close>

lemma next_leg_Inr:
  assumes "next_leg E pdu rl = (Inr n, rl')" and "rl_wf rl"
  shows "rl_wf rl'" and "unat (rl_leg rl') = Suc (unat (rl_leg rl))" and "nl_leg n = rl_leg rl'"
    and "nl_host n = rl_host rl'" and "rl_port rl' = rl_port rl" and "nl_port n = rl_port rl" and "rl_mode rl' = rl_mode rl"
    and "2 \<le> nl_leg n"
proof -
  have ne: "unat (rl_leg rl) \<noteq> 5" "1 \<le> unat (rl_leg rl)" "unat (rl_leg rl) \<le> 5"
    using assms redirects_so_far [of rl] by (auto simp: next_leg_def leg_unat)
  have rl': "rl_leg rl' = rl_leg rl + 1" "rl_port rl' = rl_port rl" "rl_mode rl' = rl_mode rl"
    and n: "nl_leg n = rl_leg rl'" "nl_host n = rl_host rl'" "nl_port n = rl_port rl"
    using assms(1) by (auto simp: next_leg_def Let_def split: if_splits option.splits sum.splits)
  have "unat (rl_leg rl + 1) = unat (rl_leg rl) + 1"
    using ne by (subst unat_add_no_wrap) simp_all
  then show leg: "unat (rl_leg rl') = Suc (unat (rl_leg rl))" using rl' by simp
  with ne show "rl_wf rl'" by (simp add: leg_unat)
  from leg ne n show "2 \<le> nl_leg n" by (simp add: word_le_nat_alt)
  show "nl_leg n = rl_leg rl'" "nl_host n = rl_host rl'" "rl_port rl' = rl_port rl" "nl_port n = rl_port rl"
    "rl_mode rl' = rl_mode rl" using rl' n by simp_all
qed

lemma next_leg_Inl: "next_leg E pdu rl = (Inl e, rl') \<Longrightarrow> rl' = rl"
  by (auto simp: next_leg_def Let_def split: if_splits option.splits sum.splits)

lemma next_leg_error:
  assumes "next_leg E pdu rl = (Inl e, rl')"
  shows "e = RedirectLoopReason \<or> (\<exists>s. e = ProtocolError s)"
  using assms by (auto simp: next_leg_def Let_def split: if_splits option.splits sum.splits)

lemma on_redirect_clears: "from_redirection (fst (snd (on_redirect E pdu rl))) = None"
  by (simp add: on_redirect_def zeroize_pdu_def from_redirection_def split: prod.split)

subsection \<open>The routing token\<close>

lemma trim_end_matches_prefix: "\<exists>t. s = trim_end_matches cs s @ t \<and> set t \<subseteq> cs"
proof -
  let ?t = "rev (takeWhile (\<lambda>c. c \<in> cs) (rev s))"
  have "s = trim_end_matches cs s @ ?t"
    by (metis rev_append rev_rev_ident takeWhile_dropWhile_id trim_end_matches_def)
  moreover have "set ?t \<subseteq> cs" by (auto dest: set_takeWhileD)
  ultimately show ?thesis by blast
qed

text \<open>
  A token is a non-empty prefix of the text and consists of printable ASCII and spaces: it cannot
  carry a line break of its own into the connection request.
\<close>

lemma routing_token_safe:
  assumes "routing_token info = Some token"
  shows "token \<noteq> []" and "\<forall>c \<in> set token. 32 \<le> c \<and> c \<le> 126" and "\<exists>text. from_utf8 info = Some text \<and> prefix token text"
proof -
  obtain s where raw: "from_utf8 info = Some s" and t: "token = trim_end_matches {13, 10, 0} s"
    "token \<noteq> []" "list_all (\<lambda>b. is_ascii_graphic b \<or> b = 32) (str_bytes token)"
    using assms by (auto simp: routing_token_def Let_def split: option.splits if_splits)
  obtain u where u: "s = token @ u" using trim_end_matches_prefix [of s "{13, 10, 0}"] t(1) by blast
  then have "token = take (length token) s" by simp
  moreover have "list_all (\<lambda>b. unat b < 128) (str_bytes token)"
    using t(3) by (auto simp: list_all_iff is_ascii_graphic_def)
  ultimately have c: "\<forall>c \<in> set token. c < 128 \<and> of_nat c \<in> set (str_bytes token)"
    using from_utf8_ascii [OF raw] by blast
  show "\<forall>c \<in> set token. 32 \<le> c \<and> c \<le> 126"
  proof
    fix c
    assume "c \<in> set token"
    with c have c: "c < 128" "of_nat c \<in> set (str_bytes token)" by auto
    then have "unat (of_nat c :: u8) = c" by (simp add: unsigned_of_nat take_bit_nat_eq_self)
    moreover have "is_ascii_graphic (of_nat c) \<or> (of_nat c :: u8) = 32"
      using t(3) c(2) by (auto simp: list_all_iff)
    moreover have "(of_nat c :: u8) = 32 \<Longrightarrow> unat (of_nat c :: u8) = 32" by simp
    ultimately show "32 \<le> c \<and> c \<le> 126" by (auto simp: is_ascii_graphic_def)
  qed
  show "token \<noteq> []" by (rule t(2))
  show "\<exists>text. from_utf8 info = Some text \<and> prefix token text" using raw u by auto
qed

end
