(* ===== verification/Rdp_Resize.thy ===== *)
theory Rdp_Resize
  imports Core_Layout Core_Profile Input_Pointer
begin

text \<open>
  \<open>crates/drift-rdp/src/resize.rs\<close>: the debounced requests of monitor layouts. \<open>rd_step\<close> is one call of
  the driver by the session actor, \<open>rd_run\<close> a sequence of them with the clock readings, and the
  result the layouts sent with the time they were sent.
\<close>

definition RESIZE_DEBOUNCE :: duration where "RESIZE_DEBOUNCE = duration_millis 250"

definition mode_has_display_control :: "ConnectMode \<Rightarrow> bool" where
  "mode_has_display_control m = (case m of RemoteLogin \<Rightarrow> True | Headless \<Rightarrow> True | DesktopSharing \<Rightarrow> False)"

definition scale_mode :: "ConnectMode \<Rightarrow> DisplayPrefs \<Rightarrow> ScaleMode" where
  "scale_mode m prefs = Fit"

record 'f ResizeDriver =
  rd_mode :: ConnectMode
  rd_prefs :: DisplayPrefs
  rd_geometry :: "'f ViewGeometry option"
  rd_caps :: "DisplayControlCaps option"
  rd_current :: "MonitorLayout option"
  rd_due :: "instant option"

definition ResizeDriver_new :: "ConnectMode \<Rightarrow> DisplayPrefs \<Rightarrow> 'f ResizeDriver" where
  "ResizeDriver_new m prefs =
     \<lparr>rd_mode = m, rd_prefs = prefs, rd_geometry = None, rd_caps = None, rd_current = None, rd_due = None\<rparr>"

definition rd_adaptive :: "'f ResizeDriver \<Rightarrow> bool" where
  "rd_adaptive rd = (adaptive (rd_prefs rd) \<and> mode_has_display_control (rd_mode rd))"

definition rd_desired :: "'f f64_ops \<Rightarrow> 'f ResizeDriver \<Rightarrow> MonitorLayout option" where
  "rd_desired F rd =
     (case rd_geometry rd of
        None \<Rightarrow> None
      | Some geometry \<Rightarrow>
          (let caps = (case rd_caps rd of None \<Rightarrow> DisplayControlCaps_default | Some c \<Rightarrow> c)
           in if rd_adaptive rd then Some (desired_layout F geometry (rd_prefs rd) caps) else None))"

definition connect_layout :: "'f f64_ops \<Rightarrow> 'f ResizeDriver \<Rightarrow> MonitorLayout option" where
  "connect_layout F rd = rd_desired F rd"

text \<open>The equality of two \<open>f64\<close> values is IEEE equality: false on a NaN.\<close>

definition f_eq :: "'f f64_ops \<Rightarrow> 'f \<Rightarrow> 'f \<Rightarrow> bool" where
  "f_eq F a b = (f_le F a b \<and> f_le F b a)"

definition geometry_eq :: "'f f64_ops \<Rightarrow> 'f ViewGeometry \<Rightarrow> 'f ViewGeometry \<Rightarrow> bool" where
  "geometry_eq F g h =
     (f_eq F (width (points g)) (width (points h)) \<and> f_eq F (height (points g)) (height (points h)) \<and>
      f_eq F (backing_scale g) (backing_scale h))"

definition rd_on_geometry :: "'f f64_ops \<Rightarrow> 'f ViewGeometry \<Rightarrow> instant \<Rightarrow> 'f ResizeDriver \<Rightarrow> 'f ResizeDriver" where
  "rd_on_geometry F geometry now rd =
     (if (case rd_geometry rd of None \<Rightarrow> False | Some g \<Rightarrow> geometry_eq F g geometry) then rd
      else
        let rd = rd\<lparr>rd_geometry := Some geometry\<rparr>
        in if rd_adaptive rd then rd\<lparr>rd_due := Some (now + RESIZE_DEBOUNCE)\<rparr> else rd)"

definition rd_on_leg_activated :: "MonitorLayout \<Rightarrow> 'f ResizeDriver \<Rightarrow> 'f ResizeDriver" where
  "rd_on_leg_activated layout rd = rd\<lparr>rd_caps := None, rd_current := Some layout\<rparr>"

definition rd_on_display_control_ready :: "DisplayControlCaps \<Rightarrow> instant \<Rightarrow> 'f ResizeDriver \<Rightarrow> 'f ResizeDriver" where
  "rd_on_display_control_ready caps now rd =
     (let rd = rd\<lparr>rd_caps := Some caps\<rparr>
      in if rd_adaptive rd \<and> rd_geometry rd \<noteq> None \<and> rd_due rd = None then rd\<lparr>rd_due := Some now\<rparr> else rd)"

definition rd_poll :: "'f f64_ops \<Rightarrow> instant \<Rightarrow> 'f ResizeDriver \<Rightarrow> MonitorLayout option \<times> 'f ResizeDriver" where
  "rd_poll F now rd =
     (if (case rd_due rd of None \<Rightarrow> False | Some due \<Rightarrow> now < due) then (None, rd)
      else if rd_caps rd = None then (None, rd)
      else
        let rd = rd\<lparr>rd_due := None\<rparr>
        in case rd_desired F rd of
             None \<Rightarrow> (None, rd)
           | Some desired \<Rightarrow>
               if rd_current rd = Some desired then (None, rd)
               else (Some desired, rd\<lparr>rd_current := Some desired\<rparr>))"

subsection \<open>Runs\<close>

datatype 'f ResizeEvent =
    Geometry "'f ViewGeometry"
  | LegActivated MonitorLayout
  | DisplayReady DisplayControlCaps
  | Poll

fun rd_step :: "'f f64_ops \<Rightarrow> instant \<times> 'f ResizeEvent \<Rightarrow> 'f ResizeDriver \<Rightarrow> (instant \<times> MonitorLayout) list \<times> 'f ResizeDriver" where
  "rd_step F (now, Geometry g) rd = ([], rd_on_geometry F g now rd)"
| "rd_step F (now, LegActivated l) rd = ([], rd_on_leg_activated l rd)"
| "rd_step F (now, DisplayReady c) rd = ([], rd_on_display_control_ready c now rd)"
| "rd_step F (now, Poll) rd =
     (case rd_poll F now rd of (None, rd') \<Rightarrow> ([], rd') | (Some l, rd') \<Rightarrow> ([(now, l)], rd'))"

fun rd_run :: "'f f64_ops \<Rightarrow> (instant \<times> 'f ResizeEvent) list \<Rightarrow> 'f ResizeDriver \<Rightarrow> (instant \<times> MonitorLayout) list \<times> 'f ResizeDriver" where
  "rd_run F [] rd = ([], rd)"
| "rd_run F (e # es) rd =
     (let (out, rd) = rd_step F e rd; (out', rd) = rd_run F es rd in (out @ out', rd))"

lemma rd_run_append:
  "rd_run F (es @ fs) rd =
     (let (out, rd) = rd_run F es rd; (out', rd) = rd_run F fs rd in (out @ out', rd))"
  by (induction es arbitrary: rd) (simp_all add: Let_def case_prod_unfold)

text \<open>The changes of geometry the driver acts on, and the time of the last one.\<close>

definition geometry_changes :: "'f f64_ops \<Rightarrow> 'f ResizeDriver \<Rightarrow> 'f ResizeEvent \<Rightarrow> bool" where
  "geometry_changes F rd e =
     (case e of Geometry g \<Rightarrow> \<not> (case rd_geometry rd of None \<Rightarrow> False | Some h \<Rightarrow> geometry_eq F h g) | _ \<Rightarrow> False)"

fun last_change :: "'f f64_ops \<Rightarrow> (instant \<times> 'f ResizeEvent) list \<Rightarrow> 'f ResizeDriver \<Rightarrow> instant option \<Rightarrow> instant option" where
  "last_change F [] rd t = t"
| "last_change F (e # es) rd t =
     last_change F es (snd (rd_step F e rd)) (if geometry_changes F rd (snd e) then Some (fst e) else t)"

definition wakes :: "'f ResizeEvent \<Rightarrow> bool" where
  "wakes e = (case e of DisplayReady _ \<Rightarrow> True | _ \<Rightarrow> False)"

subsection \<open>Invariant\<close>

text \<open>
  \<open>t\<close> is the time of the last change. Nothing pending means that the server has the layout wanted; a
  pending change is due no earlier than its debounce window after the last change.
\<close>

definition rd_inv :: "'f f64_ops \<Rightarrow> instant option \<Rightarrow> 'f ResizeDriver \<Rightarrow> bool" where
  "rd_inv F t rd \<longleftrightarrow>
     (rd_due rd \<noteq> None \<longrightarrow> rd_adaptive rd \<and> rd_geometry rd \<noteq> None) \<and>
     (rd_geometry rd \<noteq> None \<longrightarrow> t \<noteq> None) \<and>
     (rd_due rd = None \<longrightarrow> rd_caps rd \<noteq> None \<longrightarrow> rd_desired F rd \<noteq> None \<longrightarrow> rd_current rd = rd_desired F rd)"

text \<open>Nothing is due before the debounce window of the last change is over at clock reading \<open>now\<close>.\<close>

definition debounced :: "instant option \<Rightarrow> instant \<Rightarrow> 'f ResizeDriver \<Rightarrow> bool" where
  "debounced t now rd \<longleftrightarrow>
     (\<forall>u. t = Some u \<longrightarrow> rd_adaptive rd \<longrightarrow>
        u + RESIZE_DEBOUNCE \<le> (case rd_due rd of Some d \<Rightarrow> d | None \<Rightarrow> now))"

lemma rd_adaptive_frame [simp]:
  "rd_adaptive (rd\<lparr>rd_geometry := g\<rparr>) = rd_adaptive rd" "rd_adaptive (rd\<lparr>rd_due := d\<rparr>) = rd_adaptive rd"
  "rd_adaptive (rd\<lparr>rd_caps := c\<rparr>) = rd_adaptive rd" "rd_adaptive (rd\<lparr>rd_current := l\<rparr>) = rd_adaptive rd"
  by (simp_all add: rd_adaptive_def)

lemma rd_desired_frame [simp]:
  "rd_desired F (rd\<lparr>rd_due := d\<rparr>) = rd_desired F rd" "rd_desired F (rd\<lparr>rd_current := l\<rparr>) = rd_desired F rd"
  by (simp_all add: rd_desired_def split: option.split)

lemma rd_desired_None: "rd_desired F rd = None \<longleftrightarrow> rd_geometry rd = None \<or> \<not> rd_adaptive rd"
  by (auto simp: rd_desired_def Let_def split: option.split)

lemma rd_inv_new: "rd_inv F None (ResizeDriver_new m prefs)"
  by (simp add: rd_inv_def ResizeDriver_new_def)

lemma rd_inv_step:
  assumes "rd_inv F t rd"
  shows "rd_inv F (if geometry_changes F rd (snd e) then Some (fst e) else t) (snd (rd_step F e rd))"
proof (cases e)
  case (Pair now ev)
  show ?thesis
  proof (cases ev)
    case (Geometry g)
    with assms Pair show ?thesis
      by (auto simp: rd_inv_def rd_on_geometry_def geometry_changes_def Let_def rd_desired_None
          split: option.splits if_splits)
  next
    case (LegActivated l)
    with assms Pair show ?thesis
      by (auto simp: rd_inv_def rd_on_leg_activated_def geometry_changes_def)
  next
    case (DisplayReady c)
    with assms Pair show ?thesis
      by (auto simp: rd_inv_def rd_on_display_control_ready_def geometry_changes_def Let_def rd_desired_None)
  next
    case Poll
    with assms Pair show ?thesis
      by (auto simp: rd_inv_def rd_poll_def geometry_changes_def Let_def rd_desired_None split: option.splits if_splits)
  qed
qed

lemma rd_inv_run: "rd_inv F t rd \<Longrightarrow> rd_inv F (last_change F es rd t) (snd (rd_run F es rd))"
proof (induction es arbitrary: rd t)
  case (Cons e es)
  from Cons.IH [OF rd_inv_step [OF Cons.prems, of e]] show ?case
    by (simp add: Let_def case_prod_unfold)
qed simp

text \<open>What a layout sent tells.\<close>

lemma rd_poll_Some:
  assumes "rd_poll F now rd = (Some l, rd')"
  shows "rd_adaptive rd" and "rd_caps rd \<noteq> None" and "rd_desired F rd = Some l" and "rd_current rd \<noteq> Some l"
    and "rd_current rd' = Some l" and "rd_due rd' = None" and "\<And>d. rd_due rd = Some d \<Longrightarrow> d \<le> now"
  using assms by (auto simp: rd_poll_def Let_def rd_desired_def not_less split: if_splits option.splits)

text \<open>Once a poll finds its time, the server has the layout wanted.\<close>

lemma rd_poll_settles:
  assumes "rd_inv F t rd" and "rd_caps rd \<noteq> None" and "\<And>d. rd_due rd = Some d \<Longrightarrow> d \<le> now"
  shows "rd_desired F rd \<noteq> None \<longrightarrow> rd_current (snd (rd_poll F now rd)) = rd_desired F rd"
    and "rd_due (snd (rd_poll F now rd)) = None" and "rd_desired F (snd (rd_poll F now rd)) = rd_desired F rd"
  using assms by (auto simp: rd_poll_def Let_def rd_inv_def split: if_splits option.splits)


lemma debounced_step:
  assumes "debounced t now0 rd" and "now0 \<le> fst e"
  shows "debounced (if geometry_changes F rd (snd e) then Some (fst e) else t) (fst e) (snd (rd_step F e rd))"
proof (cases e)
  case (Pair now ev)
  show ?thesis
  proof (cases ev)
    case (Geometry g)
    with assms Pair show ?thesis
      by (fastforce simp: debounced_def rd_on_geometry_def geometry_changes_def Let_def split: option.splits)
  next
    case (LegActivated l)
    with assms Pair show ?thesis
      by (fastforce simp: debounced_def rd_on_leg_activated_def geometry_changes_def rd_adaptive_def split: option.splits)
  next
    case (DisplayReady c)
    with assms Pair show ?thesis
      by (fastforce simp: debounced_def rd_on_display_control_ready_def geometry_changes_def Let_def split: option.splits)
  next
    case Poll
    with assms Pair show ?thesis
      by (fastforce simp: debounced_def rd_poll_def geometry_changes_def Let_def not_less split: option.splits if_splits)
  qed
qed

lemma debounced_run:
  "debounced t now0 rd \<Longrightarrow> sorted (now0 # map fst es) \<Longrightarrow>
     debounced (last_change F es rd t) (last (now0 # map fst es)) (snd (rd_run F es rd))"
proof (induction es arbitrary: rd t now0)
  case (Cons e es)
  have "debounced (last_change F es (snd (rd_step F e rd)) (if geometry_changes F rd (snd e) then Some (fst e) else t))
      (last (fst e # map fst es)) (snd (rd_run F es (snd (rd_step F e rd))))"
    by (rule Cons.IH [OF debounced_step]) (use Cons.prems in auto)
  then show ?case by (simp add: Let_def case_prod_unfold)
qed simp

lemma debounced_new: "debounced None now (ResizeDriver_new m prefs)"
  by (simp add: debounced_def)

lemma rd_mode_step: "rd_mode (snd (rd_step F e rd)) = rd_mode rd \<and> rd_prefs (snd (rd_step F e rd)) = rd_prefs rd"
proof (cases e)
  case (Pair now ev)
  then show ?thesis
    by (cases ev) (auto simp: rd_on_geometry_def rd_on_leg_activated_def rd_on_display_control_ready_def rd_poll_def
        Let_def split: option.splits)
qed

lemma rd_mode_run: "rd_mode (snd (rd_run F es rd)) = rd_mode rd \<and> rd_prefs (snd (rd_run F es rd)) = rd_prefs rd"
proof (induction es arbitrary: rd)
  case (Cons e es)
  then show ?case using rd_mode_step [of F e rd] by (simp add: Let_def case_prod_unfold)
qed simp

end
