(* ===== verification/Rdp_Connect.thy ===== *)
theory Rdp_Connect
  imports Rdp_Redirect Rdp_Resize Clip_Sync Core_Input
begin

text \<open>
  \<open>crates/drift-rdp/src/session.rs\<close>, \<open>connect.rs\<close>, \<open>pointer.rs\<close> and \<open>greeter.rs\<close>: the interface of a
  session, the establishment of one leg, cursor updates and the typist at the greeter. \<open>leg_step\<close> is
  \<open>connect_leg\<close> between two awaits: a phase waits for the network, for the clock or for the user.
\<close>

subsection \<open>Session interface\<close>

datatype CertificateRole = ServerCertificate | RedirectTarget

record SessionSecrets =
  sec_rdp_password :: rstr
  sec_linux_password :: "rstr option"

record SessionOptions =
  opt_tls_server_name :: "rstr option"
  opt_client_name :: rstr
  opt_connect_timeout :: duration

datatype 'f SessionCommand =
    CmdInput InputEvent
  | CmdResize "'f ViewGeometry"
  | CmdSetVisible bool
  | CmdFocus bool
  | CmdClipboardLocalChanged ClipboardContents
  | CmdAcceptCertificate CertFingerprint bool
  | CmdRejectCertificate
  | CmdReconnectNow
  | CmdNetworkReachable bool
  | CmdCancel
  | CmdClose

record CursorBitmap =
  cb_size :: "u32 Size"
  cb_hotspot :: "u32 Point"
  cb_bgra :: "u8 list"
  cb_scale :: u32

datatype CursorUpdate = CursorHidden | CursorDefault | CursorImage CursorBitmap | CursorPosition "u32 Point"

record SessionCapabilities =
  sc_display_control :: bool
  sc_clipboard :: bool
  sc_scale_mode :: ScaleMode

datatype SessionEvent =
    EvState SessionState
  | EvCertificatePrompt rstr u16 CertFingerprint CertificateRole
  | EvCertificatePinned CertFingerprint
  | EvCapabilities SessionCapabilities
  | EvCursor CursorUpdate
  | EvClipboardRemote ClipboardContents

subsection \<open>Cursor updates\<close>

record DecodedPointer =
  dp_width :: u16
  dp_height :: u16
  dp_hotspot_x :: u16
  dp_hotspot_y :: u16
  dp_bitmap :: "u8 list"

datatype GracefulDisconnectReason = UserInitiated | ServerInitiated | OtherGraceful rstr

text \<open>The outputs of the protocol library's active stage; \<open>OtherOutput\<close> are those the session ignores.\<close>

datatype 'w StageOutput =
    ResponseFrame 'w
  | PointerDefault
  | PointerHidden
  | PointerPosition u16 u16
  | PointerBitmap DecodedPointer
  | ServerRedirect ServerRedirectionPdu
  | Terminate GracefulDisconnectReason
  | OtherOutput

definition premul :: "u8 \<Rightarrow> u8 \<Rightarrow> u8" where
  "premul c a =
     (let v = ((ucast c :: u16) * ucast a + 127) div 255 in if unat v < 256 then ucast v else - 1)"

fun rgba_to_premultiplied_bgra :: "u8 list \<Rightarrow> u8 list" where
  "rgba_to_premultiplied_bgra (r # g # b # a # rest) =
     premul b a # premul g a # premul r a # a # rgba_to_premultiplied_bgra rest"
| "rgba_to_premultiplied_bgra _ = []"

fun cursor_update :: "'w StageOutput \<Rightarrow> u32 \<Rightarrow> CursorUpdate option" where
  "cursor_update PointerDefault scale = Some CursorDefault"
| "cursor_update PointerHidden scale = Some CursorHidden"
| "cursor_update (PointerPosition x y) scale = Some (CursorPosition \<lparr>pt_x = ucast x, pt_y = ucast y\<rparr>)"
| "cursor_update (PointerBitmap p) scale =
     Some (CursorImage
       \<lparr>cb_size = \<lparr>width = ucast (dp_width p), height = ucast (dp_height p)\<rparr>,
        cb_hotspot = \<lparr>pt_x = ucast (dp_hotspot_x p), pt_y = ucast (dp_hotspot_y p)\<rparr>,
        cb_bgra = rgba_to_premultiplied_bgra (dp_bitmap p), cb_scale = scale\<rparr>)"
| "cursor_update _ scale = None"

text \<open>The pixels: the length is kept up to a partial pixel, and no channel exceeds its alpha.\<close>

lemma length_premultiplied: "length (rgba_to_premultiplied_bgra px) = length px div 4 * 4"
  by (induction px rule: rgba_to_premultiplied_bgra.induct) auto

lemma premul_exact: "unat (premul c a) = (unat c * unat a + 127) div 255"
proof -
  have c: "unat c \<le> 255" "unat a \<le> 255" using unat_u8 [of c] unat_u8 [of a] by linarith+
  then have le: "unat c * unat a \<le> 255 * 255" by (rule mult_le_mono)
  have m: "unat ((ucast c :: u16) * ucast a) = unat c * unat a"
    using le by (subst unat_mult_no_wrap) (simp_all add: word_ops)
  have s: "unat ((ucast c :: u16) * ucast a + 127) = unat c * unat a + 127"
    using le m by (subst unat_add_no_wrap) simp_all
  have v: "unat (((ucast c :: u16) * ucast a + 127) div 255) = (unat c * unat a + 127) div 255"
    by (simp only: unat_div s) simp
  have "(unat c * unat a + 127) div 255 < 256" using le by linarith
  then show ?thesis
    using v by (simp add: premul_def Let_def unsigned_ucast_eq take_bit_nat_eq_self)
qed

lemma premul_le_alpha: "premul c a \<le> a"
proof -
  have "unat c * unat a \<le> 255 * unat a" using unat_u8 [of c] by (intro mult_le_mono1) linarith
  then have "(unat c * unat a + 127) div 255 \<le> unat a" by linarith
  then show ?thesis by (simp add: word_le_nat_alt premul_exact)
qed

subsection \<open>The typist at the greeter\<close>

definition TYPE_DELAY :: duration where "TYPE_DELAY = duration_millis 1500"
definition ENTER :: u8 where "ENTER = 0x1C"

record GreeterTypist =
  gt_armed :: bool
  gt_due :: "instant option"

definition GreeterTypist_new :: GreeterTypist where
  "GreeterTypist_new = \<lparr>gt_armed = False, gt_due = None\<rparr>"

definition on_greeter :: "bool \<Rightarrow> GreeterTypist \<Rightarrow> GreeterTypist" where
  "on_greeter has_password t = t\<lparr>gt_armed := has_password, gt_due := None\<rparr>"

definition disarm :: "GreeterTypist \<Rightarrow> GreeterTypist" where
  "disarm t = t\<lparr>gt_armed := False, gt_due := None\<rparr>"

definition gt_on_input :: "InputEvent \<Rightarrow> instant \<Rightarrow> GreeterTypist \<Rightarrow> GreeterTypist" where
  "gt_on_input event now t =
     (let clicked = (case event of MouseButtonEvent b down _ _ \<Rightarrow> b = LeftButton \<and> \<not> down | _ \<Rightarrow> False)
      in if gt_armed t \<and> gt_due t = None \<and> clicked then t\<lparr>gt_due := Some (now + TYPE_DELAY)\<rparr> else t)"

definition typed_password :: "rstr \<Rightarrow> InputEvent list" where
  "typed_password password =
     concat (map (\<lambda>ch. [Unicode ch True, Unicode ch False]) (concat (map encode_utf16 password))) @
     [Key ENTER False True, Key ENTER False False]"

definition gt_poll :: "instant \<Rightarrow> rstr \<Rightarrow> GreeterTypist \<Rightarrow> InputEvent list option \<times> GreeterTypist" where
  "gt_poll now password t =
     (if \<not> gt_armed t \<or> (case gt_due t of None \<Rightarrow> True | Some due \<Rightarrow> now < due) then (None, t)
      else (Some (typed_password password), disarm t))"

lemma gt_poll_Some:
  assumes "gt_poll now password t = (Some events, t')"
  shows "gt_armed t" and "\<exists>due. gt_due t = Some due \<and> due \<le> now" and "events = typed_password password"
    and "\<not> gt_armed t'"
  using assms by (auto simp: gt_poll_def disarm_def not_less split: if_splits option.splits)

lemma gt_poll_armed [simp]: "gt_armed (snd (gt_poll now password t)) \<longrightarrow> gt_armed t"
  by (auto simp: gt_poll_def disarm_def)

subsection \<open>Errors of a connection\<close>

datatype IoErrorKind = UnexpectedEof | ConnectionReset | ConnectionAborted | BrokenPipe | TimedOut | OtherKind

record IoError =
  io_os_error :: "int option"
  io_kind :: IoErrorKind

text \<open>The error numbers of macOS.\<close>

definition EHOSTUNREACH :: int where "EHOSTUNREACH = 65"
definition ETIMEDOUT :: int where "ETIMEDOUT = 60"

definition classify_io_error :: "IoError \<Rightarrow> ConnectStage \<Rightarrow> DisconnectReason" where
  "classify_io_error e stage =
     (if io_os_error e = Some EHOSTUNREACH then LocalNetworkDenied
      else if io_os_error e = Some ETIMEDOUT then Timeout
      else if stage = Nla \<and> io_kind e \<in> {UnexpectedEof, ConnectionReset, ConnectionAborted, BrokenPipe} then AuthFailed
      else if io_kind e = TimedOut then Timeout
      else if stage = Tcp then Network
      else if io_kind e = UnexpectedEof then TlsEof
      else Network)"

text \<open>A connector error: its kind, its source chain (the I/O errors in it), its text.\<close>

datatype ConnectorErrorKind = RdstlsAuthFailed u32 | Credssp | AccessDenied | OtherConnectorError

record ConnectorError =
  ce_kind :: ConnectorErrorKind
  ce_sources :: "IoError option list"
  ce_text :: rstr

fun io_source :: "IoError option list \<Rightarrow> IoError option" where
  "io_source [] = None"
| "io_source (Some io # es) = Some io"
| "io_source (None # es) = io_source es"

definition classify_connector_error :: "ConnectorError \<Rightarrow> ConnectStage \<Rightarrow> DisconnectReason" where
  "classify_connector_error e stage =
     (case ce_kind e of
        RdstlsAuthFailed code \<Rightarrow> RdstlsFailed code
      | Credssp \<Rightarrow> AuthFailed
      | AccessDenied \<Rightarrow> AuthFailed
      | OtherConnectorError \<Rightarrow>
          (case io_source (ce_sources e) of
             Some io \<Rightarrow> classify_io_error io stage
           | None \<Rightarrow> ProtocolError (ce_text e)))"

subsection \<open>Requests\<close>

definition DEFAULT_DESKTOP :: DesktopSize where "DEFAULT_DESKTOP = \<lparr>width = 1280, height = 800\<rparr>"
definition MAX_CLIENT_NAME_CHARS :: nat where "MAX_CLIENT_NAME_CHARS = 15"

datatype LegAuth = LegNla rstr rstr | LegRdstls OneTimeCredentials

datatype CertExpectation = Pinned CertFingerprint | TrustOnFirstUse | Exact "u8 list"

datatype CertVerdict = Trusted | Mismatch | Unknown CertFingerprint

text \<open>\<open>sha\<close> is the SHA-256 fingerprint of a certificate.\<close>

definition check_certificate :: "(u8 list \<Rightarrow> CertFingerprint) \<Rightarrow> CertExpectation \<Rightarrow> u8 list \<Rightarrow> CertVerdict" where
  "check_certificate sha expectation leaf_der =
     (let fingerprint = sha leaf_der
      in case expectation of
           Pinned pin \<Rightarrow> if pin = fingerprint then Trusted else Mismatch
         | Exact der \<Rightarrow> if der = leaf_der then Trusted else Mismatch
         | TrustOnFirstUse \<Rightarrow> Unknown fingerprint)"

record LegRequest =
  lr_leg :: u8
  lr_mode :: ConnectMode
  lr_host :: rstr
  lr_port :: u16
  lr_tls_server_name :: rstr
  lr_auth :: LegAuth
  lr_expectation :: CertExpectation
  lr_role :: CertificateRole
  lr_routing_token :: "rstr option"
  lr_client_name :: rstr
  lr_desktop :: DesktopSize
  lr_scale :: u32

text \<open>The part of the connector's configuration that is not a fixed default.\<close>

record ConnectorConfig =
  cc_username :: rstr
  cc_password :: rstr
  cc_enable_tls :: bool
  cc_enable_credssp :: bool
  cc_enable_standard_rdp_security :: bool
  cc_desktop_width :: u16
  cc_desktop_height :: u16
  cc_desktop_scale_factor :: u32
  cc_client_name :: rstr
  cc_autologon :: bool
  cc_pointer_software_rendering :: bool
  cc_support_dyn_vc_gfx_protocol :: bool

definition u16_saturate :: "u32 \<Rightarrow> u16" where
  "u16_saturate v = (if unat v < 65536 then ucast v else - 1)"

definition build_config :: "LegRequest \<Rightarrow> ConnectorConfig" where
  "build_config req =
     (let (username, password, nla) =
        (case lr_auth req of
           LegNla username password \<Rightarrow> (username, password, True)
         | LegRdstls creds \<Rightarrow> (oc_username creds, [], False))
      in \<lparr>cc_username = username, cc_password = password, cc_enable_tls = True, cc_enable_credssp = nla,
          cc_enable_standard_rdp_security = False,
          cc_desktop_width = u16_saturate (width (lr_desktop req)),
          cc_desktop_height = u16_saturate (height (lr_desktop req)),
          cc_desktop_scale_factor = lr_scale req, cc_client_name = lr_client_name req, cc_autologon = (\<not> nla),
          cc_pointer_software_rendering = False, cc_support_dyn_vc_gfx_protocol = True\<rparr>)"

definition client_name_from_hostname :: "rstr \<Rightarrow> rstr" where
  "client_name_from_hostname hostname =
     (let label = hd (split_on 46 hostname);
          name = take MAX_CLIENT_NAME_CHARS (filter (\<lambda>c. is_ascii_alphanumeric c \<or> c = 45) label)
      in if name = [] then lit ''drift'' else name)"

subsection \<open>Connecting one leg\<close>

text \<open>What the leg waits for; the deadline of the network phases is an instant.\<close>

datatype LegPhase =
    PhTcp instant
  | PhTls instant
  | PhPrompt "u8 list" CertFingerprint
  | PhAuth instant "u8 list"

text \<open>
  What the network or the clock brings: the dial and the negotiation (\<open>Inr\<close> success), the handshake
  with the server's certificate, the finalization, and a check of the deadline.
\<close>

datatype 'r LegNet =
    DialFailed IoError
  | NegotiationDone "(ConnectorError, unit) result"
  | HandshakeDone "(IoError, u8 list) result"
  | FinalizeDone "(ConnectorError, 'r) result"
  | DeadlineTick

datatype CertDecision = Accept bool | Reject | Closed

datatype 'r LegProgress =
    Waiting
  | EnterStage ConnectStage LegPhase
  | AskUser "u8 list" CertFingerprint
  | LegConnected 'r
  | LegFailed DisconnectReason

definition auth_stage :: "LegRequest \<Rightarrow> ConnectStage" where
  "auth_stage req = (case lr_auth req of LegNla _ _ \<Rightarrow> Nla | LegRdstls _ \<Rightarrow> Rdstls)"

text \<open>After the certificate is accepted; \<open>pubkey\<close> reads the certificate's public key.\<close>

definition authenticate :: "(u8 list \<Rightarrow> u8 list option) \<Rightarrow> duration \<Rightarrow> instant \<Rightarrow> LegRequest \<Rightarrow> u8 list \<Rightarrow> 'r LegProgress" where
  "authenticate pubkey limit now req leaf_der =
     (case pubkey leaf_der of
        None \<Rightarrow> LegFailed (ProtocolError (lit ''server certificate has no parsable public key''))
      | Some _ \<Rightarrow> EnterStage (auth_stage req) (PhAuth (now + limit) leaf_der))"

definition decided :: "(u8 list \<Rightarrow> u8 list option) \<Rightarrow> duration \<Rightarrow> instant \<Rightarrow> LegRequest \<Rightarrow> u8 list \<Rightarrow> CertDecision \<Rightarrow> 'r LegProgress" where
  "decided pubkey limit now req leaf_der d =
     (case d of
        Accept _ \<Rightarrow> authenticate pubkey limit now req leaf_der
      | Reject \<Rightarrow> LegFailed CertMismatch
      | Closed \<Rightarrow> LegFailed UserClosed)"

fun leg_step :: "(u8 list \<Rightarrow> CertFingerprint) \<Rightarrow> (u8 list \<Rightarrow> u8 list option) \<Rightarrow> duration \<Rightarrow> instant \<Rightarrow>
    LegRequest \<Rightarrow> LegPhase \<Rightarrow> 'r LegNet \<Rightarrow> 'r LegProgress" where
  "leg_step sha pubkey limit now req (PhTcp deadline) (DialFailed e) = LegFailed (classify_io_error e Tcp)"
| "leg_step sha pubkey limit now req (PhTcp deadline) (NegotiationDone r) =
     (case r of
        Inl e \<Rightarrow> LegFailed (classify_connector_error e Tcp)
      | Inr _ \<Rightarrow> EnterStage Tls (PhTls deadline))"
| "leg_step sha pubkey limit now req (PhTls deadline) (HandshakeDone r) =
     (case r of
        Inl e \<Rightarrow> LegFailed (classify_io_error e Tls)
      | Inr leaf_der \<Rightarrow>
          (case check_certificate sha (lr_expectation req) leaf_der of
             Trusted \<Rightarrow> authenticate pubkey limit now req leaf_der
           | Mismatch \<Rightarrow> LegFailed CertMismatch
           | Unknown fingerprint \<Rightarrow> AskUser leaf_der fingerprint))"
| "leg_step sha pubkey limit now req (PhAuth deadline leaf_der) (FinalizeDone r) =
     (case r of
        Inl e \<Rightarrow> LegFailed (classify_connector_error e (auth_stage req))
      | Inr result \<Rightarrow> LegConnected result)"
| "leg_step sha pubkey limit now req (PhTcp deadline) DeadlineTick = (if deadline \<le> now then LegFailed Timeout else Waiting)"
| "leg_step sha pubkey limit now req (PhTls deadline) DeadlineTick = (if deadline \<le> now then LegFailed Timeout else Waiting)"
| "leg_step sha pubkey limit now req (PhAuth deadline leaf_der) DeadlineTick = (if deadline \<le> now then LegFailed Timeout else Waiting)"
| "leg_step sha pubkey limit now req ph ev = Waiting"

text \<open>A leg authenticates only with a certificate it has checked.\<close>

definition cert_trusted :: "(u8 list \<Rightarrow> CertFingerprint) \<Rightarrow> CertFingerprint option \<Rightarrow> CertExpectation \<Rightarrow> u8 list \<Rightarrow> bool" where
  "cert_trusted sha accepted expectation leaf_der =
     (case expectation of
        Pinned pin \<Rightarrow> pin = sha leaf_der
      | Exact der \<Rightarrow> der = leaf_der
      | TrustOnFirstUse \<Rightarrow> accepted = Some (sha leaf_der))"

definition phase_ok :: "(u8 list \<Rightarrow> CertFingerprint) \<Rightarrow> CertFingerprint option \<Rightarrow> LegRequest \<Rightarrow> LegPhase \<Rightarrow> bool" where
  "phase_ok sha accepted req ph =
     (case ph of
        PhPrompt leaf_der fp \<Rightarrow> lr_expectation req = TrustOnFirstUse \<and> fp = sha leaf_der
      | PhAuth _ leaf_der \<Rightarrow> cert_trusted sha accepted (lr_expectation req) leaf_der
      | _ \<Rightarrow> True)"

lemma phase_ok_Tcp [simp]: "phase_ok sha accepted req (PhTcp d)" "phase_ok sha accepted req (PhTls d)"
  by (simp_all add: phase_ok_def)

lemma authenticate_phase:
  assumes "authenticate pubkey limit now req leaf = EnterStage st ph"
  shows "st = auth_stage req" and "ph = PhAuth (now + limit) leaf" and "pubkey leaf \<noteq> None"
  using assms by (auto simp: authenticate_def split: option.splits)

lemma leg_step_enter:
  assumes "leg_step sha pubkey limit now req ph net = EnterStage st ph'" and "phase_ok sha accepted req ph"
  shows "phase_ok sha accepted req ph'"
  using assms
  by (cases "(sha, pubkey, limit, now, req, ph, net)" rule: leg_step.cases)
    (auto simp: check_certificate_def phase_ok_def cert_trusted_def Let_def
      dest: authenticate_phase split: sum.splits CertExpectation.splits if_splits)

lemma leg_step_ask:
  assumes "leg_step sha pubkey limit now req ph net = AskUser leaf fp"
  shows "lr_expectation req = TrustOnFirstUse" and "fp = sha leaf"
  using assms
  by (cases "(sha, pubkey, limit, now, req, ph, net)" rule: leg_step.cases;
      auto simp: check_certificate_def authenticate_def Let_def
        split: sum.splits CertExpectation.splits if_splits option.splits)+

lemma leg_step_stage:
  assumes "leg_step sha pubkey limit now req ph net = EnterStage st ph'"
  shows "st \<in> {Tls, Nla, Rdstls}"
  using assms
  by (cases "(sha, pubkey, limit, now, req, ph, net)" rule: leg_step.cases)
    (auto simp: authenticate_def auth_stage_def split: sum.splits CertVerdict.splits if_splits option.splits LegAuth.splits)

subsection \<open>Client names\<close>

lemma client_name_spec:
  "1 \<le> length (client_name_from_hostname h)" "length (client_name_from_hostname h) \<le> MAX_CLIENT_NAME_CHARS"
  "\<forall>c \<in> set (client_name_from_hostname h). is_ascii_alphanumeric c \<or> c = 45"
proof -
  define P where "P c \<longleftrightarrow> is_ascii_alphanumeric c \<or> c = 45" for c
  define n where "n = take MAX_CLIENT_NAME_CHARS (filter P (hd (split_on 46 h)))"
  have eq: "client_name_from_hostname h = (if n = [] then lit ''drift'' else n)"
    unfolding client_name_from_hostname_def n_def Let_def P_def by (rule refl)
  have drift: "\<forall>c \<in> set (lit ''drift''). P c" "length (lit ''drift'') = 5"
    unfolding P_def by code_simp+
  have "\<forall>c \<in> set n. P c" unfolding n_def by (auto dest!: in_set_takeD simp del: filter.simps)
  then have "\<forall>c \<in> set (client_name_from_hostname h). P c" using drift(1) unfolding eq by simp
  then show "\<forall>c \<in> set (client_name_from_hostname h). is_ascii_alphanumeric c \<or> c = 45" by (simp only: P_def)
  have "length n \<le> MAX_CLIENT_NAME_CHARS" unfolding n_def by (simp only: length_take min.cobounded2)
  then show "length (client_name_from_hostname h) \<le> MAX_CLIENT_NAME_CHARS"
    unfolding eq using drift(2) by (simp add: MAX_CLIENT_NAME_CHARS_def)
  show "1 \<le> length (client_name_from_hostname h)"
    unfolding eq using drift(2) by (cases n) simp_all
qed

end
