(* ===== verification/Rdp_FastPath.thy ===== *)
theory Rdp_FastPath
  imports Core_Input "HOL-Library.Product_Lexorder"
begin

unbundle bit_operations_syntax

text \<open>
  \<open>crates/drift-rdp/src/fastpath.rs\<close>: input events as fast-path events, with the keys and buttons held.
  A \<open>BTreeSet\<close> is a strictly sorted list. The flags are those of the protocol's PDUs; \<open>remote_apply\<close>
  is what a server makes of the events.
\<close>

subsection \<open>Ordered sets\<close>

definition os_insert :: "'a::linorder \<Rightarrow> 'a list \<Rightarrow> 'a list" where
  "os_insert x xs = (if x \<in> set xs then xs else insort x xs)"

definition os_remove :: "'a \<Rightarrow> 'a list \<Rightarrow> 'a list" where
  "os_remove x xs = filter (\<lambda>y. y \<noteq> x) xs"

definition os_wf :: "'a::linorder list \<Rightarrow> bool" where
  "os_wf xs = sorted_wrt (<) xs"

lemma set_os_insert [simp]: "set (os_insert x xs) = insert x (set xs)"
  by (auto simp: os_insert_def set_insort_key)

lemma set_os_remove [simp]: "set (os_remove x xs) = set xs - {x}"
  by (auto simp: os_remove_def)

lemma os_wf_ops: "os_wf xs \<Longrightarrow> os_wf (os_insert x xs)" "os_wf xs \<Longrightarrow> os_wf (os_remove x xs)" "os_wf []"
  by (auto simp: os_wf_def os_insert_def os_remove_def strict_sorted_iff distinct_insort sorted_insort
      intro: sorted_filter [where f = "\<lambda>x. x", simplified])

lemma os_wf_distinct: "os_wf xs \<Longrightarrow> distinct xs"
  by (simp add: os_wf_def strict_sorted_iff)

subsection \<open>Protocol events\<close>

definition PF_VERTICAL_WHEEL :: u16 where "PF_VERTICAL_WHEEL = 0x0200"
definition PF_HORIZONTAL_WHEEL :: u16 where "PF_HORIZONTAL_WHEEL = 0x0400"
definition PF_MOVE :: u16 where "PF_MOVE = 0x0800"
definition PF_LEFT_BUTTON :: u16 where "PF_LEFT_BUTTON = 0x1000"
definition PF_RIGHT_BUTTON :: u16 where "PF_RIGHT_BUTTON = 0x2000"
definition PF_MIDDLE_BUTTON :: u16 where "PF_MIDDLE_BUTTON = 0x4000"
definition PF_DOWN :: u16 where "PF_DOWN = 0x8000"
definition PXF_DOWN :: u16 where "PXF_DOWN = 0x8000"
definition PXF_BUTTON1 :: u16 where "PXF_BUTTON1 = 0x0001"
definition PXF_BUTTON2 :: u16 where "PXF_BUTTON2 = 0x0002"
definition KF_RELEASE :: u8 where "KF_RELEASE = 0x01"
definition KF_EXTENDED :: u8 where "KF_EXTENDED = 0x02"
definition SF_NUM_LOCK :: u8 where "SF_NUM_LOCK = 0x02"
definition SF_CAPS_LOCK :: u8 where "SF_CAPS_LOCK = 0x04"

lemmas pf_defs = PF_VERTICAL_WHEEL_def PF_HORIZONTAL_WHEEL_def PF_MOVE_def PF_LEFT_BUTTON_def PF_RIGHT_BUTTON_def
  PF_MIDDLE_BUTTON_def PF_DOWN_def PXF_DOWN_def PXF_BUTTON1_def PXF_BUTTON2_def KF_RELEASE_def KF_EXTENDED_def
  SF_NUM_LOCK_def SF_CAPS_LOCK_def

datatype FastPathInputEvent =
    KeyboardEvent u8 u8
  | UnicodeKeyboardEvent u8 u16
  | MouseEvent u16 i16 u16 u16
  | MouseEventEx u16 u16 u16
  | SyncEvent u8

subsection \<open>The encoder\<close>

datatype ButtonId = BtnLeft | BtnRight | BtnMiddle | BtnX1 | BtnX2

fun button_rank :: "ButtonId \<Rightarrow> nat" where
  "button_rank BtnLeft = 0"
| "button_rank BtnRight = 1"
| "button_rank BtnMiddle = 2"
| "button_rank BtnX1 = 3"
| "button_rank BtnX2 = 4"

lemma button_rank_inj [simp]: "button_rank a = button_rank b \<longleftrightarrow> a = b"
  by (cases a; cases b) simp_all

instantiation ButtonId :: linorder
begin

definition less_eq_ButtonId :: "ButtonId \<Rightarrow> ButtonId \<Rightarrow> bool" where
  "less_eq_ButtonId a b = (button_rank a \<le> button_rank b)"

definition less_ButtonId :: "ButtonId \<Rightarrow> ButtonId \<Rightarrow> bool" where
  "less_ButtonId a b = (button_rank a < button_rank b)"

instance
  by standard (auto simp: less_eq_ButtonId_def less_ButtonId_def simp flip: button_rank_inj)

end

fun button_id :: "MouseButton \<Rightarrow> ButtonId" where
  "button_id LeftButton = BtnLeft"
| "button_id RightButton = BtnRight"
| "button_id MiddleButton = BtnMiddle"
| "button_id X1 = BtnX1"
| "button_id X2 = BtnX2"

record InputEncoder =
  enc_keys :: "(u8 \<times> bool) list"
  enc_buttons :: "ButtonId list"
  enc_position :: "u16 \<times> u16"
  enc_toggles :: "bool \<times> bool"

definition InputEncoder_default :: InputEncoder where
  "InputEncoder_default = \<lparr>enc_keys = [], enc_buttons = [], enc_position = (0, 0), enc_toggles = (False, False)\<rparr>"

definition key_event :: "u8 \<Rightarrow> bool \<Rightarrow> bool \<Rightarrow> FastPathInputEvent" where
  "key_event scancode extended down =
     KeyboardEvent ((if extended then KF_EXTENDED else 0) OR (if down then 0 else KF_RELEASE)) scancode"

definition mouse_event :: "u16 \<Rightarrow> i16 \<Rightarrow> u16 \<Rightarrow> u16 \<Rightarrow> FastPathInputEvent" where
  "mouse_event flags units x y = MouseEvent flags units x y"

definition button_event :: "ButtonId \<Rightarrow> bool \<Rightarrow> u16 \<Rightarrow> u16 \<Rightarrow> FastPathInputEvent" where
  "button_event b down x y =
     (let pressed = (\<lambda>f. if down then f OR PF_DOWN else f);
          pressed_x = (\<lambda>f. if down then f OR PXF_DOWN else f)
      in case b of
           BtnLeft \<Rightarrow> mouse_event (pressed PF_LEFT_BUTTON) 0 x y
         | BtnRight \<Rightarrow> mouse_event (pressed PF_RIGHT_BUTTON) 0 x y
         | BtnMiddle \<Rightarrow> mouse_event (pressed PF_MIDDLE_BUTTON) 0 x y
         | BtnX1 \<Rightarrow> MouseEventEx (pressed_x PXF_BUTTON1) x y
         | BtnX2 \<Rightarrow> MouseEventEx (pressed_x PXF_BUTTON2) x y)"

text \<open>\<open>i16::clamp(-255, 255)\<close>.\<close>

definition clamp_units :: "i16 \<Rightarrow> i16" where
  "clamp_units u = (if sint u < - 255 then - 255 else if 255 < sint u then 255 else u)"

fun encode :: "InputEvent \<Rightarrow> InputEncoder \<Rightarrow> FastPathInputEvent list \<times> InputEncoder" where
  "encode (Key scancode extended down) enc =
     ([key_event scancode extended down],
      enc\<lparr>enc_keys := (if down then os_insert else os_remove) (scancode, extended) (enc_keys enc)\<rparr>)"
| "encode (Unicode ch down) enc = ([UnicodeKeyboardEvent (if down then 0 else KF_RELEASE) ch], enc)"
| "encode (MouseMove x y) enc = ([mouse_event PF_MOVE 0 x y], enc\<lparr>enc_position := (x, y)\<rparr>)"
| "encode (MouseButtonEvent button down x y) enc =
     ([button_event (button_id button) down x y],
      enc\<lparr>enc_position := (x, y),
          enc_buttons := (if down then os_insert else os_remove) (button_id button) (enc_buttons enc)\<rparr>)"
| "encode (Wheel hor units) enc =
     ([mouse_event (if hor then PF_HORIZONTAL_WHEEL else PF_VERTICAL_WHEEL) (clamp_units units)
        (fst (enc_position enc)) (snd (enc_position enc))], enc)"
| "encode (SyncToggles cap num) enc =
     ([SyncEvent ((if cap then SF_CAPS_LOCK else 0) OR (if num then SF_NUM_LOCK else 0))],
      enc\<lparr>enc_toggles := (cap, num)\<rparr>)"
| "encode ReleaseAll enc =
     (map (\<lambda>(sc, ext). key_event sc ext False) (enc_keys enc) @
      map (\<lambda>b. button_event b False (fst (enc_position enc)) (snd (enc_position enc))) (enc_buttons enc),
      enc\<lparr>enc_keys := [], enc_buttons := []\<rparr>)"

definition enc_toggle_event :: "InputEncoder \<Rightarrow> InputEvent" where
  "enc_toggle_event enc = SyncToggles (fst (enc_toggles enc)) (snd (enc_toggles enc))"

fun encode_all :: "InputEvent list \<Rightarrow> InputEncoder \<Rightarrow> FastPathInputEvent list \<times> InputEncoder" where
  "encode_all [] enc = ([], enc)"
| "encode_all (e # es) enc =
     (let (out, enc) = encode e enc; (out', enc) = encode_all es enc in (out @ out', enc))"

subsection \<open>The server's view\<close>

text \<open>The keys and buttons a server holds down after an event.\<close>

definition button_of_flags :: "u16 \<Rightarrow> ButtonId option" where
  "button_of_flags f =
     (if f AND PF_LEFT_BUTTON \<noteq> 0 then Some BtnLeft
      else if f AND PF_RIGHT_BUTTON \<noteq> 0 then Some BtnRight
      else if f AND PF_MIDDLE_BUTTON \<noteq> 0 then Some BtnMiddle
      else None)"

definition button_of_x_flags :: "u16 \<Rightarrow> ButtonId option" where
  "button_of_x_flags f =
     (if f AND PXF_BUTTON1 \<noteq> 0 then Some BtnX1 else if f AND PXF_BUTTON2 \<noteq> 0 then Some BtnX2 else None)"

definition set_held :: "bool \<Rightarrow> 'a \<Rightarrow> 'a set \<Rightarrow> 'a set" where
  "set_held down x S = (if down then insert x S else S - {x})"

fun remote_apply :: "FastPathInputEvent \<Rightarrow> (u8 \<times> bool) set \<times> ButtonId set \<Rightarrow> (u8 \<times> bool) set \<times> ButtonId set" where
  "remote_apply (KeyboardEvent f sc) (K, B) =
     (set_held (f AND KF_RELEASE = 0) (sc, f AND KF_EXTENDED \<noteq> 0) K, B)"
| "remote_apply (MouseEvent f u x y) (K, B) =
     (case button_of_flags f of None \<Rightarrow> (K, B) | Some b \<Rightarrow> (K, set_held (f AND PF_DOWN \<noteq> 0) b B))"
| "remote_apply (MouseEventEx f x y) (K, B) =
     (case button_of_x_flags f of None \<Rightarrow> (K, B) | Some b \<Rightarrow> (K, set_held (f AND PXF_DOWN \<noteq> 0) b B))"
| "remote_apply _ KB = KB"

definition remote_applies :: "FastPathInputEvent list \<Rightarrow> (u8 \<times> bool) set \<times> ButtonId set \<Rightarrow> (u8 \<times> bool) set \<times> ButtonId set" where
  "remote_applies es KB = fold remote_apply es KB"

definition enc_held :: "InputEncoder \<Rightarrow> (u8 \<times> bool) set \<times> ButtonId set" where
  "enc_held enc = (set (enc_keys enc), set (enc_buttons enc))"

lemma remote_key [simp]: "remote_apply (key_event sc ext down) (K, B) = (set_held down (sc, ext) K, B)"
  by (cases ext; cases down) (simp_all add: key_event_def pf_defs)

lemma remote_button [simp]: "remote_apply (button_event b down x y) (K, B) = (K, set_held down b B)"
  by (cases b; cases down)
    (simp_all add: button_event_def mouse_event_def button_of_flags_def button_of_x_flags_def pf_defs)

lemma remote_move [simp]:
  "remote_apply (mouse_event PF_MOVE u x y) KB = KB"
  "remote_apply (mouse_event (if hor then PF_HORIZONTAL_WHEEL else PF_VERTICAL_WHEEL) u x y) KB = KB"
  by (cases KB; simp add: mouse_event_def button_of_flags_def pf_defs)+

lemma remote_release_keys:
  "fold remote_apply (map (\<lambda>(sc, ext). key_event sc ext False) ks) (K, B) = (K - set ks, B)"
  by (induction ks arbitrary: K) (auto simp: set_held_def)

lemma remote_release_buttons:
  "fold remote_apply (map (\<lambda>b. button_event b False x y) bs) (K, B) = (K, B - set bs)"
  by (induction bs arbitrary: B) (auto simp: set_held_def)

text \<open>The encoder's record of what is held is the server's.\<close>

lemma encode_held: "remote_applies (fst (encode e enc)) (enc_held enc) = enc_held (snd (encode e enc))"
  by (cases e)
    (auto simp: remote_applies_def enc_held_def set_held_def remote_release_keys remote_release_buttons)

lemma encode_all_held: "remote_applies (fst (encode_all es enc)) (enc_held enc) = enc_held (snd (encode_all es enc))"
proof (induction es arbitrary: enc)
  case Nil
  then show ?case by (simp add: remote_applies_def)
next
  case (Cons e es)
  have "remote_applies (fst (encode e enc) @ fst (encode_all es (snd (encode e enc)))) (enc_held enc) =
      remote_applies (fst (encode_all es (snd (encode e enc)))) (enc_held (snd (encode e enc)))"
    using encode_held [of e enc] by (simp add: remote_applies_def)
  with Cons show ?case by (simp add: Let_def case_prod_unfold)
qed

text \<open>Well-formedness, and the units of every wheel event fit the field of the PDU.\<close>

definition enc_wf :: "InputEncoder \<Rightarrow> bool" where
  "enc_wf enc \<longleftrightarrow> os_wf (enc_keys enc) \<and> os_wf (enc_buttons enc)"

lemma enc_wf_default: "enc_wf InputEncoder_default"
  by (simp add: enc_wf_def InputEncoder_default_def os_wf_ops)

lemma enc_wf_encode: "enc_wf enc \<Longrightarrow> enc_wf (snd (encode e enc))"
  by (cases e) (auto simp: enc_wf_def os_wf_ops)

lemma enc_wf_encode_all: "enc_wf enc \<Longrightarrow> enc_wf (snd (encode_all es enc))"
  by (induction es arbitrary: enc) (auto simp: Let_def case_prod_unfold enc_wf_encode)

fun units_fit :: "FastPathInputEvent \<Rightarrow> bool" where
  "units_fit (MouseEvent f u x y) = (- 256 \<le> sint u \<and> sint u \<le> 255)"
| "units_fit _ = True"

lemma encode_units_fit: "list_all units_fit (fst (encode e enc))"
proof -
  have b: "units_fit (button_event b d x y)" for b d x y
    by (cases b) (simp_all add: button_event_def mouse_event_def)
  have c: "- 256 \<le> sint (clamp_units u)" "sint (clamp_units u) \<le> 255" for u
    by (auto simp: clamp_units_def)
  show ?thesis
    by (cases e) (auto simp: list_all_iff key_event_def mouse_event_def b c)
qed

end
