(* ===== verification/Rdp_Actor.thy ===== *)
theory Rdp_Actor
  imports Rdp_Connect Rdp_FastPath Core_Reconnect
begin

text \<open>
  \<open>crates/drift-rdp/src/actor.rs\<close> and the adapter \<open>clipboard.rs\<close>: the session actor. A state is the
  actor between two awaits, with the phase it waits in; \<open>actor_step\<close> is what happens when one of the
  futures it selects on is ready, with the clock's reading, and returns everything the actor does to
  the outside in order. The protocol library's active stage is the parameter \<open>actor_env\<close> over an
  abstract stage state. Statistics are left out.
\<close>

subsection \<open>The outside\<close>

text \<open>Callbacks of the clipboard channel, queued while a payload is processed.\<close>

datatype BackendEvent =
    InitialFormatList
  | RemoteCopy "ClipFormat list"
  | DataRequest u32
  | DataResponse "u8 list option"

fun backend_input :: "BackendEvent \<Rightarrow> SyncInput" where
  "backend_input InitialFormatList = InitialFormatListRequested"
| "backend_input (RemoteCopy formats) = RemoteFormatList formats"
| "backend_input (DataRequest i) = RemoteDataRequest i"
| "backend_input (DataResponse data) = RemoteData data"

record Callbacks =
  cl_clipboard :: "BackendEvent list"
  cl_max_monitor_area :: "u64 option"

text \<open>
  The stage: processing a payload (an error carries the graphics client's reason, if it has one),
  encoding input, a monitor layout (outer \<open>None\<close>: not ready, inner: not encodable), Suppress Output for
  a rectangle's right and bottom edge, a clipboard action, the due acknowledgements, the shutdown
  request, and the visibility of the graphics client.
\<close>

record ('f, 's, 'w, 'p, 'c) actor_env =
  ae_f64 :: "'f f64_ops"
  ae_images :: image_env
  ae_sha :: "u8 list \<Rightarrow> CertFingerprint"
  ae_pubkey :: "u8 list \<Rightarrow> u8 list option"
  ae_redirect :: "'c redirect_env"
  ae_process :: "'s \<Rightarrow> 'p \<Rightarrow> (DisconnectReason option \<times> rstr, 'w StageOutput list) result \<times> Callbacks \<times> 's"
  ae_input :: "'s \<Rightarrow> FastPathInputEvent list \<Rightarrow> 'w StageOutput list option \<times> 's"
  ae_resize :: "'s \<Rightarrow> MonitorLayout \<Rightarrow> 'w option option \<times> 's"
  ae_suppress :: "'s \<Rightarrow> (u16 \<times> u16) option \<Rightarrow> 'w option \<times> 's"
  ae_clip :: "'s \<Rightarrow> SyncAction \<Rightarrow> (DisconnectReason, 'w option) result \<times> 's"
  ae_acks :: "'s \<Rightarrow> (DisconnectReason, 'w option) result \<times> 's"
  ae_shutdown :: "'s \<Rightarrow> 'w list option \<times> 's"
  ae_visible :: "'s \<Rightarrow> bool \<Rightarrow> 's"

text \<open>What the actor does, in order; \<open>RejectedState\<close> and \<open>LogTyping\<close> are log lines of the code.\<close>

datatype 'w Effect =
    Emit SessionEvent
  | RejectedState SessionState
  | LogTyping
  | StageInput "FastPathInputEvent list"
  | StageResize MonitorLayout
  | StageSuppress "(u16 \<times> u16) option"
  | StageClip SyncAction
  | StageVisible bool
  | StageShutdown
  | Frame 'w

subsection \<open>State\<close>

datatype LegEnd = EndRedirect ServerRedirectionPdu | EndClosed | Ended DisconnectReason

text \<open>\<open>lg_wire\<close>: after how many more writes the transport fails, and with what error.\<close>

record 's Leg =
  lg_stage :: 's
  lg_desktop :: DesktopSize
  lg_wire :: "(nat \<times> IoError) option"

record 's LegResult =
  res_stage :: 's
  res_width :: u16
  res_height :: u16
  res_clipboard :: bool

datatype 's Phase =
    PStartup
  | PLeg LegRequest LegPhase
  | PLive "'s Leg"
  | PBackoff "instant option" DisconnectReason
  | PIdle
  | PExit

record ('f, 's) Actor =
  ac_profile :: ConnectionProfile
  ac_secrets :: SessionSecrets
  ac_options :: SessionOptions
  ac_queue :: "'f SessionCommand list"
  ac_dropped :: bool
  ac_closed :: bool
  ac_state :: SessionState
  ac_leg :: u8
  ac_session_pin :: "CertFingerprint option"
  ac_visible :: bool
  ac_focused :: bool
  ac_geometry :: "'f ViewGeometry option"
  ac_resize :: "'f ResizeDriver"
  ac_typist :: GreeterTypist
  ac_input :: InputEncoder
  ac_clipboard :: "ClipboardSync option"
  ac_clipboard_local :: "ClipboardContents option"
  ac_change_count :: i64
  ac_policy :: ReconnectPolicy
  ac_activations :: u32
  ac_scale :: u32
  ac_redirects :: RedirectLoop
  ac_phase :: "'s Phase"

definition spawn :: "ConnectionProfile \<Rightarrow> SessionSecrets \<Rightarrow> SessionOptions \<Rightarrow> ReconnectPolicy \<Rightarrow> ('f, 's) Actor" where
  "spawn profile secrets options policy =
     \<lparr>ac_profile = profile, ac_secrets = secrets, ac_options = options, ac_queue = [], ac_dropped = False,
      ac_closed = False, ac_state = Idle, ac_leg = 1, ac_session_pin = None, ac_visible = True, ac_focused = False,
      ac_geometry = None, ac_resize = ResizeDriver_new (mode profile) (display profile), ac_typist = GreeterTypist_new,
      ac_input = InputEncoder_default, ac_clipboard = None, ac_clipboard_local = None, ac_change_count = 0,
      ac_policy = policy, ac_activations = 0, ac_scale = 100,
      ac_redirects = RedirectLoop_new (mode profile) (host profile) (port profile), ac_phase = PStartup\<rparr>"

subsection \<open>State changes\<close>

definition set_state :: "SessionState \<Rightarrow> ('f, 's) Actor \<Rightarrow> 'w Effect list \<times> ('f, 's) Actor" where
  "set_state next a =
     (if ac_state a = next then ([], a)
      else case transition (ac_state a) next of
        Inr next \<Rightarrow> ([Emit (EvState next)], a\<lparr>ac_state := next\<rparr>)
      | Inl _ \<Rightarrow> ([RejectedState next], a))"

definition terminal_state :: "DisconnectReason \<Rightarrow> SessionState" where
  "terminal_state reason = (if is_retryable reason then Disconnected reason else Failed reason)"

fun remember :: "'f f64_ops \<Rightarrow> instant \<Rightarrow> 'f SessionCommand \<Rightarrow> ('f, 's) Actor \<Rightarrow> ('f, 's) Actor" where
  "remember F now (CmdResize geometry) a =
     a\<lparr>ac_geometry := Some geometry, ac_resize := rd_on_geometry F geometry now (ac_resize a)\<rparr>"
| "remember F now (CmdSetVisible visible) a = a\<lparr>ac_visible := visible\<rparr>"
| "remember F now (CmdFocus focused) a = a\<lparr>ac_focused := focused\<rparr>"
| "remember F now (CmdClipboardLocalChanged contents) a = a\<lparr>ac_clipboard_local := Some contents\<rparr>"
| "remember F now _ a = a"

subsection \<open>Starting a leg\<close>

definition actor_tls_server_name :: "('f, 's) Actor \<Rightarrow> rstr" where
  "actor_tls_server_name a =
     (case opt_tls_server_name (ac_options a) of Some n \<Rightarrow> n | None \<Rightarrow> host (ac_profile a))"

definition wanted_desktop :: "MonitorLayout option \<Rightarrow> DesktopSize" where
  "wanted_desktop l = (case l of None \<Rightarrow> DEFAULT_DESKTOP | Some l \<Rightarrow> \<lparr>width = ml_width l, height = ml_height l\<rparr>)"

definition wanted_scale :: "MonitorLayout option \<Rightarrow> u32" where
  "wanted_scale l = (case l of None \<Rightarrow> 100 | Some l \<Rightarrow> desktop_scale_factor l)"

definition pin_expectation :: "CertFingerprint option \<Rightarrow> CertExpectation" where
  "pin_expectation p = (case p of None \<Rightarrow> TrustOnFirstUse | Some pin \<Rightarrow> Pinned pin)"

definition first_leg :: "'f f64_ops \<Rightarrow> ('f, 's) Actor \<Rightarrow> LegRequest \<times> ('f, 's) Actor" where
  "first_leg F a =
     (let layout = connect_layout F (ac_resize a);
          a = a\<lparr>ac_scale := wanted_scale layout\<rparr>
      in (\<lparr>lr_leg = 1, lr_mode = mode (ac_profile a), lr_host = host (ac_profile a), lr_port = port (ac_profile a),
           lr_tls_server_name = actor_tls_server_name a,
           lr_auth = LegNla (rdp_username (ac_profile a)) (sec_rdp_password (ac_secrets a)),
           lr_expectation = pin_expectation (cert_pin (ac_profile a)), lr_role = ServerCertificate,
           lr_routing_token = None, lr_client_name = opt_client_name (ac_options a),
           lr_desktop = wanted_desktop layout, lr_scale = ac_scale a\<rparr>, a))"

definition redirect_request :: "'f f64_ops \<Rightarrow> NextLeg \<Rightarrow> ('f, 's) Actor \<Rightarrow> LegRequest \<times> ('f, 's) Actor" where
  "redirect_request F n a =
     (let layout = connect_layout F (ac_resize a);
          a = a\<lparr>ac_scale := wanted_scale layout\<rparr>
      in (\<lparr>lr_leg = nl_leg n, lr_mode = mode (ac_profile a), lr_host = nl_host n, lr_port = nl_port n,
           lr_tls_server_name = (if nl_host n = host (ac_profile a) then actor_tls_server_name a else nl_host n),
           lr_auth = LegRdstls (nl_credentials n),
           lr_expectation =
             (case nl_target_certificate n of
                Some der \<Rightarrow> Exact der
              | None \<Rightarrow> pin_expectation (case cert_pin (ac_profile a) of Some p \<Rightarrow> Some p | None \<Rightarrow> ac_session_pin a)),
           lr_role = RedirectTarget, lr_routing_token = nl_routing_token n,
           lr_client_name = opt_client_name (ac_options a), lr_desktop = wanted_desktop layout,
           lr_scale = ac_scale a\<rparr>, a))"

text \<open>The end of a session that was closed.\<close>

definition user_closed :: "('f, 's) Actor \<Rightarrow> 'w Effect list \<times> ('f, 's) Actor" where
  "user_closed a = (let (ef, a) = set_state (Disconnected UserClosed) a in (ef, a\<lparr>ac_phase := PExit\<rparr>))"

text \<open>\<open>connect_one\<close> up to the first await: fresh channels, and the dial.\<close>

definition start_leg :: "instant \<Rightarrow> LegRequest \<Rightarrow> ('f, 's) Actor \<Rightarrow> 'w Effect list \<times> ('f, 's) Actor" where
  "start_leg now req a =
     (let a = a\<lparr>ac_leg := lr_leg req\<rparr>
      in if ac_closed a then user_closed a
         else
           let a = a\<lparr>ac_clipboard := Some (ClipboardSync_new (clipboard (ac_profile a)) (ac_focused a))\<rparr>;
               (ef, a) = set_state (Connecting (ac_leg a) Tcp) a
           in (ef, a\<lparr>ac_phase := PLeg req (PhTcp (now + opt_connect_timeout (ac_options a)))\<rparr>))"

definition connect :: "'f f64_ops \<Rightarrow> instant \<Rightarrow> ('f, 's) Actor \<Rightarrow> 'w Effect list \<times> ('f, 's) Actor" where
  "connect F now a =
     (let a = a\<lparr>ac_redirects := RedirectLoop_new (mode (ac_profile a)) (host (ac_profile a)) (port (ac_profile a))\<rparr>;
          (req, a) = first_leg F a
      in start_leg now req a)"

subsection \<open>After a connection\<close>

text \<open>The top of the waiting loop of \<open>wait_backoff\<close>.\<close>

definition check_backoff :: "'f f64_ops \<Rightarrow> instant \<Rightarrow> ('f, 's) Actor \<Rightarrow> 'w Effect list \<times> ('f, 's) Actor" where
  "check_backoff F now a =
     (case ac_phase a of
        PBackoff deadline _ \<Rightarrow>
          if (case deadline of None \<Rightarrow> False | Some d \<Rightarrow> d \<le> now) \<and> network_reachable (ac_policy a)
          then connect F now a else ([], a)
      | _ \<Rightarrow> ([], a))"

text \<open>\<open>Duration::MAX\<close> is shown as zero, and no instant is that far away.\<close>

definition wait_backoff ::
    "'f f64_ops \<Rightarrow> instant \<Rightarrow> u32 \<Rightarrow> duration \<Rightarrow> DisconnectReason \<Rightarrow> ('f, 's) Actor \<Rightarrow> 'w Effect list \<times> ('f, 's) Actor" where
  "wait_backoff F now attempt delay reason a =
     (let shown = (if delay = duration_max then 0 else delay);
          (ef, a) = set_state (Reconnecting attempt shown reason) a;
          deadline = (if delay = duration_max then None else Some (now + delay));
          (ef', a) = check_backoff F now (a\<lparr>ac_phase := PBackoff deadline reason\<rparr>)
      in (ef @ ef', a))"

definition stop :: "SessionState \<Rightarrow> ('f, 's) Actor \<Rightarrow> 'w Effect list \<times> ('f, 's) Actor" where
  "stop s a = (let (ef, a) = set_state s a in (ef, a\<lparr>ac_phase := PIdle\<rparr>))"

definition after_disconnect ::
    "'f f64_ops \<Rightarrow> instant \<Rightarrow> DisconnectReason \<Rightarrow> ('f, 's) Actor \<Rightarrow> 'w Effect list \<times> ('f, 's) Actor" where
  "after_disconnect F now reason a =
     (if reason = UserClosed then user_closed a
      else if ac_activations a = 0 then stop (terminal_state reason) a
      else
        let (d, p) = on_disconnect (ac_policy a) reason now;
            a = a\<lparr>ac_policy := p\<rparr>
        in case d of
             Retry attempt delay \<Rightarrow> wait_backoff F now attempt delay reason a
           | WaitForNetwork attempt \<Rightarrow> wait_backoff F now attempt duration_max reason a
           | GiveUp _ \<Rightarrow> stop (terminal_state reason) a)"

subsection \<open>Sequencing with early returns\<close>

text \<open>A part of a live leg's work may end the leg; what follows then does not run.\<close>

type_synonym ('w, 'x) part = "'x \<Rightarrow> 'w Effect list \<times> LegEnd option \<times> 'x"

definition then_live :: "('w, 'x) part \<Rightarrow> ('w, 'x) part \<Rightarrow> ('w, 'x) part" where
  "then_live m k x =
     (case m x of
        (ef, Some e, y) \<Rightarrow> (ef, Some e, y)
      | (ef, None, y) \<Rightarrow> (let (ef', e, z) = k y in (ef @ ef', e, z)))"

definition keep_live :: "('w, 'x) part" where
  "keep_live x = ([], None, x)"

fun each_live :: "('i \<Rightarrow> ('w, 'x) part) \<Rightarrow> 'i list \<Rightarrow> ('w, 'x) part" where
  "each_live f [] = keep_live"
| "each_live f (i # is) = then_live (f i) (each_live f is)"

definition effect :: "'w Effect \<Rightarrow> ('w, 'x) part" where
  "effect e x = ([e], None, x)"

definition upd :: "('x \<Rightarrow> 'x) \<Rightarrow> ('w, 'x) part" where
  "upd f x = ([], None, f x)"

subsection \<open>A live leg\<close>

type_synonym ('w, 'f, 's) live = "('w, 's Leg \<times> ('f, 's) Actor) part"

definition write_frame :: "'w \<Rightarrow> ('w, 'f, 's) live" where
  "write_frame frame = (\<lambda>(leg, a).
     case lg_wire leg of
       None \<Rightarrow> ([Frame frame], None, (leg, a))
     | Some (0, e) \<Rightarrow> ([], Some (Ended (classify_io_error e Activation)), (leg, a))
     | Some (Suc n, e) \<Rightarrow> ([Frame frame], None, (leg\<lparr>lg_wire := Some (n, e)\<rparr>, a)))"

definition handle_output :: "'w StageOutput \<Rightarrow> ('w, 'f, 's) live" where
  "handle_output out = (\<lambda>(leg, a).
     case cursor_update out (ac_scale a) of
       Some cursor \<Rightarrow> effect (Emit (EvCursor cursor)) (leg, a)
     | None \<Rightarrow>
         (case out of
            ResponseFrame frame \<Rightarrow> write_frame frame (leg, a)
          | ServerRedirect pdu \<Rightarrow> ([], Some (EndRedirect pdu), (leg, a))
          | Terminate reason \<Rightarrow>
              ([], Some (Ended (case reason of UserInitiated \<Rightarrow> LoggedOffRemotely | _ \<Rightarrow> ServerShutdown)), (leg, a))
          | _ \<Rightarrow> keep_live (leg, a)))"

definition handle_outputs :: "'w StageOutput list \<Rightarrow> ('w, 'f, 's) live" where
  "handle_outputs outs = each_live handle_output outs"

definition send_input_events :: "('f, 's, 'w, 'p, 'c) actor_env \<Rightarrow> FastPathInputEvent list \<Rightarrow> ('w, 'f, 's) live" where
  "send_input_events E events = (\<lambda>(leg, a).
     if events = [] then keep_live (leg, a)
     else
       let (outs, s) = ae_input E (lg_stage leg) events
       in then_live (effect (StageInput events))
            (case outs of None \<Rightarrow> keep_live | Some outs \<Rightarrow> handle_outputs outs)
            (leg\<lparr>lg_stage := s\<rparr>, a))"

definition with_clipboard :: "('f, 's, 'w, 'p, 'c) actor_env \<Rightarrow> instant \<Rightarrow> SyncInput \<Rightarrow> ('f, 's) Actor \<Rightarrow> SyncAction list \<times> ('f, 's) Actor" where
  "with_clipboard E now i a =
     (case ac_clipboard a of
        None \<Rightarrow> ([], a)
      | Some cs \<Rightarrow> (let (actions, cs) = handle (ae_images E) now i cs in (actions, a\<lparr>ac_clipboard := Some cs\<rparr>)))"

text \<open>\<open>ClipboardChannel::drain\<close>: the queued callbacks, one after the other.\<close>

fun drain_clipboard :: "('f, 's, 'w, 'p, 'c) actor_env \<Rightarrow> instant \<Rightarrow> BackendEvent list \<Rightarrow> ('f, 's) Actor \<Rightarrow> SyncAction list \<times> ('f, 's) Actor" where
  "drain_clipboard E now [] a = ([], a)"
| "drain_clipboard E now (e # es) a =
     (let (actions, a) = with_clipboard E now (backend_input e) a;
          (actions', a) = drain_clipboard E now es a
      in (actions @ actions', a))"

definition apply_clip :: "('f, 's, 'w, 'p, 'c) actor_env \<Rightarrow> SyncAction \<Rightarrow> ('w, 'f, 's) live" where
  "apply_clip E action = (\<lambda>(leg, a).
     case action of
       WritePasteboard contents \<Rightarrow> effect (Emit (EvClipboardRemote contents)) (leg, a)
     | Rejected _ \<Rightarrow> keep_live (leg, a)
     | _ \<Rightarrow>
         (let (r, s) = ae_clip E (lg_stage leg) action
          in then_live (effect (StageClip action))
               (case r of
                  Inl reason \<Rightarrow> (\<lambda>x. ([], Some (Ended reason), x))
                | Inr None \<Rightarrow> keep_live
                | Inr (Some frame) \<Rightarrow> write_frame frame)
               (leg\<lparr>lg_stage := s\<rparr>, a)))"

definition apply_clipboard :: "('f, 's, 'w, 'p, 'c) actor_env \<Rightarrow> SyncAction list \<Rightarrow> ('w, 'f, 's) live" where
  "apply_clipboard E actions = each_live (apply_clip E) actions"

definition clipboard_input :: "('f, 's, 'w, 'p, 'c) actor_env \<Rightarrow> instant \<Rightarrow> SyncInput \<Rightarrow> ('w, 'f, 's) live" where
  "clipboard_input E now i = (\<lambda>(leg, a).
     let (actions, a) = with_clipboard E now i a in apply_clipboard E actions (leg, a))"

definition edge :: "u32 \<Rightarrow> u16" where
  "edge v = u16_saturate (saturating_sub v 1)"

definition set_visible :: "('f, 's, 'w, 'p, 'c) actor_env \<Rightarrow> bool \<Rightarrow> ('w, 'f, 's) live" where
  "set_visible E visible =
     then_live (effect (StageVisible visible))
       (upd (\<lambda>(leg, a). (leg\<lparr>lg_stage := ae_visible E (lg_stage leg) visible\<rparr>, a)))"

definition suppress_output :: "('f, 's, 'w, 'p, 'c) actor_env \<Rightarrow> bool \<Rightarrow> ('w, 'f, 's) live" where
  "suppress_output E visible = (\<lambda>(leg, a).
     let rect = (if visible then Some (edge (width (lg_desktop leg)), edge (height (lg_desktop leg))) else None);
         (frame, s) = ae_suppress E (lg_stage leg) rect
     in then_live (effect (StageSuppress rect))
          (case frame of None \<Rightarrow> keep_live | Some frame \<Rightarrow> write_frame frame)
          (leg\<lparr>lg_stage := s\<rparr>, a))"

definition apply_visibility :: "('f, 's, 'w, 'p, 'c) actor_env \<Rightarrow> bool \<Rightarrow> ('w, 'f, 's) live" where
  "apply_visibility E visible =
     then_live (if visible then set_visible E True else keep_live)
       (then_live (suppress_output E visible)
         (if visible then keep_live else set_visible E False))"

text \<open>The replay of the local clipboard on a leg, as a local change with a count of its own.\<close>

definition local_changed :: "('f, 's, 'w, 'p, 'c) actor_env \<Rightarrow> instant \<Rightarrow> ClipboardContents \<Rightarrow> ('w, 'f, 's) live" where
  "local_changed E now contents = (\<lambda>(leg, a).
     let a = a\<lparr>ac_change_count := ac_change_count a + 1\<rparr>
     in clipboard_input E now (LocalChanged (ac_change_count a) contents) (leg, a))"

definition release_on_activation :: "('f, 's, 'w, 'p, 'c) actor_env \<Rightarrow> ('w, 'f, 's) live" where
  "release_on_activation E = (\<lambda>(leg, a).
     if ac_activations a = 0 then keep_live (leg, a)
     else
       let (events, enc) = encode_all [ReleaseAll, enc_toggle_event (ac_input a)] (ac_input a)
       in send_input_events E events (leg, a\<lparr>ac_input := enc\<rparr>))"

definition activated_state :: "instant \<Rightarrow> bool \<Rightarrow> ('w, 'f, 's) live" where
  "activated_state now has_clipboard = (\<lambda>(leg, a).
     let a = a\<lparr>ac_policy := on_connected (ac_policy a) now,
               ac_resize := rd_on_leg_activated
                 \<lparr>ml_width = width (lg_desktop leg), ml_height = height (lg_desktop leg), desktop_scale_factor = ac_scale a,
                  device_scale_factor = device_scale_for (ac_scale a)\<rparr> (ac_resize a)\<rparr>;
         caps = \<lparr>sc_display_control = mode_has_display_control (mode (ac_profile a)), sc_clipboard = has_clipboard,
                 sc_scale_mode = scale_mode (mode (ac_profile a)) (display (ac_profile a))\<rparr>;
         a = a\<lparr>ac_typist :=
                 (if ac_state a = AwaitingGreeterLogin
                  then on_greeter (sec_linux_password (ac_secrets a) \<noteq> None) (ac_typist a) else disarm (ac_typist a))\<rparr>
     in effect (Emit (EvCapabilities caps)) (leg, a))"

definition on_activated :: "('f, 's, 'w, 'p, 'c) actor_env \<Rightarrow> instant \<Rightarrow> bool \<Rightarrow> ('w, 'f, 's) live" where
  "on_activated E now has_clipboard =
     then_live (activated_state now has_clipboard)
       (then_live (release_on_activation E)
         (then_live (upd (\<lambda>(leg, a). (leg, a\<lparr>ac_activations := ac_activations a + 1\<rparr>)))
           (then_live (\<lambda>(leg, a). if ac_visible a then keep_live (leg, a) else apply_visibility E False (leg, a))
             (\<lambda>(leg, a). case ac_clipboard_local a of
                 None \<Rightarrow> keep_live (leg, a)
               | Some contents \<Rightarrow> local_changed E now contents (leg, a)))))"

definition on_output_size :: "u32 Size \<Rightarrow> ('w, 'f, 's) live" where
  "on_output_size sz = (\<lambda>(leg, a).
     let leg = leg\<lparr>lg_desktop := sz\<rparr>
     in case ac_state a of
          Connected _ _ \<Rightarrow> (let (ef, a) = set_state (Connected (lg_desktop leg) (ac_scale a)) a in (ef, None, (leg, a)))
        | _ \<Rightarrow> ([], None, (leg, a)))"

definition poll_resize :: "('f, 's, 'w, 'p, 'c) actor_env \<Rightarrow> instant \<Rightarrow> ('w, 'f, 's) live" where
  "poll_resize E now = (\<lambda>(leg, a).
     case rd_poll (ae_f64 E) now (ac_resize a) of
       (None, rd) \<Rightarrow> keep_live (leg, a\<lparr>ac_resize := rd\<rparr>)
     | (Some layout, rd) \<Rightarrow>
         (let (r, s) = ae_resize E (lg_stage leg) layout
          in then_live (effect (StageResize layout))
               (case r of Some (Some frame) \<Rightarrow> write_frame frame | _ \<Rightarrow> keep_live)
               (leg\<lparr>lg_stage := s\<rparr>, a\<lparr>ac_resize := rd, ac_scale := desktop_scale_factor layout\<rparr>)))"

definition poll_typist :: "('f, 's, 'w, 'p, 'c) actor_env \<Rightarrow> instant \<Rightarrow> ('w, 'f, 's) live" where
  "poll_typist E now = (\<lambda>(leg, a).
     case sec_linux_password (ac_secrets a) of
       None \<Rightarrow> keep_live (leg, a)
     | Some password \<Rightarrow>
         (case gt_poll now password (ac_typist a) of
            (None, t) \<Rightarrow> keep_live (leg, a\<lparr>ac_typist := t\<rparr>)
          | (Some events, t) \<Rightarrow>
              (let (events, enc) = encode_all events (ac_input a)
               in then_live (effect LogTyping) (send_input_events E events) (leg, a\<lparr>ac_typist := t, ac_input := enc\<rparr>))))"

definition on_tick :: "('f, 's, 'w, 'p, 'c) actor_env \<Rightarrow> instant \<Rightarrow> ('w, 'f, 's) live" where
  "on_tick E now = then_live (poll_resize E now) (then_live (poll_typist E now) (clipboard_input E now Tick))"

text \<open>The write of the shutdown request stops at the first error; the wait for the answer has no effect.\<close>

definition shutdown :: "('f, 's, 'w, 'p, 'c) actor_env \<Rightarrow> ('w, 'f, 's) live" where
  "shutdown E = (\<lambda>(leg, a).
     let (frames, s) = ae_shutdown E (lg_stage leg);
         (ef, _, x) = each_live write_frame (case frames of None \<Rightarrow> [] | Some fs \<Rightarrow> fs) (leg\<lparr>lg_stage := s\<rparr>, a)
     in (StageShutdown # ef, Some EndClosed, x))"

fun on_command :: "('f, 's, 'w, 'p, 'c) actor_env \<Rightarrow> instant \<Rightarrow> 'f SessionCommand option \<Rightarrow> ('w, 'f, 's) live" where
  "on_command E now None x = shutdown E x"
| "on_command E now (Some CmdClose) x = shutdown E x"
| "on_command E now (Some (CmdInput event)) (leg, a) =
     (let (events, enc) = encode event (ac_input a)
      in send_input_events E events (leg, a\<lparr>ac_typist := gt_on_input event now (ac_typist a), ac_input := enc\<rparr>))"
| "on_command E now (Some (CmdResize geometry)) (leg, a) =
     keep_live (leg, a\<lparr>ac_geometry := Some geometry, ac_resize := rd_on_geometry (ae_f64 E) geometry now (ac_resize a)\<rparr>)"
| "on_command E now (Some (CmdSetVisible visible)) (leg, a) =
     (if ac_visible a = visible then keep_live (leg, a)
      else apply_visibility E visible (leg, a\<lparr>ac_visible := visible\<rparr>))"
| "on_command E now (Some (CmdFocus focused)) (leg, a) =
     clipboard_input E now (Focus focused) (leg, a\<lparr>ac_focused := focused\<rparr>)"
| "on_command E now (Some (CmdClipboardLocalChanged contents)) (leg, a) =
     local_changed E now contents (leg, a\<lparr>ac_clipboard_local := Some contents\<rparr>)"
| "on_command E now (Some (CmdNetworkReachable reachable)) (leg, a) =
     keep_live (leg, a\<lparr>ac_policy := set_network_reachable (ac_policy a) reachable\<rparr>)"
| "on_command E now (Some _) x = keep_live x"

text \<open>The capabilities of the Display Control channel: the total area, as one monitor.\<close>

definition display_caps :: "u64 \<Rightarrow> DisplayControlCaps" where
  "display_caps px =
     \<lparr>max_num_monitors = 1, max_monitor_area_factor_a = (if unat px < 2 ^ 32 then ucast px else - 1),
      max_monitor_area_factor_b = 1\<rparr>"

definition after_channel_io :: "('f, 's, 'w, 'p, 'c) actor_env \<Rightarrow> instant \<Rightarrow> Callbacks \<Rightarrow> ('w, 'f, 's) live" where
  "after_channel_io E now cl = (\<lambda>(leg, a).
     let a = (case cl_max_monitor_area cl of
           None \<Rightarrow> a
         | Some px \<Rightarrow> a\<lparr>ac_resize := rd_on_display_control_ready (display_caps px) now (ac_resize a)\<rparr>);
         (actions, a) = drain_clipboard E now (cl_clipboard cl) a
     in apply_clipboard E actions (leg, a))"

definition on_pdu :: "('f, 's, 'w, 'p, 'c) actor_env \<Rightarrow> instant \<Rightarrow> 'p \<Rightarrow> ('w, 'f, 's) live" where
  "on_pdu E now payload = (\<lambda>(leg, a).
     let (r, cl, s) = ae_process E (lg_stage leg) payload;
         leg = leg\<lparr>lg_stage := s\<rparr>
     in case r of
          Inl (gfx_error, text) \<Rightarrow>
            ([], Some (Ended (case gfx_error of Some reason \<Rightarrow> reason | None \<Rightarrow> ProtocolError text)), (leg, a))
        | Inr outs \<Rightarrow> then_live (handle_outputs outs) (after_channel_io E now cl) (leg, a))"

definition on_acks_ready :: "('f, 's, 'w, 'p, 'c) actor_env \<Rightarrow> ('w, 'f, 's) live" where
  "on_acks_ready E = (\<lambda>(leg, a).
     let (r, s) = ae_acks E (lg_stage leg); leg = leg\<lparr>lg_stage := s\<rparr>
     in case r of
          Inl reason \<Rightarrow> ([], Some (Ended reason), (leg, a))
        | Inr None \<Rightarrow> keep_live (leg, a)
        | Inr (Some frame) \<Rightarrow> write_frame frame (leg, a))"

subsection \<open>Between legs\<close>

text \<open>How a leg's end continues: the redirect loop, or the end of the connection.\<close>

definition finish_leg :: "('f, 's, 'w, 'p, 'c) actor_env \<Rightarrow> instant \<Rightarrow> LegEnd \<Rightarrow> ('f, 's) Actor \<Rightarrow> 'w Effect list \<times> ('f, 's) Actor" where
  "finish_leg E now e a =
     (case e of
        EndClosed \<Rightarrow> after_disconnect (ae_f64 E) now UserClosed a
      | Ended reason \<Rightarrow> after_disconnect (ae_f64 E) now reason a
      | EndRedirect pdu \<Rightarrow>
          (let (r, _, rl) = on_redirect (ae_redirect E) pdu (ac_redirects a);
               a = a\<lparr>ac_redirects := rl\<rparr>
           in case r of
                Inl reason \<Rightarrow> after_disconnect (ae_f64 E) now reason a
              | Inr n \<Rightarrow> (let (req, a) = redirect_request (ae_f64 E) n a in start_leg now req a)))"

definition live_step :: "('f, 's, 'w, 'p, 'c) actor_env \<Rightarrow> instant \<Rightarrow> ('w, 'f, 's) live \<Rightarrow> 's Leg \<Rightarrow> ('f, 's) Actor \<Rightarrow> 'w Effect list \<times> ('f, 's) Actor" where
  "live_step E now work leg a =
     (case work (leg, a) of
        (ef, None, (leg, a)) \<Rightarrow> (ef, a\<lparr>ac_phase := PLive leg\<rparr>)
      | (ef, Some e, (leg, a)) \<Rightarrow> (let (ef', a) = finish_leg E now e a in (ef @ ef', a)))"

definition leg_connected :: "('f, 's, 'w, 'p, 'c) actor_env \<Rightarrow> instant \<Rightarrow> 's LegResult \<Rightarrow> ('f, 's) Actor \<Rightarrow> 'w Effect list \<times> ('f, 's) Actor" where
  "leg_connected E now result a =
     (let desktop = \<lparr>width = ucast (res_width result), height = ucast (res_height result)\<rparr>;
          (ef, a) = (case rl_on_activated (ac_redirects a) desktop (ac_scale a) of
                None \<Rightarrow> ([], a) | Some s \<Rightarrow> set_state s a);
          leg = \<lparr>lg_stage = res_stage result, lg_desktop = desktop, lg_wire = None\<rparr>;
          (ef', a) = live_step E now (on_activated E now (res_clipboard result)) leg a
      in (ef @ ef', a))"

subsection \<open>While a leg connects\<close>

text \<open>The progress of a leg that needs no answer of the user.\<close>

definition progress :: "('f, 's, 'w, 'p, 'c) actor_env \<Rightarrow> instant \<Rightarrow> LegRequest \<Rightarrow> 's LegResult LegProgress \<Rightarrow> ('f, 's) Actor \<Rightarrow> 'w Effect list \<times> ('f, 's) Actor" where
  "progress E now req p a =
     (case p of
        EnterStage st ph \<Rightarrow>
          (let (ef, a) = set_state (Connecting (ac_leg a) st) a in (ef, a\<lparr>ac_phase := PLeg req ph\<rparr>))
      | LegConnected result \<Rightarrow> leg_connected E now result a
      | LegFailed reason \<Rightarrow> after_disconnect (ae_f64 E) now reason a
      | _ \<Rightarrow> ([], a))"

definition decide :: "('f, 's, 'w, 'p, 'c) actor_env \<Rightarrow> instant \<Rightarrow> LegRequest \<Rightarrow> u8 list \<Rightarrow> CertDecision \<Rightarrow> ('f, 's) Actor \<Rightarrow> 'w Effect list \<times> ('f, 's) Actor" where
  "decide E now req leaf_der d a =
     progress E now req (decided (ae_pubkey E) (opt_connect_timeout (ac_options a)) now req leaf_der d) a"

text \<open>\<open>decide_certificate\<close> up to its first await: a pin of this session needs no prompt.\<close>

definition ask_user :: "('f, 's, 'w, 'p, 'c) actor_env \<Rightarrow> instant \<Rightarrow> LegRequest \<Rightarrow> u8 list \<Rightarrow> CertFingerprint \<Rightarrow> ('f, 's) Actor \<Rightarrow> 'w Effect list \<times> ('f, 's) Actor" where
  "ask_user E now req leaf_der fp a =
     (if ac_session_pin a = Some fp then decide E now req leaf_der (Accept False) a
      else ([Emit (EvCertificatePrompt (lr_tls_server_name req) (lr_port req) fp (lr_role req))],
            a\<lparr>ac_phase := PLeg req (PhPrompt leaf_der fp)\<rparr>))"

definition leg_net :: "('f, 's, 'w, 'p, 'c) actor_env \<Rightarrow> instant \<Rightarrow> LegRequest \<Rightarrow> LegPhase \<Rightarrow> 's LegResult LegNet \<Rightarrow> ('f, 's) Actor \<Rightarrow> 'w Effect list \<times> ('f, 's) Actor" where
  "leg_net E now req ph net a =
     (case leg_step (ae_sha E) (ae_pubkey E) (opt_connect_timeout (ac_options a)) now req ph net of
        AskUser leaf_der fp \<Rightarrow> ask_user E now req leaf_der fp a
      | p \<Rightarrow> progress E now req p a)"

text \<open>The loop of \<open>decide_certificate\<close>: one command.\<close>

definition prompt_command :: "('f, 's, 'w, 'p, 'c) actor_env \<Rightarrow> instant \<Rightarrow> LegRequest \<Rightarrow> u8 list \<Rightarrow> CertFingerprint \<Rightarrow> 'f SessionCommand option \<Rightarrow> ('f, 's) Actor \<Rightarrow> 'w Effect list \<times> ('f, 's) Actor" where
  "prompt_command E now req leaf_der fp cmd a =
     (case cmd of
        Some (CmdAcceptCertificate accepted pin) \<Rightarrow>
          if accepted = fp
          then let (ef, a) = decide E now req leaf_der (Accept pin) (a\<lparr>ac_session_pin := Some fp\<rparr>)
               in ((if pin then [Emit (EvCertificatePinned fp)] else []) @ ef, a)
          else ([], a)
      | Some CmdRejectCertificate \<Rightarrow> decide E now req leaf_der Reject a
      | Some CmdClose \<Rightarrow> decide E now req leaf_der Closed a
      | None \<Rightarrow> decide E now req leaf_der Closed a
      | Some _ \<Rightarrow> ([], a))"

subsection \<open>Commands outside a leg\<close>

definition startup_command :: "'f f64_ops \<Rightarrow> instant \<Rightarrow> 'f SessionCommand option \<Rightarrow> ('f, 's) Actor \<Rightarrow> 'w Effect list \<times> ('f, 's) Actor" where
  "startup_command F now cmd a =
     (case cmd of
        None \<Rightarrow> connect F now a
      | Some CmdClose \<Rightarrow> connect F now a
      | Some other \<Rightarrow> ([], remember F now other a))"

definition backoff_command :: "'f f64_ops \<Rightarrow> instant \<Rightarrow> DisconnectReason \<Rightarrow> 'f SessionCommand option \<Rightarrow> ('f, 's) Actor \<Rightarrow> 'w Effect list \<times> ('f, 's) Actor" where
  "backoff_command F now reason cmd a =
     (case cmd of
        None \<Rightarrow> user_closed a
      | Some CmdClose \<Rightarrow> user_closed a
      | Some CmdCancel \<Rightarrow> stop (Disconnected reason) (a\<lparr>ac_policy := policy_reset (ac_policy a)\<rparr>)
      | Some CmdReconnectNow \<Rightarrow>
          if network_reachable (ac_policy a) then connect F now a else check_backoff F now a
      | Some (CmdNetworkReachable reachable) \<Rightarrow>
          (let a = a\<lparr>ac_policy := set_network_reachable (ac_policy a) reachable\<rparr>
           in if reachable then connect F now a else check_backoff F now a)
      | Some other \<Rightarrow> check_backoff F now (remember F now other a))"

definition idle_command :: "'f f64_ops \<Rightarrow> instant \<Rightarrow> 'f SessionCommand option \<Rightarrow> ('f, 's) Actor \<Rightarrow> 'w Effect list \<times> ('f, 's) Actor" where
  "idle_command F now cmd a =
     (case cmd of
        None \<Rightarrow> ([], a\<lparr>ac_phase := PExit\<rparr>)
      | Some CmdClose \<Rightarrow> ([], a\<lparr>ac_phase := PExit\<rparr>)
      | Some CmdReconnectNow \<Rightarrow>
          connect F now (a\<lparr>ac_policy := set_network_reachable (policy_reset (ac_policy a)) True\<rparr>)
      | Some (CmdNetworkReachable reachable) \<Rightarrow>
          ([], a\<lparr>ac_policy := set_network_reachable (ac_policy a) reachable\<rparr>)
      | Some other \<Rightarrow> ([], remember F now other a))"

subsection \<open>Steps\<close>

text \<open>
  \<open>AppSend\<close> and \<open>AppDrop\<close> are the app's side of the command channel: the forwarder raises \<open>closed\<close>
  before it passes \<open>Close\<close> on. The others are the futures the actor selects on.
\<close>

datatype ('f, 's, 'p) ActorEvent =
    AppSend "'f SessionCommand"
  | AppDrop
  | Recv
  | GraceOver
  | Net "'s LegResult LegNet"
  | ClosedSeen
  | Pdu 'p
  | ReadFailed IoError
  | AcksReady
  | OutputSize "u32 Size"
  | LiveTick
  | WireBreaks nat IoError
  | BackoffTick

definition recv :: "('f, 's) Actor \<Rightarrow> ('f SessionCommand option \<times> ('f, 's) Actor) option" where
  "recv a =
     (case ac_queue a of
        c # cs \<Rightarrow> Some (Some c, a\<lparr>ac_queue := cs\<rparr>)
      | [] \<Rightarrow> if ac_dropped a then Some (None, a) else None)"

definition on_recv :: "('f, 's, 'w, 'p, 'c) actor_env \<Rightarrow> instant \<Rightarrow> 'f SessionCommand option \<Rightarrow> ('f, 's) Actor \<Rightarrow> 'w Effect list \<times> ('f, 's) Actor" where
  "on_recv E now cmd a =
     (case ac_phase a of
        PStartup \<Rightarrow> startup_command (ae_f64 E) now cmd a
      | PLeg req (PhPrompt leaf_der fp) \<Rightarrow> prompt_command E now req leaf_der fp cmd a
      | PLive leg \<Rightarrow> live_step E now (on_command E now cmd) leg a
      | PBackoff _ reason \<Rightarrow> backoff_command (ae_f64 E) now reason cmd a
      | PIdle \<Rightarrow> idle_command (ae_f64 E) now cmd a
      | _ \<Rightarrow> ([], a))"

definition receives :: "'s Phase \<Rightarrow> bool" where
  "receives ph =
     (case ph of PLeg _ (PhPrompt _ _) \<Rightarrow> True | PLeg _ _ \<Rightarrow> False | PExit \<Rightarrow> False | _ \<Rightarrow> True)"

fun actor_step :: "('f, 's, 'w, 'p, 'c) actor_env \<Rightarrow> instant \<Rightarrow> ('f, 's, 'p) ActorEvent \<Rightarrow> ('f, 's) Actor \<Rightarrow> 'w Effect list \<times> ('f, 's) Actor" where
  "actor_step E now (AppSend cmd) a =
     (if ac_dropped a then ([], a)
      else ([], a\<lparr>ac_queue := ac_queue a @ [cmd], ac_closed := (ac_closed a \<or> cmd = CmdClose)\<rparr>))"
| "actor_step E now AppDrop a = ([], a\<lparr>ac_dropped := True, ac_closed := True\<rparr>)"
| "actor_step E now Recv a =
     (if receives (ac_phase a)
      then case recv a of None \<Rightarrow> ([], a) | Some (cmd, a) \<Rightarrow> on_recv E now cmd a
      else ([], a))"
| "actor_step E now GraceOver a =
     (case ac_phase a of PStartup \<Rightarrow> connect (ae_f64 E) now a | _ \<Rightarrow> ([], a))"
| "actor_step E now (Net net) a =
     (case ac_phase a of PLeg req ph \<Rightarrow> leg_net E now req ph net a | _ \<Rightarrow> ([], a))"
| "actor_step E now ClosedSeen a =
     (case ac_phase a of
        PLeg _ _ \<Rightarrow> if ac_closed a then after_disconnect (ae_f64 E) now UserClosed a else ([], a)
      | _ \<Rightarrow> ([], a))"
| "actor_step E now (WireBreaks n e) a =
     (case ac_phase a of PLive leg \<Rightarrow> ([], a\<lparr>ac_phase := PLive (leg\<lparr>lg_wire := Some (n, e)\<rparr>)\<rparr>) | _ \<Rightarrow> ([], a))"
| "actor_step E now BackoffTick a = check_backoff (ae_f64 E) now a"
| "actor_step E now ev a =
     (case ac_phase a of
        PLive leg \<Rightarrow>
          live_step E now
            (case ev of
               Pdu payload \<Rightarrow> on_pdu E now payload
             | ReadFailed e \<Rightarrow> (\<lambda>x. ([], Some (Ended (classify_io_error e Activation)), x))
             | AcksReady \<Rightarrow> on_acks_ready E
             | OutputSize sz \<Rightarrow> on_output_size sz
             | _ \<Rightarrow> on_tick E now)
            leg a
      | _ \<Rightarrow> ([], a))"

fun actor_run :: "('f, 's, 'w, 'p, 'c) actor_env \<Rightarrow> (instant \<times> ('f, 's, 'p) ActorEvent) list \<Rightarrow> ('f, 's) Actor \<Rightarrow> 'w Effect list \<times> ('f, 's) Actor" where
  "actor_run E [] a = ([], a)"
| "actor_run E ((now, ev) # es) a =
     (let (ef, a) = actor_step E now ev a; (ef', a) = actor_run E es a in (ef @ ef', a))"

end
