(* ===== verification/Rdp_Actor_Inv.thy ===== *)
theory Rdp_Actor_Inv
  imports Rdp_Actor
begin

text \<open>
  The invariant of the session actor. \<open>live_parts\<close> is the contract of the pieces of work a live leg is
  made of: what they leave alone and what they never do, kept by sequencing with early returns. On it
  rests \<open>actor_inv\<close>, which ties the session state to the phase, and the effects of a whole step.
\<close>

subsection \<open>Parts of a live leg\<close>

definition result_ok :: "('x \<Rightarrow> 'x \<Rightarrow> bool) \<Rightarrow> ('w Effect \<Rightarrow> bool) \<Rightarrow> 'x \<Rightarrow> 'w Effect list \<times> LegEnd option \<times> 'x \<Rightarrow> bool" where
  "result_ok R P x r \<longleftrightarrow> R x (snd (snd r)) \<and> list_all P (fst r)"

definition part_ok :: "('x \<Rightarrow> 'x \<Rightarrow> bool) \<Rightarrow> ('w Effect \<Rightarrow> bool) \<Rightarrow> ('w, 'x) part \<Rightarrow> bool" where
  "part_ok R P m \<longleftrightarrow> (\<forall>x. result_ok R P x (m x))"

lemma part_ok_pairI: "(\<And>l a. result_ok R P (l, a) (m (l, a))) \<Longrightarrow> part_ok R P m"
  by (simp add: part_ok_def)

locale live_parts =
  fixes R :: "'x \<Rightarrow> 'x \<Rightarrow> bool" and P :: "'w Effect \<Rightarrow> bool"
  assumes frame_refl: "R x x" and frame_trans: "R x y \<Longrightarrow> R y z \<Longrightarrow> R x z"
begin

lemma from_here: "part_ok R P m \<Longrightarrow> R x y \<Longrightarrow> result_ok R P x (m y)"
  unfolding part_ok_def result_ok_def by (meson frame_trans)

lemma keep: "part_ok R P keep_live"
  by (simp add: part_ok_def result_ok_def keep_live_def frame_refl)

lemma emits: "P e \<Longrightarrow> part_ok R P (effect e)"
  by (simp add: part_ok_def result_ok_def effect_def frame_refl)

lemma updates: "(\<And>x. R x (f x)) \<Longrightarrow> part_ok R P (upd f)"
  by (simp add: part_ok_def result_ok_def upd_def)

lemma seq:
  assumes "part_ok R P m" and "part_ok R P k"
  shows "part_ok R P (then_live m k)"
  unfolding part_ok_def
proof
  fix x
  obtain ef e y where m: "m x = (ef, e, y)" by (cases "m x")
  with assms(1) have "R x y" "list_all P ef" by (auto simp: part_ok_def result_ok_def dest: spec [of _ x])
  then show "result_ok R P x (then_live m k x)"
    using from_here [OF assms(2) \<open>R x y\<close>] m by (auto simp: then_live_def result_ok_def Let_def case_prod_unfold split: option.split)
qed

lemma each: "(\<And>i. part_ok R P (f i)) \<Longrightarrow> part_ok R P (each_live f is)"
  by (induction "is") (simp_all add: keep seq)

lemma stops: "part_ok R P (\<lambda>x. ([], e, x))"
  by (simp add: part_ok_def result_ok_def frame_refl)

lemma ends: "R x y \<Longrightarrow> result_ok R P x ([], e, y)"
  by (simp add: result_ok_def)

end

subsection \<open>What a live leg leaves alone\<close>

text \<open>
  The state, the request, the redirects and the command channel stay as they are; the typist is not
  armed. Only \<open>on_output_size\<close> changes the state, and only the activation arms the typist.
\<close>

definition live_frame :: "'s Leg \<times> ('f, 's) Actor \<Rightarrow> 's Leg \<times> ('f, 's) Actor \<Rightarrow> bool" where
  "live_frame x y \<longleftrightarrow>
     (case (snd x, snd y) of (a, b) \<Rightarrow>
        ac_state b = ac_state a \<and> ac_redirects b = ac_redirects a \<and> ac_profile b = ac_profile a \<and>
        ac_secrets b = ac_secrets a \<and> ac_options b = ac_options a \<and> ac_queue b = ac_queue a \<and>
        ac_dropped b = ac_dropped a \<and> ac_closed b = ac_closed a \<and> ac_leg b = ac_leg a \<and>
        ac_session_pin b = ac_session_pin a \<and> (gt_armed (ac_typist b) \<longrightarrow> gt_armed (ac_typist a)))"

fun accepted :: "'w Effect \<Rightarrow> bool" where
  "accepted (RejectedState s) = False"
| "accepted _ = True"

fun untyped :: "'w Effect \<Rightarrow> bool" where
  "untyped LogTyping = False"
| "untyped _ = True"

interpretation lp: live_parts live_frame accepted
  by unfold_locales (auto simp: live_frame_def)

interpretation lt: live_parts live_frame "\<lambda>e. accepted e \<and> untyped e"
  by unfold_locales (auto simp: live_frame_def)

abbreviation quiet :: "('w, 'f, 's) live \<Rightarrow> bool" where
  "quiet m \<equiv> part_ok live_frame (\<lambda>e. accepted e \<and> untyped e) m"

lemma quiet_accepted: "quiet m \<Longrightarrow> part_ok live_frame accepted m"
  unfolding part_ok_def result_ok_def by (blast intro: list.pred_mono_strong)

lemma live_frame_simps [simp]:
  "live_frame (l, a) (l', a')
     \<longleftrightarrow> ac_state a' = ac_state a \<and> ac_redirects a' = ac_redirects a \<and> ac_profile a' = ac_profile a \<and>
        ac_secrets a' = ac_secrets a \<and> ac_options a' = ac_options a \<and> ac_queue a' = ac_queue a \<and>
        ac_dropped a' = ac_dropped a \<and> ac_closed a' = ac_closed a \<and> ac_leg a' = ac_leg a \<and>
        ac_session_pin a' = ac_session_pin a \<and> (gt_armed (ac_typist a') \<longrightarrow> gt_armed (ac_typist a))"
  by (simp add: live_frame_def)

lemma quiet_write_frame: "quiet (write_frame frame)"
  by (rule part_ok_pairI) (auto simp: write_frame_def result_ok_def split: option.split nat.split)

lemma quiet_handle_output: "quiet (handle_output out)"
  by (rule part_ok_pairI)
    (auto simp: handle_output_def
      intro!: lt.from_here [OF lt.emits] lt.from_here [OF lt.keep] lt.from_here [OF quiet_write_frame] lt.ends
      split: option.split StageOutput.split)

lemma quiet_handle_outputs: "quiet (handle_outputs outs)"
  unfolding handle_outputs_def by (intro lt.each quiet_handle_output)

lemma quiet_send_input: "quiet (send_input_events E events)"
  by (rule part_ok_pairI)
    (auto simp: send_input_events_def Let_def case_prod_unfold
      intro!: lt.from_here [OF lt.seq] lt.from_here [OF lt.keep] lt.emits lt.keep quiet_handle_outputs split: option.split)

lemma quiet_apply_clipboard: "quiet (apply_clipboard E actions)"
proof -
  have "quiet (apply_clip E action)" for action
    by (intro part_ok_pairI)
      (auto simp: apply_clip_def Let_def case_prod_unfold
        intro!: lt.from_here [OF lt.seq] lt.from_here [OF lt.keep] lt.from_here [OF lt.emits] lt.emits lt.keep lt.stops quiet_write_frame
        split: option.split SyncAction.split sum.split)
  then show ?thesis unfolding apply_clipboard_def by (rule lt.each)
qed

lemma with_clipboard_frame [simp]: "live_frame (l, a) (l', snd (with_clipboard E now i a))"
  by (simp add: with_clipboard_def Let_def case_prod_unfold split: option.split)

lemma drain_clipboard_frame [simp]: "live_frame (l, a) (l', snd (drain_clipboard E now es a))"
proof (induction es arbitrary: a)
  case (Cons e es)
  have "live_frame (l, a) (l, snd (with_clipboard E now (backend_input e) a))" by (rule with_clipboard_frame)
  with Cons [of "snd (with_clipboard E now (backend_input e) a)"] show ?case
    by (simp add: Let_def case_prod_unfold)
qed simp

lemma quiet_clipboard_input: "quiet (clipboard_input E now i)"
  by (rule part_ok_pairI)
    (simp add: clipboard_input_def Let_def case_prod_unfold lt.from_here [OF quiet_apply_clipboard with_clipboard_frame]
      del: live_frame_simps)

lemma quiet_set_visible: "quiet (set_visible E v)"
  unfolding set_visible_def by (auto intro!: lt.seq lt.emits lt.updates)

lemma quiet_suppress: "quiet (suppress_output E v)"
  by (rule part_ok_pairI)
    (auto simp: suppress_output_def Let_def case_prod_unfold
      intro!: lt.from_here [OF lt.seq] lt.emits lt.keep quiet_write_frame split: option.split)

lemma quiet_visibility: "quiet (apply_visibility E v)"
  unfolding apply_visibility_def by (auto intro!: lt.seq lt.keep quiet_set_visible quiet_suppress)

lemma quiet_local_changed: "quiet (local_changed E now contents)"
  by (rule part_ok_pairI) (auto simp: local_changed_def Let_def intro!: lt.from_here [OF quiet_clipboard_input])

lemma quiet_release: "quiet (release_on_activation E)"
  by (rule part_ok_pairI)
    (auto simp: release_on_activation_def Let_def case_prod_unfold
      intro!: lt.from_here [OF quiet_send_input] lt.from_here [OF lt.keep])

lemma quiet_poll_resize: "quiet (poll_resize E now)"
  by (rule part_ok_pairI)
    (auto simp: poll_resize_def Let_def case_prod_unfold
      intro!: lt.from_here [OF lt.seq] lt.from_here [OF lt.keep] lt.emits lt.keep quiet_write_frame split: prod.split option.split)

lemma quiet_after_io: "quiet (after_channel_io E now cl)"
proof (rule part_ok_pairI, goal_cases)
  case (1 l a)
  let ?a = "case cl_max_monitor_area cl of None \<Rightarrow> a
      | Some px \<Rightarrow> a\<lparr>ac_resize := rd_on_display_control_ready (display_caps px) now (ac_resize a)\<rparr>"
  have "live_frame (l, a) (l, ?a)" by (simp split: option.split)
  moreover have "live_frame (l, ?a) (l, snd (drain_clipboard E now (cl_clipboard cl) ?a))" by (rule drain_clipboard_frame)
  ultimately have "live_frame (l, a) (l, snd (drain_clipboard E now (cl_clipboard cl) ?a))" by (rule lt.frame_trans)
  then show ?case
    unfolding after_channel_io_def Let_def case_prod_unfold prod.sel by (rule lt.from_here [OF quiet_apply_clipboard])
qed

lemma quiet_pdu: "quiet (on_pdu E now payload)"
  by (rule part_ok_pairI)
    (auto simp: on_pdu_def Let_def case_prod_unfold
      intro!: lt.from_here [OF lt.seq] lt.ends quiet_handle_outputs quiet_after_io split: sum.split)

lemma quiet_acks: "quiet (on_acks_ready E)"
  by (rule part_ok_pairI)
    (auto simp: on_acks_ready_def Let_def case_prod_unfold
      intro!: lt.from_here [OF quiet_write_frame] lt.from_here [OF lt.keep] lt.ends split: sum.split option.split)

lemma quiet_shutdown: "quiet (shutdown E)"
proof (rule part_ok_pairI, goal_cases)
  case (1 l a)
  let ?fs = "case fst (ae_shutdown E (lg_stage l)) of None \<Rightarrow> [] | Some fs \<Rightarrow> fs"
  let ?l = "l\<lparr>lg_stage := snd (ae_shutdown E (lg_stage l))\<rparr>"
  have "result_ok live_frame (\<lambda>e. accepted e \<and> untyped e) (l, a) (each_live write_frame ?fs (?l, a))"
    by (rule lt.from_here [OF lt.each [OF quiet_write_frame]]) simp
  then show ?case
    by (simp add: shutdown_def Let_def case_prod_unfold result_ok_def)
qed

lemma gt_on_input_armed [simp]: "gt_armed (gt_on_input ev now t) = gt_armed t"
  by (simp add: gt_on_input_def Let_def)

lemma quiet_command: "quiet (on_command E now cmd)"
proof (rule part_ok_pairI, goal_cases)
  case (1 l a)
  show ?case
    by (cases "(E, now, cmd, l, a)" rule: on_command.cases)
      (auto simp: Let_def case_prod_unfold
        intro!: lt.from_here [OF quiet_shutdown] lt.from_here [OF quiet_send_input] lt.from_here [OF lt.keep]
          lt.from_here [OF quiet_visibility] lt.from_here [OF quiet_clipboard_input] lt.from_here [OF quiet_local_changed])
qed

lemma accepted_typist: "part_ok live_frame accepted (poll_typist E now)"
proof (rule part_ok_pairI, goal_cases)
  case (1 l a)
  have "gt_armed (snd (gt_poll now p (ac_typist a))) \<longrightarrow> gt_armed (ac_typist a)" for p by simp
  then show ?case
    by (auto simp: poll_typist_def Let_def case_prod_unfold
      intro!: lp.from_here [OF lp.seq] lp.from_here [OF lp.keep] lp.emits quiet_accepted [OF quiet_send_input]
      split: option.split prod.split)
qed

lemma accepted_tick: "part_ok live_frame accepted (on_tick E now)"
  unfolding on_tick_def
  by (intro lp.seq accepted_typist quiet_accepted [OF quiet_poll_resize] quiet_accepted [OF quiet_clipboard_input])

end
