(* ===== verification/Rdp_Actor_Run.thy ===== *)
theory Rdp_Actor_Run
  imports Rdp_Actor_Inv
begin

text \<open>
  The invariant of the whole actor and its preservation by every step, with the state changes the
  gate of \<open>Core_State\<close> refuses.
\<close>

subsection \<open>Invariant\<close>

fun is_terminal :: "SessionState \<Rightarrow> bool" where
  "is_terminal (Disconnected _) = True"
| "is_terminal (Failed _) = True"
| "is_terminal _ = False"

fun is_reconnecting :: "SessionState \<Rightarrow> bool" where
  "is_reconnecting (Reconnecting _ _ _) = True"
| "is_reconnecting _ = False"

text \<open>What does not depend on the phase.\<close>

definition core :: "('f, 's) Actor \<Rightarrow> bool" where
  "core a \<longleftrightarrow>
     rl_wf (ac_redirects a) \<and> rl_mode (ac_redirects a) = mode (ac_profile a) \<and>
     (ac_dropped a \<longrightarrow> ac_closed a) \<and> (CmdClose \<in> set (ac_queue a) \<longrightarrow> ac_closed a)"

definition live_state :: "('f, 's) Actor \<Rightarrow> bool" where
  "live_state a \<longleftrightarrow>
     is_active (ac_state a) \<and>
     (\<forall>leg st. ac_state a = Connecting leg st \<longrightarrow> leg = rl_leg (ac_redirects a)) \<and>
     (ac_state a = AwaitingGreeterLogin \<longrightarrow> mode (ac_profile a) = RemoteLogin \<and> rl_leg (ac_redirects a) = 2) \<and>
     (gt_armed (ac_typist a) \<longrightarrow> ac_state a = AwaitingGreeterLogin \<and> sec_linux_password (ac_secrets a) \<noteq> None)"

definition phase_inv :: "(u8 list \<Rightarrow> CertFingerprint) \<Rightarrow> ('f, 's) Actor \<Rightarrow> bool" where
  "phase_inv sha a \<longleftrightarrow>
     (case ac_phase a of
        PStartup \<Rightarrow> ac_state a = Idle
      | PLeg req ph \<Rightarrow>
          (\<exists>st. ac_state a = Connecting (ac_leg a) st) \<and> lr_leg req = ac_leg a \<and> ac_leg a = rl_leg (ac_redirects a) \<and>
          phase_ok sha (ac_session_pin a) req ph
      | PLive _ \<Rightarrow> live_state a
      | PBackoff _ _ \<Rightarrow> is_reconnecting (ac_state a)
      | PIdle \<Rightarrow> is_terminal (ac_state a)
      | PExit \<Rightarrow> True)"

definition actor_inv :: "(u8 list \<Rightarrow> CertFingerprint) \<Rightarrow> ('f, 's) Actor \<Rightarrow> bool" where
  "actor_inv sha a \<longleftrightarrow> core a \<and> phase_inv sha a"

lemma core_frame [simp]:
  "core (a\<lparr>ac_state := s\<rparr>) = core a" "core (a\<lparr>ac_leg := l\<rparr>) = core a" "core (a\<lparr>ac_session_pin := p\<rparr>) = core a"
  "core (a\<lparr>ac_visible := v\<rparr>) = core a" "core (a\<lparr>ac_focused := v\<rparr>) = core a" "core (a\<lparr>ac_geometry := g\<rparr>) = core a"
  "core (a\<lparr>ac_resize := r\<rparr>) = core a" "core (a\<lparr>ac_typist := t\<rparr>) = core a" "core (a\<lparr>ac_input := i\<rparr>) = core a"
  "core (a\<lparr>ac_clipboard := c\<rparr>) = core a" "core (a\<lparr>ac_clipboard_local := cl\<rparr>) = core a"
  "core (a\<lparr>ac_change_count := n\<rparr>) = core a" "core (a\<lparr>ac_policy := po\<rparr>) = core a"
  "core (a\<lparr>ac_activations := ac\<rparr>) = core a" "core (a\<lparr>ac_scale := sc\<rparr>) = core a" "core (a\<lparr>ac_phase := ph\<rparr>) = core a"
  by (simp_all add: core_def)

lemma spawn_inv: "actor_inv sha (spawn profile secrets options policy)"
  by (simp add: actor_inv_def core_def phase_inv_def spawn_def rl_wf_new) (simp add: RedirectLoop_new_def)

subsection \<open>Results of a step\<close>

definition fine :: "(u8 list \<Rightarrow> CertFingerprint) \<Rightarrow> 'w Effect list \<times> ('f, 's) Actor \<Rightarrow> bool" where
  "fine sha r \<longleftrightarrow> actor_inv sha (snd r) \<and> list_all accepted (fst r)"

lemma set_state_accepted:
  assumes "allows (ac_state a) s"
  shows "list_all accepted (fst (set_state s a))" and "snd (set_state s a) = a\<lparr>ac_state := s\<rparr>"
  using assms by (auto simp: set_state_def transition_def)

lemma set_state_frame [simp]:
  "ac_options (snd (set_state s a)) = ac_options a" "ac_closed (snd (set_state s a)) = ac_closed a"
  "ac_dropped (snd (set_state s a)) = ac_dropped a" "ac_queue (snd (set_state s a)) = ac_queue a"
  "ac_phase (snd (set_state s a)) = ac_phase a" "ac_policy (snd (set_state s a)) = ac_policy a"
  by (simp_all add: set_state_def split: sum.split)

lemma fine_set_state:
  assumes "allows (ac_state a) s" and "core a" and "phase_inv sha (a\<lparr>ac_state := s, ac_phase := ph\<rparr>)"
  shows "fine sha (let (ef, b) = set_state s a in (ef, b\<lparr>ac_phase := ph\<rparr>))"
  using assms(2,3) by (simp add: fine_def actor_inv_def Let_def case_prod_unfold set_state_accepted [OF assms(1)])

lemma active_allows:
  "is_active s \<Longrightarrow> allows s (Disconnected r)" "is_active s \<Longrightarrow> allows s (Failed r)"
  "is_active s \<Longrightarrow> n \<noteq> 0 \<Longrightarrow> is_retryable r \<Longrightarrow> allows s (Reconnecting n t r)"
  using pair_allowed_drop by (auto simp: allows_def)

lemma user_closed_fine:
  assumes "core a" and "\<not> is_terminal (ac_state a)"
  shows "fine sha (user_closed a)"
  unfolding user_closed_def
proof (rule fine_set_state)
  show "allows (ac_state a) (Disconnected UserClosed)"
    using assms(2) by (cases "ac_state a") (auto simp: allows_def)
qed (use assms in \<open>simp_all add: phase_inv_def\<close>)

lemma start_leg_fine:
  assumes "core a" and "allows (ac_state a) (Connecting (lr_leg req) Tcp)" and "lr_leg req = rl_leg (ac_redirects a)"
    and "\<not> (ac_closed a \<and> is_terminal (ac_state a))"
  shows "fine sha (start_leg now req a)"
proof (cases "ac_closed a")
  case True
  with assms user_closed_fine [of "a\<lparr>ac_leg := lr_leg req\<rparr>" sha] show ?thesis
    by (simp add: start_leg_def)
next
  case False
  let ?a = "a\<lparr>ac_leg := lr_leg req, ac_clipboard := Some (ClipboardSync_new (clipboard (ac_profile a)) (ac_focused a))\<rparr>"
  have "fine sha (let (ef, b) = set_state (Connecting (lr_leg req) Tcp) ?a
      in (ef, b\<lparr>ac_phase := PLeg req (PhTcp (now + opt_connect_timeout (ac_options a)))\<rparr>))"
    by (rule fine_set_state) (use assms in \<open>simp_all add: phase_inv_def\<close>)
  then show ?thesis using False by (simp add: start_leg_def Let_def case_prod_unfold)
qed

text \<open>States a new connection may start from.\<close>

definition can_start :: "SessionState \<Rightarrow> bool" where
  "can_start s \<longleftrightarrow> s = Idle \<or> is_reconnecting s \<or> is_terminal s"

lemma can_start_allows: "can_start s \<Longrightarrow> allows s (Connecting 1 Tcp)"
  by (cases s) (auto simp: can_start_def allows_def leg_bounds)

lemma connect_fine:
  assumes "core a" and "can_start (ac_state a)" and "\<not> (ac_closed a \<and> is_terminal (ac_state a))"
  shows "fine sha (connect F now a)"
proof -
  let ?a = "a\<lparr>ac_redirects := RedirectLoop_new (mode (ac_profile a)) (host (ac_profile a)) (port (ac_profile a))\<rparr>"
  have "core (snd (first_leg F ?a))" "ac_state (snd (first_leg F ?a)) = ac_state a"
    "rl_leg (ac_redirects (snd (first_leg F ?a))) = 1" "lr_leg (fst (first_leg F ?a)) = 1"
    "ac_closed (snd (first_leg F ?a)) = ac_closed a"
    using assms(1) rl_wf_new by (simp_all add: first_leg_def Let_def core_def) (simp_all add: RedirectLoop_new_def)
  then show ?thesis
    using assms(2,3) can_start_allows [of "ac_state a"]
    by (simp add: connect_def Let_def case_prod_unfold) (rule start_leg_fine; simp)
qed

lemma check_backoff_fine:
  assumes "actor_inv sha a"
  shows "fine sha (check_backoff F now a :: 'w Effect list \<times> ('f, 's) Actor)"
proof (cases "ac_phase a")
  case (PBackoff d r)
  with assms have "is_reconnecting (ac_state a)" "core a" by (simp_all add: actor_inv_def phase_inv_def)
  then have "fine sha (connect F now a :: 'w Effect list \<times> ('f, 's) Actor)"
    by (intro connect_fine) (cases "ac_state a"; simp add: can_start_def)+
  with assms PBackoff show ?thesis by (simp add: check_backoff_def fine_def)
qed (use assms in \<open>simp_all add: check_backoff_def fine_def\<close>)

lemma fine_then:
  assumes "list_all accepted ef" and "fine sha r"
  shows "fine sha (ef @ fst r, snd r)"
  using assms by (simp add: fine_def)

lemma wait_backoff_fine:
  assumes "core a" and "is_active (ac_state a)" and "attempt \<noteq> 0" and "is_retryable reason"
  shows "fine sha (wait_backoff F now attempt delay reason a :: 'w Effect list \<times> ('f, 's) Actor)"
proof -
  define s where "s = Reconnecting attempt (if delay = duration_max then 0 else delay) reason"
  define ph :: "'s Phase" where "ph = PBackoff (if delay = duration_max then None else Some (now + delay)) reason"
  have al: "allows (ac_state a) s" unfolding s_def using assms by (intro active_allows)
  let ?b = "snd (set_state s a :: 'w Effect list \<times> ('f, 's) Actor)\<lparr>ac_phase := ph\<rparr>"
  have b: "?b = a\<lparr>ac_state := s, ac_phase := ph\<rparr>" by (simp add: set_state_accepted(2) [OF al])
  have "fine sha (check_backoff F now ?b :: 'w Effect list \<times> ('f, 's) Actor)"
    unfolding b by (rule check_backoff_fine) (use assms(1) in \<open>simp add: actor_inv_def phase_inv_def ph_def s_def\<close>)
  from fine_then [OF set_state_accepted(1) [OF al] this] show ?thesis
    unfolding wait_backoff_def Let_def case_prod_unfold s_def ph_def .
qed

lemma stop_fine:
  assumes "core a" and "is_active (ac_state a) \<or> is_reconnecting (ac_state a)" and "is_terminal s"
  shows "fine sha (stop s a)"
  unfolding stop_def
proof (rule fine_set_state)
  show "allows (ac_state a) s"
    using assms(2,3) by (cases s; cases "ac_state a") (auto simp: allows_def)
qed (use assms in \<open>simp_all add: phase_inv_def\<close>)

lemma terminal_state_terminal [simp]: "is_terminal (terminal_state r)"
  by (simp add: terminal_state_def)

lemma saturating_add_one_nonzero: "saturating_add n 1 \<noteq> (0 :: u32)"
  using unat_saturating_add [of n 1] by (simp add: unat_gt_0 [symmetric] del: unat_gt_0)

lemma on_disconnect_attempt:
  assumes "on_disconnect p reason now = (d, q)"
  shows "d = Retry n t \<Longrightarrow> n \<noteq> 0 \<and> is_retryable reason" and "d = WaitForNetwork n \<Longrightarrow> n \<noteq> 0 \<and> is_retryable reason"
  using assms saturating_add_one_nonzero
  by (auto simp: on_disconnect_def next_decision_eq Let_def case_prod_unfold split: if_splits)

lemma after_disconnect_fine:
  assumes "core a" and "is_active (ac_state a)"
  shows "fine sha (after_disconnect F now reason a)"
proof -
  obtain d p where dp: "on_disconnect (ac_policy a) reason now = (d, p)" by fastforce
  have t: "\<not> is_terminal (ac_state a)" using assms(2) by (cases "ac_state a") simp_all
  show ?thesis
    using assms t on_disconnect_attempt [OF dp]
    by (cases d) (auto simp: after_disconnect_def dp intro!: user_closed_fine stop_fine wait_backoff_fine)
qed

subsection \<open>The end of a live leg\<close>

lemma redirect_allows:
  assumes "live_state a" and "rl_wf rl" and "unat (rl_leg rl) = Suc (unat (rl_leg (ac_redirects a)))" and "2 \<le> rl_leg rl"
  shows "allows (ac_state a) (Connecting (rl_leg rl) Tcp)"
proof -
  have "1 \<le> rl_leg rl" "rl_leg rl \<le> MAX_LEG" using assms(2) by (simp_all add: rl_wf_def)
  then show ?thesis
    using assms by (cases "ac_state a") (auto simp: allows_def live_state_def checked_add_one)
qed

lemma finish_leg_fine:
  assumes "core a" and "live_state a"
  shows "fine sha (finish_leg E now e a)"
proof (cases e)
  case (EndRedirect pdu)
  obtain r rl where n: "next_leg (ae_redirect E) pdu (ac_redirects a) = (r, rl)" by fastforce
  have r: "on_redirect (ae_redirect E) pdu (ac_redirects a) = (r, zeroize_pdu pdu, rl)" by (simp add: on_redirect_def n)
  have wf: "rl_wf (ac_redirects a)" "is_active (ac_state a)" using assms by (simp_all add: core_def live_state_def)
  show ?thesis
  proof (cases r)
    case (Inl reason)
    with n have "rl = ac_redirects a" by (auto dest: next_leg_Inl)
    then show ?thesis
      using assms wf r Inl EndRedirect by (simp add: finish_leg_def after_disconnect_fine)
  next
    case (Inr nl)
    note facts = next_leg_Inr [OF n [unfolded Inr] wf(1)]
    let ?a = "snd (redirect_request (ae_f64 E) nl (a\<lparr>ac_redirects := rl\<rparr>))"
    and ?req = "fst (redirect_request (ae_f64 E) nl (a\<lparr>ac_redirects := rl\<rparr>))"
    have a: "ac_state ?a = ac_state a" "core ?a" "ac_redirects ?a = rl" "lr_leg ?req = rl_leg rl"
      using assms(1) facts by (simp_all add: redirect_request_def Let_def core_def)
    have "fine sha (start_leg now ?req ?a)"
    proof (rule start_leg_fine)
      show "allows (ac_state ?a) (Connecting (lr_leg ?req) Tcp)"
        using redirect_allows [OF assms(2) facts(1) facts(2)] facts(3,8) a by simp
      show "\<not> (ac_closed ?a \<and> is_terminal (ac_state ?a))"
        using wf(2) a(1) by (cases "ac_state a") simp_all
    qed (use a in simp_all)
    then show ?thesis using r Inr EndRedirect by (simp add: finish_leg_def Let_def case_prod_unfold)
  qed
qed (use assms in \<open>simp_all add: finish_leg_def after_disconnect_fine live_state_def\<close>)

lemma live_frame_keeps:
  assumes "live_frame (l, a) (l', b)" and "core a" and "live_state a"
  shows "core b" and "live_state b"
  using assms by (auto simp: core_def live_state_def)

lemma part_okD:
  assumes "part_ok R P m" and "m x = (ef, e, y)"
  shows "R x y" and "list_all P ef"
proof -
  have "result_ok R P x (m x)" using assms(1) by (simp add: part_ok_def)
  with assms(2) show "R x y" "list_all P ef" by (simp_all add: result_ok_def)
qed

lemma live_step_fine:
  assumes "core a" and "live_state a" and "part_ok live_frame accepted work"
  shows "fine sha (live_step E now work leg a)"
proof -
  obtain ef e l b where w: "work (leg, a) = (ef, e, l, b)" by (cases "work (leg, a)") auto
  note fr = part_okD [OF assms(3) w]
  note b = live_frame_keeps [OF fr(1) assms(1,2)]
  show ?thesis
  proof (cases e)
    case None
    then show ?thesis using b fr(2)
      by (simp add: live_step_def w fine_def actor_inv_def phase_inv_def) (simp add: live_state_def)
  next
    case (Some en)
    then show ?thesis using fine_then [OF fr(2) finish_leg_fine [OF b]]
      by (simp add: live_step_def w Let_def case_prod_unfold)
  qed
qed

text \<open>The activation arms the typist exactly in front of the greeter, then works like any part.\<close>

lemma activated_state_eq:
  "activated_state now hc (leg, a) =
     ([Emit (EvCapabilities
        \<lparr>sc_display_control = mode_has_display_control (mode (ac_profile a)), sc_clipboard = hc,
         sc_scale_mode = scale_mode (mode (ac_profile a)) (display (ac_profile a))\<rparr>)], None, leg,
      a\<lparr>ac_policy := on_connected (ac_policy a) now,
        ac_resize := rd_on_leg_activated
          \<lparr>ml_width = width (lg_desktop leg), ml_height = height (lg_desktop leg), desktop_scale_factor = ac_scale a,
           device_scale_factor = device_scale_for (ac_scale a)\<rparr> (ac_resize a),
        ac_typist := (if ac_state a = AwaitingGreeterLogin
          then on_greeter (sec_linux_password (ac_secrets a) \<noteq> None) (ac_typist a) else disarm (ac_typist a))\<rparr>)"
  by (simp add: activated_state_def effect_def Let_def)

lemma activated_state_facts:
  assumes "activated_state now hc (leg, a) = (ef, e, l, b)"
  shows "list_all accepted ef" and "ac_state b = ac_state a" and "ac_redirects b = ac_redirects a"
    and "ac_profile b = ac_profile a" and "ac_secrets b = ac_secrets a" and "ac_queue b = ac_queue a"
    and "ac_dropped b = ac_dropped a" and "ac_closed b = ac_closed a"
    and "gt_armed (ac_typist b) \<longleftrightarrow> ac_state a = AwaitingGreeterLogin \<and> sec_linux_password (ac_secrets a) \<noteq> None"
    and "ac_input b = ac_input a" and "ac_activations b = ac_activations a" and "l = leg"
proof -
  let ?t = "if ac_state a = AwaitingGreeterLogin
      then on_greeter (sec_linux_password (ac_secrets a) \<noteq> None) (ac_typist a) else disarm (ac_typist a)"
  obtain c po rs where b: "b = a\<lparr>ac_policy := po, ac_resize := rs, ac_typist := ?t\<rparr>"
    and ef: "ef = [Emit c]" and l: "l = leg"
    using assms unfolding activated_state_eq by blast
  show "list_all accepted ef" "l = leg" by (simp_all add: ef l)
  show "ac_state b = ac_state a" "ac_redirects b = ac_redirects a" "ac_profile b = ac_profile a"
    "ac_secrets b = ac_secrets a" "ac_queue b = ac_queue a" "ac_dropped b = ac_dropped a" "ac_closed b = ac_closed a"
    "ac_input b = ac_input a" "ac_activations b = ac_activations a"
    by (simp_all add: b)
  show "gt_armed (ac_typist b) \<longleftrightarrow> ac_state a = AwaitingGreeterLogin \<and> sec_linux_password (ac_secrets a) \<noteq> None"
    by (simp add: b on_greeter_def disarm_def)
qed

abbreviation activation_rest :: "('f, 's, 'w, 'p, 'c) actor_env \<Rightarrow> instant \<Rightarrow> ('w, 'f, 's) live" where
  "activation_rest E now \<equiv>
     then_live (release_on_activation E)
      (then_live (upd (\<lambda>(leg, a). (leg, a\<lparr>ac_activations := ac_activations a + 1\<rparr>)))
        (then_live (\<lambda>(leg, a). if ac_visible a then keep_live (leg, a) else apply_visibility E False (leg, a))
          (\<lambda>(leg, a). case ac_clipboard_local a of
              None \<Rightarrow> keep_live (leg, a) | Some contents \<Rightarrow> local_changed E now contents (leg, a))))"

lemma quiet_activation_rest: "quiet (activation_rest E now)"
  by (intro lt.seq quiet_release lt.updates part_ok_pairI)
    (auto intro!: lt.from_here [OF lt.keep] lt.from_here [OF quiet_visibility] lt.from_here [OF quiet_local_changed]
      split: option.split)

lemma on_activated_split:
  assumes "activated_state now hc (leg, a) = (ef0, None, l0, a0)" and "activation_rest E now (l0, a0) = (ef1, e, x)"
  shows "on_activated E now hc (leg, a) = (ef0 @ ef1, e, x)"
  unfolding on_activated_def using assms by (subst then_live_def) simp

lemma on_activated_frame:
  fixes E :: "('f, 's, 'w, 'p, 'c) actor_env"
  assumes "on_activated E now hc (leg, a) = (ef, e, l, b)"
  shows "list_all untyped ef" and "ac_session_pin b = ac_session_pin a"
proof -
  obtain c a0 where s: "activated_state now hc (leg, a) = ([Emit c] :: 'w Effect list, None, leg, a0)" "ac_session_pin a0 = ac_session_pin a"
    by (simp add: activated_state_eq)
  obtain ef1 where r: "activation_rest E now (leg, a0) = (ef1, e, l, b)" "ef = [Emit c] @ ef1"
    using on_activated_split [OF s(1), of E] assms by (cases "activation_rest E now (leg, a0)") auto
  note fr = part_okD [OF quiet_activation_rest r(1)]
  have "list_all untyped ef1" using fr(2) by (rule list.pred_mono_strong) simp
  with r(2) show "list_all untyped ef" by simp
  show "ac_session_pin b = ac_session_pin a" using fr(1) s(2) by simp
qed

lemma on_activated_result:
  fixes E :: "('f, 's, 'w, 'p, 'c) actor_env"
  assumes "core a" and "live_state (a\<lparr>ac_typist := disarm (ac_typist a)\<rparr>)"
  shows "\<exists>ef e l b. on_activated E now hc (leg, a) = (ef, e, l, b) \<and> list_all accepted ef \<and> core b \<and> live_state b"
proof -
  obtain ef0 :: "'w Effect list" and l0 a0 where s: "activated_state now hc (leg, a) = (ef0, None, l0, a0)"
    by (simp add: activated_state_def effect_def Let_def)
  note facts = activated_state_facts [OF s]
  have core0: "core a0" using assms(1) by (simp add: core_def facts)
  have live0: "live_state a0" using assms(2) by (simp add: live_state_def facts)
  have acc: "list_all accepted ef0" by (rule facts)
  obtain ef1 e l b where r: "activation_rest E now (l0, a0) = (ef1, e, l, b)" by (cases "activation_rest E now (l0, a0)") auto
  note fr = part_okD [OF quiet_accepted [OF quiet_activation_rest] r]
  have "on_activated E now hc (leg, a) = (ef0 @ ef1, e, l, b)" by (rule on_activated_split [OF s r])
  then show ?thesis using live_frame_keeps [OF fr(1) core0 live0] acc fr(2) by (intro exI conjI) (assumption | simp)+
qed

lemma leg_connected_fine:
  fixes E :: "('f, 's, 'w, 'p, 'c) actor_env"
  assumes "actor_inv sha a" and "ac_phase a = PLeg req ph"
  shows "fine sha (leg_connected E now result a)"
proof -
  let ?desktop = "\<lparr>width = ucast (res_width result), height = ucast (res_height result)\<rparr> :: DesktopSize"
  let ?leg = "\<lparr>lg_stage = res_stage result, lg_desktop = ?desktop, lg_wire = None\<rparr>"
  let ?r = "case rl_on_activated (ac_redirects a) ?desktop (ac_scale a) of None \<Rightarrow> ([], a) | Some s \<Rightarrow> set_state s a"
  from assms obtain st where st: "ac_state a = Connecting (ac_leg a) st" "ac_leg a = rl_leg (ac_redirects a)" and core: "core a"
    by (auto simp: actor_inv_def phase_inv_def)
  define r :: "'w Effect list \<times> ('f, 's) Actor" where "r = ?r"
  have r: "list_all accepted (fst r) \<and> core (snd r) \<and> live_state (snd r\<lparr>ac_typist := disarm (ac_typist (snd r))\<rparr>)"
  proof (cases "rl_on_activated (ac_redirects a) ?desktop (ac_scale a)")
    case None
    then show ?thesis using core st by (simp add: r_def live_state_def disarm_def)
  next
    case (Some s)
    then have s: "s = AwaitingGreeterLogin \<and> rl_mode (ac_redirects a) = RemoteLogin \<and> rl_leg (ac_redirects a) = 2 \<or>
        s = Connected ?desktop (ac_scale a)"
      by (auto simp: rl_on_activated_def split: if_splits)
    then have al: "allows (ac_state a) s" using st by (auto simp: allows_def)
    have "snd r = a\<lparr>ac_state := s\<rparr>" "list_all accepted (fst r)"
      using set_state_accepted [OF al] by (simp_all add: r_def Some)
    then show ?thesis using s core by (auto simp: live_state_def disarm_def core_def)
  qed
  obtain ef e l b where act: "on_activated E now (res_clipboard result) (?leg, snd r) = (ef, e, l, b)"
    "list_all accepted ef" "core b" "live_state b"
    using on_activated_result [of "snd r"] r by blast
  have "fine sha (live_step E now (on_activated E now (res_clipboard result)) ?leg (snd r))"
  proof (cases e)
    case None
    then show ?thesis using act(2-4)
      by (simp add: live_step_def act(1) fine_def actor_inv_def phase_inv_def) (simp add: live_state_def)
  next
    case (Some en)
    then show ?thesis using fine_then [OF act(2) finish_leg_fine [OF act(3,4)]]
      by (simp add: live_step_def act(1) Let_def case_prod_unfold)
  qed
  from fine_then [OF _ this] r show ?thesis by (simp only: leg_connected_def Let_def case_prod_unfold r_def)
qed


subsection \<open>Every step\<close>

lemma phase_inv_leg:
  assumes "actor_inv sha a" and "ac_phase a = PLeg req ph"
  shows "core a" and "is_active (ac_state a)" and "\<exists>st. ac_state a = Connecting (ac_leg a) st"
    and "lr_leg req = ac_leg a" and "ac_leg a = rl_leg (ac_redirects a)" and "phase_ok sha (ac_session_pin a) req ph"
  using assms by (auto simp: actor_inv_def phase_inv_def)

lemma progress_fine:
  assumes "actor_inv sha a" and "ac_phase a = PLeg req ph"
    and "\<And>st ph'. p = EnterStage st ph' \<Longrightarrow> phase_ok sha (ac_session_pin a) req ph'"
  shows "fine sha (progress E now req p a)"
proof (cases p)
  case (EnterStage st ph')
  note facts = phase_inv_leg [OF assms(1,2)]
  have wf: "1 \<le> ac_leg a" "ac_leg a \<le> MAX_LEG" using facts(1,5) by (simp_all add: core_def rl_wf_def)
  then have al: "allows (ac_state a) (Connecting (ac_leg a) st)" using facts(3) by (auto simp: allows_def)
  show ?thesis
    unfolding progress_def EnterStage LegProgress.case
    by (rule fine_set_state [OF al facts(1)]) (use facts assms(3) [OF EnterStage] in \<open>simp add: phase_inv_def\<close>)
next
  case (LegConnected result)
  then show ?thesis using leg_connected_fine [OF assms(1,2)] by (simp add: progress_def)
next
  case (LegFailed reason)
  then show ?thesis using phase_inv_leg [OF assms(1,2)] by (simp add: progress_def after_disconnect_fine)
qed (use assms(1) in \<open>simp_all add: progress_def fine_def\<close>)

lemma decide_fine:
  assumes "actor_inv sha a" and "ac_phase a = PLeg req ph" and "lr_expectation req = TrustOnFirstUse"
    and "\<And>p. d = Accept p \<Longrightarrow> ac_session_pin a = Some (sha leaf_der)"
  shows "fine sha (decide E now req leaf_der d a)"
  unfolding decide_def
proof (rule progress_fine [OF assms(1,2)])
  fix st ph'
  assume "decided (ae_pubkey E) (opt_connect_timeout (ac_options a)) now req leaf_der d = EnterStage st ph'"
  then obtain p where "d = Accept p" "ph' = PhAuth (now + opt_connect_timeout (ac_options a)) leaf_der"
    by (auto simp: decided_def authenticate_def split: CertDecision.splits option.splits)
  then show "phase_ok sha (ac_session_pin a) req ph'"
    using assms(3,4) by (simp add: phase_ok_def cert_trusted_def)
qed

lemma leg_net_fine:
  assumes "actor_inv (ae_sha E) a" and "ac_phase a = PLeg req ph"
  shows "fine (ae_sha E) (leg_net E now req ph net a)"
proof -
  let ?p = "leg_step (ae_sha E) (ae_pubkey E) (opt_connect_timeout (ac_options a)) now req ph net"
  note facts = phase_inv_leg [OF assms]
  show ?thesis
  proof (cases "\<exists>leaf fp. ?p = AskUser leaf fp")
    case True
    then obtain leaf fp where p: "?p = AskUser leaf fp" by blast
    note ask = leg_step_ask [OF p]
    have "fine (ae_sha E) (ask_user E now req leaf fp a)"
    proof (cases "ac_session_pin a = Some fp")
      case True
      have "fine (ae_sha E) (decide E now req leaf (Accept False) a)"
        by (rule decide_fine [OF assms ask(1)]) (use True ask(2) in simp)
      then show ?thesis unfolding ask_user_def if_P [OF True] .
    next
      case False
      then show ?thesis using facts ask
        by (simp add: ask_user_def fine_def actor_inv_def phase_inv_def phase_ok_def)
    qed
    with p show ?thesis by (simp add: leg_net_def)
  next
    case False
    have "fine (ae_sha E) (progress E now req ?p a)"
      by (rule progress_fine [OF assms]) (use leg_step_enter facts(6) in blast)
    with False show ?thesis by (auto simp: leg_net_def split: LegProgress.split)
  qed
qed

lemma prompt_fine:
  assumes "actor_inv (ae_sha E) a" and "ac_phase a = PLeg req (PhPrompt leaf fp)"
  shows "fine (ae_sha E) (prompt_command E now req leaf fp cmd a)"
proof -
  note facts = phase_inv_leg [OF assms]
  have t: "lr_expectation req = TrustOnFirstUse" "fp = ae_sha E leaf" using facts(6) by (simp_all add: phase_ok_def)
  have a: "actor_inv (ae_sha E) (a\<lparr>ac_session_pin := Some fp\<rparr>)"
    using assms t by (auto simp: actor_inv_def phase_inv_def phase_ok_def)
  have "fine (ae_sha E) (decide E now req leaf (Accept pin) (a\<lparr>ac_session_pin := Some fp\<rparr>))" for pin
    by (rule decide_fine [OF a]) (use assms(2) t in simp_all)
  moreover have "fine (ae_sha E) (decide E now req leaf d a)" if "\<forall>p. d \<noteq> Accept p" for d
    by (rule decide_fine [OF assms t(1)]) (use that in simp)
  ultimately show ?thesis
    using assms(1)
    by (auto simp: prompt_command_def fine_def Let_def case_prod_unfold split: option.split SessionCommand.split)
qed

lemma remember_inv: "actor_inv sha (remember F now c a) = actor_inv sha a"
  by (cases "(F, now, c, a)" rule: remember.cases) (auto simp: actor_inv_def phase_inv_def live_state_def split: Phase.split)

lemma remember_frame [simp]: "ac_phase (remember F now c a) = ac_phase a"
  by (cases "(F, now, c, a)" rule: remember.cases) auto

lemma policy_inv [simp]: "actor_inv sha (a\<lparr>ac_policy := p\<rparr>) = actor_inv sha a"
  by (auto simp: actor_inv_def phase_inv_def live_state_def split: Phase.split)

lemma startup_fine:
  assumes "actor_inv sha a" and "ac_phase a = PStartup"
  shows "fine sha (connect F now a)" and "fine sha (startup_command F now cmd a)"
proof -
  have "core a" "ac_state a = Idle" using assms by (simp_all add: actor_inv_def phase_inv_def)
  then show c: "fine sha (connect F now a)" for F now by (intro connect_fine) (simp_all add: can_start_def)
  show "fine sha (startup_command F now cmd a)"
    using assms(1) c remember_inv [of sha F now _ a]
    by (auto simp: startup_command_def fine_def simp del: remember.simps split: option.split SessionCommand.split)
qed

lemma backoff_fine:
  assumes "actor_inv sha a" and "ac_phase a = PBackoff d r"
  shows "fine sha (backoff_command F now reason cmd a)"
proof -
  have a: "core a" "is_reconnecting (ac_state a)" using assms by (simp_all add: actor_inv_def phase_inv_def)
  then have t: "\<not> is_terminal (ac_state a)" by (cases "ac_state a") simp_all
  then show ?thesis
    using assms(1) a
    by (auto simp: backoff_command_def Let_def can_start_def remember_inv simp del: remember.simps
        intro!: connect_fine check_backoff_fine stop_fine user_closed_fine split: option.split SessionCommand.split)
qed

text \<open>
  Only a terminal session that is closed while it starts to reconnect asks for a state change the gate
  refuses.
\<close>

definition refused_close :: "'w Effect list \<Rightarrow> ('f, 's) Actor \<Rightarrow> bool" where
  "refused_close ef a \<longleftrightarrow>
     ef = [RejectedState (Disconnected UserClosed)] \<and> ac_phase a = PIdle \<and> ac_closed a \<and> ac_state a \<noteq> Disconnected UserClosed"

lemma idle_result:
  assumes "actor_inv sha a" and "ac_phase a = PIdle"
  shows "actor_inv sha (snd (idle_command F now cmd a :: 'w Effect list \<times> ('f, 's) Actor))"
    and "list_all accepted (fst (idle_command F now cmd a :: 'w Effect list \<times> ('f, 's) Actor)) \<or>
      refused_close (fst (idle_command F now cmd a :: 'w Effect list \<times> ('f, 's) Actor)) a"
proof -
  have a: "core a" "is_terminal (ac_state a)" using assms by (simp_all add: actor_inv_def phase_inv_def)
  define b where "b = a\<lparr>ac_policy := set_network_reachable (policy_reset (ac_policy a)) True\<rparr>"
  have b: "core b" "ac_state b = ac_state a" "ac_closed b = ac_closed a" using a(1) by (simp_all add: b_def)
  have open_: "\<not> ac_closed a \<Longrightarrow> fine sha (connect F now b :: 'w Effect list \<times> ('f, 's) Actor)"
    using a b by (intro connect_fine) (simp_all add: can_start_def)
  have closed: "ac_closed a \<Longrightarrow> \<exists>b'. core b' \<and> ac_state b' = ac_state a \<and>
      (connect F now b :: 'w Effect list \<times> ('f, 's) Actor) = user_closed b'"
  proof -
    assume cl: "ac_closed a"
    let ?b = "b\<lparr>ac_redirects := RedirectLoop_new (mode (ac_profile b)) (host (ac_profile b)) (port (ac_profile b)),
        ac_scale := wanted_scale (connect_layout F (ac_resize b)), ac_leg := 1\<rparr>"
    have "(connect F now b :: 'w Effect list \<times> ('f, 's) Actor) = user_closed ?b"
      using b cl by (simp add: connect_def first_leg_def start_leg_def Let_def)
    moreover have "core ?b" using b(1) rl_wf_new by (simp add: core_def) (simp add: RedirectLoop_new_def)
    moreover have "ac_state ?b = ac_state a" using b(2) by simp
    ultimately show ?thesis by blast
  qed
  have res: "actor_inv sha (snd (connect F now b :: 'w Effect list \<times> ('f, 's) Actor)) \<and>
      (list_all accepted (fst (connect F now b :: 'w Effect list \<times> ('f, 's) Actor)) \<or>
       refused_close (fst (connect F now b :: 'w Effect list \<times> ('f, 's) Actor)) a)"
  proof (cases "ac_closed a")
    case True
    then obtain b' where c: "core b'" "ac_state b' = ac_state a" "(connect F now b :: 'w Effect list \<times> ('f, 's) Actor) = user_closed b'"
      using closed by blast
    moreover have "\<not> allows (ac_state a) (Disconnected UserClosed)"
      using a(2) by (cases "ac_state a") (auto simp: allows_def)
    ultimately show ?thesis using True assms(2)
      by (auto simp: user_closed_def set_state_def transition_def actor_inv_def phase_inv_def refused_close_def)
  qed (use open_ in \<open>simp add: fine_def\<close>)
  have exit: "actor_inv sha (a\<lparr>ac_phase := PExit\<rparr>)" using a by (simp add: actor_inv_def phase_inv_def)
  show "actor_inv sha (snd (idle_command F now cmd a :: 'w Effect list \<times> ('f, 's) Actor))"
    using assms(1) exit res
    by (auto simp: idle_command_def remember_inv b_def simp del: remember.simps split: option.split SessionCommand.split)
  show "list_all accepted (fst (idle_command F now cmd a :: 'w Effect list \<times> ('f, 's) Actor)) \<or>
      refused_close (fst (idle_command F now cmd a :: 'w Effect list \<times> ('f, 's) Actor)) a"
    using res by (auto simp: idle_command_def b_def simp del: remember.simps split: option.split SessionCommand.split)
qed

lemma recv_Some:
  assumes "recv a = Some (cmd, b)"
  shows "\<exists>q. b = a\<lparr>ac_queue := q\<rparr> \<and> set q \<subseteq> set (ac_queue a)" and "cmd = None \<longleftrightarrow> ac_queue a = []"
    and "cmd = None \<longrightarrow> b = a \<and> ac_dropped a" and "cmd = Some c \<longrightarrow> ac_queue a = c # ac_queue b"
    and "ac_closed b = ac_closed a" and "ac_phase b = ac_phase a" and "ac_dropped b = ac_dropped a"
  using assms by (auto simp: recv_def split: list.splits if_splits)

lemma recv_inv:
  assumes "actor_inv sha a" and "recv a = Some (cmd, b)"
  shows "actor_inv sha b"
proof -
  obtain q where b: "b = a\<lparr>ac_queue := q\<rparr>" "set q \<subseteq> set (ac_queue a)" using recv_Some(1) [OF assms(2)] by blast
  then show ?thesis
    using assms(1) by (auto simp: actor_inv_def core_def phase_inv_def live_state_def split: Phase.split)
qed

lemma part_ok_output: "part_ok live_frame accepted (\<lambda>x. ([], Some e, x))"
  by (rule lp.stops)

lemma output_size_fine:
  fixes E :: "('f, 's, 'w, 'p, 'c) actor_env"
  assumes "core a" and "live_state a"
  shows "fine sha (live_step E now (on_output_size sz) leg a)"
proof (cases "\<exists>d sc. ac_state a = Connected d sc")
  case True
  then obtain d sc where c: "ac_state a = Connected d sc" by blast
  then have al: "allows (ac_state a) (Connected sz (ac_scale a))" by (simp add: allows_def)
  have "live_state (a\<lparr>ac_state := Connected sz (ac_scale a)\<rparr>)" using assms(2) c by (simp add: live_state_def)
  then have l: "live_state (a\<lparr>ac_state := Connected sz (ac_scale a), ac_phase := PLive (leg\<lparr>lg_desktop := sz\<rparr>)\<rparr>)"
    by (simp add: live_state_def)
  have eq: "(on_output_size sz :: ('w, 'f, 's) live) (leg, a) = (fst (set_state (Connected sz (ac_scale a)) a), None, leg\<lparr>lg_desktop := sz\<rparr>,
      a\<lparr>ac_state := Connected sz (ac_scale a)\<rparr>)"
    using c set_state_accepted(2) [OF al] by (simp add: on_output_size_def Let_def case_prod_unfold)
  show ?thesis
    using assms(1) l
    by (simp add: live_step_def eq fine_def actor_inv_def phase_inv_def set_state_accepted(1) [OF al])
next
  case False
  then have eq: "(on_output_size sz :: ('w, 'f, 's) live) (leg, a) = ([], None, leg\<lparr>lg_desktop := sz\<rparr>, a)"
    by (auto simp: on_output_size_def Let_def split: SessionState.split)
  then show ?thesis
    using assms by (simp add: live_step_def eq fine_def actor_inv_def phase_inv_def) (simp add: live_state_def)
qed

lemma phase_inv_live:
  assumes "actor_inv sha a" and "ac_phase a = PLive leg"
  shows "core a" and "live_state a"
  using assms by (simp_all add: actor_inv_def phase_inv_def)


lemma channel_inv:
  assumes "actor_inv sha a"
  shows "(c \<in> {True, ac_closed a}) \<Longrightarrow> (CmdClose \<in> set q \<longrightarrow> c) \<Longrightarrow> (ac_dropped a \<longrightarrow> c) \<Longrightarrow>
      actor_inv sha (a\<lparr>ac_queue := q, ac_closed := c\<rparr>)"
    and "actor_inv sha (a\<lparr>ac_dropped := True, ac_closed := True\<rparr>)"
    and "ac_phase a = PLive leg \<Longrightarrow> actor_inv sha (a\<lparr>ac_phase := PLive leg'\<rparr>)"
  using assms by (cases "ac_phase a"; simp add: actor_inv_def core_def phase_inv_def live_state_def)+

theorem actor_step_inv:
  fixes E :: "('f, 's, 'w, 'p, 'c) actor_env"
  assumes "actor_inv (ae_sha E) a"
  shows "actor_inv (ae_sha E) (snd (actor_step E now ev a))"
    and "list_all accepted (fst (actor_step E now ev a)) \<or> (ev = Recv \<and> refused_close (fst (actor_step E now ev a)) a)"
proof -
  have A: "actor_inv (ae_sha E) (snd (actor_step E now ev a)) \<and>
    (list_all accepted (fst (actor_step E now ev a)) \<or> (ev = Recv \<and> refused_close (fst (actor_step E now ev a)) a))"
    if "fine (ae_sha E) (actor_step E now ev a)"
    using that by (simp add: fine_def)
  have unchanged: "fine (ae_sha E) ([] :: 'w Effect list, a)" using assms by (simp add: fine_def)
  have live: "fine (ae_sha E) (live_step E now work leg a)"
    if "ac_phase a = PLive leg" "part_ok live_frame accepted work" for work leg
    using live_step_fine [OF phase_inv_live [OF assms that(1)] that(2)] .
  have "actor_inv (ae_sha E) (snd (actor_step E now ev a)) \<and>
    (list_all accepted (fst (actor_step E now ev a)) \<or> (ev = Recv \<and> refused_close (fst (actor_step E now ev a)) a))"
  proof (cases ev)
    case (AppSend cmd)
    have "core a" using assms by (simp add: actor_inv_def)
    then have "actor_inv (ae_sha E) (a\<lparr>ac_queue := ac_queue a @ [cmd], ac_closed := (ac_closed a \<or> cmd = CmdClose)\<rparr>)"
      by (intro channel_inv(1) [OF assms]) (auto simp: core_def)
    then show ?thesis using assms by (intro A) (simp add: AppSend fine_def)
  next
    case AppDrop
    then show ?thesis using channel_inv(2) [OF assms] by (intro A) (simp add: fine_def)
  next
    case Recv
    show ?thesis
    proof (cases "receives (ac_phase a) \<and> recv a \<noteq> None")
      case True
      then obtain cmd b where r: "recv a = Some (cmd, b)" by auto
      note b = recv_inv [OF assms r] and ph = recv_Some(6) [OF r]
      have step: "actor_step E now ev a = on_recv E now cmd b" using Recv True r by simp
      show ?thesis
      proof (cases "ac_phase b")
        case PStartup
        show ?thesis
          by (rule A) (unfold step, simp add: on_recv_def PStartup startup_fine(2) [OF b PStartup])
      next
        case (PLeg req lp)
        then obtain leaf fp where lp: "lp = PhPrompt leaf fp"
          using True ph by (auto simp: receives_def split: LegPhase.splits)
        show ?thesis
          by (rule A) (unfold step, simp add: on_recv_def PLeg lp prompt_fine [OF b PLeg [unfolded lp]])
      next
        case (PLive leg)
        show ?thesis
          by (rule A) (unfold step, simp add: on_recv_def PLive
              live_step_fine [OF phase_inv_live [OF b PLive] quiet_accepted [OF quiet_command]])
      next
        case (PBackoff d reason)
        show ?thesis
          by (rule A) (unfold step, simp add: on_recv_def PBackoff backoff_fine [OF b PBackoff])
      next
        case PIdle
        have "refused_close ef b \<longleftrightarrow> refused_close ef a" for ef :: "'w Effect list"
          using recv_Some [OF r] by (auto simp: refused_close_def)
        moreover have "actor_inv (ae_sha E) (snd (idle_command (ae_f64 E) now cmd b :: 'w Effect list \<times> ('f, 's) Actor))"
          by (rule idle_result(1) [OF b PIdle])
        moreover have "list_all accepted (fst (idle_command (ae_f64 E) now cmd b :: 'w Effect list \<times> ('f, 's) Actor)) \<or>
            refused_close (fst (idle_command (ae_f64 E) now cmd b :: 'w Effect list \<times> ('f, 's) Actor)) b"
          by (rule idle_result(2) [OF b PIdle])
        ultimately show ?thesis unfolding step using Recv by (simp add: on_recv_def PIdle)
      next
        case PExit
        then show ?thesis using True ph by (simp add: receives_def)
      qed
    next
      case False
      then have "actor_step E now ev a = ([], a)" using Recv by (cases "recv a") auto
      then show ?thesis using assms by simp
    qed
  next
    case GraceOver
    show ?thesis
    proof (rule A)
      have "fine (ae_sha E) (connect (ae_f64 E) now a :: 'w Effect list \<times> ('f, 's) Actor)" if "ac_phase a = PStartup"
        by (rule startup_fine(1) [OF assms that])
      then show "fine (ae_sha E) (actor_step E now ev a)"
        using unchanged unfolding GraceOver by (cases "ac_phase a") simp_all
    qed
  next
    case (Net net)
    show ?thesis
      by (rule A, cases "ac_phase a") (simp_all add: Net unchanged leg_net_fine [OF assms])
  next
    case ClosedSeen
    have "fine (ae_sha E) (after_disconnect (ae_f64 E) now UserClosed a :: 'w Effect list \<times> ('f, 's) Actor)"
      if "ac_phase a = PLeg req ph" for req ph
      using phase_inv_leg [OF assms that] by (intro after_disconnect_fine)
    then show ?thesis
      by (intro A; cases "ac_phase a") (simp_all add: ClosedSeen unchanged)
  next
    case (WireBreaks n e)
    show ?thesis
      by (rule A, cases "ac_phase a") (simp_all add: WireBreaks unchanged fine_def channel_inv(3) [OF assms] assms)
  next
    case BackoffTick
    show ?thesis by (rule A) (simp add: BackoffTick check_backoff_fine [OF assms])
  next
    case (Pdu payload)
    show ?thesis
      by (rule A, cases "ac_phase a") (simp_all add: Pdu unchanged live [OF _ quiet_accepted [OF quiet_pdu]])
  next
    case (ReadFailed e)
    show ?thesis
      by (rule A, cases "ac_phase a") (simp_all add: ReadFailed unchanged live [OF _ lp.stops])
  next
    case AcksReady
    show ?thesis
      by (rule A, cases "ac_phase a") (simp_all add: AcksReady unchanged live [OF _ quiet_accepted [OF quiet_acks]])
  next
    case (OutputSize sz)
    have "fine (ae_sha E) (live_step E now (on_output_size sz) leg a)" if "ac_phase a = PLive leg" for leg
      using output_size_fine [OF phase_inv_live [OF assms that]] .
    then show ?thesis by (intro A; cases "ac_phase a") (simp_all add: OutputSize unchanged)
  next
    case LiveTick
    show ?thesis
      by (rule A, cases "ac_phase a") (simp_all add: LiveTick unchanged live [OF _ accepted_tick])
  qed
  then show "actor_inv (ae_sha E) (snd (actor_step E now ev a))"
    and "list_all accepted (fst (actor_step E now ev a)) \<or> (ev = Recv \<and> refused_close (fst (actor_step E now ev a)) a)"
    by blast+
qed

lemma actor_run_inv:
  fixes E :: "('f, 's, 'w, 'p, 'c) actor_env"
  shows "actor_inv (ae_sha E) a \<Longrightarrow> actor_inv (ae_sha E) (snd (actor_run E es a))"
proof (induction es arbitrary: a)
  case (Cons e es)
  obtain now ev where e: "e = (now, ev)" by fastforce
  show ?case
    using Cons.IH [OF actor_step_inv(1) [OF Cons.prems, of now ev]] by (simp add: e Let_def case_prod_unfold)
qed simp

end
