(* ===== verification/Rdp_Theorems.thy ===== *)
theory Rdp_Theorems
  imports Rdp_Actor_Run
begin

text \<open>
  The properties of \<open>drift-rdp\<close>: redirections, held input, monitor layouts, and the session actor as a
  whole.
\<close>

subsection \<open>What is left alone between legs\<close>

fun is_live :: "'s Phase \<Rightarrow> bool" where
  "is_live (PLive _) = True"
| "is_live _ = False"

lemma set_state_effects [simp]: "list_all untyped (fst (set_state s a))" "ac_session_pin (snd (set_state s a)) = ac_session_pin a"
  by (simp_all add: set_state_def split: sum.split)

lemma user_closed_facts [simp]:
  "list_all untyped (fst (user_closed a))" "ac_session_pin (snd (user_closed a)) = ac_session_pin a"
  "ac_phase (snd (user_closed a)) = PExit"
  by (simp_all add: user_closed_def case_prod_unfold Let_def)

lemma start_leg_facts [simp]:
  "list_all untyped (fst (start_leg now req a))" "ac_session_pin (snd (start_leg now req a)) = ac_session_pin a"
  "\<not> is_live (ac_phase (snd (start_leg now req a)))"
  by (simp_all add: start_leg_def case_prod_unfold Let_def)

lemma connect_facts [simp]:
  "list_all untyped (fst (connect F now a))" "ac_session_pin (snd (connect F now a)) = ac_session_pin a"
  "\<not> is_live (ac_phase (snd (connect F now a)))"
  by (simp_all add: connect_def first_leg_def case_prod_unfold Let_def)

lemma check_backoff_facts [simp]:
  "list_all untyped (fst (check_backoff F now a))" "ac_session_pin (snd (check_backoff F now a)) = ac_session_pin a"
  by (simp_all add: check_backoff_def split: Phase.split)

lemma wait_backoff_facts [simp]:
  "list_all untyped (fst (wait_backoff F now n d r a))" "ac_session_pin (snd (wait_backoff F now n d r a)) = ac_session_pin a"
  "\<not> is_live (ac_phase (snd (wait_backoff F now n d r a)))"
  by (auto simp: wait_backoff_def check_backoff_def case_prod_unfold Let_def)

lemma stop_facts [simp]:
  "list_all untyped (fst (stop s a))" "ac_session_pin (snd (stop s a)) = ac_session_pin a" "ac_phase (snd (stop s a)) = PIdle"
  by (simp_all add: stop_def case_prod_unfold Let_def)

lemma after_disconnect_facts [simp]:
  "list_all untyped (fst (after_disconnect F now r a))" "ac_session_pin (snd (after_disconnect F now r a)) = ac_session_pin a"
  "\<not> is_live (ac_phase (snd (after_disconnect F now r a)))"
  by (simp_all add: after_disconnect_def case_prod_unfold Let_def split: ReconnectDecision.split)

lemma finish_leg_facts [simp]:
  "list_all untyped (fst (finish_leg E now e a))" "ac_session_pin (snd (finish_leg E now e a)) = ac_session_pin a"
  "\<not> is_live (ac_phase (snd (finish_leg E now e a)))"
  by (simp_all add: finish_leg_def redirect_request_def on_redirect_def case_prod_unfold Let_def split: LegEnd.split sum.split)

lemma live_step_result:
  assumes "work (leg, a) = (ef, e, l, b)"
  shows "ac_session_pin (snd (live_step E now work leg a)) = ac_session_pin b"
    and "list_all untyped ef \<Longrightarrow> list_all untyped (fst (live_step E now work leg a))"
    and "is_live (ac_phase (snd (live_step E now work leg a))) \<Longrightarrow> e = None \<and> ac_typist (snd (live_step E now work leg a)) = ac_typist b"
  using finish_leg_facts(3) [of E now _ b] assms
  by (auto simp: live_step_def Let_def case_prod_unfold split: option.splits)


subsection \<open>Typing and pinning in a step\<close>

lemma progress_facts:
  fixes E :: "('f, 's, 'w, 'p, 'c) actor_env"
  shows "list_all untyped (fst (progress E now req p a))" and "ac_session_pin (snd (progress E now req p a)) = ac_session_pin a"
proof -
  have lc: "list_all untyped (fst (leg_connected E now r a)) \<and> ac_session_pin (snd (leg_connected E now r a)) = ac_session_pin a" for r
  proof -
    let ?d = "\<lparr>width = ucast (res_width r), height = ucast (res_height r)\<rparr> :: DesktopSize"
    define st :: "'w Effect list \<times> ('f, 's) Actor" where
      "st = (case rl_on_activated (ac_redirects a) ?d (ac_scale a) of None \<Rightarrow> ([], a) | Some s \<Rightarrow> set_state s a)"
    let ?leg = "\<lparr>lg_stage = res_stage r, lg_desktop = ?d, lg_wire = None\<rparr>"
    have st: "list_all untyped (fst st)" "ac_session_pin (snd st) = ac_session_pin a"
      by (simp_all add: st_def split: option.split)
    obtain ef e l b where w: "on_activated E now (res_clipboard r) (?leg, snd st) = (ef, e, l, b)"
      by (cases "on_activated E now (res_clipboard r) (?leg, snd st)") auto
    note fr = on_activated_frame [OF w]
    have "leg_connected E now r a =
        (fst st @ fst (live_step E now (on_activated E now (res_clipboard r)) ?leg (snd st)),
         snd (live_step E now (on_activated E now (res_clipboard r)) ?leg (snd st)))"
      by (simp only: leg_connected_def Let_def case_prod_unfold st_def)
    then show ?thesis
      using live_step_result [where work = "on_activated E now (res_clipboard r)" and leg = ?leg and E = E and now = now, OF w] fr st
      by simp
  qed
  show "list_all untyped (fst (progress E now req p a))" "ac_session_pin (snd (progress E now req p a)) = ac_session_pin a"
    using lc by (auto simp: progress_def case_prod_unfold Let_def split: LegProgress.split)
qed

lemma quiet_live_step:
  assumes "quiet work"
  shows "list_all untyped (fst (live_step E now work leg a))" and "ac_session_pin (snd (live_step E now work leg a)) = ac_session_pin a"
proof -
  obtain ef e l b where w: "work (leg, a) = (ef, e, l, b)" by (cases "work (leg, a)") auto
  note fr = part_okD [OF assms w]
  have "list_all untyped ef" using fr(2) by (rule list.pred_mono_strong) simp
  then show "list_all untyped (fst (live_step E now work leg a))"
    and "ac_session_pin (snd (live_step E now work leg a)) = ac_session_pin a"
    using live_step_result [where work = work and leg = leg and E = E and now = now, OF w] fr(1) by auto
qed

lemma remember_pin [simp]: "ac_session_pin (remember F now c a) = ac_session_pin a"
  by (cases "(F, now, c, a)" rule: remember.cases) auto

lemma leg_net_facts:
  "list_all untyped (fst (leg_net E now req ph net a))" "ac_session_pin (snd (leg_net E now req ph net a)) = ac_session_pin a"
  by (simp_all add: leg_net_def ask_user_def decide_def progress_facts split: LegProgress.split)

lemma prompt_facts:
  "list_all untyped (fst (prompt_command E now req leaf fp cmd a))"
  "ac_session_pin (snd (prompt_command E now req leaf fp cmd a)) \<noteq> ac_session_pin a \<Longrightarrow>
     \<exists>pin. cmd = Some (CmdAcceptCertificate fp pin)"
  by (auto simp: prompt_command_def decide_def progress_facts Let_def case_prod_unfold split: option.split option.splits
      SessionCommand.split SessionCommand.splits if_splits)

lemma command_facts [simp]:
  "list_all untyped (fst (startup_command F now cmd a))" "ac_session_pin (snd (startup_command F now cmd a)) = ac_session_pin a"
  "list_all untyped (fst (backoff_command F now reason cmd a))" "ac_session_pin (snd (backoff_command F now reason cmd a)) = ac_session_pin a"
  "list_all untyped (fst (idle_command F now cmd a))" "ac_session_pin (snd (idle_command F now cmd a)) = ac_session_pin a"
  by (simp_all add: startup_command_def backoff_command_def idle_command_def Let_def del: remember.simps
      split: option.split SessionCommand.split)

lemma output_size_facts:
  fixes E :: "('f, 's, 'w, 'p, 'c) actor_env"
  shows
  "list_all untyped (fst (live_step E now (on_output_size sz) leg a))"
  "ac_session_pin (snd (live_step E now (on_output_size sz) leg a)) = ac_session_pin a"
proof -
  define r :: "'w Effect list \<times> LegEnd option \<times> 's Leg \<times> ('f, 's) Actor" where "r = on_output_size sz (leg, a)"
  have "list_all untyped (fst r) \<and> fst (snd r) = None \<and> ac_session_pin (snd (snd (snd r))) = ac_session_pin a"
    by (cases "ac_state a") (simp_all add: r_def on_output_size_def Let_def case_prod_unfold)
  then obtain ef l b where w: "(on_output_size sz :: ('w, 'f, 's) live) (leg, a) = (ef, None, l, b)" "list_all untyped ef" "ac_session_pin b = ac_session_pin a"
    by (cases r) (auto simp: r_def)
  then show "list_all untyped (fst (live_step E now (on_output_size sz) leg a))"
    "ac_session_pin (snd (live_step E now (on_output_size sz) leg a)) = ac_session_pin a"
    using live_step_result [where work = "on_output_size sz" and leg = leg and E = E and now = now, OF w(1)] by auto
qed


text \<open>Typing happens on a tick of a live leg only, and pins are accepted in a prompt only.\<close>

lemma recv_pin: "recv a = Some (cmd, b) \<Longrightarrow> ac_session_pin b = ac_session_pin a"
  by (auto simp: recv_def split: list.splits if_splits)

lemma on_recv_facts:
  "list_all untyped (fst (on_recv E now cmd b))"
  "ac_session_pin (snd (on_recv E now cmd b)) \<noteq> ac_session_pin b \<Longrightarrow>
     \<exists>req leaf fp pin. ac_phase b = PLeg req (PhPrompt leaf fp) \<and> cmd = Some (CmdAcceptCertificate fp pin)"
  using prompt_facts(2)
  by (auto simp: on_recv_def prompt_facts quiet_live_step [OF quiet_command] split: Phase.split Phase.splits LegPhase.split LegPhase.splits)


lemma live_step_pin:
  assumes "part_ok live_frame P work"
  shows "ac_session_pin (snd (live_step E now work leg a)) = ac_session_pin a"
proof -
  obtain ef e l b where w: "work (leg, a) = (ef, e, l, b)" by (cases "work (leg, a)") auto
  show ?thesis
    using live_step_result(1) [where work = work and leg = leg and E = E and now = now, OF w] part_okD(1) [OF assms w]
    by simp
qed

lemma step_pin:
  assumes "ac_session_pin (snd (actor_step E now ev a)) \<noteq> ac_session_pin a"
  shows "ev = Recv \<and> (\<exists>req leaf fp pin b. ac_phase a = PLeg req (PhPrompt leaf fp) \<and>
      recv a = Some (Some (CmdAcceptCertificate fp pin), b))"
proof (cases "ev = Recv")
  case True
  then obtain cmd b where r: "recv a = Some (cmd, b)" and "ac_session_pin (snd (on_recv E now cmd b)) \<noteq> ac_session_pin a"
    using assms by (auto split: if_splits option.splits)
  then obtain req leaf fp pin where "ac_phase b = PLeg req (PhPrompt leaf fp)" "cmd = Some (CmdAcceptCertificate fp pin)"
    using on_recv_facts(2) [of E now cmd b] recv_pin [OF r] by auto
  then show ?thesis using True r recv_Some(6) [OF r] by auto
next
  case False
  then have "ac_session_pin (snd (actor_step E now ev a)) = ac_session_pin a"
    by (cases ev)
      (auto simp: leg_net_facts live_step_pin [OF quiet_pdu] live_step_pin [OF quiet_acks] live_step_pin [OF lp.stops]
        live_step_pin [OF accepted_tick] output_size_facts split: Phase.split)
  with assms show ?thesis by simp
qed

subsection \<open>The session actor\<close>

text \<open>C4: In every session, every state change the actor asks for is one the state machine accepts, in every
  order of commands, network events and timers, with one exception: a session in a terminal state
  whose app asks to reconnect and then closes it before the actor gets to the request.
\<close>

theorem state_changes_accepted:
  "let a = snd (actor_run E es (spawn profile secrets options policy)); ef = fst (actor_step E now ev a)
   in list_all accepted ef \<or>
      ef = [RejectedState (Disconnected UserClosed)] \<and> ev = Recv \<and> ac_phase a = PIdle \<and> ac_closed a"
  using actor_step_inv(2) [OF actor_run_inv [OF spawn_inv], of E now ev es profile secrets options policy]
  by (auto simp: refused_close_def Let_def)

definition authenticates_trusted :: "(u8 list \<Rightarrow> CertFingerprint) \<Rightarrow> ('f, 's) Actor \<Rightarrow> bool" where
  "authenticates_trusted sha a =
     (case ac_phase a of
        PLeg req (PhAuth _ leaf) \<Rightarrow> cert_trusted sha (ac_session_pin a) (lr_expectation req) leaf
      | _ \<Rightarrow> True)"

text \<open>C2: No credential leaves the machine before the server's certificate is trusted: in every reachable
  state in which a leg authenticates, the certificate of its server is the pinned one, the redirect's,
  or one the user accepted in this session; and a certificate becomes accepted only by the user's
  answer to a prompt that shows its fingerprint.
\<close>

theorem credentials_after_trust:
  "let a = snd (actor_run E es (spawn profile secrets options policy)); b = snd (actor_step E now ev a)
   in authenticates_trusted (ae_sha E) a \<and>
      (ac_session_pin b = ac_session_pin a \<or>
       ev = Recv \<and> (\<exists>req leaf fp pin c. ac_phase a = PLeg req (PhPrompt leaf fp) \<and> fp = ae_sha E leaf \<and>
         recv a = Some (Some (CmdAcceptCertificate fp pin), c)))"
proof -
  define a where "a = snd (actor_run E es (spawn profile secrets options policy))"
  have inv: "actor_inv (ae_sha E) a" unfolding a_def by (rule actor_run_inv [OF spawn_inv])
  then have "authenticates_trusted (ae_sha E) a"
    by (auto simp: actor_inv_def phase_inv_def authenticates_trusted_def phase_ok_def split: Phase.split LegPhase.split)
  moreover have "fp = ae_sha E leaf" if "ac_phase a = PLeg req (PhPrompt leaf fp)" for req leaf fp
    using phase_inv_leg(6) [OF inv that] by (simp add: phase_ok_def)
  ultimately show ?thesis
    using step_pin [of E now ev a] unfolding a_def [symmetric] Let_def by blast
qed





subsection \<open>A concrete stage\<close>

text \<open>
  The witnesses run the actor over a stage that accepts everything and answers each call with an empty
  frame; every certificate has the fingerprint zero.
\<close>

definition demo_stage :: "(rat option, unit, unit, unit, unit) actor_env" where
  "demo_stage =
     \<lparr>ae_f64 = rat_f64,
      ae_images = \<lparr>ie_bmp_decode = \<lambda>_. Inl [], ie_to_rgba = \<lambda>_ _ _ _. None, ie_png_encode = \<lambda>_. Inl [], ie_png_decode = \<lambda>_. Inl []\<rparr>,
      ae_sha = \<lambda>_. [0], ae_pubkey = \<lambda>_. Some [], ae_redirect = \<lparr>re_decode = \<lambda>_. Inl [], re_der = \<lambda>_. None\<rparr>,
      ae_process = \<lambda>s p. (Inr [], \<lparr>cl_clipboard = [], cl_max_monitor_area = None\<rparr>, s),
      ae_input = \<lambda>s _. (Some [ResponseFrame ()], s), ae_resize = \<lambda>s _. (Some (Some ()), s),
      ae_suppress = \<lambda>s _. (Some (), s), ae_clip = \<lambda>s _. (Inr (Some ()), s), ae_acks = \<lambda>s. (Inr (Some ()), s),
      ae_shutdown = \<lambda>s. (Some [()], s), ae_visible = \<lambda>s _. s\<rparr>"

definition demo_actor :: "(rat option, unit) Actor" where
  "demo_actor =
     spawn (ConnectionProfile_new 0 (lit ''demo'') (lit ''host'') RemoteLogin)
       \<lparr>sec_rdp_password = [], sec_linux_password = Some [97]\<rparr>
       \<lparr>opt_tls_server_name = None, opt_client_name = lit ''drift'', opt_connect_timeout = duration_secs 15\<rparr>
       (ReconnectPolicy_new ReconnectConfig_default 0)"

subsection \<open>Held input\<close>

text \<open>C26: The encoder's record of what is held is the server's, for every sequence of input events: a server
  that starts with nothing held and applies the events sent holds exactly the keys and buttons the
  encoder records, and nothing after a release of everything; and every wheel event's units fit the
  nine bits of the protocol.
\<close>

theorem encoder_mirrors_server:
  "let r = encode_all es InputEncoder_default; r' = encode_all (es @ [ReleaseAll]) InputEncoder_default
   in remote_applies (fst r) ({}, {}) = enc_held (snd r) \<and> remote_applies (fst r') ({}, {}) = ({}, {}) \<and>
      list_all units_fit (fst r) \<and> enc_wf (snd r)"
proof -
  have held: "enc_held InputEncoder_default = ({}, {})" by (simp add: enc_held_def InputEncoder_default_def)
  have app: "encode_all (xs @ ys) enc = (fst (encode_all xs enc) @ fst (encode_all ys (snd (encode_all xs enc))),
      snd (encode_all ys (snd (encode_all xs enc))))" for xs ys enc
    by (induction xs arbitrary: enc) (simp_all add: Let_def case_prod_unfold)
  have "enc_held (snd (encode_all (es @ [ReleaseAll]) InputEncoder_default)) = ({}, {})"
    by (simp add: app Let_def case_prod_unfold enc_held_def)
  moreover have "list_all units_fit (fst (encode_all xs enc))" for xs enc
    by (induction xs arbitrary: enc) (simp_all add: Let_def case_prod_unfold encode_units_fit)
  ultimately show ?thesis
    using encode_all_held [of es InputEncoder_default] encode_all_held [of "es @ [ReleaseAll]" InputEncoder_default]
      enc_wf_encode_all [OF enc_wf_default, of es]
    by (simp only: Let_def held)
qed

text \<open>A later activation releases what is held: on every leg after the session's first, right after its
  capabilities are announced, the server receives input that releases exactly the keys and buttons the
  session holds and then restores the lock keys.
\<close>

theorem reactivation_releases:
  assumes "ac_activations a \<noteq> 0"
  shows "\<exists>caps events rest es.
    fst (on_activated E now hc (leg, a)) = Emit (EvCapabilities caps) # StageInput events # rest \<and>
    remote_applies events (enc_held (ac_input a)) = ({}, {}) \<and>
    events = es @ [SyncEvent ((if fst (enc_toggles (ac_input a)) then SF_CAPS_LOCK else 0) OR
      (if snd (enc_toggles (ac_input a)) then SF_NUM_LOCK else 0))]"
proof -
  let ?evs = "[ReleaseAll, enc_toggle_event (ac_input a)]"
  define events where "events = fst (encode_all ?evs (ac_input a))"
  have ev: "\<exists>es. events = es @ [SyncEvent ((if fst (enc_toggles (ac_input a)) then SF_CAPS_LOCK else 0) OR
      (if snd (enc_toggles (ac_input a)) then SF_NUM_LOCK else 0))]"
    by (simp add: events_def enc_toggle_event_def Let_def case_prod_unfold)
  have "enc_held (snd (encode_all ?evs (ac_input a))) = ({}, {})"
    by (simp add: enc_held_def enc_toggle_event_def Let_def case_prod_unfold)
  with encode_all_held [of ?evs "ac_input a"] have held: "remote_applies events (enc_held (ac_input a)) = ({}, {})"
    by (simp add: events_def)
  obtain a0 where s: "activated_state now hc (leg, a) =
      ([Emit (EvCapabilities \<lparr>sc_display_control = mode_has_display_control (mode (ac_profile a)), sc_clipboard = hc,
         sc_scale_mode = scale_mode (mode (ac_profile a)) (display (ac_profile a))\<rparr>)] :: 'c Effect list, None, leg, a0)"
    and a0: "ac_activations a0 = ac_activations a" "ac_input a0 = ac_input a"
    by (simp add: activated_state_eq)
  have starts: "\<exists>rest. fst (then_live m k x) = e # rest" if "\<exists>rest. fst (m x) = e # rest" for m k x and e :: "'c Effect"
    using that by (auto simp: then_live_def Let_def case_prod_unfold split: option.split)
  have "\<exists>rest. fst (send_input_events E events (leg, b)) = StageInput events # rest" for b
    using ev by (auto simp: send_input_events_def then_live_def effect_def Let_def case_prod_unfold)
  then have "\<exists>rest. fst (release_on_activation E (leg, a0)) = StageInput events # rest"
    using assms a0 by (simp add: release_on_activation_def Let_def case_prod_unfold events_def)
  then have "\<exists>rest. fst (activation_rest E now (leg, a0)) = StageInput events # rest" by (rule starts)
  moreover obtain ef1 e l b where r: "activation_rest E now (leg, a0) = (ef1, e, l, b)"
    by (cases "activation_rest E now (leg, a0)") auto
  ultimately show ?thesis using on_activated_split [OF s r] held ev by auto
qed

lemma reactivation_releases_witness:
  "\<exists>caps events rest es.
    fst (on_activated demo_stage 0 True (\<lparr>lg_stage = (), lg_desktop = DEFAULT_DESKTOP, lg_wire = None\<rparr>,
      demo_actor\<lparr>ac_activations := 1, ac_input := snd (encode (Key 30 False True) InputEncoder_default)\<rparr>)) =
      Emit (EvCapabilities caps) # StageInput events # rest \<and>
    remote_applies events ({(30, False)}, {}) = ({}, {}) \<and> events = es @ [SyncEvent 0]"
  using reactivation_releases [of "demo_actor\<lparr>ac_activations := 1, ac_input := snd (encode (Key 30 False True) InputEncoder_default)\<rparr>"
      demo_stage 0 True "\<lparr>lg_stage = (), lg_desktop = DEFAULT_DESKTOP, lg_wire = None\<rparr>"]
  by (simp add: enc_held_def InputEncoder_default_def os_insert_def)

subsection \<open>Redirections\<close>

text \<open>The legs of one connection: each redirection in turn, until one is refused.\<close>

fun follow :: "'c redirect_env \<Rightarrow> ServerRedirectionPdu list \<Rightarrow> RedirectLoop \<Rightarrow> NextLeg list \<times> DisconnectReason option" where
  "follow E [] rl = ([], None)"
| "follow E (pdu # pdus) rl =
     (case on_redirect E pdu rl of
        (Inl reason, _, _) \<Rightarrow> ([], Some reason)
      | (Inr n, _, rl') \<Rightarrow> (let (ns, e) = follow E pdus rl' in (n # ns, e)))"

definition token_ok :: "NextLeg \<Rightarrow> bool" where
  "token_ok n = (case nl_routing_token n of None \<Rightarrow> True | Some t \<Rightarrow> t \<noteq> [] \<and> list_all (\<lambda>c. 32 \<le> c \<and> c \<le> 126) t)"

lemma next_leg_token:
  assumes "next_leg E pdu rl = (Inr n, rl')"
  shows "token_ok n"
proof (cases "nl_routing_token n")
  case (Some t)
  have "nl_routing_token n = Option.bind (load_balance_info pdu) routing_token"
    using assms by (auto simp: next_leg_def Let_def split: if_splits option.splits sum.splits)
  with Some obtain info where "routing_token info = Some t" by (cases "load_balance_info pdu") auto
  then show ?thesis using routing_token_safe(1,2) [of info t] Some by (simp add: token_ok_def list_all_iff)
qed (simp add: token_ok_def)

lemma follow_legs:
  assumes "rl_wf rl"
  shows "map (unat \<circ> nl_leg) (fst (follow E pdus rl)) = [Suc (unat (rl_leg rl))..<Suc (unat (rl_leg rl)) + length (fst (follow E pdus rl))] \<and>
    unat (rl_leg rl) + length (fst (follow E pdus rl)) \<le> 5 \<and>
    list_all token_ok (fst (follow E pdus rl)) \<and>
    snd (follow E pdus rl) \<in>
      (if length (fst (follow E pdus rl)) = length pdus then {None}
       else if unat (rl_leg rl) + length (fst (follow E pdus rl)) = 5 then {Some RedirectLoopReason}
       else range (\<lambda>s. Some (ProtocolError s)))"
  using assms
proof (induction pdus arbitrary: rl)
  case Nil
  then show ?case by (simp add: leg_unat)
next
  case (Cons pdu pdus)
  obtain r rl' where n: "next_leg E pdu rl = (r, rl')" by fastforce
  show ?case
  proof (cases r)
    case (Inl reason)
    have "reason = RedirectLoopReason \<longleftrightarrow> unat (rl_leg rl) = 5"
      using n Inl redirects_so_far [OF Cons.prems]
      by (auto simp: next_leg_def Let_def split: if_splits option.splits sum.splits)
    then show ?thesis
      using next_leg_error [OF n [unfolded Inl]] Cons.prems Inl by (auto simp: on_redirect_def n leg_unat)
  next
    case (Inr nl)
    note facts = next_leg_Inr [OF n [unfolded Inr] Cons.prems]
    have f: "fst (follow E (pdu # pdus) rl) = nl # fst (follow E pdus rl')" "snd (follow E (pdu # pdus) rl) = snd (follow E pdus rl')"
      by (simp_all add: on_redirect_def n Inr Let_def case_prod_unfold)
    have u: "[Suc k..<Suc k + Suc m] = Suc k # [Suc (Suc k)..<Suc (Suc k) + m]" for k m :: nat
      by (subst upt_conv_Cons) simp_all
    show ?thesis
      using Cons.IH [OF facts(1)] next_leg_token [OF n [unfolded Inr]]
      unfolding f list.map length_Cons u facts(2,3) by (auto simp add: comp_def facts(2,3) simp del: upt_Suc split: if_splits)
  qed
qed

text \<open>C14: Redirections end: however often the servers redirect, a connection follows at most four of them,
  on legs two to five in order, and the next one ends it with the redirect-loop error; any other end is
  a protocol error in a redirection, and every routing token sent is non-empty printable ASCII.
\<close>

theorem redirects_end:
  "let (legs, e) = follow E pdus (RedirectLoop_new m h p)
   in map (unat \<circ> nl_leg) legs = [2..<2 + length legs] \<and> length legs \<le> 4 \<and> list_all token_ok legs \<and>
      e \<in> (if length legs = length pdus then {None}
           else if length legs = 4 then {Some RedirectLoopReason}
           else range (\<lambda>s. Some (ProtocolError s)))"
proof -
  have "unat (rl_leg (RedirectLoop_new m h p)) = 1" by (simp add: RedirectLoop_new_def)
  note legs = follow_legs [OF rl_wf_new, of E pdus m h p, unfolded this]
  have "Suc 1 = 2" "1 + n = 5 \<longleftrightarrow> n = 4" "1 + n \<le> 5 \<longleftrightarrow> n \<le> 4" for n :: nat by auto
  then show ?thesis using legs unfolding Let_def case_prod_unfold by (simp only:)
qed

subsection \<open>Monitor layouts\<close>


text \<open>A monitor layout is requested only when it should be: the profile adapts the display, the mode has
  Display Control and the channel is ready; the layout is the one the latest view geometry asks for and
  not the one the server has; and no change of the geometry happened in the last 250 milliseconds.
\<close>

theorem layouts_debounced:
  assumes "sorted (map fst es @ [now])"
    and "(now, l) \<in> set (fst (rd_step F (now, Poll) (snd (rd_run F es (ResizeDriver_new m prefs)))))"
  shows "let rd = snd (rd_run F es (ResizeDriver_new m prefs))
    in adaptive prefs \<and> mode_has_display_control m \<and> rd_caps rd \<noteq> None \<and> rd_desired F rd = Some l \<and>
       rd_current rd \<noteq> Some l \<and>
       (\<exists>t. last_change F es (ResizeDriver_new m prefs) None = Some t \<and> t + RESIZE_DEBOUNCE \<le> now)"
proof -
  define rd where "rd = snd (rd_run F es (ResizeDriver_new m prefs :: 'a ResizeDriver))"
  define t where "t = last_change F es (ResizeDriver_new m prefs :: 'a ResizeDriver) None"
  from assms(2) obtain rd' where p: "rd_poll F now rd = (Some l, rd')"
    unfolding rd_def [symmetric] by (cases "rd_poll F now rd"; cases "fst (rd_poll F now rd)") auto
  note poll = rd_poll_Some [OF p]
  have mp: "rd_mode rd = m" "rd_prefs rd = prefs"
    using rd_mode_run [of F es "ResizeDriver_new m prefs"] unfolding rd_def by (simp_all add: ResizeDriver_new_def)
  have inv: "rd_inv F t rd" unfolding rd_def t_def by (rule rd_inv_run [OF rd_inv_new])
  have "rd_geometry rd \<noteq> None" using poll(3) rd_desired_None [of F rd] by auto
  then obtain u where u: "t = Some u" using inv by (auto simp: rd_inv_def)
  have "debounced t (last (0 # map fst es)) rd"
    unfolding rd_def t_def by (rule debounced_run [OF debounced_new]) (use assms(1) in \<open>simp add: sorted_append\<close>)
  moreover have "last (0 # map fst es) \<le> now"
    using assms(1) by (cases es rule: rev_cases) (auto simp: sorted_append)
  ultimately have "u + RESIZE_DEBOUNCE \<le> now"
    using poll(1,7) u by (fastforce simp: debounced_def split: option.splits)
  with poll mp u show ?thesis
    unfolding rd_def [symmetric] t_def [symmetric] Let_def by (simp add: rd_adaptive_def)
qed

definition demo_geometry :: "rat option ViewGeometry" where
  "demo_geometry = \<lparr>points = \<lparr>width = Some 800, height = Some 600\<rparr>, backing_scale = Some 1\<rparr>"

definition demo_caps :: DisplayControlCaps where
  "demo_caps = \<lparr>max_num_monitors = 1, max_monitor_area_factor_a = 4096, max_monitor_area_factor_b = 4096\<rparr>"

lemma layouts_debounced_witness:
  "\<exists>t. last_change rat_f64 [(0, DisplayReady demo_caps), (5, Geometry demo_geometry)]
      (ResizeDriver_new Headless \<lparr>adaptive = True, retina = False\<rparr>) None = Some t \<and> t + RESIZE_DEBOUNCE \<le> 5 + RESIZE_DEBOUNCE"
  using layouts_debounced [of "[(0, DisplayReady demo_caps), (5, Geometry demo_geometry)]" "5 + RESIZE_DEBOUNCE"
      "desired_layout rat_f64 demo_geometry \<lparr>adaptive = True, retina = False\<rparr> demo_caps" rat_f64 Headless
      "\<lparr>adaptive = True, retina = False\<rparr>"]
  by (simp add: ResizeDriver_new_def rd_on_geometry_def rd_on_display_control_ready_def rd_adaptive_def
      mode_has_display_control_def rd_poll_def rd_desired_def Let_def)





subsection \<open>Closing\<close>

text \<open>The command channel, which only the app's side and \<open>Recv\<close> change.\<close>

definition chan :: "('f, 's) Actor \<Rightarrow> 'f SessionCommand list \<times> bool \<times> bool" where
  "chan a = (ac_queue a, ac_dropped a, ac_closed a)"

lemma chan_upd [simp]:
  "chan (a\<lparr>ac_state := s\<rparr>) = chan a" "chan (a\<lparr>ac_leg := l\<rparr>) = chan a" "chan (a\<lparr>ac_session_pin := p\<rparr>) = chan a"
  "chan (a\<lparr>ac_clipboard := c\<rparr>) = chan a" "chan (a\<lparr>ac_policy := po\<rparr>) = chan a" "chan (a\<lparr>ac_scale := sc\<rparr>) = chan a"
  "chan (a\<lparr>ac_phase := ph\<rparr>) = chan a" "chan (a\<lparr>ac_redirects := rl\<rparr>) = chan a"
  by (simp_all add: chan_def)

lemma chan_set_state [simp]: "chan (snd (set_state s a)) = chan a"
  by (simp add: chan_def)

lemma chan_user_closed [simp]: "chan (snd (user_closed a)) = chan a"
  by (simp add: user_closed_def Let_def case_prod_unfold)

lemma chan_start_leg [simp]: "chan (snd (start_leg now req a)) = chan a"
  by (simp add: start_leg_def Let_def case_prod_unfold)

lemma chan_connect [simp]: "chan (snd (connect F now a)) = chan a"
  by (simp add: connect_def first_leg_def Let_def case_prod_unfold)

lemma chan_check_backoff [simp]: "chan (snd (check_backoff F now a)) = chan a"
  by (simp add: check_backoff_def split: Phase.split)

lemma chan_wait_backoff [simp]: "chan (snd (wait_backoff F now n d r a)) = chan a"
  by (simp add: wait_backoff_def Let_def case_prod_unfold)

lemma chan_stop [simp]: "chan (snd (stop s a)) = chan a"
  by (simp add: stop_def Let_def case_prod_unfold)

lemma chan_after_disconnect [simp]: "chan (snd (after_disconnect F now r a)) = chan a"
  by (simp add: after_disconnect_def Let_def case_prod_unfold split: ReconnectDecision.split)

lemma chan_finish_leg [simp]: "chan (snd (finish_leg E now e a)) = chan a"
  by (simp add: finish_leg_def redirect_request_def on_redirect_def Let_def case_prod_unfold split: LegEnd.split sum.split)

lemma chan_live_step:
  assumes "part_ok live_frame P work"
  shows "chan (snd (live_step E now work leg a)) = chan a"
proof -
  obtain ef e l b where w: "work (leg, a) = (ef, e, l, b)" by (cases "work (leg, a)") auto
  with part_okD(1) [OF assms w] have "chan b = chan a" by (simp add: chan_def)
  then show ?thesis by (simp add: live_step_def w Let_def case_prod_unfold split: option.split)
qed

lemma chan_remember [simp]: "chan (remember F now c a) = chan a"
  by (cases "(F, now, c, a)" rule: remember.cases) (simp_all add: chan_def)

lemma chan_decide: "chan (snd (decide E now req leaf d a)) = chan a"
  by (cases d; cases "ae_pubkey E leaf")
    (simp_all add: decide_def decided_def authenticate_def progress_def Let_def case_prod_unfold)

lemma chan_on_recv: "chan (snd (on_recv E now cmd a)) = chan a"
  by (simp add: on_recv_def startup_command_def backoff_command_def idle_command_def prompt_command_def chan_decide
      chan_live_step [OF quiet_command] Let_def case_prod_unfold del: remember.simps
      split: Phase.split LegPhase.split option.split SessionCommand.split)

text \<open>A closed session does not connect again, and closing is acted on in every phase that receives.\<close>

lemma closed_connect: "ac_closed a \<Longrightarrow> ac_phase (snd (connect F now a)) = PExit"
  by (simp add: connect_def first_leg_def start_leg_def Let_def case_prod_unfold)

lemma finish_closed: "ac_phase (snd (finish_leg E now EndClosed a)) = PExit"
  by (simp add: finish_leg_def after_disconnect_def)

lemma recv_none_exits:
  assumes "receives (ac_phase a)" and "ac_closed a" and "\<And>req ph. ac_phase a \<noteq> PLeg req ph"
  shows "ac_phase (snd (on_recv E now None a)) = PExit"
proof (cases "ac_phase a")
  case (PLive leg)
  have "fst (snd (shutdown E (leg, a))) = Some EndClosed" by (simp add: shutdown_def Let_def case_prod_unfold)
  then show ?thesis
    by (cases "shutdown E (leg, a)") (simp add: on_recv_def PLive live_step_def Let_def case_prod_unfold finish_closed)
next
  case PStartup
  then show ?thesis using assms(2) by (simp add: on_recv_def startup_command_def closed_connect)
qed (use assms in \<open>simp_all add: on_recv_def backoff_command_def idle_command_def receives_def\<close>)

lemma exit_stays: "ac_phase a = PExit \<Longrightarrow> ac_phase (snd (actor_step E now ev a)) = PExit"
  by (cases ev) (auto simp: check_backoff_def receives_def)

definition close_round :: "instant \<Rightarrow> (instant \<times> ('f, 's, 'p) ActorEvent) list" where
  "close_round now = [(now, ClosedSeen), (now, Recv)]"

lemma close_round_progress:
  fixes E :: "('f, 's, 'w, 'p, 'c) actor_env"
  assumes "ac_dropped a" and "ac_closed a"
  shows "ac_phase (snd (actor_run E (close_round now) a)) = PExit \<or>
    (\<exists>c. ac_queue a = c # ac_queue (snd (actor_run E (close_round now) a))) \<and>
    ac_dropped (snd (actor_run E (close_round now) a)) \<and> ac_closed (snd (actor_run E (close_round now) a))"
proof (cases "\<exists>req ph. ac_phase a = PLeg req ph")
  case True
  then have "ac_phase (snd (actor_step E now ClosedSeen a)) = PExit"
    using assms by (auto simp: after_disconnect_def)
  then show ?thesis
    by (simp add: close_round_def Let_def case_prod_unfold exit_stays del: actor_step.simps)
next
  case False
  then have one: "snd (actor_step E now ClosedSeen a) = a" by (cases "ac_phase a") auto
  then have run: "snd (actor_run E (close_round now) a) = snd (actor_step E now Recv a)"
    by (simp add: close_round_def Let_def case_prod_unfold del: actor_step.simps)
  show ?thesis
  proof (cases "receives (ac_phase a)")
    case False
    then have "ac_phase a = PExit" using \<open>\<nexists>req ph. ac_phase a = PLeg req ph\<close> by (cases "ac_phase a") (auto simp: receives_def)
    then show ?thesis unfolding run using exit_stays by blast
  next
    case True
    show ?thesis
    proof (cases "ac_queue a")
      case Nil
      then have "recv a = Some (None, a)" using assms by (simp add: recv_def)
      then show ?thesis unfolding run
        using True recv_none_exits [OF True assms(2), of E now] \<open>\<nexists>req ph. ac_phase a = PLeg req ph\<close> by simp
    next
      case (Cons c cs)
      then have "recv a = Some (Some c, a\<lparr>ac_queue := cs\<rparr>)" by (simp add: recv_def)
      then have "snd (actor_step E now Recv a) = snd (on_recv E now (Some c) (a\<lparr>ac_queue := cs\<rparr>))" using True by simp
      then show ?thesis unfolding run
        using chan_on_recv [of E now "Some c" "a\<lparr>ac_queue := cs\<rparr>"] Cons assms by (simp add: chan_def)
    qed
  qed
qed

lemma actor_run_append:
  "actor_run E (es @ fs) a =
     (fst (actor_run E es a) @ fst (actor_run E fs (snd (actor_run E es a))), snd (actor_run E fs (snd (actor_run E es a))))"
proof (induction es arbitrary: a)
  case (Cons e es)
  then show ?case by (cases e) (simp add: Let_def case_prod_unfold del: actor_step.simps)
qed simp

lemma exit_run_stays: "ac_phase a = PExit \<Longrightarrow> ac_phase (snd (actor_run E es a)) = PExit"
proof (induction es arbitrary: a)
  case (Cons e es)
  then show ?case by (cases e) (simp add: Let_def case_prod_unfold exit_stays del: actor_step.simps)
qed simp

lemma close_rounds_exit:
  "ac_dropped a \<Longrightarrow> ac_closed a \<Longrightarrow>
     ac_phase (snd (actor_run E (concat (replicate (Suc (length (ac_queue a))) (close_round now))) a)) = PExit"
proof (induction "length (ac_queue a)" arbitrary: a)
  case 0
  with close_round_progress [of a E now] show ?case by auto
next
  case (Suc n)
  let ?b = "snd (actor_run E (close_round now) a)"
  have eq: "concat (replicate (Suc (length (ac_queue a))) (close_round now)) =
      close_round now @ concat (replicate (length (ac_queue a)) (close_round now))" by simp
  show ?case
  proof (cases "ac_phase ?b = PExit")
    case True
    then show ?thesis unfolding eq actor_run_append snd_conv by (rule exit_run_stays)
  next
    case False
    with close_round_progress [of a E now] Suc.prems obtain c
      where c: "ac_queue a = c # ac_queue ?b" "ac_dropped ?b" "ac_closed ?b" by auto
    then have "Suc (length (ac_queue ?b)) = length (ac_queue a)" by simp
    with Suc.hyps(1) [OF _ c(2,3)] Suc.hyps(2) show ?thesis unfolding eq actor_run_append snd_conv by simp
  qed
qed

text \<open>C27: Dropping a session ends it: once every handle is dropped, whatever the session is doing and
  whatever commands are still queued, the actor exits after at most one round per queued command and
  one more, in which it sees that it is closed or takes the next command.
\<close>

theorem dropped_session_exits:
  "let a = snd (actor_run E (es @ [(t, AppDrop)]) (spawn profile secrets options policy))
   in ac_phase (snd (actor_run E (concat (replicate (Suc (length (ac_queue a))) (close_round now))) a)) = PExit"
  unfolding Let_def
  by (rule close_rounds_exit) (simp_all add: actor_run_append)


subsection \<open>Where the code departs from its comments\<close>

text \<open>A prompt throws away what the app reports meanwhile: the tab's size, visibility, focus and clipboard.\<close>

lemma prompt_discards:
  "prompt_command E now req leaf fp (Some (CmdResize g)) a = ([], a)"
  "prompt_command E now req leaf fp (Some (CmdSetVisible v)) a = ([], a)"
  "prompt_command E now req leaf fp (Some (CmdFocus v)) a = ([], a)"
  "prompt_command E now req leaf fp (Some (CmdClipboardLocalChanged c)) a = ([], a)"
  by (simp_all add: prompt_command_def)

text \<open>Closing a terminal session ends it without a final state event.\<close>

lemma idle_close_silent:
  "idle_command F now (Some CmdClose) a = ([], a\<lparr>ac_phase := PExit\<rparr>)"
  by (simp add: idle_command_def)

text \<open>Input is sent in every live leg, also in the first leg of a Remote Login, whose state is \<open>Connecting\<close>.\<close>

lemma input_sent_in_any_state:
  "on_command E now (Some (CmdInput ev)) (leg, a\<lparr>ac_state := s\<rparr>) =
     (let (events, enc) = encode ev (ac_input a)
      in send_input_events E events (leg, a\<lparr>ac_state := s, ac_typist := gt_on_input ev now (ac_typist a), ac_input := enc\<rparr>))"
  by simp

text \<open>A leg's clipboard channel exists whatever the profile's clipboard preference.\<close>

lemma clipboard_channel_always:
  "ac_closed a = False \<Longrightarrow>
     ac_clipboard (snd (start_leg now req a)) = Some (ClipboardSync_new (clipboard (ac_profile a)) (ac_focused a))"
  by (simp add: start_leg_def set_state_def Let_def case_prod_unfold split: sum.split)

text \<open>An attempt that waits for the network does not count: the budget is untouched.\<close>

lemma network_wait_uncounted:
  "\<not> network_reachable p \<Longrightarrow> attempts (snd (next_decision p j)) = attempts p"
  by (simp add: next_decision_def)

end
