(* ===== verification/Rdp_Stats.thy ===== *)
theory Rdp_Stats
  imports Complex_Main Gfx_Ack Rust_Str
begin

text \<open>
  \<open>crates/drift-rdp/src\<close>: the session statistics (\<open>stats.rs\<close>), the graphics bridge between the client's sink
  and the session actor (\<open>graphics.rs\<close>), the listener that only acknowledges (\<open>gfx_ack.rs\<close>) and the
  logging policy (\<open>logging.rs\<close>). The floating-point values of the statistics are reals; decompression and
  the decoding of one message, of the vendored protocol library, are parameters.
\<close>

subsection \<open>Latency percentiles\<close>

record Percentiles =
  samples :: "duration list"

definition CAPACITY :: nat where
  "CAPACITY = 4096"

definition Percentiles_default :: Percentiles where
  "Percentiles_default = \<lparr>samples = []\<rparr>"

definition record_sample :: "duration \<Rightarrow> Percentiles \<Rightarrow> Percentiles" where
  "record_sample latency p =
     p\<lparr>samples := (if length (samples p) = CAPACITY then drop 1 (samples p) else samples p) @ [latency]\<rparr>"

definition percentiles_clear :: "Percentiles \<Rightarrow> Percentiles" where
  "percentiles_clear p = p\<lparr>samples := []\<rparr>"

definition rank_of :: "nat \<Rightarrow> nat \<Rightarrow> nat" where
  "rank_of p n = max ((min p 100 * n + 99) div 100) 1"

definition as_ms :: "duration \<Rightarrow> real" where
  "as_ms d = real d / 10 ^ 6"

definition percentile_ms :: "Percentiles \<Rightarrow> nat \<Rightarrow> real" where
  "percentile_ms ps p =
     (if samples ps = [] then 0
      else let sorted = sort (samples ps); rank = rank_of p (length sorted)
        in if rank - 1 < length sorted then as_ms (sorted ! (rank - 1)) else 0)"

subsection \<open>The meter\<close>

definition STATS_PERIOD :: duration where
  "STATS_PERIOD = duration_secs 1"

record SessionStats =
  st_fps :: real
  st_bitrate_bps :: u64
  st_frame_latency_p95_ms :: real
  st_input_to_wire_p99_ms :: real
  st_unacked_frames :: u32

record StatsMeter =
  sm_since :: "instant option"
  sm_frames :: u64
  sm_bytes :: u64
  sm_frame_latency :: Percentiles
  sm_input_latency :: Percentiles

definition StatsMeter_new :: "instant \<Rightarrow> StatsMeter" where
  "StatsMeter_new now = \<lparr>sm_since = Some now, sm_frames = 0, sm_bytes = 0,
     sm_frame_latency = Percentiles_default, sm_input_latency = Percentiles_default\<rparr>"

definition meter_restart :: "instant \<Rightarrow> StatsMeter \<Rightarrow> StatsMeter" where
  "meter_restart now m = StatsMeter_new now"

definition meter_frame_latency :: "duration \<Rightarrow> StatsMeter \<Rightarrow> StatsMeter" where
  "meter_frame_latency latency m = m\<lparr>sm_frame_latency := record_sample latency (sm_frame_latency m)\<rparr>"

definition meter_frame_latencies :: "duration list \<Rightarrow> StatsMeter \<Rightarrow> StatsMeter" where
  "meter_frame_latencies latencies m = m\<lparr>sm_frame_latency := fold record_sample latencies (sm_frame_latency m)\<rparr>"

definition meter_input_latency :: "duration \<Rightarrow> StatsMeter \<Rightarrow> StatsMeter" where
  "meter_input_latency latency m = m\<lparr>sm_input_latency := record_sample latency (sm_input_latency m)\<rparr>"

definition meter_frames :: "u64 \<Rightarrow> StatsMeter \<Rightarrow> StatsMeter" where
  "meter_frames n m = m\<lparr>sm_frames := saturating_add (sm_frames m) n\<rparr>"

definition meter_bytes :: "u64 \<Rightarrow> StatsMeter \<Rightarrow> StatsMeter" where
  "meter_bytes n m = m\<lparr>sm_bytes := saturating_add (sm_bytes m) n\<rparr>"

text \<open>\<open>clock\<close> is the time the operating system gives when no window has started.\<close>

definition meter_deadline :: "instant \<Rightarrow> StatsMeter \<Rightarrow> instant" where
  "meter_deadline clock m = (case sm_since m of None \<Rightarrow> clock | Some t \<Rightarrow> t) + STATS_PERIOD"

text \<open>The conversion of a real to \<open>u64\<close> truncates and saturates.\<close>

definition real_to_u64 :: "real \<Rightarrow> u64" where
  "real_to_u64 x = (if x \<le> 0 then 0 else if 2 ^ 64 \<le> x then - 1 else of_nat (nat \<lfloor>x\<rfloor>))"

definition as_secs :: "duration \<Rightarrow> real" where
  "as_secs d = real d / 10 ^ 9"

definition meter_sample :: "instant \<Rightarrow> u32 \<Rightarrow> StatsMeter \<Rightarrow> SessionStats option \<times> StatsMeter" where
  "meter_sample now unacked_frames m =
     (let since = (case sm_since m of None \<Rightarrow> now | Some t \<Rightarrow> t);
          m = m\<lparr>sm_since := Some since\<rparr>;
          elapsed = duration_since now since
      in if elapsed < STATS_PERIOD then (None, m)
         else let secs = as_secs elapsed
           in (Some \<lparr>st_fps = real (unat (sm_frames m)) / secs,
                 st_bitrate_bps = real_to_u64 (real (unat (sm_bytes m)) * 8 / secs),
                 st_frame_latency_p95_ms = percentile_ms (sm_frame_latency m) 95,
                 st_input_to_wire_p99_ms = percentile_ms (sm_input_latency m) 99,
                 st_unacked_frames = unacked_frames\<rparr>, meter_restart now m))"

subsection \<open>The graphics bridge\<close>

definition MAX_PENDING_LATENCIES :: nat where
  "MAX_PENDING_LATENCIES = 512"

text \<open>The observable state of the tab's sink; \<open>bs_sent\<close> are the frames handed to the wrapped sink.\<close>

record SinkState =
  bs_output :: "(u32 \<times> u32) option"
  bs_frames :: u64
  bs_wire_at :: "instant option"
  bs_latencies :: "duration list"
  bs_sent :: "u32 list"

definition SinkState_new :: SinkState where
  "SinkState_new = \<lparr>bs_output = None, bs_frames = 0, bs_wire_at = None, bs_latencies = [], bs_sent = []\<rparr>"

definition bridge_reset :: "u32 \<times> u32 \<Rightarrow> SinkState \<Rightarrow> SinkState" where
  "bridge_reset output s = s\<lparr>bs_output := Some output\<rparr>"

text \<open>The callback of a frame is its start, captured when the frame ends, and the callback it wraps.\<close>

definition bridge_end_frame :: "u32 \<Rightarrow> 'cb \<Rightarrow> SinkState \<Rightarrow> (instant option \<times> 'cb) \<times> SinkState" where
  "bridge_end_frame frame_id inner s =
     ((bs_wire_at s, inner), s\<lparr>bs_frames := bs_frames s + 1, bs_sent := bs_sent s @ [frame_id]\<rparr>)"

definition bridge_presented :: "instant \<Rightarrow> instant option \<times> 'cb \<Rightarrow> SinkState \<Rightarrow> 'cb \<times> SinkState" where
  "bridge_presented now timed s =
     (case timed of (started, inner) \<Rightarrow>
        (inner,
         case started of
           None \<Rightarrow> s
         | Some t \<Rightarrow>
             (let pending = (if MAX_PENDING_LATENCIES \<le> length (bs_latencies s) then drop 1 (bs_latencies s) else bs_latencies s)
              in s\<lparr>bs_latencies := pending @ [duration_since now t]\<rparr>)))"

definition mark_wire :: "instant \<Rightarrow> SinkState \<Rightarrow> SinkState" where
  "mark_wire now s = s\<lparr>bs_wire_at := Some now\<rparr>"

definition take_frame_latencies :: "SinkState \<Rightarrow> duration list \<times> SinkState" where
  "take_frame_latencies s = (bs_latencies s, s\<lparr>bs_latencies := []\<rparr>)"

definition take_presented_frames :: "SinkState \<Rightarrow> u64 \<times> SinkState" where
  "take_presented_frames s = (bs_frames s, s\<lparr>bs_frames := 0\<rparr>)"

subsection \<open>Acknowledging without decoding\<close>

record 'z GfxAckOnly =
  ga_zgfx :: 'z
  ga_frames_decoded :: u32

definition header_length :: "u8 list \<Rightarrow> nat option" where
  "header_length rest =
     (if length rest < 8 then None
      else let l = unat (rest ! 4) + 256 * unat (rest ! 5) + 65536 * unat (rest ! 6) + 16777216 * unat (rest ! 7)
        in if 8 \<le> l \<and> l \<le> length rest then Some l else None)"

lemma header_length_bound: "header_length rest = Some l \<Longrightarrow> 8 \<le> l \<and> l \<le> length rest"
  by (auto simp: header_length_def Let_def split: if_splits)

text \<open>\<open>end_frame\<close> decodes one message: the frame it ends, or none for every other or unknown message.\<close>

function ack_messages ::
  "(u8 list \<Rightarrow> u32 option) \<Rightarrow> u8 list \<Rightarrow> u32 \<Rightarrow> FrameAcknowledgePdu list \<Rightarrow> (rstr, FrameAcknowledgePdu list) result \<times> u32" where
  "ack_messages end_frame rest decoded acked =
     (if rest = [] then (Inr acked, decoded)
      else (case header_length rest of
          None \<Rightarrow> (Inl (lit ''malformed RDPGFX_HEADER''), decoded)
        | Some l \<Rightarrow>
            (case end_frame (take l rest) of
               None \<Rightarrow> ack_messages end_frame (drop l rest) decoded acked
             | Some frame_id \<Rightarrow> ack_messages end_frame (drop l rest) (decoded + 1)
                 (acked @ [\<lparr>queue_depth = Unavailable, ack_frame_id = frame_id, total_frames_decoded = decoded + 1\<rparr>]))))"
  by auto
termination
  by (relation "measure (\<lambda>(_, rest, _, _). length rest)") (auto dest!: header_length_bound)

declare ack_messages.simps [simp del]

definition acks_for ::
  "('z \<Rightarrow> u8 list \<Rightarrow> (rstr, u8 list) result \<times> 'z) \<Rightarrow> (u8 list \<Rightarrow> u32 option) \<Rightarrow> u8 list \<Rightarrow> 'z GfxAckOnly \<Rightarrow>
     (rstr, FrameAcknowledgePdu list) result \<times> 'z GfxAckOnly" where
  "acks_for decompress end_frame payload g =
     (case decompress (ga_zgfx g) payload of
        (Inl e, z) \<Rightarrow> (Inl (lit ''ZGFX: '' @ e), g\<lparr>ga_zgfx := z\<rparr>)
      | (Inr data, z) \<Rightarrow>
          (case ack_messages end_frame data (ga_frames_decoded g) [] of
             (r, decoded) \<Rightarrow> (r, g\<lparr>ga_zgfx := z, ga_frames_decoded := decoded\<rparr>)))"

subsection \<open>Credential-safe logging\<close>

datatype Level = LERROR | LWARN | LINFO | LDEBUG | LTRACE

text \<open>How verbose a level is: \<open>level <= max\<close> of \<open>tracing\<close> compares these.\<close>

fun verbosity :: "Level \<Rightarrow> nat" where
  "verbosity LERROR = 0" | "verbosity LWARN = 1" | "verbosity LINFO = 2" | "verbosity LDEBUG = 3" | "verbosity LTRACE = 4"

definition CREDENTIAL_LOGGING_TARGETS :: "rstr list" where
  "CREDENTIAL_LOGGING_TARGETS = [lit ''sspi'']"

definition MAX_CREDENTIAL_TARGET_LEVEL :: Level where
  "MAX_CREDENTIAL_TARGET_LEVEL = LINFO"

definition is_credential_logging_target :: "rstr \<Rightarrow> bool" where
  "is_credential_logging_target target =
     list_ex (\<lambda>capped. target = capped \<or>
       (length capped < length target \<and> prefix capped target \<and> prefix (lit ''::'') (drop (length capped) target)))
       CREDENTIAL_LOGGING_TARGETS"

definition log_allows :: "rstr \<Rightarrow> Level \<Rightarrow> bool" where
  "log_allows target level =
     (\<not> is_credential_logging_target target \<or> verbosity level \<le> verbosity MAX_CREDENTIAL_TARGET_LEVEL)"

end
