(* ===== verification/Rdp_Stats_Theorems.thy ===== *)
theory Rdp_Stats_Theorems
  imports Rdp_Stats "HOL-Library.Multiset"
begin

text \<open>
  Properties of the statistics, of the acknowledging listener, of the graphics bridge and of the logging policy.
\<close>

subsection \<open>Percentiles\<close>

lemma length_filter_sort: "length (filter P (sort xs)) = length (filter P xs)"
  by (metis mset_filter mset_sort size_mset)

lemma sorted_rank:
  assumes "sorted ys" and "1 \<le> r" and "r \<le> length ys"
  shows "r \<le> length (filter (\<lambda>x. x \<le> ys ! (r - 1)) ys)" and "length (filter (\<lambda>x. x < ys ! (r - 1)) ys) < r"
proof -
  let ?v = "ys ! (r - 1)"
  have "x \<le> ?v" if x: "x \<in> set (take r ys)" for x
  proof -
    obtain i where "i < r" "x = ys ! i" using x assms(3) by (auto simp: in_set_conv_nth)
    then show ?thesis using assms by (auto intro: sorted_nth_mono)
  qed
  then have "filter (\<lambda>x. x \<le> ?v) (take r ys) = take r ys" by (simp add: filter_id_conv)
  then have "length (filter (\<lambda>x. x \<le> ?v) (take r ys @ drop r ys)) = r + length (filter (\<lambda>x. x \<le> ?v) (drop r ys))"
    using assms(3) by (simp only: filter_append length_append) (simp add: min_absorb2)
  then show "r \<le> length (filter (\<lambda>x. x \<le> ?v) ys)" by simp
  have "\<not> x < ?v" if x: "x \<in> set (drop (r - 1) ys)" for x
  proof -
    obtain i where i: "i < length (drop (r - 1) ys)" "drop (r - 1) ys ! i = x" using x by (metis in_set_conv_nth)
    then have "r - 1 + i < length ys" "x = ys ! (r - 1 + i)" by auto
    then show ?thesis using assms sorted_nth_mono [of ys "r - 1" "r - 1 + i"] by (simp add: not_less)
  qed
  then have "filter (\<lambda>x. x < ?v) (drop (r - 1) ys) = []" by (simp add: filter_empty_conv)
  then have "length (filter (\<lambda>x. x < ?v) (take (r - 1) ys @ drop (r - 1) ys)) = length (filter (\<lambda>x. x < ?v) (take (r - 1) ys))"
    by (simp only: filter_append append_Nil2)
  also have "\<dots> \<le> length (take (r - 1) ys)" by (rule length_filter_le)
  also have "\<dots> < r" using assms(2,3) by (simp add: min_def)
  finally show "length (filter (\<lambda>x. x < ?v) ys) < r" by simp
qed

lemma rank_bounds: "0 < n \<Longrightarrow> 1 \<le> rank_of p n \<and> rank_of p n \<le> n"
proof -
  assume "0 < n"
  have "min p 100 * n + 99 \<le> 100 * n + 99" by (simp add: mult_right_mono)
  then have "(min p 100 * n + 99) div 100 \<le> (100 * n + 99) div 100" by (rule div_le_mono)
  also have "\<dots> = n" by simp
  finally show ?thesis using \<open>0 < n\<close> by (simp add: rank_of_def)
qed

text \<open>A percentile is the latency of a held sample at its nearest rank, the smallest whole number of samples that is
  at least that share of them (one at the least): that many samples are no larger, and fewer are smaller.\<close>

theorem percentile_nearest_rank:
  assumes "samples ps \<noteq> []"
  shows "\<exists>v \<in> set (samples ps). percentile_ms ps p = as_ms v \<and>
    rank_of p (length (samples ps)) \<le> length (filter (\<lambda>x. x \<le> v) (samples ps)) \<and>
    length (filter (\<lambda>x. x < v) (samples ps)) < rank_of p (length (samples ps)) \<and>
    min p 100 * length (samples ps) \<le> 100 * rank_of p (length (samples ps)) \<and>
    (rank_of p (length (samples ps)) = 1 \<or> 100 * (rank_of p (length (samples ps)) - 1) < min p 100 * length (samples ps))"
proof -
  let ?xs = "samples ps" and ?r = "rank_of p (length (samples ps))"
  let ?v = "sort ?xs ! (?r - 1)"
  have r: "1 \<le> ?r" "?r \<le> length (sort ?xs)" using rank_bounds [of "length ?xs" p] assms by auto
  then have r_lt: "?r - 1 < length ?xs" by (simp add: less_eq_Suc_le)
  then have "?v \<in> set ?xs" using nth_mem [of "?r - 1" "sort ?xs"] by simp
  moreover have "percentile_ms ps p = as_ms ?v" using assms r(1) r_lt by (simp add: percentile_ms_def Let_def)
  moreover have "?r \<le> length (filter (\<lambda>x. x \<le> ?v) ?xs)" "length (filter (\<lambda>x. x < ?v) ?xs) < ?r"
    using sorted_rank [of "sort ?xs" ?r] r by (simp_all add: length_filter_sort)
  moreover have "min p 100 * length ?xs \<le> 100 * ?r \<and> (?r = 1 \<or> 100 * (?r - 1) < min p 100 * length ?xs)"
  proof -
    have "m \<le> 100 * max ((m + 99) div 100) 1 \<and> (max ((m + 99) div 100) 1 = 1 \<or> 100 * (max ((m + 99) div 100) 1 - 1) < m)" for m :: nat
    proof -
      define q where "q = (m + 99) div 100"
      have "m + 99 = 100 * q + (m + 99) mod 100" "(m + 99) mod 100 < 100" unfolding q_def by simp_all
      then have "m \<le> 100 * q" "100 * q \<le> m + 99" by linarith+
      then show ?thesis unfolding q_def [symmetric] by (auto simp: max_def)
    qed
    then show ?thesis unfolding rank_of_def by blast
  qed
  ultimately show ?thesis by blast
qed

lemma percentile_nearest_rank_witness:
  "percentile_ms \<lparr>samples = [3000000, 1000000, 2000000]\<rparr> 95 = 3"
proof -
  have "rank_of 95 3 = 3" by (simp add: rank_of_def)
  then obtain v where v: "v = 3000000 \<or> v = 1000000 \<or> v = 2000000"
    "percentile_ms \<lparr>samples = [3000000, 1000000, 2000000]\<rparr> 95 = as_ms v"
    "3 \<le> length (filter (\<lambda>x. x \<le> v) [3000000, 1000000, 2000000])"
    using percentile_nearest_rank [of "\<lparr>samples = [3000000, 1000000, 2000000]\<rparr>" 95] by fastforce
  from v(1,3) have "v = 3000000" by (elim disjE) simp_all
  with v(2) show ?thesis by (simp add: as_ms_def)
qed

lemma fold_record_sample:
  "length (samples p) \<le> CAPACITY \<Longrightarrow>
     samples (fold record_sample ls p) = (let all = samples p @ ls in drop (length all - CAPACITY) all)"
proof (induction ls arbitrary: p)
  case (Cons l ls)
  show ?case
  proof (cases "length (samples p) = CAPACITY")
    case True
    then obtain x xs where x: "samples p = x # xs" by (cases "samples p") (auto simp: CAPACITY_def)
    then have s: "samples (record_sample l p) = xs @ [l]" "length (xs @ [l]) = CAPACITY"
      using True by (simp_all add: record_sample_def)
    have "samples (fold record_sample ls (record_sample l p)) =
        (let all = (xs @ [l]) @ ls in drop (length all - CAPACITY) all)"
      using Cons.IH [of "record_sample l p"] s by simp
    then show ?thesis using s(2) x by (simp add: Let_def Suc_diff_le)
  next
    case False
    then show ?thesis
      using Cons.IH [of "record_sample l p"] Cons.prems by (simp add: record_sample_def Let_def)
  qed
qed simp

subsection \<open>The meter\<close>

text \<open>A window's statistics come once the period is over and not before; they are the counts of the window over its
  length, and the next window starts empty at that moment.\<close>

theorem meter_windows:
  assumes "m = meter_input_latency l (meter_frame_latencies ls (meter_bytes b (meter_frames n (StatsMeter_new t))))"
  shows "meter_sample now u m =
    (if now < t + STATS_PERIOD then (None, m)
     else (Some \<lparr>st_fps = real (unat n) / as_secs (now - t),
       st_bitrate_bps = real_to_u64 (real (unat b) * 8 / as_secs (now - t)),
       st_frame_latency_p95_ms = percentile_ms \<lparr>samples = drop (length ls - CAPACITY) ls\<rparr> 95,
       st_input_to_wire_p99_ms = as_ms l, st_unacked_frames = u\<rparr>, StatsMeter_new now)) \<and>
    meter_deadline clock m = t + STATS_PERIOD"
proof -
  have "fold record_sample ls Percentiles_default = \<lparr>samples = drop (length ls - CAPACITY) ls\<rparr>"
    using fold_record_sample [of Percentiles_default ls]
    by (intro Percentiles.equality) (simp_all add: Percentiles_default_def Let_def)
  moreover have "percentile_ms (record_sample l Percentiles_default) 99 = as_ms l"
    by (simp add: record_sample_def Percentiles_default_def percentile_ms_def rank_of_def CAPACITY_def)
  moreover have "saturating_add 0 x = x" for x :: u64
    using unsigned_less [of x, where 'a = nat] by (simp add: saturating_add_def)
  moreover have "m = \<lparr>sm_since = Some t, sm_frames = saturating_add 0 n, sm_bytes = saturating_add 0 b,
      sm_frame_latency = fold record_sample ls Percentiles_default, sm_input_latency = record_sample l Percentiles_default\<rparr>"
    using assms by (simp add: meter_input_latency_def meter_frame_latencies_def meter_bytes_def meter_frames_def StatsMeter_new_def)
  moreover have "STATS_PERIOD > 0" by (simp add: STATS_PERIOD_def duration_secs_def)
  ultimately show ?thesis
    by (auto simp: meter_sample_def meter_deadline_def duration_since_def meter_restart_def Let_def)
qed

lemma meter_windows_witness:
  "(let m = meter_input_latency 1000000 (meter_frame_latencies [2000000] (meter_bytes 150000 (meter_frames 60 (StatsMeter_new 5))))
    in fst (meter_sample (5 + 999 * 10 ^ 6) 0 m) = None \<and>
       map_option st_fps (fst (meter_sample (5 + STATS_PERIOD) 3 m)) = Some 60 \<and>
       meter_deadline 0 m = 5 + STATS_PERIOD)"
  using meter_windows [OF refl, of "5 + 999 * 10 ^ 6" 0 1000000 "[2000000]" 150000 60 5 0]
    meter_windows [OF refl, of "5 + STATS_PERIOD" 3 1000000 "[2000000]" 150000 60 5 0]
  by (simp add: Let_def STATS_PERIOD_def duration_secs_def as_secs_def)

subsection \<open>The bridge\<close>

lemma bridge_presented_bounded:
  "length (bs_latencies s) \<le> MAX_PENDING_LATENCIES \<Longrightarrow>
     length (bs_latencies (snd (bridge_presented now timed s))) \<le> MAX_PENDING_LATENCIES"
  by (auto simp: bridge_presented_def MAX_PENDING_LATENCIES_def Let_def split: prod.split option.split)

subsection \<open>The acknowledging listener\<close>

lemma ack_messages_Inr:
  assumes "ack_messages end_frame rest decoded acked = (Inr pdus, decoded')"
  shows "\<exists>msgs. concat msgs = rest \<and> (\<forall>m \<in> set msgs. header_length m = Some (length m)) \<and>
    map ack_frame_id pdus = map ack_frame_id acked @ List.map_filter end_frame msgs \<and>
    map total_frames_decoded pdus =
      map total_frames_decoded acked @ map (\<lambda>i. decoded + 1 + of_nat i) [0..<length (List.map_filter end_frame msgs)] \<and>
    decoded' = decoded + of_nat (length (List.map_filter end_frame msgs))"
  using assms
proof (induction end_frame rest decoded acked rule: ack_messages.induct)
  case (1 end_frame rest decoded acked)
  show ?case
  proof (cases "rest = []")
    case True
    then show ?thesis using "1.prems" by (intro exI [of _ "[]"]) (simp add: ack_messages.simps [of end_frame "[]"] map_filter_simps)
  next
    case False
    then obtain l where l: "header_length rest = Some l"
      using "1.prems" by (auto simp: ack_messages.simps [of end_frame rest] split: option.splits)
    note bound = header_length_bound [OF l]
    have head: "header_length (take l rest) = Some (length (take l rest))"
      using l bound by (auto simp: header_length_def Let_def split: if_splits)
    have shift: "map (\<lambda>i. decoded + 1 + 1 + of_nat i) [0..<k] = map (\<lambda>i. decoded + 1 + of_nat i) [Suc 0..<Suc k]" for k
      by (simp add: map_Suc_upt [symmetric] comp_def ac_simps del: map_Suc_upt upt_Suc)
    show ?thesis
    proof (cases "end_frame (take l rest)")
      case None
      then obtain msgs where "concat msgs = drop l rest" "\<forall>m \<in> set msgs. header_length m = Some (length m)"
        "map ack_frame_id pdus = map ack_frame_id acked @ List.map_filter end_frame msgs"
        "map total_frames_decoded pdus =
          map total_frames_decoded acked @ map (\<lambda>i. decoded + 1 + of_nat i) [0..<length (List.map_filter end_frame msgs)]"
        "decoded' = decoded + of_nat (length (List.map_filter end_frame msgs))"
        using "1.IH"(1) [OF False l None] "1.prems" False l
        by (auto simp: ack_messages.simps [of end_frame rest])
      then show ?thesis using None head
        by (intro exI [of _ "take l rest # msgs"]) (simp add: map_filter_simps)
    next
      case (Some frame_id)
      then obtain msgs where m: "concat msgs = drop l rest" "\<forall>m \<in> set msgs. header_length m = Some (length m)"
        "map ack_frame_id pdus = (map ack_frame_id acked @ [frame_id]) @ List.map_filter end_frame msgs"
        "map total_frames_decoded pdus = (map total_frames_decoded acked @ [decoded + 1]) @
          map (\<lambda>i. decoded + 1 + 1 + of_nat i) [0..<length (List.map_filter end_frame msgs)]"
        "decoded' = decoded + 1 + of_nat (length (List.map_filter end_frame msgs))"
        using "1.IH"(2) [OF False l Some] "1.prems" False l
        by (auto simp: ack_messages.simps [of end_frame rest])
      let ?k = "length (List.map_filter end_frame msgs)"
      have "map (\<lambda>i. decoded + 1 + of_nat i) [0..<Suc ?k] = (decoded + 1) # map (\<lambda>i. decoded + 1 + 1 + of_nat i) [0..<?k]"
        by (simp only: shift) (simp add: upt_conv_Cons del: upt_Suc)
      then show ?thesis using Some head m
        by (intro exI [of _ "take l rest # msgs"]) (simp add: map_filter_simps ac_simps del: upt_Suc)
    qed
  qed
qed

text \<open>The acknowledging listener cuts a decompressed payload exactly at the lengths its messages declare and
  acknowledges every frame that ends in it, once, in order, with consecutive totals; a payload that does not
  divide that way is refused.\<close>

theorem listener_acks_every_frame:
  assumes "acks_for decompress end_frame payload g = (Inr pdus, g')"
  shows "\<exists>data z msgs. decompress (ga_zgfx g) payload = (Inr data, z) \<and> concat msgs = data \<and>
    (\<forall>m \<in> set msgs. header_length m = Some (length m)) \<and>
    map ack_frame_id pdus = List.map_filter end_frame msgs \<and>
    map total_frames_decoded pdus = map (\<lambda>i. ga_frames_decoded g + 1 + of_nat i) [0..<length pdus] \<and>
    ga_frames_decoded g' = ga_frames_decoded g + of_nat (length pdus)"
proof -
  obtain data z where d: "decompress (ga_zgfx g) payload = (Inr data, z)"
    using assms by (auto simp: acks_for_def split: prod.splits sum.splits)
  then have "ack_messages end_frame data (ga_frames_decoded g) [] = (Inr pdus, ga_frames_decoded g')"
    using assms by (auto simp: acks_for_def split: prod.splits)
  from ack_messages_Inr [OF this] obtain msgs where m: "concat msgs = data" "\<forall>m \<in> set msgs. header_length m = Some (length m)"
    "map ack_frame_id pdus = List.map_filter end_frame msgs"
    "map total_frames_decoded pdus = map (\<lambda>i. ga_frames_decoded g + 1 + of_nat i) [0..<length (List.map_filter end_frame msgs)]"
    "ga_frames_decoded g' = ga_frames_decoded g + of_nat (length (List.map_filter end_frame msgs))"
    by auto
  then have "length pdus = length (List.map_filter end_frame msgs)" by (metis length_map)
  then show ?thesis using d m by auto
qed

text \<open>Two messages; the one of eleven bytes ends a frame.\<close>

lemma listener_acks_every_frame_witness:
  "\<exists>g'. acks_for (\<lambda>z p. (Inr p, z)) (\<lambda>m. if length m = 11 then Some 7 else None)
       [0, 0, 0, 0, 9, 0, 0, 0, 5, 0, 0, 0, 0, 11, 0, 0, 0, 1, 2, 3] \<lparr>ga_zgfx = (), ga_frames_decoded = 41\<rparr> =
     (Inr [\<lparr>queue_depth = Unavailable, ack_frame_id = 7, total_frames_decoded = 42\<rparr>], g') \<and> ga_frames_decoded g' = 42"
proof -
  let ?g = "\<lparr>ga_zgfx = (), ga_frames_decoded = 41\<rparr>"
  let ?p = "[0, 0, 0, 0, 9, 0, 0, 0, 5, 0, 0, 0, 0, 11, 0, 0, 0, 1, 2, 3] :: u8 list"
  let ?f = "\<lambda>m :: u8 list. if length m = 11 then Some 7 else (None :: u32 option)"
  obtain g' where g': "acks_for (\<lambda>z p. (Inr p, z)) ?f ?p ?g =
     (Inr [\<lparr>queue_depth = Unavailable, ack_frame_id = 7, total_frames_decoded = 42\<rparr>], g')"
    by (simp add: acks_for_def ack_messages.simps header_length_def)
  then show ?thesis using listener_acks_every_frame [OF g'] by auto
qed

subsection \<open>Logging\<close>

text \<open>Whatever the configured filter says, the library that handles the credentials and every module inside it is
  never logged in more detail than INFO, and nothing else is held back.\<close>

theorem credentials_not_logged:
  "log_allows target level \<longleftrightarrow>
     level \<in> {LERROR, LWARN, LINFO} \<or> (target \<noteq> lit ''sspi'' \<and> \<not> (\<exists>rest. target = lit ''sspi::'' @ rest))"
proof -
  have "is_credential_logging_target target \<longleftrightarrow> target = lit ''sspi'' \<or> (\<exists>rest. target = lit ''sspi::'' @ rest)"
    by (auto simp: is_credential_logging_target_def CREDENTIAL_LOGGING_TARGETS_def prefix_def lit_def)
  moreover have "verbosity level \<le> verbosity MAX_CREDENTIAL_TARGET_LEVEL \<longleftrightarrow> level \<in> {LERROR, LWARN, LINFO}"
    by (cases level) (simp_all add: MAX_CREDENTIAL_TARGET_LEVEL_def)
  ultimately show ?thesis unfolding log_allows_def by blast
qed

end
