(* ===== verification/Video_AnnexB.thy ===== *)
theory Video_AnnexB
  imports Drift_Prelude
begin

text \<open>
  \<open>crates/drift-video/src/annexb.rs\<close>: splitting an H.264 byte stream at its start codes, the conversion
  of an access unit to length-prefixed samples and back.
\<close>

subsection \<open>Constants and errors\<close>

definition NAL_SLICE :: u8 where "NAL_SLICE = 1"
definition NAL_IDR :: u8 where "NAL_IDR = 5"
definition NAL_SEI :: u8 where "NAL_SEI = 6"
definition NAL_SPS :: u8 where "NAL_SPS = 7"
definition NAL_PPS :: u8 where "NAL_PPS = 8"
definition NAL_AUD :: u8 where "NAL_AUD = 9"

lemmas nal_type_defs = NAL_SLICE_def NAL_IDR_def NAL_SEI_def NAL_SPS_def NAL_PPS_def NAL_AUD_def

datatype AnnexBError = EmptyUnit | TruncatedNal nat nat | NalTooLarge

subsection \<open>Splitting\<close>

text \<open>The positions just after each start code; \<open>i\<close> is the position of the list's head.\<close>

fun starts_from :: "nat \<Rightarrow> u8 list \<Rightarrow> nat list" where
  "starts_from i (a # b # c # rest) =
     (if a = 0 \<and> b = 0 \<and> c = 1 then (i + 3) # starts_from (i + 3) rest
      else starts_from (i + 1) (b # c # rest))"
| "starts_from i _ = []"

definition strip_zeros :: "u8 list \<Rightarrow> u8 list" where
  "strip_zeros nal = rev (dropWhile (\<lambda>b. b = 0) (rev nal))"

fun cut_nals :: "u8 list \<Rightarrow> nat list \<Rightarrow> u8 list list" where
  "cut_nals data [] = []"
| "cut_nals data (start # starts) =
     (let end_pos = (case starts of [] \<Rightarrow> length data | next # _ \<Rightarrow> next - 3);
          nal = strip_zeros (take (max end_pos start - start) (drop start data))
      in (if nal = [] then [] else [nal]) @ cut_nals data starts)"

definition split_nals :: "u8 list \<Rightarrow> u8 list list" where
  "split_nals data = cut_nals data (starts_from 0 data)"

definition nal_unit_type :: "u8 list \<Rightarrow> u8 option" where
  "nal_unit_type nal = (case nal of [] \<Rightarrow> None | b # _ \<Rightarrow> Some (and b 0x1F))"

subsection \<open>Access units\<close>

record AccessUnit =
  au_sps :: "u8 list list"
  au_pps :: "u8 list list"
  au_avcc :: "u8 list"
  au_is_idr :: bool

definition AccessUnit_default :: AccessUnit where
  "AccessUnit_default = \<lparr>au_sps = [], au_pps = [], au_avcc = [], au_is_idr = False\<rparr>"

definition u32_be_bytes :: "u32 \<Rightarrow> u8 list" where
  "u32_be_bytes w = [ucast (drop_bit 24 w), ucast (drop_bit 16 w), ucast (drop_bit 8 w), ucast w]"

fun add_nals :: "u8 list list \<Rightarrow> AccessUnit \<Rightarrow> (AnnexBError, AccessUnit) result" where
  "add_nals [] au = Inr au"
| "add_nals (nal # nals) au =
     (let t = nal_unit_type nal
      in if t = Some NAL_AUD then add_nals nals au
         else if t = Some NAL_SPS then add_nals nals (au\<lparr>au_sps := au_sps au @ [nal]\<rparr>)
         else if t = Some NAL_PPS then add_nals nals (au\<lparr>au_pps := au_pps au @ [nal]\<rparr>)
         else if 2 ^ 32 \<le> length nal then Inl NalTooLarge
         else add_nals nals
           (au\<lparr>au_is_idr := (au_is_idr au \<or> t = Some NAL_IDR),
               au_avcc := au_avcc au @ u32_be_bytes (of_nat (length nal)) @ nal\<rparr>))"

definition from_annex_b :: "u8 list \<Rightarrow> (AnnexBError, AccessUnit) result" where
  "from_annex_b data =
     (let nals = split_nals data in if nals = [] then Inl EmptyUnit else add_nals nals AccessUnit_default)"

definition has_picture :: "AccessUnit \<Rightarrow> bool" where
  "has_picture au = (au_avcc au \<noteq> [])"

subsection \<open>Samples\<close>

definition length_size_of :: "nat \<Rightarrow> nat" where
  "length_size_of n = (if 1 \<le> n \<and> n \<le> 4 then n else 4)"

definition be_value :: "u8 list \<Rightarrow> nat" where
  "be_value bs = foldl (\<lambda>acc b. acc * 256 + unat b) 0 bs"

lemma length_size_pos [simp]: "0 < length_size_of n"
  by (simp add: length_size_of_def)

function avcc_from :: "nat \<Rightarrow> nat \<Rightarrow> u8 list \<Rightarrow> (AnnexBError, u8 list list) result" where
  "avcc_from n offset data =
     (let size = length_size_of n; len = be_value (take size data)
      in if data = [] then Inr []
         else if length data < size then Inl (TruncatedNal offset size)
         else if length data < size + len then Inl (TruncatedNal offset len)
         else and_then (avcc_from n (offset + size + len) (drop (size + len) data))
           (\<lambda>nals. Inr (take len (drop size data) # nals)))"
  by auto
termination by (relation "measure (\<lambda>(_, _, data). length data)") (auto intro: diff_less)

declare avcc_from.simps [simp del]

definition avcc_nals :: "u8 list \<Rightarrow> nat \<Rightarrow> (AnnexBError, u8 list list) result" where
  "avcc_nals avcc length_size = avcc_from length_size 0 avcc"

definition avcc_to_annex_b :: "u8 list \<Rightarrow> nat \<Rightarrow> (AnnexBError, u8 list) result" where
  "avcc_to_annex_b avcc length_size =
     and_then (avcc_nals avcc length_size) (\<lambda>nals. Inr (concat (map (\<lambda>nal. [0, 0, 0, 1] @ nal) nals)))"

definition sps_profile_idc :: "u8 list \<Rightarrow> u8 option" where
  "sps_profile_idc sps =
     (case nal_unit_type sps of
        None \<Rightarrow> None
      | Some t \<Rightarrow> if t \<noteq> NAL_SPS then None else (if 1 < length sps then Some (sps ! 1) else None))"

subsection \<open>Streams without a start code\<close>

fun start_free :: "u8 list \<Rightarrow> bool" where
  "start_free (a # b # c # rest) = (\<not> (a = 0 \<and> b = 0 \<and> c = 1) \<and> start_free (b # c # rest))"
| "start_free _ = True"

lemma start_free_tl: "start_free (a # xs) \<Longrightarrow> start_free xs"
  by (cases xs rule: start_free.cases) auto

lemma start_free_append: "start_free (xs @ ys) \<Longrightarrow> start_free xs \<and> start_free ys"
proof (induction xs)
  case (Cons a xs)
  then have "start_free xs" "start_free ys" using start_free_tl [of a "xs @ ys"] by auto
  with Cons.prems show ?case by (cases xs rule: start_free.cases) auto
qed simp

lemma start_free_zeros: "start_free xs \<Longrightarrow> start_free (xs @ replicate n 0)"
proof (induction xs)
  case Nil
  show ?case
  proof (induction n)
    case (Suc n)
    then show ?case by (cases n; cases "n - 1") (auto simp: numeral_2_eq_2)
  qed simp
next
  case (Cons a xs)
  then have IH: "start_free (xs @ replicate n 0)" using start_free_tl by blast
  show ?case
  proof (cases xs)
    case Nil
    then show ?thesis using IH by (cases n; cases "n - 1") auto
  next
    case (Cons b ys)
    then show ?thesis using IH Cons.prems by (cases ys; cases n; cases "tl ys") auto
  qed
qed

lemma cut_nals_step:
  "cut_nals data (start # starts) =
     (let nal = strip_zeros (take (max (case starts of [] \<Rightarrow> length data | next # _ \<Rightarrow> next - 3) start - start) (drop start data))
      in (if nal = [] then [] else [nal]) @ cut_nals data starts)"
  by (simp add: Let_def)

declare cut_nals.simps(2) [simp del]

lemma starts_from_free: "start_free xs \<Longrightarrow> starts_from i xs = []"
  by (induction i xs rule: starts_from.induct) auto

lemma starts_from_skip:
  "start_free xs \<Longrightarrow>
     starts_from i (xs @ 0 # 0 # 1 # rest) = (i + length xs + 3) # starts_from (i + length xs + 3) rest"
proof (induction xs arbitrary: i)
  case (Cons a xs)
  then have IH: "starts_from (i + 1) (xs @ 0 # 0 # 1 # rest) =
      (i + length (a # xs) + 3) # starts_from (i + length (a # xs) + 3) rest"
    using start_free_tl by auto
  show ?case
    using IH Cons.prems by (cases xs rule: start_free.cases) auto
qed simp

text \<open>Every stream is a lead and, behind each start code, a part without one.\<close>

definition coded :: "u8 list list \<Rightarrow> u8 list" where
  "coded parts = concat (map (\<lambda>p. [0, 0, 1] @ p) parts)"

lemma coded_simps [simp]: "coded [] = []" "coded (p # ps) = 0 # 0 # 1 # p @ coded ps"
  by (simp_all add: coded_def)

lemma not_start_free: "\<not> start_free xs \<Longrightarrow> \<exists>ys zs. xs = ys @ 0 # 0 # 1 # zs"
proof (induction xs rule: start_free.induct)
  case (1 a b c rest)
  show ?case
  proof (cases "a = 0 \<and> b = 0 \<and> c = 1")
    case True
    then show ?thesis by (intro exI [of _ "[]"] exI [of _ rest]) simp
  next
    case False
    then obtain ys zs where "b # c # rest = ys @ 0 # 0 # 1 # zs" using 1 by auto
    then show ?thesis by (intro exI [of _ "a # ys"] exI [of _ zs]) simp
  qed
qed auto

lemma first_start:
  assumes "\<not> start_free data"
  shows "\<exists>xs rest. data = xs @ 0 # 0 # 1 # rest \<and> start_free xs"
  using assms
proof (induction "length data" arbitrary: data rule: less_induct)
  case less
  obtain ys zs where d: "data = ys @ 0 # 0 # 1 # zs" using not_start_free [OF less.prems] by blast
  show ?case
  proof (cases "start_free ys")
    case False
    then obtain xs rest where "ys = xs @ 0 # 0 # 1 # rest" "start_free xs"
      using less.hyps [of ys] d by auto
    then show ?thesis by (intro exI [of _ xs] exI [of _ "rest @ 0 # 0 # 1 # zs"]) (simp add: d)
  qed (use d in blast)
qed

lemma stream_parts:
  "\<exists>lead parts. data = lead @ coded parts \<and> start_free lead \<and> (\<forall>p \<in> set parts. start_free p)"
proof (induction "length data" arbitrary: data rule: less_induct)
  case less
  show ?case
  proof (cases "start_free data")
    case True
    then show ?thesis by (intro exI [of _ data] exI [of _ "[]"]) simp
  next
    case False
    then obtain xs rest where d: "data = xs @ 0 # 0 # 1 # rest" "start_free xs" using first_start by blast
    obtain lead parts where "rest = lead @ coded parts" "start_free lead" "\<forall>p \<in> set parts. start_free p"
      using less [of rest] d(1) by auto
    then show ?thesis using d by (intro exI [of _ xs] exI [of _ "lead # parts"]) simp
  qed
qed

lemma cut_parts:
  assumes "start_free xs" and "\<forall>p \<in> set parts. start_free p"
  shows "cut_nals (pre @ xs @ coded parts) (length pre # starts_from (length pre) (xs @ coded parts)) =
     filter (\<lambda>n. n \<noteq> []) (map strip_zeros (xs # parts))"
  using assms
proof (induction parts arbitrary: pre xs)
  case Nil
  then show ?case by (simp add: cut_nals_step starts_from_free)
next
  case (Cons p ps)
  let ?pre = "pre @ xs @ [0, 0, 1]"
  have "cut_nals (?pre @ p @ coded ps) (length ?pre # starts_from (length ?pre) (p @ coded ps)) =
      filter (\<lambda>n. n \<noteq> []) (map strip_zeros (p # ps))"
    using Cons.prems by (intro Cons.IH) simp_all
  then show ?case using Cons.prems by (subst cut_nals_step) (simp add: starts_from_skip numeral_3_eq_3)
qed

lemma split_parts:
  assumes "start_free lead" and "\<forall>p \<in> set parts. start_free p"
  shows "split_nals (lead @ coded parts) = filter (\<lambda>n. n \<noteq> []) (map strip_zeros parts)"
proof (cases parts)
  case Nil
  then show ?thesis using assms(1) by (simp add: split_nals_def starts_from_free)
next
  case (Cons p ps)
  then show ?thesis
    using cut_parts [of p ps "lead @ [0, 0, 1]"] assms
    by (simp add: split_nals_def starts_from_skip numeral_3_eq_3)
qed

lemma strip_zeros_append: "\<exists>n. nal = strip_zeros nal @ replicate n 0"
proof -
  let ?z = "takeWhile (\<lambda>b. b = 0) (rev nal)"
  have "rev nal = ?z @ dropWhile (\<lambda>b. b = 0) (rev nal)" by simp
  then have "nal = strip_zeros nal @ rev ?z" unfolding strip_zeros_def by (metis rev_append rev_rev_ident)
  moreover have "rev ?z = replicate (length ?z) 0"
    by (rule replicate_eqI) (auto dest: set_takeWhileD)
  ultimately show ?thesis by metis
qed

lemma strip_zeros_last: "strip_zeros nal \<noteq> [] \<Longrightarrow> last (strip_zeros nal) \<noteq> 0"
  unfolding strip_zeros_def using hd_dropWhile [of "\<lambda>b. b = 0" "rev nal"] by (simp add: last_rev)

lemma strip_zeros_id:
  assumes "nal \<noteq> []" and "last nal \<noteq> 0"
  shows "strip_zeros (nal @ replicate n 0) = nal"
proof -
  obtain ys y where "nal = ys @ [y]" using assms(1) by (cases nal rule: rev_cases) auto
  moreover have "dropWhile (\<lambda>b. b = 0) (replicate n 0 @ y # rev ys) = y # rev ys"
    using assms(2) calculation by (induction n) simp_all
  ultimately show ?thesis by (simp add: strip_zeros_def)
qed

text \<open>A unit of a byte stream: not empty, no start code inside, no zero at the end.\<close>

definition nal_ok :: "u8 list \<Rightarrow> bool" where
  "nal_ok nal = (nal \<noteq> [] \<and> last nal \<noteq> 0 \<and> start_free nal)"

lemma split_nals_ok:
  assumes "nal \<in> set (split_nals data)"
  shows "nal_ok nal"
proof -
  obtain lead parts where "data = lead @ coded parts" "start_free lead" "\<forall>p \<in> set parts. start_free p"
    using stream_parts by blast
  with assms obtain p where p: "start_free p" "nal = strip_zeros p" "nal \<noteq> []"
    by (auto simp: split_parts)
  obtain n where "p = nal @ replicate n 0" using strip_zeros_append p(2) by blast
  then have "start_free nal" using p(1) start_free_append by blast
  moreover have "last nal \<noteq> 0" using p(2,3) strip_zeros_last by metis
  ultimately show ?thesis using p(3) by (simp add: nal_ok_def)
qed

subsection \<open>Round trips\<close>

text \<open>Units behind start codes of three or four bytes, with padding, are split back.\<close>

definition framed :: "(nat \<times> u8 list \<times> nat) list \<Rightarrow> u8 list" where
  "framed items = concat (map (\<lambda>(z, nal, t). replicate z 0 @ [0, 0, 1] @ nal @ replicate t 0) items)"

lemma framed_parts:
  "\<exists>z parts. framed items = replicate z 0 @ coded parts \<and> length parts = length items \<and>
     (\<forall>i < length items. \<exists>n. parts ! i = fst (snd (items ! i)) @ replicate n 0)"
proof (induction items)
  case Nil
  show ?case by (intro exI [of _ 0] exI [of _ "[]"]) (simp add: framed_def)
next
  case (Cons item items)
  obtain z nal t where item: "item = (z, nal, t)" by (cases item)
  obtain z' parts where IH: "framed items = replicate z' 0 @ coded parts" "length parts = length items"
    "\<forall>i < length items. \<exists>n. parts ! i = fst (snd (items ! i)) @ replicate n 0" using Cons.IH by blast
  let ?parts = "(nal @ replicate (t + z') 0) # parts"
  have "framed (item # items) = replicate z 0 @ coded ?parts"
    using IH(1) by (simp add: framed_def item replicate_add)
  moreover have "\<exists>n. ?parts ! i = fst (snd ((item # items) ! i)) @ replicate n 0" if "i < length (item # items)" for i
    using that IH(3) by (cases i) (auto simp: item)
  ultimately show ?case using IH(2) by (intro exI [of _ z] exI [of _ ?parts]) simp
qed

lemma split_framed:
  assumes "\<forall>(z, nal, t) \<in> set items. nal_ok nal"
  shows "split_nals (framed items) = map (fst \<circ> snd) items"
proof -
  obtain z parts where P: "framed items = replicate z 0 @ coded parts" "length parts = length items"
    "\<forall>i < length items. \<exists>n. parts ! i = fst (snd (items ! i)) @ replicate n 0" using framed_parts by blast
  have ok: "nal_ok (fst (snd (items ! i)))" if "i < length items" for i
    using assms nth_mem [OF that] by (auto simp: case_prod_unfold)
  have "start_free p" if "p \<in> set parts" for p
    using that P ok start_free_zeros unfolding in_set_conv_nth nal_ok_def by metis
  moreover have "map strip_zeros parts = map (fst \<circ> snd) items"
    using P(2,3) ok strip_zeros_id by (intro nth_equalityI) (auto simp: nal_ok_def)
  moreover have "filter (\<lambda>n. n \<noteq> []) (map (fst \<circ> snd) items) = map (fst \<circ> snd) items"
    using assms by (intro filter_True) (auto simp: nal_ok_def case_prod_unfold)
  moreover have "start_free (replicate z 0)" using start_free_zeros [of "[]"] by simp
  ultimately show ?thesis by (simp add: P(1) split_parts)
qed

lemma nat_bytes: "n = n div 16777216 * 16777216 + n div 65536 mod 256 * 65536 + n div 256 mod 256 * 256 + n mod 256"
  for n :: nat
proof -
  have split: "m * k = m div 256 * (256 * k) + m mod 256 * k" for m k :: nat
    by (metis div_mult_mod_eq distrib_right mult.assoc)
  have "n div 65536 = n div 256 div 256" "n div 16777216 = n div 65536 div 256"
    using div_mult2_eq [of n 256 256] div_mult2_eq [of n 65536 256] by simp_all
  then show ?thesis
    using split [of n 1] split [of "n div 256" 256] split [of "n div 65536" 65536] by simp
qed

lemma be_value_u32: "be_value (u32_be_bytes w) = unat w"
proof -
  have "unat (ucast (drop_bit k w) :: u8) = unat w div 2 ^ k mod 256" for k
    by (simp add: unsigned_ucast_eq take_bit_eq_mod unat_drop_bit_eq drop_bit_eq_div [where 'a = nat])
  moreover from this [of 0] have "unat (ucast w :: u8) = unat w mod 256" by simp
  moreover have "unat w div 16777216 < 256"
    using unsigned_less [of w, where 'a = nat] by simp
  ultimately show ?thesis
    using nat_bytes [of "unat w"] by (simp add: be_value_def u32_be_bytes_def)
qed

text \<open>The sample of an access unit: each unit behind its length.\<close>

definition is_sliced :: "u8 list \<Rightarrow> bool" where
  "is_sliced nal = (nal_unit_type nal \<notin> {Some NAL_AUD, Some NAL_SPS, Some NAL_PPS})"

definition sample_of :: "u8 list list \<Rightarrow> u8 list" where
  "sample_of nals = concat (map (\<lambda>nal. u32_be_bytes (of_nat (length nal)) @ nal) nals)"

lemma avcc_from_sample:
  assumes "\<forall>nal \<in> set nals. length nal < 2 ^ 32"
  shows "avcc_from 4 offset (sample_of nals) = Inr nals"
  using assms
proof (induction nals arbitrary: offset)
  case Nil
  then show ?case by (simp add: avcc_from.simps [of 4 offset] sample_of_def)
next
  case (Cons nal nals)
  have len: "length (u32_be_bytes w) = 4" for w by (simp add: u32_be_bytes_def)
  have "u32_be_bytes w \<noteq> []" for w by (simp add: u32_be_bytes_def)
  moreover have "be_value (u32_be_bytes (of_nat (length nal))) = length nal"
    using Cons.prems by (simp add: be_value_u32 unsigned_of_nat take_bit_nat_eq_self)
  ultimately show ?case
    using Cons by (subst avcc_from.simps) (auto simp: sample_of_def len length_size_of_def Let_def)
qed

lemma add_nals_Inr:
  assumes "add_nals nals au = Inr au'"
  shows "au_sps au' = au_sps au @ filter (\<lambda>n. nal_unit_type n = Some NAL_SPS) nals \<and>
    au_pps au' = au_pps au @ filter (\<lambda>n. nal_unit_type n = Some NAL_PPS) nals \<and>
    au_avcc au' = au_avcc au @ sample_of (filter is_sliced nals) \<and>
    au_is_idr au' = (au_is_idr au \<or> (\<exists>n \<in> set nals. nal_unit_type n = Some NAL_IDR)) \<and>
    (\<forall>nal \<in> set (filter is_sliced nals). length nal < 2 ^ 32)"
  using assms
proof (induction nals arbitrary: au)
  case (Cons nal nals)
  let ?t = "nal_unit_type nal"
  consider "?t = Some NAL_AUD" | "?t = Some NAL_SPS" | "?t = Some NAL_PPS" | "is_sliced nal"
    by (auto simp: is_sliced_def)
  then show ?case
  proof cases
    case 4
    then show ?thesis using Cons by (auto simp: is_sliced_def sample_of_def Let_def split: if_splits)
  qed (use Cons in \<open>auto simp: is_sliced_def nal_type_defs\<close>)
qed (simp add: sample_of_def)

end
