(* ===== verification/Video_Sps.thy ===== *)
theory Video_Sps
  imports Video_AnnexB
begin

text \<open>
  \<open>crates/drift-video/src/sps.rs\<close>: reading an H.264 sequence parameter set bit by bit, and rewriting its
  colour signalling. A reader takes the payload and a bit position; the writer is the byte vector with
  the number of bits written.
\<close>

subsection \<open>Bit readers\<close>

datatype SpsError = NotSps | MalformedSps

type_synonym 'a reader = "u8 list \<Rightarrow> nat \<Rightarrow> (SpsError, 'a \<times> nat) result"

definition rd_ok :: "'a \<Rightarrow> 'a reader" where
  "rd_ok a data pos = Inr (a, pos)"

definition rd_fail :: "'a reader" where
  "rd_fail data pos = Inl MalformedSps"

definition rd_then :: "'a reader \<Rightarrow> ('a \<Rightarrow> 'b reader) \<Rightarrow> 'b reader" where
  "rd_then m k data pos = and_then (m data pos) (\<lambda>(a, pos). k a data pos)"

definition rd_check :: "'a option \<Rightarrow> 'a reader" where
  "rd_check x = (case x of None \<Rightarrow> rd_fail | Some a \<Rightarrow> rd_ok a)"

definition rd_pos :: "nat reader" where
  "rd_pos data pos = Inr (pos, pos)"

definition rd_bit :: "bool reader" where
  "rd_bit data pos =
     (if pos div 8 < length data
      then Inr (and (data ! (pos div 8)) (drop_bit (pos mod 8) 0x80) \<noteq> 0, pos + 1)
      else Inl MalformedSps)"

fun rd_bits_onto :: "nat \<Rightarrow> u32 \<Rightarrow> u32 reader" where
  "rd_bits_onto 0 v = rd_ok v"
| "rd_bits_onto (Suc n) v = rd_then rd_bit (\<lambda>b. rd_bits_onto n (or (push_bit 1 v) (of_bool b)))"

definition rd_bits :: "nat \<Rightarrow> u32 reader" where
  "rd_bits n = rd_bits_onto n 0"

function rd_zeros :: "nat \<Rightarrow> nat reader" where
  "rd_zeros zeros =
     rd_then rd_bit (\<lambda>b. if b then rd_ok zeros else if 31 < zeros + 1 then rd_fail else rd_zeros (zeros + 1))"
  by auto
termination by (relation "measure (\<lambda>z. 32 - z)") auto

declare rd_zeros.simps [simp del]

definition u32_try_from :: "u64 \<Rightarrow> u32 option" where
  "u32_try_from v = (if unat v < 2 ^ 32 then Some (ucast v) else None)"

definition rd_ue :: "u32 reader" where
  "rd_ue = rd_then (rd_zeros 0) (\<lambda>zeros. rd_then (rd_bits zeros) (\<lambda>suffix.
     rd_check (u32_try_from (push_bit zeros 1 - 1 + ucast suffix))))"

definition rd_ue_max :: "u32 \<Rightarrow> u32 reader" where
  "rd_ue_max mx = rd_then rd_ue (\<lambda>v. if mx < v then rd_fail else rd_ok v)"

definition rd_se :: "int reader" where
  "rd_se = rd_then rd_ue (\<lambda>u.
     let k = uint u; v = (if k mod 2 = 1 then (k + 1) div 2 else - (k div 2))
     in rd_check (if - (2 ^ 31) \<le> v \<and> v < 2 ^ 31 then Some v else None))"

definition to_u8 :: "u32 \<Rightarrow> u8 option" where
  "to_u8 v = (if unat v < 256 then Some (ucast v) else None)"

subsection \<open>The header\<close>

definition HIGH_PROFILES :: "u8 list" where
  "HIGH_PROFILES = [100, 110, 122, 244, 44, 83, 86, 118, 128, 138, 139, 134]"

definition EXTENDED_SAR :: u32 where "EXTENDED_SAR = 255"

fun skip_scaling :: "nat \<Rightarrow> int \<Rightarrow> int \<Rightarrow> unit reader" where
  "skip_scaling 0 last_scale next_scale = rd_ok ()"
| "skip_scaling (Suc n) last_scale next_scale =
     (if next_scale \<noteq> 0
      then rd_then rd_se (\<lambda>delta.
        let next_scale = (last_scale + delta) mod 256
        in skip_scaling n (if next_scale \<noteq> 0 then next_scale else last_scale) next_scale)
      else skip_scaling n last_scale next_scale)"

definition skip_scaling_list :: "nat \<Rightarrow> unit reader" where
  "skip_scaling_list n = skip_scaling n 8 8"

fun skip_scaling_lists :: "nat list \<Rightarrow> unit reader" where
  "skip_scaling_lists [] = rd_ok ()"
| "skip_scaling_lists (i # is) =
     rd_then rd_bit (\<lambda>present.
       rd_then (if present then skip_scaling_list (if i < 6 then 16 else 64) else rd_ok ()) (\<lambda>_.
         skip_scaling_lists is))"

fun rd_repeat :: "nat \<Rightarrow> 'a reader \<Rightarrow> unit reader" where
  "rd_repeat 0 m = rd_ok ()"
| "rd_repeat (Suc n) m = rd_then m (\<lambda>_. rd_repeat n m)"

text \<open>The chroma format, for the profiles that carry one.\<close>

definition rd_chroma :: "u8 \<Rightarrow> u32 reader" where
  "rd_chroma profile_idc =
     (if profile_idc \<in> set HIGH_PROFILES
      then rd_then (rd_ue_max 3) (\<lambda>chroma.
        rd_then (if chroma = 3 then rd_bit else rd_ok False) (\<lambda>_.
        rd_then (rd_ue_max 6) (\<lambda>_.
        rd_then (rd_ue_max 6) (\<lambda>_.
        rd_then rd_bit (\<lambda>_.
        rd_then rd_bit (\<lambda>scaling.
        rd_then (if scaling then skip_scaling_lists [0..<if chroma = 3 then 12 else 8] else rd_ok ()) (\<lambda>_.
          rd_ok chroma)))))))
      else rd_ok 1)"

definition skip_order_count :: "unit reader" where
  "skip_order_count =
     rd_then (rd_ue_max 2) (\<lambda>t.
       if t = 0 then rd_then (rd_ue_max 12) (\<lambda>_. rd_ok ())
       else if t = 1 then
         rd_then rd_bit (\<lambda>_. rd_then rd_se (\<lambda>_. rd_then rd_se (\<lambda>_.
         rd_then (rd_ue_max 255) (\<lambda>n. rd_repeat (unat n) rd_se))))
       else rd_ok ())"

record SpsFields =
  sf_profile_idc :: u8
  sf_level_idc :: u8
  sf_chroma :: u32
  sf_width_mbs :: u32
  sf_height_map_units :: u32
  sf_frame_mbs_only :: bool
  sf_crop :: "u32 \<times> u32 \<times> u32 \<times> u32"

definition rd_crop :: "(u32 \<times> u32 \<times> u32 \<times> u32) reader" where
  "rd_crop = rd_then rd_bit (\<lambda>cropping.
     if cropping
     then rd_then rd_ue (\<lambda>l. rd_then rd_ue (\<lambda>r. rd_then rd_ue (\<lambda>t. rd_then rd_ue (\<lambda>b. rd_ok (l, r, t, b)))))
     else rd_ok (0, 0, 0, 0))"

text \<open>The syntax elements up to the VUI flag.\<close>

definition rd_fields :: "SpsFields reader" where
  "rd_fields =
     rd_then (rd_bits 8) (\<lambda>p. rd_then (rd_check (to_u8 p)) (\<lambda>profile_idc.
     rd_then (rd_bits 8) (\<lambda>_.
     rd_then (rd_bits 8) (\<lambda>l. rd_then (rd_check (to_u8 l)) (\<lambda>level_idc.
     rd_then (rd_ue_max 31) (\<lambda>_.
     rd_then (rd_chroma profile_idc) (\<lambda>chroma.
     rd_then (rd_ue_max 12) (\<lambda>_.
     rd_then skip_order_count (\<lambda>_.
     rd_then rd_ue (\<lambda>_.
     rd_then rd_bit (\<lambda>_.
     rd_then rd_ue (\<lambda>w. rd_then (rd_check (checked_add w 1)) (\<lambda>width_mbs.
     rd_then rd_ue (\<lambda>h. rd_then (rd_check (checked_add h 1)) (\<lambda>height_map_units.
     rd_then rd_bit (\<lambda>frame_mbs_only.
     rd_then (if frame_mbs_only then rd_ok False else rd_bit) (\<lambda>_.
     rd_then rd_bit (\<lambda>_.
     rd_then rd_crop (\<lambda>crop.
       rd_ok \<lparr>sf_profile_idc = profile_idc, sf_level_idc = level_idc, sf_chroma = chroma,
         sf_width_mbs = width_mbs, sf_height_map_units = height_map_units,
         sf_frame_mbs_only = frame_mbs_only, sf_crop = crop\<rparr>)))))))))))))))))))"

record SpsHeader =
  sh_profile_idc :: u8
  sh_level_idc :: u8
  sh_width :: u32
  sh_height :: u32
  sh_vui_flag_pos :: nat
  sh_vui_present :: bool

definition checked_mul :: "'a::len word \<Rightarrow> 'a word \<Rightarrow> 'a word option" where
  "checked_mul a b = (if unat a * unat b < 2 ^ LENGTH('a) then Some (a * b) else None)"

definition cropped :: "u32 \<Rightarrow> u32 \<Rightarrow> u32 \<Rightarrow> u32 \<Rightarrow> u32 option" where
  "cropped full a b crop_unit =
     Option.bind (Option.bind (checked_add a b) (\<lambda>s. checked_mul s crop_unit)) (\<lambda>c. checked_sub full c)"

text \<open>The picture size after cropping, and the header.\<close>

definition header_of :: "SpsFields \<Rightarrow> nat \<Rightarrow> bool \<Rightarrow> SpsHeader option" where
  "header_of f vui_flag_pos vui_present =
     (let field_factor = (if sf_frame_mbs_only f then 1 else 2);
          (crop_x, crop_y) =
            (if sf_chroma f = 0 then (1, field_factor)
             else if sf_chroma f = 1 then (2, 2 * field_factor)
             else if sf_chroma f = 2 then (2, field_factor)
             else (1, field_factor));
          (l, r, t, b) = sf_crop f
      in Option.bind (checked_mul (sf_width_mbs f) 16) (\<lambda>full_w.
         Option.bind (checked_mul (sf_height_map_units f) (16 * field_factor)) (\<lambda>full_h.
         Option.bind (cropped full_w l r crop_x) (\<lambda>w.
         Option.bind (cropped full_h t b crop_y) (\<lambda>h.
           Some \<lparr>sh_profile_idc = sf_profile_idc f, sh_level_idc = sf_level_idc f, sh_width = w, sh_height = h,
             sh_vui_flag_pos = vui_flag_pos, sh_vui_present = vui_present\<rparr>)))))"

definition rd_header :: "SpsHeader reader" where
  "rd_header =
     rd_then rd_fields (\<lambda>f. rd_then rd_pos (\<lambda>vui_flag_pos. rd_then rd_bit (\<lambda>vui_present.
       rd_check (header_of f vui_flag_pos vui_present))))"

definition parse_header :: "u8 list \<Rightarrow> (SpsError, SpsHeader) result" where
  "parse_header rbsp = and_then (rd_header rbsp 0) (\<lambda>(h, _). Inr h)"

subsection \<open>The start of the VUI\<close>

record SignalType =
  st_full_range :: bool
  st_matrix :: "u8 option"

definition skip_aspect_and_overscan :: "unit reader" where
  "skip_aspect_and_overscan =
     rd_then rd_bit (\<lambda>aspect.
     rd_then (if aspect then rd_then (rd_bits 8) (\<lambda>idc. if idc = EXTENDED_SAR then rd_then (rd_bits 32) (\<lambda>_. rd_ok ()) else rd_ok ())
              else rd_ok ()) (\<lambda>_.
     rd_then rd_bit (\<lambda>overscan.
     rd_then (if overscan then rd_bit else rd_ok False) (\<lambda>_. rd_ok ()))))"

definition read_signal_type :: "SignalType option reader" where
  "read_signal_type =
     rd_then rd_bit (\<lambda>present.
       if \<not> present then rd_ok None
       else
         rd_then (rd_bits 3) (\<lambda>_.
         rd_then rd_bit (\<lambda>full_range.
         rd_then rd_bit (\<lambda>colour.
         rd_then (if colour
           then rd_then (rd_bits 16) (\<lambda>_. rd_then (rd_bits 8) (\<lambda>m. rd_then (rd_check (to_u8 m)) (\<lambda>m. rd_ok (Some m))))
           else rd_ok None) (\<lambda>matrix.
           rd_ok (Some \<lparr>st_full_range = full_range, st_matrix = matrix\<rparr>))))))"

subsection \<open>Emulation prevention\<close>

fun unescape :: "nat \<Rightarrow> u8 list \<Rightarrow> u8 list" where
  "unescape zeros [] = []"
| "unescape zeros (b # bs) =
     (if 2 \<le> zeros \<and> b = 3 then unescape 0 bs
      else b # unescape (if b = 0 then zeros + 1 else 0) bs)"

fun escape :: "nat \<Rightarrow> u8 list \<Rightarrow> u8 list" where
  "escape zeros [] = []"
| "escape zeros (b # bs) =
     (if 2 \<le> zeros \<and> b \<le> 3 then 3 # b # escape (if b = 0 then 1 else 0) bs
      else b # escape (if b = 0 then zeros + 1 else 0) bs)"

definition rbsp_of :: "u8 list \<Rightarrow> (SpsError, u8 list) result" where
  "rbsp_of sps =
     (case sps of
        [] \<Rightarrow> Inl NotSps
      | h # rest \<Rightarrow> if and h 0x1F = NAL_SPS then Inr (unescape 0 rest) else Inl NotSps)"

subsection \<open>Parsing\<close>

record SpsInfo =
  profile_idc :: u8
  level_idc :: u8
  sps_width :: u32
  sps_height :: u32
  full_range :: "bool option"
  matrix_coefficients :: "u8 option"

definition sps_parse :: "u8 list \<Rightarrow> (SpsError, SpsInfo) result" where
  "sps_parse sps =
     and_then (rbsp_of sps) (\<lambda>rbsp.
     and_then (parse_header rbsp) (\<lambda>header.
       let info = \<lparr>profile_idc = sh_profile_idc header, level_idc = sh_level_idc header,
             sps_width = sh_width header, sps_height = sh_height header, full_range = None,
             matrix_coefficients = None\<rparr>
       in if sh_vui_present header
          then and_then (rd_then skip_aspect_and_overscan (\<lambda>_. read_signal_type) rbsp (sh_vui_flag_pos header + 1))
            (\<lambda>(signal, _). Inr (case signal of
               None \<Rightarrow> info
             | Some s \<Rightarrow> info\<lparr>full_range := Some (st_full_range s), matrix_coefficients := st_matrix s\<rparr>))
          else Inr info))"

subsection \<open>The bit writer\<close>

record BitWriter =
  bw_bytes :: "u8 list"
  bw_len :: nat

definition BitWriter_default :: BitWriter where
  "BitWriter_default = \<lparr>bw_bytes = [], bw_len = 0\<rparr>"

definition bw_bit :: "bool \<Rightarrow> BitWriter \<Rightarrow> BitWriter" where
  "bw_bit b w =
     (let bytes = (if bw_len w mod 8 = 0 then bw_bytes w @ [0] else bw_bytes w);
          bytes = (if b \<and> bytes \<noteq> [] then butlast bytes @ [or (last bytes) (drop_bit (bw_len w mod 8) 0x80)] else bytes)
      in \<lparr>bw_bytes = bytes, bw_len = bw_len w + 1\<rparr>)"

definition bw_bits :: "u32 \<Rightarrow> nat \<Rightarrow> BitWriter \<Rightarrow> BitWriter" where
  "bw_bits v n w = fold (\<lambda>i. bw_bit (and (drop_bit i v) 1 = 1)) (rev [0..<n]) w"

fun bw_copy :: "nat \<Rightarrow> BitWriter \<Rightarrow> BitWriter reader" where
  "bw_copy 0 w = rd_ok w"
| "bw_copy (Suc n) w = rd_then rd_bit (\<lambda>b. bw_copy n (bw_bit b w))"

function bw_align :: "BitWriter \<Rightarrow> BitWriter" where
  "bw_align w = (if bw_len w mod 8 = 0 then w else bw_align (bw_bit False w))"
  by auto
termination
  by (relation "measure (\<lambda>w. (8 - bw_len w mod 8) mod 8)") (auto simp: bw_bit_def Let_def mod_Suc)

declare bw_align.simps [simp del]

definition trailing_bits :: "BitWriter \<Rightarrow> BitWriter" where
  "trailing_bits w = bw_align (bw_bit True w)"

definition write_bt709_full_range :: "BitWriter \<Rightarrow> BitWriter" where
  "write_bt709_full_range w =
     bw_bits 1 8 (bw_bits 1 8 (bw_bits 1 8 (bw_bit True (bw_bit True (bw_bits 5 3 (bw_bit True w))))))"

subsection \<open>Rewriting\<close>

definition trailing_zeros :: "u8 \<Rightarrow> nat" where
  "trailing_zeros b = length (takeWhile (\<lambda>i. \<not> bit b i) [0..<8])"

definition stop_bit_position :: "u8 list \<Rightarrow> nat option" where
  "stop_bit_position rbsp =
     (case find (\<lambda>(_, b). b \<noteq> 0) (rev (enumerate 0 rbsp)) of
        None \<Rightarrow> None
      | Some (i, b) \<Rightarrow> Some (i * 8 + 7 - trailing_zeros b))"

text \<open>How many bits are left before the stop bit.\<close>

definition rd_rest :: "nat reader" where
  "rd_rest data pos =
     (case stop_bit_position data of
        None \<Rightarrow> Inl MalformedSps
      | Some stop \<Rightarrow> if stop < pos then Inl MalformedSps else Inr (stop - pos, pos))"

definition copy_aspect_and_overscan :: "BitWriter \<Rightarrow> BitWriter reader" where
  "copy_aspect_and_overscan w =
     rd_then rd_bit (\<lambda>aspect.
     rd_then (if aspect
       then rd_then (rd_bits 8) (\<lambda>idc.
         let w = bw_bits idc 8 (bw_bit aspect w)
         in if idc = EXTENDED_SAR then bw_copy 32 w else rd_ok w)
       else rd_ok (bw_bit aspect w)) (\<lambda>w.
     rd_then rd_bit (\<lambda>overscan.
       if overscan then bw_copy 1 (bw_bit overscan w) else rd_ok (bw_bit overscan w))))"

definition rewrite_vui :: "BitWriter \<Rightarrow> BitWriter reader" where
  "rewrite_vui w =
     rd_then (copy_aspect_and_overscan w) (\<lambda>w.
     rd_then read_signal_type (\<lambda>_.
     rd_then rd_rest (\<lambda>n. bw_copy n (write_bt709_full_range w))))"

definition add_vui :: "BitWriter \<Rightarrow> BitWriter" where
  "add_vui w = ((bw_bit False) ^^ 6) (write_bt709_full_range (bw_bit False (bw_bit False w)))"

definition rewrite_rbsp :: "u8 list \<Rightarrow> (SpsError, u8 list) result" where
  "rewrite_rbsp rbsp =
     and_then (parse_header rbsp) (\<lambda>header.
     and_then (bw_copy (sh_vui_flag_pos header) BitWriter_default rbsp 0) (\<lambda>(w, _).
     and_then (if sh_vui_present header
       then rewrite_vui (bw_bit True w) rbsp (sh_vui_flag_pos header + 1)
       else Inr (add_vui (bw_bit True w), 0)) (\<lambda>(w, _).
       Inr (bw_bytes (trailing_bits w)))))"

definition with_bt709_full_range :: "u8 list \<Rightarrow> (SpsError, u8 list) result" where
  "with_bt709_full_range sps =
     and_then (rbsp_of sps) (\<lambda>rbsp. and_then (rewrite_rbsp rbsp) (\<lambda>bytes. Inr (hd sps # escape 0 bytes)))"

subsection \<open>Emulation prevention is undone and hides start codes\<close>

lemma unescape_escape: "z \<le> 2 \<Longrightarrow> unescape z (escape z bs) = bs"
proof (induction z bs rule: escape.induct)
  case (2 z b bs)
  then show ?case by (cases "z = 2"; cases "b \<le> 3") auto
qed simp

lemma start_free_Cons: "a \<noteq> 0 \<Longrightarrow> start_free (a # xs) = start_free xs"
  by (cases xs rule: start_free.cases) auto

lemma start_free_Cons2: "b \<noteq> 0 \<Longrightarrow> start_free (a # b # xs) = start_free xs"
  using start_free_Cons [of b xs] by (cases xs) auto

lemma start_free_Cons3: "c \<noteq> 0 \<Longrightarrow> c \<noteq> 1 \<Longrightarrow> start_free (a # b # c # xs) = start_free xs"
  using start_free_Cons2 [of c b xs] by simp

lemma start_free_escape: "z \<le> 2 \<Longrightarrow> start_free (replicate z 0 @ escape z bs)"
proof (induction z bs rule: escape.induct)
  case (1 z)
  then show ?case using start_free_zeros [of "[]" z] by simp
next
  case (2 z b bs)
  consider "z = 0" | "z = 1" | "z = 2" using 2(3) by linarith
  then show ?case
  proof cases
    case 1
    then show ?thesis using "2.IH"(2) by (cases "b = 0") (simp_all add: start_free_Cons)
  next
    case 2
    then show ?thesis using "2.IH"(2) by (cases "b = 0") (simp_all add: start_free_Cons2 numeral_2_eq_2)
  next
    case 3
    have two: "replicate 2 (0 :: u8) = [0, 0]" by (simp add: numeral_2_eq_2)
    show ?thesis
    proof (cases "b \<le> 3")
      case True
      have "start_free (b # escape (if b = 0 then 1 else 0) bs)"
        using "2.IH"(1) 3 True by (cases "b = 0") (simp_all add: start_free_Cons)
      moreover have "(3 :: u8) \<noteq> 0" "(3 :: u8) \<noteq> 1" by simp_all
      ultimately show ?thesis using 3 True by (simp add: two start_free_Cons start_free_Cons2 start_free_Cons3)
    next
      case False
      then have "b \<noteq> 0" "b \<noteq> 1" by auto
      then show ?thesis using 3 False "2.IH"(2) by (simp add: two start_free_Cons start_free_Cons2 start_free_Cons3)
    qed
  qed
qed

lemma escape_last: "bs \<noteq> [] \<Longrightarrow> escape z bs \<noteq> [] \<and> last (escape z bs) = last bs"
proof (induction bs arbitrary: z)
  case (Cons b bs)
  then show ?case by (cases "bs = []") auto
qed simp

end
