(* ===== verification/Video_Rewrite.thy ===== *)
theory Video_Rewrite
  imports Video_Sps
begin

text \<open>
  The bits of a parameter set: readers as functions of the bit list, the writer as appending to it, and
  what the rewritten parameter set reads as.
\<close>

subsection \<open>Bytes as bits\<close>

definition byte_bits :: "u8 \<Rightarrow> bool list" where
  "byte_bits b = map (\<lambda>i. bit b (7 - i)) [0..<8]"

definition bits_of :: "u8 list \<Rightarrow> bool list" where
  "bits_of data = concat (map byte_bits data)"

abbreviation nbits :: "u8 list \<Rightarrow> nat" where
  "nbits data \<equiv> length (bits_of data)"

lemma length_byte_bits [simp]: "length (byte_bits b) = 8"
  by (simp add: byte_bits_def)

lemma bits_of_simps [simp]: "bits_of [] = []" "bits_of (b # bs) = byte_bits b @ bits_of bs"
  "bits_of (xs @ ys) = bits_of xs @ bits_of ys"
  by (simp_all add: bits_of_def)

lemma nbits_eq: "nbits data = 8 * length data"
  by (induction data) simp_all

lemma bit_128: "bit (0x80 :: u8) n \<longleftrightarrow> n = 7" "bit (128 :: int) n \<longleftrightarrow> n = 7"
proof -
  have "bit (2 ^ 7 :: int) n \<longleftrightarrow> n = 7" unfolding bit_exp_iff by auto
  then show "bit (128 :: int) n \<longleftrightarrow> n = 7" by simp
  then show "bit (0x80 :: u8) n \<longleftrightarrow> n = 7" by auto
qed

lemma mask_bit:
  fixes b :: u8
  assumes "i < 8"
  shows "and b (drop_bit i 0x80) \<noteq> 0 \<longleftrightarrow> bit b (7 - i)"
proof -
  have "bit (and b (drop_bit i 0x80)) n \<longleftrightarrow> n = 7 - i \<and> bit b (7 - i)" for n
  proof -
    have "i + n = 7 \<longleftrightarrow> n = 7 - i" using assms by auto
    then show ?thesis by (auto simp: bit_and_iff bit_drop_bit_eq bit_128)
  qed
  then show ?thesis by (metis bit_0_eq bit_eqI bot_apply bot_bool_def)
qed

lemma bits_of_nth:
  "pos div 8 < length data \<Longrightarrow> bits_of data ! pos = bit (data ! (pos div 8)) (7 - pos mod 8)"
proof (induction data arbitrary: pos)
  case (Cons b bs)
  show ?case
  proof (cases "pos < 8")
    case True
    then show ?thesis by (simp add: nth_append byte_bits_def)
  next
    case False
    then have "pos div 8 = Suc ((pos - 8) div 8)" "(pos - 8) mod 8 = pos mod 8"
      by (simp_all add: le_div_geq le_mod_geq)
    then show ?thesis using False Cons by (simp add: nth_append)
  qed
qed simp

lemma rd_bit_eq:
  "rd_bit data pos = (if pos < nbits data then Inr (bits_of data ! pos, pos + 1) else Inl MalformedSps)"
proof -
  have "pos div 8 < length data \<longleftrightarrow> pos < nbits data" by (auto simp: nbits_eq div_less_iff_less_mult)
  then show ?thesis by (simp add: rd_bit_def bits_of_nth mask_bit)
qed

subsection \<open>Readers of several bits\<close>

abbreviation bits_at :: "u8 list \<Rightarrow> nat \<Rightarrow> nat \<Rightarrow> bool list" where
  "bits_at data pos n \<equiv> take n (drop pos (bits_of data))"

definition word_of :: "u32 \<Rightarrow> bool list \<Rightarrow> u32" where
  "word_of v bs = foldl (\<lambda>v b. or (push_bit 1 v) (of_bool b)) v bs"

lemma rd_bits_onto_eq:
  "rd_bits_onto n v data pos =
     (if n = 0 \<or> pos + n \<le> nbits data then Inr (word_of v (bits_at data pos n), pos + n) else Inl MalformedSps)"
proof (induction n arbitrary: v pos)
  case 0
  then show ?case by (simp add: rd_ok_def word_of_def)
next
  case (Suc n)
  show ?case
  proof (cases "pos < nbits data")
    case True
    then have "drop pos (bits_of data) = bits_of data ! pos # drop (pos + 1) (bits_of data)"
      by (simp add: Cons_nth_drop_Suc)
    then show ?thesis using True Suc by (auto simp: rd_then_def rd_bit_eq word_of_def)
  qed (simp add: rd_then_def rd_bit_eq)
qed

lemmas rd_bits_eq = rd_bits_onto_eq [where v = 0, folded rd_bits_def]

lemma bit_shift_in:
  fixes v :: u32
  assumes "i < 32"
  shows "bit (or (push_bit 1 v) (of_bool b)) i \<longleftrightarrow> (if i = 0 then b else bit v (i - 1))"
  using assms unfolding bit_or_iff bit_push_bit_iff bit_of_bool_iff by (cases i) auto

lemma bit_word_of:
  "i < 32 \<Longrightarrow> bit (word_of v bs) i =
     (if i < length bs then bs ! (length bs - 1 - i) else bit v (i - length bs))"
proof (induction bs arbitrary: i rule: rev_induct)
  case (snoc b bs)
  have "bit (word_of v (bs @ [b])) i = (if i = 0 then b else bit (word_of v bs) (i - 1))"
    using bit_shift_in [OF snoc.prems] by (simp add: word_of_def)
  then show ?case using snoc by (cases i) (auto simp: nth_append not_less le_Suc_eq)
qed (simp add: word_of_def)

lemma word_bits:
  assumes "length bs \<le> 32"
  shows "map (bit (word_of 0 bs)) (rev [0..<length bs]) = bs"
proof (intro nth_equalityI)
  fix i
  assume "i < length (map (bit (word_of 0 bs)) (rev [0..<length bs]))"
  then have "i < length bs" "length bs - Suc i < length bs" by simp_all
  then show "map (bit (word_of 0 bs)) (rev [0..<length bs]) ! i = bs ! i"
    using assms by (simp add: rev_nth bit_word_of)
qed simp

subsection \<open>The writer\<close>

abbreviation bw_list :: "bool list \<Rightarrow> BitWriter \<Rightarrow> BitWriter" where
  "bw_list \<equiv> fold bw_bit"

lemma bw_len_bit [simp]: "bw_len (bw_bit b w) = Suc (bw_len w)"
  by (simp add: bw_bit_def Let_def)

lemma bw_bits_eq: "bw_bits v n w = bw_list (map (bit v) (rev [0..<n])) w"
proof -
  have "(and (drop_bit i v) 1 = 1) = bit v i" for i
    by (simp add: and_one_eq bit_iff_odd_drop_bit odd_iff_mod_2_eq_one)
  then show ?thesis by (simp add: bw_bits_def fold_map comp_def)
qed

lemma bw_copy_eq:
  "bw_copy n w data pos =
     (if n = 0 \<or> pos + n \<le> nbits data then Inr (bw_list (bits_at data pos n) w, pos + n) else Inl MalformedSps)"
proof (induction n arbitrary: w pos)
  case (Suc n)
  show ?case
  proof (cases "pos < nbits data")
    case True
    then have "drop pos (bits_of data) = bits_of data ! pos # drop (pos + 1) (bits_of data)"
      by (simp add: Cons_nth_drop_Suc)
    then show ?thesis using True Suc by (auto simp: rd_then_def rd_bit_eq)
  qed (simp add: rd_then_def rd_bit_eq)
qed (simp add: rd_ok_def)

definition pad :: "nat \<Rightarrow> nat" where
  "pad n = (8 - n mod 8) mod 8"

lemma pad_Suc: "n mod 8 \<noteq> 0 \<Longrightarrow> pad n = Suc (pad (Suc n))"
  unfolding pad_def by (auto simp: mod_Suc)

lemma pad_pad: "pad (n + pad n) = 0"
proof -
  have "(n + pad n) mod 8 = (n mod 8 + (8 - n mod 8)) mod 8"
    unfolding pad_def by (metis mod_add_left_eq mod_add_right_eq)
  also have "\<dots> = 0" by (simp add: less_imp_le_nat)
  finally show ?thesis by (simp add: pad_def)
qed

lemma bw_align_eq: "bw_align w = bw_list (replicate (pad (bw_len w)) False) w"
proof (induction w rule: bw_align.induct)
  case (1 w)
  show ?case
  proof (cases "bw_len w mod 8 = 0")
    case True
    then show ?thesis by (simp add: bw_align.simps [of w] pad_def)
  next
    case False
    have "bw_len (bw_bit False w) = Suc (bw_len w)" by (simp add: bw_bit_def)
    then show ?thesis using 1 False by (simp add: bw_align.simps [of w] pad_Suc)
  qed
qed

definition bw_holds :: "BitWriter \<Rightarrow> bool list \<Rightarrow> bool" where
  "bw_holds w bs = (bw_len w = length bs \<and> bits_of (bw_bytes w) = bs @ replicate (pad (length bs)) False)"

lemma byte_bits_or:
  assumes "r < 8"
  shows "byte_bits (or y (drop_bit r 0x80)) = (byte_bits y)[r := True]"
  using assms
  by (intro nth_equalityI) (auto simp: byte_bits_def bit_or_iff bit_drop_bit_eq bit_128 nth_list_update)

lemma bw_holds_bit:
  assumes "bw_holds w bs"
  shows "bw_holds (bw_bit b w) (bs @ [b])"
proof (cases "length bs mod 8 = 0")
  case True
  have p: "pad (length bs) = 0" "pad (Suc (length bs)) = 7" using True by (auto simp: pad_def mod_Suc)
  have z: "byte_bits 0 = False # replicate 7 False"
    by (simp add: byte_bits_def upt_rec numeral_eq_Suc)
  then have "byte_bits (or 0 (drop_bit 0 0x80)) = True # replicate 7 False"
    by (subst byte_bits_or) simp_all
  then have "bits_of (bw_bytes (bw_bit b w)) = bits_of (bw_bytes w) @ b # replicate 7 False"
    using assms True z by (cases b) (simp_all add: bw_holds_def bw_bit_def)
  then show ?thesis using assms p by (simp add: bw_holds_def)
next
  case False
  let ?r = "length bs mod 8"
  have "bw_bytes w \<noteq> []" using assms False by (auto simp: bw_holds_def)
  then obtain ys y where ys: "bw_bytes w = ys @ [y]" by (cases "bw_bytes w" rule: rev_cases) auto
  have bits: "bits_of ys @ byte_bits y = bs @ replicate (pad (length bs)) False"
    using assms by (simp add: bw_holds_def ys)
  have pad: "pad (length bs) = 8 - ?r" "pad (Suc (length bs)) = 7 - ?r"
    using False by (auto simp: pad_def mod_Suc)
  have "nbits ys + 8 = length bs + (8 - ?r)"
    using arg_cong [OF bits, of length] pad by simp
  moreover have "?r < 8" by simp
  ultimately have "nbits ys + ?r = length bs" by linarith
  moreover have "(bits_of ys @ byte_bits y)[nbits ys + ?r := True] = bits_of ys @ (byte_bits y)[?r := True]"
    by (simp add: list_update_append)
  ultimately have "bits_of ys @ (byte_bits y)[?r := True] = (bits_of ys @ byte_bits y)[length bs := True]" by simp
  also have "\<dots> = bs @ (replicate (8 - ?r) False)[0 := True]"
    unfolding bits pad by (simp add: list_update_append)
  also have "(replicate (8 - ?r) False)[0 := True] = True # replicate (7 - ?r) False"
    using False by (cases "8 - ?r") auto
  finally have "bits_of (ys @ [or y (drop_bit ?r 0x80)]) = bs @ True # replicate (7 - ?r) False"
    by (simp add: byte_bits_or)
  moreover have "8 - ?r = Suc (7 - ?r)"
  proof -
    have "?r < 8" by simp
    then show ?thesis by linarith
  qed
  ultimately show ?thesis
    using assms False bits pad by (cases b) (simp_all add: bw_holds_def bw_bit_def ys)
qed

lemma bw_holds_list: "bw_holds w bs \<Longrightarrow> bw_holds (bw_list cs w) (bs @ cs)"
proof (induction cs arbitrary: w bs)
  case (Cons c cs)
  then show ?case using Cons.IH [OF bw_holds_bit [OF Cons.prems, of c]] by simp
qed simp

text \<open>The payload whose bits are \<open>bs\<close> and the stop bit.\<close>

definition payload :: "bool list \<Rightarrow> u8 list" where
  "payload bs = bw_bytes (trailing_bits (bw_list bs BitWriter_default))"

lemma bits_of_payload: "bits_of (payload bs) = bs @ True # replicate (pad (Suc (length bs))) False"
proof -
  have "bw_holds BitWriter_default []" by (simp add: bw_holds_def BitWriter_default_def pad_def)
  from bw_holds_list [OF this, of "bs @ [True]"]
  have w: "bw_holds (bw_list (bs @ [True]) BitWriter_default) (bs @ [True])" by simp
  from bw_holds_list [OF w, of "replicate (pad (Suc (length bs))) False"] w
  have "bw_holds (trailing_bits (bw_list bs BitWriter_default)) (bs @ [True] @ replicate (pad (Suc (length bs))) False)"
    by (simp add: trailing_bits_def bw_align_eq bw_holds_def)
  then show ?thesis using pad_pad [of "Suc (length bs)"] by (simp add: payload_def bw_holds_def)
qed

lemma stop_bit_payload:
  assumes "bits_of data = bs @ True # replicate k False" and "k < 8"
  shows "stop_bit_position data = Some (length bs)"
proof -
  obtain d b where data: "data = d @ [b]" using assms(1) by (cases data rule: rev_cases) auto
  have len: "8 * length d + 7 = length bs + k"
    using arg_cong [OF assms(1), of length] by (simp add: data nbits_eq)
  have bit: "bit b i = (i = k)" if "i \<le> k" for i
  proof -
    have "7 - i < 8" by linarith
    then have "byte_bits b ! (7 - i) = bit b (7 - (7 - i))" by (simp add: byte_bits_def)
    also have "7 - (7 - i) = i" using that assms(2) by simp
    finally have "bit b i = (bits_of data) ! (8 * length d + (7 - i))"
      by (simp add: data nth_append nbits_eq)
    also have "8 * length d + (7 - i) = length bs + (k - i)" using len that assms(2) by linarith
    finally show ?thesis using that by (auto simp: assms(1) nth_append nth_Cons split: nat.split)
  qed
  have "b \<noteq> 0" using bit [OF order_refl] by auto
  have "[0..<8] = [0..<k] @ k # [Suc k..<8]"
    using assms(2) upt_add_eq_append [of 0 k "8 - k"] by (simp add: upt_conv_Cons)
  moreover have "takeWhile (\<lambda>i. \<not> bit b i) ([0..<k] @ k # [Suc k..<8]) = [0..<k]"
    using bit by (subst takeWhile_append2) auto
  ultimately have "trailing_zeros b = k" by (simp add: trailing_zeros_def)
  with \<open>b \<noteq> 0\<close> len show ?thesis
    by (simp add: stop_bit_position_def data enumerate_append_eq)
qed

subsection \<open>Readers see only what they read\<close>

named_theorems local_intros

definition local_rd :: "'a reader \<Rightarrow> bool" where
  "local_rd m \<longleftrightarrow> (\<forall>data pos a q. m data pos = Inr (a, q) \<longrightarrow> pos \<le> nbits data \<longrightarrow>
     pos \<le> q \<and> q \<le> nbits data \<and>
     (\<forall>data'. take q (bits_of data') = take q (bits_of data) \<longrightarrow> m data' pos = Inr (a, q)))"

lemma local_rdD:
  assumes "local_rd m" and "m data pos = Inr (a, q)" and "pos \<le> nbits data"
  shows "pos \<le> q" and "q \<le> nbits data"
    and "take q (bits_of data') = take q (bits_of data) \<Longrightarrow> m data' pos = Inr (a, q)"
  using assms unfolding local_rd_def by blast+

lemma local_ok [local_intros]: "local_rd (rd_ok a)"
  by (simp add: local_rd_def rd_ok_def)

lemma local_fail [local_intros]: "local_rd rd_fail"
  by (simp add: local_rd_def rd_fail_def)

lemma local_check [local_intros]: "local_rd (rd_check x)"
  by (cases x) (simp_all add: rd_check_def local_ok local_fail)

lemma local_pos [local_intros]: "local_rd rd_pos"
  by (simp add: local_rd_def rd_pos_def)

lemma local_bit [local_intros]: "local_rd rd_bit"
  unfolding local_rd_def
proof (intro allI impI)
  fix data pos a q
  assume b: "rd_bit data pos = Inr (a, q)"
  then have q: "q = Suc pos" "pos < nbits data" "a = bits_of data ! pos" by (auto simp: rd_bit_eq split: if_splits)
  have "rd_bit data' pos = Inr (a, q)" if "take q (bits_of data') = take q (bits_of data)" for data'
  proof -
    from that q have "length (take q (bits_of data')) = q" by (simp add: min_absorb2)
    then have "q \<le> nbits data'" by simp
    moreover have "bits_of data' ! pos = bits_of data ! pos" using that q(1) by (metis lessI nth_take)
    ultimately show ?thesis using q by (simp add: rd_bit_eq)
  qed
  with q show "pos \<le> q \<and> q \<le> nbits data \<and>
      (\<forall>data'. take q (bits_of data') = take q (bits_of data) \<longrightarrow> rd_bit data' pos = Inr (a, q))" by simp
qed

lemma local_then [local_intros]:
  assumes "local_rd m" and "\<And>a. local_rd (k a)"
  shows "local_rd (rd_then m k)"
  unfolding local_rd_def
proof (intro allI impI)
  fix data pos a q
  assume "rd_then m k data pos = Inr (a, q)" and pos: "pos \<le> nbits data"
  then obtain b p where m: "m data pos = Inr (b, p)" and k: "k b data p = Inr (a, q)"
    by (auto simp: rd_then_def and_then_Inr_iff)
  note m' = local_rdD [OF assms(1) m pos] and k' = local_rdD [OF assms(2) k local_rdD(2) [OF assms(1) m pos]]
  have "rd_then m k data' pos = Inr (a, q)" if eq: "take q (bits_of data') = take q (bits_of data)" for data'
  proof -
    have "take p (bits_of data') = take p (bits_of data)" using eq k'(1) by (metis min.absorb1 take_take)
    then show ?thesis using m'(3) k'(3) [OF eq] by (simp add: rd_then_def)
  qed
  with m'(1) k'(1,2) show "pos \<le> q \<and> q \<le> nbits data \<and>
      (\<forall>data'. take q (bits_of data') = take q (bits_of data) \<longrightarrow> rd_then m k data' pos = Inr (a, q))" by auto
qed

lemma local_if [local_intros]: "local_rd m \<Longrightarrow> local_rd m' \<Longrightarrow> local_rd (if c then m else m')"
  by simp

lemma local_bits [local_intros]: "local_rd (rd_bits n)"
proof -
  have "local_rd (rd_bits_onto n v)" for v
    by (induction n arbitrary: v) (auto intro!: local_intros)
  then show ?thesis by (simp add: rd_bits_def)
qed

lemma local_zeros [local_intros]: "local_rd (rd_zeros z)"
proof (induction z rule: rd_zeros.induct)
  case (1 zeros)
  then show ?case by (subst rd_zeros.simps) (auto intro!: local_intros)
qed

lemma local_ue [local_intros]: "local_rd rd_ue" "local_rd (rd_ue_max mx)" "local_rd rd_se"
  unfolding rd_ue_def rd_ue_max_def rd_se_def Let_def by (intro local_intros)+

lemma local_scaling [local_intros]: "local_rd (skip_scaling_list n)" "local_rd (skip_scaling_lists is)"
proof -
  have "local_rd (skip_scaling n l m)" for n l m
    by (induction n arbitrary: l m) (auto simp: Let_def intro!: local_intros)
  then show s: "local_rd (skip_scaling_list n)" for n by (simp add: skip_scaling_list_def)
  show "local_rd (skip_scaling_lists is)"
    by (induction "is") (auto intro!: local_intros s)
qed

lemma local_repeat [local_intros]: "local_rd m \<Longrightarrow> local_rd (rd_repeat n m)"
  by (induction n) (auto intro!: local_intros)

lemma local_fields: "local_rd rd_fields"
  unfolding rd_fields_def rd_chroma_def skip_order_count_def rd_crop_def by (intro local_intros)

lemma local_vui: "local_rd skip_aspect_and_overscan" "local_rd read_signal_type"
  unfolding skip_aspect_and_overscan_def read_signal_type_def by (intro local_intros)+

subsection \<open>What is written\<close>

definition bt709_bits :: "bool list" where
  "bt709_bits =
     [True] @ [True, False, True] @ [True] @ [True] @
     (replicate 7 False @ [True]) @ (replicate 7 False @ [True]) @ (replicate 7 False @ [True])"

lemma length_bt709 [simp]: "length bt709_bits = 30"
  by (simp add: bt709_bits_def)

lemma write_bt709_eq: "write_bt709_full_range w = bw_list bt709_bits w"
proof -
  have "map (bit (5 :: u32)) (rev [0..<3]) = [True, False, True]" by (simp add: upt_rec)
  moreover have "map (bit (1 :: u32)) (rev [0..<8]) = replicate 7 False @ [True]"
    by (simp add: upt_rec numeral_eq_Suc)
  ultimately show ?thesis by (simp add: write_bt709_full_range_def bw_bits_eq bt709_bits_def)
qed

lemma add_vui_eq: "add_vui w = bw_list ([False, False] @ bt709_bits @ replicate 6 False) w"
  by (simp add: add_vui_def write_bt709_eq numeral_eq_Suc)

lemma bits_at_Suc: "pos < nbits data \<Longrightarrow> bits_at data pos (Suc n) = bits_of data ! pos # bits_at data (Suc pos) n"
  by (metis Cons_nth_drop_Suc take_Suc_Cons)

lemma bits_at_add: "bits_at data pos (m + n) = bits_at data pos m @ bits_at data (pos + m) n"
  by (simp add: take_add add.commute)

text \<open>A copier writes exactly the bits its reader reads.\<close>

definition copies :: "(BitWriter \<Rightarrow> BitWriter reader) \<Rightarrow> 'a reader \<Rightarrow> bool" where
  "copies c m \<longleftrightarrow> (\<forall>w data pos. pos \<le> nbits data \<longrightarrow>
     c w data pos = and_then (m data pos) (\<lambda>(_, q). Inr (bw_list (bits_at data pos (q - pos)) w, q)))"

lemma copiesD:
  "copies c m \<Longrightarrow> pos \<le> nbits data \<Longrightarrow>
     c w data pos = and_then (m data pos) (\<lambda>(_, q). Inr (bw_list (bits_at data pos (q - pos)) w, q))"
  by (simp add: copies_def)

lemma copies_ok: "copies rd_ok (rd_ok a)"
  by (simp add: copies_def rd_ok_def)

lemma copies_seq:
  assumes "copies c m" and "local_rd m" and "\<And>a. copies c' (k a)" and "\<And>a. local_rd (k a)"
  shows "copies (\<lambda>w. rd_then (c w) c') (rd_then m k)"
  unfolding copies_def
proof (intro allI impI)
  fix w data pos
  assume pos: "pos \<le> nbits data"
  show "rd_then (c w) c' data pos =
      and_then (rd_then m k data pos) (\<lambda>(_, q). Inr (bw_list (bits_at data pos (q - pos)) w, q))"
  proof (cases "m data pos")
    case (Inr x)
    obtain a q where x: "m data pos = Inr (a, q)" using Inr by (cases x) auto
    note q = local_rdD(1,2) [OF assms(2) x pos]
    show ?thesis
    proof (cases "k a data q")
      case (Inr y)
      obtain b r where y: "k a data q = Inr (b, r)" using Inr by (cases y) auto
      have "q \<le> r" using local_rdD(1) [OF assms(4) y q(2)] .
      then have "bits_at data pos (r - pos) = bits_at data pos (q - pos) @ bits_at data q (r - q)"
        using bits_at_add [of "q - pos" "r - q" pos data] q(1) by simp
      then show ?thesis
        using x y by (simp add: rd_then_def copiesD [OF assms(1) pos] copiesD [OF assms(3) q(2), of _ a])
    qed (use x q(2) in \<open>simp add: rd_then_def copiesD [OF assms(1) pos] copiesD [OF assms(3) q(2), of _ a]\<close>)
  qed (simp add: rd_then_def copiesD [OF assms(1) pos])
qed

lemma copies_bit: "copies (\<lambda>w. rd_then rd_bit (\<lambda>b. rd_ok (bw_bit b w))) rd_bit"
  by (auto simp: copies_def rd_then_def rd_bit_eq rd_ok_def bits_at_Suc)

lemma copies_bits:
  assumes "n \<le> 32"
  shows "copies (\<lambda>w. rd_then (rd_bits n) (\<lambda>v. rd_ok (bw_bits v n w))) (rd_bits n)"
  unfolding copies_def
proof (intro allI impI)
  fix w data pos
  assume "pos \<le> nbits data"
  then have "length (bits_at data pos n) = n" if "n = 0 \<or> pos + n \<le> nbits data" using that by auto
  then show "rd_then (rd_bits n) (\<lambda>v. rd_ok (bw_bits v n w)) data pos =
      and_then (rd_bits n data pos) (\<lambda>(_, q). Inr (bw_list (bits_at data pos (q - pos)) w, q))"
    using assms word_bits [of "bits_at data pos n"] by (auto simp: rd_then_def rd_bits_eq rd_ok_def bw_bits_eq)
qed

lemma copies_copy: "copies (bw_copy n) (rd_bits n)"
  by (auto simp: copies_def bw_copy_eq rd_bits_eq)

lemma copies_copy1: "copies (bw_copy (Suc 0)) rd_bit"
  by (auto simp: copies_def rd_then_def rd_ok_def rd_bit_eq bits_at_Suc)

lemma copies_value:
  assumes "copies c m"
  shows "copies c (rd_then m (\<lambda>_. rd_ok b))"
  unfolding copies_def
proof (intro allI impI)
  fix w data pos
  assume "pos \<le> nbits data"
  then show "c w data pos =
      and_then (rd_then m (\<lambda>_. rd_ok b) data pos) (\<lambda>(_, q). Inr (bw_list (bits_at data pos (q - pos)) w, q))"
    using copiesD [OF assms] by (cases "m data pos") (auto simp: rd_then_def rd_ok_def)
qed

lemma copies_read:
  assumes "copies (\<lambda>w. rd_then m (\<lambda>a. rd_ok (put a w))) m" and "local_rd m"
    and "\<And>a. copies (c a) (k a)" and "\<And>a. local_rd (k a)"
  shows "copies (\<lambda>w. rd_then m (\<lambda>a. c a (put a w))) (rd_then m k)"
  unfolding copies_def
proof (intro allI impI)
  fix w data pos
  assume pos: "pos \<le> nbits data"
  show "rd_then m (\<lambda>a. c a (put a w)) data pos =
      and_then (rd_then m k data pos) (\<lambda>(_, q). Inr (bw_list (bits_at data pos (q - pos)) w, q))"
  proof (cases "m data pos")
    case (Inr x)
    obtain a q where x: "m data pos = Inr (a, q)" using Inr by (cases x) auto
    note q = local_rdD(1,2) [OF assms(2) x pos]
    have put: "put a w = bw_list (bits_at data pos (q - pos)) w"
      using copiesD [OF assms(1) pos, of w] x by (simp add: rd_then_def rd_ok_def)
    show ?thesis
    proof (cases "k a data q")
      case (Inr y)
      obtain b r where y: "k a data q = Inr (b, r)" using Inr by (cases y) auto
      have "q \<le> r" using local_rdD(1) [OF assms(4) y q(2)] .
      then have "bits_at data pos (r - pos) = bits_at data pos (q - pos) @ bits_at data q (r - q)"
        using bits_at_add [of "q - pos" "r - q" pos data] q(1) by simp
      then show ?thesis using x y put by (simp add: rd_then_def copiesD [OF assms(3) q(2)])
    qed (use x q(2) put in \<open>simp add: rd_then_def copiesD [OF assms(3) q(2)]\<close>)
  qed (simp add: rd_then_def)
qed

lemma copies_aspect: "copies copy_aspect_and_overscan skip_aspect_and_overscan"
proof -
  let ?sar = "\<lambda>idc. if idc = EXTENDED_SAR then bw_copy 32 else rd_ok"
  let ?sar' = "\<lambda>idc. if idc = EXTENDED_SAR then rd_then (rd_bits 32) (\<lambda>_. rd_ok ()) else rd_ok ()"
  have sar: "copies (?sar idc) (?sar' idc)" for idc
    by (simp add: copies_ok copies_value copies_copy)
  let ?asp = "\<lambda>aspect w. if aspect then rd_then (rd_bits 8) (\<lambda>idc. ?sar idc (bw_bits idc 8 w)) else rd_ok w"
  let ?asp' = "\<lambda>aspect. if aspect then rd_then (rd_bits 8) ?sar' else rd_ok ()"
  have asp: "copies (?asp aspect) (?asp' aspect)" for aspect
  proof (cases aspect)
    case True
    then show ?thesis using sar by (auto intro!: copies_read [OF copies_bits] local_intros)
  qed (simp add: copies_ok)
  let ?ov = "\<lambda>overscan. if overscan then bw_copy 1 else rd_ok"
  let ?ov' = "\<lambda>overscan. rd_then (if overscan then rd_bit else rd_ok False) (\<lambda>_. rd_ok ())"
  have ov: "copies (?ov overscan) (?ov' overscan)" for overscan
    by (cases overscan) (auto intro: copies_value copies_copy1 copies_ok)
  have tail: "copies (\<lambda>w. rd_then rd_bit (\<lambda>b. ?ov b (bw_bit b w))) (rd_then rd_bit ?ov')"
    by (rule copies_read [OF copies_bit]) (intro ov local_intros)+
  have "copies (\<lambda>w. rd_then rd_bit (\<lambda>b. rd_then (?asp b (bw_bit b w)) (\<lambda>w. rd_then rd_bit (\<lambda>b. ?ov b (bw_bit b w)))))
      (rd_then rd_bit (\<lambda>b. rd_then (?asp' b) (\<lambda>_. rd_then rd_bit ?ov')))"
    by (rule copies_read [OF copies_bit, where c = "\<lambda>b w. rd_then (?asp b w) (\<lambda>w. rd_then rd_bit (\<lambda>b. ?ov b (bw_bit b w)))"])
      (intro copies_seq asp tail local_intros)+
  moreover have "copy_aspect_and_overscan =
      (\<lambda>w. rd_then rd_bit (\<lambda>b. rd_then (?asp b (bw_bit b w)) (\<lambda>w. rd_then rd_bit (\<lambda>b. ?ov b (bw_bit b w)))))"
    by (rule ext) (simp add: copy_aspect_and_overscan_def Let_def if_distribR cong: if_cong)
  ultimately show ?thesis by (simp add: skip_aspect_and_overscan_def)
qed

subsection \<open>The rewritten payload\<close>

definition add_vui_flags :: "bool list" where
  "add_vui_flags = [True, False, False]"

text \<open>
  A payload in parts: its header, the bits up to the colour signalling (those of an empty VUI if there is
  none) and the bits behind it.
\<close>

definition sps_parts :: "u8 list \<Rightarrow> SpsHeader \<Rightarrow> bool list \<Rightarrow> bool list \<Rightarrow> bool" where
  "sps_parts data h front rest \<longleftrightarrow>
     parse_header data = Inr h \<and> sh_vui_flag_pos h \<le> nbits data \<and>
     (if sh_vui_present h
      then \<exists>q signal r stop. skip_aspect_and_overscan data (Suc (sh_vui_flag_pos h)) = Inr ((), q) \<and>
        read_signal_type data q = Inr (signal, r) \<and> stop_bit_position data = Some stop \<and> r \<le> stop \<and>
        stop \<le> nbits data \<and> front = take q (bits_of data) \<and> rest = take (stop - r) (drop r (bits_of data))
      else front = take (sh_vui_flag_pos h) (bits_of data) @ [True, False, False] \<and> rest = replicate 6 False)"

lemma header_of_present: "header_of f p b = map_option (\<lambda>h. h\<lparr>sh_vui_present := b\<rparr>) (header_of f p b')"
  by (auto simp: header_of_def Let_def split: prod.split bind_split)

lemma header_of_fields: "header_of f p b = Some h \<Longrightarrow> sh_vui_flag_pos h = p \<and> sh_vui_present h = b"
  by (auto simp: header_of_def Let_def split: prod.splits bind_splits)

lemma parse_header_Inr:
  "parse_header data = Inr h \<longleftrightarrow>
     (\<exists>f p. rd_fields data 0 = Inr (f, p) \<and> p < nbits data \<and> header_of f p (bits_of data ! p) = Some h)"
proof -
  have "rd_header data 0 = and_then (rd_fields data 0) (\<lambda>(f, p).
      if p < nbits data
      then (case header_of f p (bits_of data ! p) of None \<Rightarrow> Inl MalformedSps | Some h \<Rightarrow> Inr (h, Suc p))
      else Inl MalformedSps)"
    by (cases "rd_fields data 0")
      (auto simp: rd_header_def rd_then_def rd_pos_def rd_bit_eq rd_check_def rd_ok_def rd_fail_def split: option.split)
  then show ?thesis
    by (cases "rd_fields data 0") (auto simp: parse_header_def split: option.splits if_splits)
qed

lemma stop_bit_bound: "stop_bit_position data = Some stop \<Longrightarrow> stop \<le> nbits data"
proof -
  assume "stop_bit_position data = Some stop"
  then obtain i b where f: "find (\<lambda>(_, b). b \<noteq> 0) (rev (enumerate 0 data)) = Some (i, b)"
    and s: "stop = i * 8 + 7 - trailing_zeros b"
    by (auto simp: stop_bit_position_def split: option.splits)
  have "(i, b) \<in> set (rev (enumerate 0 data))" using f by (metis find_Some_iff nth_mem)
  then have "i < length data" by (simp add: in_set_enumerate_eq)
  with s show ?thesis by (simp add: nbits_eq)
qed

lemma rd_rest_Inr:
  "rd_rest data pos = Inr (n, q) \<longleftrightarrow> q = pos \<and> (\<exists>stop. stop_bit_position data = Some stop \<and> pos \<le> stop \<and> n = stop - pos)"
  by (auto simp: rd_rest_def split: option.splits)

lemma rewrite_rbsp_Inr:
  "rewrite_rbsp data = Inr bytes \<longleftrightarrow>
     (\<exists>h front rest. sps_parts data h front rest \<and> bytes = payload (front @ bt709_bits @ rest))"
proof (cases "parse_header data")
  case (Inl e)
  then show ?thesis by (auto simp: rewrite_rbsp_def sps_parts_def)
next
  case (Inr h)
  let ?B = "bits_of data" and ?p = "sh_vui_flag_pos h"
  obtain f p where fp: "rd_fields data 0 = Inr (f, p)" "p < nbits data" "header_of f p (?B ! p) = Some h"
    using Inr unfolding parse_header_Inr by blast
  then have p: "?p < nbits data" "sh_vui_present h = ?B ! ?p" using header_of_fields by auto
  have copy: "bw_copy ?p BitWriter_default data 0 = Inr (bw_list (take ?p ?B) BitWriter_default, ?p)"
    using p by (simp add: bw_copy_eq)
  show ?thesis
  proof (cases "sh_vui_present h")
    case False
    then show ?thesis
      using Inr copy p by (auto simp: rewrite_rbsp_def sps_parts_def add_vui_eq payload_def trailing_bits_def)
  next
    case True
    let ?w = "bw_bit True (bw_list (take ?p ?B) BitWriter_default)"
    have take_Suc: "take ?p ?B @ [True] = take (Suc ?p) ?B"
      using p True by (simp add: take_Suc_conv_app_nth)
    have w: "?w = bw_list (take (Suc ?p) ?B) BitWriter_default" by (simp flip: take_Suc)
    have asp: "copy_aspect_and_overscan ?w data (Suc ?p) =
        and_then (skip_aspect_and_overscan data (Suc ?p)) (\<lambda>(_, q). Inr (bw_list (take q ?B) BitWriter_default, q))"
    proof (cases "skip_aspect_and_overscan data (Suc ?p)")
      case (Inr x)
      obtain q where x: "x = ((), q)" by (cases x) auto
      have "Suc ?p \<le> q" using local_rdD(1) [OF local_vui(1), of data "Suc ?p" "()" q] Inr x p by simp
      then have "take q ?B = take (Suc ?p) ?B @ bits_at data (Suc ?p) (q - Suc ?p)"
        by (metis le_add_diff_inverse take_add)
      then show ?thesis using copiesD [OF copies_aspect, of "Suc ?p" data ?w] p Inr x w by simp
    qed (use copiesD [OF copies_aspect, of "Suc ?p" data ?w] p in simp)
    have rest: "(\<exists>n pos'. rd_rest data r = Inr (n, pos') \<and> bw_copy n w' data pos' = Inr (w'', pos)) \<longleftrightarrow>
        (\<exists>stop. stop_bit_position data = Some stop \<and> r \<le> stop \<and> pos = stop \<and>
          w'' = bw_list (bits_at data r (stop - r)) w')" for r w' w'' pos
    proof -
      have "(\<exists>n pos'. rd_rest data r = Inr (n, pos') \<and> bw_copy n w' data pos' = Inr (w'', pos)) \<longleftrightarrow>
          (\<exists>stop. stop_bit_position data = Some stop \<and> r \<le> stop \<and> bw_copy (stop - r) w' data r = Inr (w'', pos))"
        by (auto simp: rd_rest_Inr)
      then show ?thesis using stop_bit_bound [of data] by (auto simp: bw_copy_eq)
    qed
    show ?thesis
      using Inr copy True p
      by (auto simp: rewrite_rbsp_def sps_parts_def rewrite_vui_def rd_then_def asp and_then_Inr_iff rest
          write_bt709_eq payload_def trailing_bits_def dest: stop_bit_bound)
  qed
qed

subsection \<open>Reading the rewritten payload\<close>

lemma read_bt709:
  assumes "bits_of data = front @ bt709_bits @ after"
  shows "read_signal_type data (length front) =
    Inr (Some \<lparr>st_full_range = True, st_matrix = Some 1\<rparr>, length front + 30)"
proof -
  let ?f = "length front"
  have bit: "rd_bit data (?f + k) = Inr (bt709_bits ! k, ?f + (k + 1))" if "k < 30" for k
    using that by (simp add: rd_bit_eq assms nth_append)
  have bits: "rd_bits n data (?f + k) = Inr (word_of 0 (take n (drop k bt709_bits)), ?f + (k + n))" if "k + n \<le> 30" for k n
    using that by (simp add: rd_bits_eq assms)
  have "rd_bit data ?f = Inr (True, ?f + 1)" "rd_bit data (?f + 4) = Inr (True, ?f + 5)"
    "rd_bit data (?f + 5) = Inr (True, ?f + 6)"
    using bit [of 0] bit [of 4] bit [of 5] by (simp_all add: bt709_bits_def numeral_eq_Suc)
  moreover have "word_of 0 (take 8 (drop 22 bt709_bits)) = 1"
    by (simp add: bt709_bits_def numeral_eq_Suc word_of_def)
  moreover from this have "rd_bits 8 data (?f + 22) = Inr (1, ?f + 30)" using bits [of 22 8] by simp
  moreover have "rd_bits 3 data (?f + 1) = Inr (word_of 0 (take 3 (drop 1 bt709_bits)), ?f + 4)"
    "rd_bits 16 data (?f + 6) = Inr (word_of 0 (take 16 (drop 6 bt709_bits)), ?f + 22)"
    using bits [of 1 3] bits [of 6 16] by simp_all
  ultimately show ?thesis
    by (simp add: read_signal_type_def rd_then_def rd_check_def rd_ok_def to_u8_def)
qed

lemma sps_parts_payload:
  assumes "sps_parts data h front rest"
  defines "out \<equiv> payload (front @ bt709_bits @ rest)"
  shows "sps_parts out (h\<lparr>sh_vui_present := True\<rparr>) front rest \<and>
    (\<exists>q. skip_aspect_and_overscan out (Suc (sh_vui_flag_pos h)) = Inr ((), length front)) \<and>
    read_signal_type out (length front) = Inr (Some \<lparr>st_full_range = True, st_matrix = Some 1\<rparr>, length front + 30)"
proof -
  let ?B = "bits_of data" and ?p = "sh_vui_flag_pos h"
  obtain k where bits: "bits_of out = front @ bt709_bits @ rest @ True # replicate k False" and "k < 8"
    by (simp add: out_def bits_of_payload pad_def)
  have stop: "stop_bit_position out = Some (length front + 30 + length rest)"
    using stop_bit_payload [of out "front @ bt709_bits @ rest" k] bits \<open>k < 8\<close> by simp
  have parse: "parse_header data = Inr h" using assms(1) by (simp add: sps_parts_def)
  then obtain f where f: "rd_fields data 0 = Inr (f, ?p)" "?p < nbits data" "header_of f ?p (?B ! ?p) = Some h"
    using header_of_fields unfolding parse_header_Inr by blast
  then have present: "sh_vui_present h = ?B ! ?p" using header_of_fields by blast
  have front: "take ?p (bits_of out) = take ?p ?B \<and> Suc ?p \<le> length front \<and> front ! ?p \<and>
      skip_aspect_and_overscan out (Suc ?p) = Inr ((), length front)"
  proof (cases "sh_vui_present h")
    case True
    then obtain q where q: "skip_aspect_and_overscan data (Suc ?p) = Inr ((), q)" "front = take q ?B"
      using assms(1) by (auto simp: sps_parts_def)
    note l = local_rdD [OF local_vui(1) q(1)]
    have "Suc ?p \<le> q" "q \<le> nbits data" using l(1,2) f(2) by auto
    moreover have "take q (bits_of out) = take q ?B" using q(2) \<open>q \<le> nbits data\<close> by (simp add: bits)
    ultimately show ?thesis using l(3) f(2) True present q(2) by (auto simp: bits min_def)
  next
    case False
    then have q: "front = take ?p ?B @ [True, False, False]" using assms(1) by (simp add: sps_parts_def)
    have "rd_bit out (?p + 1) = Inr (False, ?p + 2)" "rd_bit out (?p + 2) = Inr (False, ?p + 3)"
      using f(2) by (simp_all add: rd_bit_eq bits q nth_append)
    then have "skip_aspect_and_overscan out (Suc ?p) = Inr ((), ?p + 3)"
      by (simp add: skip_aspect_and_overscan_def rd_then_def rd_ok_def)
    then show ?thesis using f(2) by (simp add: bits q nth_append)
  qed
  then have "rd_fields out 0 = Inr (f, ?p)" "bits_of out ! ?p" "?p < nbits out"
    using local_rdD(3) [OF local_fields f(1)] f(2) by (auto simp: bits nth_append)
  then have h: "parse_header out = Inr (h\<lparr>sh_vui_present := True\<rparr>)"
    unfolding parse_header_Inr using f(3) header_of_present [of f ?p True "?B ! ?p"] by auto
  have "read_signal_type out (length front) = Inr (Some \<lparr>st_full_range = True, st_matrix = Some 1\<rparr>, length front + 30)"
    using read_bt709 bits by blast
  moreover have "sps_parts out (h\<lparr>sh_vui_present := True\<rparr>) front rest"
    using h stop front calculation by (auto simp: sps_parts_def bits)
  ultimately show ?thesis using front by blast
qed

end
