(* ===== verification/Video_Decode.thy ===== *)
theory Video_Decode
  imports Video_Sps Core_Geometry
begin

text \<open>
  \<open>crates/drift-video/src\<close>: \<open>metablock.rs\<close> (the header of an AVC420 bitmap stream), \<open>params.rs\<close>
  (which parameter sets are in force) and the control of \<open>decode.rs\<close>. VideoToolbox and CoreMedia are the
  parameter \<open>VtAnswers\<close>: what they answer to the calls of one \<open>decode\<close>, the pictures they deliver included.
\<close>

subsection \<open>metablock.rs\<close>

record QuantQuality =
  qq_qp :: u8
  qq_progressive :: bool
  qq_quality :: u8

record Avc420Metablock =
  mb_regions :: "Rect list"
  mb_quant_quality :: "QuantQuality list"

datatype MetablockError = MetaTruncated nat nat | InvertedRect nat

definition le_value :: "u8 list \<Rightarrow> nat" where
  "le_value bs = foldr (\<lambda>b acc. unat b + 256 * acc) bs 0"

definition meta_u16 :: "u8 list \<Rightarrow> nat \<Rightarrow> u32" where
  "meta_u16 data off = ucast (data ! off) + 256 * ucast (data ! (off + 1))"

definition meta_region :: "u8 list \<Rightarrow> nat \<Rightarrow> (MetablockError, Rect) result" where
  "meta_region data index =
     (let off = 4 + index * 8
      in ok_or (from_ltrb (meta_u16 data off) (meta_u16 data (off + 2)) (meta_u16 data (off + 4)) (meta_u16 data (off + 6)))
           (InvertedRect index))"

definition meta_quant :: "u8 list \<Rightarrow> nat \<Rightarrow> nat \<Rightarrow> QuantQuality" where
  "meta_quant data count index =
     (let off = 4 + count * 8 + index * 2; qp_val = data ! off
      in \<lparr>qq_qp = and qp_val 0x3F, qq_progressive = (and qp_val 0x80 \<noteq> 0), qq_quality = data ! (off + 1)\<rparr>)"

definition parse_avc420_bitmap_stream :: "u8 list \<Rightarrow> (MetablockError, Avc420Metablock \<times> u8 list) result" where
  "parse_avc420_bitmap_stream data =
     (if length data < 4 then Inl (MetaTruncated 4 (length data))
      else let count = le_value (take 4 data); needed = count * (8 + 2) + 4
        in if 2 ^ 64 \<le> needed then Inl (MetaTruncated (2 ^ 64 - 1) (length data))
           else if length data < needed then Inl (MetaTruncated needed (length data))
           else and_then (try_map (meta_region data) [0..<count]) (\<lambda>regions.
             Inr (\<lparr>mb_regions = regions, mb_quant_quality = map (meta_quant data count) [0..<count]\<rparr>, drop needed data)))"

subsection \<open>params.rs\<close>

record ParameterSets =
  ps_sps :: "u8 list"
  ps_pps :: "u8 list"

datatype ParamDecision = Keep | Rebuild ParameterSets | NotReady

record ParameterSetTracker =
  active_sets :: "ParameterSets option"

definition ParameterSetTracker_new :: ParameterSetTracker where
  "ParameterSetTracker_new = \<lparr>active_sets = None\<rparr>"

definition last_of :: "'a list \<Rightarrow> 'a option" where
  "last_of xs = (if xs = [] then None else Some (last xs))"

definition or_opt :: "'a option \<Rightarrow> 'a option \<Rightarrow> 'a option" where
  "or_opt x y = (if x = None then y else x)"

definition observe :: "AccessUnit \<Rightarrow> ParameterSetTracker \<Rightarrow> ParamDecision \<times> ParameterSetTracker" where
  "observe au t =
     (if au_sps au = [] \<and> au_pps au = []
      then (if active_sets t \<noteq> None then Keep else NotReady, t)
      else
        (case (or_opt (last_of (au_sps au)) (map_option ps_sps (active_sets t)),
               or_opt (last_of (au_pps au)) (map_option ps_pps (active_sets t))) of
           (Some sps, Some pps) \<Rightarrow>
             (if (case active_sets t of None \<Rightarrow> False | Some a \<Rightarrow> ps_sps a = sps \<and> ps_pps a = pps) then (Keep, t)
              else let next = \<lparr>ps_sps = sps, ps_pps = pps\<rparr> in (Rebuild next, t\<lparr>active_sets := Some next\<rparr>))
         | _ \<Rightarrow> (NotReady, t)))"

definition tracker_reset :: "ParameterSetTracker \<Rightarrow> ParameterSetTracker" where
  "tracker_reset t = t\<lparr>active_sets := None\<rparr>"

subsection \<open>decode.rs\<close>

text \<open>An error keeps what its message is made of.\<close>

datatype DecodeError = BadUnit AnnexBError | BadSps SpsError | DecodeOs string int | DecodeText string

text \<open>
  The answers of one call: status and whether the out-pointer is set for the calls that create an object, the
  status of the others, and the output callbacks (status and picture) that run during \<open>decode_frame\<close>,
  during the wait behind it and while the old session is dropped.
\<close>

record 'p VtAnswers =
  va_format :: "int \<times> bool"
  va_session :: "int \<times> bool"
  va_block :: "int \<times> bool"
  va_replace :: int
  va_sample :: "int \<times> bool"
  va_decode :: int
  va_dropped :: bool
  va_drop_outputs :: "(int \<times> 'p option) list"
  va_decode_outputs :: "(int \<times> 'p option) list"
  va_wait_outputs :: "(int \<times> 'p option) list"

record VtSession =
  vs_sps :: "u8 list"
  vs_pps :: "u8 list"

record 'p VtDecoder =
  vd_tracker :: ParameterSetTracker
  vd_session :: "VtSession option"
  vd_builds :: u64
  vd_slot :: "(int + 'p) option"

definition VtDecoder_new :: "'p VtDecoder" where
  "VtDecoder_new = \<lparr>vd_tracker = ParameterSetTracker_new, vd_session = None, vd_builds = 0, vd_slot = None\<rparr>"

definition created :: "string \<Rightarrow> string \<Rightarrow> int \<times> bool \<Rightarrow> (DecodeError, unit) result" where
  "created call null_text answer =
     (if fst answer \<noteq> 0 then Inl (DecodeOs call (fst answer))
      else if \<not> snd answer then Inl (DecodeText null_text) else Inr ())"

definition output_callback :: "'p VtDecoder \<Rightarrow> int \<times> 'p option \<Rightarrow> 'p VtDecoder" where
  "output_callback d out =
     (case out of (status, picture) \<Rightarrow>
        d\<lparr>vd_slot := Some (case picture of
            Some p \<Rightarrow> if status = 0 then Inr p else Inl status
          | None \<Rightarrow> Inl (if status = 0 then - 1 else status))\<rparr>)"

text \<open>Dropping the session waits for its outputs.\<close>

definition drop_decoder_session :: "'p VtAnswers \<Rightarrow> 'p VtDecoder \<Rightarrow> 'p VtDecoder" where
  "drop_decoder_session vt d =
     (if vd_session d = None then d else (foldl output_callback d (va_drop_outputs vt))\<lparr>vd_session := None\<rparr>)"

definition format_description :: "'p VtAnswers \<Rightarrow> ParameterSets \<Rightarrow> (DecodeError, VtSession) result" where
  "format_description vt ps =
     (case with_bt709_full_range (ps_sps ps) of
        Inl e \<Rightarrow> Inl (BadSps e)
      | Inr sps \<Rightarrow>
          if ps_pps ps = [] then Inl (DecodeText ''empty PPS'')
          else and_then (created ''CMVideoFormatDescriptionCreateFromH264ParameterSets'' ''null format description'' (va_format vt))
            (\<lambda>_. Inr \<lparr>vs_sps = sps, vs_pps = ps_pps ps\<rparr>))"

definition build_session :: "'p VtAnswers \<Rightarrow> ParameterSets \<Rightarrow> (DecodeError, VtSession) result" where
  "build_session vt ps =
     and_then (format_description vt ps) (\<lambda>format.
     and_then (created ''VTDecompressionSessionCreate'' ''VTDecompressionSessionCreate returned null'' (va_session vt))
       (\<lambda>_. Inr format))"

definition decoder_rebuild :: "'p VtAnswers \<Rightarrow> ParameterSets \<Rightarrow> 'p VtDecoder \<Rightarrow> (DecodeError, unit) result \<times> 'p VtDecoder" where
  "decoder_rebuild vt ps d =
     (let d = drop_decoder_session vt d
      in case build_session vt ps of
           Inr session \<Rightarrow> (Inr (), d\<lparr>vd_session := Some session, vd_builds := vd_builds d + 1\<rparr>)
         | Inl e \<Rightarrow> (Inl e, d\<lparr>vd_tracker := tracker_reset (vd_tracker d)\<rparr>))"

definition make_sample :: "'p VtAnswers \<Rightarrow> (DecodeError, unit) result" where
  "make_sample vt =
     and_then (created ''CMBlockBufferCreateWithMemoryBlock'' ''null block buffer'' (va_block vt)) (\<lambda>_.
       if va_replace vt \<noteq> 0 then Inl (DecodeOs ''CMBlockBufferReplaceDataBytes'' (va_replace vt))
       else created ''CMSampleBufferCreateReady'' ''null sample buffer'' (va_sample vt))"

text \<open>One picture through the session in force.\<close>

definition decode_sample :: "'p VtAnswers \<Rightarrow> 'p VtDecoder \<Rightarrow> (DecodeError, 'p option) result \<times> 'p VtDecoder" where
  "decode_sample vt d =
     (case make_sample vt of
        Inl e \<Rightarrow> (Inl e, d)
      | Inr _ \<Rightarrow>
          let d = foldl output_callback (d\<lparr>vd_slot := None\<rparr>) (va_decode_outputs vt)
          in if va_decode vt \<noteq> 0 then (Inl (DecodeOs ''VTDecompressionSessionDecodeFrame'' (va_decode vt)), d)
             else let d = foldl output_callback d (va_wait_outputs vt); d' = d\<lparr>vd_slot := None\<rparr>
               in case vd_slot d of
                    Some (Inr picture) \<Rightarrow> (Inr (Some picture), d')
                  | Some (Inl status) \<Rightarrow> (Inl (DecodeOs ''VideoToolbox decode callback'' status), d')
                  | None \<Rightarrow> if va_dropped vt then (Inr None, d')
                            else (Inl (DecodeText ''VideoToolbox produced no picture''), d'))"

text \<open>What happens to the session before the picture; \<open>Inr False\<close> ends the call without a picture.\<close>

definition follow_parameters ::
  "'p VtAnswers \<Rightarrow> AccessUnit \<Rightarrow> 'p VtDecoder \<Rightarrow> (DecodeError, bool) result \<times> 'p VtDecoder" where
  "follow_parameters vt au d =
     (case observe au (vd_tracker d) of
        (decision, tracker) \<Rightarrow>
          let d = d\<lparr>vd_tracker := tracker\<rparr>;
              rebuilt = (\<lambda>ps. case decoder_rebuild vt ps d of (r, d) \<Rightarrow> (and_then r (\<lambda>_. Inr True), d))
          in case decision of
               NotReady \<Rightarrow> (Inr False, d)
             | Keep \<Rightarrow>
                 (if vd_session d \<noteq> None then (Inr True, d)
                  else case active_sets (vd_tracker d) of None \<Rightarrow> (Inr False, d) | Some ps \<Rightarrow> rebuilt ps)
             | Rebuild ps \<Rightarrow> rebuilt ps)"

definition decode_picture :: "'p VtAnswers \<Rightarrow> u8 list \<Rightarrow> 'p VtDecoder \<Rightarrow> (DecodeError, 'p option) result \<times> 'p VtDecoder" where
  "decode_picture vt annex_b d =
     (case from_annex_b annex_b of
        Inl e \<Rightarrow> (Inl (BadUnit e), d)
      | Inr au \<Rightarrow>
          (case follow_parameters vt au d of
             (Inl e, d) \<Rightarrow> (Inl e, d)
           | (Inr go_on, d) \<Rightarrow>
               if \<not> go_on \<or> \<not> has_picture au \<or> vd_session d = None then (Inr None, d) else decode_sample vt d))"

definition decoder_reset :: "'p VtAnswers \<Rightarrow> 'p VtDecoder \<Rightarrow> 'p VtDecoder" where
  "decoder_reset vt d =
     (let d = drop_decoder_session vt d in d\<lparr>vd_tracker := tracker_reset (vd_tracker d), vd_slot := None\<rparr>)"

inductive decoder_reachable :: "'p VtDecoder \<Rightarrow> bool" where
  new: "decoder_reachable VtDecoder_new"
| decode: "decoder_reachable d \<Longrightarrow> decoder_reachable (snd (decode_picture vt data d))"
| reset: "decoder_reachable d \<Longrightarrow> decoder_reachable (decoder_reset vt d)"

subsection \<open>The header of a bitmap stream as its server writes it\<close>

definition meta_u16_bytes :: "nat \<Rightarrow> u8 list" where
  "meta_u16_bytes n = [of_nat n, of_nat (n div 256)]"

text \<open>A region and its quantisation as the bytes of the format: exclusive edges, the flag in bit 7.\<close>

definition region_bytes :: "Rect \<Rightarrow> u8 list" where
  "region_bytes r = concat (map meta_u16_bytes
     [unat (rect_x r), unat (rect_y r), unat (rect_x r) + unat (rect_width r), unat (rect_y r) + unat (rect_height r)])"

definition quant_bytes :: "QuantQuality \<Rightarrow> u8 list" where
  "quant_bytes q = [or (qq_qp q) (if qq_progressive q then 0x80 else 0), qq_quality q]"

definition stream_bytes :: "Avc420Metablock \<Rightarrow> u8 list \<Rightarrow> u8 list" where
  "stream_bytes m payload =
     (let n = length (mb_regions m)
      in [of_nat n, of_nat (n div 256), of_nat (n div 65536), of_nat (n div 16777216)] @
         concat (map region_bytes (mb_regions m)) @ concat (map quant_bytes (mb_quant_quality m)) @ payload)"

definition stream_ok :: "Avc420Metablock \<Rightarrow> bool" where
  "stream_ok m = (length (mb_regions m) < 2 ^ 32 \<and> length (mb_quant_quality m) = length (mb_regions m) \<and>
     (\<forall>r \<in> set (mb_regions m). unat (rect_x r) + unat (rect_width r) < 2 ^ 16 \<and> unat (rect_y r) + unat (rect_height r) < 2 ^ 16) \<and>
     (\<forall>q \<in> set (mb_quant_quality m). qq_qp q < 64))"

end
