(* ===== verification/Video_Theorems.thy ===== *)
theory Video_Theorems
  imports Video_Rewrite Video_Decode
begin

text \<open>
  Properties of the H.264 byte stream: units, samples and the rewriting of a sequence parameter set.
\<close>

subsection \<open>The rewritten parameter set\<close>

lemma payload_last: "payload bs \<noteq> [] \<and> last (payload bs) \<noteq> 0"
proof -
  obtain k where bits: "bits_of (payload bs) = bs @ True # replicate k False" and "k < 8"
    by (simp add: bits_of_payload pad_def)
  have ne: "payload bs \<noteq> []" using bits by auto
  then obtain ys y where y: "payload bs = ys @ [y]" by (cases "payload bs" rule: rev_cases) auto
  have "y \<noteq> 0"
  proof
    assume "y = 0"
    then have "set (byte_bits y) \<subseteq> {False}" by (auto simp: byte_bits_def)
    moreover have "8 * length ys + 8 = length bs + Suc k"
      using arg_cong [OF bits, of length] by (simp add: y nbits_eq)
    then have "nbits ys \<le> length bs" using \<open>k < 8\<close> by (simp add: nbits_eq)
    then have "True \<in> set (drop (nbits ys) (bs @ True # replicate k False))" by simp
    then have "True \<in> set (byte_bits y)" using bits by (simp add: y flip: bits)
    ultimately show False by auto
  qed
  with ne y show ?thesis by simp
qed

lemma with_bt709_Inr:
  assumes "with_bt709_full_range sps = Inr out"
  obtains b rest h front tail where "sps = b # rest" "and b 0x1F = NAL_SPS"
    "sps_parts (unescape 0 rest) h front tail" "out = b # escape 0 (payload (front @ bt709_bits @ tail))"
  using assms
  by (auto simp: with_bt709_full_range_def rbsp_of_def and_then_Inr_iff rewrite_rbsp_Inr split: list.splits if_splits)

lemma sps_parse_parts:
  assumes "and b 0x1F = NAL_SPS" and "sps_parts (unescape 0 rest) h front tail"
  shows "\<exists>fr mc. sps_parse (b # rest) = Inr \<lparr>profile_idc = sh_profile_idc h, level_idc = sh_level_idc h,
    sps_width = sh_width h, sps_height = sh_height h, full_range = fr, matrix_coefficients = mc\<rparr>"
  using assms
  by (auto simp: sps_parse_def rbsp_of_def sps_parts_def rd_then_def Let_def split: if_splits option.split)

text \<open>C8: A sequence parameter set that is rewritten for BT.709 full range parses, and its rewriting parses to the
  same profile, level and picture size with full range and matrix 1; rewriting it again changes nothing; and
  it is a unit that a byte stream can carry (not empty, no start code inside, no zero at its end).\<close>

theorem sps_rewrite:
  assumes "with_bt709_full_range sps = Inr out"
  shows "\<exists>info. sps_parse sps = Inr info \<and>
    sps_parse out = Inr (info\<lparr>full_range := Some True, matrix_coefficients := Some 1\<rparr>) \<and>
    with_bt709_full_range out = Inr out \<and> nal_ok out"
proof -
  obtain b rest h front tail where sps: "sps = b # rest" "and b 0x1F = NAL_SPS"
    and parts: "sps_parts (unescape 0 rest) h front tail"
    and out: "out = b # escape 0 (payload (front @ bt709_bits @ tail))"
    using with_bt709_Inr [OF assms] by metis
  let ?p = "payload (front @ bt709_bits @ tail)"
  have un: "unescape 0 (escape 0 ?p) = ?p" by (simp add: unescape_escape)
  note out_parts = sps_parts_payload [OF parts]
  have "parse_header ?p = Inr (h\<lparr>sh_vui_present := True\<rparr>)" using out_parts by (simp add: sps_parts_def)
  then have "sps_parse out = Inr \<lparr>profile_idc = sh_profile_idc h, level_idc = sh_level_idc h,
      sps_width = sh_width h, sps_height = sh_height h, full_range = Some True, matrix_coefficients = Some 1\<rparr>"
    using out_parts sps(2) by (auto simp: sps_parse_def rbsp_of_def out un rd_then_def Let_def)
  moreover have "with_bt709_full_range out = Inr out"
    using out_parts sps(2) rewrite_rbsp_Inr [of ?p]
    by (auto simp: with_bt709_full_range_def rbsp_of_def out un and_then_Inr_iff)
  moreover have "nal_ok out"
  proof -
    have "b \<noteq> 0" using sps(2) by (auto simp: nal_type_defs)
    then show ?thesis
      using payload_last escape_last start_free_escape [of 0 ?p] by (simp add: nal_ok_def out start_free_Cons)
  qed
  ultimately show ?thesis using sps_parse_parts [OF sps(2) parts] sps(1) by fastforce
qed

subsection \<open>Evaluation on a concrete set\<close>

lemma and_then_weak_cong: "x = y \<Longrightarrow> and_then x f = and_then y f"
  by simp

lemma rd_zeros_at:
  "rd_zeros z data pos = and_then (rd_bit data pos) (\<lambda>(b, p).
     if b then Inr (z, p) else if 31 < z + 1 then Inl MalformedSps else rd_zeros (z + 1) data p)"
  by (subst rd_zeros.simps) (auto simp: rd_then_def rd_ok_def rd_fail_def intro!: arg_cong [where f = "and_then _"])

lemma rd_bits_onto_at:
  "rd_bits_onto 0 v data pos = Inr (v, pos)"
  "rd_bits_onto (Suc n) v data pos =
    and_then (rd_bit data pos) (\<lambda>(b, p). rd_bits_onto n (or (push_bit 1 v) (of_bool b)) data p)"
  "rd_bits_onto (numeral k) v data pos =
    and_then (rd_bit data pos) (\<lambda>(b, p). rd_bits_onto (pred_numeral k) (or (push_bit 1 v) (of_bool b)) data p)"
  by (simp_all add: rd_ok_def rd_then_def numeral_eq_Suc)

lemmas sps_eval =
  rd_bits_def rd_bits_onto_at rd_ue_def rd_check_def rd_ok_def rd_then_def rd_bit_def rd_zeros_at u32_try_from_def
  rd_header_def rd_fields_def rd_chroma_def skip_order_count_def rd_crop_def rd_ue_max_def rd_pos_def to_u8_def
  checked_add_def checked_sub_def checked_mul_def cropped_def header_of_def HIGH_PROFILES_def

text \<open>A baseline set of 320 by 240 without a VUI.\<close>

lemma baseline_header:
  "parse_header [66, 192, 13, 218, 5, 7, 228] =
    Inr \<lparr>sh_profile_idc = 66, sh_level_idc = 13, sh_width = 320, sh_height = 240, sh_vui_flag_pos = 52, sh_vui_present = False\<rparr>"
  by (simp add: parse_header_def sps_eval cong: and_then_weak_cong)

lemma sps_rewrite_witness:
  "\<exists>out. with_bt709_full_range [0x67, 66, 192, 13, 218, 5, 7, 228] = Inr out \<and>
     sps_parse out = Inr \<lparr>profile_idc = 66, level_idc = 13, sps_width = 320, sps_height = 240,
       full_range = Some True, matrix_coefficients = Some 1\<rparr>"
proof -
  let ?sps = "[0x67, 66, 192, 13, 218, 5, 7, 228] :: u8 list"
  have rbsp: "rbsp_of ?sps = Inr [66, 192, 13, 218, 5, 7, 228]" by (simp add: rbsp_of_def NAL_SPS_def)
  have "\<exists>bytes. rewrite_rbsp [66, 192, 13, 218, 5, 7, 228] = Inr bytes"
    by (simp add: rewrite_rbsp_def baseline_header bw_copy_eq nbits_eq)
  then obtain out where out: "with_bt709_full_range ?sps = Inr out"
    by (auto simp: with_bt709_full_range_def rbsp)
  have "sps_parse ?sps = Inr \<lparr>profile_idc = 66, level_idc = 13, sps_width = 320, sps_height = 240,
      full_range = None, matrix_coefficients = None\<rparr>"
    by (simp add: sps_parse_def rbsp baseline_header)
  then show ?thesis using sps_rewrite [OF out] out by auto
qed

subsection \<open>Units and samples\<close>

text \<open>C17: An access unit keeps every unit of its byte stream: the parameter sets in order, and in the sample all
  others but delimiters, in order, behind their lengths; cutting the sample gives exactly those units back,
  and the byte stream written from it splits into them again.\<close>

theorem access_unit_round_trip:
  assumes "from_annex_b data = Inr au"
  shows "au_sps au = filter (\<lambda>n. nal_unit_type n = Some NAL_SPS) (split_nals data) \<and>
    au_pps au = filter (\<lambda>n. nal_unit_type n = Some NAL_PPS) (split_nals data) \<and>
    au_is_idr au = (\<exists>n \<in> set (split_nals data). nal_unit_type n = Some NAL_IDR) \<and>
    avcc_nals (au_avcc au) 4 = Inr (filter is_sliced (split_nals data)) \<and>
    (\<exists>stream. avcc_to_annex_b (au_avcc au) 4 = Inr stream \<and> split_nals stream = filter is_sliced (split_nals data)) \<and>
    has_picture au = (\<exists>n \<in> set (split_nals data). is_sliced n)"
proof -
  let ?nals = "split_nals data" and ?pic = "filter is_sliced (split_nals data)"
  have "add_nals ?nals AccessUnit_default = Inr au"
    using assms by (simp add: from_annex_b_def Let_def split: if_splits)
  note au = add_nals_Inr [OF this, unfolded AccessUnit_default_def, simplified]
  have cut: "avcc_nals (au_avcc au) 4 = Inr ?pic"
    using au avcc_from_sample [of ?pic 0] by (simp add: avcc_nals_def)
  have "split_nals (framed (map (\<lambda>n. (1, n, 0)) ?pic)) = ?pic"
    using split_nals_ok by (subst split_framed) (auto simp: comp_def)
  moreover have "framed (map (\<lambda>n. (1, n, 0)) ?pic) = concat (map (\<lambda>nal. [0, 0, 0, 1] @ nal) ?pic)"
    by (simp add: framed_def comp_def)
  ultimately have "\<exists>stream. avcc_to_annex_b (au_avcc au) 4 = Inr stream \<and> split_nals stream = ?pic"
    by (simp add: avcc_to_annex_b_def cut)
  moreover have "has_picture au = (\<exists>n \<in> set ?nals. is_sliced n)"
  proof -
    have "sample_of ns = [] \<longleftrightarrow> ns = []" for ns by (cases ns) (simp_all add: sample_of_def u32_be_bytes_def)
    then show ?thesis using au by (simp add: has_picture_def filter_empty_conv)
  qed
  ultimately show ?thesis using au cut by simp
qed

text \<open>A delimiter, both parameter sets and an instantaneous refresh, behind start codes of both lengths.\<close>

lemma access_unit_round_trip_witness:
  "\<exists>au. from_annex_b [0, 0, 0, 1, 0x09, 0x30, 0, 0, 1, 0x67, 0x64, 0, 0, 1, 0x68, 0xEE, 0, 0, 0, 1, 0x65, 0x88] = Inr au \<and>
     au_sps au = [[0x67, 0x64]] \<and> au_pps au = [[0x68, 0xEE]] \<and> au_is_idr au \<and>
     avcc_nals (au_avcc au) 4 = Inr [[0x65, 0x88]]"
proof -
  let ?data = "[0, 0, 0, 1, 0x09, 0x30, 0, 0, 1, 0x67, 0x64, 0, 0, 1, 0x68, 0xEE, 0, 0, 0, 1, 0x65, 0x88] :: u8 list"
  have split: "split_nals ?data = [[0x09, 0x30], [0x67, 0x64], [0x68, 0xEE], [0x65, 0x88]]"
    by (simp add: split_nals_def cut_nals_step strip_zeros_def)
  then obtain au where au: "from_annex_b ?data = Inr au"
    by (simp add: from_annex_b_def nal_unit_type_def nal_type_defs)
  show ?thesis
    using access_unit_round_trip [OF au] au
    by (simp add: split is_sliced_def nal_unit_type_def nal_type_defs)
qed

subsection \<open>The decoder\<close>

lemma callbacks_slot:
  "vd_session (foldl output_callback d outs) = vd_session d \<and> vd_tracker (foldl output_callback d outs) = vd_tracker d"
proof (induction outs arbitrary: d)
  case (Cons x outs)
  then show ?case by (simp add: output_callback_def split: prod.split)
qed simp

lemma callbacks_picture:
  "vd_slot (foldl output_callback d outs) = Some (Inr p) \<Longrightarrow> vd_slot d = Some (Inr p) \<or> (0, Some p) \<in> set outs"
proof (induction outs arbitrary: d)
  case (Cons x outs)
  then have "vd_slot (output_callback d x) = Some (Inr p) \<or> (0, Some p) \<in> set outs" by simp
  moreover have "vd_slot (output_callback d x) = Some (Inr p) \<Longrightarrow> x = (0, Some p)"
    by (auto simp: output_callback_def split: prod.splits option.splits if_splits)
  ultimately show ?case by auto
qed simp

text \<open>The session is the one of the parameter sets in force, and there is one when there are such sets.\<close>

definition session_follows :: "ParameterSets option \<Rightarrow> VtSession option \<Rightarrow> bool" where
  "session_follows sets session =
     (case sets of
        None \<Rightarrow> session = None
      | Some ps \<Rightarrow> ps_pps ps \<noteq> [] \<and>
          (\<exists>out. with_bt709_full_range (ps_sps ps) = Inr out \<and> session = Some \<lparr>vs_sps = out, vs_pps = ps_pps ps\<rparr>))"

abbreviation decoder_ok :: "'p VtDecoder \<Rightarrow> bool" where
  "decoder_ok d \<equiv> session_follows (active_sets (vd_tracker d)) (vd_session d)"

lemma drop_session [simp]:
  "vd_session (drop_decoder_session vt d) = None" "vd_tracker (drop_decoder_session vt d) = vd_tracker d"
  by (auto simp: drop_decoder_session_def callbacks_slot)

lemma build_session_Inr:
  "build_session vt ps = Inr s \<Longrightarrow>
     ps_pps ps \<noteq> [] \<and> (\<exists>out. with_bt709_full_range (ps_sps ps) = Inr out \<and> s = \<lparr>vs_sps = out, vs_pps = ps_pps ps\<rparr>)"
  by (auto simp: build_session_def format_description_def and_then_Inr_iff split: sum.splits if_splits)

lemma rebuild_ok:
  assumes "active_sets (vd_tracker d) = Some ps"
  shows "decoder_ok (snd (decoder_rebuild vt ps d))"
  using assms
  by (auto simp: decoder_rebuild_def session_follows_def tracker_reset_def Let_def dest: build_session_Inr split: sum.split)

lemma observe_sets:
  "active_sets (snd (observe au t)) =
     (case fst (observe au t) of Rebuild ps \<Rightarrow> Some ps | _ \<Rightarrow> active_sets t)"
  by (auto simp: observe_def Let_def split: option.split)

lemma follow_ok:
  assumes "decoder_ok d"
  shows "decoder_ok (snd (follow_parameters vt au d))"
proof -
  obtain dec t where o: "observe au (vd_tracker d) = (dec, t)" by fastforce
  show ?thesis
  proof (cases dec)
    case (Rebuild ps)
    then show ?thesis
      using observe_sets [of au "vd_tracker d"] rebuild_ok [of "d\<lparr>vd_tracker := t\<rparr>" ps vt]
      by (simp add: follow_parameters_def o case_prod_unfold Let_def)
  next
    case Keep
    then show ?thesis
      using assms observe_sets [of au "vd_tracker d"]
      by (auto simp: follow_parameters_def o session_follows_def split: option.splits)
  next
    case NotReady
    then show ?thesis
      using assms observe_sets [of au "vd_tracker d"] by (simp add: follow_parameters_def o)
  qed
qed

lemma decode_sample_keeps:
  "vd_session (snd (decode_sample vt d)) = vd_session d" "vd_tracker (snd (decode_sample vt d)) = vd_tracker d"
  by (auto simp: decode_sample_def Let_def callbacks_slot split: sum.split option.split)

lemma reachable_ok: "decoder_reachable d \<Longrightarrow> decoder_ok d"
proof (induction rule: decoder_reachable.induct)
  case new
  then show ?case by (simp add: VtDecoder_new_def ParameterSetTracker_new_def session_follows_def)
next
  case (decode d vt data)
  have f: "decoder_ok (snd (follow_parameters vt au d))" for au using decode follow_ok by blast
  then show ?case
    using decode.IH by (auto simp: decode_picture_def decode_sample_keeps split: sum.split prod.split) (metis snd_conv)+
next
  case (reset d vt)
  then show ?case by (simp add: decoder_reset_def tracker_reset_def session_follows_def Let_def)
qed

text \<open>The sets in force behind an access unit that lets the call go on.\<close>

lemma follow_sets:
  assumes "decoder_ok d" and "follow_parameters vt au d = (Inr True, d')"
  obtains ps where "active_sets (vd_tracker d') = Some ps"
    and "Some (ps_sps ps) = or_opt (last_of (au_sps au)) (map_option ps_sps (active_sets (vd_tracker d)))"
    and "Some (ps_pps ps) = or_opt (last_of (au_pps au)) (map_option ps_pps (active_sets (vd_tracker d)))"
proof -
  obtain dec t where o: "observe au (vd_tracker d) = (dec, t)" by fastforce
  have keep: "active_sets (vd_tracker (snd (decoder_rebuild vt ps e))) = active_sets (vd_tracker e)"
    if "fst (decoder_rebuild vt ps e) = Inr ()" for ps and e :: "'a VtDecoder"
    using that by (auto simp: decoder_rebuild_def Let_def split: sum.splits)
  have d': "active_sets (vd_tracker d') = active_sets t" "dec \<noteq> NotReady"
    using assms(2) keep [of _ "d\<lparr>vd_tracker := t\<rparr>"]
    by (auto simp: follow_parameters_def o Let_def and_then_Inr_iff split: ParamDecision.splits if_splits option.splits prod.splits)
      (metis fst_conv snd_conv VtDecoder.select_convs(1) VtDecoder.surjective VtDecoder.update_convs(1))+
  have "dec \<noteq> NotReady \<Longrightarrow> \<exists>ps. active_sets t = Some ps \<and>
      Some (ps_sps ps) = or_opt (last_of (au_sps au)) (map_option ps_sps (active_sets (vd_tracker d))) \<and>
      Some (ps_pps ps) = or_opt (last_of (au_pps au)) (map_option ps_pps (active_sets (vd_tracker d)))"
    using o by (auto simp: observe_def or_opt_def last_of_def Let_def split: if_splits option.splits)
  with d' show ?thesis using that by metis
qed

text \<open>C7: However the decoder got where it is, a picture it returns was delivered by VideoToolbox during this call,
  by the session of the parameter sets in force: the last ones of this access unit, and for a kind it does
  not carry those of before; the session was created with the rewritten sequence set and the picture set.\<close>

theorem picture_of_newest_sets:
  assumes "decoder_reachable d" and "decode_picture vt data d = (Inr (Some p), d')"
  shows "\<exists>au ps out. from_annex_b data = Inr au \<and> has_picture au \<and> active_sets (vd_tracker d') = Some ps \<and>
    Some (ps_sps ps) = or_opt (last_of (au_sps au)) (map_option ps_sps (active_sets (vd_tracker d))) \<and>
    Some (ps_pps ps) = or_opt (last_of (au_pps au)) (map_option ps_pps (active_sets (vd_tracker d))) \<and>
    with_bt709_full_range (ps_sps ps) = Inr out \<and> vd_session d' = Some \<lparr>vs_sps = out, vs_pps = ps_pps ps\<rparr> \<and>
    (0, Some p) \<in> set (va_decode_outputs vt @ va_wait_outputs vt)"
proof -
  obtain au where au: "from_annex_b data = Inr au" using assms(2) by (auto simp: decode_picture_def split: sum.splits)
  obtain r d1 where f: "follow_parameters vt au d = (r, d1)" by fastforce
  have s: "r = Inr True" "has_picture au" "decode_sample vt d1 = (Inr (Some p), d')"
    using assms(2) by (auto simp: decode_picture_def au f split: sum.splits if_splits)
  have ok: "decoder_ok d" using assms(1) reachable_ok by blast
  obtain ps where ps: "active_sets (vd_tracker d1) = Some ps"
    "Some (ps_sps ps) = or_opt (last_of (au_sps au)) (map_option ps_sps (active_sets (vd_tracker d)))"
    "Some (ps_pps ps) = or_opt (last_of (au_pps au)) (map_option ps_pps (active_sets (vd_tracker d)))"
    using follow_sets ok f s(1) by metis
  have "decoder_ok d1" using follow_ok [OF ok, of vt au] f by simp
  moreover have "vd_session d' = vd_session d1" "vd_tracker d' = vd_tracker d1"
    using decode_sample_keeps [of vt d1] s(3) by simp_all
  moreover have "(0, Some p) \<in> set (va_decode_outputs vt @ va_wait_outputs vt)"
    using s(3) by (auto simp: decode_sample_def Let_def split: sum.splits if_splits option.splits dest!: callbacks_picture)
  ultimately show ?thesis using au s(2) ps by (auto simp: session_follows_def)
qed

text \<open>The baseline set, a picture set and a refresh: the first picture.\<close>

definition happy_answers :: "nat VtAnswers" where
  "happy_answers = \<lparr>va_format = (0, True), va_session = (0, True), va_block = (0, True), va_replace = 0,
     va_sample = (0, True), va_decode = 0, va_dropped = False, va_drop_outputs = [],
     va_decode_outputs = [(0, Some 7)], va_wait_outputs = []\<rparr>"

lemma picture_of_newest_sets_witness:
  "\<exists>d'. decode_picture happy_answers
       ([0, 0, 0, 1, 0x67, 66, 192, 13, 218, 5, 7, 228] @ [0, 0, 1, 0x68, 0xEE] @ [0, 0, 1, 0x65, 0x88]) VtDecoder_new
       = (Inr (Some 7), d') \<and>
     active_sets (vd_tracker d') = Some \<lparr>ps_sps = [0x67, 66, 192, 13, 218, 5, 7, 228], ps_pps = [0x68, 0xEE]\<rparr>"
proof -
  let ?data = "[0, 0, 0, 1, 0x67, 66, 192, 13, 218, 5, 7, 228] @ [0, 0, 1, 0x68, 0xEE] @ [0, 0, 1, 0x65, 0x88] :: u8 list"
  let ?sps = "[0x67, 66, 192, 13, 218, 5, 7, 228] :: u8 list"
  have split: "split_nals ?data = [?sps, [0x68, 0xEE], [0x65, 0x88]]"
    by (simp add: split_nals_def cut_nals_step strip_zeros_def)
  have au: "from_annex_b ?data = Inr \<lparr>au_sps = [?sps], au_pps = [[0x68, 0xEE]], au_avcc = [0, 0, 0, 2, 0x65, 0x88], au_is_idr = True\<rparr>"
    unfolding from_annex_b_def split
    by (simp add: nal_unit_type_def nal_type_defs AccessUnit_default_def u32_be_bytes_def)
  obtain out where out: "with_bt709_full_range ?sps = Inr out" using sps_rewrite_witness by blast
  have "\<exists>d'. decode_picture happy_answers ?data VtDecoder_new = (Inr (Some 7), d')"
    unfolding decode_picture_def au
    by (simp add: follow_parameters_def observe_def or_opt_def last_of_def VtDecoder_new_def ParameterSetTracker_new_def
        decoder_rebuild_def drop_decoder_session_def build_session_def format_description_def out created_def
        happy_answers_def has_picture_def decode_sample_def make_sample_def output_callback_def Let_def)
  then obtain d' where d': "decode_picture happy_answers ?data VtDecoder_new = (Inr (Some 7), d')" by blast
  then show ?thesis
    using picture_of_newest_sets [OF decoder_reachable.new d'] au
    by (auto simp: or_opt_def last_of_def VtDecoder_new_def ParameterSetTracker_new_def)
qed

subsection \<open>The header of a bitmap stream\<close>

lemma meta_u16_round_trip:
  assumes "n < 2 ^ 16"
  shows "ucast (of_nat n :: u8) + 256 * ucast (of_nat (n div 256) :: u8) = (of_nat n :: u32)"
proof -
  have "unat (of_nat m :: u8) = m mod 256" for m by (simp add: unsigned_of_nat take_bit_eq_mod)
  then have low: "ucast (of_nat m :: u8) = (of_nat (m mod 256) :: u32)" for m
    by (simp add: word_unat_eq_iff unsigned_ucast_eq unsigned_of_nat take_bit_eq_mod)
  have "n div 256 mod 256 = n div 256" using assms by simp
  then have "ucast (of_nat n :: u8) + 256 * ucast (of_nat (n div 256) :: u8) = (of_nat (n mod 256) + 256 * of_nat (n div 256) :: u32)"
    by (simp only: low)
  also have "\<dots> = (of_nat (n mod 256 + 256 * (n div 256)) :: u32)" by (simp only: of_nat_add of_nat_mult of_nat_numeral)
  finally show ?thesis by simp
qed

lemma length_region_bytes [simp]: "length (region_bytes r) = 8"
  by (simp add: region_bytes_def meta_u16_bytes_def)

lemma length_quant_bytes [simp]: "length (quant_bytes r) = 2"
  by (simp add: quant_bytes_def)

lemma nth_concat_fixed:
  assumes "\<forall>x \<in> set xs. length (f x) = k" and "i < length xs" and "j < k"
  shows "concat (map f xs) ! (i * k + j) = f (xs ! i) ! j"
  using assms
proof (induction xs arbitrary: i)
  case (Cons x xs)
  show ?case
  proof (cases i)
    case 0
    then show ?thesis using Cons.prems by (simp add: nth_append)
  next
    case (Suc i')
    then show ?thesis using Cons by (simp add: nth_append add.assoc)
  qed
qed simp

lemma length_concat_fixed: "\<forall>x \<in> set xs. length (f x) = k \<Longrightarrow> length (concat (map f xs)) = length xs * k"
  by (induction xs) auto

lemma le_value_u32:
  assumes "n < 2 ^ 32"
  shows "le_value [of_nat n, of_nat (n div 256), of_nat (n div 65536), of_nat (n div 16777216)] = n"
proof -
  have "unat (of_nat m :: u8) = m mod 256" for m by (simp add: unsigned_of_nat take_bit_eq_mod)
  moreover have "n div 16777216 mod 256 = n div 16777216" using assms by simp
  ultimately show ?thesis using nat_bytes [of n] by (simp add: le_value_def)
qed

lemma region_round_trip:
  assumes "unat (rect_x r) + unat (rect_width r) < 2 ^ 16" and "unat (rect_y r) + unat (rect_height r) < 2 ^ 16"
    and "\<And>j. j < 8 \<Longrightarrow> data ! (4 + i * 8 + j) = region_bytes r ! j"
  shows "meta_region data i = Inr r"
proof -
  have b: "data ! (4 + i * 8) = region_bytes r ! 0" "data ! (5 + i * 8) = region_bytes r ! 1"
    "data ! (6 + i * 8) = region_bytes r ! 2" "data ! (7 + i * 8) = region_bytes r ! 3"
    "data ! (8 + i * 8) = region_bytes r ! 4" "data ! (9 + i * 8) = region_bytes r ! 5"
    "data ! (10 + i * 8) = region_bytes r ! 6" "data ! (11 + i * 8) = region_bytes r ! 7"
    using assms(3) [of 0] assms(3) [of 1] assms(3) [of 2] assms(3) [of 3] assms(3) [of 4] assms(3) [of 5]
      assms(3) [of 6] assms(3) [of 7] by (simp_all add: algebra_simps)
  have u: "unat (rect_x r) < 2 ^ 16" "unat (rect_y r) < 2 ^ 16" using assms(1,2) by linarith+
  note edge = meta_u16_round_trip [OF u(1)] meta_u16_round_trip [OF u(2)]
    meta_u16_round_trip [OF assms(1)] meta_u16_round_trip [OF assms(2)]
  have le: "rect_x r \<le> rect_x r + rect_width r" "rect_y r \<le> rect_y r + rect_height r"
    using assms(1,2) by (simp_all add: word_le_nat_alt unat_add_no_wrap)
  have "meta_u16 data (4 + i * 8) = rect_x r" "meta_u16 data (6 + i * 8) = rect_y r"
    "meta_u16 data (8 + i * 8) = rect_x r + rect_width r" "meta_u16 data (10 + i * 8) = rect_y r + rect_height r"
    using edge by (simp_all add: meta_u16_def b region_bytes_def meta_u16_bytes_def)
  then show ?thesis
    using le by (simp add: meta_region_def from_ltrb_Some_iff algebra_simps Let_def)
qed

lemma quant_round_trip:
  assumes "qq_qp q < 64" and "data ! (4 + n * 8 + i * 2) = quant_bytes q ! 0" and "data ! (4 + n * 8 + i * 2 + 1) = quant_bytes q ! 1"
  shows "meta_quant data n i = q"
proof -
  have qp: "take_bit 6 (qq_qp q) = qq_qp q"
    using assms(1) by (simp add: word_unat_eq_iff [where v = "take_bit 6 _"] unsigned_take_bit_eq take_bit_nat_eq_self word_less_nat_alt)
  have m: "and x 0x3F = take_bit 6 x" for x :: u8
    by (simp add: take_bit_eq_mask mask_eq_exp_minus_1)
  have "take_bit 6 (or (qq_qp q) (if qq_progressive q then 0x80 else 0)) = qq_qp q"
    by (simp add: qp)
  moreover have "\<not> bit (qq_qp q) 7"
    using qp by (metis bit_take_bit_iff numeral_less_iff semiring_norm(78) semiring_norm(81) not_less_iff_gr_or_eq)
  then have "bit (or (qq_qp q) (if qq_progressive q then 0x80 else 0)) 7 = qq_progressive q"
    by (simp add: bit_or_iff bit_128)
  ultimately show ?thesis
    using assms(2,3) mask_bit [of 0] by (simp add: meta_quant_def quant_bytes_def m Let_def)
qed

text \<open>The header of a bitmap stream, written as the format prescribes (exclusive edges in 16 bits, quantiser below 64,
  the progressive flag in bit 7), is read back exactly, and what follows it is left for the decoder.\<close>

theorem metablock_round_trip:
  assumes "stream_ok m"
  shows "parse_avc420_bitmap_stream (stream_bytes m rest) = Inr (m, rest)"
proof -
  let ?n = "length (mb_regions m)" and ?data = "stream_bytes m rest"
  let ?R = "concat (map region_bytes (mb_regions m))" and ?Q = "concat (map quant_bytes (mb_quant_quality m))"
  define hdr :: "u8 list" where "hdr = [of_nat ?n, of_nat (?n div 256), of_nat (?n div 65536), of_nat (?n div 16777216)]"
  have data: "?data = hdr @ ?R @ ?Q @ rest" by (simp add: stream_bytes_def hdr_def Let_def)
  have "?n < 2 ^ 32" using assms by (simp add: stream_ok_def)
  then have hdr: "length hdr = 4" "le_value hdr = ?n" using le_value_u32 [of ?n] by (simp_all add: hdr_def)
  have len: "length ?R = ?n * 8" "length ?Q = ?n * 2"
    using assms by (simp_all add: length_concat_fixed [where k = 8] length_concat_fixed [where k = 2] stream_ok_def)
  have region: "meta_region ?data i = Inr (mb_regions m ! i)" if "i < ?n" for i
  proof (rule region_round_trip)
    show "?data ! (4 + i * 8 + j) = region_bytes (mb_regions m ! i) ! j" if j: "j < 8" for j
    proof -
      have "i * 8 + j < length ?R" using \<open>i < ?n\<close> j len by linarith
      then have "?data ! (4 + i * 8 + j) = ?R ! (i * 8 + j)" by (simp add: data hdr nth_append add.assoc)
      then show ?thesis using nth_concat_fixed [of "mb_regions m" region_bytes 8 i j] \<open>i < ?n\<close> j by simp
    qed
  qed (use assms nth_mem [OF that] in \<open>auto simp: stream_ok_def\<close>)
  have quant: "meta_quant ?data ?n i = mb_quant_quality m ! i" if "i < ?n" for i
  proof -
    have q: "i < length (mb_quant_quality m)" using that assms by (simp add: stream_ok_def)
    have "?data ! (4 + ?n * 8 + i * 2 + j) = quant_bytes (mb_quant_quality m ! i) ! j" if j: "j < 2" for j
    proof -
      have "i * 2 + j < length ?Q" using \<open>i < ?n\<close> j len by linarith
      then have "?data ! (4 + ?n * 8 + i * 2 + j) = ?Q ! (i * 2 + j)" by (simp add: data hdr len nth_append add.assoc)
      then show ?thesis using nth_concat_fixed [of "mb_quant_quality m" quant_bytes 2 i j] q j by simp
    qed
    from this [of 0] this [of 1] show ?thesis
      using assms nth_mem [OF q] by (intro quant_round_trip) (auto simp: stream_ok_def)
  qed
  have "try_map (meta_region ?data) [0..<?n] = Inr (mb_regions m)"
    using region by (simp add: try_map_Inr_iff list_all2_conv_all_nth)
  moreover have "map (meta_quant ?data ?n) [0..<?n] = mb_quant_quality m"
    using quant assms by (intro nth_equalityI) (simp_all add: stream_ok_def)
  moreover have "?n < 2 ^ 32" using assms by (simp add: stream_ok_def)
  moreover have "length ?data = 4 + ?n * 10 + length rest" "take 4 ?data = hdr" "drop (?n * 10 + 4) ?data = rest"
    using len hdr by (simp_all add: data)
  ultimately show ?thesis by (simp add: parse_avc420_bitmap_stream_def hdr Let_def)
qed

lemma metablock_round_trip_witness:
  "stream_bytes \<lparr>mb_regions = [Rect_new 1792 1056 16 16],
      mb_quant_quality = [\<lparr>qq_qp = 22, qq_progressive = True, qq_quality = 100\<rparr>]\<rparr> [0, 0, 1]
     = [1, 0, 0, 0, 0, 7, 0x20, 4, 0x10, 7, 0x30, 4, 0x96, 100, 0, 0, 1] \<and>
   parse_avc420_bitmap_stream [1, 0, 0, 0, 0, 7, 0x20, 4, 0x10, 7, 0x30, 4, 0x96, 100, 0, 0, 1] =
     Inr (\<lparr>mb_regions = [Rect_new 1792 1056 16 16],
       mb_quant_quality = [\<lparr>qq_qp = 22, qq_progressive = True, qq_quality = 100\<rparr>]\<rparr>, [0, 0, 1])"
proof -
  let ?m = "\<lparr>mb_regions = [Rect_new 1792 1056 16 16],
      mb_quant_quality = [\<lparr>qq_qp = 22, qq_progressive = True, qq_quality = 100\<rparr>]\<rparr>"
  have "stream_ok ?m" by (simp add: stream_ok_def Rect_new_def)
  moreover have "stream_bytes ?m [0, 0, 1] = [1, 0, 0, 0, 0, 7, 0x20, 4, 0x10, 7, 0x30, 4, 0x96, 100, 0, 0, 1]"
    by (simp add: stream_bytes_def region_bytes_def quant_bytes_def meta_u16_bytes_def Rect_new_def)
  ultimately show ?thesis using metablock_round_trip [of ?m "[0, 0, 1]"] by simp
qed

end
