(* ===== verification/Video_Encode.thy ===== *)
theory Video_Encode
  imports Video_Decode
begin

text \<open>
  \<open>crates/drift-video/src\<close>: the timestamps, sessions and outputs of the recording encoder (\<open>encode.rs\<close>) and
  the recorder with its MP4 writer (\<open>mp4.rs\<close>). The answers of VideoToolbox, CoreMedia and AVFoundation to
  the calls of one operation are parameters; the calls that matter to a session are kept in a log.
\<close>

subsection \<open>Configuration and timestamps\<close>

datatype EncodeError = EncOs string int | NonMonotonic duration duration | InvalidFrame string | BadSample string
  | BadSampleNals AnnexBError

record EncoderConfig =
  enc_size :: "u32 Size"
  average_bitrate :: u32
  max_keyframe_interval :: duration
  expected_fps :: u32

definition EncoderConfig_new :: "u32 Size \<Rightarrow> EncoderConfig" where
  "EncoderConfig_new sz =
     \<lparr>enc_size = sz, average_bitrate = 8000000, max_keyframe_interval = duration_secs 2, expected_fps = 60\<rparr>"

definition max_keyframe_interval_frames :: "EncoderConfig \<Rightarrow> u32" where
  "max_keyframe_interval_frames c =
     (let frames = unat (expected_fps c) * as_millis (max_keyframe_interval c) div 1000
      in max (if frames < 2 ^ 32 then of_nat frames else - 1) 1)"

record Timeline =
  tl_origin :: "instant option"
  tl_last :: "duration option"

definition Timeline_new :: Timeline where
  "Timeline_new = \<lparr>tl_origin = None, tl_last = None\<rparr>"

definition timeline_pts :: "instant \<Rightarrow> Timeline \<Rightarrow> (EncodeError, duration) result \<times> Timeline" where
  "timeline_pts at line =
     (let origin = (case tl_origin line of None \<Rightarrow> at | Some t \<Rightarrow> t);
          line = line\<lparr>tl_origin := Some origin\<rparr>;
          pts = duration_since at origin
      in case tl_last line of
           Some previous \<Rightarrow> if pts \<le> previous then (Inl (NonMonotonic pts previous), line) else (Inr pts, line\<lparr>tl_last := Some pts\<rparr>)
         | None \<Rightarrow> (Inr pts, line\<lparr>tl_last := Some pts\<rparr>))"

fun keyframe_gaps :: "duration list \<Rightarrow> duration list" where
  "keyframe_gaps (a # b # rest) = (b - a) # keyframe_gaps (b # rest)"
| "keyframe_gaps _ = []"

subsection \<open>Encoded frames\<close>

text \<open>What CoreMedia answers about a sample; a parameter set is \<open>None\<close> when it cannot be read.\<close>

record EncSample =
  es_pts :: "duration option"
  es_data :: "u8 list option"
  es_copy :: int
  es_format :: bool
  es_sets :: "nat \<Rightarrow> int \<times> u8 list option"

record EncodedFrame =
  ef_sample :: EncSample
  ef_avcc :: "u8 list"
  ef_pts :: duration
  ef_keyframe :: bool

definition parameter_set :: "EncSample \<Rightarrow> nat \<Rightarrow> (EncodeError, u8 list) result" where
  "parameter_set s index =
     (case es_sets s index of
        (status, Some ps) \<Rightarrow> if status \<noteq> 0 then Inl (EncOs ''CMVideoFormatDescriptionGetH264ParameterSetAtIndex'' status) else Inr ps
      | (status, None) \<Rightarrow> Inl (EncOs ''CMVideoFormatDescriptionGetH264ParameterSetAtIndex'' status))"

definition frame_parameter_sets :: "EncodedFrame \<Rightarrow> (EncodeError, ParameterSets) result" where
  "frame_parameter_sets f =
     (if \<not> es_format (ef_sample f) then Inl (BadSample ''no format description'')
      else and_then (parameter_set (ef_sample f) 0) (\<lambda>sps.
           and_then (parameter_set (ef_sample f) 1) (\<lambda>pps. Inr \<lparr>ps_sps = sps, ps_pps = pps\<rparr>)))"

definition map_error :: "('e \<Rightarrow> 'f) \<Rightarrow> ('e, 'a) result \<Rightarrow> ('f, 'a) result" where
  "map_error f r = (case r of Inl e \<Rightarrow> Inl (f e) | Inr a \<Rightarrow> Inr a)"

definition to_annex_b :: "EncodedFrame \<Rightarrow> (EncodeError, u8 list) result" where
  "to_annex_b f =
     and_then (if ef_keyframe f
       then and_then (frame_parameter_sets f) (\<lambda>ps.
         Inr ([0, 0, 0, 1] @ ps_sps ps @ [0, 0, 0, 1] @ ps_pps ps))
       else Inr []) (\<lambda>sets.
     and_then (map_error BadSampleNals (avcc_to_annex_b (ef_avcc f) 4)) (\<lambda>body.
       Inr ([0, 0, 0, 1, 0x09, 0xF0] @ sets @ body)))"

definition frame_from_sample :: "EncSample \<Rightarrow> (EncodeError, EncodedFrame) result" where
  "frame_from_sample s =
     (case es_pts s of
        None \<Rightarrow> Inl (BadSample ''invalid presentation time'')
      | Some pts \<Rightarrow>
          (case es_data s of
             None \<Rightarrow> Inl (BadSample ''no data'')
           | Some avcc \<Rightarrow>
               if avcc \<noteq> [] \<and> es_copy s \<noteq> 0 then Inl (EncOs ''CMBlockBufferCopyDataBytes'' (es_copy s))
               else and_then (map_error BadSampleNals (avcc_nals avcc 4)) (\<lambda>nals.
                 Inr \<lparr>ef_sample = s, ef_avcc = avcc, ef_pts = pts,
                   ef_keyframe = list_ex (\<lambda>n. nal_unit_type n = Some NAL_IDR) nals\<rparr>)))"

subsection \<open>The encoder\<close>

text \<open>The settings of a compression session.\<close>

record EncSettings =
  set_size :: "u32 Size"
  set_bitrate :: nat
  set_gop :: duration
  set_gop_frames :: nat
  set_fps :: nat

definition i32_or :: "nat \<Rightarrow> u32 \<Rightarrow> nat" where
  "i32_or d v = (if unat v < 2 ^ 31 then unat v else d)"

definition session_settings :: "EncoderConfig \<Rightarrow> EncSettings" where
  "session_settings c =
     \<lparr>set_size = enc_size c, set_bitrate = i32_or (2 ^ 31 - 1) (average_bitrate c), set_gop = max_keyframe_interval c,
      set_gop_frames = i32_or (2 ^ 31 - 1) (max_keyframe_interval_frames c), set_fps = i32_or 60 (expected_fps c)\<rparr>"

text \<open>The calls of one operation that change what VideoToolbox holds: a session made ready, and a frame submitted.\<close>

datatype VtCall = CreateSession EncSettings | SubmitFrame "u32 Size" duration bool int

record EncAnswers =
  ea_complete :: int
  ea_complete_outputs :: "(int \<times> EncSample option) list"
  ea_drop_outputs :: "(int \<times> EncSample option) list"
  ea_create :: "int \<times> bool"
  ea_properties :: "int list"
  ea_prepare :: int
  ea_encode :: int
  ea_encode_outputs :: "(int \<times> EncSample option) list"

record VtEncoder =
  ve_config :: EncoderConfig
  ve_timeline :: Timeline
  ve_session :: "u32 Size option"
  ve_builds :: u64
  ve_force_keyframe :: bool
  ve_outputs :: "(int + EncSample) list"
  ve_calls :: "VtCall list"

definition os_status :: "string \<Rightarrow> int \<Rightarrow> (EncodeError, unit) result" where
  "os_status call status = (if status = 0 then Inr () else Inl (EncOs call status))"

definition encoder_callback :: "VtEncoder \<Rightarrow> int \<times> EncSample option \<Rightarrow> VtEncoder" where
  "encoder_callback e out =
     (case out of
        (status, Some s) \<Rightarrow> e\<lparr>ve_outputs := ve_outputs e @ [if status = 0 then Inr s else Inl status]\<rparr>
      | (status, None) \<Rightarrow> if status = 0 then e else e\<lparr>ve_outputs := ve_outputs e @ [Inl status]\<rparr>)"

definition create_session :: "EncAnswers \<Rightarrow> EncoderConfig \<Rightarrow> (EncodeError, EncSettings) result" where
  "create_session vt c =
     (if 2 ^ 31 \<le> unat (width (enc_size c)) then Inl (InvalidFrame ''width'')
      else if 2 ^ 31 \<le> unat (height (enc_size c)) then Inl (InvalidFrame ''height'')
      else and_then (os_status ''VTCompressionSessionCreate'' (fst (ea_create vt))) (\<lambda>_.
        if \<not> snd (ea_create vt) then Inl (EncOs ''VTCompressionSessionCreate'' (- 1))
        else (case find (\<lambda>s. s \<noteq> 0) (take 10 (ea_properties vt)) of
            Some status \<Rightarrow> Inl (EncOs ''VTSessionSetProperty'' status)
          | None \<Rightarrow> and_then (os_status ''VTCompressionSessionPrepareToEncodeFrames'' (ea_prepare vt)) (\<lambda>_.
              Inr (session_settings c)))))"

text \<open>Dropping a session completes its frames once more.\<close>

definition encoder_rebuild :: "EncAnswers \<Rightarrow> u32 Size \<Rightarrow> VtEncoder \<Rightarrow> (EncodeError, unit) result \<times> VtEncoder" where
  "encoder_rebuild vt sz e =
     (let e = (if ve_session e = None then e else foldl encoder_callback e (ea_drop_outputs vt))\<lparr>ve_session := None\<rparr>;
          config = (ve_config e)\<lparr>enc_size := sz\<rparr>
      in case create_session vt config of
           Inl err \<Rightarrow> (Inl err, e)
         | Inr settings \<Rightarrow>
             (Inr (), e\<lparr>ve_session := Some sz, ve_config := config, ve_builds := ve_builds e + 1,
                ve_force_keyframe := True, ve_calls := ve_calls e @ [CreateSession settings]\<rparr>))"

definition drain_outputs :: "VtEncoder \<Rightarrow> (EncodeError, EncodedFrame list) result \<times> VtEncoder" where
  "drain_outputs e =
     (try_map (\<lambda>r. case r of
         Inl status \<Rightarrow> Inl (EncOs ''VTCompressionOutputCallback'' status)
       | Inr s \<Rightarrow> frame_from_sample s) (ve_outputs e),
      e\<lparr>ve_outputs := []\<rparr>)"

definition finish_session :: "EncAnswers \<Rightarrow> VtEncoder \<Rightarrow> (EncodeError, unit) result \<times> VtEncoder" where
  "finish_session vt e =
     (os_status ''VTCompressionSessionCompleteFrames'' (ea_complete vt), foldl encoder_callback e (ea_complete_outputs vt))"

definition VtEncoder_new :: "EncAnswers \<Rightarrow> EncoderConfig \<Rightarrow> (EncodeError, VtEncoder) result" where
  "VtEncoder_new vt config =
     (case encoder_rebuild vt (enc_size config)
        \<lparr>ve_config = config, ve_timeline = Timeline_new, ve_session = None, ve_builds = 0, ve_force_keyframe = True,
         ve_outputs = [], ve_calls = []\<rparr> of
        (Inl err, _) \<Rightarrow> Inl err
      | (Inr _, e) \<Rightarrow> Inr e)"

text \<open>A session for the size of the frame.\<close>

definition session_for :: "EncAnswers \<Rightarrow> u32 Size \<Rightarrow> VtEncoder \<Rightarrow> (EncodeError, unit) result \<times> VtEncoder" where
  "session_for vt sz e =
     (if ve_session e = Some sz then (Inr (), e)
      else (case (if ve_session e = None then (Inr (), e) else finish_session vt e) of
          (Inl err, e) \<Rightarrow> (Inl err, e)
        | (Inr _, e) \<Rightarrow> encoder_rebuild vt sz e))"

definition submit_frame :: "EncAnswers \<Rightarrow> u32 Size \<Rightarrow> duration \<Rightarrow> VtEncoder \<Rightarrow> (EncodeError, EncodedFrame list) result \<times> VtEncoder" where
  "submit_frame vt sz pts e =
     (if ve_session e = None then (Inl (InvalidFrame ''no compression session''), e)
      else if 2 ^ 63 \<le> pts div 1000 then (Inl (InvalidFrame ''pts overflow''), e)
      else let e = (foldl encoder_callback e (ea_encode_outputs vt))
               \<lparr>ve_calls := ve_calls e @ [SubmitFrame sz (pts div 1000) (ve_force_keyframe e) (ea_encode vt)]\<rparr>
        in case os_status ''VTCompressionSessionEncodeFrame'' (ea_encode vt) of
             Inl err \<Rightarrow> (Inl err, e)
           | Inr _ \<Rightarrow> drain_outputs (e\<lparr>ve_force_keyframe := False\<rparr>))"

definition encoder_encode ::
  "EncAnswers \<Rightarrow> u32 Size \<Rightarrow> instant \<Rightarrow> VtEncoder \<Rightarrow> (EncodeError, EncodedFrame list) result \<times> VtEncoder" where
  "encoder_encode vt sz at e =
     (if width sz = 0 \<or> height sz = 0 then (Inl (InvalidFrame ''empty frame''), e)
      else (case timeline_pts at (ve_timeline e) of
          (Inl err, line) \<Rightarrow> (Inl err, e\<lparr>ve_timeline := line\<rparr>)
        | (Inr pts, line) \<Rightarrow>
            (case session_for vt sz (e\<lparr>ve_timeline := line\<rparr>) of
               (Inl err, e) \<Rightarrow> (Inl err, e)
             | (Inr _, e) \<Rightarrow> submit_frame vt sz pts e)))"

definition encoder_flush :: "EncAnswers \<Rightarrow> VtEncoder \<Rightarrow> (EncodeError, EncodedFrame list) result \<times> VtEncoder" where
  "encoder_flush vt e =
     (case (if ve_session e = None then (Inr (), e) else finish_session vt e) of
        (Inl err, e) \<Rightarrow> (Inl err, e)
      | (Inr _, e) \<Rightarrow> drain_outputs e)"

inductive encoder_reachable :: "VtEncoder \<Rightarrow> bool" where
  new: "VtEncoder_new vt config = Inr e \<Longrightarrow> encoder_reachable e"
| encode: "encoder_reachable e \<Longrightarrow> encoder_reachable (snd (encoder_encode vt sz at e))"
| flush: "encoder_reachable e \<Longrightarrow> encoder_reachable (snd (encoder_flush vt e))"

text \<open>
  The protocol of the calls: a frame goes to the session last created, which has its size; keyframes are
  forced exactly until the first frame that the session accepts; timestamps never go back.
\<close>

record CallState =
  cs_size :: "u32 Size option"
  cs_force :: bool
  cs_time :: "duration option"

fun call_allowed :: "VtCall \<Rightarrow> CallState \<Rightarrow> bool" where
  "call_allowed (CreateSession _) s = True"
| "call_allowed (SubmitFrame sz t forced status) s =
     (cs_size s = Some sz \<and> forced = cs_force s \<and> (case cs_time s of None \<Rightarrow> True | Some u \<Rightarrow> u \<le> t))"

fun after_call :: "VtCall \<Rightarrow> CallState \<Rightarrow> CallState" where
  "after_call (CreateSession settings) s = s\<lparr>cs_size := Some (set_size settings), cs_force := True\<rparr>"
| "after_call (SubmitFrame sz t forced status) s = s\<lparr>cs_force := (cs_force s \<and> status \<noteq> 0), cs_time := Some t\<rparr>"

fun calls_allowed :: "CallState \<Rightarrow> VtCall list \<Rightarrow> bool" where
  "calls_allowed s [] = True"
| "calls_allowed s (c # cs) = (call_allowed c s \<and> calls_allowed (after_call c s) cs)"

definition CallState_start :: CallState where
  "CallState_start = \<lparr>cs_size = None, cs_force = True, cs_time = None\<rparr>"

end
