(* ===== verification/Video_Recorder.thy ===== *)
theory Video_Recorder
  imports Video_Encode
begin

text \<open>
  \<open>crates/drift-video/src/mp4.rs\<close>: the recorder with its events and the MP4 writer. What the file system and
  AVFoundation answer to the calls of one operation is a parameter.
\<close>

subsection \<open>The writer\<close>

datatype RecordingError = NotStarted | AlreadyStarted | WriterError string

definition recording_error_text :: "RecordingError \<Rightarrow> string" where
  "recording_error_text e =
     (case e of
        NotStarted \<Rightarrow> ''no recording in progress''
      | AlreadyStarted \<Rightarrow> ''a recording is already in progress''
      | WriterError msg \<Rightarrow> ''MP4 writer error: '' @ msg)"

datatype StopReason = Requested | DiskFull | WriterFailed string

datatype RemoveAnswer = Removed | NoSuchFile | RemoveFailed string

record WriterAnswers =
  wa_remove :: RemoveAnswer
  wa_utf8 :: bool
  wa_file_type :: bool
  wa_open_error :: "string option"
  wa_video_type :: bool
  wa_can_add :: bool
  wa_start_writing :: bool
  wa_ready :: "nat \<Rightarrow> bool"
  wa_append :: bool
  wa_error :: "string option"
  wa_writing :: bool
  wa_finished_in_time :: bool
  wa_completed :: bool

record Mp4Writer =
  mw_path :: string
  mw_input :: bool
  mw_frames :: nat
  mw_first_pts :: "duration option"
  mw_last_pts :: "duration option"
  mw_last_gap :: "duration option"

definition Mp4Writer_create :: "WriterAnswers \<Rightarrow> string \<Rightarrow> (RecordingError, Mp4Writer) result" where
  "Mp4Writer_create av path =
     (case wa_remove av of
        RemoveFailed e \<Rightarrow> Inl (WriterError (''removing '' @ path @ '': '' @ e))
      | _ \<Rightarrow>
          if \<not> wa_utf8 av then Inl (WriterError ''non-UTF-8 path'')
          else if \<not> wa_file_type av then Inl (WriterError ''AVFileTypeMPEG4 missing'')
          else (case wa_open_error av of
              Some e \<Rightarrow> Inl (WriterError e)
            | None \<Rightarrow> Inr \<lparr>mw_path = path, mw_input = False, mw_frames = 0, mw_first_pts = None,
                mw_last_pts = None, mw_last_gap = None\<rparr>))"

definition writer_failure :: "WriterAnswers \<Rightarrow> string \<Rightarrow> RecordingError" where
  "writer_failure av what = WriterError (case wa_error av of Some d \<Rightarrow> what @ '': '' @ d | None \<Rightarrow> what)"

definition writer_begin :: "WriterAnswers \<Rightarrow> duration \<Rightarrow> Mp4Writer \<Rightarrow> (RecordingError, Mp4Writer) result" where
  "writer_begin av pts w =
     (if \<not> wa_video_type av then Inl (WriterError ''AVMediaTypeVideo missing'')
      else if \<not> wa_can_add av then Inl (WriterError ''cannot add H.264 passthrough input'')
      else if \<not> wa_start_writing av then Inl (writer_failure av ''startWriting failed'')
      else Inr (w\<lparr>mw_first_pts := Some pts, mw_input := True\<rparr>))"

text \<open>The input is polled every millisecond, at most 201 times.\<close>

function wait_ready :: "(nat \<Rightarrow> bool) \<Rightarrow> nat \<Rightarrow> bool" where
  "wait_ready ready waited =
     (if ready waited then True else if 200 \<le> waited then False else wait_ready ready (waited + 1))"
  by auto
termination by (relation "measure (\<lambda>(_, waited). 200 - waited)") auto

declare wait_ready.simps [simp del]

definition writer_append :: "WriterAnswers \<Rightarrow> duration \<Rightarrow> Mp4Writer \<Rightarrow> (RecordingError, unit) result \<times> Mp4Writer" where
  "writer_append av pts w =
     (case (if mw_input w then Inr w else writer_begin av pts w) of
        Inl e \<Rightarrow> (Inl e, w)
      | Inr w \<Rightarrow>
          if \<not> wait_ready (wa_ready av) 0 then (Inl (writer_failure av ''writer not ready for more media data''), w)
          else if \<not> wa_append av then (Inl (writer_failure av ''appendSampleBuffer failed''), w)
          else (Inr (),
            w\<lparr>mw_last_gap := (case mw_last_pts w of None \<Rightarrow> mw_last_gap w
                               | Some l \<Rightarrow> if l \<le> pts then Some (pts - l) else None),
              mw_last_pts := Some pts, mw_frames := mw_frames w + 1\<rparr>))"

text \<open>The time at which the session of the file ends.\<close>

definition session_end :: "Mp4Writer \<Rightarrow> duration" where
  "session_end w =
     (case mw_last_pts w of None \<Rightarrow> 0 | Some l \<Rightarrow> l) + (case mw_last_gap w of None \<Rightarrow> 16667000 | Some g \<Rightarrow> g)"

definition writer_finish :: "WriterAnswers \<Rightarrow> Mp4Writer \<Rightarrow> (RecordingError, unit) result" where
  "writer_finish av w =
     (if \<not> mw_input w then Inr ()
      else if \<not> wa_writing av then Inl (writer_failure av ''writer is not writing'')
      else if \<not> wa_finished_in_time av then Inl (WriterError ''finishWriting timed out'')
      else if \<not> wa_completed av then Inl (writer_failure av ''finishWriting failed'')
      else Inr ())"

subsection \<open>The recorder\<close>

datatype RecordingEvent = Started string | Stopped string StopReason nat

datatype RecorderState = RecIdle | Recording

fun recorder_state_start :: "RecorderState \<Rightarrow> (RecordingError, RecorderState) result" where
  "recorder_state_start RecIdle = Inr Recording"
| "recorder_state_start Recording = Inl AlreadyStarted"

fun recorder_state_stop :: "RecorderState \<Rightarrow> (RecordingError, RecorderState) result" where
  "recorder_state_stop RecIdle = Inl NotStarted"
| "recorder_state_stop Recording = Inr RecIdle"

definition DEFAULT_MIN_FREE_BYTES :: u64 where
  "DEFAULT_MIN_FREE_BYTES = 256 * 1024 * 1024"

record RecordingSummary =
  sum_path :: string
  sum_frames :: nat

datatype AppendOutcome = StillRecording | RecStopped StopReason

text \<open>\<open>rec_events\<close> is what was sent to the receiver of events so far.\<close>

record Recorder =
  rec_state :: RecorderState
  rec_events :: "RecordingEvent list"
  rec_min_free :: u64
  rec_writer :: "Mp4Writer option"

definition Recorder_new :: Recorder where
  "Recorder_new = \<lparr>rec_state = RecIdle, rec_events = [], rec_min_free = DEFAULT_MIN_FREE_BYTES, rec_writer = None\<rparr>"

definition with_free_space :: "u64 \<Rightarrow> Recorder \<Rightarrow> Recorder" where
  "with_free_space min_free r = r\<lparr>rec_min_free := min_free\<rparr>"

definition rec_emit :: "RecordingEvent \<Rightarrow> Recorder \<Rightarrow> Recorder" where
  "rec_emit ev r = r\<lparr>rec_events := rec_events r @ [ev]\<rparr>"

definition recorder_start :: "WriterAnswers \<Rightarrow> string \<Rightarrow> Recorder \<Rightarrow> (RecordingError, unit) result \<times> Recorder" where
  "recorder_start av path r =
     (case recorder_state_start (rec_state r) of
        Inl e \<Rightarrow> (Inl e, r)
      | Inr next_state \<Rightarrow>
          (case Mp4Writer_create av path of
             Inl e \<Rightarrow> (Inl e, r)
           | Inr w \<Rightarrow> (Inr (), rec_emit (Started path) (r\<lparr>rec_writer := Some w, rec_state := next_state\<rparr>))))"

definition recorder_finish :: "StopReason \<Rightarrow> Recorder \<Rightarrow> Recorder" where
  "recorder_finish reason r =
     (let r = r\<lparr>rec_state := RecIdle\<rparr>
      in case rec_writer r of
           None \<Rightarrow> r
         | Some w \<Rightarrow> rec_emit (Stopped (mw_path w) reason (mw_frames w)) (r\<lparr>rec_writer := None\<rparr>))"

text \<open>\<open>probe\<close> is the answer for the free space of the volume; a failed probe does not stop the recording.\<close>

definition recorder_append ::
  "WriterAnswers \<Rightarrow> u64 option \<Rightarrow> duration \<Rightarrow> Recorder \<Rightarrow> (RecordingError, AppendOutcome) result \<times> Recorder" where
  "recorder_append av probe pts r =
     (case rec_writer r of
        None \<Rightarrow> (Inl NotStarted, r)
      | Some w \<Rightarrow>
          if (case probe of None \<Rightarrow> False | Some n \<Rightarrow> n < rec_min_free r)
          then (Inr (RecStopped DiskFull), recorder_finish DiskFull r)
          else (case writer_append av pts w of
              (res, w) \<Rightarrow>
                let r = r\<lparr>rec_writer := Some w\<rparr>
                in case res of
                     Inr _ \<Rightarrow> (Inr StillRecording, r)
                   | Inl (WriterError msg) \<Rightarrow>
                       (Inr (RecStopped (WriterFailed msg)), recorder_finish (WriterFailed msg) r)
                   | Inl e \<Rightarrow> (Inl e, r)))"

definition recorder_stop :: "WriterAnswers \<Rightarrow> Recorder \<Rightarrow> (RecordingError, RecordingSummary) result \<times> Recorder" where
  "recorder_stop av r =
     (case recorder_state_stop (rec_state r) of
        Inl e \<Rightarrow> (Inl e, r)
      | Inr _ \<Rightarrow>
          (case rec_writer r of
             None \<Rightarrow> (Inl NotStarted, r)
           | Some w \<Rightarrow>
               let r = r\<lparr>rec_writer := None, rec_state := RecIdle\<rparr>;
                   result = writer_finish av w;
                   reason = (case result of Inr _ \<Rightarrow> Requested | Inl e \<Rightarrow> WriterFailed (recording_error_text e))
               in (and_then result (\<lambda>_. Inr \<lparr>sum_path = mw_path w, sum_frames = mw_frames w\<rparr>),
                   rec_emit (Stopped (mw_path w) reason (mw_frames w)) r)))"

text \<open>A history of operations; \<open>n\<close> counts the frames appended since the last start.\<close>

inductive recorder_history :: "nat \<Rightarrow> Recorder \<Rightarrow> bool" where
  new: "recorder_history 0 (with_free_space min_free Recorder_new)"
| start: "recorder_history n r \<Longrightarrow> recorder_start av path r = (res, r') \<Longrightarrow>
    recorder_history (if res = Inr () then 0 else n) r'"
| append: "recorder_history n r \<Longrightarrow> recorder_append av probe pts r = (res, r') \<Longrightarrow>
    recorder_history (if res = Inr StillRecording then n + 1 else n) r'"
| stop: "recorder_history n r \<Longrightarrow> recorder_stop av r = (res, r') \<Longrightarrow> recorder_history n r'"

text \<open>Recordings follow one another: every start is closed by one stop of the same file before the next start.\<close>

fun events_alternate :: "string option \<Rightarrow> RecordingEvent list \<Rightarrow> bool" where
  "events_alternate cur [] = True"
| "events_alternate cur (Started path # evs) = (cur = None \<and> events_alternate (Some path) evs)"
| "events_alternate cur (Stopped path _ _ # evs) = (cur = Some path \<and> events_alternate None evs)"

end
