(* ===== verification/Video_Record_Theorems.thy ===== *)
theory Video_Record_Theorems
  imports Video_Recorder
begin

text \<open>
  Properties of the recording encoder: the protocol of its calls, and the events of the recorder.
\<close>

subsection \<open>The calls of the encoder\<close>

definition state_after :: "CallState \<Rightarrow> VtCall list \<Rightarrow> CallState" where
  "state_after s cs = foldl (\<lambda>s c. after_call c s) s cs"

lemma calls_allowed_snoc: "calls_allowed s (cs @ [c]) \<longleftrightarrow> calls_allowed s cs \<and> call_allowed c (state_after s cs)"
  by (induction cs arbitrary: s) (auto simp: state_after_def)

lemma state_after_snoc [simp]: "state_after s (cs @ [c]) = after_call c (state_after s cs)"
  by (simp add: state_after_def)

lemma callbacks_only: "\<exists>outs'. foldl encoder_callback e outs = e\<lparr>ve_outputs := outs'\<rparr>"
proof (induction outs arbitrary: e)
  case Nil
  show ?case by (intro exI [of _ "ve_outputs e"]) simp
next
  case (Cons x outs)
  have "\<exists>outs'. encoder_callback e x = e\<lparr>ve_outputs := outs'\<rparr>"
  proof -
    have "e = e\<lparr>ve_outputs := ve_outputs e\<rparr>" by simp
    then show ?thesis
      unfolding encoder_callback_def by (cases x; cases "snd x") (auto intro: exI [of _ "ve_outputs e"])
  qed
  then obtain o1 where o1: "encoder_callback e x = e\<lparr>ve_outputs := o1\<rparr>" by blast
  obtain o2 where "foldl encoder_callback (e\<lparr>ve_outputs := o1\<rparr>) outs = e\<lparr>ve_outputs := o1, ve_outputs := o2\<rparr>" using Cons.IH by blast
  then show ?case using o1 by auto
qed

lemma callbacks_keep [simp]:
  "ve_config (foldl encoder_callback e outs) = ve_config e" "ve_timeline (foldl encoder_callback e outs) = ve_timeline e"
  "ve_session (foldl encoder_callback e outs) = ve_session e" "ve_builds (foldl encoder_callback e outs) = ve_builds e"
  "ve_force_keyframe (foldl encoder_callback e outs) = ve_force_keyframe e" "ve_calls (foldl encoder_callback e outs) = ve_calls e"
  using callbacks_only [of e outs] by auto

definition calls_until :: "duration option \<Rightarrow> CallState \<Rightarrow> bool" where
  "calls_until prev s = (case cs_time s of None \<Rightarrow> True | Some t \<Rightarrow> (\<exists>l. prev = Some l \<and> t \<le> l div 1000))"

definition encoder_ok :: "VtEncoder \<Rightarrow> bool" where
  "encoder_ok e = (let s = state_after CallState_start (ve_calls e)
     in calls_allowed CallState_start (ve_calls e) \<and> calls_until (tl_last (ve_timeline e)) s \<and>
        (\<forall>sz. ve_session e = Some sz \<longrightarrow> cs_size s = Some sz \<and> cs_force s = ve_force_keyframe e))"

lemma calls_until_later: "calls_until prev s \<Longrightarrow> (\<And>l. prev = Some l \<Longrightarrow> \<exists>m. later = Some m \<and> l \<le> m) \<Longrightarrow> calls_until later s"
  unfolding calls_until_def by (fastforce split: option.splits intro: div_le_mono le_trans)

lemma timeline_later:
  assumes "timeline_pts at line = (r, line')" and "tl_last line = Some l"
  shows "\<exists>m. tl_last line' = Some m \<and> l \<le> m"
  using assms by (auto simp: timeline_pts_def Let_def split: if_splits)

lemma rebuild_encoder_ok:
  assumes "encoder_ok e"
  shows "encoder_ok (snd (encoder_rebuild vt sz e)) \<and>
    tl_last (ve_timeline (snd (encoder_rebuild vt sz e))) = tl_last (ve_timeline e) \<and>
    (fst (encoder_rebuild vt sz e) = Inr () \<longrightarrow> ve_session (snd (encoder_rebuild vt sz e)) = Some sz)"
proof -
  obtain outs where outs: "(if ve_session e = None then e else foldl encoder_callback e (ea_drop_outputs vt)) = e\<lparr>ve_outputs := outs\<rparr>"
    using callbacks_only [of e] by (cases "ve_session e = None") (auto intro: that [of "ve_outputs e"])
  show ?thesis
  proof (cases "create_session vt ((ve_config e)\<lparr>enc_size := sz\<rparr>)")
    case (Inr settings)
    then have "set_size settings = sz"
      by (auto simp: create_session_def and_then_Inr_iff session_settings_def split: if_splits option.splits)
    then show ?thesis
      using assms Inr by (simp add: encoder_rebuild_def outs encoder_ok_def calls_until_def calls_allowed_snoc Let_def)
  qed (use assms in \<open>simp add: encoder_rebuild_def outs encoder_ok_def Let_def\<close>)
qed

lemma session_for_ok:
  assumes "encoder_ok e"
  shows "encoder_ok (snd (session_for vt sz e)) \<and>
    tl_last (ve_timeline (snd (session_for vt sz e))) = tl_last (ve_timeline e) \<and>
    (fst (session_for vt sz e) = Inr () \<longrightarrow> ve_session (snd (session_for vt sz e)) = Some sz)"
proof -
  have "encoder_ok (snd (finish_session vt e))" "tl_last (ve_timeline (snd (finish_session vt e))) = tl_last (ve_timeline e)"
    using assms by (auto simp: finish_session_def encoder_ok_def Let_def)
  then show ?thesis
    using assms rebuild_encoder_ok [of e vt sz] rebuild_encoder_ok [of "snd (finish_session vt e)" vt sz]
    by (auto simp: session_for_def split: sum.splits prod.splits)
qed

lemma drain_ok [simp]: "encoder_ok (snd (drain_outputs e)) = encoder_ok e"
  by (simp add: drain_outputs_def encoder_ok_def)

lemma submit_ok:
  assumes "encoder_ok e" and "ve_session e = Some sz" and "tl_last (ve_timeline e) = Some pts"
  shows "encoder_ok (snd (submit_frame vt sz pts e))"
proof -
  let ?call = "SubmitFrame sz (pts div 1000) (ve_force_keyframe e) (ea_encode vt)"
  let ?s = "state_after CallState_start (ve_calls e)"
  have s: "calls_allowed CallState_start (ve_calls e)" "calls_until (Some pts) ?s" "cs_size ?s = Some sz"
    "cs_force ?s = ve_force_keyframe e"
    using assms by (auto simp: encoder_ok_def Let_def)
  then have ok: "calls_allowed CallState_start (ve_calls e @ [?call])"
    by (auto simp: calls_allowed_snoc calls_until_def split: option.splits)
  obtain outs where outs: "foldl encoder_callback e (ea_encode_outputs vt) = e\<lparr>ve_outputs := outs\<rparr>"
    using callbacks_only by blast
  show ?thesis
    using ok s assms
    by (cases "ea_encode vt = 0"; cases "2 ^ 63 \<le> pts div 1000")
      (simp_all add: submit_frame_def outs os_status_def drain_outputs_def encoder_ok_def calls_until_def Let_def)
qed

text \<open>C15: In every history of the encoder, failures included, each frame goes to the session last created, which has
  the size of the frame; the first frame of a session, and every one until VideoToolbox accepts one, is
  forced to be a keyframe, and no later one is; and the timestamps it is given never go back.\<close>

theorem encoder_call_protocol:
  assumes "encoder_reachable e"
  shows "calls_allowed CallState_start (ve_calls e)"
proof -
  have "encoder_ok e"
    using assms
  proof (induction rule: encoder_reachable.induct)
    case (new vt config e)
    have "encoder_ok \<lparr>ve_config = config, ve_timeline = Timeline_new, ve_session = None, ve_builds = 0, ve_force_keyframe = True,
         ve_outputs = [], ve_calls = []\<rparr>"
      by (simp add: encoder_ok_def calls_until_def state_after_def CallState_start_def)
    from rebuild_encoder_ok [OF this] show ?case
      using new by (auto simp: VtEncoder_new_def split: prod.splits sum.splits) (metis snd_conv)
  next
    case (encode e vt sz at)
    obtain r line where t: "timeline_pts at (ve_timeline e) = (r, line)" by fastforce
    let ?e = "e\<lparr>ve_timeline := line\<rparr>"
    have e: "encoder_ok ?e"
      using encode.IH calls_until_later timeline_later [OF t] by (fastforce simp: encoder_ok_def Let_def)
    have last: "r = Inr pts \<Longrightarrow> tl_last line = Some pts" for pts
      using t by (auto simp: timeline_pts_def Let_def split: if_splits option.splits)
    note s = session_for_ok [OF e, of vt sz]
    show ?case
    proof (cases "fst (session_for vt sz ?e)")
      case (Inl err)
      then show ?thesis using e s encode.IH
        by (auto simp: encoder_encode_def t split: sum.split prod.splits)
    next
      case (Inr u)
      then have f: "fst (session_for vt sz ?e) = Inr ()" by simp
      then show ?thesis
        using e s encode.IH last submit_ok [of "snd (session_for vt sz ?e)" sz]
        by (auto simp: encoder_encode_def t split: sum.split prod.splits)
    qed
  next
    case (flush e vt)
    have "encoder_ok (snd (finish_session vt e))"
      using flush.IH by (simp add: finish_session_def encoder_ok_def)
    then show ?case
      using flush.IH by (auto simp: encoder_flush_def split: sum.splits prod.splits)
  qed
  then show ?thesis by (simp add: encoder_ok_def Let_def)
qed

text \<open>Two frames, the second of another size.\<close>

definition easy_answers :: EncAnswers where
  "easy_answers = \<lparr>ea_complete = 0, ea_complete_outputs = [], ea_drop_outputs = [], ea_create = (0, True),
     ea_properties = [], ea_prepare = 0, ea_encode = 0, ea_encode_outputs = []\<rparr>"

lemma encoder_call_protocol_witness:
  "\<exists>e. VtEncoder_new easy_answers (EncoderConfig_new (Size_new 1280 800)) = Inr e \<and>
     (let e1 = snd (encoder_encode easy_answers (Size_new 1280 800) 5000000 e);
          e2 = snd (encoder_encode easy_answers (Size_new 640 400) 21000000 e1)
      in calls_allowed CallState_start (ve_calls e2) \<and> length (ve_calls e2) = 4)"
proof -
  obtain e where e: "VtEncoder_new easy_answers (EncoderConfig_new (Size_new 1280 800)) = Inr e"
    by (simp add: VtEncoder_new_def encoder_rebuild_def create_session_def easy_answers_def os_status_def EncoderConfig_new_def Let_def)
  let ?e1 = "snd (encoder_encode easy_answers (Size_new 1280 800) 5000000 e)"
  let ?e2 = "snd (encoder_encode easy_answers (Size_new 640 400) 21000000 ?e1)"
  have "encoder_reachable ?e2" by (intro encoder_reachable.intros) (rule e)
  from encoder_call_protocol [OF this] have ok: "calls_allowed CallState_start (ve_calls ?e2)" .
  have "e = \<lparr>ve_config = EncoderConfig_new (Size_new 1280 800), ve_timeline = Timeline_new, ve_session = Some (Size_new 1280 800),
      ve_builds = 1, ve_force_keyframe = True, ve_outputs = [],
      ve_calls = [CreateSession (session_settings (EncoderConfig_new (Size_new 1280 800)))]\<rparr>"
    using e by (simp add: VtEncoder_new_def encoder_rebuild_def create_session_def easy_answers_def os_status_def EncoderConfig_new_def Let_def)
  then have "length (ve_calls ?e2) = 4"
    by (simp add: encoder_encode_def timeline_pts_def Timeline_new_def session_for_def submit_frame_def finish_session_def
        encoder_rebuild_def create_session_def easy_answers_def os_status_def drain_outputs_def duration_since_def
        Size_new_def EncoderConfig_new_def Let_def)
  with ok e show ?thesis by (auto simp: Let_def)
qed

subsection \<open>The events of the recorder\<close>

fun open_file :: "string option \<Rightarrow> RecordingEvent list \<Rightarrow> string option" where
  "open_file cur [] = cur"
| "open_file cur (Started path # evs) = open_file (Some path) evs"
| "open_file cur (Stopped _ _ _ # evs) = open_file None evs"

lemma open_file_append [simp]: "open_file cur (evs @ evs') = open_file (open_file cur evs) evs'"
  by (induction cur evs rule: open_file.induct) simp_all

lemma events_alternate_append [simp]:
  "events_alternate cur (evs @ evs') \<longleftrightarrow> events_alternate cur evs \<and> events_alternate (open_file cur evs) evs'"
  by (induction cur evs rule: events_alternate.induct) auto






end
