(* ===== verification/Video_Planes.thy ===== *)
theory Video_Planes
  imports Core_Geometry Complex_Main
begin

text \<open>
  Pictures in memory: \<open>Nv12Planes\<close> of \<open>crates/drift-core/src/video.rs\<close>, the row copies between planes and
  pixel buffers of \<open>crates/drift-video/src/cv.rs\<close>, and \<open>quality.rs\<close>. A pixel buffer of CoreVideo is its
  size and its planes; an unsafe copy that leaves its source is an outcome of its own.
\<close>

subsection \<open>Planes\<close>

record Nv12Planes =
  nv_size :: "u32 Size"
  nv_y :: "u8 list"
  nv_uv :: "u8 list"

definition half_rows :: "nat \<Rightarrow> nat" where
  "half_rows h = (h + 1) div 2"

definition Nv12Planes_new :: "u32 Size \<Rightarrow> u8 list \<Rightarrow> u8 list \<Rightarrow> Nv12Planes option" where
  "Nv12Planes_new sz y uv =
     (let w = unat (width sz); h = unat (height sz)
      in if w mod 2 \<noteq> 0 \<or> length y \<noteq> w * h \<or> length uv \<noteq> w * half_rows h then None
         else Some \<lparr>nv_size = sz, nv_y = y, nv_uv = uv\<rparr>)"

subsection \<open>Pixel buffers\<close>

text \<open>A plane of a locked buffer: its bytes, \<open>stride\<close> of them in each of \<open>rows\<close> rows.\<close>

record CvPlane =
  pl_bytes :: "u8 list"
  pl_stride :: nat
  pl_rows :: nat

text \<open>The planes with a base address; \<open>pb_lock\<close> is the answer to locking the buffer.\<close>

record CvBuffer =
  pb_width :: nat
  pb_height :: nat
  pb_lock :: int
  pb_planes :: "CvPlane option list"

datatype CvError = NotBiPlanar | LockFailed int | MissingPlane | BadPlane nat nat nat | PlaneMismatch

text \<open>An unsafe copy: done, refused, a slice start behind the end (a panic), or a read past the source.\<close>

datatype 'a copied = Copied 'a | Refused CvError | Panicked | ReadPastEnd

definition size_of :: "CvBuffer \<Rightarrow> u32 Size" where
  "size_of pb = Size_new (if pb_width pb < 2 ^ 32 then of_nat (pb_width pb) else - 1)
     (if pb_height pb < 2 ^ 32 then of_nat (pb_height pb) else - 1)"

definition plane_row :: "CvPlane \<Rightarrow> nat \<Rightarrow> nat \<Rightarrow> u8 list" where
  "plane_row pl w row = take w (drop (row * pl_stride pl) (pl_bytes pl))"

definition plane_at :: "CvBuffer \<Rightarrow> nat \<Rightarrow> nat \<Rightarrow> nat \<Rightarrow> (CvError, CvPlane) result" where
  "plane_at pb index w rows =
     (case pb_planes pb ! index of
        None \<Rightarrow> Inl MissingPlane
      | Some pl \<Rightarrow> if pl_stride pl < w \<or> pl_rows pl < rows then Inl (BadPlane index (pl_stride pl) (pl_rows pl)) else Inr pl)"

definition read_plane :: "CvBuffer \<Rightarrow> nat \<Rightarrow> nat \<Rightarrow> nat \<Rightarrow> (CvError, u8 list) result" where
  "read_plane pb w index rows =
     and_then (plane_at pb index w rows) (\<lambda>pl. Inr (concat (map (plane_row pl w) [0..<rows])))"

definition read_nv12 :: "CvBuffer \<Rightarrow> (CvError, Nv12Planes) result" where
  "read_nv12 pb =
     (let sz = size_of pb; w = unat (width sz); h = unat (height sz)
      in if length (pb_planes pb) \<noteq> 2 then Inl NotBiPlanar
         else if pb_lock pb \<noteq> 0 then Inl (LockFailed (pb_lock pb))
         else and_then (read_plane pb w 0 h) (\<lambda>y.
              and_then (read_plane pb w 1 (half_rows h)) (\<lambda>uv.
                ok_or (Nv12Planes_new sz y uv) PlaneMismatch)))"

fun write_rows :: "u8 list \<Rightarrow> nat \<Rightarrow> CvPlane \<Rightarrow> nat list \<Rightarrow> CvPlane copied" where
  "write_rows src w pl [] = Copied pl"
| "write_rows src w pl (row # rows) =
     (if length src < row * w then Panicked
      else if length src < row * w + w then ReadPastEnd
      else write_rows src w
        (pl\<lparr>pl_bytes := take (row * pl_stride pl) (pl_bytes pl) @ take w (drop (row * w) src) @
           drop (row * pl_stride pl + w) (pl_bytes pl)\<rparr>) rows)"

fun write_planes :: "CvBuffer \<Rightarrow> nat \<Rightarrow> (nat \<times> u8 list \<times> nat) list \<Rightarrow> CvBuffer copied" where
  "write_planes pb w [] = Copied pb"
| "write_planes pb w ((index, src, rows) # rest) =
     (case plane_at pb index w rows of
        Inl e \<Rightarrow> Refused e
      | Inr pl \<Rightarrow>
          (case write_rows src w pl [0..<rows] of
             Copied pl \<Rightarrow> write_planes (pb\<lparr>pb_planes := (pb_planes pb)[index := Some pl]\<rparr>) w rest
           | Refused e \<Rightarrow> Refused e
           | Panicked \<Rightarrow> Panicked
           | ReadPastEnd \<Rightarrow> ReadPastEnd))"

definition write_nv12 :: "CvBuffer \<Rightarrow> Nv12Planes \<Rightarrow> CvBuffer copied" where
  "write_nv12 pb planes =
     (let sz = size_of pb; w = unat (width sz); h = unat (height sz)
      in if length (nv_y planes) \<noteq> w * h \<or> length (pb_planes pb) \<noteq> 2 then Refused PlaneMismatch
         else if pb_lock pb \<noteq> 0 then Refused (LockFailed (pb_lock pb))
         else write_planes pb w [(0, nv_y planes, h), (1, nv_uv planes, half_rows h)])"

subsection \<open>Quality\<close>

text \<open>The arithmetic of \<open>f64\<close> is that of the reals; \<open>None\<close> inside stands for infinity.\<close>

definition byte_diff :: "u8 \<Rightarrow> u8 \<Rightarrow> nat" where
  "byte_diff x y = (if x \<le> y then unat (y - x) else unat (x - y))"

definition squared_error :: "u8 list \<Rightarrow> u8 list \<Rightarrow> nat" where
  "squared_error a b = sum_list (map (\<lambda>(x, y). byte_diff x y ^ 2) (zip a b))"

definition psnr :: "u8 list \<Rightarrow> u8 list \<Rightarrow> real option option" where
  "psnr a b =
     (if length a \<noteq> length b \<or> a = [] then None
      else let sse = squared_error a b
        in if sse = 0 then Some None
           else Some (Some (10 * log 10 (255 * 255 / (real sse / real (length a))))))"

definition psnr_nv12 :: "Nv12Planes \<Rightarrow> Nv12Planes \<Rightarrow> real option option" where
  "psnr_nv12 a b =
     (if length (nv_y a) \<noteq> length (nv_y b) \<or> length (nv_uv a) \<noteq> length (nv_uv b) then None
      else psnr (nv_y a @ nv_uv a) (nv_y b @ nv_uv b))"

subsection \<open>Copying rows\<close>

text \<open>A buffer as CoreVideo allocates it: two planes with all their bytes, wide and high enough.\<close>

definition buffer_ok :: "CvBuffer \<Rightarrow> bool" where
  "buffer_ok pb = (pb_width pb < 2 ^ 32 \<and> pb_height pb < 2 ^ 32 \<and> pb_lock pb = 0 \<and>
     (\<exists>y uv. pb_planes pb = [Some y, Some uv] \<and>
       length (pl_bytes y) = pl_stride y * pl_rows y \<and> pb_width pb \<le> pl_stride y \<and> pb_height pb \<le> pl_rows y \<and>
       length (pl_bytes uv) = pl_stride uv * pl_rows uv \<and> pb_width pb \<le> pl_stride uv \<and> half_rows (pb_height pb) \<le> pl_rows uv))"

lemma row_room: "row < rows \<Longrightarrow> w \<le> stride \<Longrightarrow> row * stride + w \<le> stride * (rows :: nat)"
proof -
  assume "row < rows" "w \<le> stride"
  then have "row * stride + w \<le> Suc row * stride" by simp
  also have "\<dots> \<le> rows * stride" using \<open>row < rows\<close> by (intro mult_le_mono1) simp
  finally show ?thesis by (simp add: mult.commute)
qed

lemma write_rows_Copied:
  assumes "length src = w * rows" and "length (pl_bytes pl) = pl_stride pl * pl_rows pl"
    and "w \<le> pl_stride pl" and "rows \<le> pl_rows pl" and "k \<le> rows"
  shows "\<exists>pl'. write_rows src w pl [k..<rows] = Copied pl' \<and> pl_stride pl' = pl_stride pl \<and> pl_rows pl' = pl_rows pl \<and>
    length (pl_bytes pl') = length (pl_bytes pl) \<and>
    (\<forall>row < rows. plane_row pl' w row = (if k \<le> row then take w (drop (row * w) src) else plane_row pl w row))"
  using assms
proof (induction "rows - k" arbitrary: k pl)
  case 0
  then show ?case by simp
next
  case (Suc n)
  then have k: "k < rows" by simp
  let ?row = "take w (drop (k * w) src)"
  let ?pl = "pl\<lparr>pl_bytes := take (k * pl_stride pl) (pl_bytes pl) @ ?row @ drop (k * pl_stride pl + w) (pl_bytes pl)\<rparr>"
  have room: "k * w + w \<le> length src" "k * pl_stride pl + w \<le> length (pl_bytes pl)"
    using row_room [of k rows w w] row_room [of k "pl_rows pl" w "pl_stride pl"] Suc.prems k by simp_all
  then have len: "length (pl_bytes ?pl) = length (pl_bytes pl)" "length ?row = w" by auto
  have same: "plane_row ?pl w row = (if row = k then ?row else plane_row pl w row)" if "row < rows" for row
  proof -
    consider "row < k" | "row = k" | "k < row" by linarith
    then show ?thesis
    proof cases
      case 1
      then have "row * pl_stride pl + w \<le> k * pl_stride pl"
        using row_room [of row k w "pl_stride pl"] Suc.prems(3) by (simp add: mult.commute)
      then show ?thesis using 1 room by (simp add: plane_row_def drop_take)
    next
      case 2
      then show ?thesis using room by (simp add: plane_row_def)
    next
      case 3
      then have "k * pl_stride pl + w \<le> row * pl_stride pl"
        using row_room [of k row w "pl_stride pl"] Suc.prems(3) by (simp add: mult.commute)
      then show ?thesis using 3 room len by (simp add: plane_row_def)
    qed
  qed
  have "n = rows - Suc k" using Suc.hyps(2) by simp
  then obtain pl' where pl': "write_rows src w ?pl [Suc k..<rows] = Copied pl'" "pl_stride pl' = pl_stride pl" "pl_rows pl' = pl_rows pl"
    "length (pl_bytes pl') = length (pl_bytes ?pl)"
    "\<forall>row < rows. plane_row pl' w row = (if Suc k \<le> row then take w (drop (row * w) src) else plane_row ?pl w row)"
    using Suc.hyps(1) [of "Suc k" ?pl] Suc.prems k len by auto
  have "write_rows src w pl [k..<rows] = Copied pl'"
    using pl'(1) k room by (simp add: upt_conv_Cons)
  moreover have "\<forall>row < rows. plane_row pl' w row = (if k \<le> row then take w (drop (row * w) src) else plane_row pl w row)"
    using pl'(5) same by (auto simp: le_Suc_eq not_less_eq_eq)
  ultimately show ?case using pl'(2-4) len by auto
qed

lemma concat_chunks: "length src = w * rows \<Longrightarrow> concat (map (\<lambda>row. take w (drop (row * w) src)) [0..<rows]) = src"
proof (induction rows arbitrary: src)
  case (Suc rows)
  have "map (\<lambda>row. take w (drop (row * w) src)) [0..<Suc rows] =
      take w src # map (\<lambda>row. take w (drop (row * w) (drop w src))) [0..<rows]"
    by (simp add: upt_conv_Cons map_Suc_upt [symmetric] comp_def add.commute del: upt_Suc map_Suc_upt)
  moreover have "concat (map (\<lambda>row. take w (drop (row * w) (drop w src))) [0..<rows]) = drop w src"
    using Suc by (intro Suc.IH) simp
  ultimately show ?case by simp
qed simp

lemma concat_rows_cong:
  "\<forall>row < rows. f row = g row \<Longrightarrow> concat (map f [0..<rows]) = concat (map g [0..<rows])"
  by (intro arg_cong [where f = concat] map_cong) simp_all

text \<open>A picture written to a pixel buffer of its own size is read back unchanged, whatever the strides of the
  buffer and the bytes between its rows are.\<close>

theorem planes_round_trip:
  assumes "Nv12Planes_new sz y uv = Some planes" and "buffer_ok pb" and "size_of pb = sz"
  shows "\<exists>pb'. write_nv12 pb planes = Copied pb' \<and> read_nv12 pb' = Inr planes"
proof -
  let ?w = "pb_width pb" and ?h = "pb_height pb"
  obtain py puv where b: "pb_planes pb = [Some py, Some puv]" "pb_lock pb = 0"
    "length (pl_bytes py) = pl_stride py * pl_rows py" "?w \<le> pl_stride py" "?h \<le> pl_rows py"
    "length (pl_bytes puv) = pl_stride puv * pl_rows puv" "?w \<le> pl_stride puv" "half_rows ?h \<le> pl_rows puv"
    and lt: "?w < 2 ^ 32" "?h < 2 ^ 32"
    using assms(2) by (auto simp: buffer_ok_def)
  have sz: "unat (width sz) = ?w" "unat (height sz) = ?h"
    using lt by (auto simp: assms(3) [symmetric] size_of_def unsigned_of_nat take_bit_nat_eq_self)
  have p: "planes = \<lparr>nv_size = sz, nv_y = y, nv_uv = uv\<rparr>" "length y = ?w * ?h" "length uv = ?w * half_rows ?h" "?w mod 2 = 0"
    using assms(1) sz by (auto simp: Nv12Planes_new_def Let_def split: if_splits)
  obtain py' where y: "write_rows y ?w py [0..<?h] = Copied py'" "pl_stride py' = pl_stride py" "pl_rows py' = pl_rows py"
    "\<forall>row < ?h. plane_row py' ?w row = take ?w (drop (row * ?w) y)"
    using write_rows_Copied [of y ?w ?h py 0] p b by auto
  obtain puv' where uv: "write_rows uv ?w puv [0..<half_rows ?h] = Copied puv'" "pl_stride puv' = pl_stride puv" "pl_rows puv' = pl_rows puv"
    "\<forall>row < half_rows ?h. plane_row puv' ?w row = take ?w (drop (row * ?w) uv)"
    using write_rows_Copied [of uv ?w "half_rows ?h" puv 0] p b by auto
  let ?pb = "pb\<lparr>pb_planes := [Some py', Some puv']\<rparr>"
  have "write_nv12 pb planes = Copied ?pb"
    using y(1) uv(1) b p sz assms(3) by (simp add: write_nv12_def plane_at_def numeral_2_eq_2 Let_def)
  moreover have "read_nv12 ?pb = Inr planes"
  proof -
    have "size_of ?pb = size_of pb" by (simp add: size_of_def)
    then have "size_of ?pb = sz" using assms(3) by simp
    moreover have "concat (map (plane_row py' ?w) [0..<?h]) = y"
      using concat_rows_cong [OF y(4)] concat_chunks [of y ?w ?h] p(2) by simp
    moreover have "concat (map (plane_row puv' ?w) [0..<half_rows ?h]) = uv"
      using concat_rows_cong [OF uv(4)] concat_chunks [of uv ?w "half_rows ?h"] p(3) by simp
    ultimately show ?thesis
      using b y(2,3) uv(2,3) sz assms(1) by (simp add: read_nv12_def read_plane_def plane_at_def Let_def)
  qed
  ultimately show ?thesis by blast
qed

text \<open>A picture of another shape but the same area passes the check, and the copy of its chroma rows leaves the source.\<close>

lemma write_checks_area_only:
  "write_nv12 \<lparr>pb_width = 4, pb_height = 3, pb_lock = 0,
      pb_planes = [Some \<lparr>pl_bytes = replicate 12 0, pl_stride = 4, pl_rows = 3\<rparr>,
                   Some \<lparr>pl_bytes = replicate 8 0, pl_stride = 4, pl_rows = 2\<rparr>]\<rparr>
     (the (Nv12Planes_new (Size_new 6 2) (replicate 12 1) (replicate 6 2))) = ReadPastEnd"
proof -
  have "[0..<3] = [0, 1, 2 :: nat]" "[0..<2] = [0, 1 :: nat]" by (simp_all add: upt_rec)
  then show ?thesis
    by (simp add: write_nv12_def Nv12Planes_new_def size_of_def plane_at_def half_rows_def Let_def)
qed

lemma planes_round_trip_witness:
  "\<exists>pb'. write_nv12 \<lparr>pb_width = 2, pb_height = 1, pb_lock = 0,
      pb_planes = [Some \<lparr>pl_bytes = [9, 9, 9], pl_stride = 3, pl_rows = 1\<rparr>,
                   Some \<lparr>pl_bytes = [8, 8, 8, 8], pl_stride = 2, pl_rows = 2\<rparr>]\<rparr>
      \<lparr>nv_size = Size_new 2 1, nv_y = [1, 2], nv_uv = [3, 4]\<rparr> = Copied pb' \<and>
    read_nv12 pb' = Inr \<lparr>nv_size = Size_new 2 1, nv_y = [1, 2], nv_uv = [3, 4]\<rparr>"
  by (rule planes_round_trip [of "Size_new 2 1" "[1, 2]" "[3, 4]"])
    (simp_all add: Nv12Planes_new_def half_rows_def buffer_ok_def size_of_def Let_def)

lemma abs_diff_0: "byte_diff x y = 0 \<longleftrightarrow> x = y"
  by (auto simp: byte_diff_def unsigned_eq_0_iff)

lemma abs_diff_le: "byte_diff x y \<le> 255"
proof -
  have "unat z \<le> 255" for z :: u8 using unsigned_less [of z, where 'a = nat] by simp
  then show ?thesis by (simp add: byte_diff_def)
qed

lemma squared_error_bound: "length a = length b \<Longrightarrow> squared_error a b \<le> 65025 * length a"
proof (induction a b rule: list_induct2)
  case (Cons x xs y ys)
  have "byte_diff x y ^ 2 \<le> 255 ^ 2" using abs_diff_le by (rule power_mono) simp
  with Cons show ?case by (simp add: squared_error_def)
qed (simp add: squared_error_def)

lemma squared_error_0: "length a = length b \<Longrightarrow> squared_error a b = 0 \<longleftrightarrow> a = b"
proof (induction a b rule: list_induct2)
  case (Cons x xs y ys)
  then show ?case by (simp add: squared_error_def abs_diff_0)
qed (simp add: squared_error_def)

text \<open>The quality of a picture is defined exactly against a picture of the same length, infinite exactly for equal
  samples, and never negative.\<close>

theorem psnr_range:
  "(psnr a b = None \<longleftrightarrow> length a \<noteq> length b \<or> a = []) \<and>
   (psnr a b = Some None \<longleftrightarrow> a \<noteq> [] \<and> a = b) \<and>
   (case psnr a b of Some (Some q) \<Rightarrow> 0 \<le> q | _ \<Rightarrow> True)"
proof (cases "length a \<noteq> length b \<or> a = []")
  case False
  then have ab: "length a = length b" "a \<noteq> []" by auto
  have "0 \<le> 10 * log 10 (255 * 255 / (real (squared_error a b) / real (length a)))" if "squared_error a b \<noteq> 0"
  proof -
    have "real (squared_error a b) \<le> 65025 * real (length a)"
      using squared_error_bound [OF ab(1)] by (metis of_nat_le_iff of_nat_mult of_nat_numeral)
    then have "1 \<le> 255 * 255 / (real (squared_error a b) / real (length a))"
      using that ab(2) by (simp add: field_simps)
    then show ?thesis by (simp add: zero_le_log_cancel_iff)
  qed
  then show ?thesis using ab squared_error_0 [OF ab(1)] by (auto simp: psnr_def Let_def)
qed (auto simp: psnr_def)

end
