(* ===== verification/Core_Messages.thy ===== *)
theory Core_Messages
  imports Core_State Core_Profile
begin

text \<open>
  \<open>crates/drift-core/src/messages.rs\<close>: what the user reads when a session ends. The texts are the code's, with
  their typographic characters as code points (8217 and 8220, 8221 are the quotes, 8250 the menu arrow, 8212 the dash).
\<close>

datatype ErrorAction = Reconnect | EditProfile | OpenLocalNetworkSettings | Close

record ErrorExplanation =
  ex_title :: rstr
  ex_message :: rstr
  ex_next_steps :: "rstr list"
  ex_actions :: "ErrorAction list"

definition explanation :: "rstr \<Rightarrow> rstr \<Rightarrow> rstr list \<Rightarrow> ErrorAction list \<Rightarrow> ErrorExplanation" where
  "explanation title msg steps actions =
     \<lparr>ex_title = title, ex_message = msg, ex_next_steps = steps, ex_actions = actions\<rparr>"

definition LOCAL_NETWORK_SETTINGS_PATH :: rstr where
  "LOCAL_NETWORK_SETTINGS_PATH = lit ''System Settings '' @ [8250] @ lit '' Privacy & Security '' @ [8250] @ lit '' Local Network''"

fun credential_hint :: "ConnectMode \<Rightarrow> rstr" where
  "credential_hint RemoteLogin =
     lit ''Use the system RDP credentials: on the host run '' @ [8220] @ lit ''sudo grdctl --system status --show-credentials'' @ [8221] @ lit ''.''"
| "credential_hint Headless =
     lit ''Use the credentials set with '' @ [8220] @ lit ''grdctl --headless rdp set-credentials'' @ [8221] @ lit '' for that user on the host.''"
| "credential_hint DesktopSharing =
     lit ''Desktop Sharing credentials must be set in GNOME Settings on the host.''"

fun service_hint :: "ConnectMode \<Rightarrow> rstr" where
  "service_hint RemoteLogin =
     lit ''Check that Remote Login is enabled on the host: '' @ [8220] @ lit ''sudo grdctl --system status'' @ [8221] @ lit ''.''"
| "service_hint Headless =
     lit ''Headless session not running '' @ [8212] @ lit '' see host/drift-host-setup.sh.''"
| "service_hint DesktopSharing =
     lit ''Check that Desktop Sharing is on in GNOME Settings '' @ [8250] @ lit '' System '' @ [8250] @ lit '' Remote Desktop and that someone is logged in on the host.''"

fun fingerprint_hint :: "ConnectMode \<Rightarrow> rstr" where
  "fingerprint_hint RemoteLogin =
     lit ''Compare it with '' @ [8220] @ lit ''sudo grdctl --system status'' @ [8221] @ lit '' on the host.''"
| "fingerprint_hint Headless =
     lit ''Compare it with '' @ [8220] @ lit ''grdctl --headless status'' @ [8221] @ lit '' on the host.''"
| "fingerprint_hint DesktopSharing =
     lit ''Compare it with '' @ [8220] @ lit ''grdctl status'' @ [8221] @ lit '' on the host.''"

text \<open>\<open>{:X}\<close> of a code.\<close>

function hex_upper :: "nat \<Rightarrow> rstr" where
  "hex_upper n = (let d = (if n mod 16 < 10 then 48 + n mod 16 else 55 + n mod 16)
     in if n < 16 then [d] else hex_upper (n div 16) @ [d])"
  by pat_completeness auto
termination by (relation "measure id") auto

definition check_address :: rstr where
  "check_address = lit ''Check the host name and port in the profile.''"

fun explain_disconnect :: "DisconnectReason \<Rightarrow> ConnectMode \<Rightarrow> ErrorExplanation" where
  "explain_disconnect Network m = explanation
     (lit ''Can'' @ [8217] @ lit ''t reach the host'')
     (lit ''Drift couldn'' @ [8217] @ lit ''t connect to the remote computer.'')
     [service_hint m,
      check_address]
     [Reconnect, EditProfile]"
| "explain_disconnect Timeout m = explanation
     (lit ''The host didn'' @ [8217] @ lit ''t respond'')
     (lit ''The connection timed out.'')
     [service_hint m,
      check_address]
     [Reconnect, EditProfile]"
| "explain_disconnect TlsEof m = explanation
     (lit ''Connection interrupted'')
     (lit ''The secure connection to the host closed unexpectedly.'')
     [lit ''Reconnect. If this keeps happening, check the network between this Mac and the host.'']
     [Reconnect, Close]"
| "explain_disconnect ServerShutdown m = explanation
     (lit ''The remote desktop service stopped'')
     (lit ''GNOME Remote Desktop on the host shut the connection down, for example because it restarted.'')
     [service_hint m,
      lit ''Then reconnect.'']
     [Reconnect, Close]"
| "explain_disconnect AuthFailed m = explanation
     (lit ''Wrong user name or password'')
     (lit ''The host rejected the RDP credentials in this profile.'')
     [credential_hint m,
      lit ''Update the user name and password in the profile.'']
     [EditProfile, Reconnect]"
| "explain_disconnect (RdstlsFailed code) m = explanation
     (lit ''Login hand-off failed'')
     (lit ''The host rejected the one-time login that follows the GNOME login screen (code 0x'' @ hex_upper (unat code) @ lit ''). One-time logins can'' @ [8217] @ lit ''t be reused.'')
     [lit ''Reconnect to start again from the login screen.'']
     [Reconnect, Close]"
| "explain_disconnect CertMismatch m = explanation
     (lit ''The host'' @ [8217] @ lit ''s certificate changed'')
     (lit ''The certificate doesn'' @ [8217] @ lit ''t match the one you trusted before. The host may have been reinstalled, or someone may be intercepting the connection.'')
     [fingerprint_hint m,
      lit ''If you trust the change, clear the saved certificate in the profile and connect again.'']
     [EditProfile, Close]"
| "explain_disconnect (ProtocolError detail) m = explanation
     (lit ''Unexpected data from the host'')
     (lit ''The connection failed because the host sent something Drift didn'' @ [8217] @ lit ''t expect ('' @ detail @ lit '').'')
     [lit ''Reconnect. If this keeps happening, check that the host runs GNOME Remote Desktop 50 or later.'']
     [Reconnect, Close]"
| "explain_disconnect RedirectLoopReason m = explanation
     (lit ''Too many redirects'')
     (lit ''The host kept redirecting the connection instead of opening a session.'')
     [lit ''End stale remote sessions on the host (see '' @ [8220] @ lit ''loginctl list-sessions'' @ [8221] @ lit ''), then reconnect.'']
     [Reconnect, Close]"
| "explain_disconnect UserClosed m = explanation
     (lit ''Disconnected'')
     (lit ''You closed the connection.'')
     []
     [Reconnect, Close]"
| "explain_disconnect LoggedOffRemotely m = explanation
     (lit ''Logged out'')
     (lit ''The remote session was logged out on the host.'')
     [lit ''Reconnect to log in again.'']
     [Reconnect, Close]"
| "explain_disconnect LocalNetworkDenied m = explanation
     (lit ''Drift can'' @ [8217] @ lit ''t access your local network'')
     (lit ''macOS blocked Drift from connecting to computers on your local network.'')
     [lit ''Open '' @ LOCAL_NETWORK_SETTINGS_PATH @ lit '' and turn on Drift.'',
      lit ''Then reconnect.'']
     [OpenLocalNetworkSettings, Reconnect]"

subsection \<open>Properties\<close>

lemma lit_Nil [simp]: "lit s = [] \<longleftrightarrow> s = []"
  by (simp add: lit_def)

text \<open>Every explanation has words and at least two different buttons; reconnecting is always offered but for a changed
  certificate, and comes first for the reasons the actor retries by itself.\<close>

lemma explanations_complete:
  "ex_title (explain_disconnect r m) \<noteq> [] \<and> ex_message (explain_disconnect r m) \<noteq> [] \<and>
   length (ex_actions (explain_disconnect r m)) = 2 \<and> distinct (ex_actions (explain_disconnect r m)) \<and>
   (Reconnect \<in> set (ex_actions (explain_disconnect r m)) \<longleftrightarrow> r \<noteq> CertMismatch) \<and>
   (is_retryable r \<longrightarrow> hd (ex_actions (explain_disconnect r m)) = Reconnect) \<and>
   (OpenLocalNetworkSettings \<in> set (ex_actions (explain_disconnect r m)) \<longleftrightarrow> r = LocalNetworkDenied)"
  by (cases r) (simp_all add: explanation_def)

end
