(* ===== verification/App_View.thy ===== *)
theory App_View
  imports Rdp_Connect Core_Messages Core_Reconnect Rust_F64
begin

text \<open>
  \<open>src-tauri/src/view.rs\<close>: the snapshot a window's page renders, folded from the events of its session.
  Samples of the statistics are numbers of two precisions: \<open>F32\<close> and \<open>F\<close> are the operations of \<open>f32\<close>
  and \<open>f64\<close> on the same values, since the conversion between them is exact.
\<close>

subsection \<open>Data\<close>

datatype Screen = ScrProfiles | ScrConnecting | ScrCertificate | ScrGreeterHint | ScrReconnecting | ScrError | ScrLive

datatype CertificateSubject = SubjectServer | SubjectRedirectTarget

fun subject_from :: "CertificateRole \<Rightarrow> CertificateSubject" where
  "subject_from ServerCertificate = SubjectServer"
| "subject_from RedirectTarget = SubjectRedirectTarget"

record CertificatePrompt =
  cp_host :: rstr
  cp_port :: u16
  cp_fingerprint :: CertFingerprint
  cp_subject :: CertificateSubject
  cp_grdctl_command :: rstr

record StatsView =
  sv_fps_tenths :: u32
  sv_mbit_tenths :: u32
  sv_latency_p95_tenths_ms :: u32
  sv_unacked_frames :: u32

text \<open>A sample as the actor sends it.\<close>

record 'f StatsSample =
  ss_fps :: 'f
  ss_bitrate_bps :: u64
  ss_frame_latency_p95_ms :: 'f
  ss_input_to_wire_p99_ms :: 'f
  ss_unacked_frames :: u32

text \<open>The actor's events with the statistics, which the model of the actor leaves out.\<close>

datatype 'f AppEvent = FromActor SessionEvent | EvStats "'f StatsSample"

definition tenths :: "'f f64_ops \<Rightarrow> 'f \<Rightarrow> u32" where
  "tenths F v =
     (if \<not> f_is_finite F v \<or> f_le F v (f_lit F 0) then 0
      else word_of_int (f_to_int F (f_min F (f_round F (f_mul F v (f_lit F 10))) (f_of_u32 F (- 1)))))"

definition StatsView_sample :: "'f f64_ops \<Rightarrow> 'f f64_ops \<Rightarrow> 'f StatsSample \<Rightarrow> StatsView" where
  "StatsView_sample F32 F s =
     (let mbit = f_div F32 (f_of_u64 F32 (ss_bitrate_bps s)) (f_lit F32 1000000)
      in \<lparr>sv_fps_tenths = tenths F (ss_fps s), sv_mbit_tenths = tenths F mbit,
          sv_latency_p95_tenths_ms = tenths F (ss_frame_latency_p95_ms s), sv_unacked_frames = ss_unacked_frames s\<rparr>)"

record SessionView =
  vw_profile_name :: rstr
  vw_mode :: ConnectMode
  vw_linux_username :: "rstr option"
  vw_state :: SessionState
  vw_screen :: Screen
  vw_certificate :: "CertificatePrompt option"
  vw_explanation :: "ErrorExplanation option"
  vw_resuming :: bool
  vw_max_attempts :: "u32 option"
  vw_show_stats :: bool
  vw_stats :: "StatsView option"

fun grdctl_status_command :: "ConnectMode \<Rightarrow> rstr" where
  "grdctl_status_command RemoteLogin = lit ''sudo grdctl --system status''"
| "grdctl_status_command Headless = lit ''grdctl --headless status''"
| "grdctl_status_command DesktopSharing = lit ''grdctl status''"

subsection \<open>Folding\<close>

fun screen_of_state :: "SessionState \<Rightarrow> Screen" where
  "screen_of_state Idle = ScrProfiles"
| "screen_of_state (Connecting _ _) = ScrConnecting"
| "screen_of_state AwaitingGreeterLogin = ScrGreeterHint"
| "screen_of_state (Connected _ _) = ScrLive"
| "screen_of_state (Reconnecting _ _ _) = ScrReconnecting"
| "screen_of_state (Disconnected _) = ScrError"
| "screen_of_state (Failed _) = ScrError"

fun explanation_of :: "ConnectMode \<Rightarrow> SessionState \<Rightarrow> ErrorExplanation option" where
  "explanation_of m (Disconnected reason) = Some (explain_disconnect reason m)"
| "explanation_of m (Failed reason) = Some (explain_disconnect reason m)"
| "explanation_of m _ = None"

definition view_refresh :: "SessionView \<Rightarrow> SessionView" where
  "view_refresh v =
     v\<lparr>vw_explanation := explanation_of (vw_mode v) (vw_state v),
       vw_screen := (if vw_certificate v \<noteq> None then ScrCertificate else screen_of_state (vw_state v))\<rparr>"

definition SessionView_new :: "ConnectionProfile \<Rightarrow> SessionView" where
  "SessionView_new p = view_refresh
     \<lparr>vw_profile_name = name p, vw_mode = mode p, vw_linux_username = linux_username p, vw_state = Idle,
      vw_screen = ScrProfiles, vw_certificate = None, vw_explanation = None, vw_resuming = False,
      vw_max_attempts = max_attempts ReconnectConfig_default, vw_show_stats = False, vw_stats = None\<rparr>"

fun is_connected :: "SessionState \<Rightarrow> bool" where
  "is_connected (Connected _ _) = True"
| "is_connected _ = False"

definition picture_live :: "SessionState \<Rightarrow> bool" where
  "picture_live s = (is_connected s \<or> s = AwaitingGreeterLogin)"

fun fold_event :: "'f f64_ops \<Rightarrow> 'f f64_ops \<Rightarrow> 'f AppEvent \<Rightarrow> SessionView \<Rightarrow> SessionView" where
  "fold_event F32 F (FromActor (EvState s)) v =
     v\<lparr>vw_resuming := (if is_connected s then True else if s = Idle then False else vw_resuming v),
       vw_stats := (if picture_live s then vw_stats v else None), vw_state := s, vw_certificate := None\<rparr>"
| "fold_event F32 F (FromActor (EvCertificatePrompt h p fp role)) v =
     v\<lparr>vw_certificate := Some \<lparr>cp_host = h, cp_port = p, cp_fingerprint = fp, cp_subject = subject_from role,
       cp_grdctl_command = grdctl_status_command (vw_mode v)\<rparr>\<rparr>"
| "fold_event F32 F (EvStats s) v = v\<lparr>vw_stats := Some (StatsView_sample F32 F s)\<rparr>"
| "fold_event F32 F _ v = v"

text \<open>The view, and whether it changed.\<close>

definition view_apply :: "'f f64_ops \<Rightarrow> 'f f64_ops \<Rightarrow> 'f AppEvent \<Rightarrow> SessionView \<Rightarrow> bool \<times> SessionView" where
  "view_apply F32 F e v = (let v' = view_refresh (fold_event F32 F e v) in (v' \<noteq> v, v'))"

definition clear_certificate :: "SessionView \<Rightarrow> SessionView" where
  "clear_certificate v = view_refresh (v\<lparr>vw_certificate := None\<rparr>)"

subsection \<open>What a view tells\<close>

text \<open>Everything that reaches a window's view: events of its session, the user's answer to a prompt and the
  statistics switch.\<close>

datatype 'f ViewInput = Happened "'f AppEvent" | Answered | StatsSwitched

fun view_input :: "'f f64_ops \<Rightarrow> 'f f64_ops \<Rightarrow> 'f ViewInput \<Rightarrow> SessionView \<Rightarrow> SessionView" where
  "view_input F32 F (Happened e) v = snd (view_apply F32 F e v)"
| "view_input F32 F Answered v = clear_certificate v"
| "view_input F32 F StatsSwitched v = v\<lparr>vw_show_stats := \<not> vw_show_stats v\<rparr>"

text \<open>The inputs after the last one with a property, the newest first.\<close>

definition since_last :: "('a \<Rightarrow> bool) \<Rightarrow> 'a list \<Rightarrow> 'a list" where
  "since_last P xs = takeWhile (Not \<circ> P) (rev xs)"

definition newest :: "('a \<Rightarrow> 'b option) \<Rightarrow> 'a list \<Rightarrow> 'b option" where
  "newest f xs = (case List.map_filter f xs of [] \<Rightarrow> None | y # _ \<Rightarrow> Some y)"

fun state_of :: "'f ViewInput \<Rightarrow> SessionState option" where
  "state_of (Happened (FromActor (EvState s))) = Some s"
| "state_of _ = None"

fun stats_of :: "'f ViewInput \<Rightarrow> 'f StatsSample option" where
  "stats_of (Happened (EvStats s)) = Some s"
| "stats_of _ = None"

fun prompt_of :: "ConnectMode \<Rightarrow> 'f ViewInput \<Rightarrow> CertificatePrompt option" where
  "prompt_of m (Happened (FromActor (EvCertificatePrompt h p fp role))) =
     Some \<lparr>cp_host = h, cp_port = p, cp_fingerprint = fp, cp_subject = subject_from role,
       cp_grdctl_command = grdctl_status_command m\<rparr>"
| "prompt_of m _ = None"

definition view_after :: "'f f64_ops \<Rightarrow> 'f f64_ops \<Rightarrow> ConnectionProfile \<Rightarrow> 'f ViewInput list \<Rightarrow> SessionView" where
  "view_after F32 F p es = fold (view_input F32 F) es (SessionView_new p)"

definition told_state :: "'f ViewInput list \<Rightarrow> SessionState" where
  "told_state es = (case newest state_of (rev es) of None \<Rightarrow> Idle | Some s \<Rightarrow> s)"

definition told_prompt :: "ConnectMode \<Rightarrow> 'f ViewInput list \<Rightarrow> CertificatePrompt option" where
  "told_prompt m es = newest (prompt_of m) (since_last (\<lambda>e. state_of e \<noteq> None \<or> e = Answered) es)"

definition told_resuming :: "'f ViewInput list \<Rightarrow> bool" where
  "told_resuming es =
     list_ex (\<lambda>e. case state_of e of None \<Rightarrow> False | Some s \<Rightarrow> is_connected s) (since_last (\<lambda>e. state_of e = Some Idle) es)"

definition told_sample :: "'f ViewInput list \<Rightarrow> 'f StatsSample option" where
  "told_sample es =
     newest stats_of (since_last (\<lambda>e. case state_of e of None \<Rightarrow> False | Some s \<Rightarrow> \<not> picture_live s) es)"

lemma since_last_snoc: "since_last P (xs @ [x]) = (if P x then [] else x # since_last P xs)"
  by (simp add: since_last_def)

lemma newest_Cons: "newest f (x # xs) = (case f x of None \<Rightarrow> newest f xs | Some y \<Rightarrow> Some y)"
  by (simp add: newest_def map_filter_simps split: option.split)

lemma newest_Nil [simp]: "newest f [] = None"
  by (simp add: newest_def map_filter_simps)

lemma view_after_snoc: "view_after F32 F p (es @ [e]) = view_input F32 F e (view_after F32 F p es)"
  by (simp add: view_after_def)

lemmas told_defs = told_state_def told_prompt_def told_resuming_def told_sample_def

lemma view_after_ok:
  fixes es :: "'f ViewInput list"
  shows "view_after F32 F p es =
    \<lparr>vw_profile_name = name p, vw_mode = mode p, vw_linux_username = linux_username p, vw_state = told_state es,
     vw_screen = (if told_prompt (mode p) es \<noteq> None then ScrCertificate else screen_of_state (told_state es)),
     vw_certificate = told_prompt (mode p) es, vw_explanation = explanation_of (mode p) (told_state es),
     vw_resuming = told_resuming es, vw_max_attempts = max_attempts ReconnectConfig_default,
     vw_show_stats = odd (length (filter (\<lambda>e. e = StatsSwitched) es)),
     vw_stats = map_option (StatsView_sample F32 F) (told_sample es)\<rparr>"
proof (induction es rule: rev_induct)
  case Nil
  then show ?case
    by (simp add: view_after_def SessionView_new_def view_refresh_def told_defs since_last_def)
next
  case (snoc e es)
  have "\<exists>s. e = Happened (FromActor (EvState s)) \<or> e = StatsSwitched \<or> e = Answered \<or> (\<exists>x. e = Happened (EvStats x)) \<or>
      (\<exists>h pt fp role. e = Happened (FromActor (EvCertificatePrompt h pt fp role))) \<or>
      (state_of e = None \<and> prompt_of (mode p) e = None \<and> stats_of e = None \<and> e \<noteq> StatsSwitched \<and> e \<noteq> Answered \<and>
       (\<forall>v. view_input F32 F e v = view_refresh v))"
  proof (cases e)
    case (Happened x)
    then show ?thesis
    proof (cases x)
      case (FromActor y)
      then show ?thesis using Happened by (cases y) (simp_all add: view_apply_def Let_def)
    qed simp
  qed simp_all
  then show ?case
    by (elim exE disjE conjE)
      (simp_all add: view_after_snoc snoc.IH view_apply_def view_refresh_def clear_certificate_def told_defs since_last_snoc
        newest_Cons picture_live_def Let_def)
qed

end
