(* ===== verification/App_Present.thy ===== *)
theory App_Present
  imports App_View Input_Unicode
begin

text \<open>
  \<open>src-tauri/src/present.rs\<close>, \<open>menu.rs\<close>, \<open>dock.rs\<close>, \<open>options.rs\<close> and the status types of \<open>connections.rs\<close>: what is
  in front of a window, who owns the keyboard, what closing and quitting ask, and the menus as data.
\<close>

subsection \<open>Surfaces\<close>

datatype Hud = HudBanner | HudStats
datatype WindowSurface = SurfaceWebview | SurfaceRemote | SurfaceOverlay | SurfaceHud Hud
datatype FocusOwner = FocusRemote | FocusPage

definition hud_for :: "SessionView \<Rightarrow> Hud option" where
  "hud_for v =
     (if vw_screen v = ScrGreeterHint then Some HudBanner
      else if vw_screen v = ScrLive \<and> vw_show_stats v \<and> vw_stats v \<noteq> None then Some HudStats
      else None)"

definition surface_for :: "SessionView \<Rightarrow> WindowSurface" where
  "surface_for v =
     (case hud_for v of
        Some hud \<Rightarrow> SurfaceHud hud
      | None \<Rightarrow>
          (case vw_screen v of
             ScrLive \<Rightarrow> SurfaceRemote
           | ScrGreeterHint \<Rightarrow> SurfaceRemote
           | ScrReconnecting \<Rightarrow> SurfaceOverlay
           | _ \<Rightarrow> SurfaceWebview))"

fun focus_for :: "WindowSurface \<Rightarrow> FocusOwner" where
  "focus_for SurfaceRemote = FocusRemote"
| "focus_for (SurfaceHud _) = FocusRemote"
| "focus_for SurfaceWebview = FocusPage"
| "focus_for SurfaceOverlay = FocusPage"

record Flexible =
  fl_left :: bool
  fl_right :: bool
  fl_top :: bool
  fl_bottom :: bool

record 'f HudFrame =
  hf_x :: 'f
  hf_y :: 'f
  hf_width :: 'f
  hf_height :: 'f
  hf_flexible :: Flexible

definition HUD_INSET :: "'f f64_ops \<Rightarrow> 'f" where "HUD_INSET F = f_lit F 16"
definition BANNER_WIDTH :: "'f f64_ops \<Rightarrow> 'f" where "BANNER_WIDTH F = f_lit F 560"
definition BANNER_HEIGHT :: "'f f64_ops \<Rightarrow> 'f" where "BANNER_HEIGHT F = f_lit F 76"
definition STATS_WIDTH :: "'f f64_ops \<Rightarrow> 'f" where "STATS_WIDTH F = f_lit F 300"
definition STATS_HEIGHT :: "'f f64_ops \<Rightarrow> 'f" where "STATS_HEIGHT F = f_lit F 56"
definition TITLEBAR_HEIGHT :: "'f f64_ops \<Rightarrow> 'f" where "TITLEBAR_HEIGHT F = f_lit F 52"

record 'f Chrome =
  ch_titlebar :: 'f
  ch_content_top :: 'f

definition chrome :: "'f f64_ops \<Rightarrow> bool \<Rightarrow> 'f Chrome" where
  "chrome F full_screen =
     (if full_screen then \<lparr>ch_titlebar = f_lit F 0, ch_content_top = f_lit F 0\<rparr>
      else \<lparr>ch_titlebar = TITLEBAR_HEIGHT F, ch_content_top = TITLEBAR_HEIGHT F\<rparr>)"

definition band_y :: "'f f64_ops \<Rightarrow> 'f \<Rightarrow> 'f \<Rightarrow> 'f \<Rightarrow> bool \<Rightarrow> 'f" where
  "band_y F parent_height tp h flipped = (if flipped then tp else f_sub F (f_sub F parent_height tp) h)"

definition hud_frame :: "'f f64_ops \<Rightarrow> 'f Size \<Rightarrow> Hud \<Rightarrow> bool \<Rightarrow> 'f HudFrame" where
  "hud_frame F parent hud flipped =
     (let (w, h, flexible) =
            (case hud of
               HudBanner \<Rightarrow>
                 (f_max F (f_min F (BANNER_WIDTH F) (f_sub F (width parent) (f_mul F (f_lit F 2) (HUD_INSET F)))) (f_lit F 1),
                  f_max F (f_min F (BANNER_HEIGHT F) (height parent)) (f_lit F 1),
                  \<lparr>fl_left = True, fl_right = True, fl_top = False, fl_bottom = True\<rparr>)
             | HudStats \<Rightarrow>
                 (f_max F (f_min F (STATS_WIDTH F) (width parent)) (f_lit F 1),
                  f_max F (f_min F (STATS_HEIGHT F) (height parent)) (f_lit F 1),
                  \<lparr>fl_left = True, fl_right = False, fl_top = True, fl_bottom = False\<rparr>));
          (x, tp) =
            (case hud of
               HudBanner \<Rightarrow> (f_div F (f_sub F (width parent) w) (f_lit F 2), f_lit F 0)
             | HudStats \<Rightarrow> (f_sub F (f_sub F (width parent) w) (HUD_INSET F), f_sub F (f_sub F (height parent) h) (HUD_INSET F)));
          x = f_clamp F x (f_lit F 0) (f_max F (f_sub F (width parent) w) (f_lit F 0));
          tp = f_clamp F tp (f_lit F 0) (f_max F (f_sub F (height parent) h) (f_lit F 0));
          y = (if flipped then tp else f_sub F (f_sub F (height parent) tp) h)
      in \<lparr>hf_x = x, hf_y = y, hf_width = w, hf_height = h, hf_flexible = flexible\<rparr>)"

subsection \<open>Names, status and items\<close>

datatype ConnectionStatus = StIdle | StConnecting | StLive | StReconnecting | StFailed

definition display_name :: "rstr \<Rightarrow> rstr" where
  "display_name n =
     (let cleaned = map (\<lambda>c. if is_control c then 32 else c) n; n = trim cleaned
      in if n = [] then lit ''Untitled'' else n)"

definition window_title :: "SessionView \<Rightarrow> rstr" where
  "window_title v = display_name (vw_profile_name v)"

definition status_for :: "SessionView \<Rightarrow> ConnectionStatus" where
  "status_for v =
     (case vw_screen v of
        ScrProfiles \<Rightarrow> StConnecting | ScrConnecting \<Rightarrow> StConnecting | ScrCertificate \<Rightarrow> StConnecting
      | ScrLive \<Rightarrow> StLive | ScrGreeterHint \<Rightarrow> StLive | ScrReconnecting \<Rightarrow> StReconnecting | ScrError \<Rightarrow> StFailed)"

definition status_glyph :: "SessionView \<Rightarrow> rchar" where
  "status_glyph v =
     (case status_for v of
        StLive \<Rightarrow> (if vw_screen v = ScrGreeterHint then 9680 else 9679)
      | StConnecting \<Rightarrow> 9676
      | StReconnecting \<Rightarrow> 8635
      | StFailed \<Rightarrow> 9888
      | StIdle \<Rightarrow> 9675)"

record SessionItem =
  it_window :: rstr
  it_name :: rstr
  it_glyph :: rchar
  it_status :: ConnectionStatus

definition session_item :: "rstr \<Rightarrow> SessionView \<Rightarrow> SessionItem" where
  "session_item window v =
     \<lparr>it_window = window, it_name = display_name (vw_profile_name v), it_glyph = status_glyph v, it_status = status_for v\<rparr>"

definition item_title :: "SessionItem \<Rightarrow> rstr" where
  "item_title i = it_glyph i # 32 # it_name i"

definition greeter_hint :: "SessionView option \<Rightarrow> rstr option" where
  "greeter_hint view =
     (case view of
        None \<Rightarrow> None
      | Some v \<Rightarrow>
          if vw_screen v \<noteq> ScrGreeterHint then None
          else Some (case vw_linux_username v of
              Some user \<Rightarrow>
                if vw_resuming v
                then lit ''Session is still running '' @ [8212] @ lit '' log in as '' @ [8220] @ user @ [8221] @ lit '' to resume''
                else lit ''Log in as '' @ [8220] @ user @ [8221] @ lit '' to start your session''
            | None \<Rightarrow>
                if vw_resuming v then lit ''Session is still running '' @ [8212] @ lit '' log in to resume''
                else lit ''Log in to start your session''))"

record WindowIdentity =
  wi_profile_id :: Uuid
  wi_name :: rstr
  wi_host :: rstr
  wi_mode :: ConnectMode
  wi_status :: ConnectionStatus
  wi_hint :: "rstr option"
  wi_show_stats :: bool

definition identity_of :: "ConnectionProfile \<Rightarrow> SessionView \<Rightarrow> WindowIdentity" where
  "identity_of p v =
     \<lparr>wi_profile_id = profile_id p, wi_name = display_name (vw_profile_name v), wi_host = host p, wi_mode = vw_mode v,
      wi_status = status_for v, wi_hint = greeter_hint (Some v), wi_show_stats = vw_show_stats v\<rparr>"

definition DEFAULT_ACCESSIBILITY_LABEL :: rstr where
  "DEFAULT_ACCESSIBILITY_LABEL = lit ''Remote desktop''"

definition accessibility_label :: "SessionView option \<Rightarrow> rstr" where
  "accessibility_label view =
     (case view of
        None \<Rightarrow> DEFAULT_ACCESSIBILITY_LABEL
      | Some v \<Rightarrow>
          (case vw_state v of
             Connected desktop _ \<Rightarrow>
               vw_profile_name v @ lit '' '' @ [8212] @ lit '' remote desktop, '' @ dec_digits (unat (width desktop)) @
                 lit '' by '' @ dec_digits (unat (height desktop)) @ lit '' pixels''
           | _ \<Rightarrow> vw_profile_name v @ lit '' '' @ [8212] @ lit '' remote desktop''))"

subsection \<open>Closing\<close>

definition CONNECTIONS_WINDOW :: rstr where "CONNECTIONS_WINDOW = lit ''connections''"

definition close_needs_confirmation :: "SessionView \<Rightarrow> bool" where
  "close_needs_confirmation v = (vw_screen v \<in> {ScrLive, ScrGreeterHint, ScrReconnecting})"

datatype CloseAction = CloseHide | CloseConfirm | CloseNow

definition close_action :: "rstr \<Rightarrow> SessionView option \<Rightarrow> CloseAction" where
  "close_action label view =
     (if label = CONNECTIONS_WINDOW then CloseHide
      else if (case view of None \<Rightarrow> False | Some v \<Rightarrow> close_needs_confirmation v) then CloseConfirm
      else CloseNow)"

record Confirmation =
  cf_message :: rstr
  cf_informative :: rstr
  cf_confirm :: rstr
  cf_cancel :: rstr

definition close_confirmation :: "rstr \<Rightarrow> Confirmation" where
  "close_confirmation profile_name =
     \<lparr>cf_message = lit ''Disconnect '' @ [8220] @ display_name profile_name @ [8221] @ lit ''?'',
      cf_informative = lit ''The remote session keeps running on the host.'',
      cf_confirm = lit ''Disconnect'', cf_cancel = lit ''Cancel''\<rparr>"

definition quit_confirmation :: "nat \<Rightarrow> Confirmation option" where
  "quit_confirmation sessions =
     (if 0 < sessions
      then Some \<lparr>cf_message = lit ''Quit Drift?'',
        cf_informative = (if sessions = 1 then lit ''1 session will be disconnected.''
          else dec_digits sessions @ lit '' sessions will be disconnected.''),
        cf_confirm = lit ''Quit'', cf_cancel = lit ''Cancel''\<rparr>
      else None)"

subsection \<open>Pointer and launch\<close>

record MacCursorImage =
  mc_size :: "u32 Size"
  mc_hotspot :: "u32 Point"
  mc_bgra :: "u8 list"

datatype CursorShape = ShapeHidden | ShapeDefault | ShapeImage MacCursorImage

fun cursor_shape :: "CursorUpdate \<Rightarrow> (CursorShape \<times> u32) option" where
  "cursor_shape CursorHidden = Some (ShapeHidden, 100)"
| "cursor_shape CursorDefault = Some (ShapeDefault, 100)"
| "cursor_shape (CursorImage b) =
     Some (ShapeImage \<lparr>mc_size = cb_size b, mc_hotspot = cb_hotspot b, mc_bgra = cb_bgra b\<rparr>, cb_scale b)"
| "cursor_shape (CursorPosition _) = None"

definition eq_ignore_ascii_case :: "rstr \<Rightarrow> rstr \<Rightarrow> bool" where
  "eq_ignore_ascii_case a b = (map to_ascii_lowercase a = map to_ascii_lowercase b)"

definition find_autoconnect :: "ConnectionProfile list \<Rightarrow> rstr \<Rightarrow> ConnectionProfile option" where
  "find_autoconnect ps n =
     (let n = trim n
      in if n = [] then None
         else case find (\<lambda>p. name p = n) ps of
                Some p \<Rightarrow> Some p
              | None \<Rightarrow> (case filter (\<lambda>p. eq_ignore_ascii_case (name p) n) ps of [p] \<Rightarrow> Some p | _ \<Rightarrow> None))"

record RunOptions =
  ro_config_dir :: "rstr option"
  ro_memory_secrets :: bool
  ro_autoconnect :: "rstr option"

definition RunOptions_default :: RunOptions where
  "RunOptions_default = \<lparr>ro_config_dir = None, ro_memory_secrets = False, ro_autoconnect = None\<rparr>"

fun from_vars :: "(rstr \<times> rstr) list \<Rightarrow> RunOptions \<Rightarrow> RunOptions" where
  "from_vars [] options = options"
| "from_vars ((n, v) # vars) options =
     (let v = trim v
      in from_vars vars
        (if v = [] then options
         else if n = lit ''DRIFT_CONFIG_DIR'' then options\<lparr>ro_config_dir := Some v\<rparr>
         else if n = lit ''DRIFT_AUTOCONNECT'' then options\<lparr>ro_autoconnect := Some v\<rparr>
         else options))"

end
