(* ===== verification/App_Manager.thy ===== *)
theory App_Manager
  imports App_Present "HOL-Library.AList" "HOL-Library.Multiset" "HOL-Library.List_Lexorder"
begin

text \<open>
  \<open>src-tauri/src/manager.rs\<close>: the session manager, as steps between which other threads may run. A step is one
  critical section of the manager's lock with the code before the next lock, or one call of the host. Every
  session has a pump, a task with its own steps; a call that a task makes outside the lock is queued on the task
  and made by a later step. Sessions are counted without wrap-around (the code's counters have 64 bits).
\<close>

subsection \<open>State\<close>

datatype CommandError =
    ErrInvalid "ProfileIssue list"
  | ErrNotFound
  | ErrStorage rstr
  | ErrPlatform rstr
  | ErrNoSession
  | ErrNotImplemented rstr

record Slot =
  sl_profile :: ConnectionProfile
  sl_view :: SessionView
  sl_live :: "nat option"
  sl_order :: nat
  sl_live_since :: "instant option"

text \<open>The calls of the host; the session that ends is noted beside its window.\<close>

datatype 'f HostCall =
    HostViewChanged rstr SessionView
  | HostSessionEvent rstr "'f AppEvent"
  | HostCertificatePinned Uuid CertFingerprint
  | HostSessionEnded rstr nat

text \<open>A pump: whether its actor takes commands, the calls it has to make before it waits for the next event, and
  whether it stops after them.\<close>

record 'f Pump =
  pm_window :: rstr
  pm_profile :: Uuid
  pm_actor :: bool
  pm_calls :: "'f HostCall list"
  pm_last :: bool
  pm_done :: bool

record ShutdownReport =
  sr_graceful :: nat
  sr_abandoned :: nat

record Quit =
  qt_deadline :: "instant option"
  qt_lives :: "(rstr \<times> nat) list"
  qt_report :: ShutdownReport

text \<open>The manager, with the calls of \<open>open\<close> that are under way (the calls each makes before it spawns), the closes and
  the shutdowns awaited, the calls other tasks still have to make, and what was called and sent.\<close>

record 'f Manager =
  mg_windows :: "(rstr \<times> Slot) list"
  mg_next_generation :: nat
  mg_next_order :: nat
  mg_pumps :: "nat \<rightharpoonup> 'f Pump"
  mg_opening :: "(rstr \<times> 'f HostCall list) list"
  mg_closing :: "(rstr \<times> nat \<times> instant option) list"
  mg_quitting :: "Quit list"
  mg_loose :: "'f HostCall list"
  mg_calls :: "'f HostCall list"
  mg_sent :: "(nat \<times> 'f SessionCommand) list"

definition CLOSE_CAP :: duration where "CLOSE_CAP = duration_secs 2"

definition Manager_new :: "'f Manager" where
  "Manager_new = \<lparr>mg_windows = [], mg_next_generation = 0, mg_next_order = 0, mg_pumps = Map.empty, mg_opening = [],
     mg_closing = [], mg_quitting = [], mg_loose = [], mg_calls = [], mg_sent = []\<rparr>"

definition slot_for :: "'f Manager \<Rightarrow> rstr \<Rightarrow> Slot option" where
  "slot_for m w = map_of (mg_windows m) w"

definition set_slot_for :: "rstr \<Rightarrow> Slot \<Rightarrow> 'f Manager \<Rightarrow> 'f Manager" where
  "set_slot_for w s m = m\<lparr>mg_windows := AList.update w s (mg_windows m)\<rparr>"

text \<open>\<open>handle.send\<close>, which fails when the actor is gone.\<close>

definition actor_up :: "'f Manager \<Rightarrow> nat \<Rightarrow> bool" where
  "actor_up m g = (case mg_pumps m g of None \<Rightarrow> False | Some p \<Rightarrow> pm_actor p)"

definition tell :: "nat \<Rightarrow> 'f SessionCommand \<Rightarrow> 'f Manager \<Rightarrow> 'f Manager" where
  "tell g cmd m = (if actor_up m g then m\<lparr>mg_sent := mg_sent m @ [(g, cmd)]\<rparr> else m)"

text \<open>\<open>pump.abort()\<close> takes effect where the pump awaits: after the calls it is making.\<close>

definition abort_pump :: "nat \<Rightarrow> 'f Manager \<Rightarrow> 'f Manager" where
  "abort_pump g m =
     (case mg_pumps m g of
        None \<Rightarrow> m
      | Some p \<Rightarrow>
          m\<lparr>mg_pumps := (mg_pumps m)(g \<mapsto> (if pm_calls p = [] then p\<lparr>pm_done := True\<rparr> else p\<lparr>pm_last := True\<rparr>))\<rparr>)"

subsection \<open>Opening\<close>

text \<open>The first part: a session that is live in the window is told to close and forgotten.\<close>

definition open_take :: "rstr \<Rightarrow> 'f Manager \<Rightarrow> 'f Manager" where
  "open_take w m =
     (case slot_for m w of
        Some s \<Rightarrow>
          (case sl_live s of
             Some g \<Rightarrow>
               let m = set_slot_for w (s\<lparr>sl_live := None\<rparr>) m;
                   m = abort_pump g (tell g CmdClose m)
               in m\<lparr>mg_opening := mg_opening m @ [(w, [HostSessionEnded w g])]\<rparr>
           | None \<Rightarrow> m\<lparr>mg_opening := mg_opening m @ [(w, [])]\<rparr>)
      | None \<Rightarrow> m\<lparr>mg_opening := mg_opening m @ [(w, [])]\<rparr>)"

text \<open>The second: the host's answer to \<open>spawn\<close>, then the new slot.\<close>

definition open_insert :: "rstr \<Rightarrow> ConnectionProfile \<Rightarrow> CommandError option \<Rightarrow> 'f Manager \<Rightarrow> (CommandError, unit) result \<times> 'f Manager" where
  "open_insert w profile spawn m =
     (let m = m\<lparr>mg_opening := AList.delete w (mg_opening m)\<rparr>
      in case spawn of
           Some e \<Rightarrow> (Inl e, m)
         | None \<Rightarrow>
             let g = mg_next_generation m + 1;
                 pump = \<lparr>pm_window = w, pm_profile = profile_id profile, pm_actor = True, pm_calls = [], pm_last = False,
                   pm_done = False\<rparr>;
                 (order, next) = (case slot_for m w of Some s \<Rightarrow> (sl_order s, mg_next_order m)
                   | None \<Rightarrow> (mg_next_order m + 1, mg_next_order m + 1));
                 slot = \<lparr>sl_profile = profile, sl_view = SessionView_new profile, sl_live = Some g, sl_order = order,
                   sl_live_since = None\<rparr>
             in (Inr (), set_slot_for w slot (m\<lparr>mg_next_generation := g, mg_next_order := next,
                   mg_pumps := (mg_pumps m)(g \<mapsto> pump)\<rparr>)))"

subsection \<open>Intents\<close>

definition live_of :: "'f Manager \<Rightarrow> rstr \<Rightarrow> nat option" where
  "live_of m w = Option.bind (slot_for m w) sl_live"

definition manager_send :: "rstr \<Rightarrow> 'f SessionCommand \<Rightarrow> 'f Manager \<Rightarrow> (CommandError, unit) result \<times> 'f Manager" where
  "manager_send w cmd m =
     (case live_of m w of
        None \<Rightarrow> (Inl ErrNoSession, m)
      | Some g \<Rightarrow> if actor_up m g then (Inr (), tell g cmd m) else (Inl ErrNoSession, m))"

definition call_later :: "'f HostCall \<Rightarrow> 'f Manager \<Rightarrow> 'f Manager" where
  "call_later c m = m\<lparr>mg_loose := mg_loose m @ [c]\<rparr>"

text \<open>The second critical section of \<open>answer_certificate\<close>.\<close>

definition dismiss_certificate :: "rstr \<Rightarrow> 'f Manager \<Rightarrow> (CommandError, unit) result \<times> 'f Manager" where
  "dismiss_certificate w m =
     (case slot_for m w of
        None \<Rightarrow> (Inl ErrNoSession, m)
      | Some s \<Rightarrow>
          if vw_certificate (sl_view s) = None then (Inr (), m)
          else let v = clear_certificate (sl_view s)
            in (Inr (), call_later (HostViewChanged w v) (set_slot_for w (s\<lparr>sl_view := v\<rparr>) m)))"

definition answer_certificate :: "rstr \<Rightarrow> 'f SessionCommand \<Rightarrow> 'f Manager \<Rightarrow> (CommandError, unit) result \<times> 'f Manager" where
  "answer_certificate w answer m =
     (case manager_send w answer m of (Inl e, m) \<Rightarrow> (Inl e, m) | (Inr _, m) \<Rightarrow> dismiss_certificate w m)"

definition accept_certificate :: "rstr \<Rightarrow> CertFingerprint \<Rightarrow> bool \<Rightarrow> 'f Manager \<Rightarrow> (CommandError, unit) result \<times> 'f Manager" where
  "accept_certificate w fp pin = answer_certificate w (CmdAcceptCertificate fp pin)"

definition reject_certificate :: "rstr \<Rightarrow> 'f Manager \<Rightarrow> (CommandError, unit) result \<times> 'f Manager" where
  "reject_certificate w = answer_certificate w CmdRejectCertificate"

definition toggle_stats :: "rstr \<Rightarrow> 'f Manager \<Rightarrow> (CommandError, unit) result \<times> 'f Manager" where
  "toggle_stats w m =
     (case slot_for m w of
        None \<Rightarrow> (Inl ErrNoSession, m)
      | Some s \<Rightarrow>
          let v = (sl_view s)\<lparr>vw_show_stats := \<not> vw_show_stats (sl_view s)\<rparr>
          in (Inr (), call_later (HostViewChanged w v) (set_slot_for w (s\<lparr>sl_view := v\<rparr>) m)))"

datatype ReconnectResult = ReconnectSent | ReconnectReopen Uuid

definition manager_reconnect_now :: "rstr \<Rightarrow> 'f Manager \<Rightarrow> (CommandError, ReconnectResult) result \<times> 'f Manager" where
  "manager_reconnect_now w m =
     (case slot_for m w of
        None \<Rightarrow> (Inl ErrNoSession, m)
      | Some s \<Rightarrow>
          (case sl_live s of
             Some g \<Rightarrow> if actor_up m g then (Inr ReconnectSent, tell g CmdReconnectNow m) else (Inl ErrNoSession, m)
           | None \<Rightarrow> (Inr (ReconnectReopen (profile_id (sl_profile s))), m)))"

subsection \<open>Questions\<close>

definition in_order :: "'f Manager \<Rightarrow> (rstr \<times> Slot) list" where
  "in_order m = sort_key (\<lambda>(w, s). sl_order s) (mg_windows m)"

definition window_for :: "Uuid \<Rightarrow> 'f Manager \<Rightarrow> rstr option" where
  "window_for profile m =
     (case sort_key (\<lambda>(w, s). sl_order s) (filter (\<lambda>(w, s). profile_id (sl_profile s) = profile) (mg_windows m)) of
        [] \<Rightarrow> None
      | (w, s) # _ \<Rightarrow> Some w)"

datatype ConnectPlan = PlanFocus rstr | PlanOpen

definition connect_plan :: "Uuid \<Rightarrow> 'f Manager \<Rightarrow> ConnectPlan" where
  "connect_plan profile m = (case window_for profile m of None \<Rightarrow> PlanOpen | Some w \<Rightarrow> PlanFocus w)"

record SessionInfo =
  si_window :: rstr
  si_profile :: ConnectionProfile
  si_view :: SessionView
  si_live_for :: "duration option"

definition manager_sessions :: "instant \<Rightarrow> 'f Manager \<Rightarrow> SessionInfo list" where
  "manager_sessions now m =
     map (\<lambda>(w, s). \<lparr>si_window = w, si_profile = sl_profile s, si_view = sl_view s,
       si_live_for = map_option (duration_since now) (sl_live_since s)\<rparr>) (in_order m)"

definition manager_view :: "rstr \<Rightarrow> 'f Manager \<Rightarrow> SessionView option" where
  "manager_view w m = map_option sl_view (slot_for m w)"

definition manager_profile :: "rstr \<Rightarrow> 'f Manager \<Rightarrow> ConnectionProfile option" where
  "manager_profile w m = map_option sl_profile (slot_for m w)"

definition manager_profile_id :: "rstr \<Rightarrow> 'f Manager \<Rightarrow> Uuid option" where
  "manager_profile_id w m = map_option (profile_id \<circ> sl_profile) (slot_for m w)"

definition window_is_live :: "rstr \<Rightarrow> 'f Manager \<Rightarrow> bool" where
  "window_is_live w m = (live_of m w \<noteq> None)"

fun waits_to_reconnect :: "SessionState \<Rightarrow> bool" where
  "waits_to_reconnect (Reconnecting _ _ _) = True"
| "waits_to_reconnect _ = False"

record LiveSession =
  ls_window :: rstr
  ls_clipboard :: ClipboardPrefs
  ls_reconnecting :: bool
  ls_generation :: nat

definition live_session_states :: "'f Manager \<Rightarrow> LiveSession list" where
  "live_session_states m =
     List.map_filter (\<lambda>(w, s). map_option (\<lambda>g. \<lparr>ls_window = w, ls_clipboard = clipboard (sl_profile s),
       ls_reconnecting = waits_to_reconnect (vw_state (sl_view s)), ls_generation = g\<rparr>) (sl_live s)) (mg_windows m)"

definition live_sessions :: "'f Manager \<Rightarrow> nat" where
  "live_sessions m = length (filter (\<lambda>(w, s). sl_live s \<noteq> None) (mg_windows m))"

subsection \<open>Closing\<close>

definition close_start :: "rstr \<Rightarrow> 'f Manager \<Rightarrow> 'f Manager" where
  "close_start w m =
     (let live = live_of m w; m = m\<lparr>mg_windows := AList.delete w (mg_windows m)\<rparr>
      in case live of
           None \<Rightarrow> m
         | Some g \<Rightarrow> (tell g CmdClose m)\<lparr>mg_closing := mg_closing m @ [(w, g, None)]\<rparr>)"

definition pump_done :: "'f Manager \<Rightarrow> nat \<Rightarrow> bool" where
  "pump_done m g = (case mg_pumps m g of None \<Rightarrow> True | Some p \<Rightarrow> pm_done p)"

definition host_call :: "'f HostCall \<Rightarrow> 'f Manager \<Rightarrow> 'f Manager" where
  "host_call c m = m\<lparr>mg_calls := mg_calls m @ [c]\<rparr>"

text \<open>\<open>finish\<close>: the pump's end, or the deadline; \<open>None\<close> while neither has come.\<close>

definition finish :: "instant \<Rightarrow> nat \<Rightarrow> instant \<Rightarrow> 'f Manager \<Rightarrow> (bool \<times> 'f Manager) option" where
  "finish now g deadline m =
     (if pump_done m g then Some (True, m)
      else if deadline \<le> now then Some (False, abort_pump g m)
      else None)"

text \<open>The future of the \<open>i\<close>-th close: its first poll sets the deadline, every poll then waits for the pump.\<close>

definition close_begin :: "instant \<Rightarrow> nat \<Rightarrow> 'f Manager \<Rightarrow> 'f Manager option" where
  "close_begin now i m =
     (if i < length (mg_closing m)
      then let (w, g, deadline) = mg_closing m ! i
        in (case deadline of
              None \<Rightarrow> Some (m\<lparr>mg_closing := (mg_closing m)[i := (w, g, Some (now + CLOSE_CAP))]\<rparr>)
            | Some _ \<Rightarrow> None)
      else None)"

definition close_poll :: "instant \<Rightarrow> nat \<Rightarrow> 'f Manager \<Rightarrow> (bool \<times> 'f Manager) option" where
  "close_poll now i m =
     (if i < length (mg_closing m)
      then let (w, g, deadline) = mg_closing m ! i
        in (case deadline of
              None \<Rightarrow> None
            | Some deadline \<Rightarrow>
                map_option (\<lambda>(graceful, m). (graceful, host_call (HostSessionEnded w g)
                  (m\<lparr>mg_closing := take i (mg_closing m) @ drop (Suc i) (mg_closing m)\<rparr>))) (finish now g deadline m))
      else None)"

definition live_windows :: "'f Manager \<Rightarrow> (rstr \<times> nat) list" where
  "live_windows m = List.map_filter (\<lambda>(w, s). map_option (Pair w) (sl_live s)) (mg_windows m)"

definition shutdown_start :: "'f Manager \<Rightarrow> 'f Manager" where
  "shutdown_start m =
     (let lives = sort_key fst (live_windows m);
          m = fold (\<lambda>(w, g). tell g CmdClose) lives (m\<lparr>mg_windows := []\<rparr>)
      in m\<lparr>mg_quitting := mg_quitting m @ [\<lparr>qt_deadline = None, qt_lives = lives,
           qt_report = \<lparr>sr_graceful = 0, sr_abandoned = 0\<rparr>\<rparr>]\<rparr>)"

definition count_end :: "bool \<Rightarrow> ShutdownReport \<Rightarrow> ShutdownReport" where
  "count_end graceful r =
     (if graceful then r\<lparr>sr_graceful := sr_graceful r + 1\<rparr> else r\<lparr>sr_abandoned := sr_abandoned r + 1\<rparr>)"

text \<open>The future of the \<open>i\<close>-th shutdown: its first poll sets the common deadline, then it waits for its sessions one
  after the other.\<close>

definition shutdown_begin :: "instant \<Rightarrow> nat \<Rightarrow> 'f Manager \<Rightarrow> 'f Manager option" where
  "shutdown_begin now i m =
     (if i < length (mg_quitting m)
      then let q = mg_quitting m ! i
        in (if qt_deadline q = None
            then Some (m\<lparr>mg_quitting := (mg_quitting m)[i := q\<lparr>qt_deadline := Some (now + CLOSE_CAP)\<rparr>]\<rparr>)
            else None)
      else None)"

definition shutdown_poll :: "instant \<Rightarrow> nat \<Rightarrow> 'f Manager \<Rightarrow> 'f Manager option" where
  "shutdown_poll now i m =
     (if i < length (mg_quitting m)
      then let q = mg_quitting m ! i
        in (case (qt_deadline q, qt_lives q) of
              (Some deadline, (w, g) # rest) \<Rightarrow>
                map_option (\<lambda>(graceful, m). host_call (HostSessionEnded w g)
                  (m\<lparr>mg_quitting := (mg_quitting m)[i := q\<lparr>qt_lives := rest, qt_report := count_end graceful (qt_report q)\<rparr>]\<rparr>))
                  (finish now g deadline m)
            | _ \<Rightarrow> None)
      else None)"

subsection \<open>The pump\<close>

definition owns :: "'f Manager \<Rightarrow> rstr \<Rightarrow> nat \<Rightarrow> Slot option" where
  "owns m w g = (case slot_for m w of None \<Rightarrow> None | Some s \<Rightarrow> if sl_live s = Some g then Some s else None)"

definition note_live :: "instant \<Rightarrow> Slot \<Rightarrow> Slot" where
  "note_live now s =
     (let live = (vw_screen (sl_view s) \<in> {ScrLive, ScrGreeterHint})
      in if live \<and> sl_live_since s = None then s\<lparr>sl_live_since := Some now\<rparr>
         else if \<not> live \<and> sl_live_since s \<noteq> None then s\<lparr>sl_live_since := None\<rparr>
         else s)"

fun event_calls :: "rstr \<Rightarrow> Uuid \<Rightarrow> 'f AppEvent \<Rightarrow> 'f HostCall list" where
  "event_calls w profile (FromActor (EvState _)) = []"
| "event_calls w profile (FromActor (EvCertificatePrompt _ _ _ _)) = []"
| "event_calls w profile (FromActor (EvCertificatePinned fp)) = [HostCertificatePinned profile fp]"
| "event_calls w profile e = [HostSessionEvent w e]"

definition pump_event :: "'f f64_ops \<Rightarrow> 'f f64_ops \<Rightarrow> instant \<Rightarrow> nat \<Rightarrow> 'f AppEvent \<Rightarrow> 'f Manager \<Rightarrow> 'f Manager option" where
  "pump_event F32 F now g e m =
     (case mg_pumps m g of
        None \<Rightarrow> None
      | Some p \<Rightarrow>
          if pm_done p \<or> pm_last p \<or> pm_calls p \<noteq> [] then None
          else (case owns m (pm_window p) g of
              None \<Rightarrow> Some m
            | Some s \<Rightarrow>
                let (changed, v) = view_apply F32 F e (sl_view s);
                    calls = event_calls (pm_window p) (pm_profile p) e @
                      (if changed then [HostViewChanged (pm_window p) v] else [])
                in Some ((set_slot_for (pm_window p) (note_live now (s\<lparr>sl_view := v\<rparr>)) m)
                     \<lparr>mg_pumps := (mg_pumps m)(g \<mapsto> p\<lparr>pm_calls := calls\<rparr>)\<rparr>)))"

text \<open>The end of the event stream, which comes when the actor has exited.\<close>

definition pump_end :: "nat \<Rightarrow> 'f Manager \<Rightarrow> 'f Manager option" where
  "pump_end g m =
     (case mg_pumps m g of
        None \<Rightarrow> None
      | Some p \<Rightarrow>
          if pm_done p \<or> pm_last p \<or> pm_calls p \<noteq> [] \<or> pm_actor p then None
          else (case owns m (pm_window p) g of
              None \<Rightarrow> Some (m\<lparr>mg_pumps := (mg_pumps m)(g \<mapsto> p\<lparr>pm_done := True\<rparr>)\<rparr>)
            | Some s \<Rightarrow>
                Some ((set_slot_for (pm_window p) (s\<lparr>sl_live := None, sl_live_since := None\<rparr>) m)
                  \<lparr>mg_pumps := (mg_pumps m)(g \<mapsto> p\<lparr>pm_calls := [HostSessionEnded (pm_window p) g], pm_last := True\<rparr>)\<rparr>)))"

definition pump_call :: "nat \<Rightarrow> 'f Manager \<Rightarrow> 'f Manager option" where
  "pump_call g m =
     (case mg_pumps m g of
        None \<Rightarrow> None
      | Some p \<Rightarrow>
          (case pm_calls p of
             [] \<Rightarrow> None
           | c # cs \<Rightarrow>
               Some (host_call c (m\<lparr>mg_pumps := (mg_pumps m)(g \<mapsto> p\<lparr>pm_calls := cs, pm_done := (cs = [] \<and> pm_last p)\<rparr>)\<rparr>))))"

definition actor_exits :: "nat \<Rightarrow> 'f Manager \<Rightarrow> 'f Manager option" where
  "actor_exits g m = map_option (\<lambda>p. m\<lparr>mg_pumps := (mg_pumps m)(g \<mapsto> p\<lparr>pm_actor := False\<rparr>)\<rparr>) (mg_pumps m g)"

definition open_call :: "rstr \<Rightarrow> 'f Manager \<Rightarrow> 'f Manager option" where
  "open_call w m =
     (case map_of (mg_opening m) w of
        Some (c # cs) \<Rightarrow> Some (host_call c (m\<lparr>mg_opening := AList.update w cs (mg_opening m)\<rparr>))
      | _ \<Rightarrow> None)"

definition loose_call :: "nat \<Rightarrow> 'f Manager \<Rightarrow> 'f Manager option" where
  "loose_call i m =
     (if i < length (mg_loose m)
      then Some (host_call (mg_loose m ! i) (m\<lparr>mg_loose := take i (mg_loose m) @ drop (Suc i) (mg_loose m)\<rparr>))
      else None)"

end
