(* ===== verification/App_Manager_Run.thy ===== *)
theory App_Manager_Run
  imports App_Manager
begin

text \<open>
  The session manager as an interleaving of steps: the application opens, closes and asks, pumps take events and make
  their calls, actors exit, and time passes. \<open>custody\<close> counts who still has to report the end of a session; it is
  preserved by every step, as are the form of the tables and of every view.
\<close>

subsection \<open>Steps\<close>

datatype 'f ManagerStep =
    StepOpenTake rstr
  | StepOpenCall rstr
  | StepOpenInsert rstr ConnectionProfile "CommandError option"
  | StepSend rstr "'f SessionCommand"
  | StepDismiss rstr
  | StepToggle rstr
  | StepReconnect rstr
  | StepClose rstr
  | StepCloseBegin instant nat
  | StepClosePoll instant nat
  | StepShutdown
  | StepShutdownBegin instant nat
  | StepShutdownPoll instant nat
  | StepEvent instant nat "'f AppEvent"
  | StepEnd nat
  | StepPumpCall nat
  | StepActorExits nat
  | StepLoose nat

text \<open>The application opens one session of a window at a time: from the thread that builds the window, then from the
  main thread.\<close>

fun manager_step :: "'f f64_ops \<Rightarrow> 'f f64_ops \<Rightarrow> 'f ManagerStep \<Rightarrow> 'f Manager \<Rightarrow> 'f Manager option" where
  "manager_step F32 F (StepOpenTake w) m = (if map_of (mg_opening m) w = None then Some (open_take w m) else None)"
| "manager_step F32 F (StepOpenCall w) m = open_call w m"
| "manager_step F32 F (StepOpenInsert w p spawn) m =
     (if map_of (mg_opening m) w = Some [] then Some (snd (open_insert w p spawn m)) else None)"
| "manager_step F32 F (StepSend w cmd) m = Some (snd (manager_send w cmd m))"
| "manager_step F32 F (StepDismiss w) m = Some (snd (dismiss_certificate w m))"
| "manager_step F32 F (StepToggle w) m = Some (snd (toggle_stats w m))"
| "manager_step F32 F (StepReconnect w) m = Some (snd (manager_reconnect_now w m))"
| "manager_step F32 F (StepClose w) m = Some (close_start w m)"
| "manager_step F32 F (StepCloseBegin now i) m = close_begin now i m"
| "manager_step F32 F (StepClosePoll now i) m = map_option snd (close_poll now i m)"
| "manager_step F32 F StepShutdown m = Some (shutdown_start m)"
| "manager_step F32 F (StepShutdownBegin now i) m = shutdown_begin now i m"
| "manager_step F32 F (StepShutdownPoll now i) m = shutdown_poll now i m"
| "manager_step F32 F (StepEvent now g e) m = pump_event F32 F now g e m"
| "manager_step F32 F (StepEnd g) m = pump_end g m"
| "manager_step F32 F (StepPumpCall g) m = pump_call g m"
| "manager_step F32 F (StepActorExits g) m = actor_exits g m"
| "manager_step F32 F (StepLoose i) m = loose_call i m"

fun manager_run :: "'f f64_ops \<Rightarrow> 'f f64_ops \<Rightarrow> 'f ManagerStep list \<Rightarrow> 'f Manager \<Rightarrow> 'f Manager option" where
  "manager_run F32 F [] m = Some m"
| "manager_run F32 F (s # ss) m = Option.bind (manager_step F32 F s m) (manager_run F32 F ss)"

lemma manager_run_inv:
  assumes "\<And>s m m'. I m \<Longrightarrow> manager_step F32 F s m = Some m' \<Longrightarrow> I m'"
  shows "manager_run F32 F ss m = Some m' \<Longrightarrow> I m \<Longrightarrow> I m'"
proof (induction ss arbitrary: m)
  case (Cons s ss)
  then obtain m1 where "manager_step F32 F s m = Some m1" "manager_run F32 F ss m1 = Some m'"
    by (auto simp: bind_eq_Some_conv)
  then show ?case using Cons assms by blast
qed simp

subsection \<open>Who reports the end of a session\<close>

fun ended_of :: "'f HostCall \<Rightarrow> nat option" where
  "ended_of (HostSessionEnded w g) = Some g"
| "ended_of _ = None"

definition ends :: "'f HostCall list \<Rightarrow> nat \<Rightarrow> nat" where
  "ends cs g = length (filter (\<lambda>c. ended_of c = Some g) cs)"

definition lives :: "(rstr \<times> Slot) list \<Rightarrow> nat \<Rightarrow> nat" where
  "lives ws g = length (filter (\<lambda>(w, s). sl_live s = Some g) ws)"

definition one_if :: "bool \<Rightarrow> nat" where
  "one_if b = (if b then 1 else 0)"

definition awaited :: "(rstr \<times> nat \<times> instant option) list \<Rightarrow> nat \<Rightarrow> nat" where
  "awaited cs g = length (filter (\<lambda>(w, h, d). h = g) cs)"

definition quits :: "Quit list \<Rightarrow> nat \<Rightarrow> nat" where
  "quits qs g = sum_list (map (\<lambda>q. length (filter (\<lambda>(w, h). h = g) (qt_lives q))) qs)"

definition pump_ends :: "'f Manager \<Rightarrow> nat \<Rightarrow> nat" where
  "pump_ends m g = (case mg_pumps m g of None \<Rightarrow> 0 | Some p \<Rightarrow> ends (pm_calls p) g)"

definition openings :: "(rstr \<times> 'f HostCall list) list \<Rightarrow> nat \<Rightarrow> nat" where
  "openings os g = sum_list (map (\<lambda>(w, cs). ends cs g) os)"

definition custody :: "'f Manager \<Rightarrow> nat \<Rightarrow> nat" where
  "custody m g = lives (mg_windows m) g + openings (mg_opening m) g + awaited (mg_closing m) g + quits (mg_quitting m) g +
     pump_ends m g + ends (mg_loose m) g"

definition reported :: "'f Manager \<Rightarrow> nat \<Rightarrow> nat" where
  "reported m g = ends (mg_calls m) g"

definition manager_ok :: "'f Manager \<Rightarrow> bool" where
  "manager_ok m \<longleftrightarrow>
     distinct (map fst (mg_windows m)) \<and> distinct (map fst (mg_opening m)) \<and>
     (\<forall>w cs s. map_of (mg_opening m) w = Some cs \<longrightarrow> slot_for m w = Some s \<longrightarrow> sl_live s = None) \<and>
     (\<forall>g p. mg_pumps m g = Some p \<longrightarrow> (\<forall>h. h \<noteq> g \<longrightarrow> ends (pm_calls p) h = 0) \<and> g \<le> mg_next_generation m) \<and>
     (\<forall>g. custody m g + reported m g = one_if (1 \<le> g \<and> g \<le> mg_next_generation m))"

lemma ends_simps [simp]:
  "ends [] g = 0" "ends (c # cs) g = one_if (ended_of c = Some g) + ends cs g" "ends (as @ bs) g = ends as g + ends bs g"
  by (simp_all add: ends_def one_if_def)

lemma one_if_simps [simp]: "one_if True = 1" "one_if False = 0"
  by (simp_all add: one_if_def)

lemma lives_update:
  "distinct (map fst ws) \<Longrightarrow>
     lives (AList.update w s ws) g + one_if (Option.bind (map_of ws w) sl_live = Some g) = lives ws g + one_if (sl_live s = Some g)"
  by (induction ws) (auto simp: lives_def one_if_def split: if_splits)

lemma lives_delete:
  "distinct (map fst ws) \<Longrightarrow> lives (AList.delete w ws) g + one_if (Option.bind (map_of ws w) sl_live = Some g) = lives ws g"
proof (induction ws)
  case (Cons x ws)
  show ?case
  proof (cases "fst x = w")
    case True
    then have "AList.delete w ws = ws" "map_of ws w = None"
      using Cons.prems by (auto intro!: AList.delete_idem simp: map_of_eq_None_iff)
    then show ?thesis using True by (cases x) (auto simp: lives_def one_if_def)
  next
    case False
    then show ?thesis using Cons by (cases x) (auto simp: lives_def one_if_def)
  qed
qed (simp add: lives_def)

lemma openings_delete:
  "distinct (map fst os) \<Longrightarrow>
     openings (AList.delete w os) g + (case map_of os w of None \<Rightarrow> 0 | Some cs \<Rightarrow> ends cs g) = openings os g"
proof (induction os)
  case (Cons x os)
  show ?case
  proof (cases "fst x = w")
    case True
    then have "AList.delete w os = os" using Cons.prems by (auto intro!: AList.delete_idem)
    then show ?thesis using True by (simp add: openings_def case_prod_unfold)
  next
    case False
    then show ?thesis using Cons by (cases x) (simp add: openings_def)
  qed
qed (simp add: openings_def)

lemma openings_update:
  "distinct (map fst os) \<Longrightarrow> map_of os w = Some cs0 \<Longrightarrow>
     openings (AList.update w cs os) g + ends cs0 g = openings os g + ends cs g"
  by (induction os) (auto simp: openings_def split: if_splits)

lemma awaited_remove:
  assumes "i < length cs" and "cs ! i = (w, h, d)"
  shows "awaited (take i cs @ drop (Suc i) cs) g + one_if (h = g) = awaited cs g"
proof -
  have "cs = take i cs @ (w, h, d) # drop (Suc i) cs" using assms id_take_nth_drop by metis
  then have "awaited cs g = awaited (take i cs @ (w, h, d) # drop (Suc i) cs) g" by simp
  then show ?thesis by (simp add: awaited_def one_if_def)
qed

lemma ends_remove:
  assumes "i < length cs"
  shows "ends (take i cs @ drop (Suc i) cs) g + one_if (ended_of (cs ! i) = Some g) = ends cs g"
proof -
  have "ends cs g = ends (take i cs @ cs ! i # drop (Suc i) cs) g" using assms id_take_nth_drop by metis
  then show ?thesis by (simp only: ends_simps)
qed

lemma quits_lives: "quits qs g = sum_list (map (\<lambda>l. length (filter (\<lambda>(w, h). h = g) l)) (map qt_lives qs))"
  by (simp add: quits_def comp_def)

lemma quits_update:
  assumes "i < length qs" and "qt_lives (qs ! i) = (w, h) # rest" and "qt_lives q = rest"
  shows "quits (qs[i := q]) g + one_if (h = g) = quits qs g"
proof -
  let ?f = "\<lambda>q. length (filter (\<lambda>(w, h). h = g) (qt_lives q))"
  have "quits qs g = sum_list (map ?f (take i qs @ qs ! i # drop (Suc i) qs))"
    using assms(1) id_take_nth_drop unfolding quits_def by metis
  moreover have "quits (qs[i := q]) g = sum_list (map ?f (take i qs @ q # drop (Suc i) qs))"
    using assms(1) by (simp only: quits_def upd_conv_take_nth_drop)
  ultimately show ?thesis using assms(2,3) by (simp add: one_if_def)
qed

subsection \<open>Every step keeps custody\<close>

lemma tell_fields [simp]:
  "mg_windows (tell g cmd m) = mg_windows m" "mg_next_generation (tell g cmd m) = mg_next_generation m"
  "mg_next_order (tell g cmd m) = mg_next_order m" "mg_pumps (tell g cmd m) = mg_pumps m"
  "mg_opening (tell g cmd m) = mg_opening m" "mg_closing (tell g cmd m) = mg_closing m"
  "mg_quitting (tell g cmd m) = mg_quitting m" "mg_loose (tell g cmd m) = mg_loose m" "mg_calls (tell g cmd m) = mg_calls m"
  by (simp_all add: tell_def)

lemma abort_fields [simp]:
  "mg_windows (abort_pump g m) = mg_windows m" "mg_next_generation (abort_pump g m) = mg_next_generation m"
  "mg_next_order (abort_pump g m) = mg_next_order m" "mg_opening (abort_pump g m) = mg_opening m"
  "mg_closing (abort_pump g m) = mg_closing m" "mg_quitting (abort_pump g m) = mg_quitting m"
  "mg_loose (abort_pump g m) = mg_loose m" "mg_calls (abort_pump g m) = mg_calls m" "mg_sent (abort_pump g m) = mg_sent m"
  by (simp_all add: abort_pump_def split: option.split)

lemma abort_pumps:
  "mg_pumps (abort_pump g m) h = Some p \<Longrightarrow> \<exists>p0. mg_pumps m h = Some p0 \<and> pm_calls p = pm_calls p0"
  by (auto simp: abort_pump_def split: option.splits if_splits)

lemma pump_ends_abort [simp]: "pump_ends (abort_pump g m) h = pump_ends m h"
  by (auto simp: pump_ends_def abort_pump_def split: option.split)

lemma slot_for_update: "slot_for (m\<lparr>mg_windows := AList.update w s (mg_windows m)\<rparr>) v = (if v = w then Some s else slot_for m v)"
  by (simp add: slot_for_def AList.update_conv')

lemma slot_for_windows: "mg_windows m' = AList.update w s (mg_windows m) \<Longrightarrow> slot_for m' v = (if v = w then Some s else slot_for m v)"
  by (simp add: slot_for_def AList.update_conv')

lemma slot_for_delete: "mg_windows m' = AList.delete w (mg_windows m) \<Longrightarrow> slot_for m' v = (if v = w then None else slot_for m v)"
  by (simp add: slot_for_def AList.delete_conv')

lemma slot_for_same: "mg_windows m' = mg_windows m \<Longrightarrow> slot_for m' v = slot_for m v"
  by (simp add: slot_for_def)

lemma distinct_AList [simp]:
  "distinct (map fst xs) \<Longrightarrow> distinct (map fst (AList.update k v xs))"
  "distinct (map fst xs) \<Longrightarrow> distinct (map fst (AList.delete k xs))"
  by (simp_all add: AList.distinct_update AList.distinct_delete)

lemmas custody_defs = custody_def reported_def

lemma manager_okD:
  assumes "manager_ok m"
  shows "distinct (map fst (mg_windows m))" and "distinct (map fst (mg_opening m))"
    and "map_of (mg_opening m) w = Some cs \<Longrightarrow> slot_for m w = Some s \<Longrightarrow> sl_live s = None"
    and "mg_pumps m g = Some p \<Longrightarrow> h \<noteq> g \<Longrightarrow> ends (pm_calls p) h = 0"
    and "mg_pumps m g = Some p \<Longrightarrow> g \<le> mg_next_generation m"
    and "custody m g + reported m g = one_if (1 \<le> g \<and> g \<le> mg_next_generation m)"
  using assms unfolding manager_ok_def by blast+

text \<open>A step that leaves the tables and the pumps' calls alone, or changes a view only.\<close>

lemma ok_view_update:
  assumes "manager_ok m" and "slot_for m w = Some s" and "sl_live s' = sl_live s"
    and "mg_windows m' = AList.update w s' (mg_windows m)" and "mg_opening m' = mg_opening m"
    and "mg_next_generation m' = mg_next_generation m"
    and "\<And>g p. mg_pumps m' g = Some p \<Longrightarrow> \<exists>p0. mg_pumps m g = Some p0 \<and> (\<forall>h. ends (pm_calls p) h = ends (pm_calls p0) h)"
    and "\<And>g. pump_ends m' g = pump_ends m g" and "mg_closing m' = mg_closing m" and "mg_quitting m' = mg_quitting m"
    and "\<And>g. ends (mg_loose m') g = ends (mg_loose m) g" and "mg_calls m' = mg_calls m"
  shows "manager_ok m'"
proof -
  note ok = manager_okD [OF assms(1)]
  have "lives (mg_windows m') g = lives (mg_windows m) g" for g
    using lives_update [OF ok(1), of w s' g] assms(2,3,4) by (simp add: slot_for_def)
  then have "custody m' g + reported m' g = one_if (1 \<le> g \<and> g \<le> mg_next_generation m')" for g
    using ok(6) [of g] assms(5-12) by (simp add: custody_defs)
  moreover have "sl_live t = None" if "map_of (mg_opening m') v = Some cs" "slot_for m' v = Some t" for v cs t
    using that ok(3) assms(2-5) by (auto simp: slot_for_windows [OF assms(4)] split: if_splits)
  moreover have "(\<forall>h. h \<noteq> g \<longrightarrow> ends (pm_calls p) h = 0) \<and> g \<le> mg_next_generation m'" if "mg_pumps m' g = Some p" for g p
    using assms(7) [OF that] ok(4,5) assms(6) by fastforce
  ultimately show ?thesis using ok(1,2) assms(4,5) by (auto simp: manager_ok_def)
qed

lemma ok_open_take:
  assumes ok: "manager_ok m" and "map_of (mg_opening m) w = None"
  shows "manager_ok (open_take w m)"
proof -
  note d = manager_okD [OF ok]
  have new: "distinct (map fst (mg_opening m @ [(w, cs)]))" for cs :: "'a HostCall list"
    using d(2) assms(2) by (auto simp: map_of_eq_None_iff)
  have here: "map_of (mg_opening m @ [(w, cs)]) v = (if v = w then Some cs else map_of (mg_opening m) v)" for v cs
    using assms(2) by (auto simp: map_add_def split: option.split)
  have opens: "openings (mg_opening m @ [(w, cs)]) g = openings (mg_opening m) g + ends cs g" for cs g
    by (simp add: openings_def)
  consider (live) s l where "slot_for m w = Some s" "sl_live s = Some l"
    | (idle) "open_take w m = m\<lparr>mg_opening := mg_opening m @ [(w, [])]\<rparr>" "\<And>s. slot_for m w = Some s \<Longrightarrow> sl_live s = None"
    by (cases "slot_for m w"; cases "sl_live (the (slot_for m w))") (auto simp: open_take_def)
  then show ?thesis
  proof cases
    case idle
    have "custody (open_take w m) g + reported (open_take w m) g = custody m g + reported m g" for g
      by (simp add: idle(1) custody_defs opens pump_ends_def)
    then show ?thesis
      using d new idle by (auto simp: manager_ok_def here slot_for_def split: if_splits)
  next
    case live
    let ?s = "s\<lparr>sl_live := None\<rparr>"
    have f: "mg_windows (open_take w m) = AList.update w ?s (mg_windows m)"
      "mg_opening (open_take w m) = mg_opening m @ [(w, [HostSessionEnded w l])]"
      "mg_next_generation (open_take w m) = mg_next_generation m"
      "mg_pumps (open_take w m) = mg_pumps (abort_pump l (tell l CmdClose (set_slot_for w ?s m)))"
      "mg_closing (open_take w m) = mg_closing m" "mg_quitting (open_take w m) = mg_quitting m"
      "mg_loose (open_take w m) = mg_loose m" "mg_calls (open_take w m) = mg_calls m"
      using live by (simp_all add: open_take_def set_slot_for_def Let_def)
    have p: "pump_ends (open_take w m) g = pump_ends m g" for g
    proof -
      have "pump_ends (open_take w m) g = pump_ends (abort_pump l (tell l CmdClose (set_slot_for w ?s m))) g"
        by (simp only: pump_ends_def f(4))
      then show ?thesis unfolding pump_ends_abort by (simp add: pump_ends_def set_slot_for_def)
    qed
    have "lives (mg_windows (open_take w m)) g + one_if (l = g) = lives (mg_windows m) g" for g
      using lives_update [OF d(1), of w ?s g] live by (auto simp: f(1) slot_for_def one_if_def)
    then have "custody (open_take w m) g + reported (open_take w m) g = custody m g + reported m g" for g
      by (simp add: custody_defs f(2,5-8) p opens)
    moreover have "(\<forall>h. h \<noteq> g \<longrightarrow> ends (pm_calls q) h = 0) \<and> g \<le> mg_next_generation m" if "mg_pumps (open_take w m) g = Some q" for g q
      using abort_pumps [of l "tell l CmdClose (set_slot_for w ?s m)" g q] that d(4,5) by (fastforce simp: f(4) set_slot_for_def)
    moreover have "sl_live t = None" if "map_of (mg_opening (open_take w m)) v = Some cs" "slot_for (open_take w m) v = Some t" for v cs t
      using that d(3) unfolding slot_for_windows [OF f(1)] f(2) here by (auto split: if_splits)
    moreover have "distinct (map fst (mg_opening (open_take w m)))" "distinct (map fst (mg_windows (open_take w m)))"
      using new d(1) by (simp_all only: f(1,2) distinct_AList)
    ultimately show ?thesis using d(6) by (simp add: manager_ok_def f(3))
  qed
qed

lemma ok_open_insert:
  assumes ok: "manager_ok m" and "map_of (mg_opening m) w = Some []"
  shows "manager_ok (snd (open_insert w p spawn m))"
proof -
  note d = manager_okD [OF ok]
  have opens: "openings (AList.delete w (mg_opening m)) g = openings (mg_opening m) g" for g
    using openings_delete [OF d(2), of w g] assms(2) by simp
  have rest: "map_of (AList.delete w (mg_opening m)) v = Some cs \<Longrightarrow> v \<noteq> w \<and> map_of (mg_opening m) v = Some cs" for v cs
    by (auto simp: AList.delete_conv' split: if_splits)
  show ?thesis
  proof (cases spawn)
    case (Some e)
    have f: "mg_opening (snd (open_insert w p spawn m)) = AList.delete w (mg_opening m)"
      "slot_for (snd (open_insert w p spawn m)) = slot_for m"
      "custody (snd (open_insert w p spawn m)) g + reported (snd (open_insert w p spawn m)) g = custody m g + reported m g" for g
      by (simp_all add: open_insert_def Some custody_defs opens pump_ends_def slot_for_def fun_eq_iff)
    have "sl_live s = None" if "map_of (mg_opening (snd (open_insert w p spawn m))) v = Some cs"
      "slot_for (snd (open_insert w p spawn m)) v = Some s" for v cs s
      using rest d(3) that unfolding f by blast
    moreover have "(\<forall>h. h \<noteq> g \<longrightarrow> ends (pm_calls q) h = 0) \<and> g \<le> mg_next_generation m" if "mg_pumps m g = Some q" for g q
      using d(4,5) that by blast
    ultimately show ?thesis
      using d(1,2,6) f(3) by (simp add: manager_ok_def f(1)) (simp add: open_insert_def Some)
  next
    case None
    let ?m = "snd (open_insert w p spawn m)" and ?g = "mg_next_generation m + 1"
    obtain order nxt pump slot where f: "mg_windows ?m = AList.update w slot (mg_windows m)" "sl_live slot = Some ?g"
      "mg_opening ?m = AList.delete w (mg_opening m)" "mg_next_generation ?m = ?g" "mg_pumps ?m = (mg_pumps m)(?g \<mapsto> pump)"
      "pm_calls pump = []" "mg_closing ?m = mg_closing m" "mg_quitting ?m = mg_quitting m" "mg_loose ?m = mg_loose m"
      "mg_calls ?m = mg_calls m"
      by (simp add: open_insert_def None set_slot_for_def Let_def case_prod_unfold)
    have free: "Option.bind (map_of (mg_windows m) w) sl_live = None"
      using d(3) [OF assms(2)] by (cases "slot_for m w") (simp_all add: slot_for_def)
    have old: "mg_pumps m ?g = None"
    proof (rule ccontr)
      assume "mg_pumps m ?g \<noteq> None"
      then obtain q where "mg_pumps m ?g = Some q" by blast
      from d(5) [OF this] show False by simp
    qed
    have "lives (mg_windows ?m) g = lives (mg_windows m) g + one_if (?g = g)" for g
      using lives_update [OF d(1), of w slot g] free by (simp add: f(1,2) one_if_def)
    moreover have "pump_ends ?m g = pump_ends m g" for g
      using old by (simp add: pump_ends_def f(5,6))
    ultimately have "custody ?m g + reported ?m g = one_if (1 \<le> g \<and> g \<le> ?g)" for g
      using d(6) [of g] by (auto simp: custody_defs f(3,7-10) opens one_if_def)
    moreover have "sl_live s = None" if "map_of (mg_opening ?m) v = Some cs" "slot_for ?m v = Some s" for v cs s
    proof -
      have "v \<noteq> w \<and> map_of (mg_opening m) v = Some cs" using that(1) rest unfolding f(3) by blast
      moreover from this have "slot_for m v = Some s" using that(2) unfolding slot_for_windows [OF f(1)] by simp
      ultimately show ?thesis using d(3) by blast
    qed
    moreover have "(\<forall>h. h \<noteq> g \<longrightarrow> ends (pm_calls q) h = 0) \<and> g \<le> ?g" if "mg_pumps ?m g = Some q" for g q
    proof (cases "g = ?g")
      case True
      then show ?thesis using that f(5,6) by auto
    next
      case False
      then have "mg_pumps m g = Some q" using that f(5) by simp
      then show ?thesis using d(4,5) le_SucI by fastforce
    qed
    ultimately show ?thesis using d(1,2) by (simp add: manager_ok_def f(1,3,4))
  qed
qed

lemma ok_loose:
  assumes "manager_ok m" and "ended_of c = None"
  shows "manager_ok (call_later c m)"
  using assms by (simp add: manager_ok_def call_later_def custody_defs pump_ends_def slot_for_def)

lemma ok_sent: "manager_ok (tell g cmd m) = manager_ok m"
  by (simp add: manager_ok_def custody_defs pump_ends_def slot_for_def)

lemma ok_view_later:
  assumes "manager_ok m" and "slot_for m w = Some s"
  shows "manager_ok (call_later (HostViewChanged w v) (set_slot_for w (s\<lparr>sl_view := v\<rparr>) m))"
  using assms by (intro ok_loose ok_view_update [OF assms(1,2)]) (auto simp: set_slot_for_def pump_ends_def)

lemma ok_intents:
  assumes "manager_ok m"
  shows "manager_ok (snd (manager_send w cmd m))" and "manager_ok (snd (dismiss_certificate w m))"
    and "manager_ok (snd (toggle_stats w m))" and "manager_ok (snd (manager_reconnect_now w m))"
  using assms ok_view_later [OF assms]
  by (auto simp: manager_send_def dismiss_certificate_def toggle_stats_def manager_reconnect_now_def ok_sent Let_def
      split: option.split)

lemma ok_close_start:
  assumes ok: "manager_ok m"
  shows "manager_ok (close_start w m)"
proof -
  note d = manager_okD [OF ok]
  let ?m = "close_start w m"
  have f: "mg_windows ?m = AList.delete w (mg_windows m)" "mg_opening ?m = mg_opening m" "mg_pumps ?m = mg_pumps m"
    "mg_next_generation ?m = mg_next_generation m" "mg_quitting ?m = mg_quitting m" "mg_loose ?m = mg_loose m"
    "mg_calls ?m = mg_calls m"
    "mg_closing ?m = mg_closing m @ (case live_of m w of None \<Rightarrow> [] | Some g \<Rightarrow> [(w, g, None)])"
    by (simp_all add: close_start_def Let_def split: option.split)
  have "awaited (mg_closing ?m) g = awaited (mg_closing m) g + one_if (live_of m w = Some g)" for g
    by (simp add: f(8) awaited_def one_if_def split: option.split)
  moreover have "lives (mg_windows ?m) g + one_if (live_of m w = Some g) = lives (mg_windows m) g" for g
    using lives_delete [OF d(1), of w g] by (simp add: f(1) live_of_def slot_for_def)
  moreover have "pump_ends ?m g = pump_ends m g" for g by (simp add: pump_ends_def f(3))
  ultimately have "custody ?m g + reported ?m g = custody m g + reported m g" for g
    by (simp add: custody_defs f(2,5-7))
  moreover have "sl_live s = None" if "map_of (mg_opening m) v = Some cs" "slot_for ?m v = Some s" for v cs s
    using that d(3) unfolding slot_for_delete [OF f(1)] by (auto split: if_splits)
  moreover have "(\<forall>h. h \<noteq> g \<longrightarrow> ends (pm_calls q) h = 0) \<and> g \<le> mg_next_generation m" if "mg_pumps m g = Some q" for g q
    using d(4,5) that by blast
  ultimately show ?thesis using d(1,2,6) by (simp add: manager_ok_def f(1-4))
qed

text \<open>A call of the host that takes a report out of somebody's hands.\<close>

lemma ok_report:
  assumes ok: "manager_ok m" and "mg_windows m' = mg_windows m" and "mg_next_generation m' = mg_next_generation m"
    and "distinct (map fst (mg_opening m'))" and "\<And>w cs. map_of (mg_opening m') w = Some cs \<Longrightarrow> map_of (mg_opening m) w \<noteq> None"
    and "\<And>g p. mg_pumps m' g = Some p \<Longrightarrow> \<exists>p0. mg_pumps m g = Some p0 \<and> (\<forall>h. ends (pm_calls p) h \<le> ends (pm_calls p0) h)"
    and "\<And>g. custody m' g + reported m' g = custody m g + reported m g"
  shows "manager_ok m'"
proof -
  note d = manager_okD [OF ok]
  have "sl_live s = None" if "map_of (mg_opening m') v = Some cs" "slot_for m' v = Some s" for v cs s
    using that assms(5) d(3) slot_for_same [OF assms(2)] by fastforce
  moreover have "(\<forall>h. h \<noteq> g \<longrightarrow> ends (pm_calls q) h = 0) \<and> g \<le> mg_next_generation m" if "mg_pumps m' g = Some q" for g q
    using assms(6) [OF that] d(4,5) by (metis le_zero_eq)
  ultimately show ?thesis using d(1,6) assms(2-4,7) by (simp add: manager_ok_def)
qed

lemma host_call_fields [simp]:
  "mg_windows (host_call c m) = mg_windows m" "mg_next_generation (host_call c m) = mg_next_generation m"
  "mg_opening (host_call c m) = mg_opening m" "mg_pumps (host_call c m) = mg_pumps m" "mg_closing (host_call c m) = mg_closing m"
  "mg_quitting (host_call c m) = mg_quitting m" "mg_loose (host_call c m) = mg_loose m"
  "mg_calls (host_call c m) = mg_calls m @ [c]"
  by (simp_all add: host_call_def)

lemma finish_cases:
  assumes "finish now g deadline m = Some (graceful, m')"
  shows "m' = (if graceful then m else abort_pump g m)"
  using assms by (auto simp: finish_def split: if_splits)

lemma ok_close_poll:
  assumes ok: "manager_ok m" and "close_poll now i m = Some (graceful, m')"
  shows "manager_ok m'"
proof -
  obtain w g deadline where i: "i < length (mg_closing m)" "mg_closing m ! i = (w, g, deadline)"
    using assms(2) by (auto simp: close_poll_def split: if_splits prod.splits)
  then obtain dl m1 where m1: "finish now g dl m = Some (graceful, m1)"
    "m' = host_call (HostSessionEnded w g) (m1\<lparr>mg_closing := take i (mg_closing m1) @ drop (Suc i) (mg_closing m1)\<rparr>)"
    using assms(2) by (auto simp: close_poll_def split: option.splits)
  have m1_def: "m1 = (if graceful then m else abort_pump g m)" using finish_cases [OF m1(1)] .
  have c: "mg_closing m1 = mg_closing m" by (simp add: m1_def)
  have pe: "pump_ends m' h = pump_ends m h" for h
  proof -
    have "pump_ends m' h = pump_ends m1 h" by (simp add: m1(2) pump_ends_def)
    then show ?thesis by (simp add: m1_def)
  qed
  have f: "mg_windows m' = mg_windows m" "mg_next_generation m' = mg_next_generation m" "mg_opening m' = mg_opening m"
    "mg_closing m' = take i (mg_closing m) @ drop (Suc i) (mg_closing m)" "mg_quitting m' = mg_quitting m"
    "mg_loose m' = mg_loose m" "mg_calls m' = mg_calls m @ [HostSessionEnded w g]"
    by (simp_all add: m1(2) m1_def)
  have "custody m' h + reported m' h = custody m h + reported m h" for h
    using awaited_remove [OF i, of h] pe [of h] by (simp add: custody_defs f)
  moreover have "\<exists>p0. mg_pumps m h = Some p0 \<and> (\<forall>k. ends (pm_calls p) k \<le> ends (pm_calls p0) k)" if "mg_pumps m' h = Some p" for h p
    using that abort_pumps [of g m h p] by (auto simp: m1(2) m1_def split: if_splits)
  ultimately show ?thesis using manager_okD(2) [OF ok] by (intro ok_report [OF ok]) (simp_all add: f)
qed

lemma ok_begin:
  assumes ok: "manager_ok m"
  shows "close_begin now i m = Some m' \<Longrightarrow> manager_ok m'" and "shutdown_begin now i m = Some m' \<Longrightarrow> manager_ok m'"
proof -
  note same = manager_okD(2) [OF ok] ok_report [OF ok]
  assume "close_begin now i m = Some m'"
  then obtain w g where i: "i < length (mg_closing m)" "mg_closing m ! i = (w, g, None)"
    and m': "m' = m\<lparr>mg_closing := (mg_closing m)[i := (w, g, Some (now + CLOSE_CAP))]\<rparr>"
    by (auto simp: close_begin_def split: if_splits prod.splits option.splits)
  then have "awaited (mg_closing m') h = awaited (mg_closing m) h" for h
    using awaited_remove [OF i, of h] by (simp add: upd_conv_take_nth_drop) (simp add: awaited_def one_if_def split: if_splits)
  then show "manager_ok m'" by (intro same) (auto simp: m' custody_defs pump_ends_def same(1))
next
  note same = manager_okD(2) [OF ok] ok_report [OF ok]
  assume "shutdown_begin now i m = Some m'"
  moreover define q where "q = (mg_quitting m ! i)\<lparr>qt_deadline := Some (now + CLOSE_CAP)\<rparr>"
  ultimately have i: "i < length (mg_quitting m)" and q: "qt_lives q = qt_lives (mg_quitting m ! i)"
    and m': "m' = m\<lparr>mg_quitting := (mg_quitting m)[i := q]\<rparr>"
    by (auto simp: shutdown_begin_def Let_def split: if_splits)
  have "map qt_lives ((mg_quitting m)[i := q]) = map qt_lives (mg_quitting m)"
    using i q by (metis list_update_id map_update)
  then have "quits (mg_quitting m') h = quits (mg_quitting m) h" for h
    by (simp add: quits_lives m')
  then show "manager_ok m'" by (intro same) (auto simp: m' custody_defs pump_ends_def same(1))
qed

lemma fold_tell_fields [simp]:
  "mg_windows (fold (\<lambda>(w, g). tell g CmdClose) ws m) = mg_windows m"
  "mg_next_generation (fold (\<lambda>(w, g). tell g CmdClose) ws m) = mg_next_generation m"
  "mg_pumps (fold (\<lambda>(w, g). tell g CmdClose) ws m) = mg_pumps m"
  "mg_opening (fold (\<lambda>(w, g). tell g CmdClose) ws m) = mg_opening m"
  "mg_closing (fold (\<lambda>(w, g). tell g CmdClose) ws m) = mg_closing m"
  "mg_quitting (fold (\<lambda>(w, g). tell g CmdClose) ws m) = mg_quitting m"
  "mg_loose (fold (\<lambda>(w, g). tell g CmdClose) ws m) = mg_loose m"
  "mg_calls (fold (\<lambda>(w, g). tell g CmdClose) ws m) = mg_calls m"
  by (induction ws arbitrary: m) auto

lemma live_windows_ends: "length (filter (\<lambda>(w, h). h = g) (live_windows m)) = lives (mg_windows m) g"
proof -
  have "length (filter (\<lambda>(w, h). h = g) (List.map_filter (\<lambda>(w, s). map_option (Pair w) (sl_live s)) ws)) = lives ws g" for ws
    by (induction ws) (auto simp: lives_def List.map_filter_def)
  then show ?thesis by (simp add: live_windows_def)
qed

lemma filter_sort_key_length: "length (filter P (sort_key k xs)) = length (filter P xs)"
  by (metis mset_filter mset_sort size_mset)

lemma ok_shutdown_start:
  assumes ok: "manager_ok m"
  shows "manager_ok (shutdown_start m)"
proof -
  note d = manager_okD [OF ok]
  let ?m = "shutdown_start m"
  have f: "mg_windows ?m = []" "mg_opening ?m = mg_opening m" "mg_pumps ?m = mg_pumps m"
    "mg_next_generation ?m = mg_next_generation m" "mg_closing ?m = mg_closing m" "mg_loose ?m = mg_loose m"
    "mg_calls ?m = mg_calls m"
    by (simp_all add: shutdown_start_def Let_def)
  have "quits (mg_quitting ?m) g = quits (mg_quitting m) g + lives (mg_windows m) g" for g
    by (simp add: shutdown_start_def Let_def quits_def filter_sort_key_length live_windows_ends)
  moreover have "pump_ends ?m g = pump_ends m g" for g by (simp add: pump_ends_def f(3))
  moreover have "lives [] g = 0" for g by (simp add: lives_def)
  ultimately have "custody ?m g + reported ?m g = custody m g + reported m g" for g
    by (simp add: custody_defs f)
  moreover have "slot_for ?m v = None" for v by (simp add: slot_for_def f(1))
  moreover have "(\<forall>h. h \<noteq> g \<longrightarrow> ends (pm_calls q) h = 0) \<and> g \<le> mg_next_generation m" if "mg_pumps m g = Some q" for g q
    using d(4,5) that by blast
  ultimately show ?thesis using d(2,6) by (simp add: manager_ok_def f(1-4))
qed

lemma ok_shutdown_poll:
  assumes ok: "manager_ok m" and "shutdown_poll now i m = Some m'"
  shows "manager_ok m'"
proof -
  obtain w g rest where i: "i < length (mg_quitting m)" "qt_lives (mg_quitting m ! i) = (w, g) # rest"
    using assms(2) by (auto simp: shutdown_poll_def Let_def split: if_splits list.splits option.splits)
  then obtain dl graceful m1 q where m1: "finish now g dl m = Some (graceful, m1)"
    "m' = host_call (HostSessionEnded w g) (m1\<lparr>mg_quitting := (mg_quitting m1)[i := q]\<rparr>)" "qt_lives q = rest"
    using assms(2) by (auto simp: shutdown_poll_def Let_def split: option.splits)
  have m1_def: "m1 = (if graceful then m else abort_pump g m)" using finish_cases [OF m1(1)] .
  have pe: "pump_ends m' h = pump_ends m h" for h
  proof -
    have "pump_ends m' h = pump_ends m1 h" by (simp add: m1(2) pump_ends_def)
    then show ?thesis by (simp add: m1_def)
  qed
  have f: "mg_windows m' = mg_windows m" "mg_next_generation m' = mg_next_generation m" "mg_opening m' = mg_opening m"
    "mg_closing m' = mg_closing m" "mg_quitting m' = (mg_quitting m)[i := q]"
    "mg_loose m' = mg_loose m" "mg_calls m' = mg_calls m @ [HostSessionEnded w g]"
    by (simp_all add: m1(2) m1_def)
  have "custody m' h + reported m' h = custody m h + reported m h" for h
    using quits_update [OF i m1(3), of h] pe [of h] by (simp add: custody_defs f)
  moreover have "\<exists>p0. mg_pumps m h = Some p0 \<and> (\<forall>k. ends (pm_calls p) k \<le> ends (pm_calls p0) k)" if "mg_pumps m' h = Some p" for h p
    using that abort_pumps [of g m h p] by (auto simp: m1(2) m1_def split: if_splits)
  ultimately show ?thesis using manager_okD(2) [OF ok] by (intro ok_report [OF ok]) (simp_all add: f)
qed

text \<open>A pump's own step: its calls change, and the report of its session's end only moves.\<close>

lemma event_calls_ends [simp]: "ends (event_calls w profile e) g = 0"
  by (cases "(w, profile, e)" rule: event_calls.cases) (simp_all add: one_if_def)

lemma note_live_live [simp]: "sl_live (note_live now s) = sl_live s"
  by (simp add: note_live_def Let_def)

lemma owns_Some: "owns m w g = Some s \<longleftrightarrow> slot_for m w = Some s \<and> sl_live s = Some g"
  by (auto simp: owns_def split: option.splits)

lemma ok_pump_event:
  assumes ok: "manager_ok m" and "pump_event F32 F now g e m = Some m'"
  shows "manager_ok m'"
proof -
  obtain p where p: "mg_pumps m g = Some p" "pm_calls p = []"
    using assms(2) by (auto simp: pump_event_def split: option.splits if_splits)
  show ?thesis
  proof (cases "owns m (pm_window p) g")
    case None
    then show ?thesis using assms p by (simp add: pump_event_def split: if_splits)
  next
    case (Some s)
    obtain changed v where v: "view_apply F32 F e (sl_view s) = (changed, v)" by fastforce
    let ?p = "p\<lparr>pm_calls := event_calls (pm_window p) (pm_profile p) e @
      (if changed then [HostViewChanged (pm_window p) v] else [])\<rparr>"
    have m': "m' = (set_slot_for (pm_window p) (note_live now (s\<lparr>sl_view := v\<rparr>)) m)\<lparr>mg_pumps := (mg_pumps m)(g \<mapsto> ?p)\<rparr>"
      using assms(2) p Some v by (simp add: pump_event_def Let_def split: if_splits)
    have none: "ends (pm_calls ?p) h = 0" for h by simp
    show ?thesis
    proof (rule ok_view_update [OF ok])
      show "slot_for m (pm_window p) = Some s" using Some by (simp add: owns_Some)
      show "\<exists>q0. mg_pumps m h = Some q0 \<and> (\<forall>k. ends (pm_calls q) k = ends (pm_calls q0) k)" if "mg_pumps m' h = Some q" for h q
        using that p none by (auto simp: m' split: if_splits)
      show "pump_ends m' h = pump_ends m h" for h
        using p none by (simp add: m' pump_ends_def)
    qed (simp_all add: m' set_slot_for_def)
  qed
qed

lemma ok_pump_end:
  assumes ok: "manager_ok m" and "pump_end g m = Some m'"
  shows "manager_ok m'"
proof -
  note d = manager_okD [OF ok]
  obtain p where p: "mg_pumps m g = Some p" "pm_calls p = []"
    using assms(2) by (auto simp: pump_end_def split: option.splits if_splits)
  show ?thesis
  proof (cases "owns m (pm_window p) g")
    case None
    then have m': "m' = m\<lparr>mg_pumps := (mg_pumps m)(g \<mapsto> p\<lparr>pm_done := True\<rparr>)\<rparr>"
      using assms p by (simp add: pump_end_def split: if_splits)
    show ?thesis
    proof (rule ok_report [OF ok])
      show "\<exists>q0. mg_pumps m h = Some q0 \<and> (\<forall>k. ends (pm_calls q) k \<le> ends (pm_calls q0) k)" if "mg_pumps m' h = Some q" for h q
        using that p by (auto simp: m' split: if_splits)
      show "custody m' h + reported m' h = custody m h + reported m h" for h
        using p by (simp add: m' custody_defs pump_ends_def)
    qed (use d(2) in \<open>simp_all add: m'\<close>)
  next
    case (Some s)
    let ?w = "pm_window p" and ?s = "s\<lparr>sl_live := None, sl_live_since := None\<rparr>"
    let ?p = "p\<lparr>pm_calls := [HostSessionEnded ?w g], pm_last := True\<rparr>"
    have m': "m' = (set_slot_for ?w ?s m)\<lparr>mg_pumps := (mg_pumps m)(g \<mapsto> ?p)\<rparr>"
      using assms(2) p Some by (simp add: pump_end_def split: if_splits)
    have s: "map_of (mg_windows m) ?w = Some s" "sl_live s = Some g" using Some by (simp_all add: owns_Some slot_for_def)
    have f: "mg_windows m' = AList.update ?w ?s (mg_windows m)" "mg_opening m' = mg_opening m"
      "mg_next_generation m' = mg_next_generation m" "mg_closing m' = mg_closing m" "mg_quitting m' = mg_quitting m"
      "mg_loose m' = mg_loose m" "mg_calls m' = mg_calls m" "mg_pumps m' = (mg_pumps m)(g \<mapsto> ?p)"
      by (simp_all add: m' set_slot_for_def)
    have "lives (mg_windows m') h + one_if (g = h) = lives (mg_windows m) h" for h
      using lives_update [OF d(1), of ?w ?s h] s by (simp add: f(1) one_if_def)
    moreover have "pump_ends m' h = pump_ends m h + one_if (g = h)" for h
      using p by (cases "h = g") (simp_all add: pump_ends_def f(8) one_if_def)
    ultimately have "custody m' h + reported m' h = custody m h + reported m h" for h
      by (simp add: custody_defs f(2,4-7))
    moreover have "sl_live t = None" if "map_of (mg_opening m) v = Some cs" "slot_for m' v = Some t" for v cs t
      using that d(3) unfolding slot_for_windows [OF f(1)] by (auto split: if_splits)
    moreover have "(\<forall>k. k \<noteq> h \<longrightarrow> ends (pm_calls q) k = 0) \<and> h \<le> mg_next_generation m" if "mg_pumps m' h = Some q" for h q
    proof (cases "h = g")
      case True
      then have "q = ?p" using that f(8) by simp
      then show ?thesis using True d(5) [OF p(1)] by (simp add: one_if_def)
    next
      case False
      then show ?thesis using that d(4,5) by (simp add: f(8))
    qed
    ultimately show ?thesis using d(1,2,6) by (simp add: manager_ok_def f(1-3))
  qed
qed

lemma ok_pump_call:
  assumes ok: "manager_ok m" and "pump_call g m = Some m'"
  shows "manager_ok m'"
proof -
  note d = manager_okD [OF ok]
  obtain p c cs where p: "mg_pumps m g = Some p" "pm_calls p = c # cs"
    and m': "m' = host_call c (m\<lparr>mg_pumps := (mg_pumps m)(g \<mapsto> p\<lparr>pm_calls := cs, pm_done := (cs = [] \<and> pm_last p)\<rparr>)\<rparr>)"
    using assms(2) by (auto simp: pump_call_def split: option.splits list.splits)
  show ?thesis
  proof (rule ok_report [OF ok])
    show "\<exists>q0. mg_pumps m h = Some q0 \<and> (\<forall>k. ends (pm_calls q) k \<le> ends (pm_calls q0) k)" if "mg_pumps m' h = Some q" for h q
      using that p by (auto simp: m' split: if_splits)
    show "custody m' h + reported m' h = custody m h + reported m h" for h
      using p d(4) [OF p(1), of h] by (cases "h = g") (simp_all add: m' custody_defs pump_ends_def)
  qed (use d(2) in \<open>simp_all add: m'\<close>)
qed

lemma ok_actor_exits:
  assumes ok: "manager_ok m" and "actor_exits g m = Some m'"
  shows "manager_ok m'"
proof -
  obtain p where p: "mg_pumps m g = Some p" and m': "m' = m\<lparr>mg_pumps := (mg_pumps m)(g \<mapsto> p\<lparr>pm_actor := False\<rparr>)\<rparr>"
    using assms(2) by (auto simp: actor_exits_def)
  show ?thesis
  proof (rule ok_report [OF ok])
    show "\<exists>q0. mg_pumps m h = Some q0 \<and> (\<forall>k. ends (pm_calls q) k \<le> ends (pm_calls q0) k)" if "mg_pumps m' h = Some q" for h q
      using that p by (auto simp: m' split: if_splits)
    show "custody m' h + reported m' h = custody m h + reported m h" for h
      using p by (cases "h = g") (simp_all add: m' custody_defs pump_ends_def)
  qed (use manager_okD(2) [OF ok] in \<open>simp_all add: m'\<close>)
qed

lemma ok_open_call:
  assumes ok: "manager_ok m" and "open_call w m = Some m'"
  shows "manager_ok m'"
proof -
  note d = manager_okD [OF ok]
  obtain c cs where o: "map_of (mg_opening m) w = Some (c # cs)"
    and m': "m' = host_call c (m\<lparr>mg_opening := AList.update w cs (mg_opening m)\<rparr>)"
    using assms(2) by (auto simp: open_call_def split: option.splits list.splits)
  show ?thesis
  proof (rule ok_report [OF ok])
    show "map_of (mg_opening m) v \<noteq> None" if "map_of (mg_opening m') v = Some ds" for v ds
      using that o by (auto simp: m' AList.update_conv' split: if_splits)
    show "custody m' h + reported m' h = custody m h + reported m h" for h
      using openings_update [OF d(2) o, of cs h] by (simp add: m' custody_defs pump_ends_def)
  qed (use d(2) in \<open>simp_all add: m'\<close>)
qed

lemma ok_loose_call:
  assumes ok: "manager_ok m" and "loose_call i m = Some m'"
  shows "manager_ok m'"
proof -
  have i: "i < length (mg_loose m)"
    and m': "m' = host_call (mg_loose m ! i) (m\<lparr>mg_loose := take i (mg_loose m) @ drop (Suc i) (mg_loose m)\<rparr>)"
    using assms(2) by (auto simp: loose_call_def split: if_splits)
  show ?thesis
  proof (rule ok_report [OF ok])
    show "custody m' h + reported m' h = custody m h + reported m h" for h
      using ends_remove [OF i, of h] by (simp add: m' custody_defs pump_ends_def del: ends_simps(3)) (simp add: ends_simps)
  qed (use manager_okD(2) [OF ok] in \<open>simp_all add: m'\<close>)
qed

subsection \<open>Every run\<close>

lemma ok_new: "manager_ok Manager_new"
  by (simp add: manager_ok_def Manager_new_def slot_for_def custody_defs pump_ends_def one_if_def lives_def openings_def
      awaited_def quits_def)

lemma ok_step:
  assumes "manager_ok m" and "manager_step F32 F s m = Some m'"
  shows "manager_ok m'"
  using assms
proof (cases s)
  case (StepClosePoll now i)
  then obtain graceful where "close_poll now i m = Some (graceful, m')" using assms(2) by auto
  then show ?thesis using ok_close_poll assms(1) by blast
qed (auto intro: ok_open_take ok_open_insert ok_intents ok_close_start ok_begin ok_shutdown_start ok_shutdown_poll ok_pump_event
    ok_pump_end ok_pump_call ok_actor_exits ok_open_call ok_loose_call split: if_splits)

lemma ok_run: "manager_run F32 F ss Manager_new = Some m \<Longrightarrow> manager_ok m"
  using manager_run_inv [of manager_ok F32 F ss Manager_new m] ok_step ok_new by blast

end
