(* ===== verification/App_Menu.thy ===== *)
theory App_Menu
  imports App_Present
begin

text \<open>
  \<open>src-tauri/src/menu.rs\<close> and \<open>dock.rs\<close>: the menu bar and the Dock menu as data, and the ids their clicks come back with.
\<close>

subsection \<open>Actions\<close>

datatype MenuAction =
    ActNewConnection | ActShowConnections | ActEditConnection | ActDisconnect | ActCloseWindow
  | ActSelectSession u32 | ActSendCtrlAltDel | ActReconnect | ActToggleStats | ActQuit | ActToggleRecording

definition SELECT_SESSION_PREFIX :: rstr where
  "SELECT_SESSION_PREFIX = lit ''drift.select-session.''"

fun action_id :: "MenuAction \<Rightarrow> rstr" where
  "action_id ActNewConnection = lit ''drift.new-connection''"
| "action_id ActShowConnections = lit ''drift.show-connections''"
| "action_id ActEditConnection = lit ''drift.edit-connection''"
| "action_id ActDisconnect = lit ''drift.disconnect''"
| "action_id ActCloseWindow = lit ''drift.close-window''"
| "action_id (ActSelectSession n) = SELECT_SESSION_PREFIX @ dec_digits (unat n)"
| "action_id ActSendCtrlAltDel = lit ''drift.send-ctrl-alt-del''"
| "action_id ActReconnect = lit ''drift.reconnect''"
| "action_id ActToggleStats = lit ''drift.toggle-stats''"
| "action_id ActQuit = lit ''drift.quit''"
| "action_id ActToggleRecording = lit ''drift.toggle-recording''"

text \<open>\<open>str::parse::<u32>\<close>: an optional plus sign and decimal digits in range.\<close>

definition parse_u32 :: "rstr \<Rightarrow> u32 option" where
  "parse_u32 s =
     (let d = (case s of c # cs \<Rightarrow> if c = 43 then cs else s | [] \<Rightarrow> s)
      in if d \<noteq> [] \<and> list_all is_ascii_digit d \<and> dec_value d < 2 ^ 32 then Some (of_nat (dec_value d)) else None)"

definition action_from_id :: "rstr \<Rightarrow> MenuAction option" where
  "action_from_id i =
     (case strip_prefix SELECT_SESSION_PREFIX i of
        Some n \<Rightarrow>
          (case parse_u32 n of
             Some n \<Rightarrow> if 1 \<le> n then Some (ActSelectSession n) else None
           | None \<Rightarrow> None)
      | None \<Rightarrow>
          find (\<lambda>a. action_id a = i)
            [ActNewConnection, ActShowConnections, ActEditConnection, ActDisconnect, ActCloseWindow, ActSendCtrlAltDel,
             ActReconnect, ActToggleStats, ActQuit, ActToggleRecording])"

subsection \<open>The menu bar\<close>

datatype Standard =
    StdAbout | StdServices | StdHide | StdHideOthers | StdShowAll | StdUndo | StdRedo | StdCut | StdCopy | StdPaste
  | StdSelectAll | StdMinimize | StdZoom | StdFullscreen

datatype MenuEntry =
    EntryAction (ent_action: MenuAction) (ent_title: rstr) (ent_shortcut: "MenuShortcut option") (ent_enabled: bool)
      (ent_checked: "bool option")
  | EntryHeader rstr
  | EntryStandard Standard
  | EntrySeparator

record SubmenuSpec =
  sub_title :: rstr
  sub_entries :: "MenuEntry list"

definition entry_action :: "MenuAction \<Rightarrow> rstr \<Rightarrow> MenuShortcut option \<Rightarrow> MenuEntry" where
  "entry_action a t s = EntryAction a t s True None"

definition submenu :: "rstr \<Rightarrow> MenuEntry list \<Rightarrow> SubmenuSpec" where
  "submenu t es = \<lparr>sub_title = t, sub_entries = es\<rparr>"

record FileTitles =
  ft_edit :: rstr
  ft_disconnect :: rstr
  ft_enabled :: bool

definition file_titles :: "SessionItem option \<Rightarrow> FileTitles" where
  "file_titles key =
     (case key of
        Some item \<Rightarrow> \<lparr>ft_edit = lit ''Edit '' @ it_name item @ [8230], ft_disconnect = lit ''Disconnect '' @ it_name item,
          ft_enabled = True\<rparr>
      | None \<Rightarrow> \<lparr>ft_edit = lit ''Edit Connection'' @ [8230], ft_disconnect = lit ''Disconnect'', ft_enabled = False\<rparr>)"

definition select_shortcut :: "nat \<Rightarrow> MenuShortcut option" where
  "select_shortcut n = (if n \<le> 9 then Some (SelectSession (of_nat n)) else None)"

definition session_entry :: "rstr option \<Rightarrow> nat \<Rightarrow> SessionItem \<Rightarrow> MenuEntry" where
  "session_entry key n item =
     EntryAction (ActSelectSession (of_nat n)) (item_title item) (select_shortcut n) True (Some (key = Some (it_window item)))"

definition window_sessions :: "SessionItem list \<Rightarrow> rstr option \<Rightarrow> MenuEntry list" where
  "window_sessions sessions key =
     (if sessions = [] then []
      else EntryHeader (lit ''Sessions'') # map2 (session_entry key) [1..<Suc (length sessions)] sessions)"

definition drift_menu :: SubmenuSpec where
  "drift_menu = submenu (lit ''Drift'')
     [EntryStandard StdAbout, EntrySeparator, EntryStandard StdServices, EntrySeparator, EntryStandard StdHide,
      EntryStandard StdHideOthers, EntryStandard StdShowAll, EntrySeparator,
      entry_action ActQuit (lit ''Quit Drift'') (Some Quit)]"

definition file_menu :: "FileTitles \<Rightarrow> SubmenuSpec" where
  "file_menu titles = submenu (lit ''File'')
     [entry_action ActNewConnection (lit ''New Connection'' @ [8230]) (Some NewConnection),
      entry_action ActShowConnections (lit ''Show Connections'') (Some ShowConnections),
      EntrySeparator,
      EntryAction ActEditConnection (ft_edit titles) (Some EditConnection) (ft_enabled titles) None,
      EntryAction ActDisconnect (ft_disconnect titles) (Some Disconnect) (ft_enabled titles) None,
      EntrySeparator,
      entry_action ActCloseWindow (lit ''Close Window'') (Some CloseWindow)]"

definition edit_menu :: SubmenuSpec where
  "edit_menu = submenu (lit ''Edit'')
     [EntryStandard StdUndo, EntryStandard StdRedo, EntrySeparator, EntryStandard StdCut, EntryStandard StdCopy,
      EntryStandard StdPaste, EntryStandard StdSelectAll]"

definition session_menu :: SubmenuSpec where
  "session_menu = submenu (lit ''Session'')
     [entry_action ActSendCtrlAltDel (lit ''Send Ctrl+Alt+Del'') None, entry_action ActReconnect (lit ''Reconnect'') None,
      entry_action ActToggleStats (lit ''Show Statistics'') None]"

definition window_menu :: "SessionItem list \<Rightarrow> rstr option \<Rightarrow> SubmenuSpec" where
  "window_menu sessions key = submenu (lit ''Window'')
     ([EntryStandard StdMinimize, EntryStandard StdZoom, EntryStandard StdFullscreen, EntrySeparator,
       entry_action ActShowConnections (lit ''Connections'') (Some ShowConnections), EntrySeparator] @
      window_sessions sessions key)"

text \<open>\<open>recording\<close> is the cargo feature.\<close>

definition menu_spec :: "bool \<Rightarrow> SessionItem list \<Rightarrow> rstr option \<Rightarrow> SubmenuSpec list" where
  "menu_spec recording sessions key =
     (let titles = file_titles (case key of None \<Rightarrow> None | Some key \<Rightarrow> find (\<lambda>s. it_window s = key) sessions)
      in [drift_menu, file_menu titles, edit_menu, session_menu, window_menu sessions key] @
         (if recording
          then [submenu (lit ''Debug'') [entry_action ActToggleRecording (lit ''Record Session (experimental)'') None]]
          else []))"

fun accelerator :: "MenuShortcut \<Rightarrow> rstr" where
  "accelerator NewConnection = lit ''CmdOrCtrl+N''"
| "accelerator ShowConnections = lit ''CmdOrCtrl+0''"
| "accelerator EditConnection = lit ''CmdOrCtrl+E''"
| "accelerator Disconnect = lit ''CmdOrCtrl+Shift+D''"
| "accelerator CloseWindow = lit ''CmdOrCtrl+W''"
| "accelerator Quit = lit ''CmdOrCtrl+Q''"
| "accelerator (SelectSession n) = lit ''CmdOrCtrl+'' @ dec_digits (unat n)"
| "accelerator CycleWindows = lit ''CmdOrCtrl+Backquote''"

subsection \<open>The Dock menu\<close>

datatype DockAction = DockFocus rstr | DockShowConnections | DockNewConnection

definition FOCUS_PREFIX :: rstr where "FOCUS_PREFIX = lit ''drift.dock.focus.''"

fun dock_id :: "DockAction \<Rightarrow> rstr" where
  "dock_id (DockFocus label) = FOCUS_PREFIX @ label"
| "dock_id DockShowConnections = lit ''drift.dock.connections''"
| "dock_id DockNewConnection = lit ''drift.dock.new-connection''"

definition dock_from_id :: "rstr \<Rightarrow> DockAction option" where
  "dock_from_id i =
     (case strip_prefix FOCUS_PREFIX i of
        Some label \<Rightarrow> if strip_prefix (lit ''session-'') label \<noteq> None then Some (DockFocus label) else None
      | None \<Rightarrow>
          if i = lit ''drift.dock.connections'' then Some DockShowConnections
          else if i = lit ''drift.dock.new-connection'' then Some DockNewConnection
          else None)"

datatype DockItem = DockHeader rstr | DockAct DockAction rstr "rchar option" | DockSeparator

definition dock_menu :: "SessionItem list \<Rightarrow> DockItem list" where
  "dock_menu sessions =
     (if sessions = [] then []
      else DockHeader (lit ''Sessions'') #
        map (\<lambda>s. DockAct (DockFocus (it_window s)) (item_title s) None) sessions @ [DockSeparator]) @
     [DockAct DockShowConnections (lit ''Connections'') (Some 48),
      DockAct DockNewConnection (lit ''New Connection'' @ [8230]) (Some 110)]"

subsection \<open>Clicks and keys\<close>

lemma parse_u32_digits: "parse_u32 (dec_digits (unat (n :: u32))) = Some n"
proof -
  have "c \<noteq> 43" if "c \<in> set (dec_digits (unat n))" for c
    using dec_digits_ascii [OF that] by (auto simp: is_ascii_digit_def)
  then have "(case dec_digits (unat n) of c # cs \<Rightarrow> if c = 43 then cs else dec_digits (unat n) | [] \<Rightarrow> dec_digits (unat n)) = dec_digits (unat n)"
    by (auto split: list.split)
  moreover have "list_all is_ascii_digit (dec_digits (unat n))" by (simp add: list_all_iff dec_digits_ascii)
  ultimately show ?thesis using unsigned_less [of n, where 'a = nat] by (simp add: parse_u32_def)
qed

lemma strip_prefix_append [simp]: "strip_prefix p (p @ s) = Some s"
  by (simp add: strip_prefix_Some)

lemma action_round_trip: "action_from_id (action_id a) = (if a = ActSelectSession 0 then None else Some a)"
proof (cases a)
  case (ActSelectSession n)
  have "1 \<le> n \<longleftrightarrow> n \<noteq> 0" by (simp add: word_le_nat_alt unat_gt_0 Suc_le_eq)
  then show ?thesis using ActSelectSession by (simp add: action_from_id_def parse_u32_digits)
qed (simp_all add: action_from_id_def SELECT_SESSION_PREFIX_def lit_def)

lemma dock_round_trip:
  "dock_from_id (dock_id (DockFocus label)) = (if strip_prefix (lit ''session-'') label \<noteq> None then Some (DockFocus label) else None)"
  "dock_from_id (dock_id DockShowConnections) = Some DockShowConnections"
  "dock_from_id (dock_id DockNewConnection) = Some DockNewConnection"
  by (simp_all add: dock_from_id_def FOCUS_PREFIX_def lit_def)

end
