(* ===== verification/App_Theorems.thy ===== *)
theory App_Theorems
  imports App_Manager_Run App_Menu
begin

text \<open>
  The properties of the session manager, the views and the menus. The state is \<open>App_Manager\<close>'s, runs are
  \<open>App_Manager_Run\<close>'s interleavings of steps.
\<close>

subsection \<open>Views are consistent\<close>

text \<open>The screen and the explanation of a view are the ones its state and its prompt call for.\<close>

definition view_ok :: "SessionView \<Rightarrow> bool" where
  "view_ok v \<longleftrightarrow>
     vw_screen v = (if vw_certificate v \<noteq> None then ScrCertificate else screen_of_state (vw_state v)) \<and>
     vw_explanation v = explanation_of (vw_mode v) (vw_state v)"

fun call_ok :: "'f HostCall \<Rightarrow> bool" where
  "call_ok (HostViewChanged w v) = view_ok v"
| "call_ok _ = True"

definition views_ok :: "'f Manager \<Rightarrow> bool" where
  "views_ok m \<longleftrightarrow>
     (\<forall>w s. (w, s) \<in> set (mg_windows m) \<longrightarrow> view_ok (sl_view s)) \<and>
     (\<forall>w cs. (w, cs) \<in> set (mg_opening m) \<longrightarrow> list_all call_ok cs) \<and>
     (\<forall>g p. mg_pumps m g = Some p \<longrightarrow> list_all call_ok (pm_calls p)) \<and>
     list_all call_ok (mg_loose m) \<and> list_all call_ok (mg_calls m)"

lemma view_ok_refresh [simp]: "view_ok (view_refresh v)"
  by (simp add: view_ok_def view_refresh_def)

lemma view_ok_made [simp]:
  "view_ok (SessionView_new p)" "view_ok (clear_certificate v)" "view_ok (snd (view_apply F32 F e v))"
  "view_ok (v\<lparr>vw_show_stats := b\<rparr>) = view_ok v"
  by (simp_all add: SessionView_new_def clear_certificate_def view_apply_def Let_def view_ok_def view_refresh_def)

lemma event_calls_ok [simp]: "list_all call_ok (event_calls w profile e)"
  by (cases "(w, profile, e)" rule: event_calls.cases) simp_all

lemma update_views:
  "(v, t) \<in> set (AList.update w s ws) \<Longrightarrow> (v, t) = (w, s) \<or> (v, t) \<in> set ws"
  by (induction ws) (auto split: if_splits)

lemma delete_views: "x \<in> set (AList.delete w ws) \<Longrightarrow> x \<in> set ws"
  by (simp add: AList.delete_eq)

lemma slot_view_ok: "views_ok m \<Longrightarrow> slot_for m w = Some s \<Longrightarrow> view_ok (sl_view s)"
  by (auto simp: views_ok_def slot_for_def dest: map_of_SomeD)

lemma views_ok_slot:
  "views_ok m \<Longrightarrow> view_ok (sl_view s) \<Longrightarrow> views_ok (set_slot_for w s m)"
  unfolding views_ok_def set_slot_for_def by (auto dest!: update_views)

lemma views_ok_later: "views_ok m \<Longrightarrow> call_ok c \<Longrightarrow> views_ok (call_later c m)"
  by (auto simp: views_ok_def call_later_def)

lemma views_ok_call: "views_ok m \<Longrightarrow> call_ok c \<Longrightarrow> views_ok (host_call c m)"
  by (auto simp: views_ok_def host_call_def)

lemma views_ok_tell [simp]: "views_ok (tell g cmd m) = views_ok m"
  by (simp add: views_ok_def)

lemma views_ok_pump:
  "views_ok m \<Longrightarrow> list_all call_ok (pm_calls p) \<Longrightarrow> views_ok (m\<lparr>mg_pumps := (mg_pumps m)(g \<mapsto> p)\<rparr>)"
  by (auto simp: views_ok_def)

lemma views_ok_abort: "views_ok m \<Longrightarrow> views_ok (abort_pump g m)"
  by (auto simp: abort_pump_def views_ok_def split: option.splits)

lemma views_ok_finish: "views_ok m \<Longrightarrow> finish now g d m = Some (graceful, m') \<Longrightarrow> views_ok m'"
  by (auto simp: views_ok_abort dest: finish_cases)

lemma views_ok_frames [simp]:
  "views_ok (m\<lparr>mg_closing := c\<rparr>) = views_ok m" "views_ok (m\<lparr>mg_quitting := q\<rparr>) = views_ok m"
  "views_ok (m\<lparr>mg_next_generation := n\<rparr>) = views_ok m" "views_ok (m\<lparr>mg_next_order := n\<rparr>) = views_ok m"
  by (simp_all add: views_ok_def)

lemma views_ok_pumps_calls: "views_ok m \<Longrightarrow> mg_pumps m g = Some p \<Longrightarrow> list_all call_ok (pm_calls p)"
  by (simp add: views_ok_def)

lemma views_ok_take: "views_ok m \<Longrightarrow> views_ok (open_take w m)"
proof -
  assume ok: "views_ok m"
  have add: "views_ok (k\<lparr>mg_opening := os @ [(w, cs)]\<rparr>)" if "views_ok k" "list_all call_ok cs" "mg_opening k = os"
    for k :: "'f Manager" and cs os
    using that by (auto simp: views_ok_def)
  show ?thesis
    using ok slot_view_ok [OF ok, of w]
    by (auto simp: open_take_def Let_def intro!: add views_ok_abort views_ok_slot split: option.split)
qed

lemma views_ok_insert: "views_ok m \<Longrightarrow> views_ok (snd (open_insert w p spawn m))"
proof -
  assume ok: "views_ok m"
  then have d: "views_ok (m\<lparr>mg_opening := AList.delete w (mg_opening m)\<rparr>)"
    by (auto simp: views_ok_def dest: delete_views)
  have u: "views_ok (k\<lparr>mg_next_generation := g, mg_next_order := n, mg_pumps := (mg_pumps k)(g \<mapsto> q)\<rparr>)"
    if "views_ok k" "pm_calls q = []" for k :: "'f Manager" and g n q
    using that by (auto simp: views_ok_def)
  show ?thesis
  proof (cases spawn)
    case None
    then show ?thesis
      using u [OF d] by (auto simp: open_insert_def Let_def case_prod_unfold intro!: views_ok_slot)
  qed (use d in \<open>simp add: open_insert_def\<close>)
qed

lemma views_ok_intents:
  assumes "views_ok m"
  shows "views_ok (snd (manager_send w cmd m))" and "views_ok (snd (dismiss_certificate w m))"
    and "views_ok (snd (toggle_stats w m))" and "views_ok (snd (manager_reconnect_now w m))"
  using assms
  by (auto simp: manager_send_def dismiss_certificate_def toggle_stats_def manager_reconnect_now_def Let_def
      intro!: views_ok_later views_ok_slot dest: slot_view_ok split: option.split)

lemma views_ok_close: "views_ok m \<Longrightarrow> views_ok (close_start w m)"
proof -
  assume "views_ok m"
  then have "views_ok (m\<lparr>mg_windows := AList.delete w (mg_windows m)\<rparr>)"
    by (auto simp: views_ok_def dest: delete_views)
  then show ?thesis by (auto simp: close_start_def Let_def split: option.split)
qed

lemma views_ok_waits:
  assumes "views_ok m"
  shows "close_begin now i m = Some m' \<Longrightarrow> views_ok m'" and "shutdown_begin now i m = Some m' \<Longrightarrow> views_ok m'"
    and "close_poll now i m = Some (graceful, m') \<Longrightarrow> views_ok m'" and "shutdown_poll now i m = Some m' \<Longrightarrow> views_ok m'"
    and "views_ok (shutdown_start m)"
proof -
  show "close_begin now i m = Some m' \<Longrightarrow> views_ok m'"
    using assms by (auto simp: close_begin_def split: if_splits prod.splits option.splits)
  show "shutdown_begin now i m = Some m' \<Longrightarrow> views_ok m'"
    using assms by (auto simp: shutdown_begin_def Let_def split: if_splits)
  show "close_poll now i m = Some (graceful, m') \<Longrightarrow> views_ok m'"
    using views_ok_finish [OF assms] by (auto simp: close_poll_def intro!: views_ok_call split: if_splits prod.splits option.splits)
  show "shutdown_poll now i m = Some m' \<Longrightarrow> views_ok m'"
    using views_ok_finish [OF assms]
    by (auto simp: shutdown_poll_def Let_def intro!: views_ok_call split: if_splits option.splits list.splits)
  show "views_ok (shutdown_start m)" using assms by (simp add: shutdown_start_def Let_def views_ok_def)
qed

lemma views_ok_pump_steps:
  assumes "views_ok m"
  shows "pump_event F32 F now g e m = Some m' \<Longrightarrow> views_ok m'" and "pump_end g m = Some m' \<Longrightarrow> views_ok m'"
    and "pump_call g m = Some m' \<Longrightarrow> views_ok m'" and "actor_exits g m = Some m' \<Longrightarrow> views_ok m'"
proof -
  have note_view: "sl_view (note_live now s) = sl_view s" for s by (simp add: note_live_def Let_def)
  have upd: "views_ok ((set_slot_for w s m)\<lparr>mg_pumps := (mg_pumps m)(g \<mapsto> p)\<rparr>)"
    if "view_ok (sl_view s)" "list_all call_ok (pm_calls p)" for w s g p
    using views_ok_pump [OF views_ok_slot [OF assms that(1)] that(2)] by (simp add: set_slot_for_def)
  show "pump_event F32 F now g e m = Some m' \<Longrightarrow> views_ok m'"
  proof -
    assume *: "pump_event F32 F now g e m = Some m'"
    then obtain p where p: "mg_pumps m g = Some p" by (auto simp: pump_event_def split: option.splits)
    show "views_ok m'"
    proof (cases "owns m (pm_window p) g")
      case None
      then show ?thesis using * p assms by (simp add: pump_event_def split: if_splits)
    next
      case (Some s)
      obtain changed v where v: "view_apply F32 F e (sl_view s) = (changed, v)" by fastforce
      then have "view_ok v" using view_ok_made(3) [of F32 F e "sl_view s"] by simp
      then show ?thesis using * p Some v by (auto simp: pump_event_def note_view intro!: upd split: if_splits)
    qed
  qed
  show "pump_end g m = Some m' \<Longrightarrow> views_ok m'"
    using assms by (auto simp: pump_end_def owns_Some intro!: upd views_ok_pump dest: slot_view_ok split: option.splits if_splits)
  show "pump_call g m = Some m' \<Longrightarrow> views_ok m'"
    using assms views_ok_pumps_calls [OF assms]
    by (fastforce simp: pump_call_def intro!: views_ok_call views_ok_pump split: option.splits list.splits)
  show "actor_exits g m = Some m' \<Longrightarrow> views_ok m'"
    using assms views_ok_pumps_calls [OF assms] by (auto simp: actor_exits_def intro!: views_ok_pump)
qed

lemma views_ok_calls:
  assumes "views_ok m"
  shows "open_call w m = Some m' \<Longrightarrow> views_ok m'" and "loose_call i m = Some m' \<Longrightarrow> views_ok m'"
proof -
  show "open_call w m = Some m' \<Longrightarrow> views_ok m'"
  proof -
    assume "open_call w m = Some m'"
    then obtain c cs where o: "map_of (mg_opening m) w = Some (c # cs)"
      and m': "m' = host_call c (m\<lparr>mg_opening := AList.update w cs (mg_opening m)\<rparr>)"
      by (auto simp: open_call_def split: option.splits list.splits)
    have c: "list_all call_ok (c # cs)" using assms map_of_SomeD [OF o] unfolding views_ok_def by blast
    then have "views_ok (m\<lparr>mg_opening := AList.update w cs (mg_opening m)\<rparr>)"
      using assms by (auto simp: views_ok_def dest!: update_views)
    then show "views_ok m'" using c by (simp add: m' views_ok_call)
  qed
  show "loose_call i m = Some m' \<Longrightarrow> views_ok m'"
    using assms
    by (auto simp: loose_call_def views_ok_def host_call_def list_all_iff split: if_splits dest!: in_set_takeD in_set_dropD)
qed

lemma views_ok_step:
  assumes "views_ok m" and "manager_step F32 F s m = Some m'"
  shows "views_ok m'"
  using assms
proof (cases s)
  case (StepClosePoll now i)
  then obtain graceful where "close_poll now i m = Some (graceful, m')" using assms(2) by auto
  then show ?thesis using views_ok_waits(3) assms(1) by blast
qed (auto intro: views_ok_take views_ok_insert views_ok_intents views_ok_close views_ok_waits views_ok_pump_steps views_ok_calls
    split: if_splits)

lemma views_ok_new: "views_ok Manager_new"
  by (simp add: views_ok_def Manager_new_def)

text \<open>C23: In every interleaving, every view a window holds and every view a page is shown is consistent: its screen is the
  one of its state, or the certificate prompt while one is open, and it carries an explanation exactly when the
  session has ended.\<close>

theorem views_well_formed:
  assumes "manager_run F32 F ss Manager_new = Some m"
  shows "views_ok m"
  using manager_run_inv [of views_ok F32 F ss Manager_new m] views_ok_step views_ok_new assms by blast

subsection \<open>Every session ends once\<close>

text \<open>C5: In every interleaving of opens, closes, shutdowns and pumps, the end of a started session is reported to the host
  at most once, and exactly when nobody holds the session any more: no window, no open, close or shutdown under way
  and no pump.\<close>

theorem sessions_end_once:
  assumes "manager_run F32 F ss Manager_new = Some m"
  shows "custody m g \<le> 1 \<and> reported m g \<le> 1 \<and>
    (reported m g = 1 \<longleftrightarrow> 1 \<le> g \<and> g \<le> mg_next_generation m \<and> custody m g = 0) \<and>
    (live_of m w = Some g \<longrightarrow> reported m g = 0)"
proof -
  note d = manager_okD [OF ok_run [OF assms]]
  have "lives (mg_windows m) g \<ge> 1" if "live_of m w = Some g"
    using lives_delete [OF d(1), of w g] that by (simp add: live_of_def slot_for_def)
  then show ?thesis
    using d(6) [of g] by (auto simp: custody_def one_if_def split: if_splits)
qed

subsection \<open>Shutting down\<close>

text \<open>\<open>n\<close> polls of the \<open>i\<close>-th shutdown.\<close>

fun await_ends :: "instant \<Rightarrow> nat \<Rightarrow> nat \<Rightarrow> 'f Manager \<Rightarrow> 'f Manager option" where
  "await_ends now i 0 m = Some m"
| "await_ends now i (Suc n) m = Option.bind (shutdown_poll now i m) (await_ends now i n)"

lemma finish_due: "deadline \<le> now \<Longrightarrow> \<exists>graceful m1. finish now g deadline m = Some (graceful, m1)"
  by (cases "pump_done m g") (auto simp: finish_def)

lemma poll_due:
  assumes "i < length (mg_quitting m)" and "mg_quitting m ! i = q" and "qt_deadline q = Some deadline" and "deadline \<le> now"
    and "qt_lives q = (w, g) # rest"
  shows "\<exists>graceful m'. shutdown_poll now i m = Some m' \<and> mg_windows m' = mg_windows m \<and>
    mg_quitting m' = (mg_quitting m)[i := q\<lparr>qt_lives := rest, qt_report := count_end graceful (qt_report q)\<rparr>] \<and>
    mg_calls m' = mg_calls m @ [HostSessionEnded w g]"
proof -
  obtain graceful m1 where f: "finish now g deadline m = Some (graceful, m1)" using finish_due [OF assms(4)] by blast
  then have "m1 = (if graceful then m else abort_pump g m)" by (rule finish_cases)
  then show ?thesis using assms f by (auto simp: shutdown_poll_def)
qed

lemma await_due:
  assumes "i < length (mg_quitting m)" and "mg_quitting m ! i = q" and "qt_deadline q = Some deadline" and "deadline \<le> now"
  shows "\<exists>m' q'. await_ends now i (length (qt_lives q)) m = Some m' \<and> mg_windows m' = mg_windows m \<and>
    mg_quitting m' = (mg_quitting m)[i := q'] \<and> qt_lives q' = [] \<and>
    sr_graceful (qt_report q') + sr_abandoned (qt_report q') =
      sr_graceful (qt_report q) + sr_abandoned (qt_report q) + length (qt_lives q) \<and>
    mg_calls m' = mg_calls m @ map (\<lambda>(w, g). HostSessionEnded w g) (qt_lives q)"
  using assms
proof (induction "qt_lives q" arbitrary: m q)
  case Nil
  then have "mg_quitting m = (mg_quitting m)[i := q]" by (metis list_update_id)
  then show ?case using Nil.hyps [symmetric] by (intro exI [of _ m] exI [of _ q]) simp
next
  case (Cons x rest)
  obtain w g where x: "x = (w, g)" by fastforce
  obtain graceful m1 where p: "shutdown_poll now i m = Some m1" "mg_windows m1 = mg_windows m"
    "mg_quitting m1 = (mg_quitting m)[i := q\<lparr>qt_lives := rest, qt_report := count_end graceful (qt_report q)\<rparr>]"
    "mg_calls m1 = mg_calls m @ [HostSessionEnded w g]"
    using poll_due [OF Cons.prems, of w g rest] Cons.hyps(2) x by auto
  let ?q = "q\<lparr>qt_lives := rest, qt_report := count_end graceful (qt_report q)\<rparr>"
  have n: "sr_graceful (count_end graceful r) + sr_abandoned (count_end graceful r) = Suc (sr_graceful r + sr_abandoned r)" for r
    by (simp add: count_end_def)
  from Cons.hyps(1) [of ?q m1] Cons.prems p
  obtain m' q' where "await_ends now i (length rest) m1 = Some m'" "mg_windows m' = mg_windows m1"
    "mg_quitting m' = (mg_quitting m1)[i := q']" "qt_lives q' = []"
    "sr_graceful (qt_report q') + sr_abandoned (qt_report q') = Suc (sr_graceful (qt_report q) + sr_abandoned (qt_report q) + length rest)"
    "mg_calls m' = mg_calls m1 @ map (\<lambda>(w, g). HostSessionEnded w g) rest"
    by (auto simp: n)
  then show ?case using p Cons.hyps(2) [symmetric] x by (intro exI [of _ m'] exI [of _ q']) simp
qed

lemma sent_to_all:
  "mg_sent (fold (\<lambda>(w, g). tell g CmdClose) ws m) = mg_sent m @ map (\<lambda>(w, g). (g, CmdClose)) (filter (actor_up m \<circ> snd) ws)"
proof (induction ws arbitrary: m)
  case (Cons x ws)
  have "actor_up (tell g cmd m) = actor_up m" for g cmd by (simp add: actor_up_def fun_eq_iff)
  then show ?case using Cons by (cases x) (simp add: tell_def)
qed simp

lemma live_windows_length: "length (live_windows m) = live_sessions m"
proof -
  have "length (List.map_filter (\<lambda>(w, s). map_option (Pair w) (sl_live s)) ws) = length (filter (\<lambda>(w, s). sl_live s \<noteq> None) ws)" for ws
    by (induction ws) (auto simp: List.map_filter_def)
  then show ?thesis by (simp add: live_windows_def live_sessions_def)
qed

text \<open>C22: Quitting ends within the cap whatever the actors do: every live session is told to close at once, and a shutdown
  has, at the cap from its first poll or later, ended every session with one report each, in the order of the
  windows, and counted each as graceful or abandoned.\<close>

theorem shutdown_completes:
  "let i = length (mg_quitting m); gone = sort_key fst (live_windows m)
   in mg_windows (shutdown_start m) = [] \<and>
    mg_sent (shutdown_start m) = mg_sent m @ map (\<lambda>(w, g). (g, CmdClose)) (filter (actor_up m \<circ> snd) gone) \<and>
    (\<exists>m1 m2. shutdown_begin now i (shutdown_start m) = Some m1 \<and>
       await_ends (now + CLOSE_CAP + late) i (live_sessions m) m1 = Some m2 \<and> mg_windows m2 = [] \<and>
       qt_lives (mg_quitting m2 ! i) = [] \<and>
       sr_graceful (qt_report (mg_quitting m2 ! i)) + sr_abandoned (qt_report (mg_quitting m2 ! i)) = live_sessions m \<and>
       mg_calls m2 = mg_calls m @ map (\<lambda>(w, g). HostSessionEnded w g) gone)"
proof -
  define i where "i = length (mg_quitting m)"
  define gone where "gone = sort_key fst (live_windows m)"
  define q where "q = \<lparr>qt_deadline = Some (now + CLOSE_CAP), qt_lives = gone, qt_report = \<lparr>sr_graceful = 0, sr_abandoned = 0\<rparr>\<rparr>"
  let ?m0 = "shutdown_start m"
  let ?m1 = "?m0\<lparr>mg_quitting := mg_quitting m @ [q]\<rparr>"
  have q0: "mg_quitting ?m0 = mg_quitting m @ [q\<lparr>qt_deadline := None\<rparr>]"
    by (simp add: shutdown_start_def Let_def q_def gone_def)
  have w0: "mg_windows ?m0 = []" "mg_calls ?m0 = mg_calls m" by (simp_all add: shutdown_start_def Let_def)
  have s0: "mg_sent ?m0 = mg_sent m @ map (\<lambda>(w, g). (g, CmdClose)) (filter (actor_up m \<circ> snd) gone)"
    by (simp add: shutdown_start_def Let_def sent_to_all gone_def actor_up_def comp_def)
  have b: "shutdown_begin now i ?m0 = Some ?m1" by (simp add: shutdown_begin_def q0 i_def q_def Let_def)
  have len: "length (qt_lives q) = live_sessions m" by (simp add: q_def gone_def live_windows_length)
  have at: "i < length (mg_quitting ?m1)" "mg_quitting ?m1 ! i = q" "qt_deadline q = Some (now + CLOSE_CAP)"
    by (simp_all add: i_def q_def)
  obtain m2 q' where "await_ends (now + CLOSE_CAP + late) i (length (qt_lives q)) ?m1 = Some m2"
    "mg_windows m2 = mg_windows ?m1" "mg_quitting m2 = (mg_quitting ?m1)[i := q']" "qt_lives q' = []"
    "sr_graceful (qt_report q') + sr_abandoned (qt_report q') =
      sr_graceful (qt_report q) + sr_abandoned (qt_report q) + length (qt_lives q)"
    "mg_calls m2 = mg_calls ?m1 @ map (\<lambda>(w, g). HostSessionEnded w g) (qt_lives q)"
    using await_due [OF at, of "now + CLOSE_CAP + late"] by auto
  then show ?thesis
    using w0 s0 b len at(1) unfolding Let_def i_def [symmetric] gone_def [symmetric]
    by (intro conjI exI [of _ ?m1] exI [of _ m2]) (simp_all add: q_def)
qed

subsection \<open>Views and the keyboard\<close>

text \<open>The screens.\<close>

lemma remote_focus_iff: "view_ok v \<Longrightarrow> focus_for (surface_for v) = FocusRemote \<longleftrightarrow> vw_certificate v = None \<and> picture_live (vw_state v)"
  by (cases "vw_state v") (auto simp: view_ok_def surface_for_def hud_for_def picture_live_def split: option.splits)

lemma confirm_iff: "view_ok v \<Longrightarrow> close_needs_confirmation v \<longleftrightarrow>
    vw_certificate v = None \<and> (picture_live (vw_state v) \<or> waits_to_reconnect (vw_state v))"
  by (cases "vw_state v") (auto simp: view_ok_def close_needs_confirmation_def picture_live_def)

text \<open>C24: A view is what the history of a session tells: its last state, the prompt since then, the last sample since the
  picture was last lost. The keyboard belongs to the remote exactly while the session is connected or at the greeter
  with no prompt open, and closing the window asks first exactly then or while the session reconnects.\<close>

theorem view_tells_history:
  "view_after F32 F p es =
    \<lparr>vw_profile_name = name p, vw_mode = mode p, vw_linux_username = linux_username p, vw_state = told_state es,
     vw_screen = (if told_prompt (mode p) es \<noteq> None then ScrCertificate else screen_of_state (told_state es)),
     vw_certificate = told_prompt (mode p) es, vw_explanation = explanation_of (mode p) (told_state es),
     vw_resuming = told_resuming es, vw_max_attempts = max_attempts ReconnectConfig_default,
     vw_show_stats = odd (length (filter (\<lambda>e. e = StatsSwitched) es)),
     vw_stats = map_option (StatsView_sample F32 F) (told_sample es)\<rparr> \<and>
   (focus_for (surface_for (view_after F32 F p es)) = FocusRemote \<longleftrightarrow>
      told_prompt (mode p) es = None \<and> picture_live (told_state es)) \<and>
   (close_action label (Some (view_after F32 F p es)) = CloseConfirm \<longleftrightarrow>
      label \<noteq> CONNECTIONS_WINDOW \<and> told_prompt (mode p) es = None \<and>
      (picture_live (told_state es) \<or> waits_to_reconnect (told_state es)))"
proof -
  let ?v = "view_after F32 F p es"
  note v = view_after_ok [of F32 F p es]
  have "view_ok ?v" by (simp add: view_ok_def v)
  then show ?thesis
    using remote_focus_iff [of ?v] confirm_iff [of ?v] v by (auto simp: close_action_def)
qed

subsection \<open>Menus\<close>








subsection \<open>Races\<close>

text \<open>\<open>session_ended\<close> of a session is documented to run before the window's next session is spawned. When the actor
  exits by itself, the pump forgets the session first and reports it after: a reconnect in between finds no live
  session, spawns the next one, and the report then reaches the window of the new session.\<close>

lemma late_end_after_reopen:
  "\<exists>m. manager_run F32 F [StepOpenTake w, StepOpenInsert w p None, StepActorExits 1, StepEnd 1,
      StepOpenTake w, StepOpenInsert w p None, StepPumpCall 1] Manager_new = Some m \<and>
     live_of m w = Some 2 \<and> mg_calls m = [HostSessionEnded w 1]"
  by (simp add: Manager_new_def open_take_def open_insert_def slot_for_def set_slot_for_def actor_exits_def pump_end_def owns_def
      pump_call_def host_call_def live_of_def Let_def)

text \<open>No view is documented to reach a window after its close. A pump that has folded an event calls the host after it
  has left the manager's lock, and a close in between does not keep it from doing so.\<close>

lemma view_after_close:
  "\<exists>m v. manager_run F32 F [StepOpenTake w, StepOpenInsert w p None,
      StepEvent now 1 (FromActor (EvCertificatePrompt h pt fp role)), StepClose w, StepPumpCall 1] Manager_new = Some m \<and>
     slot_for m w = None \<and> mg_calls m = [HostViewChanged w v]"
  by (simp add: Manager_new_def open_take_def open_insert_def slot_for_def set_slot_for_def pump_event_def owns_def
      pump_call_def host_call_def live_of_def close_start_def view_apply_def SessionView_new_def view_refresh_def note_live_def Let_def)

subsection \<open>Witnesses\<close>

definition lab_run :: "rat option ManagerStep list" where
  "lab_run = [StepOpenTake [108], StepOpenInsert [108] (ConnectionProfile_new 7 [76] [104] Headless) None,
     StepToggle [108], StepLoose 0, StepActorExits 1, StepEnd 1, StepPumpCall 1]"

lemma lab_runs:
  "\<exists>m. manager_run rat_f64 rat_f64 lab_run Manager_new = Some m \<and> mg_next_generation m = 1 \<and> reported m 1 = 1"
  by (simp add: lab_run_def Manager_new_def open_take_def open_insert_def slot_for_def set_slot_for_def actor_exits_def pump_end_def
      owns_def pump_call_def host_call_def toggle_stats_def call_later_def loose_call_def reported_def Let_def)

theorem views_well_formed_witness:
  "views_ok (the (manager_run rat_f64 rat_f64 lab_run Manager_new))"
proof -
  obtain m where "manager_run rat_f64 rat_f64 lab_run Manager_new = Some m" using lab_runs by blast
  then show ?thesis using views_well_formed by fastforce
qed

theorem sessions_end_once_witness:
  "reported (the (manager_run rat_f64 rat_f64 lab_run Manager_new)) 1 = 1 \<and>
   custody (the (manager_run rat_f64 rat_f64 lab_run Manager_new)) 1 = 0"
proof -
  obtain m where "manager_run rat_f64 rat_f64 lab_run Manager_new = Some m" "reported m 1 = 1" using lab_runs by blast
  then show ?thesis using sessions_end_once [of rat_f64 rat_f64 lab_run m 1 "[108]"] by simp
qed


end
