(* ===== verification/App_Profiles.thy ===== *)
theory App_Profiles
  imports Core_Store App_Manager
begin

text \<open>
  \<open>src-tauri/src/profiles.rs\<close> and \<open>secrets.rs\<close>: the saved profiles with their passwords. The file's steps may fail
  (the \<open>Io\<close> of an operation says which, and what a failing write leaves behind); the secret store is a record of
  functions on its state, \<open>memory_store\<close> the one of the code, the Keychain a parameter that keeps the laws of the
  locale \<open>secret_store\<close>. Operations run one at a time.
\<close>

subsection \<open>Passwords\<close>

text \<open>Errors are the messages; \<open>has\<close> answers without reading the value.\<close>

record 'k SecretStore =
  sk_set :: "Uuid \<Rightarrow> SecretRole \<Rightarrow> rstr \<Rightarrow> 'k \<Rightarrow> (rstr, unit) result \<times> 'k"
  sk_get :: "Uuid \<Rightarrow> SecretRole \<Rightarrow> 'k \<Rightarrow> (rstr, rstr option) result"
  sk_delete :: "Uuid \<Rightarrow> SecretRole \<Rightarrow> 'k \<Rightarrow> (rstr, unit) result \<times> 'k"
  sk_has :: "Uuid \<Rightarrow> SecretRole \<Rightarrow> 'k \<Rightarrow> bool"

type_synonym SecretMap = "Uuid \<times> SecretRole \<Rightarrow> rstr option"

definition memory_store :: "SecretMap SecretStore" where
  "memory_store =
     \<lparr>sk_set = (\<lambda>i r pw k. (Inr (), k((i, r) \<mapsto> pw))), sk_get = (\<lambda>i r k. Inr (k (i, r))),
      sk_delete = (\<lambda>i r k. (Inr (), k((i, r) := None))), sk_has = (\<lambda>i r k. k (i, r) \<noteq> None)\<rparr>"

definition secret_error_text :: "rstr \<Rightarrow> rstr" where
  "secret_error_text e = lit ''password storage failed: '' @ e"

subsection \<open>Errors\<close>

text \<open>The texts of store errors; \<open>uuid_text\<close> is the display of an id (the \<open>uuid\<close> crate).\<close>

fun store_error_text :: "(Uuid \<Rightarrow> rstr) \<Rightarrow> StoreError \<Rightarrow> rstr" where
  "store_error_text uuid_text (Parse e) = lit ''profiles file is not valid: '' @ e"
| "store_error_text uuid_text (UnsupportedVersion found) =
     lit ''profiles file version '' @ dec_digits (unat found) @ lit '' is newer than supported version '' @
     dec_digits (unat STORE_VERSION)"
| "store_error_text uuid_text (DuplicateId i) =
     lit ''profiles file contains the id '' @ uuid_text i @ lit '' more than once''"
| "store_error_text uuid_text (Serialize e) = lit ''could not serialize profiles: '' @ e"
| "store_error_text uuid_text (Invalid issues) =
     lit ''profile is not valid ('' @ dec_digits (length issues) @ lit '' issue(s))''"
| "store_error_text uuid_text (NotFound i) = lit ''no profile with id '' @ uuid_text i"

fun from_store_error :: "(Uuid \<Rightarrow> rstr) \<Rightarrow> StoreError \<Rightarrow> CommandError" where
  "from_store_error uuid_text (Invalid issues) = ErrInvalid issues"
| "from_store_error uuid_text (NotFound _) = ErrNotFound"
| "from_store_error uuid_text e = ErrStorage (store_error_text uuid_text e)"

text \<open>A step and the next, which runs only after a success.\<close>

definition step_then ::
    "('e, 'a) result \<times> 'k \<Rightarrow> ('a \<Rightarrow> 'k \<Rightarrow> ('e, 'b) result \<times> 'k) \<Rightarrow> ('e, 'b) result \<times> 'k" where
  "step_then r f = (case r of (Inl e, k) \<Rightarrow> (Inl e, k) | (Inr a, k) \<Rightarrow> f a k)"

definition store_failure :: "(rstr, 'a) result \<Rightarrow> (CommandError, 'a) result" where
  "store_failure r = (case r of Inl e \<Rightarrow> Inl (ErrStorage (secret_error_text e)) | Inr a \<Rightarrow> Inr a)"

subsection \<open>The file\<close>

text \<open>The paths as they are displayed; what the disk holds; which step of an operation fails, with which message.\<close>

record ProfileFile =
  pf_path :: rstr
  pf_dir :: rstr
  pf_tmp :: rstr

datatype FileStep = FileRead | DirCreate | TmpWrite | TmpRename

record Io =
  io_fail :: "FileStep \<Rightarrow> rstr option"
  io_torn :: "rstr option"

record Disk =
  dk_file :: "rstr option"
  dk_tmp :: "rstr option"

text \<open>What the service is made of: the file, the secret store and the library functions.\<close>

record 'k ProfileEnv =
  en_file :: ProfileFile
  en_secrets :: "'k SecretStore"
  en_parse :: "rstr \<Rightarrow> (rstr, Document) result"
  en_print :: "Document \<Rightarrow> (rstr, rstr) result"
  en_lower :: "rstr \<Rightarrow> rstr"
  en_uuid_text :: "Uuid \<Rightarrow> rstr"

definition file_load :: "'k ProfileEnv \<Rightarrow> Io \<Rightarrow> Disk \<Rightarrow> (CommandError, ProfileStore) result" where
  "file_load env io disk =
     (case io_fail io FileRead of
        Some e \<Rightarrow> Inl (ErrStorage (lit ''reading '' @ pf_path (en_file env) @ lit '': '' @ e))
      | None \<Rightarrow>
          (case dk_file disk of
             None \<Rightarrow> Inr ProfileStore_new
           | Some t \<Rightarrow>
               (case store_from_toml (en_parse env) t of
                  Inl e \<Rightarrow> Inl (from_store_error (en_uuid_text env) e)
                | Inr st \<Rightarrow> Inr st)))"

definition file_save :: "'k ProfileEnv \<Rightarrow> Io \<Rightarrow> ProfileStore \<Rightarrow> Disk \<Rightarrow> (CommandError, unit) result \<times> Disk" where
  "file_save env io st disk =
     (case store_to_toml (en_print env) st of
        Inl e \<Rightarrow> (Inl (from_store_error (en_uuid_text env) e), disk)
      | Inr t \<Rightarrow>
          (case io_fail io DirCreate of
             Some e \<Rightarrow> (Inl (ErrStorage (lit ''creating '' @ pf_dir (en_file env) @ lit '': '' @ e)), disk)
           | None \<Rightarrow>
               (case io_fail io TmpWrite of
                  Some e \<Rightarrow> (Inl (ErrStorage (lit ''writing '' @ pf_tmp (en_file env) @ lit '': '' @ e)), disk\<lparr>dk_tmp := io_torn io\<rparr>)
                | None \<Rightarrow>
                    (case io_fail io TmpRename of
                       Some e \<Rightarrow>
                         (Inl (ErrStorage (lit ''replacing '' @ pf_path (en_file env) @ lit '': '' @ e)), disk\<lparr>dk_tmp := Some t\<rparr>)
                     | None \<Rightarrow> (Inr (), disk\<lparr>dk_file := Some t, dk_tmp := None\<rparr>)))))"

subsection \<open>The service\<close>

record 'k Service =
  sv_store :: ProfileStore
  sv_secrets :: 'k
  sv_disk :: Disk

definition service_open :: "'k ProfileEnv \<Rightarrow> Io \<Rightarrow> Disk \<Rightarrow> 'k \<Rightarrow> (CommandError, 'k Service) result" where
  "service_open env io disk k =
     (case file_load env io disk of
        Inl e \<Rightarrow> Inl e
      | Inr st \<Rightarrow> Inr \<lparr>sv_store = st, sv_secrets = k, sv_disk = disk\<rparr>)"

record ProfileEntry =
  pe_profile :: ConnectionProfile
  pe_has_rdp_password :: bool
  pe_has_linux_password :: bool

datatype LinuxPasswordUpdate = KeepPassword | StorePassword rstr | ForgetPassword

record SecretsUpdate =
  su_rdp_password :: "rstr option"
  su_linux_password :: LinuxPasswordUpdate

definition profile_entry :: "'k ProfileEnv \<Rightarrow> 'k \<Rightarrow> ConnectionProfile \<Rightarrow> ProfileEntry" where
  "profile_entry env k p =
     \<lparr>pe_profile = p, pe_has_rdp_password = sk_has (en_secrets env) (profile_id p) (rdp_for (mode p)) k,
      pe_has_linux_password = (mode p = RemoteLogin \<and> sk_has (en_secrets env) (profile_id p) LinuxLogin k)\<rparr>"

definition service_profiles :: "'k ProfileEnv \<Rightarrow> 'k Service \<Rightarrow> ConnectionProfile list" where
  "service_profiles env s = store_sorted (en_lower env) (sv_store s)"

definition service_list :: "'k ProfileEnv \<Rightarrow> 'k Service \<Rightarrow> ProfileEntry list" where
  "service_list env s = map (profile_entry env (sv_secrets s)) (store_sorted (en_lower env) (sv_store s))"

definition service_get :: "'k ProfileEnv \<Rightarrow> Uuid \<Rightarrow> 'k Service \<Rightarrow> (CommandError, ProfileEntry) result" where
  "service_get env i s =
     (case store_get (sv_store s) i of None \<Rightarrow> Inl ErrNotFound | Some p \<Rightarrow> Inr (profile_entry env (sv_secrets s) p))"

definition put_secret :: "'k ProfileEnv \<Rightarrow> Uuid \<Rightarrow> SecretRole \<Rightarrow> rstr \<Rightarrow> 'k \<Rightarrow> (CommandError, unit) result \<times> 'k" where
  "put_secret env i r pw k = (case sk_set (en_secrets env) i r pw k of (res, k) \<Rightarrow> (store_failure res, k))"

definition drop_secret :: "'k ProfileEnv \<Rightarrow> Uuid \<Rightarrow> SecretRole \<Rightarrow> 'k \<Rightarrow> (CommandError, unit) result \<times> 'k" where
  "drop_secret env i r k = (case sk_delete (en_secrets env) i r k of (res, k) \<Rightarrow> (store_failure res, k))"

definition read_secret :: "'k ProfileEnv \<Rightarrow> Uuid \<Rightarrow> SecretRole \<Rightarrow> 'k \<Rightarrow> (CommandError, rstr option) result" where
  "read_secret env i r k = store_failure (sk_get (en_secrets env) i r k)"

text \<open>The role the profile's password was under before its mode changed.\<close>

definition old_role :: "ConnectionProfile \<Rightarrow> ConnectionProfile option \<Rightarrow> SecretRole option" where
  "old_role p previous =
     (case previous of
        None \<Rightarrow> None
      | Some q \<Rightarrow> if rdp_for (mode q) \<noteq> rdp_for (mode p) then Some (rdp_for (mode q)) else None)"

definition new_password :: "SecretsUpdate \<Rightarrow> rstr option" where
  "new_password u = (case su_rdp_password u of None \<Rightarrow> None | Some pw \<Rightarrow> if pw = [] then None else Some pw)"

definition apply_rdp_password :: "'k ProfileEnv \<Rightarrow> ConnectionProfile \<Rightarrow> ConnectionProfile option \<Rightarrow> SecretsUpdate \<Rightarrow> 'k \<Rightarrow>
    (CommandError, unit) result \<times> 'k" where
  "apply_rdp_password env p previous u k =
     (case new_password u of
        Some pw \<Rightarrow> put_secret env (profile_id p) (rdp_for (mode p)) pw k
      | None \<Rightarrow>
          (case old_role p previous of
             None \<Rightarrow> (Inr (), k)
           | Some old \<Rightarrow>
               (case read_secret env (profile_id p) old k of
                  Inl e \<Rightarrow> (Inl e, k)
                | Inr None \<Rightarrow> (Inr (), k)
                | Inr (Some pw) \<Rightarrow> put_secret env (profile_id p) (rdp_for (mode p)) pw k)))"

definition apply_linux_password :: "'k ProfileEnv \<Rightarrow> ConnectionProfile \<Rightarrow> SecretsUpdate \<Rightarrow> 'k \<Rightarrow>
    (CommandError, unit) result \<times> 'k" where
  "apply_linux_password env p u k =
     (if mode p \<noteq> RemoteLogin then drop_secret env (profile_id p) LinuxLogin k
      else (case su_linux_password u of
              KeepPassword \<Rightarrow> (Inr (), k)
            | StorePassword pw \<Rightarrow> if pw = [] then (Inr (), k) else put_secret env (profile_id p) LinuxLogin pw k
            | ForgetPassword \<Rightarrow> drop_secret env (profile_id p) LinuxLogin k))"

definition apply_secrets :: "'k ProfileEnv \<Rightarrow> ConnectionProfile \<Rightarrow> ConnectionProfile option \<Rightarrow> SecretsUpdate \<Rightarrow> 'k \<Rightarrow>
    (CommandError, unit) result \<times> 'k" where
  "apply_secrets env p previous u k =
     step_then (apply_rdp_password env p previous u k) (\<lambda>_ k.
     step_then (case old_role p previous of None \<Rightarrow> (Inr (), k) | Some old \<Rightarrow> drop_secret env (profile_id p) old k) (\<lambda>_ k.
     apply_linux_password env p u k))"

definition service_save :: "'k ProfileEnv \<Rightarrow> Io \<Rightarrow> ConnectionProfile \<Rightarrow> SecretsUpdate \<Rightarrow> 'k Service \<Rightarrow>
    (CommandError, ProfileEntry) result \<times> 'k Service" where
  "service_save env io p u s =
     (let previous = store_get (sv_store s) (profile_id p)
      in case upsert (sv_store s) p of
           Inl e \<Rightarrow> (Inl (from_store_error (en_uuid_text env) e), s)
         | Inr (_, next) \<Rightarrow>
             (case file_save env io next (sv_disk s) of
                (Inl e, d) \<Rightarrow> (Inl e, s\<lparr>sv_disk := d\<rparr>)
              | (Inr _, d) \<Rightarrow>
                  (case apply_secrets env p previous u (sv_secrets s) of
                     (Inl e, k) \<Rightarrow> (Inl e, \<lparr>sv_store = next, sv_secrets = k, sv_disk = d\<rparr>)
                   | (Inr _, k) \<Rightarrow> (Inr (profile_entry env k p), \<lparr>sv_store = next, sv_secrets = k, sv_disk = d\<rparr>))))"

definition service_delete :: "'k ProfileEnv \<Rightarrow> Io \<Rightarrow> Uuid \<Rightarrow> 'k Service \<Rightarrow> (CommandError, unit) result \<times> 'k Service" where
  "service_delete env io i s =
     (case store_remove (sv_store s) i of
        Inl e \<Rightarrow> (Inl (from_store_error (en_uuid_text env) e), s)
      | Inr (_, next) \<Rightarrow>
          (case file_save env io next (sv_disk s) of
             (Inl e, d) \<Rightarrow> (Inl e, s\<lparr>sv_disk := d\<rparr>)
           | (Inr _, d) \<Rightarrow>
               (case step_then (drop_secret env i RdpSystem (sv_secrets s)) (\<lambda>_ k.
                     step_then (drop_secret env i RdpUser k) (\<lambda>_ k. drop_secret env i LinuxLogin k)) of
                  (r, k) \<Rightarrow> (r, \<lparr>sv_store = next, sv_secrets = k, sv_disk = d\<rparr>))))"

text \<open>The fresh id of \<open>Uuid::new_v4\<close> is an argument.\<close>

definition service_duplicate :: "'k ProfileEnv \<Rightarrow> Io \<Rightarrow> Uuid \<Rightarrow> Uuid \<Rightarrow> 'k Service \<Rightarrow>
    (CommandError, ProfileEntry) result \<times> 'k Service" where
  "service_duplicate env io fresh i s =
     (case store_get (sv_store s) i of
        None \<Rightarrow> (Inl ErrNotFound, s)
      | Some p \<Rightarrow>
          let copy = p\<lparr>profile_id := fresh, name := trim (name p) @ lit '' copy'', cert_pin := None\<rparr>
          in (case read_secret env i (rdp_for (mode copy)) (sv_secrets s) of
                Inl e \<Rightarrow> (Inl e, s)
              | Inr rdp \<Rightarrow>
                  (case (if mode copy = RemoteLogin then read_secret env i LinuxLogin (sv_secrets s) else Inr None) of
                     Inl e \<Rightarrow> (Inl e, s)
                   | Inr linux \<Rightarrow>
                       service_save env io copy
                         \<lparr>su_rdp_password = rdp,
                          su_linux_password = (case linux of None \<Rightarrow> KeepPassword | Some pw \<Rightarrow> StorePassword pw)\<rparr> s)))"

definition service_set_pin :: "'k ProfileEnv \<Rightarrow> Io \<Rightarrow> Uuid \<Rightarrow> CertFingerprint option \<Rightarrow> 'k Service \<Rightarrow>
    (CommandError, unit) result \<times> 'k Service" where
  "service_set_pin env io i pin s =
     (case set_pin (sv_store s) i pin of
        Inl e \<Rightarrow> (Inl (from_store_error (en_uuid_text env) e), s)
      | Inr next \<Rightarrow>
          (case file_save env io next (sv_disk s) of
             (Inl e, d) \<Rightarrow> (Inl e, s\<lparr>sv_disk := d\<rparr>)
           | (Inr _, d) \<Rightarrow> (Inr (), s\<lparr>sv_store := next, sv_disk := d\<rparr>)))"

definition session_secrets :: "'k ProfileEnv \<Rightarrow> Uuid \<Rightarrow> 'k Service \<Rightarrow> (CommandError, SessionSecrets) result" where
  "session_secrets env i s =
     (case store_get (sv_store s) i of
        None \<Rightarrow> Inl ErrNotFound
      | Some p \<Rightarrow>
          (case read_secret env i (rdp_for (mode p)) (sv_secrets s) of
             Inl e \<Rightarrow> Inl e
           | Inr rdp \<Rightarrow>
               (case (if mode p = RemoteLogin then read_secret env i LinuxLogin (sv_secrets s) else Inr None) of
                  Inl e \<Rightarrow> Inl e
                | Inr linux \<Rightarrow>
                    Inr \<lparr>sec_rdp_password = (case rdp of None \<Rightarrow> [] | Some pw \<Rightarrow> pw), sec_linux_password = linux\<rparr>)))"

subsection \<open>What saving does to the passwords\<close>

text \<open>The passwords after a save that succeeds: the profile's password under its mode's role is the new one, or the one
  its old mode had, or what was there; the other role's is gone when the mode changed its role; a Linux password
  stays only for Remote Login.\<close>

definition applied :: "ConnectionProfile \<Rightarrow> ConnectionProfile option \<Rightarrow> SecretsUpdate \<Rightarrow> SecretMap \<Rightarrow> SecretMap" where
  "applied p previous u m = (\<lambda>(i, r).
     if i \<noteq> profile_id p then m (i, r)
     else if r = LinuxLogin then
       (if mode p \<noteq> RemoteLogin \<or> su_linux_password u = ForgetPassword then None
        else case su_linux_password u of StorePassword (c # pw) \<Rightarrow> Some (c # pw) | _ \<Rightarrow> m (i, r))
     else if r = rdp_for (mode p) then
       (case new_password u of
          Some pw \<Rightarrow> Some pw
        | None \<Rightarrow>
            (case Option.bind (old_role p previous) (\<lambda>old. m (i, old)) of Some pw \<Rightarrow> Some pw | None \<Rightarrow> m (i, r)))
     else if old_role p previous = Some r then None
     else m (i, r))"

text \<open>A secret store: \<open>view\<close> is what it holds. A failing operation changes nothing.\<close>

locale secret_store =
  fixes ops :: "'k SecretStore"
    and view :: "'k \<Rightarrow> SecretMap"
  assumes set_ok: "sk_set ops i r pw k = (Inr (), k') \<Longrightarrow> view k' = (view k)((i, r) \<mapsto> pw)"
    and set_failed: "sk_set ops i r pw k = (Inl e, k') \<Longrightarrow> view k' = view k"
    and get_ok: "sk_get ops i r k = Inr v \<Longrightarrow> v = view k (i, r)"
    and delete_ok: "sk_delete ops i r k = (Inr (), k') \<Longrightarrow> view k' = (view k)((i, r) := None)"
    and delete_failed: "sk_delete ops i r k = (Inl e, k') \<Longrightarrow> view k' = view k"
begin

lemma put_ok:
  assumes "en_secrets env = ops" and "put_secret env i r pw k = (res, k')"
  shows "view k' = (case res of Inl e \<Rightarrow> view k | Inr _ \<Rightarrow> (view k)((i, r) \<mapsto> pw))"
  using assms(2) unfolding put_secret_def assms(1) store_failure_def
  by (auto simp: set_ok dest: set_failed split: prod.splits sum.splits)

lemma drop_ok:
  assumes "en_secrets env = ops" and "drop_secret env i r k = (res, k')"
  shows "view k' = (case res of Inl e \<Rightarrow> view k | Inr _ \<Rightarrow> (view k)((i, r) := None))"
  using assms(2) unfolding drop_secret_def assms(1) store_failure_def
  by (auto simp: delete_ok dest: delete_failed split: prod.splits sum.splits)

lemma read_ok:
  assumes "en_secrets env = ops" and "read_secret env i r k = Inr v"
  shows "v = view k (i, r)"
  using assms(2) unfolding read_secret_def assms(1) store_failure_def
  by (auto dest: get_ok split: sum.splits)

lemma rdp_applied:
  assumes "en_secrets env = ops" and "apply_rdp_password env p previous u k = (Inr (), k')"
  shows "view k' = (case new_password u of
     Some pw \<Rightarrow> (view k)((profile_id p, rdp_for (mode p)) \<mapsto> pw)
   | None \<Rightarrow> (case Option.bind (old_role p previous) (\<lambda>old. view k (profile_id p, old)) of
       None \<Rightarrow> view k | Some pw \<Rightarrow> (view k)((profile_id p, rdp_for (mode p)) \<mapsto> pw)))"
  using assms put_ok [OF assms(1)] read_ok [OF assms(1)]
  by (fastforce simp: apply_rdp_password_def split: option.splits sum.splits)

lemma linux_applied:
  assumes "en_secrets env = ops" and "apply_linux_password env p u k = (Inr (), k')"
  shows "view k' = (if mode p \<noteq> RemoteLogin \<or> su_linux_password u = ForgetPassword
     then (view k)((profile_id p, LinuxLogin) := None)
     else case su_linux_password u of
       StorePassword (c # pw) \<Rightarrow> (view k)((profile_id p, LinuxLogin) \<mapsto> c # pw) | _ \<Rightarrow> view k)"
  using assms put_ok [OF assms(1)] drop_ok [OF assms(1)]
  by (fastforce simp: apply_linux_password_def split: if_splits LinuxPasswordUpdate.splits list.splits)

lemma role_cases: "rdp_for m = RdpSystem \<or> rdp_for m = RdpUser"
  by (cases m) simp_all

lemma apply_secrets_ok:
  assumes "en_secrets env = ops" and "apply_secrets env p previous u k = (Inr (), k')"
  shows "view k' = applied p previous u (view k)"
proof -
  let ?i = "profile_id p" and ?r = "rdp_for (mode p)"
  obtain k1 where k1: "apply_rdp_password env p previous u k = (Inr (), k1)"
    using assms(2) by (auto simp: apply_secrets_def step_then_def split: prod.splits sum.splits)
  obtain k2 where k2: "(case old_role p previous of None \<Rightarrow> (Inr (), k1) | Some old \<Rightarrow> drop_secret env ?i old k1) = (Inr (), k2)"
    and k3: "apply_linux_password env p u k2 = (Inr (), k')"
    using assms(2) k1 by (auto simp: apply_secrets_def step_then_def split: prod.splits sum.splits)
  have v2: "view k2 = (case old_role p previous of None \<Rightarrow> view k1 | Some old \<Rightarrow> (view k1)((?i, old) := None))"
    using k2 drop_ok [OF assms(1)] by (fastforce split: option.splits)
  have old: "old_role p previous = Some old \<Longrightarrow> old \<noteq> ?r \<and> old \<noteq> LinuxLogin" for old
  proof -
    assume "old_role p previous = Some old"
    then have "old \<noteq> ?r" "old \<in> range rdp_for" by (auto simp: old_role_def split: option.splits if_splits)
    moreover from this(2) obtain m where "old = rdp_for m" by blast
    ultimately show ?thesis using role_cases [of m] by auto
  qed
  have r: "?r \<noteq> LinuxLogin" using role_cases [of "mode p"] by auto
  show ?thesis
  proof (rule ext, clarify)
    fix i x
    show "view k' (i, x) = applied p previous u (view k) (i, x)"
      unfolding linux_applied [OF assms(1) k3] v2 rdp_applied [OF assms(1) k1] applied_def
      using old r by (auto split: option.splits LinuxPasswordUpdate.splits list.splits bind_splits)
  qed
qed

end

interpretation mem: secret_store memory_store "\<lambda>m. m"
  by unfold_locales (auto simp: memory_store_def)

end
