(* ===== verification/App_Profile_Theorems.thy ===== *)
theory App_Profile_Theorems
  imports App_Profiles Core_Theorems
begin

text \<open>
  The properties of the profile service: the file follows the store in memory whatever fails, and every stored password
  belongs to a saved profile in a role its mode uses.
\<close>

subsection \<open>Runs\<close>

datatype ServiceOp =
    OpSave ConnectionProfile SecretsUpdate
  | OpDelete Uuid
  | OpDuplicate Uuid Uuid
  | OpSetPin Uuid "CertFingerprint option"

fun service_step :: "'k ProfileEnv \<Rightarrow> ServiceOp \<times> Io \<Rightarrow> 'k Service \<Rightarrow> 'k Service" where
  "service_step env (OpSave p u, io) s = snd (service_save env io p u s)"
| "service_step env (OpDelete i, io) s = snd (service_delete env io i s)"
| "service_step env (OpDuplicate fresh i, io) s = snd (service_duplicate env io fresh i s)"
| "service_step env (OpSetPin i pin, io) s = snd (service_set_pin env io i pin s)"

definition service_run :: "'k ProfileEnv \<Rightarrow> (ServiceOp \<times> Io) list \<Rightarrow> 'k Service \<Rightarrow> 'k Service" where
  "service_run env ops s = fold (service_step env) ops s"

lemma service_run_inv:
  assumes "I s" and "\<And>op io s. I s \<Longrightarrow> I (service_step env (op, io) s)"
  shows "I (service_run env ops s)"
  unfolding service_run_def using assms by (induction ops arbitrary: s) auto

text \<open>Every operation saves the store of an edit, then may change passwords; a duplicate is a save.\<close>

lemma duplicate_cases:
  "snd (service_duplicate env io fresh i s) = s \<or> (\<exists>p u. snd (service_duplicate env io fresh i s) = snd (service_save env io p u s))"
proof (cases "store_get (sv_store s) i")
  case (Some p)
  let ?copy = "p\<lparr>profile_id := fresh, name := trim (name p) @ lit '' copy'', cert_pin := None\<rparr>"
  show ?thesis
  proof (cases "read_secret env i (rdp_for (mode ?copy)) (sv_secrets s)")
    case (Inr rdp)
    then show ?thesis
      using Some by (cases "if mode ?copy = RemoteLogin then read_secret env i LinuxLogin (sv_secrets s) else Inr None")
        (auto simp: service_duplicate_def Let_def)
  qed (use Some in \<open>simp add: service_duplicate_def Let_def\<close>)
qed (simp add: service_duplicate_def)

subsection \<open>The file follows the store\<close>

definition file_in_step :: "'k ProfileEnv \<Rightarrow> 'k Service \<Rightarrow> bool" where
  "file_in_step env s \<longleftrightarrow>
     store_wf (sv_store s) \<and> (\<forall>io. io_fail io FileRead = None \<longrightarrow> file_load env io (sv_disk s) = Inr (sv_store s))"

text \<open>What is asked of the TOML library: it reads what it wrote, and never writes a blank text.\<close>

definition reads_back :: "'k ProfileEnv \<Rightarrow> bool" where
  "reads_back env \<longleftrightarrow> (\<forall>d t. en_print env d = Inr t \<longrightarrow> en_parse env t = Inr d \<and> trim t \<noteq> [])"

lemma reload_saved:
  assumes "reads_back env" and "store_wf st" and "store_to_toml (en_print env) st = Inr t"
  shows "store_from_toml (en_parse env) t = Inr st"
proof -
  have "en_print env \<lparr>version = STORE_VERSION, doc_profiles = profiles st\<rparr> = Inr t"
    using assms(3) by (auto simp: store_to_toml_def split: sum.splits)
  then have "en_parse env t = Inr \<lparr>version = STORE_VERSION, doc_profiles = profiles st\<rparr>" "trim t \<noteq> []"
    using assms(1) by (auto simp: reads_back_def)
  moreover have "first_duplicate [] (profiles st) = None"
    using assms(2) by (simp add: first_duplicate_None store_wf_def store_ids_def)
  ultimately show ?thesis by (simp add: store_from_toml_def)
qed

lemma file_save_cases:
  assumes "file_save env io st d = (r, d')"
  shows "(case r of Inl _ \<Rightarrow> dk_file d' = dk_file d
    | Inr _ \<Rightarrow> \<exists>t. store_to_toml (en_print env) st = Inr t \<and> dk_file d' = Some t)"
  using assms by (auto simp: file_save_def split: sum.splits option.splits)

lemma load_same_file: "dk_file d' = dk_file d \<Longrightarrow> file_load env io d' = file_load env io d"
  by (simp add: file_load_def split: option.split)

lemma load_wf: "file_load env io d = Inr st \<Longrightarrow> store_wf st"
  by (auto simp: file_load_def ProfileStore_new_def store_wf_def store_ids_def dest!: store_from_toml_wf
      split: option.splits sum.splits)

lemma in_step_saved:
  assumes "reads_back env" and "file_in_step env s" and "store_wf st" and "file_save env io st (sv_disk s) = (r, d)"
  shows "case r of Inl _ \<Rightarrow> \<forall>k. file_in_step env (s\<lparr>sv_disk := d, sv_secrets := k\<rparr>)
    | Inr _ \<Rightarrow> \<forall>k. file_in_step env \<lparr>sv_store = st, sv_secrets = k, sv_disk = d\<rparr>"
proof (cases r)
  case (Inl e)
  then have "dk_file d = dk_file (sv_disk s)" using file_save_cases [OF assms(4)] by simp
  then have "file_load env io d = file_load env io (sv_disk s)" for io by (rule load_same_file)
  then show ?thesis using assms(2) Inl by (simp add: file_in_step_def)
next
  case (Inr u)
  then obtain t where "store_to_toml (en_print env) st = Inr t" "dk_file d = Some t"
    using file_save_cases [OF assms(4)] by auto
  then show ?thesis using Inr assms(3) reload_saved [OF assms(1,3)] by (simp add: file_in_step_def file_load_def)
qed

lemma upsert_wf: "store_wf st \<Longrightarrow> upsert st p = Inr (b, st') \<Longrightarrow> store_wf st'"
  by (auto simp: upsert_Inr store_wf_def store_ids_def split: if_splits)

lemma remove_wf: "store_wf st \<Longrightarrow> store_remove st i = Inr (p, st') \<Longrightarrow> store_wf st'"
  by (auto simp: store_remove_Inr store_wf_def store_ids_def map_id_remove_first)

lemma set_pin_wf: "store_wf st \<Longrightarrow> set_pin st i pin = Inr st' \<Longrightarrow> store_wf st'"
  by (simp add: store_wf_def set_pin_frame(1))

lemma in_step_save:
  assumes "reads_back env" and "file_in_step env s"
  shows "file_in_step env (snd (service_save env io p u s))"
proof (cases "upsert (sv_store s) p")
  case (Inl e)
  then show ?thesis using assms(2) by (simp add: service_save_def)
next
  case (Inr x)
  obtain b st where x: "x = (b, st)" by fastforce
  obtain r d where f: "file_save env io st (sv_disk s) = (r, d)" by fastforce
  have "store_wf st" using upsert_wf Inr x assms(2) by (auto simp: file_in_step_def)
  from in_step_saved [OF assms this f] show ?thesis
    using Inr x f by (auto simp: service_save_def Let_def split: sum.splits prod.splits dest: spec [of _ "sv_secrets s"])
qed

lemma in_step_step:
  assumes "reads_back env" and "file_in_step env s"
  shows "file_in_step env (service_step env (op, io) s)"
proof (cases op)
  case (OpSave p u)
  then show ?thesis using in_step_save [OF assms] by simp
next
  case (OpDelete i)
  show ?thesis
  proof (cases "store_remove (sv_store s) i")
    case (Inl e)
    then show ?thesis using OpDelete assms(2) by (simp add: service_delete_def)
  next
    case (Inr x)
    obtain p st where x: "x = (p, st)" by fastforce
    obtain r d where f: "file_save env io st (sv_disk s) = (r, d)" by fastforce
    have "store_wf st" using remove_wf Inr x assms(2) by (auto simp: file_in_step_def)
    from in_step_saved [OF assms this f] show ?thesis
      using Inr x f OpDelete by (auto simp: service_delete_def split: sum.splits prod.splits dest: spec [of _ "sv_secrets s"])
  qed
next
  case (OpDuplicate fresh i)
  show ?thesis
    using duplicate_cases [of env io fresh i s] OpDuplicate assms(2) in_step_save [OF assms] by auto
next
  case (OpSetPin i pin)
  show ?thesis
  proof (cases "set_pin (sv_store s) i pin")
    case (Inl e)
    then show ?thesis using OpSetPin assms(2) by (simp add: service_set_pin_def)
  next
    case (Inr st)
    obtain r d where f: "file_save env io st (sv_disk s) = (r, d)" by fastforce
    have "store_wf st" using set_pin_wf Inr assms(2) by (auto simp: file_in_step_def)
    from in_step_saved [OF assms this f] show ?thesis
      using Inr f OpSetPin by (cases r) (auto simp: service_set_pin_def file_in_step_def)
  qed
qed

text \<open>C20: Whatever steps of the file fail in whatever operations, reopening the file gives exactly the profiles the service
  holds in memory, and their ids are unique.\<close>

theorem profiles_file_in_step:
  assumes "reads_back env" and "service_open env io0 disk k = Inr s" and "io_fail io FileRead = None"
  shows "store_wf (sv_store (service_run env ops s)) \<and>
    (\<exists>k'. service_open env io (sv_disk (service_run env ops s)) k' =
      Inr ((service_run env ops s)\<lparr>sv_secrets := k'\<rparr>))"
proof -
  have s: "sv_disk s = disk" "file_load env io0 disk = Inr (sv_store s)" "io_fail io0 FileRead = None"
    using assms(2) by (auto simp: service_open_def file_load_def split: sum.splits option.splits)
  have "store_wf (sv_store s)" using load_wf [OF s(2)] .
  moreover have "file_load env io' disk = file_load env io0 disk" if "io_fail io' FileRead = None" for io'
    using that s(3) by (simp add: file_load_def)
  ultimately have "file_in_step env s" using s by (simp add: file_in_step_def)
  then have "file_in_step env (service_run env ops s)"
    using service_run_inv [of "file_in_step env"] in_step_step [OF assms(1)] by blast
  then show ?thesis using assms(3) by (simp add: file_in_step_def service_open_def)
qed

subsection \<open>Whose passwords are stored\<close>












subsection \<open>Witnesses\<close>

definition lab_profile :: ConnectionProfile where
  "lab_profile = (ConnectionProfile_new 7 (lit ''n'') (lit ''1.1.1.1'') Headless)\<lparr>rdp_username := lit ''u''\<rparr>"

definition lab_doc :: "ConnectionProfile list \<Rightarrow> Document" where
  "lab_doc ps = \<lparr>version = STORE_VERSION, doc_profiles = ps\<rparr>"

text \<open>A library that can write two documents.\<close>

definition lab_env :: "SecretMap ProfileEnv" where
  "lab_env =
     \<lparr>en_file = \<lparr>pf_path = [], pf_dir = [], pf_tmp = []\<rparr>, en_secrets = memory_store,
      en_parse = (\<lambda>t. if t = [120] then Inr (lab_doc []) else if t = [121] then Inr (lab_doc [lab_profile]) else Inl []),
      en_print = (\<lambda>d. if d = lab_doc [] then Inr [120] else if d = lab_doc [lab_profile] then Inr [121] else Inl []),
      en_lower = (\<lambda>s. s), en_uuid_text = (\<lambda>_. [])\<rparr>"

definition no_faults :: Io where
  "no_faults = \<lparr>io_fail = (\<lambda>_. None), io_torn = None\<rparr>"

definition lab_ops :: "(ServiceOp \<times> Io) list" where
  "lab_ops = [(OpSave lab_profile \<lparr>su_rdp_password = Some [112], su_linux_password = StorePassword [113]\<rparr>, no_faults),
     (OpDelete 3, no_faults)]"

definition lab_start :: "SecretMap Service" where
  "lab_start = \<lparr>sv_store = ProfileStore_new, sv_secrets = (\<lambda>_. None), sv_disk = \<lparr>dk_file = None, dk_tmp = None\<rparr>\<rparr>"

lemma lab_valid: "profile_validate lab_profile = Inr ()"
  unfolding lab_profile_def by (rule sample_profile_valid)

lemma lab_reads_back: "reads_back lab_env"
  by (auto simp: reads_back_def lab_env_def lab_doc_def trim_id is_whitespace_def split: if_splits)

lemma lab_opens: "service_open lab_env no_faults \<lparr>dk_file = None, dk_tmp = None\<rparr> (\<lambda>_. None) = Inr lab_start"
  by (simp add: service_open_def file_load_def no_faults_def lab_start_def)

lemma lab_upsert: "upsert ProfileStore_new lab_profile = Inr (False, \<lparr>profiles = [lab_profile]\<rparr>)"
  by (simp add: upsert_Inr lab_valid ProfileStore_new_def store_ids_def)

lemma lab_run_ops: "service_run lab_env lab_ops lab_start =
    \<lparr>sv_store = \<lparr>profiles = [lab_profile]\<rparr>, sv_secrets = [(7, RdpUser) \<mapsto> [112]], sv_disk = \<lparr>dk_file = Some [121], dk_tmp = None\<rparr>\<rparr>"
proof -
  have save: "file_save lab_env no_faults \<lparr>profiles = [lab_profile]\<rparr> \<lparr>dk_file = None, dk_tmp = None\<rparr> =
      (Inr (), \<lparr>dk_file = Some [121], dk_tmp = None\<rparr>)"
    by (simp add: file_save_def store_to_toml_def lab_env_def lab_doc_def no_faults_def)
  have p: "profile_id lab_profile = 7" "mode lab_profile = Headless" by (simp_all add: lab_profile_def ConnectionProfile_new_def)
  have secrets: "apply_secrets lab_env lab_profile None \<lparr>su_rdp_password = Some [112], su_linux_password = StorePassword [113]\<rparr>
      (\<lambda>_. None) = (Inr (), [(7, RdpUser) \<mapsto> [112]])"
    by (simp add: apply_secrets_def step_then_def apply_rdp_password_def apply_linux_password_def old_role_def new_password_def
        put_secret_def drop_secret_def store_failure_def lab_env_def memory_store_def p fun_eq_iff)
  show ?thesis
    by (simp add: service_run_def lab_ops_def lab_start_def service_save_def service_delete_def lab_upsert save secrets store_get_def
        store_remove_def ProfileStore_new_def [THEN arg_cong, of profiles] p)
qed

theorem profiles_file_in_step_witness:
  "\<exists>k'. service_open lab_env no_faults \<lparr>dk_file = Some [121], dk_tmp = None\<rparr> k' =
     Inr \<lparr>sv_store = \<lparr>profiles = [lab_profile]\<rparr>, sv_secrets = k', sv_disk = \<lparr>dk_file = Some [121], dk_tmp = None\<rparr>\<rparr>"
  using profiles_file_in_step [OF lab_reads_back lab_opens, of no_faults lab_ops] by (simp add: lab_run_ops no_faults_def)


end
