(* ===== verification/App_Services.thy ===== *)
theory App_Services
  imports App_Manager Clip_Sync Core_Triggers
begin

text \<open>
  \<open>src-tauri/src/services.rs\<close>: what the pasteboard and the network tell the live sessions. \<open>accepts\<close> says which
  windows' sessions take a command (the others have just ended); what was sent is returned.
\<close>

subsection \<open>The pasteboard\<close>

fun prefs_rank :: "ClipboardPrefs \<Rightarrow> u8" where
  "prefs_rank Off = 0"
| "prefs_rank Text = 1"
| "prefs_rank TextAndImages = 2"

definition most_permissive :: "ClipboardPrefs list \<Rightarrow> ClipboardPrefs" where
  "most_permissive levels =
     (case levels of
        [] \<Rightarrow> Off
      | l # ls \<Rightarrow> fold (\<lambda>b a. if prefs_rank a \<le> prefs_rank b then b else a) ls l)"

definition live_key :: "LiveSession \<Rightarrow> rstr \<times> nat" where
  "live_key s = (ls_window s, ls_generation s)"

record ClipboardPump =
  cp_watcher :: i64
  cp_seeded :: "(rstr \<times> nat) set"

definition ClipboardPump_new :: "PasteboardPort \<Rightarrow> ClipboardPump" where
  "ClipboardPump_new pb = \<lparr>cp_watcher = pb_change_count pb, cp_seeded = {}\<rparr>"

definition syncing :: "LiveSession list \<Rightarrow> LiveSession list" where
  "syncing live = filter (\<lambda>s. ls_clipboard s \<noteq> Off) live"

definition tell_all :: "(rstr \<Rightarrow> bool) \<Rightarrow> ClipboardContents \<Rightarrow> LiveSession list \<Rightarrow> (rstr \<times> ClipboardContents) list" where
  "tell_all accepts contents ss = map (\<lambda>s. (ls_window s, contents)) (filter (accepts \<circ> ls_window) ss)"

text \<open>A tick: the sessions told (the code returns their number), and the pump.\<close>

definition pump_tick :: "PasteboardPort \<Rightarrow> LiveSession list \<Rightarrow> (rstr \<Rightarrow> bool) \<Rightarrow> ClipboardPump \<Rightarrow>
    (rstr \<times> ClipboardContents) list \<times> ClipboardPump" where
  "pump_tick pb live accepts pump =
     (let level = most_permissive (map ls_clipboard live);
          (change, seen) = watcher_poll pb level (cp_watcher pump);
          seeded = live_key ` set live
      in case change of
           Some change \<Rightarrow>
             (tell_all accepts (lc_contents change) (syncing live), \<lparr>cp_watcher = seen, cp_seeded = seeded\<rparr>)
         | None \<Rightarrow>
             let fresh = filter (\<lambda>s. live_key s \<notin> cp_seeded pump) (syncing live);
                 pump = \<lparr>cp_watcher = seen, cp_seeded = seeded\<rparr>
             in if fresh = [] then ([], pump)
                else let snapshot = watcher_snapshot pb level
                  in if lc_contents snapshot = [] then ([], pump)
                     else (tell_all accepts (lc_contents snapshot) fresh, pump))"

subsection \<open>Reconnect triggers\<close>

fun trigger_commands :: "TriggerAction \<Rightarrow> bool \<Rightarrow> 'f SessionCommand list" where
  "trigger_commands PauseReconnect reconnecting = [CmdNetworkReachable False]"
| "trigger_commands RetryNow reconnecting =
     (if reconnecting then [CmdNetworkReachable True, CmdReconnectNow] else [CmdNetworkReachable True])"

text \<open>The commands that landed, in order; the code returns their number.\<close>

definition apply_trigger :: "LiveSession list \<Rightarrow> (rstr \<Rightarrow> bool) \<Rightarrow> TriggerAction \<Rightarrow> (rstr \<times> 'f SessionCommand) list" where
  "apply_trigger live accepts action =
     concat (map (\<lambda>s. map (Pair (ls_window s)) (filter (\<lambda>_. accepts (ls_window s)) (trigger_commands action (ls_reconnecting s)))) live)"

subsection \<open>What the pump promises\<close>

text \<open>A session that syncs is told of the pasteboard in exactly the ticks in which it has changed since the last tick, or
  which are the first the session (this actor of the window) is live in and the pasteboard is not empty; all are told
  the same contents, read at the most permissive preference.\<close>

definition tick_tells :: "i64 \<Rightarrow> (rstr \<times> nat) set \<Rightarrow> PasteboardPort \<Rightarrow> LiveSession list \<Rightarrow> (rstr \<Rightarrow> bool) \<Rightarrow>
    (rstr \<times> ClipboardContents) list" where
  "tick_tells last_count last_live pb live accepts =
     (let contents = pb_read pb (most_permissive (map ls_clipboard live)); changed = (pb_change_count pb \<noteq> last_count)
      in map (\<lambda>s. (ls_window s, contents))
           (filter (\<lambda>s. ls_clipboard s \<noteq> Off \<and> accepts (ls_window s) \<and>
              (changed \<or> live_key s \<notin> last_live \<and> contents \<noteq> [])) live))"

fun ticks_tell :: "i64 \<Rightarrow> (rstr \<times> nat) set \<Rightarrow> (PasteboardPort \<times> LiveSession list \<times> (rstr \<Rightarrow> bool)) list \<Rightarrow>
    (rstr \<times> ClipboardContents) list list" where
  "ticks_tell c live [] = []"
| "ticks_tell c live ((pb, sessions, accepts) # ticks) =
     tick_tells c live pb sessions accepts # ticks_tell (pb_change_count pb) (live_key ` set sessions) ticks"

fun pump_run :: "(PasteboardPort \<times> LiveSession list \<times> (rstr \<Rightarrow> bool)) list \<Rightarrow> ClipboardPump \<Rightarrow>
    (rstr \<times> ClipboardContents) list list" where
  "pump_run [] pump = []"
| "pump_run ((pb, sessions, accepts) # ticks) pump =
     (let (told, pump) = pump_tick pb sessions accepts pump in told # pump_run ticks pump)"

lemma prefs_rank_Off [simp]: "prefs_rank l \<le> 0 \<longleftrightarrow> l = Off"
  by (cases l) (simp_all add: word_le_nat_alt)

lemma most_permissive_Off: "most_permissive ls = Off \<longleftrightarrow> set ls \<subseteq> {Off}"
proof -
  have F: "fold (\<lambda>b a. if prefs_rank a \<le> prefs_rank b then b else a) ls l = Off \<longleftrightarrow> l = Off \<and> set ls \<subseteq> {Off}" for l ls
  proof (induction ls arbitrary: l)
    case (Cons b ls)
    have eq: "(if prefs_rank l \<le> prefs_rank b then b else l) = Off \<longleftrightarrow> l = Off \<and> b = Off"
      by (cases l; cases b) (simp_all add: word_le_nat_alt)
    show ?case by (simp only: fold_Cons comp_apply Cons.IH eq list.set insert_subset singleton_iff conj_assoc)
  qed simp
  show ?thesis
  proof (cases ls)
    case (Cons l ls')
    show ?thesis by (simp only: Cons most_permissive_def list.case F list.set insert_subset singleton_iff)
  qed (simp add: most_permissive_def)
qed

lemma no_syncing: "most_permissive (map ls_clipboard live) = Off \<longleftrightarrow> syncing live = []"
  by (auto simp: most_permissive_Off syncing_def filter_empty_conv)

lemma pump_tick_ok:
  "pump_tick pb live accepts pump =
     (tick_tells (cp_watcher pump) (cp_seeded pump) pb live accepts,
      \<lparr>cp_watcher = pb_change_count pb, cp_seeded = live_key ` set live\<rparr>)"
proof (cases "most_permissive (map ls_clipboard live) = Off")
  case True
  then have "syncing live = []" by (simp add: no_syncing)
  moreover from this have "\<forall>s \<in> set live. ls_clipboard s = Off" by (auto simp: syncing_def filter_empty_conv)
  ultimately show ?thesis
    using True by (simp add: pump_tick_def watcher_poll_def Let_def tick_tells_def filter_empty_conv)
next
  case False
  let ?level = "most_permissive (map ls_clipboard live)"
  show ?thesis
  proof (cases "pb_change_count pb = cp_watcher pump")
    case True
    let ?fresh = "filter (\<lambda>s. live_key s \<notin> cp_seeded pump) (syncing live)"
    have "tick_tells (cp_watcher pump) (cp_seeded pump) pb live accepts =
        (if pb_read pb ?level = [] then [] else tell_all accepts (pb_read pb ?level) ?fresh)"
    proof (cases "pb_read pb ?level = []")
      case True
      then show ?thesis using \<open>pb_change_count pb = cp_watcher pump\<close> by (simp add: tick_tells_def Let_def)
    next
      case False
      have "filter (\<lambda>s. ls_clipboard s \<noteq> Off \<and> accepts (ls_window s) \<and> live_key s \<notin> cp_seeded pump) live =
          filter (accepts \<circ> ls_window) ?fresh"
        unfolding syncing_def filter_filter by (rule filter_cong) auto
      then show ?thesis
        using False \<open>pb_change_count pb = cp_watcher pump\<close> by (simp add: tick_tells_def Let_def tell_all_def)
    qed
    moreover have "?fresh = [] \<Longrightarrow> tell_all accepts c ?fresh = []" for c by (simp add: tell_all_def)
    ultimately show ?thesis
      using False True by (simp add: pump_tick_def watcher_poll_def watcher_snapshot_def Let_def del: filter_filter)
  next
    case changed: False
    have "filter (\<lambda>s. ls_clipboard s \<noteq> Off \<and> accepts (ls_window s)) live = filter (accepts \<circ> ls_window) (syncing live)"
      unfolding syncing_def filter_filter by (rule filter_cong) auto
    then show ?thesis
      using False changed by (simp add: pump_tick_def watcher_poll_def tick_tells_def tell_all_def Let_def)
  qed
qed

lemma pump_run_ok: "pump_run ticks pump = ticks_tell (cp_watcher pump) (cp_seeded pump) ticks"
  by (induction ticks arbitrary: pump) (auto simp: pump_tick_ok)

text \<open>Only a session that waits to reconnect is told to skip its delay.\<close>

lemma skip_only_waiting:
  assumes "(w, CmdReconnectNow) \<in> set (apply_trigger (live_session_states m) accepts action)"
  shows "\<exists>s g. (w, s) \<in> set (mg_windows m) \<and> sl_live s = Some g \<and> waits_to_reconnect (vw_state (sl_view s)) \<and> action = RetryNow"
  using assms
  by (cases action) (auto simp: apply_trigger_def live_session_states_def List.map_filter_def split: if_splits)

text \<open>C21: The pump tells the sessions of the pasteboard exactly as promised: from its start on, in every tick, every session
  that syncs and takes commands is told if and only if the pasteboard has changed since the last tick, or this is the
  first tick this actor of the window is live in and there is something to tell.\<close>

theorem clipboard_pump_tells:
  "pump_run ticks (ClipboardPump_new pb) = ticks_tell (pb_change_count pb) {} ticks"
  by (simp add: pump_run_ok ClipboardPump_new_def)

end
