(* ===== verification/App_Gallery.thy ===== *)
theory App_Gallery
  imports App_Manager
begin

text \<open>
  \<open>src-tauri/src/connections.rs\<close> and \<open>frames.rs\<close>: the gallery of the open connections, its thumbnails, and the window
  frames remembered per profile. The PNG encoder and the JSON library are parameters.
\<close>

subsection \<open>Open connections\<close>

record OpenConnection =
  oc_profile_id :: Uuid
  oc_window :: rstr
  oc_status :: ConnectionStatus
  oc_live_secs :: "u32 option"
  oc_reconnect_in_secs :: "u32 option"
  oc_attempt :: "u32 option"

text \<open>Whole seconds, saturating.\<close>

definition secs_u32 :: "duration \<Rightarrow> u32" where
  "secs_u32 d = (let s = d div 10 ^ 9 in if s < 2 ^ 32 then of_nat s else - 1)"

definition open_connection :: "rstr \<Rightarrow> Uuid \<Rightarrow> SessionView \<Rightarrow> duration option \<Rightarrow> OpenConnection" where
  "open_connection window i v live_for =
     (let status = status_for v;
          (reconnect_in_secs, attempt) = (case vw_state v of
             Reconnecting attempt next_in _ \<Rightarrow> (Some (secs_u32 next_in), Some attempt)
           | _ \<Rightarrow> (None, None))
      in \<lparr>oc_profile_id = i, oc_window = window, oc_status = status,
          oc_live_secs = (if status = StLive then Some (case live_for of None \<Rightarrow> 0 | Some d \<Rightarrow> secs_u32 d) else None),
          oc_reconnect_in_secs = reconnect_in_secs, oc_attempt = attempt\<rparr>)"

definition connections :: "instant \<Rightarrow> 'f Manager \<Rightarrow> OpenConnection list" where
  "connections now m =
     map (\<lambda>s. open_connection (si_window s) (profile_id (si_profile s)) (si_view s) (si_live_for s)) (manager_sessions now m)"

subsection \<open>When a thumbnail is taken\<close>

definition THUMBNAIL_INTERVAL :: duration where "THUMBNAIL_INTERVAL = duration_secs 15"

definition THUMBNAIL_MAX :: "u32 Size" where "THUMBNAIL_MAX = \<lparr>width = 320, height = 180\<rparr>"

record ThumbnailThrottle =
  tt_visible :: bool
  tt_last :: "rstr \<Rightarrow> instant option"

definition ThumbnailThrottle_default :: ThumbnailThrottle where
  "ThumbnailThrottle_default = \<lparr>tt_visible = False, tt_last = Map.empty\<rparr>"

definition throttle_set_visible :: "bool \<Rightarrow> ThumbnailThrottle \<Rightarrow> ThumbnailThrottle" where
  "throttle_set_visible visible t =
     (let t = (if visible \<and> \<not> tt_visible t then t\<lparr>tt_last := Map.empty\<rparr> else t) in t\<lparr>tt_visible := visible\<rparr>)"

definition went_live :: "rstr \<Rightarrow> ThumbnailThrottle \<Rightarrow> ThumbnailThrottle" where
  "went_live w t = t\<lparr>tt_last := (tt_last t)(w := None)\<rparr>"

definition throttle_ended :: "rstr \<Rightarrow> ThumbnailThrottle \<Rightarrow> ThumbnailThrottle" where
  "throttle_ended w t = t\<lparr>tt_last := (tt_last t)(w := None)\<rparr>"

definition thumb_ready :: "instant \<Rightarrow> rstr \<Rightarrow> (rstr \<Rightarrow> instant option) \<Rightarrow> bool" where
  "thumb_ready now w lst = (case lst w of None \<Rightarrow> True | Some t \<Rightarrow> THUMBNAIL_INTERVAL \<le> duration_since now t)"

fun due_windows :: "instant \<Rightarrow> rstr list \<Rightarrow> (rstr \<Rightarrow> instant option) \<Rightarrow> rstr list \<times> (rstr \<Rightarrow> instant option)" where
  "due_windows now [] lst = ([], lst)"
| "due_windows now (w # ws) lst =
     (if thumb_ready now w lst then let (due, lst) = due_windows now ws (lst(w \<mapsto> now)) in (w # due, lst)
      else due_windows now ws lst)"

definition throttle_due :: "instant \<Rightarrow> rstr list \<Rightarrow> ThumbnailThrottle \<Rightarrow> rstr list \<times> ThumbnailThrottle" where
  "throttle_due now live t =
     (if \<not> tt_visible t then ([], t)
      else let (due, lst) = due_windows now live (tt_last t) in (due, t\<lparr>tt_last := lst\<rparr>))"

subsection \<open>Pixels\<close>

definition fit_size :: "'f f64_ops \<Rightarrow> u32 Size \<Rightarrow> u32 Size \<Rightarrow> u32 Size" where
  "fit_size F sz mx =
     (if width sz = 0 \<or> height sz = 0 then \<lparr>width = 0, height = 0\<rparr>
      else let scale = f_min F (f_min F (f_div F (f_of_u32 F (width mx)) (f_of_u32 F (width sz)))
                  (f_div F (f_of_u32 F (height mx)) (f_of_u32 F (height sz)))) (f_lit F 1);
               scaled = (\<lambda>v m. min (max (to_pixels F (f_mul F (f_of_u32 F v) scale)) 1) (max m 1))
        in \<lparr>width = scaled (width sz) (width mx), height = scaled (height sz) (height mx)\<rparr>)"

text \<open>The half-open ranges of the source that make row or column \<open>o\<close> of the result.\<close>

definition box_from :: "nat \<Rightarrow> nat \<Rightarrow> nat \<Rightarrow> nat" where "box_from n k i = i * n div k"
definition box_to :: "nat \<Rightarrow> nat \<Rightarrow> nat \<Rightarrow> nat" where "box_to n k i = max ((i + 1) * n div k) (i * n div k + 1)"

definition box_sum :: "u8 list \<Rightarrow> nat \<Rightarrow> nat list \<Rightarrow> nat list \<Rightarrow> nat \<Rightarrow> nat" where
  "box_sum bgra w ys xs c = sum_list (concat (map (\<lambda>y. map (\<lambda>x. unat (bgra ! ((y * w + x) * 4 + c))) xs) ys))"

definition box_pixel :: "u8 list \<Rightarrow> nat \<Rightarrow> nat list \<Rightarrow> nat list \<Rightarrow> u8 list" where
  "box_pixel bgra w ys xs =
     (let n = length ys * length xs; avg = (\<lambda>c. of_nat ((box_sum bgra w ys xs c + n div 2) div n))
      in [avg 2, avg 1, avg 0, 255])"

definition downscale :: "'f f64_ops \<Rightarrow> u8 list \<Rightarrow> u32 Size \<Rightarrow> u32 Size \<Rightarrow> u8 list \<times> u32 Size" where
  "downscale F bgra sz mx =
     (let w = unat (width sz); h = unat (height sz)
      in if w = 0 \<or> h = 0 \<or> length bgra < w * h * 4 then ([], \<lparr>width = 0, height = 0\<rparr>)
         else let out = fit_size F sz mx; ow = unat (width out); oh = unat (height out)
           in (concat (map (\<lambda>oy. concat (map (\<lambda>ox.
                  box_pixel bgra w [box_from h oh oy..<box_to h oh oy] [box_from w ow ox..<box_to w ow ox]) [0..<ow])) [0..<oh]),
               out))"

definition base64_alphabet :: rstr where
  "base64_alphabet = lit ''ABCDEFGHIJKLMNOPQRSTUVWXYZabcdefghijklmnopqrstuvwxyz0123456789+/''"

definition base64_bits :: "u8 \<Rightarrow> u8 \<Rightarrow> u8 \<Rightarrow> u32" where
  "base64_bits a b c = or (or (push_bit 16 (ucast a)) (push_bit 8 (ucast b))) (ucast c)"

definition base64_digit :: "u32 \<Rightarrow> nat \<Rightarrow> rchar" where
  "base64_digit n i = base64_alphabet ! unat (and (drop_bit (18 - 6 * i) n) 63)"

fun base64 :: "u8 list \<Rightarrow> rstr" where
  "base64 [] = []"
| "base64 [a] = map (base64_digit (base64_bits a 0 0)) [0, 1] @ [61, 61]"
| "base64 [a, b] = map (base64_digit (base64_bits a b 0)) [0, 1, 2] @ [61]"
| "base64 (a # b # c # bs) = map (base64_digit (base64_bits a b c)) [0, 1, 2, 3] @ base64 bs"

definition png_data_url :: "(u8 list \<Rightarrow> u32 Size \<Rightarrow> u8 list option) \<Rightarrow> u8 list \<Rightarrow> u32 Size \<Rightarrow> rstr option" where
  "png_data_url encode_png rgba sz =
     (if width sz = 0 \<or> height sz = 0 \<or> length rgba \<noteq> unat (width sz) * unat (height sz) * 4 then None
      else map_option (\<lambda>png. lit ''data:image/png;base64,'' @ base64 png) (encode_png rgba sz))"

subsection \<open>Window frames\<close>

record 'f Frame =
  fr_x :: 'f
  fr_y :: 'f
  fr_width :: 'f
  fr_height :: 'f

record 'f Template =
  tp_width :: 'f
  tp_height :: 'f
  tp_min_width :: 'f
  tp_min_height :: 'f

definition MIN_VISIBLE :: "'f f64_ops \<Rightarrow> 'f" where "MIN_VISIBLE F = f_lit F 64"
definition CASCADE :: "'f f64_ops \<Rightarrow> 'f" where "CASCADE F = f_lit F 24"
definition CONNECTIONS_KEY :: rstr where "CONNECTIONS_KEY = lit ''connections''"

definition frame_overlap :: "'f f64_ops \<Rightarrow> 'f Frame \<Rightarrow> 'f Frame \<Rightarrow> 'f \<times> 'f" where
  "frame_overlap F a b =
     (let w = f_sub F (f_min F (f_add F (fr_x a) (fr_width a)) (f_add F (fr_x b) (fr_width b))) (f_max F (fr_x a) (fr_x b));
          h = f_sub F (f_min F (f_add F (fr_y a) (fr_height a)) (f_add F (fr_y b) (fr_height b))) (f_max F (fr_y a) (fr_y b))
      in (f_max F w (f_lit F 0), f_max F h (f_lit F 0)))"

definition frame_usable :: "'f f64_ops \<Rightarrow> 'f Frame list \<Rightarrow> 'f Template \<Rightarrow> 'f Frame \<Rightarrow> bool" where
  "frame_usable F screens t saved =
     (f_le F (tp_min_width t) (fr_width saved) \<and> f_le F (tp_min_height t) (fr_height saved) \<and>
      list_ex (\<lambda>screen. let (w, h) = frame_overlap F saved screen in f_le F (MIN_VISIBLE F) w \<and> f_le F (MIN_VISIBLE F) h) screens)"

definition frame_restore :: "'f f64_ops \<Rightarrow> 'f Frame option \<Rightarrow> 'f Frame list \<Rightarrow> 'f Template \<Rightarrow> nat \<Rightarrow> 'f Frame" where
  "frame_restore F saved screens t cascade =
     (let fresh =
        (let offset = f_mul F (CASCADE F) (f_lit F (of_nat cascade));
             (x, y) = (case screens of
                [] \<Rightarrow> (f_lit F 0, f_lit F 0)
              | s # _ \<Rightarrow> (f_add F (fr_x s) (f_div F (f_sub F (fr_width s) (tp_width t)) (f_lit F 2)),
                         f_add F (fr_y s) (f_div F (f_sub F (fr_height s) (tp_height t)) (f_lit F 2))))
         in \<lparr>fr_x = f_add F x offset, fr_y = f_add F y offset, fr_width = tp_width t, fr_height = tp_height t\<rparr>)
      in case saved of None \<Rightarrow> fresh | Some saved \<Rightarrow> if frame_usable F screens t saved then saved else fresh)"

text \<open>The store: the frames in memory and the text of the file, \<open>write_fails\<close> the error of a write, if any.\<close>

record 'f FrameStore =
  fs_frames :: "(rstr, 'f Frame) ordmap"
  fs_file :: "rstr option"

definition frames_open :: "(rstr \<Rightarrow> (rstr, 'f Frame) ordmap option) \<Rightarrow> rstr option \<Rightarrow> 'f FrameStore" where
  "frames_open parse file =
     \<lparr>fs_frames = (case Option.bind file parse of None \<Rightarrow> [] | Some frames \<Rightarrow> frames), fs_file = file\<rparr>"

definition frames_write :: "((rstr, 'f Frame) ordmap \<Rightarrow> rstr) \<Rightarrow> rstr option \<Rightarrow> 'f FrameStore \<Rightarrow>
    (CommandError, unit) result \<times> 'f FrameStore" where
  "frames_write print write_fails s =
     (case write_fails of
        Some e \<Rightarrow> (Inl (ErrStorage e), s)
      | None \<Rightarrow> (Inr (), s\<lparr>fs_file := Some (print (fs_frames s))\<rparr>))"

definition frame_eq :: "'f f64_ops \<Rightarrow> 'f Frame \<Rightarrow> 'f Frame \<Rightarrow> bool" where
  "frame_eq F a b =
     (let eq = (\<lambda>x y. f_le F x y \<and> f_le F y x)
      in eq (fr_x a) (fr_x b) \<and> eq (fr_y a) (fr_y b) \<and> eq (fr_width a) (fr_width b) \<and> eq (fr_height a) (fr_height b))"

definition frames_set :: "'f f64_ops \<Rightarrow> ((rstr, 'f Frame) ordmap \<Rightarrow> rstr) \<Rightarrow> rstr option \<Rightarrow> rstr \<Rightarrow> 'f Frame \<Rightarrow>
    'f FrameStore \<Rightarrow> (CommandError, unit) result \<times> 'f FrameStore" where
  "frames_set F print write_fails k frame s =
     (if (case map_of (fs_frames s) k of None \<Rightarrow> False | Some old \<Rightarrow> frame_eq F old frame) then (Inr (), s)
      else frames_write print write_fails (s\<lparr>fs_frames := om_insert k frame (fs_frames s)\<rparr>))"

definition frames_remove :: "((rstr, 'f Frame) ordmap \<Rightarrow> rstr) \<Rightarrow> rstr option \<Rightarrow> rstr \<Rightarrow>
    'f FrameStore \<Rightarrow> (CommandError, unit) result \<times> 'f FrameStore" where
  "frames_remove print write_fails k s =
     (if map_of (fs_frames s) k = None then (Inr (), s)
      else frames_write print write_fails (s\<lparr>fs_frames := om_remove k (fs_frames s)\<rparr>))"

end
