(* ===== verification/App_Gallery_Theorems.thy ===== *)
theory App_Gallery_Theorems
  imports App_Gallery
begin

text \<open>
  The properties of the gallery: data URLs decode to the picture, thumbnails are taken no more often than asked, a
  scaled picture has the size it claims, and what a saved frame must show.
\<close>

subsection \<open>Base64\<close>

text \<open>A decoder (RFC 4648, with padding).\<close>

definition base64_value :: "rchar \<Rightarrow> nat option" where
  "base64_value c =
     (if 65 \<le> c \<and> c \<le> 90 then Some (c - 65) else if 97 \<le> c \<and> c \<le> 122 then Some (c - 71)
      else if 48 \<le> c \<and> c \<le> 57 then Some (c + 4) else if c = 43 then Some 62 else if c = 47 then Some 63 else None)"

fun base64_number :: "rchar list \<Rightarrow> nat option" where
  "base64_number [] = Some 0"
| "base64_number (c # cs) =
     (case (base64_value c, base64_number cs) of (Some d, Some n) \<Rightarrow> Some (d * 64 ^ length cs + n) | _ \<Rightarrow> None)"

definition bytes_of_24 :: "nat \<Rightarrow> u8 list" where
  "bytes_of_24 n = [of_nat (n div 65536 mod 256), of_nat (n div 256 mod 256), of_nat (n mod 256)]"

fun base64_decode :: "rstr \<Rightarrow> u8 list option" where
  "base64_decode [] = Some []"
| "base64_decode (a # b # c # d # cs) =
     (if d = 61 \<and> c = 61 \<and> cs = [] then map_option (\<lambda>n. take 1 (bytes_of_24 (n * 4096))) (base64_number [a, b])
      else if d = 61 \<and> cs = [] then map_option (\<lambda>n. take 2 (bytes_of_24 (n * 64))) (base64_number [a, b, c])
      else (case (base64_number [a, b, c, d], base64_decode cs) of
              (Some n, Some bs) \<Rightarrow> Some (bytes_of_24 n @ bs) | _ \<Rightarrow> None))"
| "base64_decode _ = None"

lemma alphabet_values: "list_all (\<lambda>d. base64_value (base64_alphabet ! d) = Some d) [0..<64]"
  by code_simp

lemma or_push_nat: "y < 2 ^ k \<Longrightarrow> or (push_bit k x) y = x * 2 ^ k + y" for x y :: nat
proof -
  assume "y < 2 ^ k"
  then have y: "take_bit k y = y" by (simp add: take_bit_nat_eq_self_iff)
  have "bit (and (push_bit k x) (take_bit k y)) n = bit 0 n" for n
    by (simp add: bit_and_iff bit_push_bit_iff bit_take_bit_iff)
  then have "and (push_bit k x) y = 0" using y bit_eqI by metis
  then show ?thesis by (metis disjunctive_add_eq_or push_bit_eq_mult)
qed

lemma unat_base64_bits: "unat (base64_bits a b c) = unat a * 65536 + unat b * 256 + unat c"
proof -
  have lt: "unat x < 256" for x :: u8 using unsigned_less [of x, where 'a = nat] by simp
  have p: "unat (push_bit k (ucast x :: u32)) = push_bit k (unat x)" if "k \<le> 16" for k and x :: u8
  proof -
    have "(2 :: nat) ^ k \<le> 2 ^ 16" using that by (rule power_increasing) simp
    moreover have "unat x \<le> 255" using lt [of x] by linarith
    ultimately have "unat x * 2 ^ k \<le> 255 * 2 ^ 16" by (intro mult_le_mono)
    then have "unat x * 2 ^ k < 2 ^ 32" by simp
    then show ?thesis
      by (subst unsigned_push_bit_eq) (simp add: push_bit_eq_mult take_bit_nat_eq_self_iff unat_ucast_up)
  qed
  have "unat (base64_bits a b c) = or (or (push_bit 16 (unat a)) (push_bit 8 (unat b))) (unat c)"
    by (simp add: base64_bits_def unsigned_or_eq p unat_ucast_up)
  also have "\<dots> = or (push_bit 8 (push_bit 8 (unat a) + unat b)) (unat c)"
  proof -
    have "push_bit 8 (unat b) < 2 ^ 16" using lt [of b] by (simp add: push_bit_eq_mult)
    then have "or (push_bit 16 (unat a)) (push_bit 8 (unat b)) = unat a * 2 ^ 16 + push_bit 8 (unat b)" by (rule or_push_nat)
    then show ?thesis by (simp add: push_bit_eq_mult algebra_simps)
  qed
  also have "\<dots> = (push_bit 8 (unat a) + unat b) * 2 ^ 8 + unat c" using lt [of c] by (intro or_push_nat) simp
  finally show ?thesis by (simp add: push_bit_eq_mult algebra_simps)
qed

lemma base64_digit_value:
  assumes "i \<le> 3"
  shows "base64_value (base64_digit n i) = Some (unat n div 2 ^ (18 - 6 * i) mod 64)"
proof -
  have low: "unat (take_bit 6 w) = unat w mod 64" for w :: u32
    by (subst unsigned_take_bit_eq) (simp add: take_bit_eq_mod)
  have eq: "and (drop_bit (18 - 6 * i) n) 63 = take_bit 6 (drop_bit (18 - 6 * i) n)"
    by (simp add: take_bit_eq_mask mask_eq_exp_minus_1)
  have d: "unat (and (drop_bit (18 - 6 * i) n) 63) = unat n div 2 ^ (18 - 6 * i) mod 64"
    by (simp only: eq low unat_drop_bit_eq) (simp only: drop_bit_eq_div)
  have "unat n div 2 ^ (18 - 6 * i) mod 64 < 64" by simp
  then show ?thesis using alphabet_values by (simp only: base64_digit_def d list_all_iff) simp
qed

lemma digit_not_pad: "i \<le> 3 \<Longrightarrow> base64_digit n i \<noteq> 61"
proof
  assume "i \<le> 3" and "base64_digit n i = 61"
  then show False using base64_digit_value [of i n] by (simp add: base64_value_def)
qed

lemma four_digits:
  assumes "N < 16777216"
  shows "N div 262144 mod 64 * 262144 + (N div 4096 mod 64 * 4096 + (N div 64 mod 64 * 64 + N mod 64)) = (N :: nat)"
proof -
  have q: "N div 4096 = N div 64 div 64" "N div 262144 = N div 64 div 64 div 64" by (simp_all flip: div_mult2_eq)
  have "N div 64 div 64 div 64 < 64" using assms by (simp flip: q(2)) 
  then have m: "N div 64 div 64 div 64 mod 64 = N div 64 div 64 div 64" by simp
  show ?thesis
    using div_mult_mod_eq [of N 64] div_mult_mod_eq [of "N div 64" 64] div_mult_mod_eq [of "N div 64 div 64" 64]
    unfolding q m by linarith
qed

lemma three_digits:
  assumes "N < 16777216" and "N mod 64 = 0"
  shows "(N div 262144 mod 64 * 4096 + (N div 4096 mod 64 * 64 + N div 64 mod 64)) * 64 = (N :: nat)"
proof -
  have e: "(x * 4096 + (y * 64 + z)) * 64 = x * 262144 + (y * 4096 + (z * 64 + 0))" for x y z :: nat by simp
  show ?thesis using four_digits [OF assms(1)] unfolding e assms(2) .
qed

lemma two_digits:
  assumes "N < 16777216" and "N mod 64 = 0 \<and> N div 64 mod 64 = 0"
  shows "(N div 262144 mod 64 * 64 + N div 4096 mod 64) * 4096 = (N :: nat)"
proof -
  have e: "(x * 64 + y) * 4096 = x * 262144 + (y * 4096 + (0 * 64 + 0))" for x y :: nat by simp
  show ?thesis using four_digits [OF assms(1)] unfolding e conjunct1 [OF assms(2)] conjunct2 [OF assms(2)] .
qed

lemma bytes_split:
  fixes a b c :: nat
  assumes "a < 256" and "b < 256" and "c < 256"
  shows "(a * 65536 + b * 256 + c) div 65536 mod 256 = a" and "(a * 65536 + b * 256 + c) div 256 mod 256 = b"
    and "(a * 65536 + b * 256 + c) mod 256 = c"
proof -
  have n: "a * 65536 + b * 256 + c = c + (b + a * 256) * 256" by simp
  have d: "(c + (b + a * 256) * 256) div 256 = b + a * 256" using assms(3) by (subst div_mult_self1) simp_all
  have "(a * 65536 + b * 256 + c) div 65536 = (a * 65536 + b * 256 + c) div 256 div 256" by (simp flip: div_mult2_eq)
  then show "(a * 65536 + b * 256 + c) div 65536 mod 256 = a" unfolding n d using assms by simp
  show "(a * 65536 + b * 256 + c) div 256 mod 256 = b" unfolding n d using assms(2) by simp
  show "(a * 65536 + b * 256 + c) mod 256 = c" unfolding n using assms(3) by (simp only: mod_mult_self1 mod_less)
qed

lemma bytes_back: "bytes_of_24 (unat a * 65536 + unat b * 256 + unat c) = [a, b, c]"
proof -
  have lt: "unat x < 256" for x :: u8 using unsigned_less [of x, where 'a = nat] by simp
  show ?thesis by (simp only: bytes_of_24_def bytes_split [OF lt lt lt]) simp
qed

text \<open>What a group of digits decodes to.\<close>

lemma number_of_digits:
  "base64_number (map (base64_digit n) [0, 1, 2, 3]) =
     Some (unat n div 262144 mod 64 * 262144 + (unat n div 4096 mod 64 * 4096 + (unat n div 64 mod 64 * 64 + unat n mod 64)))"
  "base64_number (map (base64_digit n) [0, 1, 2]) =
     Some (unat n div 262144 mod 64 * 4096 + (unat n div 4096 mod 64 * 64 + unat n div 64 mod 64))"
  "base64_number (map (base64_digit n) [0, 1]) = Some (unat n div 262144 mod 64 * 64 + unat n div 4096 mod 64)"
  by (simp_all add: base64_digit_value)

lemma bits_bound: "unat (base64_bits a b c) < 16777216"
proof -
  have lt: "unat x < 256" for x :: u8 using unsigned_less [of x, where 'a = nat] by simp
  show ?thesis using lt [of a] lt [of b] lt [of c] unfolding unat_base64_bits by linarith
qed

lemma group_four: "base64_number (map (base64_digit (base64_bits a b c)) [0, 1, 2, 3]) = Some (unat a * 65536 + unat b * 256 + unat c)"
  using number_of_digits(1) [of "base64_bits a b c"] unfolding four_digits [OF bits_bound] by (simp only: unat_base64_bits)

lemma group_three:
  "map_option (\<lambda>n. n * 64) (base64_number (map (base64_digit (base64_bits a b 0)) [0, 1, 2])) =
     Some (unat a * 65536 + unat b * 256)"
proof -
  have "unat (base64_bits a b 0) mod 64 = 0" unfolding unat_base64_bits by (simp add: mod_eq_0_iff_dvd dvd_mult)
  from three_digits [OF bits_bound this] show ?thesis
    unfolding number_of_digits option.map by (simp only: unat_base64_bits unsigned_0 add_0_right)
qed

lemma group_two:
  "map_option (\<lambda>n. n * 4096) (base64_number (map (base64_digit (base64_bits a 0 0)) [0, 1])) = Some (unat a * 65536)"
proof -
  have "unat a * 65536 = unat a * 1024 * 64" "unat a * 1024 = unat a * 16 * 64" by simp_all
  then have "unat (base64_bits a 0 0) mod 64 = 0 \<and> unat (base64_bits a 0 0) div 64 mod 64 = 0"
    unfolding unat_base64_bits by simp
  from two_digits [OF bits_bound this] show ?thesis
    unfolding number_of_digits option.map by (simp only: unat_base64_bits unsigned_0 add_0_right mult_0)
qed

text \<open>What a thumbnail's data URL carries: decoding gives back every byte, and the text is as long as the standard says.\<close>

theorem base64_round_trip:
  "base64_decode (base64 bs) = Some bs \<and> length (base64 bs) = (length bs + 2) div 3 * 4"
proof (induction bs rule: base64.induct)
  case (2 a)
  obtain n where n: "base64_number [base64_digit (base64_bits a 0 0) 0, base64_digit (base64_bits a 0 0) 1] = Some n"
      "n * 4096 = unat a * 65536"
    using group_two [of a] by (auto simp del: base64_number.simps)
  have "base64_decode (base64 [a]) = map_option (\<lambda>n. take 1 (bytes_of_24 (n * 4096)))
      (base64_number [base64_digit (base64_bits a 0 0) 0, base64_digit (base64_bits a 0 0) 1])"
    by (simp del: base64_number.simps)
  then show ?case using bytes_back [of a 0 0] unfolding n option.map by simp
next
  case (3 a b)
  obtain n where n: "base64_number [base64_digit (base64_bits a b 0) 0, base64_digit (base64_bits a b 0) 1,
      base64_digit (base64_bits a b 0) 2] = Some n" "n * 64 = unat a * 65536 + unat b * 256"
    using group_three [of a b] by (auto simp del: base64_number.simps)
  have "base64_decode (base64 [a, b]) = map_option (\<lambda>n. take 2 (bytes_of_24 (n * 64)))
      (base64_number [base64_digit (base64_bits a b 0) 0, base64_digit (base64_bits a b 0) 1, base64_digit (base64_bits a b 0) 2])"
    by (simp add: digit_not_pad del: base64_number.simps)
  then show ?case using bytes_back [of a b 0] unfolding n option.map by simp
next
  case (4 a b c bs)
  have "base64_decode (base64 (a # b # c # bs)) =
      (case (base64_number (map (base64_digit (base64_bits a b c)) [0, 1, 2, 3]), base64_decode (base64 bs)) of
         (Some n, Some bs) \<Rightarrow> Some (bytes_of_24 n @ bs) | _ \<Rightarrow> None)"
    by (simp add: digit_not_pad del: base64_number.simps)
  also have "\<dots> = Some ([a, b, c] @ bs)" unfolding group_four using 4 by (simp add: bytes_back)
  moreover have "(length bs + 3 + 2) div 3 = (length bs + 2) div 3 + 1" by simp
  ultimately show ?case using 4 by simp
qed simp

subsection \<open>Thumbnails\<close>

datatype ThumbOp = ThumbVisible bool | ThumbLive rstr | ThumbEnded rstr | ThumbDue instant "rstr list"

fun thumb_step :: "ThumbOp \<Rightarrow> ThumbnailThrottle \<Rightarrow> rstr list \<times> ThumbnailThrottle" where
  "thumb_step (ThumbVisible v) t = ([], throttle_set_visible v t)"
| "thumb_step (ThumbLive w) t = ([], went_live w t)"
| "thumb_step (ThumbEnded w) t = ([], throttle_ended w t)"
| "thumb_step (ThumbDue now live) t = throttle_due now live t"

definition thumb_run :: "ThumbOp list \<Rightarrow> ThumbnailThrottle \<Rightarrow> ThumbnailThrottle" where
  "thumb_run ops t = fold (\<lambda>op. snd \<circ> thumb_step op) ops t"

lemma thumb_run_simps [simp]:
  "thumb_run [] t = t" "thumb_run (op # ops) t = thumb_run ops (snd (thumb_step op t))"
  "thumb_run (xs @ ys) t = thumb_run ys (thumb_run xs t)"
  by (simp_all add: thumb_run_def)

lemma interval_pos: "0 < THUMBNAIL_INTERVAL"
  by (simp add: THUMBNAIL_INTERVAL_def duration_secs_def)

lemma not_ready_now [simp]: "\<not> thumb_ready now w (lst(w \<mapsto> now))"
  using interval_pos by (simp add: thumb_ready_def duration_since_def)

lemma due_windows_ok:
  assumes "due_windows now ws lst = (due, lst')"
  shows "set due = {w \<in> set ws. thumb_ready now w lst}" and "distinct due"
    and "lst' = (\<lambda>w. if w \<in> set due then Some now else lst w)"
proof -
  have "set due = {w \<in> set ws. thumb_ready now w lst} \<and> distinct due \<and> lst' = (\<lambda>w. if w \<in> set due then Some now else lst w)"
    using assms
  proof (induction now ws lst arbitrary: due lst' rule: due_windows.induct)
    case (2 now w ws lst)
    have other: "v \<noteq> w \<Longrightarrow> thumb_ready now v (lst(w \<mapsto> now)) = thumb_ready now v lst" for v by (simp add: thumb_ready_def)
    show ?case
    proof (cases "thumb_ready now w lst")
      case True
      obtain d l where d: "due_windows now ws (lst(w \<mapsto> now)) = (d, l)" by fastforce
      then have "due = w # d" "lst' = l" using 2(3) True by auto
      moreover have d: "set d = {v \<in> set ws. thumb_ready now v (lst(w \<mapsto> now))}" "distinct d"
        "l = (\<lambda>v. if v \<in> set d then Some now else (lst(w \<mapsto> now)) v)"
        using 2(1) [OF True d] by blast+
      moreover have nw: "w \<notin> set d" using d(1) by simp
      moreover have "set (w # d) = {v \<in> set (w # ws). thumb_ready now v lst}"
      proof (rule set_eqI)
        fix v
        show "v \<in> set (w # d) \<longleftrightarrow> v \<in> {v \<in> set (w # ws). thumb_ready now v lst}"
          using True d(1) other by (cases "v = w") simp_all
      qed
      moreover have "l = (\<lambda>v. if v \<in> set (w # d) then Some now else lst v)"
        unfolding d(3) by (rule ext) simp
      ultimately show ?thesis by (simp only: distinct.simps simp_thms)
    next
      case False
      then have "due_windows now ws lst = (due, lst')" using 2(3) by simp
      then have "set due = {w \<in> set ws. thumb_ready now w lst} \<and> distinct due \<and>
          lst' = (\<lambda>w. if w \<in> set due then Some now else lst w)"
        using 2(2) [OF False] by blast
      moreover have "{v \<in> set (w # ws). thumb_ready now v lst} = {v \<in> set ws. thumb_ready now v lst}" using False by auto
      ultimately show ?thesis by (simp only: simp_thms)
    qed
  qed auto
  then show "set due = {w \<in> set ws. thumb_ready now w lst}" and "distinct due"
    and "lst' = (\<lambda>w. if w \<in> set due then Some now else lst w)" by blast+
qed

lemma throttle_due_ok:
  "set (fst (throttle_due now live t)) = {w \<in> set live. tt_visible t \<and> thumb_ready now w (tt_last t)}"
  "distinct (fst (throttle_due now live t))"
  "tt_visible (snd (throttle_due now live t)) = tt_visible t"
  "tt_last (snd (throttle_due now live t)) w = (if w \<in> set (fst (throttle_due now live t)) then Some now else tt_last t w)"
  using due_windows_ok [of now live "tt_last t"]
  by (cases "due_windows now live (tt_last t)"; simp add: throttle_due_def)+

text \<open>Until the gallery is hidden or the window's session goes live anew or ends, a window sampled once is not forgotten.\<close>

lemma sampled_kept:
  assumes "tt_visible t" and "tt_last t w = Some t1"
    and "ThumbVisible False \<notin> set mid" and "ThumbLive w \<notin> set mid" and "ThumbEnded w \<notin> set mid"
  shows "tt_visible (thumb_run mid t) \<and> (\<exists>t'. tt_last (thumb_run mid t) w = Some t' \<and> t1 \<le> t')"
  using assms
proof (induction mid arbitrary: t t1)
  case (Cons op mid)
  let ?t = "snd (thumb_step op t)"
  have "tt_visible ?t \<and> (\<exists>t'. tt_last ?t w = Some t' \<and> t1 \<le> t')"
  proof (cases op)
    case (ThumbVisible v)
    then show ?thesis using Cons.prems by (cases v) (auto simp: throttle_set_visible_def)
  next
    case (ThumbDue now live)
    have "t1 \<le> now" if "thumb_ready now w (tt_last t)"
      using that Cons.prems(2) interval_pos by (simp add: thumb_ready_def duration_since_def)
    then show ?thesis using ThumbDue Cons.prems(1,2) throttle_due_ok(1,3,4) [of now live t] by auto
  qed (use Cons.prems in \<open>auto simp: went_live_def throttle_ended_def\<close>)
  then obtain t' where "tt_visible ?t" "tt_last ?t w = Some t'" "t1 \<le> t'" by blast
  then have "tt_visible (thumb_run mid ?t) \<and> (\<exists>u. tt_last (thumb_run mid ?t) w = Some u \<and> t' \<le> u)"
    using Cons.IH Cons.prems(3-5) by auto
  then show ?case using \<open>t1 \<le> t'\<close> by fastforce
qed auto

text \<open>However the gallery is shown and hidden and sessions come and go, a window is sampled at most once per call and only
  while the gallery is visible; two samples of it are a thumbnail interval apart unless between them the gallery was
  hidden or the session went live or ended; and a call right after the gallery is shown samples every live window.\<close>

theorem thumbnails_throttled:
  "let s0 = thumb_run pre ThumbnailThrottle_default; first = throttle_due t1 live1 s0;
       s1 = thumb_run mid (snd first); second = throttle_due t2 live2 s1
   in distinct (fst first) \<and> (fst first \<noteq> [] \<longrightarrow> tt_visible s0) \<and>
      (w \<in> set (fst first) \<and> w \<in> set (fst second) \<longrightarrow>
         THUMBNAIL_INTERVAL \<le> t2 - t1 \<or> ThumbVisible False \<in> set mid \<or> ThumbLive w \<in> set mid \<or> ThumbEnded w \<in> set mid) \<and>
      (\<not> tt_visible s0 \<longrightarrow> set (fst (throttle_due t1 live1 (throttle_set_visible True s0))) = set live1)"
proof -
  define s0 where "s0 = thumb_run pre ThumbnailThrottle_default"
  define s1 where "s1 = thumb_run mid (snd (throttle_due t1 live1 s0))"
  have "THUMBNAIL_INTERVAL \<le> t2 - t1"
    if "w \<in> set (fst (throttle_due t1 live1 s0))" "w \<in> set (fst (throttle_due t2 live2 s1))"
      "ThumbVisible False \<notin> set mid" "ThumbLive w \<notin> set mid" "ThumbEnded w \<notin> set mid"
  proof -
    have "tt_visible (snd (throttle_due t1 live1 s0))" "tt_last (snd (throttle_due t1 live1 s0)) w = Some t1"
      using that(1) throttle_due_ok [of t1 live1 s0] by auto
    from sampled_kept [OF this that(3-5)] obtain t' where "tt_last s1 w = Some t'" "t1 \<le> t'" by (auto simp: s1_def)
    then show ?thesis
      using that(2) throttle_due_ok(1) [of t2 live2 s1] by (auto simp: thumb_ready_def duration_since_def)
  qed
  moreover have "set (fst (throttle_due t1 live1 (throttle_set_visible True s0))) = set live1" if "\<not> tt_visible s0"
    using that by (auto simp: throttle_due_ok(1) throttle_set_visible_def thumb_ready_def)
  moreover have "tt_visible s0" if "fst (throttle_due t1 live1 s0) \<noteq> []"
    using that by (auto simp: throttle_due_def split: if_splits)
  ultimately show ?thesis
    unfolding Let_def s0_def [symmetric] s1_def [symmetric] using throttle_due_ok(2) by blast
qed

subsection \<open>Scaled pictures\<close>

lemma fit_size_bounds:
  assumes "width sz \<noteq> 0" and "height sz \<noteq> 0"
  shows "1 \<le> unat (width (fit_size F sz mx)) \<and> unat (width (fit_size F sz mx)) \<le> max (unat (width mx)) 1 \<and>
    1 \<le> unat (height (fit_size F sz mx)) \<and> unat (height (fit_size F sz mx)) \<le> max (unat (height mx)) 1"
proof -
  have "1 \<le> unat (min (max v 1) (max m 1)) \<and> unat (min (max v 1) (max m 1)) \<le> max (unat m) 1" for v m :: u32
    by (auto simp: min_def max_def word_le_nat_alt split: if_splits)
  then show ?thesis using assms by (simp add: fit_size_def Let_def)
qed

lemma box_in_range:
  assumes "i < k" and "0 < n"
  shows "box_from n k i < box_to n k i" and "box_to n k i \<le> n"
proof -
  have "i * n div k < n" using assms by (simp add: less_mult_imp_div_less mult.commute)
  moreover have "(i + 1) * n div k \<le> n"
  proof -
    have "(i + 1) * n \<le> k * n" using assms(1) by (intro mult_le_mono) auto
    then have "(i + 1) * n div k \<le> k * n div k" by (rule div_le_mono)
    then show ?thesis using assms(1) by simp
  qed
  ultimately show "box_from n k i < box_to n k i" and "box_to n k i \<le> n"
    by (auto simp: box_from_def box_to_def)
qed

lemma length_rows: "length (concat (map (\<lambda>i. concat (map (\<lambda>j. box_pixel bgra w (ys i) (xs j)) js)) is)) = length is * length js * 4"
proof -
  have "length (concat (map (\<lambda>j. box_pixel bgra w (ys i) (xs j)) js)) = length js * 4" for i
    by (induction js) (simp_all add: box_pixel_def Let_def)
  then show ?thesis by (induction "is") (simp_all add: algebra_simps)
qed

text \<open>A thumbnail of a whole frame is as long as its size says, fits the box it is made for, is not empty, and every byte
  it averages is a byte of the frame.\<close>

theorem downscale_in_range:
  assumes "0 < unat (width sz)" and "0 < unat (height sz)" and "unat (width sz) * unat (height sz) * 4 \<le> length bgra"
  shows "case downscale F bgra sz mx of (rgba, out) \<Rightarrow>
    length rgba = unat (width out) * unat (height out) * 4 \<and>
    1 \<le> unat (width out) \<and> unat (width out) \<le> max (unat (width mx)) 1 \<and>
    1 \<le> unat (height out) \<and> unat (height out) \<le> max (unat (height mx)) 1 \<and>
    (\<forall>ox < unat (width out). \<forall>oy < unat (height out).
       \<forall>x \<in> {box_from (unat (width sz)) (unat (width out)) ox..<box_to (unat (width sz)) (unat (width out)) ox}.
       \<forall>y \<in> {box_from (unat (height sz)) (unat (height out)) oy..<box_to (unat (height sz)) (unat (height out)) oy}.
         \<forall>c < 4. (y * unat (width sz) + x) * 4 + c < length bgra)"
proof -
  let ?w = "unat (width sz)" and ?h = "unat (height sz)" and ?out = "fit_size F sz mx"
  have nz: "width sz \<noteq> 0" "height sz \<noteq> 0" using assms(1,2) by (auto simp flip: unat_gt_0)
  have "(y * ?w + x) * 4 + c < length bgra" if "x < ?w" "y < ?h" "c < 4" for x y c
  proof -
    have "y * ?w + x < ?h * ?w"
    proof -
      have "y * ?w + x < (y + 1) * ?w" using that(1) by simp
      also have "\<dots> \<le> ?h * ?w" using that(2) by (intro mult_le_mono) auto
      finally show ?thesis .
    qed
    moreover have "a * 4 + c < b * 4" if "a < b" for a b :: nat using that \<open>c < 4\<close> by linarith
    ultimately have "(y * ?w + x) * 4 + c < ?h * ?w * 4" by blast
    then show ?thesis using assms(3) by (simp add: mult.commute)
  qed
  moreover have "x < ?w" if "ox < unat (width ?out)" "x < box_to ?w (unat (width ?out)) ox" for ox x
    using box_in_range(2) [OF that(1) assms(1)] that(2) by linarith
  moreover have "y < ?h" if "oy < unat (height ?out)" "y < box_to ?h (unat (height ?out)) oy" for oy y
    using box_in_range(2) [OF that(1) assms(2)] that(2) by linarith
  moreover have "snd (downscale F bgra sz mx) = ?out"
    "length (fst (downscale F bgra sz mx)) = unat (width ?out) * unat (height ?out) * 4"
    using assms by (simp_all add: downscale_def Let_def length_rows)
  ultimately show ?thesis
    using fit_size_bounds [OF nz, of F mx] by (cases "downscale F bgra sz mx") auto
qed

subsection \<open>Window frames\<close>

text \<open>A window opens where it was only if enough of it is on a screen and it is large enough, and else with the size of
  its template.\<close>

lemma frame_restore_ok:
  "(\<exists>s. saved = Some s \<and> frame_usable F screens t s \<and> frame_restore F saved screens t n = s) \<or>
   (fr_width (frame_restore F saved screens t n) = tp_width t \<and> fr_height (frame_restore F saved screens t n) = tp_height t)"
  by (auto simp: frame_restore_def Let_def split: option.splits list.splits)

text \<open>A frame whose write failed is remembered as saved: setting it again succeeds without writing the file.\<close>

lemma failed_write_forgotten:
  assumes "map_of (fs_frames s) k = None" and "frame_eq F frame frame"
  shows "\<exists>s1. frames_set F print (Some e) k frame s = (Inl (ErrStorage e), s1) \<and>
    frames_set F print None k frame s1 = (Inr (), s1) \<and> fs_file s1 = fs_file s"
  using assms by (simp add: frames_set_def frames_write_def)

subsection \<open>Witness\<close>

theorem downscale_in_range_witness:
  "length (fst (downscale rat_f64 [1, 2, 3, 4] \<lparr>width = 1, height = 1\<rparr> THUMBNAIL_MAX)) \<ge> 4"
proof -
  have "0 < unat (width \<lparr>width = 1 :: u32, height = 1\<rparr>)" "0 < unat (height \<lparr>width = 1 :: u32, height = 1\<rparr>)"
    "unat (width \<lparr>width = 1 :: u32, height = 1\<rparr>) * unat (height \<lparr>width = 1 :: u32, height = 1\<rparr>) * 4 \<le> length [1 :: u8, 2, 3, 4]"
    by simp_all
  from downscale_in_range [OF this, where F = rat_f64 and mx = THUMBNAIL_MAX] show ?thesis
    by (auto split: prod.splits simp: Suc_le_eq)
qed

end
