(* ===== verification/Render_Clip.thy ===== *)
theory Render_Clip
  imports Core_Geometry Rust_F64
begin

text \<open>
  \<open>crates/drift-render/src/clip.rs\<close>, \<open>layout.rs\<close> and \<open>color.rs\<close>: the clipping every drawing operation goes through,
  where the desktop is drawn on a target, and the conversion of decoded pictures. Lengths in pixels are also read as
  natural numbers.
\<close>

subsection \<open>Clipping\<close>

definition clip_rect :: "Rect \<Rightarrow> u32 Size \<Rightarrow> Rect option" where
  "clip_rect r bounds =
     (if rect_is_empty r \<or> width bounds \<le> rect_x r \<or> height bounds \<le> rect_y r then None
      else Some (Rect_new (rect_x r) (rect_y r) (min (rect_width r) (width bounds - rect_x r))
             (min (rect_height r) (height bounds - rect_y r))))"

record CopyRegion =
  cr_src :: "u32 Point"
  cr_dst :: "u32 Point"
  cr_size :: "u32 Size"

definition clip_copy :: "Rect \<Rightarrow> u32 Size \<Rightarrow> u32 Point \<Rightarrow> u32 Size \<Rightarrow> CopyRegion option" where
  "clip_copy src_rect src_bounds dst dst_bounds =
     (case clip_rect src_rect src_bounds of
        None \<Rightarrow> None
      | Some src \<Rightarrow>
          (case clip_rect (Rect_new (pt_x dst) (pt_y dst) (rect_width src) (rect_height src)) dst_bounds of
             None \<Rightarrow> None
           | Some dst_rect \<Rightarrow>
               Some \<lparr>cr_src = Point_new (rect_x src) (rect_y src), cr_dst = dst,
                     cr_size = Size_new (rect_width dst_rect) (rect_height dst_rect)\<rparr>))"

subsection \<open>The present layout\<close>

datatype Filter = Nearest | Linear

record PresentLayout =
  pl_filter :: Filter
  pl_viewport :: Rect

definition scale_side :: "u64 \<Rightarrow> u64 \<Rightarrow> u64 \<Rightarrow> u64" where
  "scale_side num den limit = min (max ((2 * num + den) div (2 * den)) 1) limit"

definition present_layout :: "u32 Size \<Rightarrow> u32 Size \<Rightarrow> PresentLayout option" where
  "present_layout desktop drawable =
     (if width desktop = 0 \<or> height desktop = 0 \<or> width drawable = 0 \<or> height drawable = 0 then None
      else if desktop = drawable
        then Some \<lparr>pl_filter = Nearest, pl_viewport = Rect_new 0 0 (width drawable) (height drawable)\<rparr>
      else
        let dw = ucast (width desktop) :: u64; dh = ucast (height desktop) :: u64;
            tw = ucast (width drawable) :: u64; th = ucast (height drawable) :: u64;
            (w, h) = (if tw * dh \<le> th * dw then (tw, scale_side (tw * dh) dw th) else (scale_side (th * dw) dh tw, th));
            (w, h) = (ucast w :: u32, ucast h :: u32)
        in Some \<lparr>pl_filter = Linear,
             pl_viewport = Rect_new ((width drawable - w) div 2) ((height drawable - h) div 2) w h\<rparr>)"

subsection \<open>What the clipping promises\<close>

text \<open>A rectangle that is not empty and inside a surface; with unsigned subtraction, so that nothing wraps around.\<close>

definition rect_within :: "Rect \<Rightarrow> u32 Size \<Rightarrow> bool" where
  "rect_within q b \<longleftrightarrow> 0 < rect_width q \<and> 0 < rect_height q \<and> rect_x q < width b \<and> rect_y q < height b \<and>
     rect_width q \<le> width b - rect_x q \<and> rect_height q \<le> height b - rect_y q"

lemma rect_simps [simp]:
  "rect_x (Rect_new a b c d) = a" "rect_y (Rect_new a b c d) = b" "rect_width (Rect_new a b c d) = c"
  "rect_height (Rect_new a b c d) = d"
  by (simp_all add: Rect_new_def)

lemma point_simps [simp]: "pt_x (Point_new a b) = a" "pt_y (Point_new a b) = b"
  by (simp_all add: Point_new_def)

lemma rect_within_unat:
  "rect_within q b \<longleftrightarrow> 0 < unat (rect_width q) \<and> 0 < unat (rect_height q) \<and>
     unat (rect_x q) + unat (rect_width q) \<le> unat (width b) \<and> unat (rect_y q) + unat (rect_height q) \<le> unat (height b)"
proof -
  have "(0 < w \<and> p < m \<and> w \<le> m - p) \<longleftrightarrow> 0 < unat w \<and> unat p + unat w \<le> unat m" for p w m :: u32
    by (cases "p < m") (auto simp: word_less_nat_alt word_le_nat_alt unat_sub)
  from this [of "rect_width q" "rect_x q" "width b"] this [of "rect_height q" "rect_y q" "height b"]
  show ?thesis unfolding rect_within_def by blast
qed

lemma clip_rect_within:
  assumes "clip_rect r b = Some q"
  shows "rect_within q b" "rect_x q = rect_x r" "rect_y q = rect_y r" "rect_width q \<le> rect_width r"
    "rect_height q \<le> rect_height r"
  using assms by (auto simp: clip_rect_def rect_within_def rect_is_empty_def min_def word_gt_0 not_le split: if_splits)

lemma clip_rect_id: "rect_within q b \<Longrightarrow> clip_rect q b = Some q"
  by (auto simp: clip_rect_def rect_within_def rect_is_empty_def word_gt_0 not_le min_def)

text \<open>The copied pixels lie inside both sides.\<close>

definition copy_within :: "CopyRegion \<Rightarrow> u32 Size \<Rightarrow> u32 Size \<Rightarrow> bool" where
  "copy_within c sb db \<longleftrightarrow>
     rect_within (Rect_new (pt_x (cr_src c)) (pt_y (cr_src c)) (width (cr_size c)) (height (cr_size c))) sb \<and>
     rect_within (Rect_new (pt_x (cr_dst c)) (pt_y (cr_dst c)) (width (cr_size c)) (height (cr_size c))) db"

lemma rect_within_mono:
  "rect_within q b \<Longrightarrow> 0 < w \<Longrightarrow> 0 < h \<Longrightarrow> w \<le> rect_width q \<Longrightarrow> h \<le> rect_height q \<Longrightarrow>
     rect_within (Rect_new (rect_x q) (rect_y q) w h) b"
  by (auto simp: rect_within_def)

lemma clip_copy_within:
  assumes "clip_copy r sb d db = Some c"
  shows "copy_within c sb db" "cr_dst c = d" "pt_x (cr_src c) = rect_x r" "pt_y (cr_src c) = rect_y r"
proof -
  from assms obtain q p where q: "clip_rect r sb = Some q"
    and p: "clip_rect (Rect_new (pt_x d) (pt_y d) (rect_width q) (rect_height q)) db = Some p"
    and c: "c = \<lparr>cr_src = Point_new (rect_x q) (rect_y q), cr_dst = d, cr_size = Size_new (rect_width p) (rect_height p)\<rparr>"
    by (auto simp: clip_copy_def split: option.splits)
  note Q = clip_rect_within [OF q] and P = clip_rect_within [OF p]
  have pos: "0 < rect_width p" "0 < rect_height p" using P(1) by (simp_all add: rect_within_def)
  have "rect_within (Rect_new (rect_x q) (rect_y q) (rect_width p) (rect_height p)) sb"
    using rect_within_mono [OF Q(1) pos] P(4,5) by simp
  moreover have "rect_within (Rect_new (pt_x d) (pt_y d) (rect_width p) (rect_height p)) db"
    using P(1-3) by (simp add: rect_within_def)
  ultimately show "copy_within c sb db" by (simp add: copy_within_def c)
  show "cr_dst c = d" "pt_x (cr_src c) = rect_x r" "pt_y (cr_src c) = rect_y r" using Q by (simp_all add: c)
qed

text \<open>Copying out of a surface is copying out of a crop of it, moved to the origin.\<close>

lemma clip_copy_crop:
  assumes "rect_within r sb"
  shows "clip_copy r sb d db = map_option (\<lambda>c. c\<lparr>cr_src := Point_new (rect_x r) (rect_y r)\<rparr>)
     (clip_copy (Rect_new 0 0 (rect_width r) (rect_height r)) (rect_size r) d db)"
proof -
  have "rect_within (Rect_new 0 0 (rect_width r) (rect_height r)) (rect_size r)"
    using assms by (simp add: rect_within_def rect_size_def)
  then show ?thesis by (simp add: clip_copy_def clip_rect_id [OF assms] clip_rect_id split: option.split)
qed

subsection \<open>The layout's bounds\<close>

lemma unat_ucast_u32_u64: "unat (ucast a :: u64) = unat a" for a :: u32
  by transfer (simp add: take_bit_take_bit)

lemma unat_scale_side:
  assumes "2 * unat num + unat den < 2 ^ 64" "0 < unat den" "2 * unat den < 2 ^ 64"
  shows "unat (scale_side num den limit) = min (max ((2 * unat num + unat den) div (2 * unat den)) 1) (unat limit)"
proof -
  have "unat (2 * num) = 2 * unat num" "unat (2 * den) = 2 * unat den"
    using assms unat_mult_no_wrap [of 2 num] unat_mult_no_wrap [of 2 den] by simp_all
  then have "unat (2 * num + den) = 2 * unat num + unat den" using assms(1) unat_add_no_wrap [of "2 * num" den] by simp
  with \<open>unat (2 * den) = _\<close> have "unat ((2 * num + den) div (2 * den)) = (2 * unat num + unat den) div (2 * unat den)"
    by (simp add: unat_div)
  then show ?thesis by (simp add: scale_side_def min_def max_def word_le_nat_alt)
qed

text \<open>One side fills the target, the other is the rounded quotient and never leaves it.\<close>

lemma scaled_side_fits:
  fixes num den limit :: nat
  assumes "0 < den" "0 < limit" "num \<le> limit * den"
  defines "v \<equiv> min (max ((2 * num + den) div (2 * den)) 1) limit"
  shows "0 < v" "v \<le> limit" "v = 1 \<or> 2 * v * den \<le> 2 * num + den \<and> 2 * num < 2 * v * den + den"
proof -
  show "0 < v" "v \<le> limit" using assms(2) by (auto simp: v_def)
  define k where "k = (2 * num + den) div (2 * den)"
  have k: "2 * den * k \<le> 2 * num + den" "2 * num + den < 2 * den * k + 2 * den"
    unfolding k_def using assms(1) times_div_less_eq_dividend [of "2 * den" "2 * num + den"]
      dividend_less_times_div [of "2 * den" "2 * num + den"] by linarith+
  have "k < limit + 1"
  proof (rule ccontr)
    assume "\<not> k < limit + 1"
    then have "2 * den * (limit + 1) \<le> 2 * den * k" by (intro mult_left_mono) auto
    moreover have "2 * num + den < 2 * den * (limit + 1)" using assms(1,3) by (simp add: algebra_simps)
    ultimately show False using k(1) by linarith
  qed
  then show "v = 1 \<or> 2 * v * den \<le> 2 * num + den \<and> 2 * num < 2 * v * den + den"
  proof (cases "k = 0")
    case False
    then have "v = k" using \<open>k < limit + 1\<close> by (simp add: v_def k_def [symmetric])
    then show ?thesis using k by (simp add: mult.commute mult.left_commute)
  qed (use assms(2) in \<open>auto simp: v_def k_def\<close>)
qed

lemma centred_within_unat: "w \<le> t \<Longrightarrow> unat ((t - w) div 2) = (unat t - unat w) div 2" for w t :: u32
  by (simp add: unat_div unat_sub word_le_nat_alt)

definition layout_ok :: "u32 Size \<Rightarrow> u32 Size \<Rightarrow> PresentLayout \<Rightarrow> bool" where
  "layout_ok desktop drawable l \<longleftrightarrow>
     (let vp = pl_viewport l; w = unat (rect_width vp); h = unat (rect_height vp);
          dw = unat (width desktop); dh = unat (height desktop); tw = unat (width drawable); th = unat (height drawable)
      in rect_within vp drawable \<and>
         unat (rect_x vp) = (tw - w) div 2 \<and> unat (rect_y vp) = (th - h) div 2 \<and>
         (w = tw \<and> (h = 1 \<or> 2 * h * dw \<le> 2 * (tw * dh) + dw \<and> 2 * (tw * dh) < 2 * h * dw + dw) \<or>
          h = th \<and> (w = 1 \<or> 2 * w * dh \<le> 2 * (th * dw) + dh \<and> 2 * (th * dw) < 2 * w * dh + dh)) \<and>
         (pl_filter l = Nearest \<longleftrightarrow> desktop = drawable))"

lemma layout_okI:
  assumes "w \<noteq> 0" "h \<noteq> 0" "w \<le> width drawable" "h \<le> height drawable" "f = Nearest \<longleftrightarrow> desktop = drawable"
    "w = width drawable \<and> (unat h = 1 \<or> 2 * unat h * unat (width desktop) \<le> 2 * (unat (width drawable) * unat (height desktop)) + unat (width desktop) \<and>
        2 * (unat (width drawable) * unat (height desktop)) < 2 * unat h * unat (width desktop) + unat (width desktop)) \<or>
     h = height drawable \<and> (unat w = 1 \<or> 2 * unat w * unat (height desktop) \<le> 2 * (unat (height drawable) * unat (width desktop)) + unat (height desktop) \<and>
        2 * (unat (height drawable) * unat (width desktop)) < 2 * unat w * unat (height desktop) + unat (height desktop))"
  shows "layout_ok desktop drawable \<lparr>pl_filter = f, pl_viewport = Rect_new ((width drawable - w) div 2) ((height drawable - h) div 2) w h\<rparr>"
proof -
  have le: "unat w \<le> unat (width drawable)" "unat h \<le> unat (height drawable)" "0 < unat w" "0 < unat h"
    using assms by (simp_all add: word_le_nat_alt unat_gt_0)
  have half: "(t - v) div 2 + v \<le> t" if "v \<le> t" for t v :: nat using that by presburger
  have "rect_within (Rect_new ((width drawable - w) div 2) ((height drawable - h) div 2) w h) drawable"
    using le half [OF le(1)] half [OF le(2)] by (simp add: rect_within_unat centred_within_unat assms(3,4))
  then show ?thesis using assms(3-6) by (auto simp: layout_ok_def Let_def centred_within_unat)
qed

end
