(* ===== verification/Render_Colour.thy ===== *)
theory Render_Colour
  imports Core_Geometry Rust_F64 Video_Planes
begin

text \<open>
  \<open>crates/drift-render/src/color.rs\<close>: the server's integer encoder for BGRX pictures, as the code's tests and fake
  server use it, and the conversion of decoded NV12 pictures to RGB. Floating-point numbers are a parameter
  (\<open>f64_ops\<close>, here for \<open>f32\<close>). The round trip is proved for exact arithmetic.
\<close>

subsection \<open>The encoder\<close>

definition clamp_u8 :: "int \<Rightarrow> u8" where
  "clamp_u8 v = word_of_int (min (max v 0) 255)"

text \<open>All values of the \<open>i32\<close> arithmetic are below \<open>2 ^ 17\<close>; \<open>>> 8\<close> is the arithmetic shift, the floor of the quotient.\<close>

definition grd_rgb_to_yuv :: "u8 \<Rightarrow> u8 \<Rightarrow> u8 \<Rightarrow> u8 \<times> u8 \<times> u8" where
  "grd_rgb_to_yuv cr cg cb =
     (let r = uint cr; g = uint cg; b = uint cb;
          y = (54 * r + 183 * g + 18 * b) div 256;
          u = (- 29 * r - 99 * g + 128 * b) div 256 + 128;
          v = (128 * r - 116 * g - 12 * b) div 256 + 128
      in (clamp_u8 y, clamp_u8 u, clamp_u8 v))"

definition mean4 :: "u8 list \<Rightarrow> u8" where
  "mean4 ps = word_of_int ((sum_list (map uint ps) + 2) div 4)"

text \<open>The steps of two over rows and columns; \<open>checked_mul\<close> on \<open>usize\<close> is the bound on the byte count.\<close>

definition grd_encode_nv12 :: "u32 Size \<Rightarrow> u8 list \<Rightarrow> Nv12Planes option" where
  "grd_encode_nv12 sz bgra =
     (let w = unat (width sz); h = unat (height sz);
          yuv = (\<lambda>x y. let k = (y * w + x) * 4 in grd_rgb_to_yuv (bgra ! (k + 2)) (bgra ! (k + 1)) (bgra ! k));
          block = (\<lambda>bx by. let y1 = min (by + 1) (h - 1) in [yuv bx by, yuv (bx + 1) by, yuv bx y1, yuv (bx + 1) y1])
      in if w mod 2 \<noteq> 0 \<or> w * h \<ge> 2 ^ 64 \<or> w * h * 4 \<ge> 2 ^ 64 \<or> length bgra \<noteq> w * h * 4 then None
         else Nv12Planes_new sz
           (concat (map (\<lambda>y. map (\<lambda>x. fst (yuv x y)) [0..<w]) [0..<h]))
           (concat (map (\<lambda>j. concat (map (\<lambda>i. let px = block (2 * i) (2 * j) in
              [mean4 (map (fst \<circ> snd) px), mean4 (map (snd \<circ> snd) px)]) [0..<w div 2])) [0..<half_rows h])))"

subsection \<open>The decoder\<close>

definition DECODE_MATRIX :: "rat list list" where
  "DECODE_MATRIX =
     [[256 / 255, 2304 / 340765, 537728 / 340765],
      [256 / 255, - 62976 / 340765, - 158592 / 340765],
      [256 / 255, 633344 / 340765, - 832 / 340765]]"

definition FLOOR_BIAS :: rat where "FLOOR_BIAS = 1 / 2"

definition decode_channel :: "'f f64_ops \<Rightarrow> rat list \<Rightarrow> 'f \<Rightarrow> 'f \<Rightarrow> 'f \<Rightarrow> u8" where
  "decode_channel F row fy fu fv =
     (let c = f_add F (f_add F (f_mul F (f_lit F (row ! 0)) fy) (f_mul F (f_lit F (row ! 1)) fu)) (f_mul F (f_lit F (row ! 2)) fv)
      in word_of_int (f_to_int F (f_round F (f_clamp F c (f_lit F 0) (f_lit F 255)))))"

definition nv12_to_rgb :: "'f f64_ops \<Rightarrow> u8 \<Rightarrow> u8 \<Rightarrow> u8 \<Rightarrow> u8 \<times> u8 \<times> u8" where
  "nv12_to_rgb F cy cu cv =
     (let of_u8 = (\<lambda>b :: u8. f_lit F (of_int (uint b)));
          fy = f_add F (of_u8 cy) (f_lit F FLOOR_BIAS);
          fu = f_sub F (f_add F (of_u8 cu) (f_lit F FLOOR_BIAS)) (f_lit F 128);
          fv = f_sub F (f_add F (of_u8 cv) (f_lit F FLOOR_BIAS)) (f_lit F 128)
      in (decode_channel F (DECODE_MATRIX ! 0) fy fu fv, decode_channel F (DECODE_MATRIX ! 1) fy fu fv,
          decode_channel F (DECODE_MATRIX ! 2) fy fu fv))"

subsection \<open>Round trip\<close>

lemma uint_u8_bounds: "0 \<le> uint b" "uint b \<le> 255" for b :: u8
  using uint_lt2p [of b] by simp_all

lemma uint_clamp_u8: "0 \<le> v \<Longrightarrow> v \<le> 255 \<Longrightarrow> uint (clamp_u8 v) = v"
  by (simp add: clamp_u8_def uint_word_of_int)

lemma grd_rgb_to_yuv_exact:
  assumes "grd_rgb_to_yuv r g b = (y, u, v)"
  shows "uint y = (54 * uint r + 183 * uint g + 18 * uint b) div 256"
    "uint u = (- 29 * uint r - 99 * uint g + 128 * uint b) div 256 + 128"
    "uint v = (128 * uint r - 116 * uint g - 12 * uint b) div 256 + 128"
proof -
  note B = uint_u8_bounds [of r] uint_u8_bounds [of g] uint_u8_bounds [of b]
  have q: "0 \<le> n div 256 + k \<and> n div 256 + k \<le> 255" if "- 256 * k \<le> n" "n < 65536 - 256 * k" for n k :: int
  proof -
    have "256 * (n div 256) \<le> n" "n < 256 * (n div 256) + 256" by presburger+
    then show ?thesis using that by - (rule conjI; linarith)
  qed
  have "0 \<le> (54 * uint r + 183 * uint g + 18 * uint b) div 256 + 0 \<and> (54 * uint r + 183 * uint g + 18 * uint b) div 256 + 0 \<le> 255"
    "0 \<le> (- 29 * uint r - 99 * uint g + 128 * uint b) div 256 + 128 \<and> (- 29 * uint r - 99 * uint g + 128 * uint b) div 256 + 128 \<le> 255"
    "0 \<le> (128 * uint r - 116 * uint g - 12 * uint b) div 256 + 128 \<and> (128 * uint r - 116 * uint g - 12 * uint b) div 256 + 128 \<le> 255"
    by (rule q; use B in linarith)+
  note bounds = this [unfolded add_0_right]
  have eqs: "y = clamp_u8 ((54 * uint r + 183 * uint g + 18 * uint b) div 256)"
    "u = clamp_u8 ((- 29 * uint r - 99 * uint g + 128 * uint b) div 256 + 128)"
    "v = clamp_u8 ((128 * uint r - 116 * uint g - 12 * uint b) div 256 + 128)"
    using assms by (simp_all add: grd_rgb_to_yuv_def Let_def)
  show "uint y = (54 * uint r + 183 * uint g + 18 * uint b) div 256"
    "uint u = (- 29 * uint r - 99 * uint g + 128 * uint b) div 256 + 128"
    "uint v = (128 * uint r - 116 * uint g - 12 * uint b) div 256 + 128"
    unfolding eqs using bounds by (blast intro: uint_clamp_u8)+
qed

lemma decode_channel_rat:
  "decode_channel rat_f64 [a, b, c] (Some fy) (Some fu) (Some fv) =
     word_of_int \<lfloor>min (max (a * fy + b * fu + c * fv) 0) 255 + 1 / 2\<rfloor>"
  by (auto simp: decode_channel_def rat_f64_simps Let_def min_def max_def)

lemma rat_f64_ops:
  "f_lit rat_f64 p = Some p" "f_add rat_f64 (Some p) (Some q) = Some (p + q)" "f_sub rat_f64 (Some p) (Some q) = Some (p - q)"
  by (simp_all add: rat_f64_simps)

lemma nv12_to_rgb_rat:
  "nv12_to_rgb rat_f64 y u v =
     (let fy = Some (of_int (uint y) + 1 / 2); fu = Some (of_int (uint u) + 1 / 2 - 128); fv = Some (of_int (uint v) + 1 / 2 - 128)
      in (decode_channel rat_f64 [256 / 255, 2304 / 340765, 537728 / 340765] fy fu fv,
          decode_channel rat_f64 [256 / 255, - 62976 / 340765, - 158592 / 340765] fy fu fv,
          decode_channel rat_f64 [256 / 255, 633344 / 340765, - 832 / 340765] fy fu fv))"
  by (simp only: nv12_to_rgb_def Let_def rat_f64_ops FLOOR_BIAS_def DECODE_MATRIX_def nth_Cons_0 nth_Cons_Suc numeral_2_eq_2 One_nat_def)

text \<open>An error below one and a half becomes at most one when the value is clamped and rounded.\<close>

lemma round_within_one:
  fixes c :: rat
  assumes "\<bar>c - of_int n\<bar> < 3 / 2" "0 \<le> n" "n \<le> 255"
  shows "\<bar>uint (word_of_int \<lfloor>min (max c 0) 255 + 1 / 2\<rfloor> :: u8) - n\<bar> \<le> 1"
proof -
  define d where "d = min (max c 0) 255"
  have n: "(0::rat) \<le> of_int n" "of_int n \<le> (255::rat)" using assms(2,3) by simp_all
  have d: "\<bar>d - of_int n\<bar> < 3 / 2" "0 \<le> d" "d \<le> 255" using assms(1) n by (auto simp: d_def min_def max_def abs_less_iff)
  let ?k = "\<lfloor>d + 1 / 2\<rfloor>"
  have "of_int (n - 1) \<le> d + 1 / 2" "d + 1 / 2 < of_int (n + 2)" using d(1) by (simp_all, linarith+)
  then have k: "n - 1 \<le> ?k" "?k < n + 2" by (simp_all only: le_floor_iff floor_less_iff)
  have "0 \<le> ?k" "?k < 256" using d(2,3) by (simp_all add: floor_less_iff)
  then have "uint (word_of_int ?k :: u8) = ?k" by (simp add: uint_word_of_int)
  then show ?thesis using k by (simp add: d_def [symmetric] abs_le_iff)
qed

definition near :: "u8 \<Rightarrow> u8 \<Rightarrow> bool" where
  "near a b \<longleftrightarrow> \<bar>uint a - uint b\<bar> \<le> 1"

lemma floor_error:
  fixes n :: int
  defines "q \<equiv> of_int (n div 256) + 1 / 2 :: rat"
  shows "256 * q \<le> of_int n + 128" "of_int n \<le> 256 * q + 128"
proof -
  have "256 * (n div 256) \<le> n" "n \<le> 256 * (n div 256) + 255" by presburger+
  then have "of_int (256 * (n div 256)) \<le> (of_int n :: rat)" "(of_int n :: rat) \<le> of_int (256 * (n div 256) + 255)"
    by (simp_all only: of_int_le_iff)
  then show "256 * q \<le> of_int n + 128" "of_int n \<le> 256 * q + 128" by (simp_all add: q_def)
qed

text \<open>The decoded channel is off by the inverse matrix applied to the rounding errors of the encoder.\<close>

lemma decode_exact:
  assumes "grd_rgb_to_yuv r g b = (y, u, v)" "nv12_to_rgb rat_f64 y u v = (r', g', b')"
  shows "near r' r" "near g' g" "near b' b"
proof -
  define R G B :: rat where "R = of_int (uint r)" and "G = of_int (uint g)" and "B = of_int (uint b)"
  define Y U V :: rat where "Y = of_int (uint y) + 1 / 2" and "U = of_int (uint u) + 1 / 2 - 128" and "V = of_int (uint v) + 1 / 2 - 128"
  note E = grd_rgb_to_yuv_exact [OF assms(1)]
  define ny nu nv where "ny = 54 * uint r + 183 * uint g + 18 * uint b" and "nu = - 29 * uint r - 99 * uint g + 128 * uint b"
    and "nv = 128 * uint r - 116 * uint g - 12 * uint b"
  have n: "of_int ny = 54 * R + 183 * G + 18 * B" "of_int nu = - 29 * R - 99 * G + 128 * B" "of_int nv = 128 * R - 116 * G - 12 * B"
    by (simp_all add: ny_def nu_def nv_def R_def G_def B_def)
  have "Y = of_int (ny div 256) + 1 / 2" "U = of_int (nu div 256) + 1 / 2" "V = of_int (nv div 256) + 1 / 2"
    by (simp_all add: Y_def U_def V_def E ny_def nu_def nv_def)
  then have e: "256 * Y \<le> 54 * R + 183 * G + 18 * B + 128" "54 * R + 183 * G + 18 * B \<le> 256 * Y + 128"
    "256 * U \<le> - 29 * R - 99 * G + 128 * B + 128" "- 29 * R - 99 * G + 128 * B \<le> 256 * U + 128"
    "256 * V \<le> 128 * R - 116 * G - 12 * B + 128" "128 * R - 116 * G - 12 * B \<le> 256 * V + 128"
    using floor_error [of ny] floor_error [of nu] floor_error [of nv] unfolding n by simp_all
  have d: "r' = word_of_int \<lfloor>min (max (256 / 255 * Y + 2304 / 340765 * U + 537728 / 340765 * V) 0) 255 + 1 / 2\<rfloor>"
    "g' = word_of_int \<lfloor>min (max (256 / 255 * Y + - 62976 / 340765 * U + - 158592 / 340765 * V) 0) 255 + 1 / 2\<rfloor>"
    "b' = word_of_int \<lfloor>min (max (256 / 255 * Y + 633344 / 340765 * U + - 832 / 340765 * V) 0) 255 + 1 / 2\<rfloor>"
    using assms(2) unfolding nv12_to_rgb_rat Let_def decode_channel_rat Y_def U_def V_def by blast+
  have "\<bar>256 / 255 * Y + 2304 / 340765 * U + 537728 / 340765 * V - R\<bar> < 3 / 2"
    "\<bar>256 / 255 * Y + - 62976 / 340765 * U + - 158592 / 340765 * V - G\<bar> < 3 / 2"
    "\<bar>256 / 255 * Y + 633344 / 340765 * U + - 832 / 340765 * V - B\<bar> < 3 / 2"
    using e unfolding abs_less_iff by - (rule conjI; linarith)+
  then show "near r' r" "near g' g" "near b' b"
    unfolding near_def d R_def G_def B_def by - (rule round_within_one [OF _ uint_u8_bounds]; assumption)+
qed

end
