(* ===== verification/Render_Theorems.thy ===== *)
theory Render_Theorems
  imports Render_Clip Render_Colour
begin

text \<open>
  The properties of \<open>drift-render\<close>: the present layout stays on the target, and colours survive the server's encoder.
\<close>

lemma ucast_u32_u64_u32 [simp]: "ucast (ucast a :: u64) = a" for a :: u32
  by transfer (simp add: take_bit_take_bit)

lemma unat_times_u64:
  fixes a b :: u32
  assumes "unat a \<le> 2 ^ 31" "unat b \<le> 2 ^ 31"
  shows "unat ((ucast a :: u64) * ucast b) = unat a * unat b" "unat a * unat b \<le> 2 ^ 62"
proof -
  show le: "unat a * unat b \<le> 2 ^ 62" using mult_le_mono [OF assms] by simp
  then show "unat ((ucast a :: u64) * ucast b) = unat a * unat b"
    by (subst unat_mult_no_wrap) (simp_all add: unat_ucast_u32_u64)
qed

lemma unat_scale_side_u32:
  fixes a b d lim :: u32
  assumes "unat a \<le> 2 ^ 31" "unat b \<le> 2 ^ 31" "unat d \<le> 2 ^ 31" "0 < d" "0 < lim" "unat a * unat b \<le> unat lim * unat d"
  defines "v \<equiv> ucast (scale_side (ucast a * ucast b) (ucast d) (ucast lim)) :: u32"
  shows "v \<noteq> 0" "v \<le> lim" "unat v = 1 \<or> 2 * unat v * unat d \<le> 2 * (unat a * unat b) + unat d \<and>
     2 * (unat a * unat b) < 2 * unat v * unat d + unat d"
proof -
  note n = unat_times_u64 [OF assms(1,2)]
  have pos: "0 < unat d" "0 < unat lim" using assms(4,5) by (simp_all add: word_less_nat_alt)
  note s = scaled_side_fits [OF pos assms(6)]
  have "unat (scale_side (ucast a * ucast b) (ucast d) (ucast lim)) =
      min (max ((2 * (unat a * unat b) + unat d) div (2 * unat d)) 1) (unat lim)" (is "_ = ?m")
    using n(2) assms(3) pos by (subst unat_scale_side) (simp_all add: n(1) unat_ucast_u32_u64)
  moreover from this have "unat v = ?m"
    using s(2) unsigned_less [of lim, where ?'a = nat] by (simp add: v_def unsigned_ucast_eq take_bit_nat_eq_self)
  ultimately show "v \<noteq> 0" "v \<le> lim" "unat v = 1 \<or> 2 * unat v * unat d \<le> 2 * (unat a * unat b) + unat d \<and>
     2 * (unat a * unat b) < 2 * unat v * unat d + unat d"
    using s by (simp_all add: word_le_nat_alt unat_gt_0 [symmetric] del: unat_gt_0)
qed

text \<open>C38: The desktop is drawn inside the target, centred, on all of one axis and with its own proportions on the
  other; texel for texel when the sizes agree.\<close>

lemma present_layout_fits:
  assumes "unat (width desktop) \<le> 2 ^ 31" "unat (height desktop) \<le> 2 ^ 31" "unat (width drawable) \<le> 2 ^ 31"
    "unat (height drawable) \<le> 2 ^ 31" "present_layout desktop drawable = Some l"
  shows "layout_ok desktop drawable l"
proof (cases "desktop = drawable")
  case True
  then have l: "l = \<lparr>pl_filter = Nearest, pl_viewport = Rect_new 0 0 (width drawable) (height drawable)\<rparr>"
    and nz: "width drawable \<noteq> 0" "height drawable \<noteq> 0"
    using assms(5) by (auto simp: present_layout_def split: if_splits)
  have "layout_ok desktop drawable \<lparr>pl_filter = Nearest, pl_viewport = Rect_new ((width drawable - width drawable) div 2)
      ((height drawable - height drawable) div 2) (width drawable) (height drawable)\<rparr>"
    using True nz by (intro layout_okI) (auto simp: unat_eq_zero mult.commute)
  then show ?thesis by (simp add: l)
next
  case False
  have nz: "0 < width desktop" "0 < height desktop" "0 < width drawable" "0 < height drawable"
    using assms(5) by (auto simp: present_layout_def word_gt_0 split: if_splits)
  let ?le = "unat (width drawable) * unat (height desktop) \<le> unat (height drawable) * unat (width desktop)"
  have le: "(ucast (width drawable) * ucast (height desktop) :: u64) \<le> ucast (height drawable) * ucast (width desktop) \<longleftrightarrow> ?le"
    by (simp only: word_le_nat_alt unat_times_u64 [OF assms(3,2)] unat_times_u64 [OF assms(4,1)])
  show ?thesis
  proof (cases ?le)
    case True
    let ?h = "ucast (scale_side (ucast (width drawable) * ucast (height desktop)) (ucast (width desktop)) (ucast (height drawable))) :: u32"
    have "l = \<lparr>pl_filter = Linear, pl_viewport = Rect_new ((width drawable - width drawable) div 2) ((height drawable - ?h) div 2) (width drawable) ?h\<rparr>"
      using assms(5) False nz unfolding present_layout_def le Let_def by (simp add: True word_gt_0)
    then show ?thesis using False nz unat_scale_side_u32 [OF assms(3,2,1) nz(1) nz(4) True]
      by (simp only:) (rule layout_okI; simp)
  next
    case other: False
    let ?w = "ucast (scale_side (ucast (height drawable) * ucast (width desktop)) (ucast (height desktop)) (ucast (width drawable))) :: u32"
    have "l = \<lparr>pl_filter = Linear, pl_viewport = Rect_new ((width drawable - ?w) div 2) ((height drawable - height drawable) div 2) ?w (height drawable)\<rparr>"
      using assms(5) False nz unfolding present_layout_def le Let_def by (simp add: other word_gt_0)
    then show ?thesis using False nz unat_scale_side_u32 [OF assms(4,1,2) nz(2) nz(3)] other
      by (simp only:) (rule layout_okI; simp add: mult.commute)
  qed
qed

lemma present_layout_fits_witness:
  "layout_ok (Size_new 3 2) (Size_new 10 10) \<lparr>pl_filter = Linear, pl_viewport = Rect_new 0 1 10 7\<rparr>"
proof (rule present_layout_fits)
  show "present_layout (Size_new 3 2) (Size_new 10 10) = Some \<lparr>pl_filter = Linear, pl_viewport = Rect_new 0 1 10 7\<rparr>"
    by code_simp
qed simp_all

text \<open>C39: A colour the server encodes comes back within one on every channel, in exact arithmetic, for the whole RGB
  cube.\<close>

lemma colours_round_trip:
  "case grd_rgb_to_yuv r g b of (y, u, v) \<Rightarrow>
     (case nv12_to_rgb rat_f64 y u v of (r', g', b') \<Rightarrow> near r' r \<and> near g' g \<and> near b' b)"
  by (auto split: prod.split intro: decode_exact)

end
