(* ===== verification/Spec2Isabelle.thy ===== *)
theory Spec2Isabelle
  imports Core_Theorems Gfx_Theorems Codec_Progressive_Theorems Input_Theorems Clip_Theorems Rdp_Theorems Rdp_Stats_Theorems
    Video_Theorems Video_Record_Theorems Video_Planes App_Theorems App_Profile_Theorems App_Services App_Gallery_Theorems
    Render_Theorems
begin

text \<open>
  Drift is a remote desktop client for macOS written in Rust. This library models the parts of it that
  decide: everything below is a translation of code under \<open>crates/\<close> and \<open>src-tauri/\<close>, with the theorems that
  make it correct. Names follow the source; a prefix tells equally named methods apart (\<open>rd_poll\<close> is
  \<open>ResizeDriver::poll\<close>, \<open>gt_poll\<close> is \<open>GreeterTypist::poll\<close>).

  \<^bold>\<open>How the parts interact.\<close> The app owns one session actor per tab (\<open>drift-rdp/src/actor.rs\<close>). The actor
  connects legs (\<open>connect.rs\<close>), follows the server's redirections (\<open>redirect.rs\<close>), retries with the
  backoff of \<open>drift-core/src/reconnect.rs\<close> and reports every change as a state of
  \<open>drift-core/src/state.rs\<close>. While a leg is up, the view's keyboard and pointer events pass through
  \<open>drift-input\<close>, then through the fast-path encoder (\<open>fastpath.rs\<close>); the view's size goes through the
  resize driver (\<open>resize.rs\<close>) and the layout computation (\<open>drift-core/src/layout.rs\<close>); the pasteboard goes
  through \<open>drift-clipboard\<close>; and graphics payloads go to the client of \<open>drift-gfx\<close>, which decodes tiles with
  \<open>drift-codec\<close>, drives the frame sink and produces acknowledgements. The app (\<open>src-tauri\<close>) opens and closes the
  actors, folds their events into the view each window shows, and keeps profiles, passwords and thumbnails.

  \<^bold>\<open>Shared theories.\<close>
  \<^item> \<open>Drift_Prelude\<close>: machine integers with Rust's wrapping, saturating and checked operations, results and
    options, durations and instants (64-bit nanoseconds as natural numbers), ordered maps, and the lemma
    collections the component theories use.
  \<^item> \<open>Rust_Str\<close>, \<open>Rust_Utf\<close>, \<open>Rust_F64\<close>: what the code uses of strings, of UTF-8 and UTF-16 and of floating
    point. \<open>f64\<close> is a record of operations; laws about it are named hypotheses, and the witnesses use
    exact rationals with a NaN.

  \<^bold>\<open>\<open>drift-core\<close>.\<close> \<open>Core_Geometry\<close> (\<open>geometry.rs\<close>), \<open>Core_State\<close> (\<open>state.rs\<close>: states, reasons, the transition
  gate), \<open>Core_Reconnect\<close> (\<open>reconnect.rs\<close>: policy and SplitMix64), \<open>Core_Triggers\<close> (\<open>triggers.rs\<close>),
  \<open>Core_Layout\<close> (\<open>layout.rs\<close>), \<open>Core_Profile\<close> (\<open>profile.rs\<close>), \<open>Core_Store\<close> (\<open>store.rs\<close>; the TOML library is a
  parameter), \<open>Core_Input\<close> (\<open>input.rs\<close>). \<open>Core_Theorems\<close> shows that the transition gate is exactly its
  documented rules, that retries stay in the budget and below the exponential ceiling, that triggers are
  debounced, that every layout is within the limits, and the round trips of fingerprints and stores.

  \<^bold>\<open>\<open>drift-gfx\<close> and \<open>drift-codec\<close>.\<close> \<open>Gfx_Ack\<close> (\<open>ack.rs\<close>), \<open>Gfx_State\<close> (\<open>state.rs\<close>), \<open>Codec_Tile\<close> (the tile type and
  the stateless codecs), \<open>Gfx_Client\<close> (\<open>client.rs\<close>), \<open>Gfx_Renderer\<close> (the contract of \<open>FrameSink\<close> as a
  renderer of pixels), \<open>Gfx_Session\<close> (interleavings of payloads, presents and visibility). \<open>Gfx_Theorems\<close>
  shows that the client never breaks the sink's contract and agrees with the renderer, that tiles are
  drawn where and only where they lie, that failing payloads draw nothing, and that acknowledgements
  follow presented frames. PDU decoding, ZGFX and the third-party decoders are parameters.

  \<open>Codec_Progressive\<close> (\<open>progressive.rs\<close>) is the RemoteFX progressive decoder: the grids and references of its
  contexts, the preparation of tiles, their parallel rounds and the clipping of what is drawn; the entropy
  decoders and the region arithmetic of the vendored library are the record \<open>rfx_ops\<close>. A round is the list of
  its jobs' results, since each job owns its tile. \<open>Codec_Progressive_Rounds\<close> shows that the rounds do what
  decoding the tiles in order does, \<open>Codec_Progressive_Theorems\<close> that errors lose no tile and that every
  drawn rectangle lies on the surface with its pixels.

  \<^bold>\<open>\<open>drift-video\<close>.\<close> \<open>Video_AnnexB\<close> (\<open>annexb.rs\<close>), \<open>Video_Sps\<close> with \<open>Video_Rewrite\<close> (\<open>sps.rs\<close>: bit readers and
  writers, the parser and the rewriting to BT.709 full range), \<open>Video_Decode\<close> (\<open>metablock.rs\<close>, \<open>params.rs\<close>,
  \<open>decode.rs\<close>), \<open>Video_Encode\<close> (\<open>encode.rs\<close>), \<open>Video_Recorder\<close> (\<open>mp4.rs\<close>) and \<open>Video_Planes\<close> (\<open>cv.rs\<close>,
  \<open>quality.rs\<close>, \<open>drift-core/src/video.rs\<close>). What VideoToolbox and AVAssetWriter answer to a call is a parameter of
  that call (\<open>VtAnswers\<close>, \<open>EncAnswers\<close>, \<open>WriterAnswers\<close>), so every history of answers is covered.
  \<open>Video_Theorems\<close> and \<open>Video_Record_Theorems\<close> show that units and parameter sets survive every conversion,
  that a picture belongs to the newest parameter sets, how the encoder is called and that recordings
  alternate.

  \<^bold>\<open>\<open>drift-input\<close>.\<close> \<open>Input_Keymap\<close>, \<open>Input_Modifiers\<close>, \<open>Input_Unicode\<close>, \<open>Input_Keyboard\<close>, \<open>Input_Pointer\<close>
  (\<open>keymap.rs\<close>, \<open>modifiers.rs\<close>, \<open>unicode.rs\<close> with \<open>shortcuts.rs\<close>, \<open>keyboard.rs\<close>, \<open>scroll.rs\<close> with \<open>coords.rs\<close>) and
  \<open>Input_Wire\<close>, the remote end that receives the events. \<open>Input_Theorems\<close> shows that no key sticks, that
  losing the focus releases all, that menu combinations are not sent, that scrolling loses nothing and
  that clicks land on the pixel under the pointer.

  \<^bold>\<open>\<open>drift-clipboard\<close>.\<close> \<open>Clip_Formats\<close> (\<open>contents.rs\<close>, \<open>formats.rs\<close>; the image library is a parameter) and
  \<open>Clip_Sync\<close> (\<open>sync.rs\<close>, \<open>poll.rs\<close>). \<open>Clip_Theorems\<close> shows that there is one request at a time and it always
  ends, that the newest copy wins, that the preference holds at the wire, and what text and images look
  like on the other side.

  \<^bold>\<open>\<open>drift-rdp\<close>.\<close> \<open>Rdp_Redirect\<close> (\<open>redirect.rs\<close>, \<open>rdstls.rs\<close>), \<open>Rdp_FastPath\<close> (\<open>fastpath.rs\<close>), \<open>Rdp_Resize\<close>
  (\<open>resize.rs\<close>), \<open>Rdp_Connect\<close> (\<open>session.rs\<close>, \<open>pointer.rs\<close>, \<open>greeter.rs\<close>, \<open>connect.rs\<close>) and \<open>Rdp_Actor\<close>
  (\<open>actor.rs\<close> with \<open>clipboard.rs\<close>). An actor state is the actor between two awaits; \<open>actor_step\<close> is what
  happens when a future it waits for is ready (a command, a payload, a timer, the network), and it returns
  every effect in order, so a list of events is any interleaving. \<open>Rdp_Actor_Inv\<close> states the sequencing of
  a live leg's parts as a locale and interprets it for the two facts the invariant needs;
  \<open>Rdp_Actor_Run\<close> proves the invariant of all runs. \<open>Rdp_Theorems\<close> shows that credentials follow trust,
  that the state machine accepts what the actor does, when the stored password is typed, that redirections
  and dropped sessions end, that held input is released on every later leg and that the display follows
  the view. \<open>Rdp_Stats\<close> holds the statistics meter (\<open>stats.rs\<close>), the state the graphics bridge shares
  (\<open>graphics.rs\<close>), the acknowledging listener (\<open>gfx_ack.rs\<close>) and the credential log filter (\<open>logging.rs\<close>), with
  their properties in \<open>Rdp_Stats_Theorems\<close>.

  \<^bold>\<open>\<open>src-tauri\<close>.\<close> \<open>Core_Messages\<close> (\<open>drift-core/src/messages.rs\<close>) holds what actors and the app tell each other.
  \<open>App_View\<close> (\<open>view.rs\<close>) folds events into a view, \<open>App_Present\<close> (\<open>present.rs\<close>, \<open>options.rs\<close>) words it, \<open>App_Menu\<close>
  (\<open>menu.rs\<close>, \<open>dock.rs\<close>) builds the menus. \<open>App_Manager\<close> (\<open>manager.rs\<close>) is the session manager: its state behind the
  lock, and each asynchronous method cut at its awaits, so a list of calls is any interleaving with the pumps and
  actors; \<open>App_Manager_Run\<close> proves the invariant of all runs. \<open>App_Theorems\<close> shows that sessions end once, that
  shutting down completes, that views are well formed and tell their session's history, and that menu entries work.
  \<open>App_Profiles\<close> (\<open>profiles.rs\<close>, \<open>secrets.rs\<close>) stores profiles and passwords over the locale \<open>secret_store\<close>, with
  \<open>App_Profile_Theorems\<close>: stored passwords belong to a profile and the file is in step with memory. \<open>App_Services\<close>
  (\<open>services.rs\<close>) is the clipboard pump, \<open>App_Gallery\<close> (\<open>connections.rs\<close>, \<open>frames.rs\<close>) thumbnails and window frames,
  with \<open>App_Gallery_Theorems\<close>.

  \<^bold>\<open>\<open>drift-render\<close>.\<close> \<open>Render_Clip\<close> (\<open>clip.rs\<close>, \<open>layout.rs\<close>) and \<open>Render_Colour\<close> (\<open>color.rs\<close>): the clipping of every
  drawing operation, where the desktop is drawn on a target, and the conversion of colours. \<open>Render_Theorems\<close> shows
  that the desktop is drawn on the target, centred and in proportion, and that colours survive the server's encoder.

  \<^bold>\<open>Bounds and fuel.\<close> No definition uses fuel: every loop is structural or bounded by the data it consumes.
  Integers keep their width; the theorems state where wrap-around is excluded.

  \<^bold>\<open>Where the code departs from its intent.\<close> The ends of \<open>Clip_Theorems\<close>, \<open>Rdp_Theorems\<close>, \<open>App_Theorems\<close> and
  \<open>App_Gallery_Theorems\<close> and the lemma \<open>write_checks_area_only\<close> of \<open>Video_Planes\<close> prove the departures found.

  \<^bold>\<open>Not modelled.\<close> The channel wiring of \<open>graphics.rs\<close> and TLS set-up, which call libraries; the Metal compositor of
  \<open>drift-render\<close>, whose effect on the pictures is the renderer of \<open>Gfx_Renderer\<close>; the windows and commands of
  \<open>src-tauri\<close> and \<open>drift-macos\<close>, which are bindings to AppKit and Tauri; test support, build tools and vendored code.
\<close>

end
